(* ===== verification/Prelude.thy ===== *)
theory Prelude
  imports Complex_Main "HOL-Library.Sublist"
begin

text \<open>
  Shared vocabulary of the development: the JavaScript notions every component uses (nullish
  coalescing, \<open>findIndex\<close>, exact numbers), collections of rewrite rules the component proofs
  draw on, generic list lemmas, and the two contracts that recur in the frontend's asynchronous
  code: a guard that tells the newest request from the ones it superseded, and a state machine
  whose steps keep an invariant.

  Numbers are exact rationals (\<open>number\<close>) or integers: the rounding of IEEE doubles is not
  modelled, and a value that JavaScript would hold as NaN is an absent option.
\<close>

named_theorems table_defs \<open>lookup tables and constants, unfolded when a concrete entry is needed\<close>
named_theorems step_defs \<open>operations of the controllers, unfolded to check one step\<close>

type_synonym number = rat

section \<open>JavaScript helpers\<close>

text \<open>The operator \<open>??\<close>: the fallback replaces null and undefined only.\<close>

definition nullish :: "'a option \<Rightarrow> 'a \<Rightarrow> 'a" where
  "nullish x d = (case x of None \<Rightarrow> d | Some v \<Rightarrow> v)"

lemma nullish_simps [simp]: "nullish None d = d" "nullish (Some v) d = v"
  by (simp_all add: nullish_def)

text \<open>\<open>Array.prototype.findIndex\<close>; \<open>None\<close> stands for the answer \<open>-1\<close>.\<close>

primrec find_index :: "('a \<Rightarrow> bool) \<Rightarrow> 'a list \<Rightarrow> nat option" where
  "find_index P [] = None"
| "find_index P (x # xs) = (if P x then Some 0 else map_option Suc (find_index P xs))"

lemma find_index_None_iff: "find_index P xs = None \<longleftrightarrow> (\<forall>x\<in>set xs. \<not> P x)"
  by (induction xs) auto

lemma find_index_SomeD:
  "find_index P xs = Some i \<Longrightarrow> i < length xs \<and> P (xs ! i) \<and> (\<forall>j<i. \<not> P (xs ! j))"
proof (induction xs arbitrary: i)
  case Nil
  then show ?case by simp
next
  case (Cons x xs)
  show ?case
  proof (cases "P x")
    case True
    with Cons.prems show ?thesis by simp
  next
    case False
    with Cons.prems obtain k where k: "find_index P xs = Some k" "i = Suc k" by auto
    from Cons.IH [OF k(1)] False k(2) show ?thesis
      by (auto simp: nth_Cons split: nat.split)
  qed
qed

text \<open>The last element of an array, \<open>undefined\<close> for an empty one.\<close>

definition last_opt :: "'a list \<Rightarrow> 'a option" where
  "last_opt xs = (if xs = [] then None else Some (last xs))"

definition first_opt :: "'a list \<Rightarrow> 'a option" where
  "first_opt xs = (case xs of [] \<Rightarrow> None | x # _ \<Rightarrow> Some x)"

lemma last_opt_simps [simp]:
  "last_opt [] = None" "last_opt (xs @ [x]) = Some x" "last_opt xs = None \<longleftrightarrow> xs = []"
  by (auto simp: last_opt_def)

lemma last_opt_SomeD: "last_opt xs = Some x \<Longrightarrow> xs \<noteq> [] \<and> x = last xs"
  by (auto simp: last_opt_def split: if_splits)

lemma first_opt_simps [simp]: "first_opt [] = None" "first_opt (x # xs) = Some x"
  by (auto simp: first_opt_def)

lemma floor_divide_numeral_rat [simp]:
  "\<lfloor>numeral a / numeral b :: rat\<rfloor> = numeral a div numeral b"
  using floor_divide_of_int_eq [of "numeral a" "numeral b", where ?'a = rat] by simp

section \<open>Generic list lemmas\<close>

lemma distinct_map_filter_key: "distinct (map f xs) \<Longrightarrow> distinct (map f (filter P xs))"
  by (induction xs) auto

lemma distinct_map_drop_key: "distinct (map f xs) \<Longrightarrow> distinct (map f (drop n xs))"
  by (metis distinct_drop drop_map)

lemma distinct_map_append_fresh:
  assumes "distinct (map f xs)" and "distinct (map f ys)"
  shows "distinct (map f (xs @ filter (\<lambda>y. f y \<notin> f ` set xs) ys))"
  using assms by (auto simp: distinct_map_filter_key) (metis imageI)

lemma map_key_update:
  "map f (map (\<lambda>y. if f y = f x then x else y) xs) = map f xs"
  by (induction xs) auto

section \<open>Contract: a guard over requests\<close>

text \<open>
  The frontend drops an answer that arrives after a newer request superseded it. Each component
  draws a token when it starts a request and compares it when the answer arrives. The contract
  says what such a guard must do: while the component is enabled (mounted, active) a fresh token is
  current, and drawing the next one ends the currency of every token drawn before.
\<close>

locale request_guard =
  fixes issue :: "'s \<Rightarrow> 's"
    and token :: "'s \<Rightarrow> 't"
    and current :: "'s \<Rightarrow> 't \<Rightarrow> bool"
    and enabled :: "'s \<Rightarrow> bool"
  assumes issued_current: "enabled s \<Longrightarrow> current (issue s) (token (issue s))"
    and current_unique: "current s t \<Longrightarrow> t = token s"
    and issue_fresh: "token ((issue ^^ Suc n) s) \<noteq> token s"
begin

lemma issue_supersedes:
  assumes "current s t"
  shows "\<not> current (issue s) t"
proof
  assume "current (issue s) t"
  then have "t = token (issue s)" by (rule current_unique)
  moreover have "t = token s" using assms by (rule current_unique)
  ultimately show False using issue_fresh [of 0 s] by simp
qed

lemma superseded_forever:
  assumes "0 < n"
  shows "\<not> current ((issue ^^ n) s) (token s)"
proof
  assume "current ((issue ^^ n) s) (token s)"
  then have "token s = token ((issue ^^ n) s)" by (rule current_unique)
  moreover obtain m where "n = Suc m" using assms by (cases n) auto
  ultimately show False using issue_fresh [of m s] by simp
qed

lemma current_at_most_one: "current s t \<Longrightarrow> current s u \<Longrightarrow> t = u"
  by (metis current_unique)

end

text \<open>
  A component whose answers go through the guard: an answer under a token that is not current
  changes nothing, so a whole batch of late answers changes nothing either.
\<close>

locale guarded_answers = request_guard issue token current enabled
  for issue :: "'s \<Rightarrow> 's" and token :: "'s \<Rightarrow> 't" and current :: "'s \<Rightarrow> 't \<Rightarrow> bool"
    and enabled :: "'s \<Rightarrow> bool" +
  fixes settle :: "'t \<Rightarrow> 'r \<Rightarrow> 's \<Rightarrow> 's"
  assumes stale_dropped: "\<not> current s t \<Longrightarrow> settle t r s = s"
begin

lemma stale_batch_dropped:
  assumes "\<And>t r. (t, r) \<in> set answers \<Longrightarrow> \<not> current s t"
  shows "foldl (\<lambda>st (t, r). settle t r st) s answers = s"
  using assms
proof (induction answers)
  case Nil
  then show ?case by simp
next
  case (Cons a answers)
  obtain t r where a: "a = (t, r)" by (cases a)
  have "\<not> current s t" using Cons.prems [of t r] a by simp
  then have "settle t r s = s" by (rule stale_dropped)
  moreover have "foldl (\<lambda>st (t, r). settle t r st) s answers = s"
    using Cons.prems by (intro Cons.IH) auto
  ultimately show ?case using a by simp
qed

lemma answer_after_newer_request: "settle (token s) r (issue s) = issue s"
  using superseded_forever [of 1 s] by (intro stale_dropped) simp

end

section \<open>Contract: a state machine with an invariant\<close>

locale invariant_machine =
  fixes step :: "'s \<Rightarrow> 'e \<Rightarrow> 's"
    and inv :: "'s \<Rightarrow> bool"
  assumes step_inv: "inv s \<Longrightarrow> inv (step s e)"
begin

lemma run_inv: "inv s \<Longrightarrow> inv (foldl step s es)"
  by (induction es arbitrary: s) (auto intro: step_inv)

end

text \<open>The same where the invariant needs events of a certain form, such as values of their types or
  answers that keep to what was asked.\<close>

locale guarded_machine =
  fixes step :: "'s \<Rightarrow> 'e \<Rightarrow> 's"
    and inv :: "'s \<Rightarrow> bool"
    and admissible :: "'e \<Rightarrow> bool"
  assumes guarded_step_inv: "inv s \<Longrightarrow> admissible e \<Longrightarrow> inv (step s e)"
begin

lemma guarded_run_inv: "inv s \<Longrightarrow> list_all admissible es \<Longrightarrow> inv (foldl step s es)"
  by (induction es arbitrary: s) (auto intro: guarded_step_inv)

end

sublocale invariant_machine \<subseteq> any: guarded_machine step inv "\<lambda>_. True"
  by unfold_locales (rule step_inv)

section \<open>Contract: a form that saves tested settings only\<close>

text \<open>
  The forms of storages, notifiers and databases send their settings only after a successful test of
  them. The settings carry a revision, a test remembers the revision it tested, and \<open>submits\<close> is what a
  save would send. \<open>quiet n e\<close> says that the event is no start of a test and no answer of a test of
  settings newer than \<open>n\<close>.
\<close>

locale tested_form =
  fixes step :: "'s \<Rightarrow> 'e \<Rightarrow> 's"
    and revision :: "'s \<Rightarrow> nat"
    and tested :: "'s \<Rightarrow> nat option"
    and quiet :: "nat \<Rightarrow> 'e \<Rightarrow> bool"
    and submits :: "'s \<Rightarrow> 't option"
  assumes revision_grows: "revision s \<le> revision (step s e)"
    and quiet_step: "quiet n e \<Longrightarrow> n < revision s \<Longrightarrow> tested s \<noteq> Some (revision s) \<Longrightarrow>
      tested (step s e) \<noteq> Some (revision (step s e))"
    and untested_refused: "tested s \<noteq> Some (revision s) \<Longrightarrow> submits s = None"
begin

lemma untested_run:
  "list_all (quiet n) es \<Longrightarrow> n < revision s \<Longrightarrow> tested s \<noteq> Some (revision s) \<Longrightarrow>
    submits (foldl step s es) = None"
proof (induction es arbitrary: s)
  case Nil
  then show ?case by (simp add: untested_refused)
next
  case (Cons e es)
  have "n < revision (step s e)" using Cons.prems(2) revision_grows by (rule order_less_le_trans)
  then show ?case using Cons.prems quiet_step [of n e s] by (simp add: Cons.IH)
qed

end

end
