(* ===== verification/Paged_Lists.thy ===== *)
theory Paged_Lists
  imports Prelude
begin

text \<open>
  The pure half of the paged lists (\<open>src/frontend/src/shared/lib/pagedList.ts\<close> and
  \<open>collectCursorPages.ts\<close>): how a loaded list takes in the next page and a refreshed first page.
  A row is identified by \<open>getItemKey\<close>, here the argument \<open>key\<close>.
\<close>

record ('i, 'c, 'm) page =
  items :: "'i list"
  next_cursor :: "'c option"
  metadata :: "'m option"

definition append_next_page ::
  "('i \<Rightarrow> string) \<Rightarrow> ('i, 'c, 'm) page \<Rightarrow> ('i, 'c, 'm) page \<Rightarrow> ('i, 'c, 'm) page" where
  "append_next_page key loaded next_page =
     (let loaded_keys = key ` set (items loaded);
          new_items = filter (\<lambda>i. key i \<notin> loaded_keys) (items next_page)
      in loaded\<lparr>items := items loaded @ new_items, next_cursor := next_cursor next_page\<rparr>)"

text \<open>
  The branches of \<open>mergeRefreshedFirstPage\<close> that return the first page object itself: the page
  ends the list or is empty, its last row is not loaded, or nothing is loaded behind that row.
  The controller compares object identity with the first page, which is this condition.
\<close>

definition falls_back_to_first_page ::
  "('i \<Rightarrow> string) \<Rightarrow> ('i, 'c, 'm) page \<Rightarrow> ('i, 'c, 'm) page \<Rightarrow> bool" where
  "falls_back_to_first_page key loaded first_page =
     (case last_opt (items first_page) of
        None \<Rightarrow> True
      | Some last_item \<Rightarrow>
          next_cursor first_page = None \<or>
          (case find_index (\<lambda>i. key i = key last_item) (items loaded) of
             None \<Rightarrow> True
           | Some k \<Rightarrow> Suc k = length (items loaded)))"

definition loaded_tail ::
  "('i \<Rightarrow> string) \<Rightarrow> ('i, 'c, 'm) page \<Rightarrow> ('i, 'c, 'm) page \<Rightarrow> 'i list" where
  "loaded_tail key loaded first_page =
     (case last_opt (items first_page) of
        None \<Rightarrow> []
      | Some last_item \<Rightarrow>
          (case find_index (\<lambda>i. key i = key last_item) (items loaded) of
             None \<Rightarrow> []
           | Some k \<Rightarrow> filter (\<lambda>i. key i \<notin> key ` set (items first_page)) (drop (Suc k) (items loaded))))"

definition merge_refreshed_first_page ::
  "('i \<Rightarrow> string) \<Rightarrow> ('i, 'c, 'm) page \<Rightarrow> ('i, 'c, 'm) page \<Rightarrow> ('i, 'c, 'm) page" where
  "merge_refreshed_first_page key loaded first_page =
     (if falls_back_to_first_page key loaded first_page then first_page
      else first_page\<lparr>items := items first_page @ loaded_tail key loaded first_page,
                      next_cursor := next_cursor loaded\<rparr>)"

text \<open>
  The loop of \<open>collectCursorPages\<close>. The service may answer differently over time, so the
  answer depends on the number of the call; a rejected request ends the loop with its error. The
  loop need not end (a service that always names a next cursor), hence the option.
\<close>

partial_function (option) collect_from ::
  "(nat \<Rightarrow> 'c option \<Rightarrow> 'e + ('i, 'c, 'm) page) \<Rightarrow> nat \<Rightarrow> 'c option \<Rightarrow> 'i list \<Rightarrow> ('e + 'i list) option" where
  "collect_from fetch n cursor acc =
     (case fetch n cursor of
        Inl e \<Rightarrow> Some (Inl e)
      | Inr p \<Rightarrow>
          (case next_cursor p of
             None \<Rightarrow> Some (Inr (acc @ items p))
           | Some c \<Rightarrow> collect_from fetch (Suc n) (Some c) (acc @ items p)))"

definition collect_cursor_pages ::
  "(nat \<Rightarrow> 'c option \<Rightarrow> 'e + ('i, 'c, 'm) page) \<Rightarrow> ('e + 'i list) option" where
  "collect_cursor_pages fetch = collect_from fetch 0 None []"

text \<open>Specification: the pages a service hands out from one cursor to the end of the list.\<close>

fun page_chain ::
  "(nat \<Rightarrow> 'c option \<Rightarrow> 'e + ('i, 'c, 'm) page) \<Rightarrow> nat \<Rightarrow> 'c option \<Rightarrow> ('i, 'c, 'm) page list \<Rightarrow> bool" where
  "page_chain fetch n cursor [] = False"
| "page_chain fetch n cursor [p] = (fetch n cursor = Inr p \<and> next_cursor p = None)"
| "page_chain fetch n cursor (p # ps) =
     (fetch n cursor = Inr p \<and> next_cursor p \<noteq> None \<and> page_chain fetch (Suc n) (next_cursor p) ps)"

abbreviation keys_of :: "('i \<Rightarrow> string) \<Rightarrow> ('i, 'c, 'm) page \<Rightarrow> string list" where
  "keys_of key p \<equiv> map key (items p)"

section \<open>Appending the next page\<close>

lemma append_next_page_items:
  "items (append_next_page key l n) =
     items l @ filter (\<lambda>i. key i \<notin> key ` set (items l)) (items n)"
  by (simp add: append_next_page_def Let_def)

lemma append_next_page_keys:
  "set (keys_of key (append_next_page key l n)) = set (keys_of key l) \<union> set (keys_of key n)"
  by (auto simp: append_next_page_items)

lemma append_next_page_distinct:
  assumes "distinct (keys_of key l)" and "distinct (keys_of key n)"
  shows "distinct (keys_of key (append_next_page key l n))"
  unfolding append_next_page_items using assms by (rule distinct_map_append_fresh)

section \<open>Merging a refreshed first page\<close>

lemma loaded_tail_keys_fresh:
  "i \<in> set (loaded_tail key l p) \<Longrightarrow> key i \<notin> set (keys_of key p) \<and> i \<in> set (items l)"
  by (auto simp: loaded_tail_def split: option.splits dest: in_set_dropD)

lemma loaded_tail_distinct:
  "distinct (keys_of key l) \<Longrightarrow> distinct (map key (loaded_tail key l p))"
  by (auto simp: loaded_tail_def split: option.splits
      intro: distinct_map_filter_key distinct_map_drop_key)

lemma merge_distinct:
  assumes "distinct (keys_of key l)" and "distinct (keys_of key p)"
  shows "distinct (keys_of key (merge_refreshed_first_page key l p))"
  using assms loaded_tail_distinct [of key l p] loaded_tail_keys_fresh [of _ key l p]
  by (auto simp: merge_refreshed_first_page_def) (metis imageI)

lemma merge_prefix:
  "prefix (items p) (items (merge_refreshed_first_page key l p))"
  by (simp add: merge_refreshed_first_page_def)

lemma merge_keys_subset:
  "set (keys_of key (merge_refreshed_first_page key l p)) \<subseteq> set (keys_of key l) \<union> set (keys_of key p)"
  using loaded_tail_keys_fresh [of _ key l p] by (auto simp: merge_refreshed_first_page_def)

lemma find_index_last_distinct:
  assumes "distinct (map key xs)" and "xs \<noteq> []"
  shows "find_index (\<lambda>i. key i = key (last xs)) (xs @ ys) = Some (length xs - 1)"
  using assms by (induction xs) auto

lemma not_falls_backD:
  assumes "\<not> falls_back_to_first_page key l p"
  obtains k where "items p \<noteq> []" and "next_cursor p \<noteq> None"
    and "find_index (\<lambda>i. key i = key (last (items p))) (items l) = Some k"
    and "Suc k < length (items l)"
proof -
  have ne: "items p \<noteq> []" using assms by (auto simp: falls_back_to_first_page_def)
  then have lo: "last_opt (items p) = Some (last (items p))" by (simp add: last_opt_def)
  from assms lo obtain k where k: "find_index (\<lambda>i. key i = key (last (items p))) (items l) = Some k"
      "next_cursor p \<noteq> None" "Suc k \<noteq> length (items l)"
    by (auto simp: falls_back_to_first_page_def split: option.splits)
  from find_index_SomeD [OF k(1)] k(3) have "Suc k < length (items l)" by simp
  with ne k show ?thesis by (intro that)
qed

text \<open>
  A refresh that brings the same first page again changes nothing, as long as the first merge kept
  at least one row behind the page.
\<close>

lemma merge_idempotent_lemma:
  assumes d: "distinct (keys_of key p)"
    and nf: "\<not> falls_back_to_first_page key l p"
    and ne: "loaded_tail key l p \<noteq> []"
  shows "merge_refreshed_first_page key (merge_refreshed_first_page key l p) p =
         merge_refreshed_first_page key l p"
proof -
  let ?t = "loaded_tail key l p" and ?m = "merge_refreshed_first_page key l p"
  have m: "items ?m = items p @ ?t" "next_cursor ?m = next_cursor l"
    using nf by (simp_all add: merge_refreshed_first_page_def)
  obtain k where pne: "items p \<noteq> []" and c: "next_cursor p \<noteq> None"
    using nf by (rule not_falls_backD)
  have lo: "last_opt (items p) = Some (last (items p))" using pne by (simp add: last_opt_def)
  have fi: "find_index (\<lambda>i. key i = key (last (items p))) (items ?m) = Some (length (items p) - 1)"
    unfolding m(1) using d pne by (rule find_index_last_distinct)
  have nf': "\<not> falls_back_to_first_page key ?m p"
    using c ne pne by (simp add: falls_back_to_first_page_def lo fi [unfolded m(1)] m(1))
  have "loaded_tail key ?m p = filter (\<lambda>i. key i \<notin> key ` set (items p)) ?t"
    using pne by (simp add: loaded_tail_def [of key ?m p] lo fi [unfolded m(1)] m(1))
  also have "\<dots> = ?t"
    using loaded_tail_keys_fresh [of _ key l p] by (intro filter_True) auto
  finally have t: "loaded_tail key ?m p = ?t" .
  have "merge_refreshed_first_page key ?m p = p\<lparr>items := items p @ ?t, next_cursor := next_cursor ?m\<rparr>"
    using nf' t by (subst merge_refreshed_first_page_def) simp
  also have "\<dots> = ?m"
    unfolding m(2) using nf by (subst merge_refreshed_first_page_def) simp
  finally show ?thesis .
qed

text \<open>Rows loaded behind the page's last row stay, in their order, unless the page repeats them.\<close>

lemma merge_keeps_tail:
  assumes "\<not> falls_back_to_first_page key l p"
    and "find_index (\<lambda>i. key i = key (last (items p))) (items l) = Some k"
  shows "items (merge_refreshed_first_page key l p) =
    items p @ filter (\<lambda>i. key i \<notin> set (keys_of key p)) (drop (Suc k) (items l))"
proof -
  have "items p \<noteq> []" using assms(1) by (auto simp: falls_back_to_first_page_def)
  then show ?thesis
    using assms by (simp add: merge_refreshed_first_page_def loaded_tail_def last_opt_def)
qed

section \<open>Collecting every page\<close>

lemma collect_from_chain:
  "page_chain fetch n cursor ps \<Longrightarrow>
   collect_from fetch n cursor acc = Some (Inr (acc @ concat (map items ps)))"
proof (induction fetch n cursor ps arbitrary: acc rule: page_chain.induct)
  case (1 fetch n cursor)
  then show ?case by simp
next
  case (2 fetch n cursor p)
  then show ?case by (simp add: collect_from.simps)
next
  case (3 fetch n cursor p q ps)
  then obtain c where "next_cursor p = Some c" by auto
  with 3 show ?case by (subst collect_from.simps) simp
qed

section \<open>Properties\<close>

text \<open>Appending the next page keeps every loaded row in its place, adds the rows of the page
  that are not loaded, takes over the page's cursor, and never shows a key twice.\<close>

theorem append_next_page_correct:
  assumes "distinct (keys_of key l)" and "distinct (keys_of key n)"
  shows "prefix (items l) (items (append_next_page key l n)) \<and>
    distinct (keys_of key (append_next_page key l n)) \<and>
    set (keys_of key (append_next_page key l n)) = set (keys_of key l) \<union> set (keys_of key n) \<and>
    next_cursor (append_next_page key l n) = next_cursor n"
  using append_next_page_distinct [OF assms] append_next_page_keys [of key l n]
  by (simp add: append_next_page_items) (simp add: append_next_page_def Let_def)

theorem append_next_page_correct_witness:
  "items (append_next_page id \<lparr>items = [''a'', ''b''], next_cursor = Some (1::nat), metadata = None\<rparr>
     \<lparr>items = [''b'', ''c''], next_cursor = None, metadata = Some ()\<rparr>) = [''a'', ''b'', ''c''] \<and>
   distinct (keys_of id (append_next_page id
     \<lparr>items = [''a'', ''b''], next_cursor = Some (1::nat), metadata = None\<rparr>
     \<lparr>items = [''b'', ''c''], next_cursor = None, metadata = Some ()\<rparr>))"
  using append_next_page_correct [of id
      "\<lparr>items = [''a'', ''b''], next_cursor = Some (1::nat), metadata = None\<rparr>"
      "\<lparr>items = [''b'', ''c''], next_cursor = None, metadata = Some ()\<rparr>"]
  by (simp add: append_next_page_def)

text \<open>Merging the same refreshed first page twice is the same as merging it once: once the
  page is lined up with the loaded rows and rows stay loaded behind it, a poll that brings no news
  leaves the list alone.\<close>

theorem merge_refreshed_first_page_idempotent:
  assumes "distinct (keys_of key p)" and "\<not> falls_back_to_first_page key l p"
    and "loaded_tail key l p \<noteq> []"
  shows "merge_refreshed_first_page key (merge_refreshed_first_page key l p) p =
         merge_refreshed_first_page key l p"
  using assms by (rule merge_idempotent_lemma)

theorem merge_refreshed_first_page_idempotent_witness:
  "let l = \<lparr>items = [''b'', ''c'', ''d''], next_cursor = Some (3::nat), metadata = None\<rparr>;
       p = \<lparr>items = [''a'', ''b''], next_cursor = Some 2, metadata = Some ()\<rparr>;
       m = merge_refreshed_first_page id l p
   in items m = [''a'', ''b'', ''c'', ''d''] \<and> next_cursor m = Some 3 \<and>
      merge_refreshed_first_page id m p = m"
  using merge_refreshed_first_page_idempotent [of id
      "\<lparr>items = [''a'', ''b''], next_cursor = Some 2, metadata = Some ()\<rparr>"
      "\<lparr>items = [''b'', ''c'', ''d''], next_cursor = Some (3::nat), metadata = None\<rparr>"]
  by (simp add: merge_refreshed_first_page_def falls_back_to_first_page_def loaded_tail_def
      last_opt_def Let_def)

text \<open>C28: When a service hands out a finite chain of pages, \<open>collectCursorPages\<close> returns, and
  what it returns are the rows of every page in order.\<close>

theorem collect_cursor_pages_complete:
  assumes "page_chain fetch 0 None ps"
  shows "collect_cursor_pages fetch = Some (Inr (concat (map items ps)))"
  using collect_from_chain [OF assms, of "[]"] by (simp add: collect_cursor_pages_def)

theorem collect_cursor_pages_complete_witness:
  "collect_cursor_pages
     (\<lambda>n c. if c = None
        then Inr \<lparr>items = [''a''], next_cursor = Some n, metadata = None :: unit option\<rparr>
        else Inr \<lparr>items = [''b'', ''c''], next_cursor = None, metadata = None\<rparr> ::
          string + (string, nat, unit) page)
   = Some (Inr [''a'', ''b'', ''c''])"
  using collect_cursor_pages_complete [of
      "\<lambda>n c. if c = None
        then Inr \<lparr>items = [''a''], next_cursor = Some n, metadata = None :: unit option\<rparr>
        else Inr \<lparr>items = [''b'', ''c''], next_cursor = None, metadata = None\<rparr> ::
          string + (string, nat, unit) page"
      "[\<lparr>items = [''a''], next_cursor = Some 0, metadata = None\<rparr>,
        \<lparr>items = [''b'', ''c''], next_cursor = None, metadata = None\<rparr>]"]
  by simp

end
