(* ===== verification/Page_Values.thy ===== *)
theory Page_Values
  imports Prelude
begin

text \<open>
  JSON-like values and the deep comparison \<open>isPageValueEqual\<close> of
  \<open>src/frontend/src/shared/lib/PagedListController.ts\<close>, with its specification: two values compare
  equal exactly when they denote the same value, the order of an object's fields left aside.

  The rows come from \<open>JSON.parse\<close>, so there is no NaN, no function and no cycle. An object is
  its fields in order, under distinct names (\<open>well_formed\<close>).
\<close>

datatype jsval =
    JUndefined
  | JNull
  | JBool bool
  | JNum number
  | JStr string
  | JArr "jsval list"
  | JObj "(string \<times> jsval) list"

text \<open>
  The identity shortcut \<open>===\<close> answers true for equal primitives, and for the same object, whose
  fields then compare equal too.
\<close>

function (sequential) page_value_equal :: "jsval \<Rightarrow> jsval \<Rightarrow> bool" where
  "page_value_equal (JArr xs) (JArr ys) =
     (length xs = length ys \<and> list_all (\<lambda>(x, y). page_value_equal x y) (zip xs ys))"
| "page_value_equal (JObj xs) (JObj ys) =
     (length xs = length ys \<and>
      list_all (\<lambda>(k, v). case map_of ys k of None \<Rightarrow> False | Some w \<Rightarrow> page_value_equal v w) xs)"
| "page_value_equal x y = (x = y)"
  by pat_completeness auto

lemma zip_left_smaller: "(a, b) \<in> set (zip xs ys) \<Longrightarrow> size a < Suc (size_list size xs)"
  using size_list_estimation' [of a xs "size a" size] by (auto dest: set_zip_leftD)

lemma field_smaller: "(k, v) \<in> set xs \<Longrightarrow> size v < Suc (size_list (size_prod (\<lambda>x. 0) size) xs)"
  using size_list_estimation' [of "(k, v)" xs "size v" "size_prod (\<lambda>x. 0) size"] by simp

termination page_value_equal
  by (relation "measure (\<lambda>(x, y). size x)") (auto simp: zip_left_smaller field_smaller)

definition optional_value :: "jsval option \<Rightarrow> jsval" where
  "optional_value v = nullish v JUndefined"

section \<open>What a value denotes\<close>

datatype meaning =
    MPrim jsval
  | MArr "meaning list"
  | MObj "string \<Rightarrow> meaning option"

fun denote :: "jsval \<Rightarrow> meaning" where
  "denote (JArr xs) = MArr (map denote xs)"
| "denote (JObj xs) = MObj (map_of (map (\<lambda>(k, v). (k, denote v)) xs))"
| "denote v = MPrim v"

fun well_formed :: "jsval \<Rightarrow> bool" where
  "well_formed (JArr xs) = list_all well_formed xs"
| "well_formed (JObj xs) = (distinct (map fst xs) \<and> list_all (\<lambda>(k, v). well_formed v) xs)"
| "well_formed v = True"

lemma map_of_denote: "map_of (map (\<lambda>(k, v). (k, denote v)) xs) k = map_option denote (map_of xs k)"
  by (induction xs) auto

lemma well_formed_fields: "well_formed (JObj xs) \<Longrightarrow> map_of xs k = Some v \<Longrightarrow> well_formed v"
  by (auto simp: list_all_iff dest!: map_of_SomeD)

lemma same_domain_of_subset:
  assumes "distinct (map fst xs)" and "distinct (map fst ys)" and "length xs = length ys"
    and "set (map fst xs) \<subseteq> set (map fst ys)"
  shows "set (map fst xs) = set (map fst ys)"
proof (rule card_subset_eq)
  show "finite (set (map fst ys))" by simp
  show "set (map fst xs) \<subseteq> set (map fst ys)" by (rule assms(4))
  show "card (set (map fst xs)) = card (set (map fst ys))"
    using assms(1-3) by (simp only: distinct_card length_map)
qed

lemma same_keys_if_maps_agree:
  assumes "\<forall>k. map_option f (map_of xs k) = map_option f (map_of ys k)"
  shows "set (map fst xs) = set (map fst ys)"
proof -
  have "map_of xs k = None \<longleftrightarrow> map_of ys k = None" for k
    using assms by (metis option.map_disc_iff)
  then show ?thesis by (auto simp: map_of_eq_None_iff)
qed

lemma fields_equal_iff:
  assumes dx: "distinct (map fst xs)" and dy: "distinct (map fst ys)"
    and eq: "\<And>k v w. map_of xs k = Some v \<Longrightarrow> map_of ys k = Some w \<Longrightarrow>
      page_value_equal v w \<longleftrightarrow> denote v = denote w"
  shows "page_value_equal (JObj xs) (JObj ys) \<longleftrightarrow>
    (\<forall>k. map_option denote (map_of xs k) = map_option denote (map_of ys k))" (is "?L \<longleftrightarrow> ?R")
proof
  assume L: ?L
  then have len: "length xs = length ys" by simp
  have each: "\<exists>w. map_of ys k = Some w \<and> denote v = denote w" if "map_of xs k = Some v" for k v
  proof -
    have "(k, v) \<in> set xs" using that by (rule map_of_SomeD)
    with L obtain w where "map_of ys k = Some w" "page_value_equal v w"
      by (auto simp: list_all_iff split: option.splits)
    with eq [OF that] show ?thesis by blast
  qed
  have "set (map fst xs) \<subseteq> set (map fst ys)"
  proof
    fix k assume "k \<in> set (map fst xs)"
    then obtain v where "map_of xs k = Some v" by (metis map_of_eq_None_iff not_Some_eq set_map)
    from each [OF this] obtain w where "map_of ys k = Some w" by blast
    then show "k \<in> set (map fst ys)" by (metis map_of_eq_None_iff option.distinct(1) set_map)
  qed
  then have dom: "set (map fst xs) = set (map fst ys)"
    using same_domain_of_subset [OF dx dy len] by blast
  show ?R
  proof
    fix k
    show "map_option denote (map_of xs k) = map_option denote (map_of ys k)"
    proof (cases "map_of xs k")
      case None
      then have "map_of ys k = None" using dom by (metis map_of_eq_None_iff set_map)
      with None show ?thesis by simp
    next
      case (Some v)
      from each [OF this] Some show ?thesis by auto
    qed
  qed
next
  assume R: ?R
  have "set (map fst xs) = set (map fst ys)" using R by (rule same_keys_if_maps_agree)
  then have len: "length xs = length ys"
    using distinct_card [OF dx] distinct_card [OF dy] by simp
  have "case map_of ys k of None \<Rightarrow> False | Some w \<Rightarrow> page_value_equal v w" if "(k, v) \<in> set xs" for k v
  proof -
    have kv: "map_of xs k = Some v" using that dx by simp
    with R have "map_option denote (map_of ys k) = Some (denote v)" by (metis option.simps(9))
    then obtain w where "map_of ys k = Some w" "denote w = denote v" by auto
    with eq [OF kv] show ?thesis by simp
  qed
  with len show ?L by (auto simp: list_all_iff)
qed

lemma denote_primD: "denote x = MPrim v \<Longrightarrow> x = v"
  by (cases x) auto

lemma page_value_equal_iff_denote:
  "well_formed x \<Longrightarrow> well_formed y \<Longrightarrow> page_value_equal x y \<longleftrightarrow> denote x = denote y"
proof (induction x y rule: page_value_equal.induct)
  case (1 xs ys)
  show ?case
  proof (cases "length xs = length ys")
    case True
    have "page_value_equal (xs ! i) (ys ! i) \<longleftrightarrow> denote (xs ! i) = denote (ys ! i)"
      if "i < length xs" for i
      using 1 True that by (intro "1.IH" [of "(xs ! i, ys ! i)"]) (auto simp: list_all_length in_set_zip)
    with True show ?thesis
      by (auto simp: list_all_length list_eq_iff_nth_eq)
  next
    case False
    then show ?thesis by (auto dest: map_eq_imp_length_eq)
  qed
next
  case (2 xs ys)
  have dx: "distinct (map fst xs)" and dy: "distinct (map fst ys)" using 2 by simp_all
  have "page_value_equal (JObj xs) (JObj ys) \<longleftrightarrow>
    (\<forall>k. map_option denote (map_of xs k) = map_option denote (map_of ys k))"
  proof (cases "length xs = length ys")
    case True
    show ?thesis
    proof (rule fields_equal_iff [OF dx dy])
      fix k v w
      assume kv: "map_of xs k = Some v" and kw: "map_of ys k = Some w"
      have "(k, v) \<in> set xs" using kv by (rule map_of_SomeD)
      then show "page_value_equal v w \<longleftrightarrow> denote v = denote w"
        using "2.IH" [of "(k, v)" k v w] kw 2
          well_formed_fields [of xs k v] well_formed_fields [of ys k w] kv by blast
    qed
  next
    case False
    then have "set (map fst xs) \<noteq> set (map fst ys)"
      using distinct_card [OF dx] distinct_card [OF dy] by auto
    then have "\<not> (\<forall>k. map_option denote (map_of xs k) = map_option denote (map_of ys k))"
      using same_keys_if_maps_agree by blast
    with False show ?thesis by simp
  qed
  then show ?case by (simp add: map_of_denote fun_eq_iff)
qed (auto dest: denote_primD denote_primD [OF sym])

lemma page_value_equal_refl: "well_formed x \<Longrightarrow> page_value_equal x x"
  by (simp add: page_value_equal_iff_denote)

text \<open>The deep comparison that decides whether a poll brought news is exact: on well-formed
  values it answers true exactly when both denote the same value, so it is an equivalence, and the
  order in which a response lists an object's fields never makes a row look changed.\<close>

theorem page_value_equal_correct:
  assumes "well_formed x" and "well_formed y"
  shows "page_value_equal x y \<longleftrightarrow> denote x = denote y"
  using assms by (rule page_value_equal_iff_denote)

theorem page_value_equal_correct_witness:
  "page_value_equal (JObj [(''id'', JStr ''a''), (''size'', JArr [JNum 1, JNull])])
     (JObj [(''size'', JArr [JNum 1, JNull]), (''id'', JStr ''a'')]) \<and>
   \<not> page_value_equal (JObj [(''id'', JStr ''a'')]) (JObj [(''id'', JStr ''b'')]) \<and>
   denote (JObj [(''id'', JStr ''a'')]) \<noteq> denote (JObj [(''id'', JStr ''b'')])"
  using page_value_equal_correct [of "JObj [(''id'', JStr ''a'')]" "JObj [(''id'', JStr ''b'')]"]
  by simp

end
