(* ===== verification/Paged_Controller.thy ===== *)
theory Paged_Controller
  imports Paged_Lists Page_Values
begin

text \<open>
  \<open>PagedListController\<close> (\<open>src/frontend/src/shared/lib/PagedListController.ts\<close>) and the hook
  \<open>usePagedList\<close> that drives it. An asynchronous method is cut at its \<open>await\<close>: the start runs
  to the request and leaves a pending continuation with the values it captured (the generation and
  the request symbol); \<open>settle_pending\<close> runs the rest when the answer arrives, in any order. Every
  call of \<open>onStateChange\<close>, \<open>onError\<close> and \<open>fetchPage\<close> is recorded in the log.

  A fresh \<open>Symbol()\<close> is the next unused natural number.
\<close>

datatype failed_page = FailedFirst | FailedNext

record list_state =
  ls_list :: "(jsval, jsval, jsval) page"
  ls_loading :: bool
  ls_loading_more :: bool
  ls_error :: "jsval option"

datatype effect =
    StateChanged list_state
  | ErrorReported jsval failed_page
  | PageRequested "jsval option"

record controller =
  c_key :: "jsval \<Rightarrow> string"
  c_state :: list_state
  c_generation :: nat
  c_active :: bool
  c_ready :: bool
  c_refresh_request :: "nat option"
  c_next_request :: "nat option"
  c_fresh :: nat
  c_log :: "effect list"

datatype pending = PReload nat | PRefresh nat nat | PNext nat nat

type_synonym answer = "jsval + (jsval, jsval, jsval) page"

definition initial_list_state :: list_state where
  "initial_list_state =
     \<lparr>ls_list = \<lparr>items = [], next_cursor = None, metadata = None\<rparr>,
      ls_loading = True, ls_loading_more = False, ls_error = None\<rparr>"

definition new_controller :: "(jsval \<Rightarrow> string) \<Rightarrow> controller" where
  "new_controller key =
     \<lparr>c_key = key, c_state = initial_list_state, c_generation = 0, c_active = True, c_ready = False,
      c_refresh_request = None, c_next_request = None, c_fresh = 0, c_log = []\<rparr>"

section \<open>Operations\<close>

definition log_effect :: "effect \<Rightarrow> controller \<Rightarrow> controller" where
  "log_effect e c = c\<lparr>c_log := c_log c @ [e]\<rparr>"

definition update_state :: "(list_state \<Rightarrow> list_state) \<Rightarrow> controller \<Rightarrow> controller" where
  "update_state change c =
     (let s = change (c_state c) in log_effect (StateChanged s) (c\<lparr>c_state := s\<rparr>))"

definition invalidate_requests :: "controller \<Rightarrow> controller" where
  "invalidate_requests c =
     c\<lparr>c_generation := Suc (c_generation c), c_ready := False,
       c_refresh_request := None, c_next_request := None\<rparr>"

definition is_current_generation :: "controller \<Rightarrow> nat \<Rightarrow> bool" where
  "is_current_generation c g \<longleftrightarrow> c_active c \<and> c_generation c = g"

definition set_options :: "(jsval \<Rightarrow> string) \<Rightarrow> controller \<Rightarrow> controller" where
  "set_options key c = c\<lparr>c_key := key\<rparr>"

definition activate :: "controller \<Rightarrow> controller" where
  "activate c = c\<lparr>c_active := True\<rparr>"

definition deactivate :: "controller \<Rightarrow> controller" where
  "deactivate c = invalidate_requests (c\<lparr>c_active := False\<rparr>)"

definition start_reload :: "controller \<Rightarrow> controller \<times> pending list" where
  "start_reload c =
     (if \<not> c_active c then (c, [])
      else let c1 = invalidate_requests c;
               c2 = update_state (\<lambda>_. initial_list_state) c1
           in (log_effect (PageRequested None) c2, [PReload (c_generation c1)]))"

definition settle_reload :: "nat \<Rightarrow> answer \<Rightarrow> controller \<Rightarrow> controller" where
  "settle_reload g ans c =
     (if \<not> is_current_generation c g then c
      else case ans of
        Inr p \<Rightarrow> update_state (\<lambda>s. s\<lparr>ls_list := p, ls_loading := False\<rparr>) (c\<lparr>c_ready := True\<rparr>)
      | Inl e \<Rightarrow> log_effect (ErrorReported e FailedFirst)
          (update_state (\<lambda>s. s\<lparr>ls_loading := False, ls_error := Some e\<rparr>) c))"

definition start_refresh :: "controller \<Rightarrow> controller \<times> pending list" where
  "start_refresh c =
     (if \<not> c_active c \<or> \<not> c_ready c \<or> c_refresh_request c \<noteq> None then (c, [])
      else let r = c_fresh c
           in (log_effect (PageRequested None) (c\<lparr>c_fresh := Suc r, c_refresh_request := Some r\<rparr>),
               [PRefresh (c_generation c) r]))"

definition list_unchanged :: "(jsval, jsval, jsval) page \<Rightarrow> (jsval, jsval, jsval) page \<Rightarrow> bool" where
  "list_unchanged old new \<longleftrightarrow>
     page_value_equal (JArr (items old)) (JArr (items new)) \<and>
     page_value_equal (optional_value (next_cursor old)) (optional_value (next_cursor new)) \<and>
     page_value_equal (optional_value (metadata old)) (optional_value (metadata new))"

definition pending_cursor_invalid :: "controller \<Rightarrow> (jsval, jsval, jsval) page \<Rightarrow> bool" where
  "pending_cursor_invalid c first_page \<longleftrightarrow>
     falls_back_to_first_page (c_key c) (ls_list (c_state c)) first_page \<and>
     (next_cursor first_page = None \<or>
      next_cursor first_page \<noteq> next_cursor (ls_list (c_state c)))"

definition accept_refreshed_page :: "(jsval, jsval, jsval) page \<Rightarrow> controller \<Rightarrow> controller" where
  "accept_refreshed_page first_page c =
     (let old = c_state c;
          merged = merge_refreshed_first_page (c_key c) (ls_list old) first_page;
          invalid = pending_cursor_invalid c first_page;
          c1 = (if invalid then c\<lparr>c_next_request := None\<rparr> else c);
          unchanged = list_unchanged (ls_list old) merged;
          loading_more = (if invalid then False else ls_loading_more old)
      in if unchanged \<and> loading_more = ls_loading_more old then c1
         else update_state (\<lambda>s. s\<lparr>ls_list := (if unchanged then ls_list old else merged),
                                   ls_loading_more := loading_more\<rparr>) c1)"

definition settle_refresh :: "nat \<Rightarrow> nat \<Rightarrow> answer \<Rightarrow> controller \<Rightarrow> controller" where
  "settle_refresh g r ans c =
     (if \<not> (is_current_generation c g \<and> c_refresh_request c = Some r) then c
      else (case ans of Inr p \<Rightarrow> accept_refreshed_page p c | Inl e \<Rightarrow> c)\<lparr>c_refresh_request := None\<rparr>)"

definition replace_or_prepend_item :: "jsval \<Rightarrow> controller \<Rightarrow> controller" where
  "replace_or_prepend_item item c =
     (if \<not> c_active c then c
      else let key = c_key c; loaded = items (ls_list (c_state c));
               new_items = (if \<exists>l\<in>set loaded. key l = key item
                            then map (\<lambda>l. if key l = key item then item else l) loaded
                            else item # loaded)
           in update_state (\<lambda>s. s\<lparr>ls_list := (ls_list s)\<lparr>items := new_items\<rparr>\<rparr>) c)"

definition start_next_page :: "controller \<Rightarrow> controller \<times> pending list" where
  "start_next_page c =
     (let cursor = next_cursor (ls_list (c_state c))
      in if \<not> c_active c \<or> \<not> c_ready c \<or> c_next_request c \<noteq> None \<or> cursor = None then (c, [])
         else let r = c_fresh c;
                  c1 = c\<lparr>c_fresh := Suc r, c_next_request := Some r\<rparr>;
                  c2 = update_state (\<lambda>s. s\<lparr>ls_loading_more := True\<rparr>) c1
              in (log_effect (PageRequested cursor) c2, [PNext (c_generation c) r]))"

definition settle_next_page :: "nat \<Rightarrow> nat \<Rightarrow> answer \<Rightarrow> controller \<Rightarrow> controller" where
  "settle_next_page g r ans c =
     (if \<not> (is_current_generation c g \<and> c_next_request c = Some r) then c
      else let c1 = (case ans of
               Inr p \<Rightarrow> update_state (\<lambda>s. s\<lparr>ls_list := append_next_page (c_key c) (ls_list s) p\<rparr>) c
             | Inl e \<Rightarrow> log_effect (ErrorReported e FailedNext) c)
           in update_state (\<lambda>s. s\<lparr>ls_loading_more := False\<rparr>) (c1\<lparr>c_next_request := None\<rparr>))"

fun settle_pending :: "pending \<Rightarrow> answer \<Rightarrow> controller \<Rightarrow> controller" where
  "settle_pending (PReload g) ans c = settle_reload g ans c"
| "settle_pending (PRefresh g r) ans c = settle_refresh g r ans c"
| "settle_pending (PNext g r) ans c = settle_next_page g r ans c"

text \<open>Whether the continuation still passes its currency check.\<close>

fun is_current_pending :: "controller \<Rightarrow> pending \<Rightarrow> bool" where
  "is_current_pending c (PReload g) = is_current_generation c g"
| "is_current_pending c (PRefresh g r) = (is_current_generation c g \<and> c_refresh_request c = Some r)"
| "is_current_pending c (PNext g r) = (is_current_generation c g \<and> c_next_request c = Some r)"

section \<open>The hook and the runs of a list\<close>

definition mount :: "controller \<Rightarrow> controller \<times> pending list" where
  "mount c = start_reload (activate c)"

definition scroll_threshold_px :: int where
  "scroll_threshold_px = 100"

definition is_scrolled_near_end :: "int \<Rightarrow> int \<Rightarrow> int \<Rightarrow> bool" where
  "is_scrolled_near_end scroll_top scroll_height client_height \<longleftrightarrow>
     scroll_height - scroll_top \<le> client_height + scroll_threshold_px"

definition handle_scroll :: "int \<Rightarrow> int \<Rightarrow> int \<Rightarrow> controller \<Rightarrow> controller \<times> pending list" where
  "handle_scroll scroll_top scroll_height client_height c =
     (if is_scrolled_near_end scroll_top scroll_height client_height then start_next_page c else (c, []))"

definition has_more :: "controller \<Rightarrow> bool" where
  "has_more c \<longleftrightarrow> next_cursor (ls_list (c_state c)) \<noteq> None"

text \<open>
  One component instance: the controller and the continuations on their way. \<open>key\<close> is the
  component's \<open>getItemKey\<close>, the same on every render; \<open>ok\<close> is what the service guarantees of a
  page. The unmount of one reset key and the mount of the next are two steps.
\<close>

inductive list_step ::
  "(jsval \<Rightarrow> string) \<Rightarrow> ((jsval, jsval, jsval) page \<Rightarrow> bool) \<Rightarrow>
   controller \<times> pending list \<Rightarrow> controller \<times> pending list \<Rightarrow> bool"
  for key ok where
  rendered: "list_step key ok (c, ps) (set_options key c, ps)"
| mounted: "mount c = (c', qs) \<Longrightarrow> list_step key ok (c, ps) (c', ps @ qs)"
| unmounted: "list_step key ok (c, ps) (deactivate c, ps)"
| reloaded: "start_reload c = (c', qs) \<Longrightarrow> list_step key ok (c, ps) (c', ps @ qs)"
| refreshed: "start_refresh c = (c', qs) \<Longrightarrow> list_step key ok (c, ps) (c', ps @ qs)"
| replaced: "list_step key ok (c, ps) (replace_or_prepend_item item c, ps)"
| scrolled: "handle_scroll t h v c = (c', qs) \<Longrightarrow> list_step key ok (c, ps) (c', ps @ qs)"
| settled: "p \<in> set ps \<Longrightarrow> (\<And>pg. ans = Inr pg \<Longrightarrow> ok pg) \<Longrightarrow>
    list_step key ok (c, ps) (settle_pending p ans c, remove1 p ps)"

inductive list_reachable ::
  "(jsval \<Rightarrow> string) \<Rightarrow> ((jsval, jsval, jsval) page \<Rightarrow> bool) \<Rightarrow> controller \<times> pending list \<Rightarrow> bool"
  for key ok where
  first_mount: "mount (new_controller key) = (c, qs) \<Longrightarrow> list_reachable key ok (c, qs)"
| next_step: "list_reachable key ok s \<Longrightarrow> list_step key ok s t \<Longrightarrow> list_reachable key ok t"

lemmas controller_ops [step_defs] =
  log_effect_def update_state_def invalidate_requests_def is_current_generation_def set_options_def
  activate_def deactivate_def start_reload_def settle_reload_def start_refresh_def
  accept_refreshed_page_def settle_refresh_def replace_or_prepend_item_def start_next_page_def
  settle_next_page_def mount_def handle_scroll_def

end
