(* ===== verification/Paged_Properties.thy ===== *)
theory Paged_Properties
  imports Paged_Controller
begin

text \<open>
  What holds of every run of a paged list: the controller's flags agree with the requests on
  their way, an answer of a superseded request changes nothing, no key is shown twice, and a poll
  without news publishes nothing.
\<close>

section \<open>The control invariant\<close>

fun pending_generation :: "pending \<Rightarrow> nat" where
  "pending_generation (PReload g) = g"
| "pending_generation (PRefresh g r) = g"
| "pending_generation (PNext g r) = g"

definition control_inv :: "controller \<times> pending list \<Rightarrow> bool" where
  "control_inv s \<longleftrightarrow> (case s of (c, ps) \<Rightarrow>
     (c_ready c \<longrightarrow> c_active c) \<and>
     (\<not> c_ready c \<longrightarrow> c_refresh_request c = None \<and> c_next_request c = None) \<and>
     (\<forall>r. c_next_request c = Some r \<longrightarrow> PNext (c_generation c) r \<in> set ps) \<and>
     (\<forall>r. c_refresh_request c = Some r \<longrightarrow> PRefresh (c_generation c) r \<in> set ps) \<and>
     (c_active c \<longrightarrow> ls_loading_more (c_state c) = (c_next_request c \<noteq> None)) \<and>
     (c_active c \<longrightarrow> ls_loading (c_state c) \<longrightarrow> PReload (c_generation c) \<in> set ps) \<and>
     (\<forall>p\<in>set ps. pending_generation p \<le> c_generation c))"

lemma control_inv_reload:
  "control_inv (c, ps) \<Longrightarrow> start_reload c = (c', qs) \<Longrightarrow> control_inv (c', ps @ qs)"
  by (auto simp: control_inv_def step_defs Let_def initial_list_state_def split: if_splits)

lemma control_inv_mount:
  "\<forall>p\<in>set ps. pending_generation p \<le> c_generation c \<Longrightarrow> mount c = (c', qs) \<Longrightarrow>
   control_inv (c', ps @ qs)"
  by (auto simp: control_inv_def step_defs Let_def initial_list_state_def split: if_splits)

lemma control_inv_deactivate: "control_inv (c, ps) \<Longrightarrow> control_inv (deactivate c, ps)"
  by (auto simp: control_inv_def step_defs)

lemma control_inv_refresh:
  "control_inv (c, ps) \<Longrightarrow> start_refresh c = (c', qs) \<Longrightarrow> control_inv (c', ps @ qs)"
  by (auto simp: control_inv_def step_defs Let_def split: if_splits)

lemma control_inv_next_page:
  "control_inv (c, ps) \<Longrightarrow> start_next_page c = (c', qs) \<Longrightarrow> control_inv (c', ps @ qs)"
  by (auto simp: control_inv_def step_defs Let_def split: if_splits)

lemma control_inv_replace: "control_inv (c, ps) \<Longrightarrow> control_inv (replace_or_prepend_item item c, ps)"
  by (auto simp: control_inv_def step_defs Let_def)

lemma mem_remove1_other: "x \<in> set xs \<Longrightarrow> x \<noteq> y \<Longrightarrow> x \<in> set (remove1 y xs)"
  by simp

lemma control_inv_settle_reload:
  "control_inv (c, ps) \<Longrightarrow> control_inv (settle_reload g ans c, remove1 (PReload g) ps)"
  by (cases ans) (auto simp: control_inv_def step_defs Let_def)

lemma accept_refreshed_page_frame [simp]:
  "c_key (accept_refreshed_page p c) = c_key c"
  "c_generation (accept_refreshed_page p c) = c_generation c"
  "c_active (accept_refreshed_page p c) = c_active c"
  "c_ready (accept_refreshed_page p c) = c_ready c"
  "c_refresh_request (accept_refreshed_page p c) = c_refresh_request c"
  "c_fresh (accept_refreshed_page p c) = c_fresh c"
  "ls_loading (c_state (accept_refreshed_page p c)) = ls_loading (c_state c)"
  by (simp_all add: accept_refreshed_page_def update_state_def log_effect_def Let_def)

lemma accept_refreshed_page_next:
  "c_next_request (accept_refreshed_page p c) =
     (if pending_cursor_invalid c p then None else c_next_request c)"
  "ls_loading_more (c_state (accept_refreshed_page p c)) =
     (if pending_cursor_invalid c p then False else ls_loading_more (c_state c))"
  by (simp_all add: accept_refreshed_page_def update_state_def log_effect_def Let_def)

lemma control_inv_accept:
  "control_inv (c, ps) \<Longrightarrow> control_inv (accept_refreshed_page p c, ps)"
  by (simp add: control_inv_def accept_refreshed_page_next)

lemma control_inv_refresh_done:
  "control_inv (c, ps) \<Longrightarrow> control_inv (c\<lparr>c_refresh_request := None\<rparr>, remove1 (PRefresh g r) ps)"
  by (auto simp: control_inv_def dest: notin_set_remove1)

lemma control_inv_settle_refresh:
  assumes "control_inv (c, ps)"
  shows "control_inv (settle_refresh g r ans c, remove1 (PRefresh g r) ps)"
proof (cases "is_current_generation c g \<and> c_refresh_request c = Some r")
  case True
  have "control_inv (case ans of Inr p \<Rightarrow> accept_refreshed_page p c | Inl e \<Rightarrow> c, ps)"
    using assms control_inv_accept by (cases ans) auto
  from control_inv_refresh_done [OF this, of g r] True show ?thesis
    by (simp add: settle_refresh_def)
next
  case False
  with assms show ?thesis
    by (auto simp: settle_refresh_def control_inv_def is_current_generation_def dest: notin_set_remove1)
qed

lemma control_inv_settle_next:
  "control_inv (c, ps) \<Longrightarrow> control_inv (settle_next_page g r ans c, remove1 (PNext g r) ps)"
  by (cases ans) (auto simp: control_inv_def step_defs Let_def)

section \<open>Every run\<close>

inductive_cases list_step_cases: "list_step key ok s t"

lemma control_inv_handle_scroll:
  "control_inv (c, ps) \<Longrightarrow> handle_scroll t h v c = (c', qs) \<Longrightarrow> control_inv (c', ps @ qs)"
  by (auto simp: handle_scroll_def control_inv_next_page split: if_splits)

lemma control_inv_settle:
  "control_inv (c, ps) \<Longrightarrow> control_inv (settle_pending p ans c, remove1 p ps)"
  by (cases p) (simp_all add: control_inv_settle_reload control_inv_settle_refresh control_inv_settle_next)

lemma control_inv_step: "list_step key ok s t \<Longrightarrow> control_inv s \<Longrightarrow> control_inv t"
proof (induction rule: list_step.induct)
  case (rendered c ps)
  then show ?case by (simp add: control_inv_def set_options_def)
next
  case (mounted c c' qs ps)
  from mounted.prems have "\<forall>p\<in>set ps. pending_generation p \<le> c_generation c"
    by (simp add: control_inv_def)
  then show ?case using mounted.hyps by (rule control_inv_mount)
qed (auto intro: control_inv_deactivate control_inv_reload control_inv_refresh control_inv_replace
    control_inv_handle_scroll control_inv_settle)

lemma reachable_control_inv: "list_reachable key ok s \<Longrightarrow> control_inv s"
proof (induction rule: list_reachable.induct)
  case (first_mount c qs)
  then show ?case using control_inv_mount [of "[]" "new_controller key" c qs] by simp
next
  case (next_step s t)
  then show ?case by (blast intro: control_inv_step)
qed

section \<open>The generation is a request guard\<close>

interpretation reload_guard: guarded_answers invalidate_requests c_generation is_current_generation
  c_active settle_reload
proof
  show "c_generation ((invalidate_requests ^^ Suc n) c) \<noteq> c_generation c" for n c
  proof -
    have "c_generation ((invalidate_requests ^^ m) c) = c_generation c + m" for m
      by (induction m) (simp_all add: invalidate_requests_def)
    then show ?thesis by (metis add_cancel_right_right nat.distinct(1))
  qed
qed (auto simp: is_current_generation_def invalidate_requests_def settle_reload_def)

lemma settle_not_current: "\<not> is_current_pending c p \<Longrightarrow> settle_pending p ans c = c"
  by (cases p) (auto simp: settle_reload_def settle_refresh_def settle_next_page_def)

lemma older_generation_not_current:
  "pending_generation p < c_generation c \<Longrightarrow> \<not> is_current_pending c p"
  by (cases p) (auto simp: is_current_generation_def)

lemma inactive_not_current: "\<not> c_active c \<Longrightarrow> \<not> is_current_pending c p"
  by (cases p) (auto simp: is_current_generation_def)

section \<open>Rows are shown once\<close>

definition rows_inv :: "(jsval \<Rightarrow> string) \<Rightarrow> controller \<Rightarrow> bool" where
  "rows_inv key c \<longleftrightarrow> c_key c = key \<and> distinct (keys_of key (ls_list (c_state c)))"

lemma rows_inv_start:
  "rows_inv key c \<Longrightarrow> rows_inv key (fst (start_reload c))"
  "rows_inv key c \<Longrightarrow> rows_inv key (fst (start_refresh c))"
  "rows_inv key c \<Longrightarrow> rows_inv key (fst (start_next_page c))"
  "rows_inv key c \<Longrightarrow> rows_inv key (fst (handle_scroll t h v c))"
  "rows_inv key c \<Longrightarrow> rows_inv key (fst (mount c))"
  "rows_inv key c \<Longrightarrow> rows_inv key (deactivate c)"
  by (simp_all add: rows_inv_def step_defs Let_def initial_list_state_def)

lemma distinct_replace_or_prepend:
  assumes "distinct (map key xs)"
  shows "distinct (map key (if \<exists>l\<in>set xs. key l = key x
     then map (\<lambda>l. if key l = key x then x else l) xs else x # xs))"
proof (cases "\<exists>l\<in>set xs. key l = key x")
  case True
  have "map key (map (\<lambda>l. if key l = key x then x else l) xs) = map key xs" by (rule map_key_update)
  with True assms show ?thesis by (simp only: if_True)
next
  case False
  with assms show ?thesis by auto
qed

lemma rows_inv_replace: "rows_inv key c \<Longrightarrow> rows_inv key (replace_or_prepend_item item c)"
  using distinct_replace_or_prepend [of key "items (ls_list (c_state c))" item]
  by (auto simp: rows_inv_def replace_or_prepend_item_def update_state_def log_effect_def Let_def)

lemma rows_inv_accept:
  assumes "rows_inv key c" and "distinct (keys_of key p)"
  shows "rows_inv key (accept_refreshed_page p c)"
  using assms merge_distinct [of key "ls_list (c_state c)" p]
  by (auto simp: rows_inv_def accept_refreshed_page_def update_state_def log_effect_def Let_def)

lemma rows_inv_settle:
  assumes "rows_inv key c" and "\<And>pg. ans = Inr pg \<Longrightarrow> distinct (keys_of key pg)"
  shows "rows_inv key (settle_pending p ans c)"
proof (cases p)
  case (PReload g)
  with assms show ?thesis
    by (cases ans) (auto simp: rows_inv_def settle_reload_def update_state_def log_effect_def Let_def)
next
  case (PRefresh g r)
  have "rows_inv key c' \<Longrightarrow> rows_inv key (c'\<lparr>c_refresh_request := None\<rparr>)" for c'
    by (simp add: rows_inv_def)
  with PRefresh assms show ?thesis
    by (cases ans) (auto simp: settle_refresh_def rows_inv_accept)
next
  case (PNext g r)
  with assms append_next_page_distinct [of key "ls_list (c_state c)"] show ?thesis
    by (cases ans) (auto simp: rows_inv_def settle_next_page_def update_state_def log_effect_def Let_def)
qed

lemma rows_inv_step:
  "list_step key (\<lambda>p. distinct (keys_of key p)) s t \<Longrightarrow> rows_inv key (fst s) \<Longrightarrow> rows_inv key (fst t)"
proof (induction rule: list_step.induct)
  case (rendered c ps)
  then show ?case by (simp add: rows_inv_def set_options_def)
next
  case (settled p ps ans c)
  then show ?case by (auto intro: rows_inv_settle)
qed (simp_all add: rows_inv_replace rows_inv_start, (metis fst_conv rows_inv_start)+)

lemma reachable_rows_inv:
  "list_reachable key (\<lambda>p. distinct (keys_of key p)) s \<Longrightarrow> rows_inv key (fst s)"
proof (induction rule: list_reachable.induct)
  case (first_mount c qs)
  have "rows_inv key (new_controller key)"
    by (simp add: rows_inv_def new_controller_def initial_list_state_def)
  then show ?case using first_mount rows_inv_start(5) [of key "new_controller key"] by simp
next
  case (next_step s t)
  then show ?case by (blast intro: rows_inv_step)
qed

section \<open>Properties\<close>

text \<open>C5: Once a reload started or the list was unmounted, the answer of any request that was on its
  way before, in whatever order it arrives and whatever it says, changes neither the shown rows nor
  any flag, and reaches no callback.\<close>

theorem superseded_answers_dropped:
  assumes "list_reachable key ok (c, ps)" and "p \<in> set ps"
  shows "settle_pending p ans (fst (start_reload c)) = fst (start_reload c) \<and>
         settle_pending p ans (deactivate c) = deactivate c"
proof -
  have le: "pending_generation p \<le> c_generation c"
    using reachable_control_inv [OF assms(1)] assms(2) by (simp add: control_inv_def)
  have "\<not> is_current_pending (fst (start_reload c)) p"
  proof (cases "c_active c")
    case True
    then have "c_generation (fst (start_reload c)) = Suc (c_generation c)"
      by (simp add: step_defs Let_def)
    with le show ?thesis by (intro older_generation_not_current) simp
  next
    case False
    then show ?thesis by (intro inactive_not_current) (simp add: start_reload_def)
  qed
  moreover have "\<not> is_current_pending (deactivate c) p"
    by (rule inactive_not_current) (simp add: deactivate_def invalidate_requests_def)
  ultimately show ?thesis by (simp add: settle_not_current)
qed

lemma first_mount_reachable:
  "list_reachable key ok (fst (mount (new_controller key)), [PReload 1])"
  by (rule list_reachable.first_mount) (simp add: step_defs new_controller_def Let_def)

theorem superseded_answers_dropped_witness:
  "let c = fst (mount (new_controller (\<lambda>v. ''k'')));
       late = Inr \<lparr>items = [JStr ''old''], next_cursor = None, metadata = None\<rparr>
   in items (ls_list (c_state (settle_pending (PReload 1) late c))) = [JStr ''old''] \<and>
      settle_pending (PReload 1) late (fst (start_reload c)) = fst (start_reload c)"
  using superseded_answers_dropped [OF first_mount_reachable [of "\<lambda>v. ''k''" "\<lambda>_. True"], of "PReload 1"]
  by (simp add: step_defs new_controller_def Let_def)

text \<open>The busy flags never stick: whenever the list shows that it loads, or loads more, the
  request it waits for is on its way under a current token, and its answer, success or failure,
  takes the flag down.\<close>

theorem busy_flags_end:
  assumes "list_reachable key ok (c, ps)" and "c_active c"
  shows "(ls_loading (c_state c) \<longrightarrow>
           (\<exists>p\<in>set ps. \<forall>ans. \<not> ls_loading (c_state (settle_pending p ans c)))) \<and>
         (ls_loading_more (c_state c) \<longrightarrow>
           (\<exists>p\<in>set ps. \<forall>ans. \<not> ls_loading_more (c_state (settle_pending p ans c))))"
proof -
  have inv: "control_inv (c, ps)" using assms(1) by (rule reachable_control_inv)
  have r: "\<not> ls_loading (c_state (settle_pending (PReload (c_generation c)) ans c))" for ans
    using assms(2) by (cases ans) (simp_all add: step_defs Let_def)
  have n: "\<not> ls_loading_more (c_state (settle_pending (PNext (c_generation c) q) ans c))"
    if "c_next_request c = Some q" for q ans
    using assms(2) that by (cases ans) (simp_all add: step_defs Let_def)
  have "ls_loading (c_state c) \<Longrightarrow> PReload (c_generation c) \<in> set ps"
    using inv assms(2) by (simp add: control_inv_def)
  moreover have "\<exists>q. c_next_request c = Some q \<and> PNext (c_generation c) q \<in> set ps"
    if "ls_loading_more (c_state c)"
    using inv assms(2) that by (cases "c_next_request c") (simp_all add: control_inv_def)
  ultimately show ?thesis using r n by blast
qed

theorem busy_flags_end_witness:
  "let c = fst (mount (new_controller (\<lambda>v. ''k'')))
   in c_active c \<and> ls_loading (c_state c) \<and>
      (\<forall>ans. \<not> ls_loading (c_state (settle_pending (PReload 1) ans c)))"
  using busy_flags_end [OF first_mount_reachable [of "\<lambda>v. ''k''" "\<lambda>_. True"]]
  by (simp add: step_defs new_controller_def initial_list_state_def Let_def)

text \<open>C13: As long as every page the service answers with lists a row once, the shown list never
  shows a row twice, however reloads, polls, scrolling and rows answered by other requests
  interleave.\<close>

theorem rows_shown_once:
  assumes "list_reachable key (\<lambda>p. distinct (keys_of key p)) (c, ps)"
  shows "distinct (keys_of key (ls_list (c_state c)))"
  using reachable_rows_inv [OF assms] by (simp add: rows_inv_def)

theorem rows_shown_once_witness:
  "let key = (\<lambda>v. case v of JStr s \<Rightarrow> s | _ \<Rightarrow> []);
       c = settle_pending (PReload 1) (Inr \<lparr>items = [JStr ''a'', JStr ''b''], next_cursor = None, metadata = None\<rparr>)
             (fst (mount (new_controller key)))
   in items (ls_list (c_state c)) = [JStr ''a'', JStr ''b''] \<and> distinct (keys_of key (ls_list (c_state c)))"
proof -
  let ?key = "\<lambda>v. case v of JStr s \<Rightarrow> s | _ \<Rightarrow> []"
  let ?pg = "\<lparr>items = [JStr ''a'', JStr ''b''], next_cursor = None, metadata = None\<rparr>"
  have "list_step ?key (\<lambda>p. distinct (keys_of ?key p))
      (fst (mount (new_controller ?key)), [PReload 1])
      (settle_pending (PReload 1) (Inr ?pg) (fst (mount (new_controller ?key))), remove1 (PReload 1) [PReload 1])"
    by (rule list_step.settled) auto
  from rows_shown_once [OF list_reachable.next_step [OF first_mount_reachable this]]
  show ?thesis by (simp add: step_defs new_controller_def initial_list_state_def Let_def)
qed

text \<open>A successful poll publishes a state at most once, and only when the list's rows, cursor or
  metadata compare different or a next page can no longer be awaited; otherwise the very state
  stays, so the screen is not drawn again.\<close>

theorem refresh_publishes_only_news:
  "c_log (settle_refresh g r (Inr p) c) = c_log c \<and> c_state (settle_refresh g r (Inr p) c) = c_state c \<or>
   (\<exists>s. c_log (settle_refresh g r (Inr p) c) = c_log c @ [StateChanged s] \<and>
        c_state (settle_refresh g r (Inr p) c) = s \<and>
        (\<not> list_unchanged (ls_list (c_state c)) (ls_list s) \<or>
         ls_loading_more (c_state c) \<and> \<not> ls_loading_more s))"
  by (simp add: settle_refresh_def accept_refreshed_page_def update_state_def log_effect_def Let_def)

theorem refresh_publishes_only_news_witness:
  "let pg = (\<lambda>xs. \<lparr>items = xs, next_cursor = None, metadata = None\<rparr>);
       c = fst (start_refresh (settle_pending (PReload 1) (Inr (pg [JStr ''a''])) (fst (mount (new_controller (\<lambda>v. ''k''))))));
       d = settle_refresh 1 0 (Inr (pg [JStr ''b''])) c
   in c_log d = c_log c @ [StateChanged (c_state d)] \<and> items (ls_list (c_state d)) = [JStr ''b'']"
  using refresh_publishes_only_news [of 1 0
      "\<lparr>items = [JStr ''b''], next_cursor = None, metadata = None\<rparr>"
      "fst (start_refresh (settle_pending (PReload 1) (Inr \<lparr>items = [JStr ''a''], next_cursor = None, metadata = None\<rparr>)
         (fst (mount (new_controller (\<lambda>v. ''k''))))))"]
  by (simp add: step_defs new_controller_def initial_list_state_def Let_def list_unchanged_def
      optional_value_def pending_cursor_invalid_def merge_refreshed_first_page_def
      falls_back_to_first_page_def last_opt_def)

end
