(* ===== verification/Wal_Model.thy ===== *)
theory Wal_Model
  imports Prelude
begin

text \<open>
  The data model of WAL stream monitoring: the enumerations and label tables of
  \<open>src/frontend/src/pages/databases/model/wal-stream-monitoring\<close>, and the contract's records
  (\<open>src/frontend/src/shared/api/schema.gen.ts\<close>) the screen reads. A field that may be null or
  absent is an option; times are text as the service sends them; amounts are exact numbers.
\<close>

section \<open>Enumerations\<close>

datatype health_level =
    HL_NOT_STREAMING
  | HL_COLLECTING_DATA
  | HL_BROKEN
  | HL_NEEDS_ATTENTION
  | HL_HEALTHY

datatype reason_level =
    RL_BROKEN
  | RL_NEEDS_ATTENTION
  | RL_INFO

datatype reason_code =
    RC_STREAMING_STOPPED
  | RC_SOURCE_UNREACHABLE
  | RC_WAL_CHAIN_BROKEN
  | RC_SLOT_MISSING
  | RC_SLOT_LOST
  | RC_ARCHIVE_NOT_ADVANCING
  | RC_ARCHIVE_SLOWER_THAN_SOURCE
  | RC_SLOT_KEEPS_EXTRA_WAL
  | RC_SLOT_LIMIT_APPROACHING
  | RC_NEAR_SLOT_REBUILD
  | RC_LOCAL_QUEUE_FILLING
  | RC_FREQUENT_RESTARTS
  | RC_FORCED_ROTATION_REFUSED

datatype notice_code =
    NC_NO_SLOT_WAL_LIMIT
  | NC_SLOT_KEEPS_EXTRA_WAL_STEADILY
  | NC_NO_FULL_BACKUP_YET

datatype keeping_up_state =
    KU_UNKNOWN
  | KU_FALLING_BEHIND
  | KU_CATCHING_UP
  | KU_IDLE
  | KU_KEEPING_UP

datatype source_state =
    SS_REACHABLE
  | SS_UNREACHABLE
  | SS_SLOT_MISSING

datatype statistics_period =
    SP_HOUR
  | SP_DAY
  | SP_WEEK

datatype streamer_state =
    ST_RUNNING
  | ST_NOT_RUNNING
  | ST_NOT_STARTED

datatype full_backup_action =
    FA_HIDDEN
  | FA_AVAILABLE
  | FA_REQUESTING

datatype monitoring_tone =
    TONE_SUCCESS
  | TONE_WARNING
  | TONE_ERROR
  | TONE_NEUTRAL

datatype path_stage =
    STAGE_SOURCE
  | STAGE_DATABASUS
  | STAGE_STORAGE

datatype verdict_icon =
    ICON_CHECK
  | ICON_EXCLAMATION
  | ICON_CLOSE
  | ICON_CLOCK
  | ICON_PAUSE
  | ICON_QUESTION

datatype segment_kind =
    SEG_RESTORABLE
  | SEG_LOST
  | SEG_NOT_SAVED_YET

section \<open>Label keys\<close>

primrec health_level_label :: "health_level \<Rightarrow> string" where
  "health_level_label HL_NOT_STREAMING = ''backups.physical.monitoring.levels.notStreaming''"
| "health_level_label HL_COLLECTING_DATA = ''backups.physical.monitoring.levels.collectingData''"
| "health_level_label HL_BROKEN = ''backups.physical.monitoring.levels.broken''"
| "health_level_label HL_NEEDS_ATTENTION = ''backups.physical.monitoring.levels.needsAttention''"
| "health_level_label HL_HEALTHY = ''backups.physical.monitoring.levels.healthy''"

primrec reason_level_label :: "reason_level \<Rightarrow> string" where
  "reason_level_label RL_BROKEN = ''backups.physical.monitoring.reasonLevels.broken''"
| "reason_level_label RL_NEEDS_ATTENTION = ''backups.physical.monitoring.reasonLevels.needsAttention''"
| "reason_level_label RL_INFO = ''backups.physical.monitoring.reasonLevels.info''"

primrec reason_code_label :: "reason_code \<Rightarrow> string" where
  "reason_code_label RC_STREAMING_STOPPED = ''backups.physical.monitoring.reasons.streamingStopped.title''"
| "reason_code_label RC_SOURCE_UNREACHABLE = ''backups.physical.monitoring.reasons.sourceUnreachable.title''"
| "reason_code_label RC_WAL_CHAIN_BROKEN = ''backups.physical.monitoring.reasons.walChainBroken.title''"
| "reason_code_label RC_SLOT_MISSING = ''backups.physical.monitoring.reasons.slotMissing.title''"
| "reason_code_label RC_SLOT_LOST = ''backups.physical.monitoring.reasons.slotLost.title''"
| "reason_code_label RC_ARCHIVE_NOT_ADVANCING = ''backups.physical.monitoring.reasons.archiveNotAdvancing.title''"
| "reason_code_label RC_ARCHIVE_SLOWER_THAN_SOURCE = ''backups.physical.monitoring.reasons.archiveSlowerThanSource.title''"
| "reason_code_label RC_SLOT_KEEPS_EXTRA_WAL = ''backups.physical.monitoring.reasons.slotKeepsExtraWal.title''"
| "reason_code_label RC_SLOT_LIMIT_APPROACHING = ''backups.physical.monitoring.reasons.slotLimitApproaching.title''"
| "reason_code_label RC_NEAR_SLOT_REBUILD = ''backups.physical.monitoring.reasons.nearSlotRebuild.title''"
| "reason_code_label RC_LOCAL_QUEUE_FILLING = ''backups.physical.monitoring.reasons.localQueueFilling.title''"
| "reason_code_label RC_FREQUENT_RESTARTS = ''backups.physical.monitoring.reasons.frequentRestarts.title''"
| "reason_code_label RC_FORCED_ROTATION_REFUSED = ''backups.physical.monitoring.reasons.forcedRotationRefused.title''"

primrec notice_code_label :: "notice_code \<Rightarrow> string" where
  "notice_code_label NC_NO_SLOT_WAL_LIMIT = ''backups.physical.monitoring.notices.noSlotWalLimit.title''"
| "notice_code_label NC_SLOT_KEEPS_EXTRA_WAL_STEADILY = ''backups.physical.monitoring.notices.slotKeepsExtraWalSteadily.title''"
| "notice_code_label NC_NO_FULL_BACKUP_YET = ''backups.physical.monitoring.notices.noFullBackupYet.title''"

primrec source_state_label :: "source_state \<Rightarrow> string" where
  "source_state_label SS_REACHABLE = ''backups.physical.monitoring.details.sourceStates.reachable''"
| "source_state_label SS_UNREACHABLE = ''backups.physical.monitoring.details.sourceStates.unreachable''"
| "source_state_label SS_SLOT_MISSING = ''backups.physical.monitoring.details.sourceStates.slotMissing''"

primrec statistics_period_label :: "statistics_period \<Rightarrow> string" where
  "statistics_period_label SP_HOUR = ''backups.physical.monitoring.periods.hour''"
| "statistics_period_label SP_DAY = ''backups.physical.monitoring.periods.day''"
| "statistics_period_label SP_WEEK = ''backups.physical.monitoring.periods.week''"

primrec streamer_state_label :: "streamer_state \<Rightarrow> string" where
  "streamer_state_label ST_RUNNING = ''backups.physical.monitoring.details.streamerStates.running''"
| "streamer_state_label ST_NOT_RUNNING = ''backups.physical.monitoring.details.streamerStates.notRunning''"
| "streamer_state_label ST_NOT_STARTED = ''backups.physical.monitoring.details.streamerStates.notStarted''"

section \<open>Records of the contract\<close>

record wal_reason =
  wr_code :: reason_code
  wr_level :: reason_level
  wr_since :: "string option"
  wr_value_bytes :: "number option"
  wr_threshold_bytes :: "number option"
  wr_count :: "number option"
  wr_estimated_seconds :: "number option"

record wal_notice =
  wn_code :: notice_code
  wn_level :: reason_level
  wn_since :: "string option"

record wal_health =
  wh_level :: health_level
  wh_reasons :: "wal_reason list"
  wh_notices :: "wal_notice list"
  wh_full_backup_pending :: bool

record wal_time_range =
  tr_from :: string
  tr_to :: string

record wal_streamer =
  sr_state :: streamer_state
  sr_session_started_at :: "string option"
  sr_failing_since :: "string option"
  sr_restarts_last_hour :: number

record wal_current =
  cu_sampled_at :: string
  cu_last_archived_wal_at :: "string option"
  cu_session_started_at :: string
  cu_source_state :: source_state
  cu_source_unreachable_since :: "string option"
  cu_source_current_lsn :: "string option"
  cu_archive_progress_lsn :: "string option"
  cu_source_written_bytes :: "number option"
  cu_archived_segments :: number
  cu_archived_wal_bytes :: number
  cu_archived_stored_bytes :: number
  cu_wal_segment_size_bytes :: number
  cu_highest_concurrent_uploads :: number
  cu_segment_write_avg_millis :: "number option"
  cu_segment_write_max_millis :: "number option"
  cu_slot_wal_status :: "string option"
  cu_slot_extra_wal_since :: "string option"
  cu_slot_lag_bytes :: "number option"
  cu_slot_safe_wal_size_bytes :: "number option"
  cu_unarchived_wal_bytes :: "number option"
  cu_archive_stalled_since :: "string option"
  cu_local_queue_bytes :: number
  cu_local_queue_pause_bytes :: number
  cu_receiver_restarts :: number
  cu_receiver_pauses :: number
  cu_receiver_running :: bool
  cu_forced_rotation_denied :: bool

record wal_keeping_up =
  ku_state :: keeping_up_state
  ku_source_write_rate :: "number option"
  ku_archive_rate :: "number option"
  ku_unarchived_wal_bytes :: "number option"
  ku_unarchived_wal_change_rate :: "number option"
  ku_slot_lag_bytes :: "number option"
  ku_slot_lag_change_rate :: "number option"
  ku_slot_rebuild_lag_bytes :: number
  ku_estimated_catch_up_seconds :: "number option"
  ku_estimated_slot_rebuild_seconds :: "number option"
  ku_estimated_slot_limit_seconds :: "number option"

record wal_series_point =
  pt_started_at :: string
  pt_source_write_rate :: "number option"
  pt_archive_rate :: "number option"
  pt_archived_stored_rate :: "number option"
  pt_max_slot_lag_bytes :: "number option"
  pt_max_unarchived_wal_bytes :: "number option"
  pt_max_local_queue_bytes :: "number option"
  pt_local_queue_pause_bytes :: "number option"
  pt_restarts :: "number option"
  pt_pauses :: "number option"
  pt_session_starts :: "number option"
  pt_highest_concurrent_uploads :: "number option"
  pt_segment_write_avg_millis :: "number option"
  pt_segment_write_max_millis :: "number option"

record wal_series =
  se_period :: statistics_period
  se_bucket_seconds :: number
  se_from :: string
  se_to :: string
  se_points :: "wal_series_point list"

record wal_statistics =
  ws_health :: wal_health
  ws_latest_restorable_at :: "string option"
  ws_restorable_ranges :: "wal_time_range list"
  ws_streamer :: wal_streamer
  ws_current :: "wal_current option"
  ws_keeping_up :: wal_keeping_up
  ws_series :: wal_series

record wal_live =
  lv_measured_at :: string
  lv_source_probed_at :: "string option"
  lv_source_state :: "source_state option"
  lv_source_current_lsn :: "string option"
  lv_slot_wal_status :: "string option"
  lv_slot_lag_bytes :: "number option"
  lv_slot_safe_wal_size_bytes :: "number option"
  lv_archive_progress_lsn :: "string option"
  lv_last_archived_wal_at :: "string option"
  lv_unarchived_wal_bytes :: "number option"
  lv_local_queue_bytes :: number
  lv_local_queue_pause_bytes :: number
  lv_receiver_running :: bool

record wal_live_response =
  lr_streamer_running :: bool
  lr_current :: "wal_live option"

section \<open>Sentences\<close>

text \<open>
  A sentence decided outside a component: the translation key and its parameters, amounts as
  numbers and durations as nested keys. Parameters are in the order the code adds them.
\<close>

datatype text_value = TNum number | TStr string

record localized_text =
  lt_key :: string
  lt_params :: "(string \<times> text_value) list"

datatype text_param =
    BytesParam number
  | RateParam number
  | CountParam number
  | TextParam localized_text
  | MomentParam string bool

record monitoring_text =
  mt_key :: string
  mt_params :: "(string \<times> text_param) list option"

record reason_texts =
  rt_level :: reason_level
  rt_title_key :: string
  rt_what_happened :: monitoring_text
  rt_what_to_do :: monitoring_text

record verdict_banner =
  vb_tone :: monitoring_tone
  vb_icon :: verdict_icon
  vb_headline_key :: string
  vb_description :: "monitoring_text option"
  vb_headline_reason :: "reason_texts option"
  vb_other_reasons :: "reason_texts list"
  vb_restore_sentence :: monitoring_text
  vb_config_link_shown :: bool
  vb_state_confirmed :: bool

record monitoring_figures =
  mf_last_saved_at :: "string option"
  mf_waiting_bytes :: "number option"
  mf_write_rate :: "number option"
  mf_save_rate :: "number option"

abbreviation sentence :: "string \<Rightarrow> monitoring_text" where
  "sentence k \<equiv> \<lparr>mt_key = k, mt_params = None\<rparr>"

abbreviation sentence_with :: "string \<Rightarrow> (string \<times> text_param) list \<Rightarrow> monitoring_text" where
  "sentence_with k ps \<equiv> \<lparr>mt_key = k, mt_params = Some ps\<rparr>"

end
