(* ===== verification/Js_Dates.thy ===== *)
theory Js_Dates
  imports Prelude "HOL-Library.Monad_Syntax"
begin

text \<open>
  The part of JavaScript's \<open>Date\<close> the frontend uses on the backend's timestamps:
  \<open>new Date(text).getTime()\<close> on RFC 3339 text, which is what the contract's \<open>date-time\<close> format
  promises, and \<open>toISOString\<close>. A time is a number of milliseconds since the epoch, \<open>None\<close> an
  invalid date, whose comparisons are all false in JavaScript. Like V8, the reader takes a day
  from 01 to 31 in every month and rolls over.
\<close>

type_synonym time_ms = int

section \<open>Digits\<close>

definition digit_of :: "char \<Rightarrow> int option" where
  "digit_of c =
     (let n = of_char c :: nat in if 48 \<le> n \<and> n \<le> 57 then Some (int n - 48) else None)"

definition digit_char :: "int \<Rightarrow> char" where
  "digit_char d = char_of (nat (d mod 10) + 48)"

lemma digit_of_digit_char: "digit_of (digit_char d) = Some (d mod 10)"
proof -
  have b: "nat (d mod 10) < 10" by simp
  then have "of_char (digit_char d) = nat (d mod 10) + 48"
    by (simp add: digit_char_def)
  with b show ?thesis by (simp add: digit_of_def Let_def)
qed

fun read_digits :: "nat \<Rightarrow> int \<Rightarrow> string \<Rightarrow> (int \<times> string) option" where
  "read_digits 0 acc s = Some (acc, s)"
| "read_digits (Suc n) acc [] = None"
| "read_digits (Suc n) acc (c # s) =
     (case digit_of c of None \<Rightarrow> None | Some d \<Rightarrow> read_digits n (10 * acc + d) s)"

fun show_digits :: "nat \<Rightarrow> int \<Rightarrow> string" where
  "show_digits 0 v = []"
| "show_digits (Suc n) v = show_digits n (v div 10) @ [digit_char v]"

lemma read_digits_append:
  "length s = m \<Longrightarrow> read_digits (m + n) acc (s @ t) =
     (case read_digits m acc s of None \<Rightarrow> None | Some (a, r) \<Rightarrow> read_digits n a t)"
  by (induction m acc s rule: read_digits.induct) (auto split: option.splits)

lemma length_show_digits [simp]: "length (show_digits n v) = n"
  by (induction n arbitrary: v) auto

lemma read_show_digits_exact:
  "0 \<le> v \<Longrightarrow> v < 10 ^ n \<Longrightarrow> read_digits n acc (show_digits n v) = Some (acc * 10 ^ n + v, [])"
proof (induction n arbitrary: v)
  case 0
  then show ?case by simp
next
  case (Suc n)
  have "v div 10 < 10 ^ n" using Suc.prems(2) by simp
  with Suc.IH [of "v div 10"] Suc.prems(1)
  have ih: "read_digits n acc (show_digits n (v div 10)) = Some (acc * 10 ^ n + v div 10, [])" by simp
  have "read_digits (n + 1) acc (show_digits n (v div 10) @ [digit_char v]) =
      Some (10 * (acc * 10 ^ n + v div 10) + v mod 10, [])"
    by (subst read_digits_append) (simp_all add: ih digit_of_digit_char numeral_1_eq_Suc_0 [symmetric] del: One_nat_def, simp add: digit_of_digit_char)
  then show ?case by (simp add: algebra_simps)
qed

lemma read_digits_rest:
  "read_digits n acc s = Some (a, []) \<Longrightarrow> length s = n \<Longrightarrow> read_digits n acc (s @ t) = Some (a, t)"
  by (induction n acc s rule: read_digits.induct) (auto split: option.splits)

lemma read_show_digits:
  "0 \<le> v \<Longrightarrow> v < 10 ^ n \<Longrightarrow> read_digits n 0 (show_digits n v @ t) = Some (v, t)"
  using read_digits_rest [OF read_show_digits_exact [of v n 0]] by simp

section \<open>The calendar\<close>

definition days_from_civil :: "int \<Rightarrow> int \<Rightarrow> int \<Rightarrow> int" where
  "days_from_civil y m d =
     (let y' = (if m \<le> 2 then y - 1 else y);
          mp = (if m > 2 then m - 3 else m + 9);
          doy = (153 * mp + 2) div 5 + d - 1
      in y' * 365 + y' div 4 - y' div 100 + y' div 400 + doy - 719468)"

text \<open>
  The inverse, by years that start in March: 400-year eras, centuries, four-year cycles, years.
  The last century of an era and the last year of a cycle hold the leap day, hence the minima.
\<close>

definition civil_from_days :: "int \<Rightarrow> int \<times> int \<times> int" where
  "civil_from_days days =
     (let z = days + 719468;
          era = z div 146097;
          doe = z mod 146097;
          c = min 3 (doe div 36524);
          rc = doe - 36524 * c;
          q = rc div 1461;
          rq = rc - 1461 * q;
          n = min 3 (rq div 365);
          doy = rq - 365 * n;
          mp = (5 * doy + 2) div 153;
          d = doy - (153 * mp + 2) div 5 + 1;
          m = (if mp < 10 then mp + 3 else mp - 9);
          y = 400 * era + 100 * c + 4 * q + n + (if m \<le> 2 then 1 else 0)
      in (y, m, d))"

lemma march_year_split:
  fixes doe :: int
  assumes "0 \<le> doe" "doe < 146097"
  defines "c \<equiv> min 3 (doe div 36524)"
  defines "rc \<equiv> doe - 36524 * c"
  defines "q \<equiv> rc div 1461"
  defines "rq \<equiv> rc - 1461 * q"
  defines "n \<equiv> min 3 (rq div 365)"
  shows "0 \<le> c" "c \<le> 3" "0 \<le> q" "q \<le> 24" "0 \<le> n" "n \<le> 3"
    "0 \<le> rq - 365 * n" "rq - 365 * n \<le> 365"
proof -
  have c: "0 \<le> c" "c \<le> 3" "0 \<le> rc" "rc \<le> 36524"
    using assms(1,2) unfolding c_def rc_def by (auto simp: min_def)
  show "0 \<le> c" "c \<le> 3" by fact+
  show q: "0 \<le> q" "q \<le> 24" using c(3,4) unfolding q_def by auto
  have rq: "0 \<le> rq" "rq \<le> 1460" using c(3) unfolding rq_def q_def by (simp_all add: minus_mult_div_eq_mod)
  show "0 \<le> n" "n \<le> 3" "0 \<le> rq - 365 * n" "rq - 365 * n \<le> 365"
    using rq unfolding n_def by (auto simp: min_def)
qed

lemma march_month:
  fixes doy :: int
  assumes "0 \<le> doy" "doy \<le> 365"
  defines "mp \<equiv> (5 * doy + 2) div 153"
  shows "0 \<le> mp" "mp \<le> 11" "1 \<le> doy - (153 * mp + 2) div 5 + 1" "doy - (153 * mp + 2) div 5 + 1 \<le> 31"
proof -
  define r where "r = (5 * doy + 2) mod 153"
  define e where "e = (153 * mp + 2) div 5"
  define r' where "r' = (153 * mp + 2) mod 5"
  have "5 * doy + 2 = 153 * mp + r" "0 \<le> r" "r < 153" by (simp_all add: mp_def r_def)
  moreover have "153 * mp + 2 = 5 * e + r'" "0 \<le> r'" "r' < 5" by (simp_all add: e_def r'_def)
  ultimately show "0 \<le> mp" "mp \<le> 11" "1 \<le> doy - (153 * mp + 2) div 5 + 1"
    "doy - (153 * mp + 2) div 5 + 1 \<le> 31"
    using assms(1,2) unfolding e_def [symmetric] by linarith+
qed

section \<open>Reading and writing a timestamp\<close>

definition expect :: "char \<Rightarrow> string \<Rightarrow> string option" where
  "expect c s = (case s of x # r \<Rightarrow> if x = c then Some r else None | [] \<Rightarrow> None)"

text \<open>An optional fraction of any length; the digits past the milliseconds are dropped.\<close>

fun drop_digits :: "string \<Rightarrow> string" where
  "drop_digits [] = []"
| "drop_digits (c # s) = (if digit_of c = None then c # s else drop_digits s)"

definition take_digits :: "string \<Rightarrow> string" where
  "take_digits s = take (length s - length (drop_digits s)) s"

definition read_fraction :: "string \<Rightarrow> (int \<times> string) option" where
  "read_fraction s =
     (case s of
        c # r \<Rightarrow>
          (if c \<noteq> CHR ''.'' then Some (0, s)
           else let ds = take_digits r
                in if ds = [] then None
                   else map_option (\<lambda>(v, _). (v, drop_digits r))
                     (read_digits 3 0 (take 3 (ds @ ''00''))))
      | [] \<Rightarrow> Some (0, s))"

definition read_offset :: "string \<Rightarrow> int option" where
  "read_offset s =
     (case s of
        [] \<Rightarrow> None
      | c # r \<Rightarrow>
          (if c = CHR ''Z'' then (if r = [] then Some 0 else None)
           else if c = CHR ''+'' \<or> c = CHR ''-'' then
             do { (h, r) \<leftarrow> read_digits 2 0 r;
                  r \<leftarrow> expect CHR '':'' r;
                  (m, r) \<leftarrow> read_digits 2 0 r;
                  if r = [] \<and> h \<le> 23 \<and> m \<le> 59
                  then Some ((if c = CHR ''-'' then -1 else 1) * (h * 60 + m)) else None }
           else None))"

definition date_ms :: "string \<Rightarrow> time_ms option" where
  "date_ms s =
     do { (y, s) \<leftarrow> read_digits 4 0 s;
          s \<leftarrow> expect CHR ''-'' s;
          (mo, s) \<leftarrow> read_digits 2 0 s;
          s \<leftarrow> expect CHR ''-'' s;
          (d, s) \<leftarrow> read_digits 2 0 s;
          s \<leftarrow> expect CHR ''T'' s;
          (h, s) \<leftarrow> read_digits 2 0 s;
          s \<leftarrow> expect CHR '':'' s;
          (mi, s) \<leftarrow> read_digits 2 0 s;
          s \<leftarrow> expect CHR '':'' s;
          (sec, s) \<leftarrow> read_digits 2 0 s;
          (ms, s) \<leftarrow> read_fraction s;
          off \<leftarrow> read_offset s;
          if 1 \<le> mo \<and> mo \<le> 12 \<and> 1 \<le> d \<and> d \<le> 31 \<and> h \<le> 23 \<and> mi \<le> 59 \<and> sec \<le> 59
          then Some (((days_from_civil y mo d * 24 + h) * 60 + mi - off) * 60000 + sec * 1000 + ms)
          else None }"

definition to_iso_string :: "time_ms \<Rightarrow> string" where
  "to_iso_string t =
     (let (y, mo, d) = civil_from_days (t div 86400000);
          r = t mod 86400000
      in show_digits 4 y @ ''-'' @ show_digits 2 mo @ ''-'' @ show_digits 2 d @ ''T'' @
         show_digits 2 (r div 3600000) @ '':'' @ show_digits 2 (r div 60000 mod 60) @ '':'' @
         show_digits 2 (r div 1000 mod 60) @ ''.'' @ show_digits 3 (r mod 1000) @ ''Z'')"

lemma civil_from_days_correct:
  assumes "civil_from_days days = (y, m, d)"
  shows "days_from_civil y m d = days \<and> 1 \<le> m \<and> m \<le> 12 \<and> 1 \<le> d \<and> d \<le> 31"
proof -
  define z where "z = days + 719468"
  define era where "era = z div 146097"
  define doe where "doe = z mod 146097"
  define c where "c = min 3 (doe div 36524)"
  define rc where "rc = doe - 36524 * c"
  define q where "q = rc div 1461"
  define rq where "rq = rc - 1461 * q"
  define n where "n = min 3 (rq div 365)"
  define doy where "doy = rq - 365 * n"
  define mp where "mp = (5 * doy + 2) div 153"
  have "0 \<le> doe" "doe < 146097" by (simp_all add: doe_def)
  note r = march_year_split [OF this, folded c_def, folded rc_def, folded q_def, folded rq_def,
      folded n_def, folded doy_def]
  note mo = march_month [OF r(7,8), folded mp_def]
  have m: "m = (if mp < 10 then mp + 3 else mp - 9)"
    and d: "d = doy - (153 * mp + 2) div 5 + 1"
    and y: "y = 400 * era + 100 * c + 4 * q + n + (if m \<le> 2 then 1 else 0)"
    using assms [unfolded civil_from_days_def Let_def, folded z_def, folded era_def doe_def,
        folded c_def, folded rc_def, folded q_def, folded rq_def, folded n_def, folded doy_def,
        folded mp_def]
    by auto
  have m12: "1 \<le> m \<and> m \<le> 12" using m mo(1,2) by auto
  define y' where "y' = (if m \<le> 2 then y - 1 else y)"
  have y': "y' = 400 * era + 100 * c + 4 * q + n" using y by (simp add: y'_def)
  have mp': "(if m > 2 then m - 3 else m + 9) = mp" using m mo(1,2) by auto
  have div4: "y' div 4 = 100 * era + 25 * c + q" using y' r(5,6) by simp
  have div100: "y' div 100 = 4 * era + c" using y' r(1-6) by simp
  have div400: "y' div 400 = era" using y' r(1-6) by simp
  have zz: "z = 146097 * era + doe" by (simp add: era_def doe_def)
  have "days_from_civil y m d = y' * 365 + y' div 4 - y' div 100 + y' div 400 + doy - 719468"
    unfolding days_from_civil_def Let_def mp' y'_def [symmetric] using d by simp
  also have "\<dots> = z - 719468"
    using div4 div100 div400 y' zz doy_def rq_def rc_def by linarith
  finally have "days_from_civil y m d = days" by (simp add: z_def)
  with m12 d mo(3,4) show ?thesis by simp
qed

lemma read_fraction_show: "0 \<le> v \<Longrightarrow> v < 1000 \<Longrightarrow>
  read_fraction (CHR ''.'' # show_digits 3 v @ ''Z'') = Some (v, ''Z'')"
proof -
  assume v: "0 \<le> v" "v < 1000"
  obtain a b c where abc: "show_digits 3 v = [a, b, c]"
    by (simp add: numeral_3_eq_3)
  have dg: "digit_of x \<noteq> None" if "x \<in> set (show_digits 3 v)" for x
    using that by (auto simp: numeral_3_eq_3 digit_of_digit_char)
  have drop: "drop_digits (show_digits 3 v @ ''Z'') = ''Z''"
    using dg by (simp add: abc digit_of_def Let_def)
  have "read_digits 3 0 (show_digits 3 v @ []) = Some (v, [])"
    using v by (intro read_show_digits) simp_all
  with drop show ?thesis
    by (simp add: read_fraction_def take_digits_def abc)
qed

lemma expect_same [simp]: "expect c (c # s) = Some s"
  by (simp add: expect_def)

lemma clock_parts:
  fixes r :: int
  assumes "r = 1000 * s + ms" and "s = 60 * mm + se" and "mm = 60 * h + mi"
  shows "r = (h * 60 + mi) * 60000 + se * 1000 + ms"
  using assms by simp

lemma day_and_clock:
  fixes t :: int
  assumes "t = 86400000 * D + r" and "r = (h * 60 + mi) * 60000 + se * 1000 + ms"
  shows "((D * 24 + h) * 60 + mi) * 60000 + se * 1000 + ms = t"
  using assms by simp

lemma timestamp_roundtrip_lemma:
  assumes "civil_from_days (t div 86400000) = (y, mo, d)" and "0 \<le> y" and "y \<le> 9999"
  shows "date_ms (to_iso_string t) = Some t"
proof -
  define r where "r = t mod 86400000"
  have r: "0 \<le> r" "r < 86400000" by (simp_all add: r_def)
  note civ = civil_from_days_correct [OF assms(1)]
  have dig: "read_digits 4 0 (show_digits 4 y @ s) = Some (y, s)"
    "read_digits 2 0 (show_digits 2 mo @ s) = Some (mo, s)"
    "read_digits 2 0 (show_digits 2 d @ s) = Some (d, s)"
    "read_digits 2 0 (show_digits 2 (r div 3600000) @ s) = Some (r div 3600000, s)"
    "read_digits 2 0 (show_digits 2 (r div 60000 mod 60) @ s) = Some (r div 60000 mod 60, s)"
    "read_digits 2 0 (show_digits 2 (r div 1000 mod 60) @ s) = Some (r div 1000 mod 60, s)" for s
    using assms(2,3) civ r by (auto intro!: read_show_digits)
  have frac: "read_fraction (CHR ''.'' # show_digits 3 (r mod 1000) @ ''Z'') = Some (r mod 1000, ''Z'')"
    by (rule read_fraction_show) simp_all
  have time: "((t div 86400000 * 24 + r div 3600000) * 60 + r div 60000 mod 60) * 60000 +
      r div 1000 mod 60 * 1000 + r mod 1000 = t"
  proof -
    have "t = 86400000 * (t div 86400000) + r" by (simp add: r_def)
    moreover have "r = (r div 3600000 * 60 + r div 60000 mod 60) * 60000 +
      r div 1000 mod 60 * 1000 + r mod 1000"
    proof -
      define s where "s = r div 1000"
      have "r div (1000 * 60) = s div 60" "r div (60000 * 60) = r div 60000 div 60"
        unfolding s_def by (rule zdiv_zmult2_eq, simp)+
      then have "r div 60000 = s div 60" "r div 3600000 = s div 60 div 60" by simp_all
      moreover have "r = 1000 * s + r mod 1000" "s = 60 * (s div 60) + s mod 60"
        "s div 60 = 60 * (s div 60 div 60) + s div 60 mod 60"
        by (simp_all add: s_def)
      note clock_parts [OF this]
      ultimately show ?thesis unfolding s_def [symmetric] by simp
    qed
    ultimately show ?thesis by (rule day_and_clock)
  qed
  have range: "r div 3600000 \<le> 23" "r div 60000 mod 60 \<le> 59" "r div 1000 mod 60 \<le> 59"
    using r by auto
  show ?thesis
    using civ range time
    by (simp add: date_ms_def to_iso_string_def assms(1) r_def [symmetric] dig frac read_offset_def Let_def)
qed

end
