(* ===== verification/Wal_Texts.thy ===== *)
theory Wal_Texts
  imports Wal_Model Js_Dates
begin

text \<open>
  The sentences of WAL stream monitoring, from
  \<open>src/frontend/src/pages/databases/lib/wal-stream-monitoring\<close>: rounded durations, the texts of
  reasons and notices, the keeping-up sentences, the verdict banner, the full backup action, the
  figures and the eased amounts. A JavaScript \<open>Date\<close> is a \<open>js_date\<close>, absent when it is invalid.
\<close>

type_synonym js_date = "time_ms option"

section \<open>Rounded durations (roundedDuration.ts)\<close>

definition js_round :: "number \<Rightarrow> int" where
  "js_round x = \<lfloor>x + 1 / 2\<rfloor>"

definition duration_text :: "string \<Rightarrow> (string \<times> int) list \<Rightarrow> localized_text" where
  "duration_text k ps = \<lparr>lt_key = ''backups.physical.monitoring.durations.'' @ k,
     lt_params = map (\<lambda>(n, i). (n, TNum (of_int i))) ps\<rparr>"

definition get_rounded_duration :: "number \<Rightarrow> localized_text" where
  "get_rounded_duration seconds =
     (let total_minutes = max 1 (js_round (seconds / 60));
          hours = total_minutes div 60;
          minutes = total_minutes mod 60;
          total_hours = js_round (seconds / 3600)
      in if total_minutes < 60 then duration_text ''minutes'' [(''minutes'', total_minutes)]
         else if seconds < 86400 \<and> hours < 24
         then duration_text ''hoursMinutes'' [(''hours'', hours), (''minutes'', minutes)]
         else duration_text ''daysHours'' [(''days'', total_hours div 24), (''hours'', total_hours mod 24)])"

definition get_measurement_age :: "number \<Rightarrow> localized_text" where
  "get_measurement_age seconds =
     (if seconds < 60 then duration_text ''seconds'' [(''seconds'', max 0 \<lfloor>seconds\<rfloor>)]
      else get_rounded_duration seconds)"

definition get_seconds_between :: "js_date \<Rightarrow> js_date \<Rightarrow> number option" where
  "get_seconds_between earlier later =
     (case (earlier, later) of
        (Some e, Some l) \<Rightarrow> Some (max 0 (of_int (l - e) / 1000))
      | _ \<Rightarrow> None)"

section \<open>Reason and notice texts (reasonTexts.ts)\<close>

record reason_sentence_keys =
  rk_what_happened :: string
  rk_what_to_do :: string
  rk_what_to_do_while_pending :: "string option"

definition plain_keys :: "string \<Rightarrow> reason_sentence_keys" where
  "plain_keys k = \<lparr>rk_what_happened = k @ ''.whatHappened'', rk_what_to_do = k @ ''.whatToDo'',
     rk_what_to_do_while_pending = None\<rparr>"

definition pending_keys :: "string \<Rightarrow> reason_sentence_keys" where
  "pending_keys k = (plain_keys k)\<lparr>rk_what_to_do_while_pending := Some (k @ ''.whatToDoPending'')\<rparr>"

primrec reason_sentence_keys_of :: "reason_code \<Rightarrow> reason_sentence_keys" where
  "reason_sentence_keys_of RC_STREAMING_STOPPED = plain_keys ''backups.physical.monitoring.reasons.streamingStopped''"
| "reason_sentence_keys_of RC_SOURCE_UNREACHABLE = plain_keys ''backups.physical.monitoring.reasons.sourceUnreachable''"
| "reason_sentence_keys_of RC_WAL_CHAIN_BROKEN = pending_keys ''backups.physical.monitoring.reasons.walChainBroken''"
| "reason_sentence_keys_of RC_SLOT_MISSING = pending_keys ''backups.physical.monitoring.reasons.slotMissing''"
| "reason_sentence_keys_of RC_SLOT_LOST = plain_keys ''backups.physical.monitoring.reasons.slotLost''"
| "reason_sentence_keys_of RC_ARCHIVE_NOT_ADVANCING = plain_keys ''backups.physical.monitoring.reasons.archiveNotAdvancing''"
| "reason_sentence_keys_of RC_ARCHIVE_SLOWER_THAN_SOURCE = plain_keys ''backups.physical.monitoring.reasons.archiveSlowerThanSource''"
| "reason_sentence_keys_of RC_SLOT_KEEPS_EXTRA_WAL = plain_keys ''backups.physical.monitoring.reasons.slotKeepsExtraWal''"
| "reason_sentence_keys_of RC_SLOT_LIMIT_APPROACHING = plain_keys ''backups.physical.monitoring.reasons.slotLimitApproaching''"
| "reason_sentence_keys_of RC_NEAR_SLOT_REBUILD = plain_keys ''backups.physical.monitoring.reasons.nearSlotRebuild''"
| "reason_sentence_keys_of RC_LOCAL_QUEUE_FILLING = plain_keys ''backups.physical.monitoring.reasons.localQueueFilling''"
| "reason_sentence_keys_of RC_FREQUENT_RESTARTS = plain_keys ''backups.physical.monitoring.reasons.frequentRestarts''"
| "reason_sentence_keys_of RC_FORCED_ROTATION_REFUSED = plain_keys ''backups.physical.monitoring.reasons.forcedRotationRefused''"

primrec notice_sentence_keys_of :: "notice_code \<Rightarrow> reason_sentence_keys" where
  "notice_sentence_keys_of NC_NO_SLOT_WAL_LIMIT = plain_keys ''backups.physical.monitoring.notices.noSlotWalLimit''"
| "notice_sentence_keys_of NC_SLOT_KEEPS_EXTRA_WAL_STEADILY = plain_keys ''backups.physical.monitoring.notices.slotKeepsExtraWalSteadily''"
| "notice_sentence_keys_of NC_NO_FULL_BACKUP_YET = plain_keys ''backups.physical.monitoring.notices.noFullBackupYet''"

primrec reason_level_order :: "reason_level \<Rightarrow> int" where
  "reason_level_order RL_BROKEN = 0"
| "reason_level_order RL_NEEDS_ATTENTION = 1"
| "reason_level_order RL_INFO = 2"

text \<open>\<open>Array.prototype.sort\<close> is stable; \<open>sort_key\<close> is the stable sort of the library.\<close>

definition sort_reasons_broken_first :: "wal_reason list \<Rightarrow> wal_reason list" where
  "sort_reasons_broken_first reasons = sort_key (\<lambda>r. reason_level_order (wr_level r)) reasons"

text \<open>Setting a field of an object: an existing field keeps its place and takes the new value.\<close>

fun set_field :: "'k \<Rightarrow> 'v \<Rightarrow> ('k \<times> 'v) list \<Rightarrow> ('k \<times> 'v) list" where
  "set_field k v [] = [(k, v)]"
| "set_field k v ((k', v') # fs) = (if k = k' then (k, v) # fs else (k', v') # set_field k v fs)"

definition set_when :: "'k \<Rightarrow> 'v option \<Rightarrow> ('k \<times> 'v) list \<Rightarrow> ('k \<times> 'v) list" where
  "set_when k v fs = (case v of None \<Rightarrow> fs | Some x \<Rightarrow> set_field k x fs)"

definition get_reason_params :: "wal_reason \<Rightarrow> js_date \<Rightarrow> (string \<times> text_param) list" where
  "get_reason_params r now =
     (let p1 = set_when ''duration'' (map_option (\<lambda>since.
                 TextParam (get_rounded_duration (nullish (get_seconds_between (date_ms since) now) 0))) (wr_since r)) [];
          p2 = set_when ''duration'' (map_option (\<lambda>s. TextParam (get_rounded_duration s)) (wr_estimated_seconds r)) p1;
          p3 = set_when ''amount'' (map_option BytesParam (wr_value_bytes r)) p2;
          p4 = set_when ''limit'' (map_option BytesParam (wr_threshold_bytes r)) p3
      in set_when ''count'' (map_option CountParam (wr_count r)) p4)"

definition get_reason_texts :: "wal_reason \<Rightarrow> bool \<Rightarrow> js_date \<Rightarrow> reason_texts" where
  "get_reason_texts r full_backup_pending now =
     (let keys = reason_sentence_keys_of (wr_code r);
          what_to_do = (if full_backup_pending then nullish (rk_what_to_do_while_pending keys) (rk_what_to_do keys)
                        else rk_what_to_do keys)
      in \<lparr>rt_level = wr_level r, rt_title_key = reason_code_label (wr_code r),
          rt_what_happened = sentence_with (rk_what_happened keys) (get_reason_params r now),
          rt_what_to_do = sentence what_to_do\<rparr>)"

definition get_notice_texts :: "wal_notice \<Rightarrow> reason_texts" where
  "get_notice_texts n =
     (let keys = notice_sentence_keys_of (wn_code n)
      in \<lparr>rt_level = wn_level n, rt_title_key = notice_code_label (wn_code n),
          rt_what_happened = sentence (rk_what_happened keys),
          rt_what_to_do = sentence (rk_what_to_do keys)\<rparr>)"

definition get_tip_texts :: "wal_notice list \<Rightarrow> reason_texts list" where
  "get_tip_texts notices = map get_notice_texts (filter (\<lambda>n. wn_code n \<noteq> NC_NO_FULL_BACKUP_YET) notices)"

section \<open>What the texts promise\<close>

lemma js_round_bounds: "of_int (js_round x) - 1 / 2 \<le> x \<and> x < of_int (js_round x) + 1 / 2"
  unfolding js_round_def by linarith

lemma js_round_mono: "x \<le> y \<Longrightarrow> js_round x \<le> js_round y"
  by (simp add: js_round_def floor_mono)

lemma split_by:
  fixes a b :: int
  assumes "0 < b"
  obtains q r where "a div b = q" "a mod b = r" "a = b * q + r" "0 \<le> r" "r < b"
proof
  show "a = b * (a div b) + a mod b" by simp
qed (use assms in simp_all)

lemma whole_hours_range:
  assumes "86370 \<le> seconds"
  shows "24 \<le> js_round (seconds / 3600)"
proof -
  have "js_round (86370 / 3600 :: number) \<le> js_round (seconds / 3600)"
    using assms by (intro js_round_mono) simp
  moreover have "js_round (86370 / 3600 :: number) = 24" by (simp add: js_round_def floor_eq_iff)
  ultimately show ?thesis by linarith
qed

text \<open>The number of seconds a duration text shows, read back from its units.\<close>

definition unit_seconds :: "string \<Rightarrow> number" where
  "unit_seconds u = (if u = ''seconds'' then 1 else if u = ''minutes'' then 60
     else if u = ''hours'' then 3600 else if u = ''days'' then 86400 else 0)"

definition shown_seconds :: "localized_text \<Rightarrow> number" where
  "shown_seconds t = sum_list (map (\<lambda>(u, v). case v of TNum x \<Rightarrow> unit_seconds u * x | TStr _ \<Rightarrow> 0) (lt_params t))"

lemma shown_seconds_text:
  "shown_seconds (duration_text k ps) = sum_list (map (\<lambda>(u, i). unit_seconds u * of_int i) ps)"
  by (induction ps) (auto simp: shown_seconds_def duration_text_def)

lemma shown_units [simp]:
  "shown_seconds (duration_text k [(''minutes'', m)]) = 60 * of_int m"
  "shown_seconds (duration_text k [(''hours'', h), (''minutes'', m)]) = 3600 * of_int h + 60 * of_int m"
  "shown_seconds (duration_text k [(''days'', d), (''hours'', h)]) = 86400 * of_int d + 3600 * of_int h"
  by (simp_all add: shown_seconds_text unit_seconds_def)

text \<open>The three shapes of a rounded duration, with the total it shows.\<close>

lemma rounded_duration_cases:
  obtains (minutes) m where "get_rounded_duration s = duration_text ''minutes'' [(''minutes'', m)]"
      "m = max 1 (js_round (s / 60))" "1 \<le> m" "m < 60"
  | (hours) h m where "get_rounded_duration s = duration_text ''hoursMinutes'' [(''hours'', h), (''minutes'', m)]"
      "60 * h + m = js_round (s / 60)" "1 \<le> h" "h < 24" "0 \<le> m" "m < 60" "s < 86400"
  | (days) d h where "get_rounded_duration s = duration_text ''daysHours'' [(''days'', d), (''hours'', h)]"
      "24 * d + h = js_round (s / 3600)" "1 \<le> d" "0 \<le> h" "h < 24" "86370 \<le> s"
proof -
  define n where "n = js_round (s / 60)"
  define k where "k = js_round (s / 3600)"
  obtain q r where n: "max 1 n div 60 = q" "max 1 n mod 60 = r" "max 1 n = 60 * q + r" "0 \<le> r" "r < 60"
    by (rule split_by [of 60 "max 1 n"]) simp
  obtain q' r' where k: "k div 24 = q'" "k mod 24 = r'" "k = 24 * q' + r'" "0 \<le> r'" "r' < 24"
    by (rule split_by [of 24 k]) simp
  show ?thesis
  proof (cases "max 1 n < 60")
    case True
    then show ?thesis using minutes [of "max 1 n"] by (simp add: get_rounded_duration_def n_def Let_def)
  next
    case False
    then have big: "60 \<le> n" "n = 60 * q + r" using n(3) by simp_all
    show ?thesis
    proof (cases "s < 86400 \<and> q < 24")
      case True
      have "1 \<le> q" using big n(5) by simp
      moreover have "get_rounded_duration s = duration_text ''hoursMinutes'' [(''hours'', q), (''minutes'', r)]"
        using False True n(1,2) by (simp add: get_rounded_duration_def n_def Let_def)
      ultimately show ?thesis using hours [of q r] big n(4,5) True by (simp add: n_def)
    next
      case far: False
      have "86370 \<le> s"
      proof (cases "s < 86400")
        case True
        with far big n(4) have "1440 \<le> n" by simp
        with js_round_bounds [of "s / 60"] have "of_int 1440 - 1 / 2 \<le> s / 60"
          unfolding n_def by (meson diff_right_mono of_int_le_iff order_trans)
        then show ?thesis by simp
      qed simp
      moreover from whole_hours_range [OF this] k have "1 \<le> q'" unfolding k_def by simp
      moreover have "get_rounded_duration s = duration_text ''daysHours'' [(''days'', q'), (''hours'', r')]"
        using False far n(1) k(1,2) by (auto simp: get_rounded_duration_def n_def k_def Let_def)
      ultimately show ?thesis using days [of q' r'] k by (simp add: k_def)
    qed
  qed
qed

text \<open>The shown total is within half a minute of the measured one below a day, half an hour above.\<close>

lemma minutes_close:
  fixes s :: number
  assumes "n = js_round (s / 60)"
  shows "\<bar>s - 60 * of_int n\<bar> \<le> 30"
  using js_round_bounds [of "s / 60"] assms by (simp add: abs_le_iff field_simps)

lemma hours_close:
  fixes s :: number
  assumes "n = js_round (s / 3600)"
  shows "\<bar>s - 3600 * of_int n\<bar> \<le> 1800"
  using js_round_bounds [of "s / 3600"] assms by (simp add: abs_le_iff field_simps)

text \<open>A rounded duration shows 1 to 59 minutes, or 1 to 23 hours with 0 to 59 minutes, or at least
  one day with 0 to 23 hours; the total it shows is off by at most half a minute below a day and half
  an hour beyond, apart from the floor of one minute.\<close>

theorem rounded_duration_readable:
  "(\<exists>m. get_rounded_duration s = duration_text ''minutes'' [(''minutes'', m)] \<and> 1 \<le> m \<and> m < 60 \<and>
        (s < 30 \<and> m = 1 \<or> \<bar>s - shown_seconds (get_rounded_duration s)\<bar> \<le> 30)) \<or>
   (\<exists>h m. get_rounded_duration s = duration_text ''hoursMinutes'' [(''hours'', h), (''minutes'', m)] \<and>
        1 \<le> h \<and> h < 24 \<and> 0 \<le> m \<and> m < 60 \<and> \<bar>s - shown_seconds (get_rounded_duration s)\<bar> \<le> 30) \<or>
   (\<exists>d h. get_rounded_duration s = duration_text ''daysHours'' [(''days'', d), (''hours'', h)] \<and>
        1 \<le> d \<and> 0 \<le> h \<and> h < 24 \<and> \<bar>s - shown_seconds (get_rounded_duration s)\<bar> \<le> 1800)"
proof (cases rule: rounded_duration_cases [of s])
  case (minutes m)
  show ?thesis
  proof (cases "js_round (s / 60) < 1")
    case True
    then have "of_int (js_round (s / 60)) \<le> (0 :: number)" by simp
    with js_round_bounds [of "s / 60"] have "s < 30" by simp
    with minutes True show ?thesis by auto
  next
    case False
    with minutes have "\<bar>s - 60 * of_int m\<bar> \<le> 30" by (intro minutes_close) simp
    with minutes show ?thesis by auto
  qed
next
  case (hours h m)
  then have "\<bar>s - 60 * of_int (60 * h + m)\<bar> \<le> 30" by (intro minutes_close)
  then have "\<bar>s - shown_seconds (get_rounded_duration s)\<bar> \<le> 30" using hours(1) by (simp add: algebra_simps)
  with hours show ?thesis by blast
next
  case (days d h)
  then have "\<bar>s - 3600 * of_int (24 * d + h)\<bar> \<le> 1800" by (intro hours_close)
  then have "\<bar>s - shown_seconds (get_rounded_duration s)\<bar> \<le> 1800" using days(1) by (simp add: algebra_simps)
  with days show ?thesis by blast
qed

lemma shown_total:
  "shown_seconds (get_rounded_duration s) =
     (if s < 86370 then 60 * of_int (max 1 (js_round (s / 60))) else 3600 * of_int (js_round (s / 3600)))"
proof (cases rule: rounded_duration_cases [of s])
  case (minutes m)
  then have "js_round (s / 60) \<le> 59" by linarith
  then have "of_int (js_round (s / 60)) \<le> (59 :: number)" by (metis of_int_le_iff of_int_numeral)
  with js_round_bounds [of "s / 60"] have "s < 86370" by simp
  with minutes show ?thesis by simp
next
  case (hours h m)
  then have "js_round (s / 60) \<le> 1439" by linarith
  then have "of_int (js_round (s / 60)) \<le> (1439 :: number)" by (metis of_int_le_iff of_int_numeral)
  with js_round_bounds [of "s / 60"] have "s < 86370" by simp
  moreover have "max 1 (js_round (s / 60)) = 60 * h + m" using hours by simp
  ultimately show ?thesis using hours by simp
next
  case (days d h)
  then show ?thesis by (simp flip: days(2))
qed

lemma shown_total_mono:
  assumes "s \<le> t"
  shows "shown_seconds (get_rounded_duration s) \<le> shown_seconds (get_rounded_duration t)"
proof -
  have m: "max 1 (js_round (s / 60)) \<le> max 1 (js_round (t / 60))"
    using assms by (intro max.mono order_refl js_round_mono) simp
  have h: "js_round (s / 3600) \<le> js_round (t / 3600)"
    using assms by (intro js_round_mono) (simp add: divide_right_mono)
  have mixed: "60 * max 1 (js_round (s / 60)) \<le> 3600 * js_round (t / 3600)" if "s < 86370" "86370 \<le> t"
  proof -
    have "js_round (s / 60) \<le> js_round (86370 / 60 :: number)" using that by (intro js_round_mono) simp
    moreover have "js_round (86370 / 60 :: number) = 1440" by (simp add: js_round_def floor_eq_iff)
    ultimately show ?thesis using whole_hours_range [OF that(2)] by linarith
  qed
  show ?thesis
  proof (cases "s < 86370 \<longleftrightarrow> t < 86370")
    case True
    then show ?thesis using m h by (auto simp: shown_total)
  next
    case False
    with assms have "s < 86370" "86370 \<le> t" by auto
    then have "(of_int (60 * max 1 (js_round (s / 60))) :: number) \<le> of_int (3600 * js_round (t / 3600))"
      by (intro of_int_le_iff [THEN iffD2] mixed)
    with \<open>s < 86370\<close> \<open>86370 \<le> t\<close> show ?thesis by (simp add: shown_total)
  qed
qed

text \<open>A longer time never reads as a shorter one, across the changes of unit too.\<close>

theorem rounded_duration_monotone:
  assumes "s \<le> t"
  shows "shown_seconds (get_rounded_duration s) \<le> shown_seconds (get_rounded_duration t)"
  using shown_total_mono [OF assms] by simp

theorem rounded_duration_monotone_witness:
  "shown_seconds (get_rounded_duration 86369) \<le> shown_seconds (get_rounded_duration 86370)"
  by (rule rounded_duration_monotone) simp

theorem rounded_duration_readable_witness:
  "get_rounded_duration 7199 = duration_text ''hoursMinutes'' [(''hours'', 2), (''minutes'', 0)] \<and>
   \<bar>7199 - shown_seconds (get_rounded_duration 7199)\<bar> \<le> 30"
  using rounded_duration_readable [of 7199]
  by (auto simp: get_rounded_duration_def duration_text_def js_round_def Let_def)

text \<open>A list sorted by a key with three values is its three parts in order.\<close>

lemma insort_key_three:
  fixes f :: "'a \<Rightarrow> int"
  assumes "f x \<in> {0, 1, 2}" and "\<forall>y\<in>set a. f y = 0" and "\<forall>y\<in>set b. f y = 1" and "\<forall>y\<in>set c. f y = 2"
  shows "insort_key f x (a @ b @ c) =
     (if f x = 0 then (x # a) @ b @ c else if f x = 1 then a @ (x # b) @ c else a @ b @ x # c)"
proof -
  have step: "insort_key f x (us @ vs) = us @ insort_key f x vs" if "\<forall>u\<in>set us. f u < f x" for us vs
    using that by (induction us) auto
  have front: "insort_key f x ws = x # ws" if "\<forall>w\<in>set ws. f x \<le> f w" for ws
    using that by (cases ws) auto
  consider "f x = 0" | "f x = 1" | "f x = 2" using assms(1) by blast
  then show ?thesis
  proof cases
    case 1
    then show ?thesis using assms by (subst front) auto
  next
    case 2
    then show ?thesis using assms by (subst step) (auto intro!: front)
  next
    case 3
    have "insort_key f x ((a @ b) @ c) = (a @ b) @ insort_key f x c" using assms 3 by (intro step) auto
    also have "insort_key f x c = x # c" using assms 3 by (intro front) auto
    finally show ?thesis using 3 by simp
  qed
qed

lemma sort_key_three:
  fixes f :: "'a \<Rightarrow> int"
  assumes "\<And>x. f x \<in> {0, 1, 2}"
  shows "sort_key f xs = filter (\<lambda>x. f x = 0) xs @ filter (\<lambda>x. f x = 1) xs @ filter (\<lambda>x. f x = 2) xs"
proof (induction xs)
  case Nil
  then show ?case by simp
next
  case (Cons x xs)
  have "sort_key f (x # xs) = insort_key f x (sort_key f xs)" by simp
  also have "\<dots> = (if f x = 0 then x # filter (\<lambda>x. f x = 0) xs else filter (\<lambda>x. f x = 0) xs) @
      (if f x = 1 then x # filter (\<lambda>x. f x = 1) xs else filter (\<lambda>x. f x = 1) xs) @
      (if f x = 2 then x # filter (\<lambda>x. f x = 2) xs else filter (\<lambda>x. f x = 2) xs)"
    unfolding Cons.IH using assms [of x] by (subst insort_key_three) auto
  finally show ?case by simp
qed

lemma reason_level_order_simps:
  "reason_level_order l \<in> {0, 1, 2}"
  "reason_level_order l = 0 \<longleftrightarrow> l = RL_BROKEN"
  "reason_level_order l = 1 \<longleftrightarrow> l = RL_NEEDS_ATTENTION"
  "reason_level_order l = 2 \<longleftrightarrow> l = RL_INFO"
  by (cases l; simp)+

text \<open>Sorting the reasons lists the broken ones first, then those that need attention, then the
  informative ones, each group in the order the service reported it.\<close>

theorem reasons_sorted_by_severity:
  "sort_reasons_broken_first rs =
     filter (\<lambda>r. wr_level r = RL_BROKEN) rs @ filter (\<lambda>r. wr_level r = RL_NEEDS_ATTENTION) rs @
     filter (\<lambda>r. wr_level r = RL_INFO) rs"
  unfolding sort_reasons_broken_first_def
  by (subst sort_key_three) (simp_all only: reason_level_order_simps)

section \<open>Sample responses, to try the properties on\<close>

definition sample_reason :: "reason_code \<Rightarrow> reason_level \<Rightarrow> wal_reason" where
  "sample_reason c l = \<lparr>wr_code = c, wr_level = l, wr_since = None, wr_value_bytes = None,
     wr_threshold_bytes = None, wr_count = None, wr_estimated_seconds = None\<rparr>"

definition sample_keeping_up :: wal_keeping_up where
  "sample_keeping_up = \<lparr>ku_state = KU_FALLING_BEHIND, ku_source_write_rate = Some 10, ku_archive_rate = Some 4,
     ku_unarchived_wal_bytes = Some 100, ku_unarchived_wal_change_rate = Some 6, ku_slot_lag_bytes = None,
     ku_slot_lag_change_rate = None, ku_slot_rebuild_lag_bytes = 1000, ku_estimated_catch_up_seconds = None,
     ku_estimated_slot_rebuild_seconds = Some 7200, ku_estimated_slot_limit_seconds = Some 200000\<rparr>"

definition sample_statistics :: "health_level \<Rightarrow> wal_reason list \<Rightarrow> wal_time_range list \<Rightarrow> wal_statistics" where
  "sample_statistics level reasons ranges =
     \<lparr>ws_health = \<lparr>wh_level = level, wh_reasons = reasons, wh_notices = [], wh_full_backup_pending = False\<rparr>,
      ws_latest_restorable_at = map_option tr_to (last_opt ranges), ws_restorable_ranges = ranges,
      ws_streamer = \<lparr>sr_state = ST_RUNNING, sr_session_started_at = None, sr_failing_since = None, sr_restarts_last_hour = 0\<rparr>,
      ws_current = None, ws_keeping_up = sample_keeping_up,
      ws_series = \<lparr>se_period = SP_HOUR, se_bucket_seconds = 60, se_from = [], se_to = [], se_points = []\<rparr>\<rparr>"

definition sample_current :: "string \<Rightarrow> string option \<Rightarrow> wal_current" where
  "sample_current sampled saved =
     \<lparr>cu_sampled_at = sampled, cu_last_archived_wal_at = saved, cu_session_started_at = sampled,
      cu_source_state = SS_REACHABLE, cu_source_unreachable_since = None, cu_source_current_lsn = None,
      cu_archive_progress_lsn = None, cu_source_written_bytes = None, cu_archived_segments = 0,
      cu_archived_wal_bytes = 0, cu_archived_stored_bytes = 0, cu_wal_segment_size_bytes = 16777216,
      cu_highest_concurrent_uploads = 1, cu_segment_write_avg_millis = None, cu_segment_write_max_millis = None,
      cu_slot_wal_status = None, cu_slot_extra_wal_since = None, cu_slot_lag_bytes = None,
      cu_slot_safe_wal_size_bytes = None, cu_unarchived_wal_bytes = Some 100, cu_archive_stalled_since = None,
      cu_local_queue_bytes = 0, cu_local_queue_pause_bytes = 1000, cu_receiver_restarts = 0,
      cu_receiver_pauses = 0, cu_receiver_running = True, cu_forced_rotation_denied = False\<rparr>"

definition sample_live :: "string \<Rightarrow> string option \<Rightarrow> wal_live" where
  "sample_live measured saved =
     \<lparr>lv_measured_at = measured, lv_source_probed_at = None, lv_source_state = None, lv_source_current_lsn = None,
      lv_slot_wal_status = None, lv_slot_lag_bytes = None, lv_slot_safe_wal_size_bytes = None,
      lv_archive_progress_lsn = None, lv_last_archived_wal_at = saved, lv_unarchived_wal_bytes = None,
      lv_local_queue_bytes = 5, lv_local_queue_pause_bytes = 1000, lv_receiver_running = True\<rparr>"

end
