(* ===== verification/Wal_Verdicts.thy ===== *)
theory Wal_Verdicts
  imports Wal_Texts
begin

text \<open>
  What the monitoring screen says: the keeping-up sentences (keepingUpSentences.ts), the verdict
  banner (verdictBanner.ts), the offer of a full backup (fullBackupAction.ts), the figures
  (monitoringFigures.ts), the eased amounts (easedTexts.ts) and the values a sentence interpolates
  (monitoringTextValues.ts). Whether two moments fall on the same local day is decided by dayjs, a
  package: it is the parameter \<open>same_day\<close>. Translation and date formatting are parameters too.
\<close>

section \<open>Keeping up (keepingUpSentences.ts)\<close>

abbreviation keeping_up_text :: "string \<Rightarrow> (string \<times> text_param) list \<Rightarrow> monitoring_text" where
  "keeping_up_text k ps \<equiv> sentence_with (''backups.physical.monitoring.keepingUp.'' @ k) ps"

definition consequence_horizon_seconds :: number where
  "consequence_horizon_seconds = 24 * 3600"

definition is_within_consequence_horizon :: "number option \<Rightarrow> bool" where
  "is_within_consequence_horizon estimated =
     (case estimated of None \<Rightarrow> False | Some s \<Rightarrow> s < consequence_horizon_seconds)"

definition get_falling_behind_sentences :: "wal_keeping_up \<Rightarrow> number \<Rightarrow> number \<Rightarrow> monitoring_text list" where
  "get_falling_behind_sentences k write_rate archive_rate =
     keeping_up_text ''fallingBehind''
       [(''differenceRate'', RateParam (max 0 (write_rate - archive_rate))),
        (''writeRate'', RateParam write_rate), (''archiveRate'', RateParam archive_rate)] #
     (case (ku_unarchived_wal_bytes k, ku_unarchived_wal_change_rate k) of
        (Some bytes, Some growth) \<Rightarrow>
          (if growth > 0
           then [keeping_up_text ''fallingBehindBacklog''
                   [(''unsavedAmount'', BytesParam bytes), (''growthPerHour'', BytesParam (growth * 3600))]]
           else [])
      | _ \<Rightarrow> [])"

definition get_catching_up_sentence :: "wal_keeping_up \<Rightarrow> monitoring_text" where
  "get_catching_up_sentence k =
     (let unsaved = BytesParam (nullish (ku_unarchived_wal_bytes k) 0)
      in case ku_estimated_catch_up_seconds k of
        None \<Rightarrow> keeping_up_text ''catchingUpWithoutEstimate'' [(''unsavedAmount'', unsaved)]
      | Some s \<Rightarrow> keeping_up_text ''catchingUp''
          [(''unsavedAmount'', unsaved), (''duration'', TextParam (get_rounded_duration s))])"

definition get_state_sentences :: "wal_keeping_up \<Rightarrow> monitoring_text list" where
  "get_state_sentences k =
     (let write_rate = nullish (ku_source_write_rate k) 0;
          archive_rate = nullish (ku_archive_rate k) 0
      in case ku_state k of
        KU_KEEPING_UP \<Rightarrow> [keeping_up_text ''keepingUp''
          [(''writeRate'', RateParam write_rate), (''archiveRate'', RateParam archive_rate)]]
      | KU_FALLING_BEHIND \<Rightarrow> get_falling_behind_sentences k write_rate archive_rate
      | KU_CATCHING_UP \<Rightarrow> [get_catching_up_sentence k]
      | KU_IDLE \<Rightarrow> [sentence ''backups.physical.monitoring.keepingUp.idle'']
      | KU_UNKNOWN \<Rightarrow> [])"

definition consequence_sentence :: "string \<Rightarrow> number option \<Rightarrow> monitoring_text list" where
  "consequence_sentence key estimated =
     (if is_within_consequence_horizon estimated
      then [keeping_up_text key [(''duration'', TextParam (get_rounded_duration (nullish estimated 0)))]]
      else [])"

definition get_consequence_sentences :: "wal_keeping_up \<Rightarrow> monitoring_text list" where
  "get_consequence_sentences k =
     consequence_sentence ''rebuildConsequence'' (ku_estimated_slot_rebuild_seconds k) @
     consequence_sentence ''limitConsequence'' (ku_estimated_slot_limit_seconds k)"

definition get_keeping_up_sentences :: "wal_keeping_up \<Rightarrow> monitoring_text list" where
  "get_keeping_up_sentences k = get_state_sentences k @ get_consequence_sentences k"

section \<open>The verdict banner (verdictBanner.ts)\<close>

definition unconfirmed_state_after_ms :: int where
  "unconfirmed_state_after_ms = 2 * 60 * 1000"

primrec level_tone :: "health_level \<Rightarrow> monitoring_tone" where
  "level_tone HL_HEALTHY = TONE_SUCCESS"
| "level_tone HL_NEEDS_ATTENTION = TONE_WARNING"
| "level_tone HL_BROKEN = TONE_ERROR"
| "level_tone HL_COLLECTING_DATA = TONE_NEUTRAL"
| "level_tone HL_NOT_STREAMING = TONE_NEUTRAL"

primrec level_icon :: "health_level \<Rightarrow> verdict_icon" where
  "level_icon HL_HEALTHY = ICON_CHECK"
| "level_icon HL_NEEDS_ATTENTION = ICON_EXCLAMATION"
| "level_icon HL_BROKEN = ICON_CLOSE"
| "level_icon HL_COLLECTING_DATA = ICON_CLOCK"
| "level_icon HL_NOT_STREAMING = ICON_PAUSE"

definition to_moment_param :: "(string \<Rightarrow> js_date \<Rightarrow> bool) \<Rightarrow> string \<Rightarrow> js_date \<Rightarrow> text_param" where
  "to_moment_param same_day moment now = MomentParam moment (same_day moment now)"

definition is_limited_by_broken_chain :: "wal_health \<Rightarrow> bool" where
  "is_limited_by_broken_chain h \<longleftrightarrow> (\<exists>r\<in>set (wh_reasons h). wr_code r = RC_WAL_CHAIN_BROKEN)"

abbreviation banner_text :: "string \<Rightarrow> (string \<times> text_param) list \<Rightarrow> monitoring_text" where
  "banner_text k ps \<equiv> sentence_with (''backups.physical.monitoring.banner.'' @ k) ps"

definition get_restore_sentence ::
  "(string \<Rightarrow> js_date \<Rightarrow> bool) \<Rightarrow> wal_statistics \<Rightarrow> js_date \<Rightarrow> monitoring_text" where
  "get_restore_sentence same_day s now =
     (case ws_latest_restorable_at s of
        None \<Rightarrow> sentence (if wh_full_backup_pending (ws_health s)
                    then ''backups.physical.monitoring.banner.restoreNothingPending''
                    else ''backups.physical.monitoring.banner.restoreNothing'')
      | Some latest \<Rightarrow>
          (let moment = to_moment_param same_day latest now;
               limited = is_limited_by_broken_chain (ws_health s);
               ranges = ws_restorable_ranges s;
               from = (if \<not> limited \<and> length ranges > 1
                       then map_option (\<lambda>r. to_moment_param same_day (tr_from r) now) (last_opt ranges)
                       else None)
           in case get_seconds_between (date_ms latest) now of
             None \<Rightarrow> (case from of
                 Some f \<Rightarrow> banner_text ''restoreFromUpToWithoutAge'' [(''from'', f), (''moment'', moment)]
               | None \<Rightarrow> banner_text (if limited then ''restoreOnlyUpToWithoutAge'' else ''restoreUpToWithoutAge'')
                   [(''moment'', moment)])
           | Some age_seconds \<Rightarrow>
               (let age = TextParam (get_measurement_age age_seconds)
                in case from of
                  Some f \<Rightarrow> banner_text ''restoreFromUpTo'' [(''from'', f), (''moment'', moment), (''age'', age)]
                | None \<Rightarrow> banner_text (if limited then ''restoreOnlyUpTo'' else ''restoreUpTo'')
                    [(''moment'', moment), (''age'', age)])))"

definition with_reasons :: "verdict_banner \<Rightarrow> wal_statistics \<Rightarrow> js_date \<Rightarrow> verdict_banner" where
  "with_reasons banner s now =
     (case map (\<lambda>r. get_reason_texts r (wh_full_backup_pending (ws_health s)) now)
             (sort_reasons_broken_first (wh_reasons (ws_health s))) of
        [] \<Rightarrow> banner
      | headline # others \<Rightarrow>
          banner\<lparr>vb_headline_key := rt_title_key headline, vb_headline_reason := Some headline,
                 vb_other_reasons := others\<rparr>)"

definition is_unconfirmed :: "js_date \<Rightarrow> js_date \<Rightarrow> bool" where
  "is_unconfirmed last_refresh now =
     (case (now, last_refresh) of
        (Some n, Some l) \<Rightarrow> n - l > unconfirmed_state_after_ms
      | _ \<Rightarrow> False)"

definition get_verdict_banner ::
  "(string \<Rightarrow> js_date \<Rightarrow> bool) \<Rightarrow> wal_statistics \<Rightarrow> js_date \<Rightarrow> js_date \<Rightarrow> verdict_banner" where
  "get_verdict_banner same_day s last_refresh now =
     (let level = wh_level (ws_health s);
          restore = get_restore_sentence same_day s now;
          banner = \<lparr>vb_tone = level_tone level, vb_icon = level_icon level,
             vb_headline_key = health_level_label level, vb_description = None,
             vb_headline_reason = None, vb_other_reasons = [], vb_restore_sentence = restore,
             vb_config_link_shown = (level = HL_NOT_STREAMING), vb_state_confirmed = True\<rparr>
      in if is_unconfirmed last_refresh now
         then \<lparr>vb_tone = TONE_NEUTRAL, vb_icon = ICON_QUESTION,
             vb_headline_key = ''backups.physical.monitoring.banner.cannotConfirm'',
             vb_description = Some (banner_text ''cannotConfirmDescription''
               [(''level'', TextParam \<lparr>lt_key = health_level_label level, lt_params = []\<rparr>),
                (''duration'', TextParam (get_rounded_duration (nullish (get_seconds_between last_refresh now) 0)))]),
             vb_headline_reason = None, vb_other_reasons = [], vb_restore_sentence = restore,
             vb_config_link_shown = False, vb_state_confirmed = False\<rparr>
         else case level of
           HL_HEALTHY \<Rightarrow> banner\<lparr>vb_headline_key := ''backups.physical.monitoring.banner.healthyHeadline''\<rparr>
         | HL_COLLECTING_DATA \<Rightarrow> banner\<lparr>vb_description :=
             Some (sentence ''backups.physical.monitoring.banner.collectingDataDescription'')\<rparr>
         | HL_NOT_STREAMING \<Rightarrow> banner\<lparr>vb_description :=
             Some (sentence ''backups.physical.monitoring.banner.notStreamingDescription'')\<rparr>
         | _ \<Rightarrow> with_reasons banner s now)"

section \<open>The full backup action (fullBackupAction.ts)\<close>

record full_backup_action_input =
  fi_level :: health_level
  fi_state_confirmed :: bool
  fi_reasons :: "wal_reason list"
  fi_latest_restorable_at :: "string option"
  fi_full_backup_pending :: bool
  fi_can_manage_dbs :: bool
  fi_requesting_full_backup :: bool

definition levels_offering_full_backup :: "health_level list" where
  "levels_offering_full_backup = [HL_HEALTHY, HL_NEEDS_ATTENTION, HL_BROKEN]"

definition reasons_repaired_by_full_backup :: "reason_code list" where
  "reasons_repaired_by_full_backup = [RC_WAL_CHAIN_BROKEN, RC_SLOT_MISSING]"

definition is_full_backup_the_fix :: "full_backup_action_input \<Rightarrow> bool" where
  "is_full_backup_the_fix i \<longleftrightarrow>
     fi_latest_restorable_at i = None \<or>
     (\<exists>r\<in>set (fi_reasons i). wr_code r \<in> set reasons_repaired_by_full_backup)"

definition get_full_backup_action :: "full_backup_action_input \<Rightarrow> full_backup_action" where
  "get_full_backup_action i =
     (if \<not> fi_can_manage_dbs i \<or> \<not> fi_state_confirmed i \<or> fi_full_backup_pending i then FA_HIDDEN
      else if fi_level i \<notin> set levels_offering_full_backup \<or> \<not> is_full_backup_the_fix i then FA_HIDDEN
      else if fi_requesting_full_backup i then FA_REQUESTING else FA_AVAILABLE)"

section \<open>Figures (monitoringFigures.ts)\<close>

definition get_monitoring_figures :: "wal_statistics \<Rightarrow> monitoring_figures option" where
  "get_monitoring_figures s =
     (let level = wh_level (ws_health s)
      in if level = HL_COLLECTING_DATA \<or> level = HL_NOT_STREAMING then None
         else Some \<lparr>mf_last_saved_at = Option.bind (ws_current s) cu_last_archived_wal_at,
                    mf_waiting_bytes = ku_unarchived_wal_bytes (ws_keeping_up s),
                    mf_write_rate = ku_source_write_rate (ws_keeping_up s),
                    mf_save_rate = ku_archive_rate (ws_keeping_up s)\<rparr>)"

section \<open>Eased amounts (easedTexts.ts)\<close>

definition ease_out_cubic :: "number \<Rightarrow> number" where
  "ease_out_cubic progress = 1 - (1 - min 1 (max 0 progress)) ^ 3"

definition interpolate_number :: "number \<Rightarrow> number \<Rightarrow> number \<Rightarrow> number" where
  "interpolate_number from_value to_value progress =
     from_value + (to_value - from_value) * ease_out_cubic progress"

fun interpolate_param :: "text_param option \<Rightarrow> text_param \<Rightarrow> number \<Rightarrow> text_param" where
  "interpolate_param (Some (BytesParam a)) (BytesParam b) p = BytesParam (interpolate_number a b p)"
| "interpolate_param (Some (RateParam a)) (RateParam b) p = RateParam (interpolate_number a b p)"
| "interpolate_param _ to_param p = to_param"

definition nth_opt :: "'a list \<Rightarrow> nat \<Rightarrow> 'a option" where
  "nth_opt xs i = (if i < length xs then Some (xs ! i) else None)"

definition interpolate_text :: "monitoring_text option \<Rightarrow> monitoring_text \<Rightarrow> number \<Rightarrow> monitoring_text" where
  "interpolate_text from_text to_text progress =
     (case (from_text, mt_params to_text) of
        (Some f, Some ps) \<Rightarrow>
          (if progress \<ge> 1 \<or> mt_key f \<noteq> mt_key to_text then to_text
           else sentence_with (mt_key to_text)
             (map (\<lambda>(name, p). (name, interpolate_param (Option.bind (mt_params f) (\<lambda>q. map_of q name)) p progress)) ps))
      | _ \<Rightarrow> to_text)"

definition interpolate_monitoring_texts ::
  "monitoring_text list \<Rightarrow> monitoring_text list \<Rightarrow> number \<Rightarrow> monitoring_text list" where
  "interpolate_monitoring_texts from_texts to_texts progress =
     map (\<lambda>i. interpolate_text (nth_opt from_texts i) (to_texts ! i) progress) [0..<length to_texts]"

section \<open>What the screen promises\<close>

lemma sort_reasons_eq_Nil [simp]: "sort_reasons_broken_first rs = [] \<longleftrightarrow> rs = []"
  by (metis set_empty set_sort sort_reasons_broken_first_def)

lemmas banner_ops =
  get_verdict_banner_def with_reasons_def Let_def

text \<open>When the state is confirmed and the verdict is broken or needs attention, the banner
  carries every reported reason exactly once, the most severe first, its first one as the headline.\<close>

theorem verdict_lists_every_reason:
  assumes "\<not> is_unconfirmed last_refresh now" and "wh_level (ws_health s) \<in> {HL_BROKEN, HL_NEEDS_ATTENTION}"
    and "wh_reasons (ws_health s) \<noteq> []"
  shows "\<exists>headline. vb_headline_reason (get_verdict_banner same_day s last_refresh now) = Some headline \<and>
    vb_headline_key (get_verdict_banner same_day s last_refresh now) = rt_title_key headline \<and>
    headline # vb_other_reasons (get_verdict_banner same_day s last_refresh now) =
      map (\<lambda>r. get_reason_texts r (wh_full_backup_pending (ws_health s)) now)
        (sort_reasons_broken_first (wh_reasons (ws_health s)))"
  using assms by (auto simp: banner_ops split: list.splits)

text \<open>The inputs the screen passes on to the offer of a full backup.\<close>

definition screen_action_input ::
  "wal_statistics \<Rightarrow> verdict_banner \<Rightarrow> bool \<Rightarrow> bool \<Rightarrow> full_backup_action_input" where
  "screen_action_input s banner can_manage requesting =
     \<lparr>fi_level = wh_level (ws_health s), fi_state_confirmed = vb_state_confirmed banner,
      fi_reasons = wh_reasons (ws_health s), fi_latest_restorable_at = ws_latest_restorable_at s,
      fi_full_backup_pending = wh_full_backup_pending (ws_health s), fi_can_manage_dbs = can_manage,
      fi_requesting_full_backup = requesting\<rparr>"

text \<open>Two minutes after the last successful refresh the screen stops claiming anything: the
  banner turns neutral, names no reason and no settings link, and no full backup is offered.\<close>

theorem unconfirmed_state_claims_nothing:
  assumes "n - l > unconfirmed_state_after_ms"
  shows "vb_tone (get_verdict_banner same_day s (Some l) (Some n)) = TONE_NEUTRAL \<and>
    vb_headline_reason (get_verdict_banner same_day s (Some l) (Some n)) = None \<and>
    vb_other_reasons (get_verdict_banner same_day s (Some l) (Some n)) = [] \<and>
    \<not> vb_config_link_shown (get_verdict_banner same_day s (Some l) (Some n)) \<and>
    get_full_backup_action (screen_action_input s (get_verdict_banner same_day s (Some l) (Some n)) can_manage requesting) = FA_HIDDEN"
  using assms
  by (simp add: get_verdict_banner_def is_unconfirmed_def get_full_backup_action_def screen_action_input_def Let_def)

text \<open>A full backup is offered exactly to a user who may manage databases, on a confirmed verdict
  about streaming, with none pending, when nothing can be restored yet or a reason is reported that
  only a full backup repairs.\<close>

theorem full_backup_offered_exactly_when_it_helps:
  "get_full_backup_action i \<noteq> FA_HIDDEN \<longleftrightarrow>
     fi_can_manage_dbs i \<and> fi_state_confirmed i \<and> \<not> fi_full_backup_pending i \<and>
     fi_level i \<notin> {HL_NOT_STREAMING, HL_COLLECTING_DATA} \<and>
     (fi_latest_restorable_at i = None \<or>
      (\<exists>r\<in>set (fi_reasons i). wr_code r = RC_WAL_CHAIN_BROKEN \<or> wr_code r = RC_SLOT_MISSING))"
  by (cases "fi_level i")
    (auto simp: get_full_backup_action_def levels_offering_full_backup_def is_full_backup_the_fix_def
      reasons_repaired_by_full_backup_def)

text \<open>The sentence that promises a restore to any moment up to the latest one is used only when
  the ranges are one stretch and the chain is not broken; with several stretches the sentence names
  where the newest one starts, and a broken chain makes it say "only up to".\<close>

theorem restore_sentence_never_promises_a_gap:
  assumes "ws_latest_restorable_at s = Some latest"
  shows "mt_key (get_restore_sentence same_day s now) \<in>
     (if is_limited_by_broken_chain (ws_health s)
      then {''backups.physical.monitoring.banner.restoreOnlyUpTo'',
            ''backups.physical.monitoring.banner.restoreOnlyUpToWithoutAge''}
      else if length (ws_restorable_ranges s) > 1
      then {''backups.physical.monitoring.banner.restoreFromUpTo'',
            ''backups.physical.monitoring.banner.restoreFromUpToWithoutAge''}
      else {''backups.physical.monitoring.banner.restoreUpTo'',
            ''backups.physical.monitoring.banner.restoreUpToWithoutAge''}) \<and>
    (\<not> is_limited_by_broken_chain (ws_health s) \<and> length (ws_restorable_ranges s) > 1 \<longrightarrow>
      map_of (the (mt_params (get_restore_sentence same_day s now))) ''from'' =
        Some (to_moment_param same_day (tr_from (last (ws_restorable_ranges s))) now)) \<and>
    map_of (the (mt_params (get_restore_sentence same_day s now))) ''moment'' =
      Some (to_moment_param same_day latest now)"
  using assms
  by (auto simp: get_restore_sentence_def last_opt_def Let_def split: option.splits)

lemma ease_out_cubic_bounds: "0 \<le> ease_out_cubic p" "ease_out_cubic p \<le> 1"
proof -
  define q where "q = 1 - min 1 (max 0 p)"
  have "0 \<le> q" "q \<le> 1" by (auto simp: q_def)
  then show "0 \<le> ease_out_cubic p" "ease_out_cubic p \<le> 1"
    by (simp_all add: ease_out_cubic_def power_le_one flip: q_def)
qed

lemma ease_out_cubic_mono: "p \<le> q \<Longrightarrow> ease_out_cubic p \<le> ease_out_cubic q"
  unfolding ease_out_cubic_def
  by (intro diff_left_mono power_mono max.mono min.mono) auto

lemma interpolate_number_between:
  "min a b \<le> interpolate_number a b p" "interpolate_number a b p \<le> max a b"
proof -
  have e: "0 \<le> ease_out_cubic p" "ease_out_cubic p \<le> 1" by (rule ease_out_cubic_bounds)+
  have "interpolate_number a b p = (1 - ease_out_cubic p) * a + ease_out_cubic p * b"
    by (simp add: interpolate_number_def algebra_simps)
  moreover have "(1 - ease_out_cubic p) * min a b + ease_out_cubic p * min a b \<le>
      (1 - ease_out_cubic p) * a + ease_out_cubic p * b"
    using e by (intro add_mono mult_left_mono) auto
  moreover have "(1 - ease_out_cubic p) * a + ease_out_cubic p * b \<le>
      (1 - ease_out_cubic p) * max a b + ease_out_cubic p * max a b"
    using e by (intro add_mono mult_left_mono) auto
  ultimately show "min a b \<le> interpolate_number a b p" "interpolate_number a b p \<le> max a b"
    by (simp_all add: algebra_simps)
qed

lemma interpolate_number_ends [simp]:
  "p \<le> 0 \<Longrightarrow> interpolate_number a b p = a" "1 \<le> p \<Longrightarrow> interpolate_number a b p = b"
  by (simp_all add: interpolate_number_def ease_out_cubic_def)

text \<open>An eased amount starts at the old value, ends at the new one, never leaves the stretch
  between them, and only moves towards the new value as time passes.\<close>

theorem eased_amount_moves_towards_target:
  assumes "p \<le> q"
  shows "interpolate_number a b 0 = a \<and> interpolate_number a b 1 = b \<and>
    min a b \<le> interpolate_number a b p \<and> interpolate_number a b p \<le> max a b \<and>
    \<bar>b - interpolate_number a b q\<bar> \<le> \<bar>b - interpolate_number a b p\<bar>"
proof -
  have left: "b - interpolate_number a b x = (b - a) * (1 - ease_out_cubic x)" for x
    by (simp add: interpolate_number_def algebra_simps)
  have "\<bar>b - interpolate_number a b q\<bar> \<le> \<bar>b - interpolate_number a b p\<bar>"
    using ease_out_cubic_mono [OF assms] ease_out_cubic_bounds [of q] ease_out_cubic_bounds [of p]
    by (simp add: left abs_mult mult_left_mono)
  then show ?thesis by (simp add: interpolate_number_between)
qed

theorem eased_amount_moves_towards_target_witness:
  "interpolate_number 0 8 (1 / 2) = 7 \<and>
   \<bar>8 - interpolate_number 0 8 (1 / 2)\<bar> \<le> \<bar>8 - interpolate_number 0 8 (1 / 4)\<bar>"
  using eased_amount_moves_towards_target [of "1 / 4" "1 / 2" 0 8]
  by (simp add: interpolate_number_def ease_out_cubic_def power3_eq_cube)

text \<open>Easing changes amounts only: sentence by sentence the keys, the names of the parameters and
  every parameter that is no amount are those of the new sentences, and once the transition is over,
  or the sentence has another key, the new sentence stands as it is.\<close>

theorem eased_texts_keep_new_sentences:
  "map mt_key (interpolate_monitoring_texts old new p) = map mt_key new \<and>
   map (map_option (map fst) \<circ> mt_params) (interpolate_monitoring_texts old new p) =
     map (map_option (map fst) \<circ> mt_params) new \<and>
   interpolate_monitoring_texts old new 1 = new \<and>
   (i < length new \<and> i < length old \<and> mt_key (old ! i) \<noteq> mt_key (new ! i) \<longrightarrow>
      interpolate_monitoring_texts old new p ! i = new ! i)"
proof -
  have key: "mt_key (interpolate_text f t p) = mt_key t" for f t
    by (simp add: interpolate_text_def split: option.split)
  have names: "map_option (map fst) (mt_params (interpolate_text f t p)) = map_option (map fst) (mt_params t)" for f t
    by (auto simp: interpolate_text_def comp_def case_prod_beta split: option.split)
  have over: "interpolate_text f t 1 = t" for f t
    by (simp add: interpolate_text_def split: option.split)
  have each: "map g (interpolate_monitoring_texts old new x) = map h new"
    if "\<And>f t. g (interpolate_text f t x) = h t" for g :: "monitoring_text \<Rightarrow> 'b" and h x
    using that by (intro nth_equalityI) (auto simp: interpolate_monitoring_texts_def)
  have "map id (interpolate_monitoring_texts old new 1) = map id new" by (rule each) (simp add: over)
  moreover have "interpolate_monitoring_texts old new p ! i = new ! i"
    if "i < length new" "i < length old" "mt_key (old ! i) \<noteq> mt_key (new ! i)"
    using that by (auto simp: interpolate_monitoring_texts_def interpolate_text_def nth_opt_def split: option.split)
  ultimately show ?thesis using each [of mt_key p mt_key] each [of "map_option (map fst) \<circ> mt_params" p "map_option (map fst) \<circ> mt_params"]
    by (simp add: key names)
qed

text \<open>The screen warns of what happens next exactly when it happens within a day: each of the two
  consequences is said once, with its rounded time, and none of them when its estimate is missing or a
  day or more away.\<close>

theorem consequences_said_within_a_day:
  "get_keeping_up_sentences k = get_state_sentences k @
     concat (map (\<lambda>(key, s). case s of
        None \<Rightarrow> []
      | Some x \<Rightarrow> (if x < 86400 then [keeping_up_text key [(''duration'', TextParam (get_rounded_duration x))]] else []))
      [(''rebuildConsequence'', ku_estimated_slot_rebuild_seconds k),
       (''limitConsequence'', ku_estimated_slot_limit_seconds k)]) \<and>
   length (get_state_sentences k) \<le> 2"
  by (auto simp: get_keeping_up_sentences_def get_consequence_sentences_def consequence_sentence_def
      is_within_consequence_horizon_def consequence_horizon_seconds_def get_state_sentences_def
      get_falling_behind_sentences_def Let_def split: option.split keeping_up_state.split)

section \<open>Witnesses\<close>

theorem verdict_lists_every_reason_witness:
  "let s = sample_statistics HL_BROKEN [sample_reason RC_FREQUENT_RESTARTS RL_NEEDS_ATTENTION,
             sample_reason RC_WAL_CHAIN_BROKEN RL_BROKEN] [];
       b = get_verdict_banner (\<lambda>_ _. True) s (Some 0) (Some 1000)
   in vb_headline_key b = reason_code_label RC_WAL_CHAIN_BROKEN \<and> length (vb_other_reasons b) = 1"
  using verdict_lists_every_reason [of "Some 0" "Some 1000" "sample_statistics HL_BROKEN
      [sample_reason RC_FREQUENT_RESTARTS RL_NEEDS_ATTENTION, sample_reason RC_WAL_CHAIN_BROKEN RL_BROKEN] []"
      "\<lambda>_ _. True"]
  by (auto simp: sample_statistics_def sample_reason_def is_unconfirmed_def unconfirmed_state_after_ms_def
      sort_reasons_broken_first_def get_reason_texts_def Let_def)

theorem unconfirmed_state_claims_nothing_witness:
  "vb_tone (get_verdict_banner (\<lambda>_ _. True) (sample_statistics HL_HEALTHY [] []) (Some 0) (Some 120001)) = TONE_NEUTRAL"
  using unconfirmed_state_claims_nothing [of 120001 0 "\<lambda>_ _. True" "sample_statistics HL_HEALTHY [] []"]
  by (simp add: unconfirmed_state_after_ms_def)

theorem restore_sentence_never_promises_a_gap_witness:
  "mt_key (get_restore_sentence (\<lambda>_ _. True) (sample_statistics HL_HEALTHY [] [\<lparr>tr_from = ''a'', tr_to = ''b''\<rparr>,
     \<lparr>tr_from = ''c'', tr_to = ''d''\<rparr>]) None) = ''backups.physical.monitoring.banner.restoreFromUpToWithoutAge''"
  using restore_sentence_never_promises_a_gap [of "sample_statistics HL_HEALTHY [] [\<lparr>tr_from = ''a'', tr_to = ''b''\<rparr>,
     \<lparr>tr_from = ''c'', tr_to = ''d''\<rparr>]" "''d''" "\<lambda>_ _. True" None]
  by (simp add: sample_statistics_def last_opt_def is_limited_by_broken_chain_def get_restore_sentence_def
      get_seconds_between_def Let_def split: option.split)

theorem full_backup_offered_exactly_when_it_helps_witness:
  "get_full_backup_action (screen_action_input (sample_statistics HL_HEALTHY [] [])
     (get_verdict_banner (\<lambda>_ _. True) (sample_statistics HL_HEALTHY [] []) (Some 0) (Some 0)) True False) = FA_AVAILABLE"
  using full_backup_offered_exactly_when_it_helps [of "screen_action_input (sample_statistics HL_HEALTHY [] [])
     (get_verdict_banner (\<lambda>_ _. True) (sample_statistics HL_HEALTHY [] []) (Some 0) (Some 0)) True False"]
  by (simp add: screen_action_input_def sample_statistics_def get_verdict_banner_def is_unconfirmed_def
      unconfirmed_state_after_ms_def get_full_backup_action_def levels_offering_full_backup_def
      is_full_backup_the_fix_def last_opt_def Let_def)

theorem eased_texts_keep_new_sentences_witness:
  "interpolate_monitoring_texts [sentence ''a''] [sentence ''b''] 0 ! 0 = sentence ''b''"
  using eased_texts_keep_new_sentences [of "[sentence ''a'']" "[sentence ''b'']" 0 0] by simp

end
