(* ===== verification/Wal_Charts.thy ===== *)
theory Wal_Charts
  imports Wal_Texts
begin

text \<open>
  The drawn part of WAL stream monitoring, from
  \<open>src/frontend/src/pages/databases/lib/wal-stream-monitoring\<close>: chart rows, axis ticks and missing
  ranges (chartRows.ts), stage tones and amounts (pathStages.ts), the colours (toneColors.ts,
  chartColors.ts) and the live values laid over the statistics (liveOverlay.ts). The logarithms of
  the axis are their exact values here, not the doubles near them.
\<close>

section \<open>Chart rows (chartRows.ts)\<close>

record chart_row =
  cr_timestamp_ms :: js_date
  cr_source_write_rate :: "number option"
  cr_archive_rate :: "number option"
  cr_max_unarchived_wal_bytes :: "number option"
  cr_max_slot_lag_bytes :: "number option"
  cr_max_local_queue_bytes :: "number option"
  cr_local_queue_pause_bytes :: "number option"
  cr_restart_marker_bytes :: "number option"
  cr_pause_marker_bytes :: "number option"

definition get_marker_bytes :: "number option \<Rightarrow> wal_series_point \<Rightarrow> number option" where
  "get_marker_bytes event_count p =
     (case event_count of
        None \<Rightarrow> None
      | Some n \<Rightarrow> if n > 0 then Some (nullish (pt_max_local_queue_bytes p) 0) else None)"

definition to_chart_row :: "wal_series_point \<Rightarrow> chart_row" where
  "to_chart_row p = \<lparr>
     cr_timestamp_ms = date_ms (pt_started_at p),
     cr_source_write_rate = pt_source_write_rate p,
     cr_archive_rate = pt_archive_rate p,
     cr_max_unarchived_wal_bytes = pt_max_unarchived_wal_bytes p,
     cr_max_slot_lag_bytes = pt_max_slot_lag_bytes p,
     cr_max_local_queue_bytes = pt_max_local_queue_bytes p,
     cr_local_queue_pause_bytes = pt_local_queue_pause_bytes p,
     cr_restart_marker_bytes = get_marker_bytes (pt_restarts p) p,
     cr_pause_marker_bytes = get_marker_bytes (pt_pauses p) p\<rparr>"

definition to_chart_rows :: "wal_series_point list \<Rightarrow> chart_row list" where
  "to_chart_rows points = map to_chart_row points"

definition has_point_values :: "wal_series_point \<Rightarrow> bool" where
  "has_point_values p \<longleftrightarrow>
     pt_archive_rate p \<noteq> None \<or> pt_source_write_rate p \<noteq> None \<or> pt_max_local_queue_bytes p \<noteq> None"

definition min_chart_points :: nat where
  "min_chart_points = 4"

definition has_enough_chart_points :: "wal_series \<Rightarrow> bool" where
  "has_enough_chart_points s \<longleftrightarrow> length (filter has_point_values (se_points s)) \<ge> min_chart_points"

text \<open>The point found is compared with the first point as an object, so its place decides.\<close>

definition get_data_since_ms :: "wal_series \<Rightarrow> js_date option" where
  "get_data_since_ms s =
     (case find_index has_point_values (se_points s) of
        None \<Rightarrow> None
      | Some i \<Rightarrow> if i = 0 then None else Some (date_ms (pt_started_at (se_points s ! i))))"

definition get_chart_time_domain :: "wal_series \<Rightarrow> js_date \<times> js_date" where
  "get_chart_time_domain s =
     (nullish (get_data_since_ms s) (date_ms (se_from s)), date_ms (se_to s))"

text \<open>The largest value of the given lines; a line is the field it reads.\<close>

definition get_rows_maximum :: "chart_row list \<Rightarrow> (chart_row \<Rightarrow> number option) list \<Rightarrow> number" where
  "get_rows_maximum rows data_keys =
     foldl (\<lambda>maximum row. foldl (\<lambda>row_max key. max row_max (nullish (key row) 0)) maximum data_keys) 0 rows"

section \<open>Axis ticks (chartRows.ts)\<close>

text \<open>The integer part of the logarithm of \<open>n\<close> to base \<open>b\<close>.\<close>

function (sequential) floor_log :: "nat \<Rightarrow> nat \<Rightarrow> nat" where
  "floor_log b n = (if b < 2 \<or> n < b then 0 else Suc (floor_log b (n div b)))"
  by pat_completeness auto

termination floor_log
  by (relation "measure snd") (auto simp: div_less_dividend)

declare floor_log.simps [simp del]

text \<open>\<open>10 ** Math.floor(Math.log10(x))\<close>: the largest power of ten that is at most \<open>x\<close>.\<close>

definition decimal_magnitude :: "number \<Rightarrow> number" where
  "decimal_magnitude x =
     (if x \<ge> 1 then 10 ^ floor_log 10 (nat \<lfloor>x\<rfloor>)
      else (let k = floor_log 10 (nat \<lceil>1 / x\<rceil>) in if 10 ^ k * x \<ge> 1 then 1 / 10 ^ k else 1 / 10 ^ Suc k))"

definition nice_step_factors :: "number list" where
  "nice_step_factors = [1, 2, 5 / 2, 5, 10]"

definition get_nice_step :: "number \<Rightarrow> number" where
  "get_nice_step rough_step =
     (let magnitude = decimal_magnitude rough_step
      in nullish (List.find (\<lambda>factor. factor * magnitude \<ge> rough_step) nice_step_factors) (nice_step_factors ! 4)
         * magnitude)"

definition get_binary_axis_ticks :: "number \<Rightarrow> number \<Rightarrow> number list" where
  "get_binary_axis_ticks data_maximum minimum_top =
     (let top = max (max data_maximum minimum_top) 1;
          unit_power = floor_log 1024 (nat \<lfloor>top\<rfloor>);
          unit = 1024 ^ unit_power;
          top_in_units = top / unit;
          step = get_nice_step (top_in_units / 4);
          rounded = js_round (top_in_units / step);
          intervals = (if of_int rounded * step * unit < top then rounded + 1 else rounded)
      in map (\<lambda>i. of_nat i * step * unit) [0..<Suc (nat intervals)])"

section \<open>Missing ranges (chartRows.ts)\<close>

record missing_range =
  mr_from_ms :: js_date
  mr_to_ms :: js_date

definition min_missing_points :: nat where
  "min_missing_points = 2"

text \<open>The loop's state: the ranges found and the index where the open run started.\<close>

definition close_run :: "wal_series_point list \<Rightarrow> nat \<Rightarrow> js_date \<Rightarrow> missing_range list \<times> nat option \<Rightarrow>
    missing_range list \<times> nat option" where
  "close_run points end_index to_ms st =
     (case st of (ranges, run_start) \<Rightarrow>
        (case run_start of
           Some r \<Rightarrow> if end_index - r \<ge> min_missing_points
              then ranges @ [\<lparr>mr_from_ms = date_ms (pt_started_at (points ! r)), mr_to_ms = to_ms\<rparr>]
              else ranges
         | None \<Rightarrow> ranges, None))"

definition missing_step :: "wal_series_point list \<Rightarrow> missing_range list \<times> nat option \<Rightarrow> nat \<Rightarrow>
    missing_range list \<times> nat option" where
  "missing_step points st i =
     (if \<not> has_point_values (points ! i) then (fst st, Some (nullish (snd st) i))
      else close_run points i (date_ms (pt_started_at (points ! i))) st)"

definition get_missing_data_ranges :: "wal_series \<Rightarrow> missing_range list" where
  "get_missing_data_ranges s =
     (let points = se_points s
      in case find_index has_point_values points of
        None \<Rightarrow> []
      | Some first \<Rightarrow>
          fst (close_run points (length points) (date_ms (se_to s))
            (foldl (missing_step points) ([], None) [first..<length points])))"

section \<open>The path of changes (pathStages.ts)\<close>

primrec reason_stage :: "reason_code \<Rightarrow> path_stage option" where
  "reason_stage RC_STREAMING_STOPPED = Some STAGE_DATABASUS"
| "reason_stage RC_SOURCE_UNREACHABLE = Some STAGE_SOURCE"
| "reason_stage RC_WAL_CHAIN_BROKEN = None"
| "reason_stage RC_SLOT_MISSING = Some STAGE_SOURCE"
| "reason_stage RC_SLOT_LOST = Some STAGE_SOURCE"
| "reason_stage RC_ARCHIVE_NOT_ADVANCING = Some STAGE_STORAGE"
| "reason_stage RC_ARCHIVE_SLOWER_THAN_SOURCE = Some STAGE_STORAGE"
| "reason_stage RC_SLOT_KEEPS_EXTRA_WAL = Some STAGE_SOURCE"
| "reason_stage RC_SLOT_LIMIT_APPROACHING = Some STAGE_SOURCE"
| "reason_stage RC_NEAR_SLOT_REBUILD = Some STAGE_SOURCE"
| "reason_stage RC_LOCAL_QUEUE_FILLING = Some STAGE_DATABASUS"
| "reason_stage RC_FREQUENT_RESTARTS = Some STAGE_DATABASUS"
| "reason_stage RC_FORCED_ROTATION_REFUSED = Some STAGE_SOURCE"

definition color_stage :: "(path_stage \<Rightarrow> monitoring_tone) \<Rightarrow> wal_reason \<Rightarrow> path_stage \<Rightarrow> monitoring_tone" where
  "color_stage tones r =
     (case reason_stage (wr_code r) of
        None \<Rightarrow> tones
      | Some stage \<Rightarrow>
          (if wr_level r = RL_BROKEN then tones(stage := TONE_ERROR)
           else if wr_level r = RL_NEEDS_ATTENTION \<and> tones stage \<noteq> TONE_ERROR then tones(stage := TONE_WARNING)
           else tones))"

definition get_stage_tones :: "health_level \<Rightarrow> wal_reason list \<Rightarrow> path_stage \<Rightarrow> monitoring_tone" where
  "get_stage_tones level reasons =
     (if level = HL_NOT_STREAMING \<or> level = HL_COLLECTING_DATA then (\<lambda>_. TONE_NEUTRAL)
      else foldl color_stage (\<lambda>_. TONE_NEUTRAL) reasons)"

record amount_progress =
  ap_percent :: number
  ap_over_limit :: bool

definition get_amount_progress :: "number \<Rightarrow> number \<Rightarrow> amount_progress" where
  "get_amount_progress value_bytes limit_bytes =
     (if limit_bytes \<le> 0 then \<lparr>ap_percent = 0, ap_over_limit = False\<rparr>
      else if value_bytes > limit_bytes then \<lparr>ap_percent = 100, ap_over_limit = True\<rparr>
      else \<lparr>ap_percent = max 0 (value_bytes / limit_bytes * 100), ap_over_limit = False\<rparr>)"

section \<open>Colours (toneColors.ts, chartColors.ts)\<close>

record tone_colors =
  tc_background :: string
  tc_border :: string
  tc_icon :: string

text \<open>The colours of the antd theme in use.\<close>

record theme_token =
  tk_success_bg :: string
  tk_success_border :: string
  tk_success :: string
  tk_warning_bg :: string
  tk_warning_border :: string
  tk_warning :: string
  tk_error_bg :: string
  tk_error_border :: string
  tk_error :: string
  tk_fill_tertiary :: string
  tk_border :: string
  tk_text_secondary :: string

definition get_tone_colors :: "theme_token \<Rightarrow> monitoring_tone \<Rightarrow> tone_colors" where
  "get_tone_colors token tone =
     (case tone of
        TONE_SUCCESS \<Rightarrow> \<lparr>tc_background = tk_success_bg token, tc_border = tk_success_border token, tc_icon = tk_success token\<rparr>
      | TONE_WARNING \<Rightarrow> \<lparr>tc_background = tk_warning_bg token, tc_border = tk_warning_border token, tc_icon = tk_warning token\<rparr>
      | TONE_ERROR \<Rightarrow> \<lparr>tc_background = tk_error_bg token, tc_border = tk_error_border token, tc_icon = tk_error token\<rparr>
      | TONE_NEUTRAL \<Rightarrow> \<lparr>tc_background = tk_fill_tertiary token, tc_border = tk_border token, tc_icon = tk_text_secondary token\<rparr>)"

record chart_colors =
  cc_source_writes :: string
  cc_archive :: string
  cc_not_saved_yet :: string
  cc_not_received_yet :: string
  cc_buffer :: string
  cc_pause_limit :: string
  cc_restart_marker :: string
  cc_pause_marker :: string

datatype resolved_theme = LightTheme | DarkTheme

primrec wal_stream_chart_colors :: "resolved_theme \<Rightarrow> chart_colors" where
  "wal_stream_chart_colors LightTheme = \<lparr>
     cc_source_writes = ''#1677ff'', cc_archive = ''#fa8c16'',
     cc_not_saved_yet = ''#722ed1'', cc_not_received_yet = ''#13c2c2'',
     cc_buffer = ''#722ed1'', cc_pause_limit = ''#8c8c8c'',
     cc_restart_marker = ''#f5222d'', cc_pause_marker = ''#8c8c8c''\<rparr>"
| "wal_stream_chart_colors DarkTheme = \<lparr>
     cc_source_writes = ''#4096ff'', cc_archive = ''#ffa940'',
     cc_not_saved_yet = ''#9254de'', cc_not_received_yet = ''#36cfc9'',
     cc_buffer = ''#9254de'', cc_pause_limit = ''#8c8c8c'',
     cc_restart_marker = ''#ff4d4f'', cc_pause_marker = ''#8c8c8c''\<rparr>"

section \<open>Live values (liveOverlay.ts)\<close>

definition is_newer :: "string option \<Rightarrow> string \<Rightarrow> bool" where
  "is_newer time than =
     (case Option.bind time date_ms of
        None \<Rightarrow> False
      | Some a \<Rightarrow> (case date_ms than of None \<Rightarrow> False | Some b \<Rightarrow> a > b))"

definition is_same_moment :: "string option \<Rightarrow> string option \<Rightarrow> bool" where
  "is_same_moment a b =
     (case (Option.bind a date_ms, Option.bind b date_ms) of
        (Some x, Some y) \<Rightarrow> x = y
      | _ \<Rightarrow> False)"

definition follow_restore_point :: "wal_statistics \<Rightarrow> string option \<Rightarrow> string option \<times> wal_time_range list" where
  "follow_restore_point s live_last =
     (let ranges = ws_restorable_ranges s
      in case (ws_latest_restorable_at s, live_last) of
        (Some latest, Some fresh) \<Rightarrow>
          (if \<not> is_same_moment (Some latest) (Option.bind (ws_current s) cu_last_archived_wal_at) \<or>
              \<not> is_newer (Some fresh) latest
           then (Some latest, ranges)
           else (Some fresh,
             map (\<lambda>(i, r). if Suc i = length ranges \<and> is_same_moment (Some (tr_to r)) (Some latest)
                           then r\<lparr>tr_to := fresh\<rparr> else r)
               (enumerate 0 ranges)))
      | (latest, _) \<Rightarrow> (latest, ranges))"

definition overlay_current :: "wal_live \<Rightarrow> wal_current \<Rightarrow> wal_current" where
  "overlay_current live c = c\<lparr>
     cu_sampled_at := lv_measured_at live,
     cu_local_queue_bytes := lv_local_queue_bytes live,
     cu_local_queue_pause_bytes := lv_local_queue_pause_bytes live,
     cu_receiver_running := lv_receiver_running live,
     cu_archive_progress_lsn := (case lv_archive_progress_lsn live of None \<Rightarrow> cu_archive_progress_lsn c | Some x \<Rightarrow> Some x),
     cu_last_archived_wal_at := (case lv_last_archived_wal_at live of None \<Rightarrow> cu_last_archived_wal_at c | Some x \<Rightarrow> Some x)\<rparr>"

definition overlay_source :: "wal_live \<Rightarrow> source_state \<Rightarrow> wal_current \<Rightarrow> wal_current" where
  "overlay_source live state c = c\<lparr>
     cu_source_state := state,
     cu_source_current_lsn := lv_source_current_lsn live,
     cu_slot_wal_status := lv_slot_wal_status live,
     cu_slot_lag_bytes := lv_slot_lag_bytes live,
     cu_slot_safe_wal_size_bytes := lv_slot_safe_wal_size_bytes live,
     cu_unarchived_wal_bytes := lv_unarchived_wal_bytes live\<rparr>"

definition apply_live_values :: "wal_statistics \<Rightarrow> wal_live option \<Rightarrow> wal_statistics" where
  "apply_live_values s live_values =
     (case (live_values, ws_current s) of
        (Some live, Some c) \<Rightarrow>
          (if \<not> is_newer (Some (lv_measured_at live)) (cu_sampled_at c) then s
           else let base = overlay_current live c;
                    (current, keeping_up) =
                      (case (is_newer (lv_source_probed_at live) (cu_sampled_at c), lv_source_state live) of
                         (True, Some state) \<Rightarrow>
                           (overlay_source live state base,
                            (ws_keeping_up s)\<lparr>ku_unarchived_wal_bytes := lv_unarchived_wal_bytes live,
                                              ku_slot_lag_bytes := lv_slot_lag_bytes live\<rparr>)
                       | _ \<Rightarrow> (base, ws_keeping_up s));
                    (latest, ranges) = follow_restore_point s (lv_last_archived_wal_at live)
                in s\<lparr>ws_latest_restorable_at := latest, ws_restorable_ranges := ranges,
                     ws_current := Some current, ws_keeping_up := keeping_up\<rparr>)
      | _ \<Rightarrow> s)"

section \<open>The axis covers the data\<close>

lemma floor_log_bounds:
  assumes "2 \<le> b" and "1 \<le> n"
  shows "b ^ floor_log b n \<le> n \<and> n < b ^ Suc (floor_log b n)"
  using assms
proof (induction b n rule: floor_log.induct)
  case (1 b n)
  show ?case
  proof (cases "n < b")
    case True
    with "1.prems" show ?thesis by (simp add: floor_log.simps)
  next
    case False
    with "1.prems" have b: "0 < b" "\<not> (b < 2 \<or> n < b)" by simp_all
    then have pos: "1 \<le> n div b" using False by (simp add: Suc_leI div_greater_zero_iff)
    define q where "q = n div b"
    define k where "k = floor_log b q"
    have IH: "b ^ k \<le> q \<and> q < b ^ Suc k"
      using "1.IH" [OF b(2)] "1.prems" pos by (simp add: q_def k_def)
    have "b * q \<le> n" "n < b * Suc q"
      using b(1) by (simp_all add: q_def dividend_less_times_div)
    moreover have "b * b ^ k \<le> b * q" using IH by simp
    moreover have "b * Suc q \<le> b * b ^ Suc k" using IH by (intro mult_le_mono2) simp
    ultimately have "b ^ Suc k \<le> n" "n < b ^ Suc (Suc k)" by (simp_all only: power_Suc)
    moreover have "floor_log b n = Suc k"
      using b(2) by (subst floor_log.simps) (simp add: q_def k_def)
    ultimately show ?thesis by simp
  qed
qed

lemma floor_log_rat:
  fixes x :: number
  assumes "2 \<le> b" and "1 \<le> x"
  shows "of_nat b ^ floor_log b (nat \<lfloor>x\<rfloor>) \<le> x \<and> x < of_nat b ^ Suc (floor_log b (nat \<lfloor>x\<rfloor>))"
proof -
  define n where "n = nat \<lfloor>x\<rfloor>"
  have "1 \<le> \<lfloor>x\<rfloor>" using assms(2) by simp
  then have i: "int n = \<lfloor>x\<rfloor>" and n3: "1 \<le> n" unfolding n_def by linarith+
  from i have "(of_nat n :: number) = of_int \<lfloor>x\<rfloor>" by (metis of_int_of_nat_eq)
  then have n: "of_nat n \<le> x" "x < of_nat n + 1" "1 \<le> n" using n3 by linarith+
  from floor_log_bounds [OF assms(1) n(3)]
  have "(of_nat (b ^ floor_log b n) :: number) \<le> of_nat n" "(of_nat (Suc n) :: number) \<le> of_nat (b ^ Suc (floor_log b n))"
    by (simp_all only: of_nat_le_iff Suc_le_eq)
  then have "of_nat b ^ floor_log b n \<le> (of_nat n :: number)" "(of_nat (Suc n) :: number) \<le> of_nat b ^ Suc (floor_log b n)"
    by (simp_all only: of_nat_power)
  with n(1,2) show ?thesis unfolding n_def [symmetric] by (simp only: of_nat_Suc) linarith
qed

lemma decimal_magnitude_bounds:
  assumes "0 < x"
  shows "0 < decimal_magnitude x \<and> decimal_magnitude x \<le> x \<and> x < 10 * decimal_magnitude x"
proof (cases "1 \<le> x")
  case True
  from floor_log_rat [of 10, OF _ this] True show ?thesis by (simp add: decimal_magnitude_def)
next
  case False
  define y where "y = 1 / x"
  define n where "n = nat \<lceil>y\<rceil>"
  define k where "k = floor_log 10 n"
  have y: "1 < y" "x * y = 1" using False assms by (simp_all add: y_def)
  then have n: "y \<le> of_nat n" "of_nat n < y + 1" "1 \<le> n"
    by (simp_all add: n_def of_nat_ceiling) linarith+
  from floor_log_bounds [of 10 n] n(3) have k: "10 ^ k \<le> n" "n < 10 ^ Suc k" by (simp_all add: k_def)
  from k(1) have "(of_nat (10 ^ k) :: number) \<le> of_nat n" by (simp only: of_nat_le_iff)
  then have "(10 :: number) ^ k \<le> of_nat n" by (simp only: of_nat_power of_nat_numeral)
  with n(2) have low: "10 ^ k < y + 1" by linarith
  from k(2) have "(of_nat n :: number) < of_nat (10 ^ Suc k)" by (simp only: of_nat_less_iff)
  then have "(of_nat n :: number) < 10 ^ Suc k" by (simp only: of_nat_power of_nat_numeral)
  with n(1) have high: "y < 10 ^ Suc k" by linarith
  have times: "a < b \<Longrightarrow> a * x < b * x" for a b using assms by simp
  from times [OF low] y have low': "10 ^ k * x < 1 + x" by (simp add: distrib_right distrib_left mult.commute)
  from times [OF high] y have high': "1 < 10 ^ Suc k * x" by (simp add: mult.commute)
  have m: "decimal_magnitude x = (if 10 ^ k * x \<ge> 1 then 1 / 10 ^ k else 1 / 10 ^ Suc k)"
    using False by (simp add: decimal_magnitude_def k_def n_def y_def Let_def)
  show ?thesis
  proof (cases "10 ^ k * x \<ge> 1")
    case True
    with m low' False show ?thesis by (simp add: pos_divide_le_eq pos_less_divide_eq mult.commute)
  next
    case small: False
    with m high' show ?thesis by (simp add: pos_divide_le_eq pos_less_divide_eq mult.commute mult.left_commute)
  qed
qed

text \<open>A nice step is at least the rough one and at most twice as large.\<close>

lemma nice_step_bounds:
  assumes "0 < r"
  shows "r \<le> get_nice_step r \<and> get_nice_step r \<le> 2 * r"
proof -
  define m where "m = decimal_magnitude r"
  have m: "0 < m" "m \<le> r" "r < 10 * m" using decimal_magnitude_bounds [OF assms] by (simp_all add: m_def)
  show ?thesis
    using m by (simp add: get_nice_step_def nice_step_factors_def Let_def flip: m_def)
qed

lemma interval_count:
  fixes n :: int and x s :: number
  assumes "0 < s" and "2 * s \<le> x" and "x \<le> 4 * s" and n: "n = js_round (x / s)"
    and k: "k = (if of_int n * s < x then n + 1 else n)"
  shows "2 \<le> k \<and> k \<le> 4 \<and> x \<le> of_int k * s \<and> (of_int k - 1) * s < x"
proof -
  have y: "2 \<le> x / s" "x / s \<le> 4" using assms by (simp_all add: field_simps)
  have b: "of_int n - 1 / 2 \<le> x / s" "x / s < of_int n + 1 / 2"
    using js_round_bounds [of "x / s"] by (simp_all add: n)
  have iff: "of_int n * s < x \<longleftrightarrow> of_int n < x / s" using assms(1) by (simp add: field_simps)
  have up: "x \<le> of_int j * s \<longleftrightarrow> x / s \<le> of_int j" for j using assms(1) by (simp add: field_simps)
  have down: "(of_int j - 1) * s < x \<longleftrightarrow> of_int j - 1 < x / s" for j using assms(1) by (simp add: field_simps)
  have "(of_int 1 :: number) < of_int k" "(of_int k :: number) < of_int 5" "x / s \<le> of_int k" "of_int k - 1 < x / s"
    using b y by (auto simp: k iff)
  then show ?thesis unfolding up down of_int_less_iff by simp
qed

text \<open>The axis of a chart starts at zero, has two to four equal intervals, reaches the largest
  value and the minimum top, and its last interval is needed to do so.\<close>

theorem axis_ticks_cover_data:
  "\<exists>step n. get_binary_axis_ticks data_maximum minimum_top = map (\<lambda>i. of_nat i * step) [0..<Suc n] \<and>
     0 < step \<and> 2 \<le> n \<and> n \<le> 4 \<and>
     max (max data_maximum minimum_top) 1 \<le> of_nat n * step \<and>
     (of_nat n - 1) * step < max (max data_maximum minimum_top) 1"
proof -
  define top where "top = max (max data_maximum minimum_top) 1"
  define unit where "unit = (1024 :: number) ^ floor_log 1024 (nat \<lfloor>top\<rfloor>)"
  define x where "x = top / unit"
  define s where "s = get_nice_step (x / 4)"
  define n where "n = js_round (x / s)"
  define k where "k = (if of_int n * s * unit < top then n + 1 else n)"
  have top: "1 \<le> top" by (simp add: top_def)
  have u: "0 < unit" by (simp add: unit_def)
  have tx: "top = x * unit" using u by (simp add: x_def)
  then have x: "0 < x" using u top by (metis less_le_trans zero_less_mult_pos2 zero_less_one)
  have s: "x / 4 \<le> s" "s \<le> 2 * (x / 4)" using nice_step_bounds [of "x / 4"] x by (simp_all add: s_def)
  have "k = (if of_int n * s < x then n + 1 else n)" using u by (simp add: k_def tx)
  from interval_count [OF _ _ _ n_def this] s x have k: "2 \<le> k" "k \<le> 4" "x \<le> of_int k * s" "(of_int k - 1) * s < x"
    by simp_all
  have ticks: "get_binary_axis_ticks data_maximum minimum_top = map (\<lambda>i. of_nat i * (s * unit)) [0..<Suc (nat k)]"
    unfolding get_binary_axis_ticks_def Let_def top_def [symmetric] unit_def [symmetric] x_def [symmetric]
      s_def [symmetric] n_def [symmetric] k_def [symmetric] by (simp only: mult.assoc)
  have nk: "(of_nat (nat k) :: number) = of_int k" "2 \<le> nat k" "nat k \<le> 4" using k(1,2) by simp_all
  have "x * unit \<le> of_int k * s * unit" "(of_int k - 1) * s * unit < x * unit"
    using k(3,4) u by (simp_all add: mult_right_mono)
  then show ?thesis
    using ticks s x u k(1,2) unfolding top_def [symmetric]
    by (intro exI [of _ "s * unit"] exI [of _ "nat k"]) (simp add: nk tx mult.assoc)
qed

section \<open>Missing ranges are the empty stretches\<close>

text \<open>What the loop is to find, as a recursion over the points: every maximal run of points without
  values, of at least two, from its first point to the point after it or the end of the period.\<close>

function (sequential) missing_runs :: "wal_series_point list \<Rightarrow> js_date \<Rightarrow> missing_range list" where
  "missing_runs [] e = []"
| "missing_runs (p # ps) e =
     (if has_point_values p then missing_runs ps e
      else let run = takeWhile (\<lambda>q. \<not> has_point_values q) (p # ps);
               rest = dropWhile (\<lambda>q. \<not> has_point_values q) (p # ps)
           in (if length run \<ge> 2
               then [\<lparr>mr_from_ms = date_ms (pt_started_at p),
                      mr_to_ms = (case rest of [] \<Rightarrow> e | q # _ \<Rightarrow> date_ms (pt_started_at q))\<rparr>]
               else []) @ missing_runs rest e)"
  by pat_completeness auto

termination missing_runs
  by (relation "measure (\<lambda>(ps, e). length ps)") (auto simp: le_imp_less_Suc length_dropWhile_le)

text \<open>The run that is open at \<open>r\<close> when the scan stands at \<open>i\<close>.\<close>

lemma open_run_split:
  assumes "r \<le> i" and "i \<le> length ps" and "\<And>j. r \<le> j \<Longrightarrow> j < i \<Longrightarrow> \<not> has_point_values (ps ! j)"
    and "i < length ps \<Longrightarrow> has_point_values (ps ! i)"
  shows "takeWhile (\<lambda>q. \<not> has_point_values q) (drop r ps) = take (i - r) (drop r ps) \<and>
    dropWhile (\<lambda>q. \<not> has_point_values q) (drop r ps) = drop i ps"
proof -
  let ?P = "\<lambda>q. \<not> has_point_values q"
  have split: "drop r ps = take (i - r) (drop r ps) @ drop i ps"
    using assms(1) by (metis append_take_drop_id drop_drop le_add_diff_inverse2)
  have run: "?P q" if q: "q \<in> set (take (i - r) (drop r ps))" for q
  proof -
    obtain j where "j < i - r" "r + j < length ps" "q = ps ! (r + j)" using q by (auto simp: in_set_conv_nth)
    then show ?thesis using assms(3) [of "r + j"] by simp
  qed
  have rest: "takeWhile ?P (drop i ps) = []" "dropWhile ?P (drop i ps) = drop i ps"
    using assms(2,4) by (cases "i < length ps"; simp add: Cons_nth_drop_Suc [symmetric])+
  show ?thesis
    using run rest by (subst (1 3) split) (simp add: takeWhile_append2 dropWhile_append2)
qed

lemma open_run_missing:
  assumes "r < i" and "i \<le> length ps" and "\<And>j. r \<le> j \<Longrightarrow> j < i \<Longrightarrow> \<not> has_point_values (ps ! j)"
    and "i < length ps \<Longrightarrow> has_point_values (ps ! i)"
  shows "missing_runs (drop r ps) e =
     fst (close_run ps i (if i < length ps then date_ms (pt_started_at (ps ! i)) else e) ([], Some r)) @
     missing_runs (drop i ps) e"
proof -
  have r: "drop r ps = ps ! r # drop (Suc r) ps" using assms(1,2) by (simp add: Cons_nth_drop_Suc)
  have len: "length (take (i - r) (drop r ps)) = i - r" using assms(1,2) by simp
  have after: "(case drop i ps of [] \<Rightarrow> e | q # _ \<Rightarrow> date_ms (pt_started_at q)) =
      (if i < length ps then date_ms (pt_started_at (ps ! i)) else e)"
    using assms(2) by (cases "i < length ps") (simp_all add: Cons_nth_drop_Suc [symmetric])
  from open_run_split [of r i ps] assms
  have s: "takeWhile (\<lambda>q. \<not> has_point_values q) (drop r ps) = take (i - r) (drop r ps)"
    "dropWhile (\<lambda>q. \<not> has_point_values q) (drop r ps) = drop i ps" by auto
  have "missing_runs (drop r ps) e =
      (if length (takeWhile (\<lambda>q. \<not> has_point_values q) (drop r ps)) \<ge> 2
       then [\<lparr>mr_from_ms = date_ms (pt_started_at (ps ! r)),
              mr_to_ms = (case dropWhile (\<lambda>q. \<not> has_point_values q) (drop r ps) of [] \<Rightarrow> e
                          | q # _ \<Rightarrow> date_ms (pt_started_at q))\<rparr>] else []) @
      missing_runs (dropWhile (\<lambda>q. \<not> has_point_values q) (drop r ps)) e"
    unfolding r using assms(1,3) by (subst missing_runs.simps) (simp add: Let_def)
  then show ?thesis unfolding s len after by (simp add: close_run_def min_missing_points_def)
qed

lemma close_run_accumulates:
  "fst (close_run ps i d (acc, st)) = acc @ fst (close_run ps i d ([], st))"
  by (simp add: close_run_def split: option.split)

lemma missing_loop:
  assumes "i \<le> length ps"
    and "\<And>r j. st = Some r \<Longrightarrow> r \<le> j \<Longrightarrow> j < i \<Longrightarrow> \<not> has_point_values (ps ! j)"
    and "\<And>r. st = Some r \<Longrightarrow> r < i"
  shows "fst (close_run ps (length ps) e (foldl (missing_step ps) (acc, st) [i..<length ps])) =
    acc @ missing_runs (drop (case st of None \<Rightarrow> i | Some r \<Rightarrow> r) ps) e"
  using assms
proof (induction "length ps - i" arbitrary: i acc st)
  case 0
  then have i: "i = length ps" by simp
  show ?case
  proof (cases st)
    case None
    then show ?thesis using i by (simp add: close_run_def)
  next
    case (Some r)
    then show ?thesis
      using open_run_missing [of r i ps e] 0 i by (simp add: close_run_accumulates [of _ _ _ acc])
  qed
next
  case (Suc n)
  then have i: "i < length ps" by simp
  then have upt: "[i..<length ps] = i # [Suc i..<length ps]" by (simp add: upt_conv_Cons)
  have IH: "fst (close_run ps (length ps) e (foldl (missing_step ps) (acc', st') [Suc i..<length ps])) =
      acc' @ missing_runs (drop (case st' of None \<Rightarrow> Suc i | Some r \<Rightarrow> r) ps) e"
    if "\<And>r j. st' = Some r \<Longrightarrow> r \<le> j \<Longrightarrow> j < Suc i \<Longrightarrow> \<not> has_point_values (ps ! j)"
      "\<And>r. st' = Some r \<Longrightarrow> r < Suc i" for acc' st'
    using Suc.hyps(2) i that by (intro Suc.hyps(1)) auto
  show ?case
  proof (cases "has_point_values (ps ! i)")
    case True
    have skip: "missing_runs (drop i ps) e = missing_runs (drop (Suc i) ps) e"
      using True i by (simp add: Cons_nth_drop_Suc [symmetric])
    have step: "missing_step ps (acc, st) i =
        (acc @ fst (close_run ps i (date_ms (pt_started_at (ps ! i))) ([], st)), None)"
      using True by (simp add: missing_step_def close_run_def split: option.split)
    have "fst (close_run ps i (date_ms (pt_started_at (ps ! i))) ([], st)) @ missing_runs (drop (Suc i) ps) e =
        missing_runs (drop (case st of None \<Rightarrow> i | Some r \<Rightarrow> r) ps) e"
    proof (cases st)
      case None
      then show ?thesis using skip by (simp add: close_run_def)
    next
      case (Some r)
      then show ?thesis using open_run_missing [of r i ps e] Suc.prems True i skip by simp
    qed
    with IH [of None "acc @ fst (close_run ps i (date_ms (pt_started_at (ps ! i))) ([], st))"]
    show ?thesis unfolding upt by (simp add: step)
  next
    case False
    have step: "missing_step ps (acc, st) i = (acc, Some (nullish st i))"
      using False by (simp add: missing_step_def)
    have "fst (close_run ps (length ps) e (foldl (missing_step ps) (acc, Some (nullish st i)) [Suc i..<length ps])) =
        acc @ missing_runs (drop (nullish st i) ps) e"
      using False Suc.prems(2,3) by (subst IH) (auto simp: less_Suc_eq nullish_def split: option.splits)
    then have "fst (close_run ps (length ps) e (foldl (missing_step ps) (missing_step ps (acc, st) i) [Suc i..<length ps])) =
        acc @ missing_runs (drop (nullish st i) ps) e"
      unfolding step .
    then show ?thesis unfolding upt by (cases st) simp_all
  qed
qed

text \<open>The stretches drawn as missing are exactly the maximal runs of two or more empty points
  after the data starts, in order, each from its first empty point to the next point with values or
  to the end of the period.\<close>

theorem missing_ranges_are_empty_runs:
  "get_missing_data_ranges s =
     missing_runs (dropWhile (\<lambda>p. \<not> has_point_values p) (se_points s)) (date_ms (se_to s))"
proof (cases "find_index has_point_values (se_points s)")
  case None
  then have "dropWhile (\<lambda>p. \<not> has_point_values p) (se_points s) = []" by (simp add: find_index_None_iff)
  then show ?thesis
    by (simp only: get_missing_data_ranges_def None Let_def option.case missing_runs.simps)
next
  case (Some k)
  from find_index_SomeD [OF Some] have k: "k < length (se_points s)" "has_point_values (se_points s ! k)"
    "\<forall>j<k. \<not> has_point_values (se_points s ! j)" by auto
  have "dropWhile (\<lambda>p. \<not> has_point_values p) (se_points s) = drop k (se_points s)"
    using k open_run_split [of 0 k "se_points s"] by simp
  with Some k(1) missing_loop [of k "se_points s" None "date_ms (se_to s)" "[]"] show ?thesis
    by (simp add: get_missing_data_ranges_def Let_def)
qed

section \<open>Stage colours\<close>

definition stage_reported :: "reason_level \<Rightarrow> path_stage \<Rightarrow> wal_reason list \<Rightarrow> bool" where
  "stage_reported l stage rs \<longleftrightarrow> (\<exists>r\<in>set rs. reason_stage (wr_code r) = Some stage \<and> wr_level r = l)"

lemma stage_reported_snoc:
  "stage_reported l stage [] \<longleftrightarrow> False"
  "stage_reported l stage (rs @ [r]) \<longleftrightarrow>
     stage_reported l stage rs \<or> (reason_stage (wr_code r) = Some stage \<and> wr_level r = l)"
  by (auto simp: stage_reported_def)

lemma color_stage_at:
  "color_stage tones r stage =
     (if reason_stage (wr_code r) = Some stage \<and> wr_level r = RL_BROKEN then TONE_ERROR
      else if reason_stage (wr_code r) = Some stage \<and> wr_level r = RL_NEEDS_ATTENTION \<and> tones stage \<noteq> TONE_ERROR
      then TONE_WARNING else tones stage)"
  by (cases "reason_stage (wr_code r)") (simp_all add: color_stage_def)

text \<open>Where the verdict is about streaming, a stage is red exactly when a broken reason is about
  it, yellow when one that needs attention is and no broken one, and neutral otherwise, in whatever
  order the reasons are reported; without such a verdict every stage is neutral.\<close>

theorem stage_shows_most_severe_reason:
  "get_stage_tones level rs stage =
     (if level = HL_NOT_STREAMING \<or> level = HL_COLLECTING_DATA then TONE_NEUTRAL
      else if stage_reported RL_BROKEN stage rs then TONE_ERROR
      else if stage_reported RL_NEEDS_ATTENTION stage rs then TONE_WARNING
      else TONE_NEUTRAL)"
proof -
  have "foldl color_stage (\<lambda>_. TONE_NEUTRAL) rs stage =
     (if stage_reported RL_BROKEN stage rs then TONE_ERROR
      else if stage_reported RL_NEEDS_ATTENTION stage rs then TONE_WARNING
      else TONE_NEUTRAL)"
  proof (induction rs rule: rev_induct)
    case Nil
    then show ?case by (simp add: stage_reported_snoc)
  next
    case (snoc r rs)
    then show ?case
      by (cases "reason_stage (wr_code r) = Some stage"; cases "wr_level r")
        (simp_all add: color_stage_at stage_reported_snoc)
  qed
  then show ?thesis by (simp add: get_stage_tones_def)
qed

lemma amount_progress_bounds:
  "0 \<le> ap_percent (get_amount_progress v l) \<and> ap_percent (get_amount_progress v l) \<le> 100"
proof (cases "0 < l \<and> v \<le> l")
  case True
  then have "v / l \<le> 1" by simp
  then have "v / l * 100 \<le> 1 * 100" by (intro mult_right_mono) simp_all
  with True show ?thesis by (simp add: get_amount_progress_def del: times_divide_eq_left)
next
  case False
  then have "l \<le> 0 \<or> l < v" by auto
  then show ?thesis by (auto simp: get_amount_progress_def)
qed

lemma amount_progress_over_limit: "ap_over_limit (get_amount_progress v l) \<longleftrightarrow> 0 < l \<and> l < v"
  by (auto simp: get_amount_progress_def)

section \<open>Live values never move the picture back\<close>

lemma is_newerD: "is_newer t u \<Longrightarrow> \<exists>x a b. t = Some x \<and> date_ms x = Some a \<and> date_ms u = Some b \<and> b < a"
  by (auto simp: is_newer_def split: option.splits bind_splits)

lemma map_enumerate_shape:
  assumes "\<And>i r. f (g (i, r)) = f r" and "\<And>i r. Suc i < length xs \<Longrightarrow> g (i, r) = r"
  shows "map f (map g (enumerate 0 xs)) = map f xs" and "butlast (map g (enumerate 0 xs)) = butlast xs"
proof -
  show "map f (map g (enumerate 0 xs)) = map f xs"
    by (rule nth_equalityI) (simp_all add: nth_enumerate_eq assms(1))
  show "butlast (map g (enumerate 0 xs)) = butlast xs"
    by (rule nth_equalityI) (simp_all add: nth_butlast nth_enumerate_eq assms(2))
qed

lemma follow_restore_point_cases:
  obtains (same) "follow_restore_point s live_last = (ws_latest_restorable_at s, ws_restorable_ranges s)"
  | (follows) latest fresh a b where "ws_latest_restorable_at s = Some latest" "live_last = Some fresh"
      "date_ms latest = Some a" "date_ms fresh = Some b" "a < b"
      "is_same_moment (Some latest) (Option.bind (ws_current s) cu_last_archived_wal_at)"
      "fst (follow_restore_point s live_last) = Some fresh"
      "map tr_from (snd (follow_restore_point s live_last)) = map tr_from (ws_restorable_ranges s)"
      "butlast (snd (follow_restore_point s live_last)) = butlast (ws_restorable_ranges s)"
proof (cases "\<exists>latest fresh. ws_latest_restorable_at s = Some latest \<and> live_last = Some fresh \<and>
    is_same_moment (Some latest) (Option.bind (ws_current s) cu_last_archived_wal_at) \<and> is_newer (Some fresh) latest")
  case True
  then obtain latest fresh where *: "ws_latest_restorable_at s = Some latest" "live_last = Some fresh"
    "is_same_moment (Some latest) (Option.bind (ws_current s) cu_last_archived_wal_at)" "is_newer (Some fresh) latest"
    by blast
  from is_newerD [OF *(4)] obtain a b where "date_ms latest = Some a" "date_ms fresh = Some b" "a < b" by auto
  with * show ?thesis
    by (intro follows) (simp_all add: follow_restore_point_def Let_def map_enumerate_shape del: map_map)
next
  case False
  then show ?thesis by (intro same) (auto simp: follow_restore_point_def Let_def split: option.split)
qed

lemma apply_live_cases:
  obtains (old) "apply_live_values s live = s"
  | (fresh) l c where "live = Some l" "ws_current s = Some c" "is_newer (Some (lv_measured_at l)) (cu_sampled_at c)"
      "ws_latest_restorable_at (apply_live_values s live) = fst (follow_restore_point s (lv_last_archived_wal_at l))"
      "ws_restorable_ranges (apply_live_values s live) = snd (follow_restore_point s (lv_last_archived_wal_at l))"
      "\<exists>c'. ws_current (apply_live_values s live) = Some c' \<and> cu_sampled_at c' = lv_measured_at l"
proof (cases "\<exists>l c. live = Some l \<and> ws_current s = Some c \<and> is_newer (Some (lv_measured_at l)) (cu_sampled_at c)")
  case True
  then obtain l c where *: "live = Some l" "ws_current s = Some c"
    "is_newer (Some (lv_measured_at l)) (cu_sampled_at c)" by blast
  show ?thesis
    by (rule fresh [OF *])
      (use * in \<open>auto simp: apply_live_values_def overlay_source_def overlay_current_def Let_def
        split: bool.split option.split prod.split\<close>)
next
  case False
  then show ?thesis by (intro old) (auto simp: apply_live_values_def split: option.split)
qed

lemma apply_live_frame:
  "ws_health (apply_live_values s live) = ws_health s \<and>
   ws_streamer (apply_live_values s live) = ws_streamer s \<and>
   ws_series (apply_live_values s live) = ws_series s \<and>
   ku_state (ws_keeping_up (apply_live_values s live)) = ku_state (ws_keeping_up s) \<and>
   ku_source_write_rate (ws_keeping_up (apply_live_values s live)) = ku_source_write_rate (ws_keeping_up s) \<and>
   ku_archive_rate (ws_keeping_up (apply_live_values s live)) = ku_archive_rate (ws_keeping_up s)"
  by (auto simp: apply_live_values_def Let_def split: option.split prod.split bool.split)

lemma not_is_newer_self: "\<not> is_newer (Some t) t"
  by (simp add: is_newer_def split: option.split)

lemma apply_live_old:
  "ws_current s = Some c \<Longrightarrow> \<not> is_newer (Some (lv_measured_at l)) (cu_sampled_at c) \<Longrightarrow>
   apply_live_values s (Some l) = s"
  by (simp add: apply_live_values_def)

text \<open>Live values change only what moves every second: the verdict, the streamer, the charts and
  the rates stay those of the statistics, the restorable stretches start where they started and all
  but the newest are untouched, the latest restorable moment never goes back, and applying the same
  values again changes nothing.\<close>

theorem live_values_only_move_forward:
  assumes "ws_latest_restorable_at s = Some latest" and "date_ms latest = Some t"
  shows "\<exists>latest' t'. ws_latest_restorable_at (apply_live_values s live) = Some latest' \<and>
      date_ms latest' = Some t' \<and> t \<le> t' \<and>
      map tr_from (ws_restorable_ranges (apply_live_values s live)) = map tr_from (ws_restorable_ranges s) \<and>
      butlast (ws_restorable_ranges (apply_live_values s live)) = butlast (ws_restorable_ranges s) \<and>
      ws_health (apply_live_values s live) = ws_health s \<and>
      ws_series (apply_live_values s live) = ws_series s \<and>
      ku_archive_rate (ws_keeping_up (apply_live_values s live)) = ku_archive_rate (ws_keeping_up s) \<and>
      apply_live_values (apply_live_values s live) live = apply_live_values s live"
proof (cases rule: apply_live_cases [of s live])
  case old
  with assms show ?thesis by simp
next
  case (fresh l c)
  have again: "apply_live_values (apply_live_values s live) live = apply_live_values s live"
    using fresh(1,6) apply_live_old [of "apply_live_values s live" _ l] not_is_newer_self by auto
  show ?thesis
  proof (cases rule: follow_restore_point_cases [of s "lv_last_archived_wal_at l"])
    case same
    then show ?thesis using fresh(4,5) assms again apply_live_frame [of s live] by simp
  next
    case (follows l' f a b)
    then show ?thesis using fresh(4,5) assms again apply_live_frame [of s live] by simp
  qed
qed

lemma sample_times:
  "date_ms ''2024-05-01T10:00:00Z'' = Some 1714557600000"
  "date_ms ''2024-05-01T10:00:01Z'' = Some 1714557601000"
  by code_simp+

definition sample_streaming :: wal_statistics where
  "sample_streaming = (sample_statistics HL_HEALTHY [] [\<lparr>tr_from = ''2024-05-01T10:00:00Z'', tr_to = ''2024-05-01T10:00:00Z''\<rparr>])
     \<lparr>ws_current := Some (sample_current ''2024-05-01T10:00:00Z'' (Some ''2024-05-01T10:00:00Z''))\<rparr>"

lemma sample_streaming_restorable: "ws_latest_restorable_at sample_streaming = Some ''2024-05-01T10:00:00Z''"
  by (simp add: sample_streaming_def sample_statistics_def last_opt_def)

theorem live_values_only_move_forward_witness:
  "let live = Some (sample_live ''2024-05-01T10:00:01Z'' (Some ''2024-05-01T10:00:01Z''))
   in apply_live_values (apply_live_values sample_streaming live) live = apply_live_values sample_streaming live \<and>
      map tr_from (ws_restorable_ranges (apply_live_values sample_streaming live)) = [''2024-05-01T10:00:00Z'']"
proof -
  have "map tr_from (ws_restorable_ranges sample_streaming) = [''2024-05-01T10:00:00Z'']"
    by (simp add: sample_streaming_def sample_statistics_def)
  then show ?thesis
    using live_values_only_move_forward [OF sample_streaming_restorable sample_times(1),
        of "Some (sample_live ''2024-05-01T10:00:01Z'' (Some ''2024-05-01T10:00:01Z''))"]
    by auto
qed

end
