(* ===== verification/Wal_Controllers.thy ===== *)
theory Wal_Controllers
  imports Wal_Verdicts Wal_Charts
begin

text \<open>
  The three controllers of the monitoring screen
  (\<open>src/frontend/src/pages/databases/lib/wal-stream-monitoring\<close>: walStreamRefreshController.ts,
  walStreamLiveController.ts, fullBackupRequestController.ts) and the screen that joins the first
  and the last (\<open>ui/wal-stream-monitoring/WalStreamMonitoringComponent.tsx\<close>). An async method is
  cut at its await into the part that sends the request and the part that settles its answer; the
  timer and the page visibility are events. Errors are opaque values of type \<open>'e\<close>.
\<close>

section \<open>Refreshing the statistics (walStreamRefreshController.ts)\<close>

definition wal_stream_refresh_interval_ms :: int where
  "wal_stream_refresh_interval_ms = 30000"

record 'e refresh_state =
  rs_statistics :: "wal_statistics option"
  rs_last_successful_refresh_at :: js_date
  rs_first_load_error :: "'e option"
  rs_last_refresh_failed :: bool

text \<open>
  The controller with what it reached outside: the published states, and the requests sent as
  (generation, period). The interval handle and the visibility subscription are flags.
\<close>

record 'e refresh_controller =
  rc_state :: "'e refresh_state"
  rc_generation :: nat
  rc_period :: statistics_period
  rc_interval :: bool
  rc_subscribed :: bool
  rc_published :: "'e refresh_state list"
  rc_sent :: "(nat \<times> statistics_period) list"

definition new_refresh_controller :: "statistics_period \<Rightarrow> 'e refresh_controller" where
  "new_refresh_controller period =
     \<lparr>rc_state = \<lparr>rs_statistics = None, rs_last_successful_refresh_at = None, rs_first_load_error = None,
                 rs_last_refresh_failed = False\<rparr>,
      rc_generation = 0, rc_period = period, rc_interval = False, rc_subscribed = False,
      rc_published = [], rc_sent = []\<rparr>"

definition publish_refresh_state :: "('e refresh_state \<Rightarrow> 'e refresh_state) \<Rightarrow> 'e refresh_controller \<Rightarrow> 'e refresh_controller" where
  "publish_refresh_state f c = c\<lparr>rc_state := f (rc_state c), rc_published := rc_published c @ [f (rc_state c)]\<rparr>"

definition send_refresh :: "'e refresh_controller \<Rightarrow> 'e refresh_controller" where
  "send_refresh c =
     (let g = Suc (rc_generation c)
      in c\<lparr>rc_generation := g, rc_sent := rc_sent c @ [(g, rc_period c)]\<rparr>)"

text \<open>The answer to the request of generation \<open>g\<close>, landing at the time \<open>now\<close>.\<close>

definition settle_refresh_answer ::
  "nat \<Rightarrow> 'e + (wal_statistics \<times> js_date) \<Rightarrow> 'e refresh_controller \<Rightarrow> 'e refresh_controller" where
  "settle_refresh_answer g answer c =
     (if g \<noteq> rc_generation c then c
      else case answer of
        Inr (statistics, now) \<Rightarrow> publish_refresh_state
          (\<lambda>s. s\<lparr>rs_statistics := Some statistics, rs_last_successful_refresh_at := now,
                 rs_first_load_error := None, rs_last_refresh_failed := False\<rparr>) c
      | Inl e \<Rightarrow> publish_refresh_state
          (\<lambda>s. s\<lparr>rs_first_load_error := (if rs_statistics s = None then Some e else None),
                 rs_last_refresh_failed := True\<rparr>) c)"

definition refresh_now_and_restart_interval :: "'e refresh_controller \<Rightarrow> 'e refresh_controller" where
  "refresh_now_and_restart_interval c = send_refresh (c\<lparr>rc_interval := True\<rparr>)"

definition start_refreshing :: "'e refresh_controller \<Rightarrow> 'e refresh_controller" where
  "start_refreshing c = refresh_now_and_restart_interval (c\<lparr>rc_subscribed := True\<rparr>)"

definition stop_refreshing :: "'e refresh_controller \<Rightarrow> 'e refresh_controller" where
  "stop_refreshing c = c\<lparr>rc_generation := Suc (rc_generation c), rc_interval := False, rc_subscribed := False\<rparr>"

definition set_period :: "statistics_period \<Rightarrow> 'e refresh_controller \<Rightarrow> 'e refresh_controller" where
  "set_period period c = refresh_now_and_restart_interval (c\<lparr>rc_period := period\<rparr>)"

definition retry_refresh :: "'e refresh_controller \<Rightarrow> 'e refresh_controller" where
  "retry_refresh c = refresh_now_and_restart_interval c"

definition interval_ticked :: "bool \<Rightarrow> 'e refresh_controller \<Rightarrow> 'e refresh_controller" where
  "interval_ticked visible c = (if rc_interval c \<and> visible then send_refresh c else c)"

definition visibility_changed :: "bool \<Rightarrow> 'e refresh_controller \<Rightarrow> 'e refresh_controller" where
  "visibility_changed visible c =
     (if rc_subscribed c \<and> visible then refresh_now_and_restart_interval c else c)"

datatype 'e refresh_event =
    Started
  | Stopped
  | PeriodSet statistics_period
  | Retried
  | Ticked bool
  | VisibilityChanged bool
  | Answered nat "'e + (wal_statistics \<times> js_date)"

fun refresh_step :: "'e refresh_controller \<Rightarrow> 'e refresh_event \<Rightarrow> 'e refresh_controller" where
  "refresh_step c Started = start_refreshing c"
| "refresh_step c Stopped = stop_refreshing c"
| "refresh_step c (PeriodSet p) = set_period p c"
| "refresh_step c Retried = retry_refresh c"
| "refresh_step c (Ticked v) = interval_ticked v c"
| "refresh_step c (VisibilityChanged v) = visibility_changed v c"
| "refresh_step c (Answered g a) = settle_refresh_answer g a c"

lemmas refresh_ops [step_defs] =
  publish_refresh_state_def send_refresh_def settle_refresh_answer_def refresh_now_and_restart_interval_def
  start_refreshing_def stop_refreshing_def set_period_def retry_refresh_def interval_ticked_def
  visibility_changed_def

section \<open>Reading the live values (walStreamLiveController.ts)\<close>

definition wal_stream_live_interval_ms :: int where
  "wal_stream_live_interval_ms = 1000"

record live_controller =
  lc_reading :: bool
  lc_stopped :: bool
  lc_interval :: bool
  lc_subscribed :: bool
  lc_on_way :: nat
  lc_published :: "wal_live option list"

definition new_live_controller :: live_controller where
  "new_live_controller =
     \<lparr>lc_reading = False, lc_stopped = False, lc_interval = False, lc_subscribed = False, lc_on_way = 0,
      lc_published = []\<rparr>"

text \<open>\<open>lc_on_way\<close> counts the readings that are sent and not answered.\<close>

definition start_read :: "live_controller \<Rightarrow> live_controller" where
  "start_read c = (if lc_reading c then c else c\<lparr>lc_reading := True, lc_on_way := Suc (lc_on_way c)\<rparr>)"

definition settle_read :: "'e + wal_live_response \<Rightarrow> live_controller \<Rightarrow> live_controller" where
  "settle_read answer c =
     (let c1 = (case answer of
          Inr r \<Rightarrow> (if \<not> lc_stopped c
                    then c\<lparr>lc_published := lc_published c @ [if lr_streamer_running r then lr_current r else None]\<rparr>
                    else c)
        | Inl e \<Rightarrow> c)
      in c1\<lparr>lc_reading := False, lc_on_way := lc_on_way c - 1\<rparr>)"

definition start_live :: "live_controller \<Rightarrow> live_controller" where
  "start_live c = start_read (c\<lparr>lc_stopped := False, lc_subscribed := True, lc_interval := True\<rparr>)"

definition stop_live :: "live_controller \<Rightarrow> live_controller" where
  "stop_live c = c\<lparr>lc_stopped := True, lc_interval := False, lc_subscribed := False\<rparr>"

datatype 'e live_event =
    LiveStarted
  | LiveStopped
  | LiveTicked bool
  | LiveVisibility bool
  | LiveAnswered "'e + wal_live_response"

text \<open>An answer arrives only for a reading on its way.\<close>

fun live_step :: "live_controller \<Rightarrow> 'e live_event \<Rightarrow> live_controller" where
  "live_step c LiveStarted = start_live c"
| "live_step c LiveStopped = stop_live c"
| "live_step c (LiveTicked v) = (if lc_interval c \<and> v then start_read c else c)"
| "live_step c (LiveVisibility v) = (if lc_subscribed c \<and> v then start_read c else c)"
| "live_step c (LiveAnswered a) = (if lc_on_way c > 0 then settle_read a c else c)"

lemmas live_ops [step_defs] = start_read_def settle_read_def start_live_def stop_live_def

section \<open>Requesting a full backup (fullBackupRequestController.ts)\<close>

text \<open>What the controller reaches: the busy flag of the button, the two messages, the refresh.\<close>

datatype 'e request_effect = Requesting bool | ReportRequested | RefreshNow | ReportError 'e

record 'e request_controller =
  fr_requesting :: bool
  fr_in_flight :: bool
  fr_reporting :: bool
  fr_log :: "'e request_effect list"

definition new_request_controller :: "'e request_controller" where
  "new_request_controller = \<lparr>fr_requesting = False, fr_in_flight = False, fr_reporting = True, fr_log = []\<rparr>"

definition log_request_effect :: "'e request_effect \<Rightarrow> 'e request_controller \<Rightarrow> 'e request_controller" where
  "log_request_effect x c = c\<lparr>fr_log := fr_log c @ [x]\<rparr>"

definition set_requesting :: "bool \<Rightarrow> 'e request_controller \<Rightarrow> 'e request_controller" where
  "set_requesting b c = log_request_effect (Requesting b) (c\<lparr>fr_requesting := b\<rparr>)"

definition start_full_backup :: "'e request_controller \<Rightarrow> 'e request_controller" where
  "start_full_backup c = (if fr_requesting c then c else (set_requesting True c)\<lparr>fr_in_flight := True\<rparr>)"

definition settle_full_backup :: "'e option \<Rightarrow> 'e request_controller \<Rightarrow> 'e request_controller" where
  "settle_full_backup failure c =
     (let c1 = c\<lparr>fr_in_flight := False\<rparr>
      in if \<not> fr_reporting c then c1
         else case failure of
           None \<Rightarrow> log_request_effect RefreshNow (log_request_effect ReportRequested c1)
         | Some e \<Rightarrow> set_requesting False (log_request_effect (ReportError e) c1))"

definition handle_refresh_landed :: "'e request_controller \<Rightarrow> 'e request_controller" where
  "handle_refresh_landed c = (if fr_requesting c \<and> \<not> fr_in_flight c then set_requesting False c else c)"

definition stop_reporting :: "'e request_controller \<Rightarrow> 'e request_controller" where
  "stop_reporting c = c\<lparr>fr_reporting := False\<rparr>"

lemmas request_ops [step_defs] =
  log_request_effect_def set_requesting_def start_full_backup_def settle_full_backup_def
  handle_refresh_landed_def stop_reporting_def

section \<open>Only the newest refresh counts\<close>

lemma generation_after_sends: "rc_generation ((send_refresh ^^ n) c) = rc_generation c + n"
  by (induction n) (simp_all add: send_refresh_def Let_def)

interpretation refresh_guard: guarded_answers send_refresh rc_generation "\<lambda>c g. g = rc_generation c" "\<lambda>_. True"
    settle_refresh_answer
proof
  show "rc_generation ((send_refresh ^^ Suc n) s) \<noteq> rc_generation s" for n and s :: "'a refresh_controller"
    using generation_after_sends [of "Suc n" s] by linarith
qed (auto simp: settle_refresh_answer_def)

text \<open>The order kept by every event: requests are numbered upwards, the newest one was sent for the
  selected period, and the published state never shows an error over statistics.\<close>

definition refresh_inv :: "'e refresh_controller \<Rightarrow> bool" where
  "refresh_inv c \<longleftrightarrow>
     sorted_wrt (<) (map fst (rc_sent c)) \<and>
     (\<forall>(g, p)\<in>set (rc_sent c). g \<le> rc_generation c \<and> (g = rc_generation c \<longrightarrow> p = rc_period c)) \<and>
     (rs_first_load_error (rc_state c) \<noteq> None \<longrightarrow>
        rs_statistics (rc_state c) = None \<and> rs_last_refresh_failed (rc_state c)) \<and>
     (rs_statistics (rc_state c) = None \<longrightarrow> rs_last_successful_refresh_at (rc_state c) = None)"

lemma refresh_inv_send:
  assumes "sorted_wrt (<) (map fst (rc_sent c))" and "\<forall>(g, p)\<in>set (rc_sent c). g \<le> rc_generation c"
    and "rs_first_load_error (rc_state c) \<noteq> None \<longrightarrow>
        rs_statistics (rc_state c) = None \<and> rs_last_refresh_failed (rc_state c)"
    and "rs_statistics (rc_state c) = None \<longrightarrow> rs_last_successful_refresh_at (rc_state c) = None"
  shows "refresh_inv (send_refresh c)"
  using assms by (auto simp: refresh_inv_def send_refresh_def Let_def sorted_wrt_append less_Suc_eq_le)

lemma refresh_inv_settle:
  "refresh_inv c \<Longrightarrow> refresh_inv (settle_refresh_answer g a c)"
  by (auto simp: refresh_inv_def settle_refresh_answer_def publish_refresh_state_def split: sum.split)

lemma refresh_inv_restart:
  "refresh_inv c \<Longrightarrow> refresh_inv (refresh_now_and_restart_interval (c\<lparr>rc_period := p\<rparr>))"
  "refresh_inv c \<Longrightarrow> refresh_inv (refresh_now_and_restart_interval (c\<lparr>rc_subscribed := b\<rparr>))"
  "refresh_inv c \<Longrightarrow> refresh_inv (refresh_now_and_restart_interval c)"
  "refresh_inv c \<Longrightarrow> refresh_inv (send_refresh c)"
  unfolding refresh_now_and_restart_interval_def
  by (rule refresh_inv_send; auto simp: refresh_inv_def)+

lemma refresh_inv_step: "refresh_inv c \<Longrightarrow> refresh_inv (refresh_step c ev)"
proof (cases ev)
  case Stopped
  then show "refresh_inv c \<Longrightarrow> ?thesis" by (auto simp: refresh_inv_def stop_refreshing_def)
qed (simp_all add: start_refreshing_def set_period_def retry_refresh_def interval_ticked_def
      visibility_changed_def refresh_inv_restart refresh_inv_settle)

interpretation refresh_machine: invariant_machine refresh_step refresh_inv
  by unfold_locales (rule refresh_inv_step)

lemma new_refresh_inv: "refresh_inv (new_refresh_controller p)"
  by (simp add: refresh_inv_def new_refresh_controller_def)

text \<open>C20: Whatever the user, the timer and the network do, an answer that changes the screen was
  requested for the period selected now, by the newest request, and a failed load is shown only while
  there are no statistics to show.\<close>

theorem shown_answer_is_newest_and_of_selected_period:
  assumes "c = foldl refresh_step (new_refresh_controller first_period) events"
    and "(g, p) \<in> set (rc_sent c)" and "settle_refresh_answer g answer c \<noteq> c"
  shows "p = rc_period c \<and> (\<forall>(g', p')\<in>set (rc_sent c). g' \<le> g) \<and>
    (rs_first_load_error (rc_state (settle_refresh_answer g answer c)) \<noteq> None \<longrightarrow>
       rs_statistics (rc_state (settle_refresh_answer g answer c)) = None)"
proof -
  have inv: "refresh_inv c" unfolding assms(1) by (rule refresh_machine.run_inv) (rule new_refresh_inv)
  have g: "g = rc_generation c" using assms(3) refresh_guard.stale_dropped by blast
  from refresh_inv_settle [OF inv, of g answer] inv g assms(2) show ?thesis
    by (auto simp: refresh_inv_def)
qed

text \<open>Statistics once shown stay on screen: no event takes them away, a failed refresh least of all.\<close>

theorem statistics_never_lost:
  assumes "rs_statistics (rc_state c) = Some s"
  shows "\<exists>s'. rs_statistics (rc_state (foldl refresh_step c events)) = Some s'"
proof -
  have step: "\<exists>s'. rs_statistics (rc_state (refresh_step d ev)) = Some s'"
    if "\<exists>s. rs_statistics (rc_state d) = Some s" for d :: "'a refresh_controller" and ev
    using that by (cases ev) (auto simp: step_defs Let_def split: sum.split)
  show ?thesis
    using assms by (induction events arbitrary: c s) (simp, metis foldl_Cons step)
qed

section \<open>One live reading at a time\<close>

definition live_inv :: "live_controller \<Rightarrow> bool" where
  "live_inv c \<longleftrightarrow> lc_on_way c = (if lc_reading c then 1 else 0) \<and>
     (lc_interval c \<longleftrightarrow> lc_subscribed c) \<and> (lc_stopped c \<longrightarrow> \<not> lc_interval c)"

interpretation live_machine: invariant_machine live_step live_inv
proof
  show "live_inv c \<Longrightarrow> live_inv (live_step c ev)" for c and ev :: "'a live_event"
    by (cases ev) (auto simp: live_inv_def step_defs Let_def split: sum.split)
qed

text \<open>Readings never pile up: at any time at most one is on its way, a hidden page and a stopped
  controller start none, and after the controller stopped no answer reaches the screen.\<close>

theorem live_readings_never_pile_up:
  assumes "c = foldl live_step new_live_controller events"
  shows "lc_on_way c \<le> 1 \<and>
    live_step c (LiveTicked False) = c \<and> live_step c (LiveVisibility False) = c \<and>
    (lc_stopped c \<longrightarrow> live_step c (LiveTicked True) = c \<and> live_step c (LiveVisibility True) = c \<and>
      lc_published (live_step c (LiveAnswered answer)) = lc_published c)"
proof -
  have "live_inv c" unfolding assms(1) by (rule live_machine.run_inv) (simp add: live_inv_def new_live_controller_def)
  then show ?thesis by (auto simp: live_inv_def step_defs Let_def split: sum.split if_splits)
qed

section \<open>The button and the refresh\<close>

text \<open>
  The screen: a published state makes \<open>handleRefreshLanded\<close> run, and the controller's
  \<open>refreshNow\<close> is a retry of the refresh controller.
\<close>

record 'e screen =
  sc_refresh :: "'e refresh_controller"
  sc_request :: "'e request_controller"

datatype 'e screen_event =
    RefreshEvent "'e refresh_event"
  | FullBackupClicked
  | FullBackupAnswered "'e option"

fun screen_step :: "'e screen \<Rightarrow> 'e screen_event \<Rightarrow> 'e screen" where
  "screen_step s (RefreshEvent ev) =
     (let c = refresh_step (sc_refresh s) ev
      in s\<lparr>sc_refresh := c,
           sc_request := (if rc_published c = rc_published (sc_refresh s) then sc_request s
                          else handle_refresh_landed (sc_request s))\<rparr>)"
| "screen_step s FullBackupClicked = s\<lparr>sc_request := start_full_backup (sc_request s)\<rparr>"
| "screen_step s (FullBackupAnswered f) =
     (if \<not> fr_in_flight (sc_request s) then s
      else s\<lparr>sc_request := settle_full_backup f (sc_request s),
             sc_refresh := (if f = None \<and> fr_reporting (sc_request s) then retry_refresh (sc_refresh s)
                            else sc_refresh s)\<rparr>)"

lemma landing_keeps_flight:
  "fr_in_flight (sc_request s) \<Longrightarrow> sc_request (screen_step s (RefreshEvent ev)) = sc_request s"
  by (auto simp: handle_refresh_landed_def Let_def)

lemma stale_answer_keeps_screen:
  assumes "g \<noteq> rc_generation (sc_refresh s)"
  shows "screen_step s (RefreshEvent (Answered g a)) = s"
  using assms by (simp add: settle_refresh_answer_def Let_def)

lemma stale_answers_keep_screen:
  assumes "\<And>g a. (g, a) \<in> set answers \<Longrightarrow> g \<noteq> rc_generation (sc_refresh s)"
  shows "foldl screen_step s (map (\<lambda>(g, a). RefreshEvent (Answered g a)) answers) = s"
  using assms
proof (induction answers)
  case (Cons x xs)
  obtain g a where x: "x = (g, a)" by (cases x)
  have "screen_step s (RefreshEvent (Answered g a)) = s"
    using Cons.prems [of g a] x by (intro stale_answer_keeps_screen) simp
  moreover have "foldl screen_step s (map (\<lambda>(g, a). RefreshEvent (Answered g a)) xs) = s"
    using Cons.prems by (intro Cons.IH) auto
  ultimately show ?case by (simp add: x del: screen_step.simps)
qed simp

text \<open>After the service took the request for a full backup, the button stays busy while answers of
  earlier refreshes arrive, however many, and comes back with the answer of the refresh sent after
  the request, which is the one that can report the backup as pending.\<close>

theorem button_waits_for_fresh_refresh:
  assumes "fr_requesting (sc_request s)" and "fr_in_flight (sc_request s)" and "fr_reporting (sc_request s)"
    and "\<And>g a. (g, a) \<in> set answers \<Longrightarrow> g \<le> rc_generation (sc_refresh s)"
  shows "let s1 = screen_step s (FullBackupAnswered None);
             s2 = foldl screen_step s1 (map (\<lambda>(g, a). RefreshEvent (Answered g a)) answers)
         in fr_requesting (sc_request s2) \<and>
            rc_generation (sc_refresh s2) = Suc (rc_generation (sc_refresh s)) \<and>
            \<not> fr_requesting (sc_request (screen_step s2 (RefreshEvent (Answered (rc_generation (sc_refresh s2)) answer))))"
proof -
  define s1 where "s1 = screen_step s (FullBackupAnswered None)"
  have gen: "rc_generation (sc_refresh s1) = Suc (rc_generation (sc_refresh s))"
    using assms(2,3) by (simp add: s1_def step_defs Let_def)
  have req: "fr_requesting (sc_request s1)" "\<not> fr_in_flight (sc_request s1)"
    using assms(1-3) by (simp_all add: s1_def step_defs Let_def)
  have batch: "foldl screen_step s1 (map (\<lambda>(g, a). RefreshEvent (Answered g a)) answers) = s1"
    using assms(4) gen by (intro stale_answers_keep_screen) (metis Suc_n_not_le_n)
  have "\<not> fr_requesting (sc_request (screen_step s1 (RefreshEvent (Answered (rc_generation (sc_refresh s1)) answer))))"
    using req by (cases answer) (auto simp: step_defs Let_def split: prod.split)
  with gen req batch show ?thesis unfolding s1_def [symmetric] Let_def by simp
qed

section \<open>Witnesses\<close>

theorem shown_answer_is_newest_and_of_selected_period_witness:
  "rc_period (foldl refresh_step (new_refresh_controller SP_HOUR) [Started, PeriodSet SP_DAY]
     :: nat refresh_controller) = SP_DAY"
proof -
  let ?c = "foldl refresh_step (new_refresh_controller SP_HOUR) [Started, PeriodSet SP_DAY] :: nat refresh_controller"
  have "settle_refresh_answer 2 (Inl (0 :: nat)) ?c \<noteq> ?c" and "(2, SP_DAY) \<in> set (rc_sent ?c)"
    by (simp_all add: step_defs new_refresh_controller_def Let_def)
  from shown_answer_is_newest_and_of_selected_period [OF refl this(2,1)] show ?thesis by simp
qed

theorem statistics_never_lost_witness:
  "\<exists>s'. rs_statistics (rc_state (foldl refresh_step
     (settle_refresh_answer 1 (Inr (sample_statistics HL_HEALTHY [] [], Some 0))
        (start_refreshing (new_refresh_controller SP_HOUR :: nat refresh_controller)))
     [Ticked True, Answered 2 (Inl 7), Stopped])) = Some s'"
  by (rule statistics_never_lost [of _ "sample_statistics HL_HEALTHY [] []"])
    (simp add: step_defs new_refresh_controller_def Let_def)

theorem live_readings_never_pile_up_witness:
  "lc_on_way (foldl live_step new_live_controller
     [LiveStarted, LiveTicked True, LiveTicked True :: nat live_event]) \<le> 1"
  using live_readings_never_pile_up [OF refl, of "[LiveStarted, LiveTicked True, LiveTicked True :: nat live_event]"]
  by blast

theorem button_waits_for_fresh_refresh_witness:
  "let s = screen_step \<lparr>sc_refresh = start_refreshing (new_refresh_controller SP_HOUR),
                        sc_request = new_request_controller :: nat request_controller\<rparr> FullBackupClicked
   in fr_requesting (sc_request (foldl screen_step (screen_step s (FullBackupAnswered None))
        [RefreshEvent (Answered 1 (Inl 3))]))"
  using button_waits_for_fresh_refresh [of "screen_step \<lparr>sc_refresh = start_refreshing (new_refresh_controller SP_HOUR),
      sc_request = new_request_controller :: nat request_controller\<rparr> FullBackupClicked" "[(1, Inl 3)]"]
  by (simp add: step_defs new_request_controller_def new_refresh_controller_def Let_def)

end
