(* ===== verification/Wal_Timeline.thy ===== *)
theory Wal_Timeline
  imports Wal_Texts
begin

text \<open>
  The restore timeline of WAL stream monitoring,
  \<open>src/frontend/src/pages/databases/lib/wal-stream-monitoring/restoreTimeline.ts\<close>: the stretches
  between the first restorable moment and now, their shares of the bar and the sentences under it.
  An answer \<open>None\<close> stands for a bar drawn from a time that cannot be read, whose widths are NaN in
  the program. Whether a moment falls on today's local day is the parameter \<open>same_day\<close> (dayjs).
\<close>

section \<open>Stretches and their widths\<close>

definition min_segment_width_percent :: number where
  "min_segment_width_percent = 3 / 2"

definition max_lost_sentences :: nat where
  "max_lost_sentences = 3"

record stretch =
  sg_kind :: segment_kind
  sg_from_ms :: time_ms
  sg_to_ms :: time_ms

record segment = stretch +
  sg_start_percent :: number
  sg_width_percent :: number

fun range_stretches :: "(time_ms \<times> time_ms) list \<Rightarrow> stretch list" where
  "range_stretches [] = []"
| "range_stretches [(f, t)] = [\<lparr>sg_kind = SEG_RESTORABLE, sg_from_ms = f, sg_to_ms = t\<rparr>]"
| "range_stretches ((f, t) # (f', t') # rs) =
     \<lparr>sg_kind = SEG_RESTORABLE, sg_from_ms = f, sg_to_ms = t\<rparr> #
     \<lparr>sg_kind = SEG_LOST, sg_from_ms = t, sg_to_ms = f'\<rparr> # range_stretches ((f', t') # rs)"

definition get_stretches :: "(time_ms \<times> time_ms) list \<Rightarrow> js_date \<Rightarrow> stretch list" where
  "get_stretches ranges now =
     (let stretches = range_stretches ranges
      in case (last_opt stretches, now) of
        (Some l, Some n) \<Rightarrow>
          (if n > sg_to_ms l
           then stretches @ [\<lparr>sg_kind = SEG_NOT_SAVED_YET, sg_from_ms = sg_to_ms l, sg_to_ms = n\<rparr>]
           else stretches)
      | _ \<Rightarrow> stretches)"

definition get_widths_with_minimum :: "number list \<Rightarrow> bool list \<Rightarrow> number list" where
  "get_widths_with_minimum widths minimum_applied =
     (let raised = map2 (\<lambda>w m. m \<and> w < min_segment_width_percent) widths minimum_applied;
          raised_total = of_nat (length (filter id raised)) * min_segment_width_percent;
          other_total = sum_list (map2 (\<lambda>w r. if r then 0 else w) widths raised)
      in if raised_total = 0 \<or> other_total = 0 then widths
         else let scale = (100 - raised_total) / other_total
              in map2 (\<lambda>w r. if r then min_segment_width_percent else w * scale) widths raised)"

definition to_segment :: "number \<Rightarrow> number \<Rightarrow> stretch \<Rightarrow> segment" where
  "to_segment start width s =
     \<lparr>sg_kind = sg_kind s, sg_from_ms = sg_from_ms s, sg_to_ms = sg_to_ms s,
      sg_start_percent = start, sg_width_percent = width\<rparr>"

fun place_segments :: "number \<Rightarrow> stretch list \<Rightarrow> number list \<Rightarrow> segment list" where
  "place_segments start (s # ss) (w # ws) = to_segment start w s # place_segments (start + w) ss ws"
| "place_segments start _ _ = []"

definition stretch_widths :: "stretch list \<Rightarrow> number list" where
  "stretch_widths ss =
     (let total = sg_to_ms (last ss) - sg_from_ms (hd ss)
      in get_widths_with_minimum
           (map (\<lambda>s. of_int (sg_to_ms s - sg_from_ms s) / of_int total * 100) ss)
           (map (\<lambda>s. sg_kind s \<noteq> SEG_NOT_SAVED_YET) ss))"

definition timeline_of :: "stretch list \<Rightarrow> segment list" where
  "timeline_of ss =
     (case ss of
        [] \<Rightarrow> []
      | s # rest \<Rightarrow>
          (if sg_to_ms (last ss) - sg_from_ms s \<le> 0
           then to_segment 0 100 s # map (to_segment 0 0) rest
           else place_segments 0 ss (stretch_widths ss)))"

definition read_ranges :: "wal_time_range list \<Rightarrow> (time_ms \<times> time_ms) list option" where
  "read_ranges ranges =
     those (map (\<lambda>r. case (date_ms (tr_from r), date_ms (tr_to r)) of
                       (Some f, Some t) \<Rightarrow> Some (f, t) | _ \<Rightarrow> None) ranges)"

definition get_restore_timeline :: "wal_time_range list \<Rightarrow> js_date \<Rightarrow> segment list option" where
  "get_restore_timeline ranges now =
     map_option (\<lambda>rs. timeline_of (get_stretches rs now)) (read_ranges ranges)"

section \<open>Sentences under the bar\<close>

definition get_moment_param :: "(time_ms \<Rightarrow> js_date \<Rightarrow> bool) \<Rightarrow> time_ms \<Rightarrow> js_date \<Rightarrow> text_param" where
  "get_moment_param same_day at_ms now = MomentParam (to_iso_string at_ms) (same_day at_ms now)"

definition get_range_params ::
  "(time_ms \<Rightarrow> js_date \<Rightarrow> bool) \<Rightarrow> segment \<Rightarrow> js_date \<Rightarrow> (string \<times> text_param) list" where
  "get_range_params same_day s now =
     [(''from'', get_moment_param same_day (sg_from_ms s) now), (''to'', get_moment_param same_day (sg_to_ms s) now)]"

definition get_segment_range_text :: "(time_ms \<Rightarrow> js_date \<Rightarrow> bool) \<Rightarrow> segment \<Rightarrow> js_date \<Rightarrow> monitoring_text" where
  "get_segment_range_text same_day s now =
     sentence_with ''backups.physical.monitoring.restoreTimeline.range'' (get_range_params same_day s now)"

definition get_lost_stretch_texts ::
  "(time_ms \<Rightarrow> js_date \<Rightarrow> bool) \<Rightarrow> segment list \<Rightarrow> js_date \<Rightarrow> monitoring_text list" where
  "get_lost_stretch_texts same_day segments now =
     (let lost = filter (\<lambda>s. sg_kind s = SEG_LOST) segments;
          texts = map (\<lambda>s. sentence_with ''backups.physical.monitoring.restoreTimeline.lostSentence''
                             (get_range_params same_day s now)) (take max_lost_sentences lost)
      in if length lost > max_lost_sentences
         then texts @ [sentence_with ''backups.physical.monitoring.restoreTimeline.moreLost''
                [(''count'', CountParam (of_nat (length lost - max_lost_sentences)))]]
         else texts)"

section \<open>The bar is filled\<close>

fun contiguous :: "('a stretch_scheme) list \<Rightarrow> bool" where
  "contiguous (x # y # ss) \<longleftrightarrow> sg_to_ms x = sg_from_ms y \<and> contiguous (y # ss)"
| "contiguous _ \<longleftrightarrow> True"

lemma contiguous_span:
  "contiguous ss \<Longrightarrow> ss \<noteq> [] \<Longrightarrow>
   sum_list (map (\<lambda>s. sg_to_ms s - sg_from_ms s) ss) = sg_to_ms (last ss) - sg_from_ms (hd ss)"
  by (induction ss rule: contiguous.induct) auto

lemma contiguous_snoc:
  "contiguous (ss @ [x]) \<longleftrightarrow> contiguous ss \<and> (ss \<noteq> [] \<longrightarrow> sg_to_ms (last ss) = sg_from_ms x)"
  by (induction ss rule: contiguous.induct) auto

lemma hd_range_stretches: "rs \<noteq> [] \<Longrightarrow> range_stretches rs \<noteq> [] \<and> sg_from_ms (hd (range_stretches rs)) = fst (hd rs)"
  by (induction rs rule: range_stretches.induct) auto

lemma contiguous_Cons:
  "contiguous (x # ss) \<longleftrightarrow> (ss \<noteq> [] \<longrightarrow> sg_to_ms x = sg_from_ms (hd ss)) \<and> contiguous ss"
  by (cases ss) auto

lemma contiguous_range_stretches: "contiguous (range_stretches rs)"
  by (induction rs rule: range_stretches.induct) (simp_all add: contiguous_Cons hd_range_stretches)

lemma contiguous_get_stretches: "contiguous (get_stretches rs now)"
  by (auto simp: get_stretches_def Let_def contiguous_range_stretches contiguous_snoc last_opt_def split: option.split)

lemma sum_list_scaled:
  "sum_list (map (\<lambda>s. of_int (f s) / c * 100) xs) = (of_int (sum_list (map f xs)) / c * 100 :: number)"
  by (induction xs) (auto simp: add_divide_distrib distrib_right)

lemma widths_split:
  fixes ws :: "number list"
  assumes "length ws = length rs"
  shows "sum_list (map2 (\<lambda>w r. if r then m else w * c) ws rs) =
    of_nat (length (filter id rs)) * m + c * sum_list (map2 (\<lambda>w r. if r then 0 else w) ws rs)"
  using assms by (induction ws rs rule: list_induct2) (auto simp: algebra_simps)

lemma widths_with_minimum_length [simp]:
  "length ws = length ms \<Longrightarrow> length (get_widths_with_minimum ws ms) = length ws"
  by (simp add: get_widths_with_minimum_def Let_def)

lemma widths_with_minimum_sum:
  assumes "length ws = length ms" and "sum_list ws = 100"
  shows "sum_list (get_widths_with_minimum ws ms) = 100"
  using assms by (auto simp: get_widths_with_minimum_def Let_def widths_split)

lemma stretch_widths_sum:
  assumes "contiguous ss" and "ss \<noteq> []" and "sg_to_ms (last ss) - sg_from_ms (hd ss) > 0"
  shows "sum_list (stretch_widths ss) = 100"
proof -
  define total where "total = sg_to_ms (last ss) - sg_from_ms (hd ss)"
  have "sum_list (map (\<lambda>s. of_int (sg_to_ms s - sg_from_ms s) / of_int total * 100) ss) =
      (of_int total / of_int total * 100 :: number)"
    unfolding sum_list_scaled contiguous_span [OF assms(1,2)] total_def [symmetric] ..
  also have "\<dots> = 100" using assms(3) by (simp add: total_def del: of_int_diff)
  finally show ?thesis
    unfolding stretch_widths_def Let_def total_def by (intro widths_with_minimum_sum) simp_all
qed

lemma length_stretch_widths [simp]: "length (stretch_widths ss) = length ss"
  by (simp add: stretch_widths_def Let_def)

lemma truncate_to_segment [simp]: "stretch.truncate (to_segment p w s) = s"
  by (simp add: to_segment_def stretch.truncate_def)

lemma place_segments_shape:
  "length ss = length ws \<Longrightarrow> map sg_width_percent (place_segments p ss ws) = ws \<and>
   map stretch.truncate (place_segments p ss ws) = ss \<and>
   (\<forall>i<length ss. sg_start_percent (place_segments p ss ws ! i) = p + sum_list (take i ws))"
proof (induction p ss ws rule: place_segments.induct)
  case (1 p s ss w ws)
  then show ?case by (auto simp: nth_Cons split: nat.split) (simp add: to_segment_def)+
qed auto

lemma timeline_of_shape:
  "map stretch.truncate (timeline_of ss) = ss"
  by (auto simp: timeline_of_def place_segments_shape comp_def split: list.split)

lemma timeline_of_widths:
  assumes "contiguous ss" and "ss \<noteq> []"
  shows "sum_list (map sg_width_percent (timeline_of ss)) = 100"
proof (cases "sg_to_ms (last ss) - sg_from_ms (hd ss) \<le> 0")
  case True
  have "sum_list (map (sg_width_percent \<circ> to_segment 0 0) xs) = 0" for xs
    by (induction xs) (simp_all add: to_segment_def)
  with True assms(2) show ?thesis
    by (cases ss) (auto simp: timeline_of_def to_segment_def)
next
  case False
  with assms stretch_widths_sum [of ss] show ?thesis
    by (cases ss) (auto simp: timeline_of_def place_segments_shape)
qed

lemma read_ranges_hd:
  assumes "read_ranges ranges = Some rs" and "ranges \<noteq> []"
  shows "rs \<noteq> [] \<and> date_ms (tr_from (hd ranges)) = Some (fst (hd rs))"
  using assms by (cases ranges) (auto simp: read_ranges_def split: option.splits)

lemma read_ranges_length: "read_ranges ranges = Some rs \<Longrightarrow> length rs = length ranges"
proof (induction ranges arbitrary: rs)
  case (Cons r ranges)
  then show ?case by (auto simp: read_ranges_def split: option.splits)
qed (simp add: read_ranges_def)

lemma hd_get_stretches:
  assumes "rs \<noteq> []"
  shows "get_stretches rs now \<noteq> [] \<and> sg_from_ms (hd (get_stretches rs now)) = fst (hd rs)"
  using hd_range_stretches [OF assms]
  by (auto simp: get_stretches_def Let_def hd_append split: option.split)

lemma truncate_ends:
  assumes "map stretch.truncate segs = ss" and "ss \<noteq> []"
  shows "sg_from_ms (hd segs) = sg_from_ms (hd ss)" "sg_to_ms (last segs) = sg_to_ms (last ss)"
proof -
  have "segs \<noteq> []" using assms by auto
  then show "sg_from_ms (hd segs) = sg_from_ms (hd ss)" "sg_to_ms (last segs) = sg_to_ms (last ss)"
    by (simp_all add: hd_map last_map stretch.truncate_def flip: assms(1))
qed

lemma timeline_of_starts:
  assumes "ss \<noteq> []" and "sg_from_ms (hd ss) < sg_to_ms (last ss)" and "i < length ss"
  shows "sg_start_percent (timeline_of ss ! i) = sum_list (take i (map sg_width_percent (timeline_of ss)))"
  using assms place_segments_shape [of ss "stretch_widths ss" 0]
  by (cases ss) (simp_all add: timeline_of_def)

text \<open>The timeline's segments cover the time from the first restorable moment without a gap or an
  overlap and in order, each starts on the bar where the ones before it end, and together they fill
  the bar exactly.\<close>

theorem timeline_fills_the_bar:
  assumes "get_restore_timeline ranges now = Some segs" and "ranges \<noteq> []"
  shows "sum_list (map sg_width_percent segs) = 100 \<and> contiguous (map stretch.truncate segs) \<and>
    date_ms (tr_from (hd ranges)) = Some (sg_from_ms (hd segs)) \<and>
    (sg_from_ms (hd segs) < sg_to_ms (last segs) \<longrightarrow>
      (\<forall>i<length segs. sg_start_percent (segs ! i) = sum_list (take i (map sg_width_percent segs))))"
proof -
  from assms(1) obtain rs where rs: "read_ranges ranges = Some rs" and segs: "segs = timeline_of (get_stretches rs now)"
    by (auto simp: get_restore_timeline_def)
  define ss where "ss = get_stretches rs now"
  from read_ranges_hd [OF rs assms(2)] hd_get_stretches [of rs now]
  have ss: "ss \<noteq> []" "date_ms (tr_from (hd ranges)) = Some (sg_from_ms (hd ss))" by (auto simp: ss_def)
  have shape: "map stretch.truncate segs = ss" "length segs = length ss"
    using timeline_of_shape [of ss] by (simp_all add: segs ss_def) (metis length_map)
  note ends = truncate_ends [OF shape(1) ss(1)]
  show ?thesis
    using timeline_of_widths [of ss] timeline_of_starts [of ss] contiguous_get_stretches [of rs now] ss shape ends
    by (simp add: segs ss_def)
qed

section \<open>The shares stay on the bar\<close>

text \<open>Ranges in chronological order, as the service lists them.\<close>

definition chronological :: "(time_ms \<times> time_ms) list \<Rightarrow> bool" where
  "chronological rs \<longleftrightarrow> sorted (concat (map (\<lambda>(f, t). [f, t]) rs))"

lemma range_stretches_forward:
  "chronological rs \<Longrightarrow> s \<in> set (range_stretches rs) \<Longrightarrow> sg_from_ms s \<le> sg_to_ms s"
  by (induction rs rule: range_stretches.induct) (auto simp: chronological_def)

lemma get_stretches_forward:
  "chronological rs \<Longrightarrow> s \<in> set (get_stretches rs now) \<Longrightarrow> sg_from_ms s \<le> sg_to_ms s"
  by (auto simp: get_stretches_def Let_def range_stretches_forward split: option.splits if_splits)

lemma length_range_stretches: "length (range_stretches rs) = 2 * length rs - 1"
  by (induction rs rule: range_stretches.induct) auto

lemma length_get_stretches: "rs \<noteq> [] \<Longrightarrow> length (get_stretches rs now) \<le> 2 * length rs"
  by (cases rs) (auto simp: get_stretches_def Let_def length_range_stretches split: option.split)

lemma widths_with_minimum_nonneg:
  assumes "length ws = length ms" and "length ws \<le> 66" and "\<forall>w\<in>set ws. 0 \<le> w"
  shows "\<forall>w\<in>set (get_widths_with_minimum ws ms). 0 \<le> w"
proof -
  define raised where "raised = map2 (\<lambda>w m. m \<and> w < min_segment_width_percent) ws ms"
  define scale where "scale = (100 - of_nat (length (filter id raised)) * min_segment_width_percent) /
    sum_list (map2 (\<lambda>w r. if r then 0 else w) ws raised)"
  have "length (filter id raised) \<le> 66"
    using length_filter_le [of id raised] assms(1,2) by (simp add: raised_def)
  then have "(of_nat (length (filter id raised)) :: number) \<le> of_nat 66" by (simp only: of_nat_le_iff)
  then have "0 \<le> 100 - of_nat (length (filter id raised)) * min_segment_width_percent"
    by (simp add: min_segment_width_percent_def)
  moreover have "0 \<le> sum_list (map2 (\<lambda>w r. if r then 0 else w) ws raised)"
    using assms(3) by (intro sum_list_nonneg) (auto dest: set_zip_leftD)
  ultimately have "0 \<le> scale" by (simp add: scale_def)
  then have "\<forall>w\<in>set (map2 (\<lambda>w r. if r then min_segment_width_percent else w * scale) ws raised). 0 \<le> w"
    using assms(3) by (auto simp: min_segment_width_percent_def dest: set_zip_leftD)
  then show ?thesis
    using assms(3) by (simp add: get_widths_with_minimum_def Let_def flip: raised_def scale_def)
qed

lemma take_sum_bounds:
  fixes ws :: "number list"
  assumes "\<forall>w\<in>set ws. 0 \<le> w" and "i < length ws"
  shows "0 \<le> sum_list (take i ws) \<and> sum_list (take i ws) + ws ! i \<le> sum_list ws"
proof -
  have "sum_list ws = sum_list (take i ws) + (ws ! i + sum_list (drop (Suc i) ws))"
    using assms(2) by (metis id_take_nth_drop sum_list.append sum_list.Cons)
  moreover have "0 \<le> sum_list (drop (Suc i) ws)" "0 \<le> sum_list (take i ws)"
    using assms(1) by (auto intro!: sum_list_nonneg dest: in_set_dropD in_set_takeD)
  ultimately show ?thesis by simp
qed

lemma stretch_widths_nonneg:
  assumes "\<And>s. s \<in> set ss \<Longrightarrow> sg_from_ms s \<le> sg_to_ms s" and "length ss \<le> 66"
    and "0 < sg_to_ms (last ss) - sg_from_ms (hd ss)"
  shows "\<forall>w\<in>set (stretch_widths ss). 0 \<le> w"
  unfolding stretch_widths_def Let_def
  using assms by (intro widths_with_minimum_nonneg) (auto simp flip: of_int_diff intro!: divide_nonneg_nonneg)

lemma timeline_of_on_bar:
  assumes "contiguous ss" and "\<And>s. s \<in> set ss \<Longrightarrow> sg_from_ms s \<le> sg_to_ms s" and "length ss \<le> 66"
    and "seg \<in> set (timeline_of ss)"
  shows "0 \<le> sg_width_percent seg \<and> 0 \<le> sg_start_percent seg \<and> sg_start_percent seg + sg_width_percent seg \<le> 100"
proof (cases "sg_to_ms (last ss) - sg_from_ms (hd ss) \<le> 0")
  case True
  with assms(4) show ?thesis
    by (cases ss) (auto simp: timeline_of_def to_segment_def split: if_splits)
next
  case False
  have ne: "ss \<noteq> []" using assms(4) by (auto simp: timeline_of_def)
  have segs: "timeline_of ss = place_segments 0 ss (stretch_widths ss)"
    using False ne by (cases ss) (simp_all add: timeline_of_def)
  have shape: "map sg_width_percent (timeline_of ss) = stretch_widths ss" "length (timeline_of ss) = length ss"
    using place_segments_shape [of ss "stretch_widths ss" 0] length_stretch_widths [of ss]
    by (simp_all add: segs) (metis length_map)
  from assms(4) obtain i where i: "i < length ss" "seg = timeline_of ss ! i" by (auto simp: in_set_conv_nth shape(2))
  have w: "sg_width_percent seg = stretch_widths ss ! i"
    using i shape by (metis nth_map)
  have nonneg: "\<forall>w\<in>set (stretch_widths ss). 0 \<le> w" using assms(2,3) False by (intro stretch_widths_nonneg) auto
  have "sg_start_percent seg = sum_list (take i (stretch_widths ss))"
    using i timeline_of_starts [of ss i] False ne shape(1) by simp
  moreover have "sum_list (stretch_widths ss) = 100" using stretch_widths_sum [OF assms(1) ne] False by simp
  ultimately show ?thesis
    using take_sum_bounds [OF nonneg, of i] nonneg i(1) w by simp
qed

text \<open>C27: With up to 33 restorable ranges in chronological order every segment lies within the bar: it
  has a share of at least zero, starts at or after 0% and ends at or before 100%.\<close>

theorem timeline_segments_stay_on_the_bar:
  assumes "get_restore_timeline ranges now = Some segs" and "read_ranges ranges = Some rs"
    and "chronological rs" and "length ranges \<le> 33" and "seg \<in> set segs"
  shows "0 \<le> sg_width_percent seg \<and> 0 \<le> sg_start_percent seg \<and> sg_start_percent seg + sg_width_percent seg \<le> 100"
proof -
  have segs: "segs = timeline_of (get_stretches rs now)" using assms(1,2) by (simp add: get_restore_timeline_def)
  with assms(5) have "rs \<noteq> []" by (auto simp: get_stretches_def timeline_of_def)
  then have "length (get_stretches rs now) \<le> 66"
    using length_get_stretches [of rs now] assms(4) read_ranges_length [OF assms(2)] by simp
  with timeline_of_on_bar [of "get_stretches rs now" seg] contiguous_get_stretches
    get_stretches_forward [OF assms(3)] assms(5) segs
  show ?thesis by blast
qed

text \<open>Two limits of the widths, as the code has them: from 68 short stretches on, the shares kept for
  them exceed the bar and the others turn negative; and a stretch a little above the minimum share
  is scaled below it when another one is raised.\<close>

lemma many_short_stretches_overflow:
  "\<exists>seg\<in>set (timeline_of (get_stretches (map (\<lambda>i. (2 * i, 2 * i + 1)) [0..33] @ [(68, 1000000)]) (Some 1000000))).
     sg_width_percent seg < 0"
  by code_simp

lemma stretch_below_minimum:
  "\<exists>seg\<in>set (timeline_of (get_stretches [(0, 151), (152, 10000)] (Some 10000))).
     sg_kind seg \<noteq> SEG_NOT_SAVED_YET \<and> sg_width_percent seg < min_segment_width_percent"
  by code_simp

section \<open>What the sentences name\<close>

text \<open>The moment a parameter carries, read back from its text.\<close>

fun moment_ms :: "text_param option \<Rightarrow> js_date" where
  "moment_ms (Some (MomentParam m _)) = date_ms m"
| "moment_ms _ = None"

definition year_of_ms :: "time_ms \<Rightarrow> int" where
  "year_of_ms t = fst (civil_from_days (t div 86400000))"

lemma moment_param_reads_back:
  assumes "0 \<le> year_of_ms t" and "year_of_ms t \<le> 9999"
  shows "moment_ms (Some (get_moment_param same_day t now)) = Some t"
proof -
  obtain y mo d where "civil_from_days (t div 86400000) = (y, mo, d)" by (metis prod_cases3)
  with assms show ?thesis
    by (simp add: get_moment_param_def timestamp_roundtrip_lemma year_of_ms_def)
qed

text \<open>The sentence of a segment names exactly its two ends: the times written into it read back
  as the milliseconds the bar was drawn from.\<close>

theorem segment_sentence_names_its_ends:
  assumes "0 \<le> year_of_ms (sg_from_ms s)" and "year_of_ms (sg_from_ms s) \<le> 9999"
    and "0 \<le> year_of_ms (sg_to_ms s)" and "year_of_ms (sg_to_ms s) \<le> 9999"
  shows "moment_ms (map_of (the (mt_params (get_segment_range_text same_day s now))) ''from'') = Some (sg_from_ms s) \<and>
    moment_ms (map_of (the (mt_params (get_segment_range_text same_day s now))) ''to'') = Some (sg_to_ms s)"
  using moment_param_reads_back [OF assms(1,2)] moment_param_reads_back [OF assms(3,4)]
  by (simp add: get_segment_range_text_def get_range_params_def)

section \<open>Witnesses\<close>

definition sample_ranges :: "wal_time_range list" where
  "sample_ranges =
     [\<lparr>tr_from = ''2024-05-01T10:00:00Z'', tr_to = ''2024-05-01T10:00:30Z''\<rparr>,
      \<lparr>tr_from = ''2024-05-01T10:01:00Z'', tr_to = ''2024-05-01T10:02:00Z''\<rparr>]"

lemma sample_ranges_read:
  "read_ranges sample_ranges = Some [(1714557600000, 1714557630000), (1714557660000, 1714557720000)]"
  by code_simp

lemma sample_timeline:
  "get_restore_timeline sample_ranges (Some 1714557800000) =
     Some (timeline_of (get_stretches [(1714557600000, 1714557630000), (1714557660000, 1714557720000)] (Some 1714557800000)))"
  by (simp add: get_restore_timeline_def sample_ranges_read)

theorem timeline_fills_the_bar_witness:
  "sum_list (map sg_width_percent
     (timeline_of (get_stretches [(1714557600000, 1714557630000), (1714557660000, 1714557720000)] (Some 1714557800000)))) = 100"
  using timeline_fills_the_bar [OF sample_timeline] by (simp add: sample_ranges_def)

theorem timeline_segments_stay_on_the_bar_witness:
  "list_all (\<lambda>seg. 0 \<le> sg_width_percent seg \<and> sg_start_percent seg + sg_width_percent seg \<le> 100)
     (timeline_of (get_stretches [(1714557600000, 1714557630000), (1714557660000, 1714557720000)] (Some 1714557800000)))"
  unfolding list_all_iff
  using timeline_segments_stay_on_the_bar [OF sample_timeline sample_ranges_read]
  by (simp add: chronological_def sample_ranges_def)

theorem segment_sentence_names_its_ends_witness:
  "moment_ms (map_of (the (mt_params (get_segment_range_text (\<lambda>_ _. True)
     (to_segment 0 100 \<lparr>sg_kind = SEG_LOST, sg_from_ms = 1714557600000, sg_to_ms = 1714557630000\<rparr>) None))) ''from'') = Some 1714557600000"
proof -
  have "year_of_ms 1714557600000 = 2024" "year_of_ms 1714557630000 = 2024" by code_simp+
  then show ?thesis
    using segment_sentence_names_its_ends [of "to_segment 0 100 \<lparr>sg_kind = SEG_LOST, sg_from_ms = 1714557600000, sg_to_ms = 1714557630000\<rparr>"
        "\<lambda>_ _. True" None]
    by (simp add: to_segment_def)
qed

end
