(* ===== verification/Js_Text.thy ===== *)
theory Js_Text
  imports Prelude
begin

text \<open>
  Text of the JavaScript standard library, as the connection string parsers and the forms use it. A
  string is the list of its UTF-8 bytes. White space is what \<open>trim\<close> and \<open>\S\<close> take for it; a multi-byte
  space starts with a byte no other character ends with, so byte-wise scanning agrees with
  character-wise scanning. \<open>toLowerCase\<close> is given on ASCII, which decides every comparison made.
\<close>

section \<open>White space\<close>

abbreviation byte :: "nat \<Rightarrow> char" where
  "byte n \<equiv> char_of n"

abbreviation dquote :: char where "dquote \<equiv> CHR 0x22"

definition ascii_space :: "char \<Rightarrow> bool" where
  "ascii_space c \<longleftrightarrow> of_char c \<in> {9, 10, 11, 12, 13, 32 :: nat}"

text \<open>The other space characters: U+00A0, U+1680, U+2000 to U+200A, U+2028, U+2029, U+202F, U+205F,
  U+3000 and U+FEFF.\<close>

definition wide_spaces :: "nat list list" where
  "wide_spaces = [[194, 160], [225, 154, 128]] @ map (\<lambda>i. [226, 128, i]) ([128..<139] @ [168, 169, 175]) @
     [[226, 129, 159], [227, 128, 128], [239, 187, 191]]"

text \<open>The number of bytes of the space a text starts with, 0 when it starts with none.\<close>

definition space_length :: "string \<Rightarrow> nat" where
  "space_length s =
     (case s of [] \<Rightarrow> 0
      | c # _ \<Rightarrow>
         (if ascii_space c then 1
          else if (of_char c :: nat) < 128 then 0
          else case List.find (\<lambda>w. prefix (map byte w) s) wide_spaces of Some w \<Rightarrow> length w | None \<Rightarrow> 0))"

lemma wide_spaces_nonempty: "w \<in> set wide_spaces \<Longrightarrow> 0 < length w"
  by (auto simp: wide_spaces_def)

lemma space_length_le: "space_length s \<le> length s"
proof (cases s)
  case (Cons c t)
  have "length w \<le> length s" if "List.find (\<lambda>w. prefix (map byte w) s) wide_spaces = Some w" for w
    using that by (auto simp: find_Some_iff dest: prefix_length_le)
  with Cons show ?thesis by (auto simp: space_length_def split: option.split)
qed (simp add: space_length_def)

function trim_start :: "string \<Rightarrow> string" where
  "trim_start s = (if space_length s = 0 then s else trim_start (drop (space_length s) s))"
  by pat_completeness auto

lemma space_drop_shorter: "space_length s \<noteq> 0 \<Longrightarrow> length s - space_length s < length s"
  using space_length_le [of s] by linarith

termination trim_start
  by (relation "measure length") (simp_all add: space_drop_shorter)

declare trim_start.simps [simp del]

definition all_space :: "string \<Rightarrow> bool" where
  "all_space s \<longleftrightarrow> trim_start s = []"

fun trim_end :: "string \<Rightarrow> string" where
  "trim_end [] = []"
| "trim_end (c # s) = (if all_space (c # s) then [] else c # trim_end s)"

definition trim :: "string \<Rightarrow> string" where
  "trim s = trim_end (trim_start s)"

section \<open>Search and case\<close>

fun contains_text :: "string \<Rightarrow> string \<Rightarrow> bool" where
  "contains_text part [] \<longleftrightarrow> part = []"
| "contains_text part (c # s) \<longleftrightarrow> prefix part (c # s) \<or> contains_text part s"

definition to_lower_char :: "char \<Rightarrow> char" where
  "to_lower_char c = (let n = of_char c :: nat in if 65 \<le> n \<and> n \<le> 90 then byte (n + 32) else c)"

definition to_lower :: "string \<Rightarrow> string" where
  "to_lower s = map to_lower_char s"

definition is_digit :: "char \<Rightarrow> bool" where
  "is_digit c \<longleftrightarrow> (let n = of_char c :: nat in 48 \<le> n \<and> n \<le> 57)"

definition is_word :: "char \<Rightarrow> bool" where
  "is_word c \<longleftrightarrow> (let n = of_char c :: nat in
     48 \<le> n \<and> n \<le> 57 \<or> 65 \<le> n \<and> n \<le> 90 \<or> 97 \<le> n \<and> n \<le> 122 \<or> n = 95)"

definition is_lower :: "char \<Rightarrow> bool" where
  "is_lower c \<longleftrightarrow> (let n = of_char c :: nat in 97 \<le> n \<and> n \<le> 122)"

text \<open>The operator \<open>||\<close> on strings: an empty or missing text gives way.\<close>

definition or_text :: "string option \<Rightarrow> string option \<Rightarrow> string option" where
  "or_text a b = (case a of Some (c # s) \<Rightarrow> a | _ \<Rightarrow> b)"

definition truthy :: "string option \<Rightarrow> bool" where
  "truthy a \<longleftrightarrow> a \<noteq> None \<and> a \<noteq> Some []"

text \<open>\<open>parseInt(s, 10)\<close>, exact; \<open>None\<close> stands for NaN.\<close>

definition digits_value :: "string \<Rightarrow> int" where
  "digits_value ds = foldl (\<lambda>n c. n * 10 + (int (of_char c) - 48)) 0 ds"

definition parse_int :: "string \<Rightarrow> int option" where
  "parse_int s =
     (let t = trim_start s;
          (negative, body) = (case t of c # u \<Rightarrow> if c = CHR ''-'' then (True, u)
                                 else if c = CHR ''+'' then (False, u) else (False, t) | [] \<Rightarrow> (False, []));
          ds = takeWhile is_digit body
      in if ds = [] then None else Some (if negative then - digits_value ds else digits_value ds))"

section \<open>decodeURIComponent\<close>

definition hex_value :: "char \<Rightarrow> nat option" where
  "hex_value c = (let n = of_char c :: nat in
     if 48 \<le> n \<and> n \<le> 57 then Some (n - 48)
     else if 65 \<le> n \<and> n \<le> 70 then Some (n - 55)
     else if 97 \<le> n \<and> n \<le> 102 then Some (n - 87)
     else None)"

definition percent_byte :: "string \<Rightarrow> nat option" where
  "percent_byte s = (case s of p # a # b # _ \<Rightarrow>
       (if p = CHR ''%'' then (case (hex_value a, hex_value b) of (Some x, Some y) \<Rightarrow> Some (16 * x + y) | _ \<Rightarrow> None)
        else None)
     | _ \<Rightarrow> None)"

text \<open>The length a UTF-8 sequence has by its first byte, and whether a whole sequence is well formed
  (no overlong form, no surrogate, at most U+10FFFF).\<close>

definition sequence_length :: "nat \<Rightarrow> nat" where
  "sequence_length b = (if b < 128 then 1 else if 194 \<le> b \<and> b \<le> 223 then 2
     else if 224 \<le> b \<and> b \<le> 239 then 3 else if 240 \<le> b \<and> b \<le> 244 then 4 else 0)"

definition continuation :: "nat \<Rightarrow> bool" where
  "continuation b \<longleftrightarrow> 128 \<le> b \<and> b \<le> 191"

text \<open>\<open>length\<close> of a string counts UTF-16 code units: one for a sequence of up to three bytes, two for
  one of four.\<close>

definition utf16_length :: "string \<Rightarrow> nat" where
  "utf16_length s = (\<Sum>c\<leftarrow>s. if continuation (of_char c) then 0 else if 240 \<le> (of_char c :: nat) then 2 else 1)"

definition well_formed_sequence :: "nat list \<Rightarrow> bool" where
  "well_formed_sequence bs \<longleftrightarrow>
     (case bs of
        [] \<Rightarrow> False
      | b # rest \<Rightarrow> length bs = sequence_length b \<and> list_all continuation rest \<and>
          (b = 224 \<longrightarrow> rest ! 0 \<ge> 160) \<and> (b = 237 \<longrightarrow> rest ! 0 \<le> 159) \<and>
          (b = 240 \<longrightarrow> rest ! 0 \<ge> 144) \<and> (b = 244 \<longrightarrow> rest ! 0 \<le> 143))"

text \<open>\<open>n\<close> escapes in a row.\<close>

fun percent_bytes :: "nat \<Rightarrow> string \<Rightarrow> nat list option" where
  "percent_bytes 0 s = Some []"
| "percent_bytes (Suc n) s =
     (case percent_byte s of None \<Rightarrow> None | Some b \<Rightarrow> map_option ((#) b) (percent_bytes n (drop 3 s)))"

text \<open>An escape that is cut short or no UTF-8 makes the function throw, which is \<open>None\<close> here.\<close>

function decode_uri_component :: "string \<Rightarrow> string option" where
  "decode_uri_component [] = Some []"
| "decode_uri_component (c # s) =
     (if c \<noteq> CHR ''%'' then map_option ((#) c) (decode_uri_component s)
      else case percent_byte (c # s) of
        None \<Rightarrow> None
      | Some b \<Rightarrow>
          (case percent_bytes (sequence_length b) (c # s) of
             None \<Rightarrow> None
           | Some bs \<Rightarrow>
               (if well_formed_sequence bs
                then map_option ((@) (map byte bs)) (decode_uri_component (drop (3 * length bs) (c # s)))
                else None)))"
  by pat_completeness auto

termination decode_uri_component
  by (relation "measure length") (auto simp: well_formed_sequence_def split: list.splits)

text \<open>\<open>encodeURIComponent\<close> on ASCII, the writer of what is decoded.\<close>

definition unreserved :: "char \<Rightarrow> bool" where
  "unreserved c \<longleftrightarrow> is_word c \<or> c \<in> set ''-.!~*'' \<or> c = CHR 0x27 \<or> c \<in> set ''()''"

definition hex_digit :: "nat \<Rightarrow> char" where
  "hex_digit n = (if n < 10 then byte (48 + n) else byte (55 + n))"

definition escape_char :: "char \<Rightarrow> string" where
  "escape_char c = (if unreserved c then [c]
     else [CHR ''%'', hex_digit (of_char c div 16), hex_digit (of_char c mod 16)])"

definition encode_uri_component :: "string \<Rightarrow> string" where
  "encode_uri_component s = concat (map escape_char s)"

section \<open>Key and value pairs\<close>

text \<open>The value after \<open>=\<close>: a text in single quotes, or else a run without white space.\<close>

fun non_space_run :: "string \<Rightarrow> string \<times> string" where
  "non_space_run [] = ([], [])"
| "non_space_run (c # t) =
     (if space_length (c # t) = 0 then (let (r, u) = non_space_run t in (c # r, u)) else ([], c # t))"

definition read_value :: "string \<Rightarrow> (string \<times> string) option" where
  "read_value s =
     (let q = CHR 0x27;
          quoted = (case s of c # t \<Rightarrow> c = q \<and> q \<in> set t | [] \<Rightarrow> False)
      in if quoted
         then (let t = tl s in Some (takeWhile (\<lambda>c. c \<noteq> q) t, tl (dropWhile (\<lambda>c. c \<noteq> q) t)))
         else (let (r, u) = non_space_run s in if r = [] then None else Some (r, u)))"

lemma non_space_run_append: "fst (non_space_run s) @ snd (non_space_run s) = s"
  by (induction s) (auto split: prod.split)

lemma non_space_run_length: "length (snd (non_space_run s)) \<le> length s"
  by (metis non_space_run_append length_append le_add2)

lemma read_value_length: "read_value s = Some (v, rest) \<Longrightarrow> length rest \<le> length s"
proof (cases s)
  case (Cons c t)
  assume r: "read_value s = Some (v, rest)"
  have "length (dropWhile (\<lambda>c. c \<noteq> CHR 0x27) t) \<le> length t" by (rule length_dropWhile_le)
  with r Cons non_space_run_length [of s] show ?thesis
    by (auto simp: read_value_def Let_def split: if_splits prod.splits)
qed (auto simp: read_value_def)

text \<open>The matches of \<open>/(\w+)=(?:'([^']*)'|(\S+))/g\<close>, as key and value. A run of word characters that
  no \<open>=\<close> follows, or whose value is missing, gives no match at any of its positions.\<close>

function scan_pairs :: "string \<Rightarrow> (string \<times> string) list" where
  "scan_pairs s =
     (let w = takeWhile is_word s; rest = dropWhile is_word s
      in case rest of
           [] \<Rightarrow> []
         | c # u \<Rightarrow>
             if w \<noteq> [] \<and> c = CHR ''=''
             then (case read_value u of None \<Rightarrow> scan_pairs u | Some (v, u') \<Rightarrow> (w, v) # scan_pairs u')
             else scan_pairs u)"
  by pat_completeness auto

lemma dropWhile_Cons_shorter: "dropWhile P s = c # u \<Longrightarrow> length u < length s"
  by (metis length_dropWhile_le length_Cons Suc_le_lessD)

termination scan_pairs
  by (relation "measure length")
    (auto dest!: dropWhile_Cons_shorter [OF sym] read_value_length [OF sym] dropWhile_Cons_shorter read_value_length)

declare scan_pairs.simps [simp del]

text \<open>The object the matches are written into: a later value replaces an earlier one.\<close>

definition pair_value :: "(string \<times> string) list \<Rightarrow> string \<Rightarrow> string option" where
  "pair_value ps k = map_of (rev ps) k"

section \<open>Facts about trimming\<close>

text \<open>The bytes white space is made of.\<close>

definition space_bytes :: "char set" where
  "space_bytes = {c. ascii_space c} \<union> byte ` set (concat wide_spaces)"

lemma space_length_bytes: "set (take (space_length s) s) \<subseteq> space_bytes"
proof (cases s)
  case (Cons c t)
  have "set (take (length w) s) \<subseteq> space_bytes"
    if "List.find (\<lambda>w. prefix (map byte w) s) wide_spaces = Some w" for w
  proof -
    from that have w: "w \<in> set wide_spaces" "prefix (map byte w) s" by (auto simp: find_Some_iff)
    then have "take (length w) s = map byte w" by (auto elim: prefixE)
    with w(1) show ?thesis by (auto simp: space_bytes_def)
  qed
  with Cons show ?thesis by (auto simp: space_length_def space_bytes_def split: option.split)
qed simp

lemma trim_start_keeps: "c \<in> set s \<Longrightarrow> c \<notin> space_bytes \<Longrightarrow> c \<in> set (trim_start s)"
proof (induction s rule: trim_start.induct)
  case (1 s)
  show ?case
  proof (cases "space_length s = 0")
    case True
    with "1.prems"(1) show ?thesis by (simp add: trim_start.simps)
  next
    case False
    have "c \<in> set (drop (space_length s) s)"
      using "1.prems" space_length_bytes [of s]
      by (metis Un_iff append_take_drop_id set_append subsetD)
    with "1.IH" [OF False this "1.prems"(2)] False show ?thesis by (subst trim_start.simps) simp
  qed
qed

lemma not_all_space: "c \<in> set s \<Longrightarrow> c \<notin> space_bytes \<Longrightarrow> \<not> all_space s"
  unfolding all_space_def by (metis empty_iff list.set(1) trim_start_keeps)

lemma trim_end_keeps: "c \<notin> space_bytes \<Longrightarrow> trim_end (s @ [c]) = s @ [c]"
proof (induction s)
  case (Cons d s)
  then show ?case using not_all_space [of c "d # s @ [c]"] by simp
qed (use not_all_space [of c "[c]"] in simp)

lemma trim_framed:
  assumes "space_length (s @ [c]) = 0" and "c \<notin> space_bytes"
  shows "trim (s @ [c]) = s @ [c]"
  using assms by (simp add: trim_def trim_start.simps trim_end_keeps)

text \<open>The first byte tells whether a text starts with white space at all.\<close>

lemma space_length_not_space:
  assumes "c \<notin> space_bytes"
  shows "space_length (c # s) = 0"
proof -
  have "List.find (\<lambda>w. prefix (map byte w) (c # s)) wide_spaces = None"
  proof -
    have "\<not> prefix (map byte w) (c # s)" if w: "w \<in> set wide_spaces" for w
    proof
      assume "prefix (map byte w) (c # s)"
      moreover obtain b w' where "w = b # w'" using wide_spaces_nonempty [OF w] by (cases w) auto
      ultimately have "c = byte b" "b \<in> set w" by auto
      with w have "b \<in> set (concat wide_spaces)" by auto
      with assms \<open>c = byte b\<close> show False by (auto simp: space_bytes_def)
    qed
    then show ?thesis by (simp add: find_None_iff)
  qed
  with assms show ?thesis by (simp add: space_length_def space_bytes_def)
qed

lemma high_bytes: "b \<in> set (concat wide_spaces) \<Longrightarrow> 128 \<le> b \<and> b < 256"
  by (auto simp: wide_spaces_def)

lemma printable_not_space:
  assumes "33 \<le> (of_char c :: nat)" and "(of_char c :: nat) < 128"
  shows "c \<notin> space_bytes"
proof
  assume "c \<in> space_bytes"
  then consider "ascii_space c" | b where "b \<in> set (concat wide_spaces)" "c = byte b" by (auto simp: space_bytes_def)
  then show False
  proof cases
    case 1
    with assms(1) show False by (auto simp: ascii_space_def)
  next
    case 2
    with high_bytes [of b] have "(of_char c :: nat) = b" by simp
    with high_bytes [of b] 2 assms(2) show False by simp
  qed
qed

section \<open>Facts about the pair scan\<close>

lemma scan_quoted:
  assumes "k \<noteq> []" and "list_all is_word k" and "CHR 0x27 \<notin> set v"
  shows "scan_pairs (k @ CHR ''='' # CHR 0x27 # v @ CHR 0x27 # rest) = (k, v) # scan_pairs rest"
proof -
  let ?q = "CHR 0x27"
  have eq: "\<not> is_word CHR ''=''" by (simp add: is_word_def)
  have k: "takeWhile is_word (k @ CHR ''='' # u) = k" "dropWhile is_word (k @ CHR ''='' # u) = CHR ''='' # u" for u
    using assms(2) eq by (auto simp: takeWhile_append2 dropWhile_append2 list_all_iff)
  have nq: "\<And>c. c \<in> set v \<Longrightarrow> c \<noteq> ?q" using assms(3) by auto
  have v: "takeWhile (\<lambda>c. c \<noteq> ?q) (v @ ?q # rest) = v"
    by (subst takeWhile_append2) (simp_all add: nq)
  have v': "dropWhile (\<lambda>c. c \<noteq> ?q) (v @ ?q # rest) = ?q # rest"
    by (subst dropWhile_append2) (simp_all add: nq)
  have "read_value (?q # v @ ?q # rest) = Some (v, rest)"
    by (simp add: read_value_def Let_def v v')
  then show ?thesis
    using assms(1) by (subst scan_pairs.simps) (simp add: k Let_def)
qed

lemma scan_skip: "\<not> is_word c \<Longrightarrow> scan_pairs (c # s) = scan_pairs s"
  by (subst scan_pairs.simps) (simp add: Let_def)

lemma scan_nil [simp]: "scan_pairs [] = []"
  by (subst scan_pairs.simps) simp

section \<open>Decoding what was encoded\<close>

lemma hex_value_digit: "n < 16 \<Longrightarrow> hex_value (hex_digit n) = Some n"
  by (auto simp: hex_value_def hex_digit_def Let_def)

lemma escape_char_simple: "unreserved c \<Longrightarrow> escape_char c = [c]"
  by (simp add: escape_char_def)

lemma decode_escape_char:
  assumes "(of_char c :: nat) < 128"
  shows "decode_uri_component (escape_char c @ s) = map_option ((#) c) (decode_uri_component s)"
proof (cases "unreserved c")
  case True
  then have "c \<noteq> CHR ''%''" by (auto simp: unreserved_def is_word_def)
  with True show ?thesis by (simp add: escape_char_def)
next
  case False
  let ?n = "of_char c :: nat"
  have p: "percent_byte (escape_char c @ s) = Some ?n"
    using False assms by (simp add: escape_char_def percent_byte_def hex_value_digit)
  have b: "percent_bytes (sequence_length ?n) (escape_char c @ s) = Some [?n]"
    using assms p by (simp add: sequence_length_def)
  have w: "well_formed_sequence [?n]" using assms by (simp add: well_formed_sequence_def sequence_length_def)
  have cons: "(@) [c] = (#) c" by (simp add: fun_eq_iff)
  have e: "escape_char c @ s = CHR ''%'' # hex_digit (?n div 16) # hex_digit (?n mod 16) # s"
    using False by (simp add: escape_char_def)
  show ?thesis
    using p b w cons unfolding e by simp
qed

theorem decode_encode:
  assumes "\<forall>c\<in>set s. (of_char c :: nat) < 128"
  shows "decode_uri_component (encode_uri_component s) = Some s"
  using assms by (induction s) (simp_all add: encode_uri_component_def decode_escape_char)

lemma unreserved_printable: "unreserved d \<Longrightarrow> 33 \<le> (of_char d :: nat) \<and> (of_char d :: nat) < 128"
  by (auto simp: unreserved_def is_word_def Let_def)

lemma unreserved_no_delimiter: "unreserved d \<Longrightarrow> d \<notin> set '':/?@# ''"
  by (auto simp: unreserved_def is_word_def Let_def)

lemma unreserved_hex_digit: "n < 16 \<Longrightarrow> unreserved (hex_digit n)"
  by (auto simp: unreserved_def is_word_def hex_digit_def Let_def)

lemma encode_chars:
  assumes "\<forall>c\<in>set s. (of_char c :: nat) < 128" and "d \<in> set (encode_uri_component s)"
  shows "unreserved d \<or> d = CHR ''%''"
  using assms by (auto simp: encode_uri_component_def escape_char_def unreserved_hex_digit split: if_splits)

lemma encode_no_delimiter:
  assumes "\<forall>c\<in>set s. (of_char c :: nat) < 128" and "d \<in> set (encode_uri_component s)"
  shows "d \<notin> set '':/?@# ''" and "d \<notin> space_bytes"
  using encode_chars [OF assms] unreserved_no_delimiter [of d] unreserved_printable [of d] printable_not_space [of d]
  by auto

lemma encode_nonempty: "s \<noteq> [] \<Longrightarrow> encode_uri_component s \<noteq> []"
  by (cases s) (auto simp: encode_uri_component_def escape_char_def)

end
