(* ===== verification/Connection_Uri.thy ===== *)
theory Connection_Uri
  imports Js_Text Wal_Model
begin

text \<open>
  What the three connection string parsers of \<open>src/frontend/src/entities/databases/model\<close> share: the
  parse error, the browser's URL parser and query reader (parameters of the model: neither is code
  of the repository), and the regular expressions they apply, written as deterministic scans: every
  group stops at a character it cannot contain, so no other split of the text can match.
\<close>

text \<open>The parts of a parsed URL the parsers read.\<close>

record url_parts =
  up_hostname :: string
  up_port :: string
  up_username :: string
  up_password :: string
  up_pathname :: string
  up_search :: string

text \<open>
  The browser: \<open>new URL(s)\<close>, where \<open>None\<close> is the exception it throws, and
  \<open>new URLSearchParams(query).get(name)\<close>, where \<open>None\<close> is null.
\<close>

record browser =
  br_new_url :: "string \<Rightarrow> url_parts option"
  br_query_get :: "string \<Rightarrow> string \<Rightarrow> string option"

record parse_error =
  pe_error :: localized_text
  pe_format :: "string option"

definition plain_error :: "string \<Rightarrow> parse_error" where
  "plain_error k = \<lparr>pe_error = \<lparr>lt_key = ''databases.connectionString.errors.'' @ k, lt_params = []\<rparr>, pe_format = None\<rparr>"

definition format_error :: "string \<Rightarrow> string \<Rightarrow> parse_error" where
  "format_error f k = (plain_error k)\<lparr>pe_format := Some f\<rparr>"

definition jdbc_format_error :: "string \<Rightarrow> parse_error" where
  "jdbc_format_error hint =
     \<lparr>pe_error = \<lparr>lt_key = ''databases.connectionString.errors.jdbc.invalidFormat'',
                  lt_params = [(''expectedFormat'', TStr hint)]\<rparr>,
      pe_format = Some ''JDBC''\<rparr>"

section \<open>Regular expressions as scans\<close>

text \<open>\<open>([^...]+)\<close>: a non-empty run of characters outside a set.\<close>

definition run_outside :: "string \<Rightarrow> string \<Rightarrow> (string \<times> string) option" where
  "run_outside stops s =
     (let r = takeWhile (\<lambda>c. c \<notin> set stops) s
      in if r = [] then None else Some (r, dropWhile (\<lambda>c. c \<notin> set stops) s))"

definition after_char :: "char \<Rightarrow> string \<Rightarrow> string option" where
  "after_char c s = (case s of d # t \<Rightarrow> if d = c then Some t else None | [] \<Rightarrow> None)"

definition after_text :: "string \<Rightarrow> string \<Rightarrow> string option" where
  "after_text p s = (if prefix p s then Some (drop (length p) s) else None)"

text \<open>\<open>(.*)$\<close>: the rest, unless it contains a line terminator.\<close>

fun has_line_end :: "string \<Rightarrow> bool" where
  "has_line_end [] \<longleftrightarrow> False"
| "has_line_end (c # s) \<longleftrightarrow> c = byte 10 \<or> c = byte 13 \<or>
     prefix (map byte [226, 128, 168]) (c # s) \<or> prefix (map byte [226, 128, 169]) (c # s) \<or> has_line_end s"

record address_match =
  am_host :: string
  am_port :: "string option"
  am_database :: string
  am_query :: "string option"

text \<open>\<open>([^:/?]+):?(\d+)?\/([^?]+)(?:\?(.*))?$\<close>, the common end of the patterns.\<close>

definition end_of_address :: "string \<Rightarrow> string option \<Rightarrow> string \<Rightarrow> string \<Rightarrow> address_match option" where
  "end_of_address host port db s =
     (case s of
        [] \<Rightarrow> Some \<lparr>am_host = host, am_port = port, am_database = db, am_query = None\<rparr>
      | _ # query \<Rightarrow>
          (if has_line_end query then None
           else Some \<lparr>am_host = host, am_port = port, am_database = db, am_query = Some query\<rparr>))"

definition match_address :: "string \<Rightarrow> address_match option" where
  "match_address s =
     Option.bind (run_outside '':/?'' s) (\<lambda>(host, s1).
       let s2 = nullish (after_char CHR '':'' s1) s1;
           digits = takeWhile is_digit s2;
           port = (if digits = [] then None else Some digits)
       in Option.bind (after_char CHR ''/'' (dropWhile is_digit s2)) (\<lambda>s3.
          Option.bind (run_outside ''?'' s3) (\<lambda>(db, s4). end_of_address host port db s4)))"

record azure_match =
  az_user :: string
  az_password :: string
  az_address :: address_match

text \<open>\<open>([^@:]+)@([^:]+):([^@]+)@\<close> and the address: a user name that itself carries \<open>@server\<close>.\<close>

definition match_azure :: "string \<Rightarrow> azure_match option" where
  "match_azure s =
     Option.bind (run_outside ''@:'' s) (\<lambda>(user, s1).
     Option.bind (after_char CHR ''@'' s1) (\<lambda>s2.
     Option.bind (run_outside '':'' s2) (\<lambda>(server, s3).
     Option.bind (after_char CHR '':'' s3) (\<lambda>s4.
     Option.bind (run_outside ''@'' s4) (\<lambda>(password, s5).
     Option.bind (after_char CHR ''@'' s5) (\<lambda>s6.
       map_option (\<lambda>a. \<lparr>az_user = user, az_password = password, az_address = a\<rparr>) (match_address s6)))))))"

text \<open>\<open>[a-z]+:\/\/\<close>\<close>

definition after_scheme :: "string \<Rightarrow> string option" where
  "after_scheme s =
     (if takeWhile is_lower s = [] then None else after_text ''://'' (dropWhile is_lower s))"

text \<open>The port of a match: the pattern admits digits only.\<close>

definition port_or :: "int \<Rightarrow> string option \<Rightarrow> int option" where
  "port_or standard p = (if truthy p then parse_int (the p) else Some standard)"

text \<open>The query without its leading question mark.\<close>

definition strip_question :: "string \<Rightarrow> string" where
  "strip_question q = (case q of c # t \<Rightarrow> if c = CHR ''?'' then t else q | [] \<Rightarrow> [])"

section \<open>Facts about the scans\<close>

lemma run_outsideD:
  "run_outside stops s = Some (r, rest) \<Longrightarrow> r \<noteq> [] \<and> s = r @ rest \<and> (\<forall>c\<in>set r. c \<notin> set stops) \<and>
     (rest \<noteq> [] \<longrightarrow> hd rest \<in> set stops)"
  by (auto simp: run_outside_def Let_def split: if_splits dest: set_takeWhileD hd_dropWhile)

lemma run_outside_append [simp]:
  assumes "r \<noteq> []" and "\<forall>c\<in>set r. c \<notin> set stops" and "c \<in> set stops"
  shows "run_outside stops (r @ c # rest) = Some (r, c # rest)"
  using assms by (auto simp: run_outside_def Let_def takeWhile_append2 dropWhile_append2)

lemma run_outside_all [simp]:
  assumes "r \<noteq> []" and "\<forall>c\<in>set r. c \<notin> set stops"
  shows "run_outside stops r = Some (r, [])"
proof -
  have "takeWhile (\<lambda>c. c \<notin> set stops) r = r" "dropWhile (\<lambda>c. c \<notin> set stops) r = []"
    using assms(2) by (simp_all add: takeWhile_eq_all_conv dropWhile_eq_Nil_conv)
  with assms(1) show ?thesis by (simp only: run_outside_def Let_def if_False)
qed

lemma after_char_simps [simp]:
  "after_char c (c # s) = Some s" "c \<noteq> d \<Longrightarrow> after_char c (d # s) = None" "after_char c [] = None"
  by (simp_all add: after_char_def)

lemma end_of_addressD: "end_of_address h p d s = Some a \<Longrightarrow> am_host a = h \<and> am_database a = d \<and> am_port a = p"
  by (auto simp: end_of_address_def split: list.splits if_splits)

lemma match_address_nonempty:
  "match_address s = Some a \<Longrightarrow> am_host a \<noteq> [] \<and> am_database a \<noteq> []"
  unfolding match_address_def Let_def
  by (auto simp: bind_eq_Some_conv dest!: run_outsideD end_of_addressD)

lemma match_azure_nonempty:
  "match_azure s = Some m \<Longrightarrow> az_user m \<noteq> [] \<and> az_password m \<noteq> [] \<and>
     am_host (az_address m) \<noteq> [] \<and> am_database (az_address m) \<noteq> []"
  by (auto simp: match_azure_def bind_eq_Some_conv dest!: run_outsideD match_address_nonempty)

lemma decode_nonempty: "s \<noteq> [] \<Longrightarrow> decode_uri_component s = Some t \<Longrightarrow> t \<noteq> []"
  by (cases s) (auto simp: well_formed_sequence_def split: option.splits if_splits list.splits)

end
