(* ===== verification/Postgres_Strings.thy ===== *)
theory Postgres_Strings
  imports Connection_Uri
begin

text \<open>
  The PostgreSQL connection string parser
  (\<open>src/frontend/src/entities/databases/model/postgresql/PostgresqlConnectionStringParser.ts\<close>): the
  choice of the format, the three formats, and the SSL mode. The browser's URL and query readers are
  the parameter \<open>br\<close>. A port is \<open>None\<close> where \<open>parseInt\<close> answers NaN.
\<close>

datatype ssl_mode = SslDisable | SslRequire | SslVerifyCa | SslVerifyFull

primrec ssl_mode_text :: "ssl_mode \<Rightarrow> string" where
  "ssl_mode_text SslDisable = ''disable''"
| "ssl_mode_text SslRequire = ''require''"
| "ssl_mode_text SslVerifyCa = ''verify-ca''"
| "ssl_mode_text SslVerifyFull = ''verify-full''"

record postgres_connection =
  pc_host :: string
  pc_port :: "int option"
  pc_username :: string
  pc_password :: string
  pc_database :: string
  pc_ssl_mode :: ssl_mode

section \<open>The SSL mode\<close>

definition parse_ssl_mode :: "string option \<Rightarrow> ssl_mode option" where
  "parse_ssl_mode mode =
     (case map_option to_lower mode of
        None \<Rightarrow> None
      | Some m \<Rightarrow>
          (if m = ''require'' then Some SslRequire
           else if m = ''verify-ca'' then Some SslVerifyCa
           else if m = ''verify-full'' then Some SslVerifyFull
           else if m = ''disable'' \<or> m = ''prefer'' \<or> m = ''allow'' then Some SslDisable
           else None))"

text \<open>\<open>/^\d{1,3}(\.\d{1,3}){3}$/\<close>\<close>

fun split_at_char :: "char \<Rightarrow> string \<Rightarrow> string list" where
  "split_at_char c [] = [[]]"
| "split_at_char c (d # s) =
     (if d = c then [] # split_at_char c s
      else case split_at_char c s of [] \<Rightarrow> [[d]] | p # ps \<Rightarrow> (d # p) # ps)"

definition is_ipv4 :: "string \<Rightarrow> bool" where
  "is_ipv4 s \<longleftrightarrow> (let ps = split_at_char CHR ''.'' s
     in length ps = 4 \<and> list_all (\<lambda>p. 1 \<le> length p \<and> length p \<le> 3 \<and> list_all is_digit p) ps)"

definition derive_ssl_mode_from_host :: "string \<Rightarrow> ssl_mode" where
  "derive_ssl_mode_from_host host =
     (let bare = to_lower (trim host)
      in if bare = ''localhost'' \<or> is_ipv4 bare then SslDisable else SslRequire)"

definition resolve_ssl_mode :: "string option \<Rightarrow> string \<Rightarrow> ssl_mode" where
  "resolve_ssl_mode mode host = nullish (parse_ssl_mode mode) (derive_ssl_mode_from_host host)"

definition check_ssl_mode :: "browser \<Rightarrow> string option \<Rightarrow> string \<Rightarrow> ssl_mode" where
  "check_ssl_mode br query host =
     resolve_ssl_mode (br_query_get br (strip_question (nullish query [])) ''sslmode'') host"

section \<open>The formats\<close>

definition is_libpq_format :: "string \<Rightarrow> bool" where
  "is_libpq_format s \<longleftrightarrow> \<not> contains_text ''://'' s \<and>
     (contains_text ''host='' s \<or> contains_text ''dbname='' s) \<and> contains_text ''='' s"

text \<open>The three texts every match decodes; one that cannot be decoded makes the whole parse throw.\<close>

definition decode_three :: "string \<Rightarrow> string \<Rightarrow> string \<Rightarrow> (string \<times> string \<times> string) option" where
  "decode_three a b c =
     Option.bind (decode_uri_component a) (\<lambda>x. Option.bind (decode_uri_component b) (\<lambda>y.
       map_option (\<lambda>z. (x, y, z)) (decode_uri_component c)))"

definition azure_scheme :: "string \<Rightarrow> string option" where
  "azure_scheme s =
     (case after_text ''postgresql://'' s of Some t \<Rightarrow> Some t | None \<Rightarrow> after_text ''postgres://'' s)"

definition parse_postgres_uri :: "browser \<Rightarrow> string \<Rightarrow> parse_error + postgres_connection" where
  "parse_postgres_uri br s =
     (let failed = Inl (format_error ''URI'' ''parseFailed'')
      in case Option.bind (azure_scheme s) match_azure of
        Some m \<Rightarrow>
          (let a = az_address m; mode = check_ssl_mode br (am_query a) (am_host a)
           in case decode_three (az_user m) (az_password m) (am_database a) of
                None \<Rightarrow> failed
              | Some (user, password, db) \<Rightarrow>
                  Inr \<lparr>pc_host = am_host a, pc_port = port_or 5432 (am_port a), pc_username = user,
                       pc_password = password, pc_database = db, pc_ssl_mode = mode\<rparr>)
      | None \<Rightarrow>
          (case br_new_url br s of
             None \<Rightarrow> failed
           | Some url \<Rightarrow>
               (case decode_three (up_username url) (up_password url) (drop 1 (up_pathname url)) of
                  None \<Rightarrow> failed
                | Some (user, password, db) \<Rightarrow>
                    (if up_hostname url = [] then Inl (plain_error ''hostMissing'')
                     else if user = [] then Inl (plain_error ''usernameMissing'')
                     else if password = [] then Inl (plain_error ''passwordMissing'')
                     else if db = [] then Inl (plain_error ''databaseMissing'')
                     else Inr \<lparr>pc_host = up_hostname url, pc_port = port_or 5432 (Some (up_port url)),
                               pc_username = user, pc_password = password, pc_database = db,
                               pc_ssl_mode = check_ssl_mode br (Some (up_search url)) (up_hostname url)\<rparr>))))"

definition parse_postgres_jdbc :: "browser \<Rightarrow> string \<Rightarrow> parse_error + postgres_connection" where
  "parse_postgres_jdbc br s =
     (case Option.bind (after_text ''jdbc:postgresql://'' s) match_address of
        None \<Rightarrow> Inl (jdbc_format_error ''jdbc:postgresql://host:port/database?user=x&password=y'')
      | Some a \<Rightarrow>
          (if \<not> truthy (am_query a) then Inl (format_error ''JDBC'' ''jdbc.queryParametersMissing'')
           else let query = the (am_query a);
                    user = br_query_get br query ''user'';
                    password = br_query_get br query ''password'';
                    mode = check_ssl_mode br (Some query) (am_host a)
                in if \<not> truthy user then Inl (format_error ''JDBC'' ''jdbc.usernameMissing'')
                   else if \<not> truthy password then Inl (format_error ''JDBC'' ''jdbc.passwordMissing'')
                   else case decode_three (the user) (the password) (am_database a) of
                       None \<Rightarrow> Inl (format_error ''JDBC'' ''jdbc.parseFailed'')
                     | Some (u, p, db) \<Rightarrow>
                         Inr \<lparr>pc_host = am_host a, pc_port = port_or 5432 (am_port a), pc_username = u,
                              pc_password = p, pc_database = db, pc_ssl_mode = mode\<rparr>))"

definition parse_libpq :: "string \<Rightarrow> parse_error + postgres_connection" where
  "parse_libpq s =
     (let ps = scan_pairs s;
          host = or_text (pair_value ps ''host'') (pair_value ps ''hostaddr'');
          port = pair_value ps ''port'';
          db = or_text (pair_value ps ''dbname'') (pair_value ps ''database'');
          user = or_text (pair_value ps ''user'') (pair_value ps ''username'');
          password = pair_value ps ''password'';
          mode = pair_value ps ''sslmode''
      in if \<not> truthy host then Inl (format_error ''libpq'' ''keyValue.hostMissing'')
         else if \<not> truthy user then Inl (format_error ''libpq'' ''keyValue.usernameMissing'')
         else if \<not> truthy password then Inl (format_error ''libpq'' ''keyValue.passwordMissing'')
         else if \<not> truthy db then Inl (format_error ''libpq'' ''libpq.databaseMissing'')
         else Inr \<lparr>pc_host = the host, pc_port = port_or 5432 port, pc_username = the user,
                   pc_password = the password, pc_database = the db,
                   pc_ssl_mode = resolve_ssl_mode mode (the host)\<rparr>)"

definition parse_postgres :: "browser \<Rightarrow> string \<Rightarrow> parse_error + postgres_connection" where
  "parse_postgres br text =
     (let s = trim text
      in if s = [] then Inl (plain_error ''empty'')
         else if prefix ''jdbc:postgresql://'' s then parse_postgres_jdbc br s
         else if is_libpq_format s then parse_libpq s
         else if prefix ''postgresql://'' s \<or> prefix ''postgres://'' s then parse_postgres_uri br s
         else Inl (plain_error ''unrecognizedFormat''))"

section \<open>What a parsed connection is\<close>

lemma truthyD: "truthy a \<Longrightarrow> \<exists>s. a = Some s \<and> s \<noteq> []"
  by (cases a) (auto simp: truthy_def)

lemma decode_threeD:
  "decode_three a b c = Some (x, y, z) \<Longrightarrow> decode_uri_component a = Some x \<and>
     decode_uri_component b = Some y \<and> decode_uri_component c = Some z"
  by (auto simp: decode_three_def bind_eq_Some_conv)

lemma decode_three_nonempty:
  "decode_three a b c = Some (x, y, z) \<Longrightarrow> a \<noteq> [] \<Longrightarrow> b \<noteq> [] \<Longrightarrow> c \<noteq> [] \<Longrightarrow> x \<noteq> [] \<and> y \<noteq> [] \<and> z \<noteq> []"
  by (auto dest!: decode_threeD dest: decode_nonempty)

definition complete_connection :: "postgres_connection \<Rightarrow> bool" where
  "complete_connection c \<longleftrightarrow> pc_host c \<noteq> [] \<and> pc_username c \<noteq> [] \<and> pc_password c \<noteq> [] \<and> pc_database c \<noteq> []"

lemma parse_postgres_uri_complete: "parse_postgres_uri br s = Inr c \<Longrightarrow> complete_connection c"
  by (auto simp: parse_postgres_uri_def complete_connection_def Let_def bind_eq_Some_conv
      dest!: match_azure_nonempty decode_three_nonempty split: option.splits prod.splits if_splits)

lemma parse_postgres_jdbc_complete: "parse_postgres_jdbc br s = Inr c \<Longrightarrow> complete_connection c"
  by (auto simp: parse_postgres_jdbc_def complete_connection_def Let_def bind_eq_Some_conv
      dest!: match_address_nonempty truthyD decode_three_nonempty split: option.splits prod.splits if_splits)

lemma parse_libpq_complete: "parse_libpq s = Inr c \<Longrightarrow> complete_connection c"
  by (auto simp: parse_libpq_def complete_connection_def Let_def dest!: truthyD split: if_splits)

lemma parse_postgres_complete: "parse_postgres br s = Inr c \<Longrightarrow> complete_connection c"
  by (auto simp: parse_postgres_def Let_def parse_postgres_uri_complete parse_postgres_jdbc_complete
      parse_libpq_complete split: if_splits)

text \<open>A text that is accepted names everything a connection needs: host, user, password and
  database are never empty, in whichever format and whatever the browser's URL parser answers.\<close>

theorem accepted_postgres_string_is_complete:
  assumes "parse_postgres br s = Inr c"
  shows "pc_host c \<noteq> [] \<and> pc_username c \<noteq> [] \<and> pc_password c \<noteq> [] \<and> pc_database c \<noteq> [] \<and> trim s \<noteq> []"
  using parse_postgres_complete [OF assms] assms
  by (auto simp: complete_connection_def parse_postgres_def split: if_splits)

section \<open>Encryption is the default\<close>

definition is_local_host :: "string \<Rightarrow> bool" where
  "is_local_host h \<longleftrightarrow> to_lower (trim h) = ''localhost'' \<or> is_ipv4 (to_lower (trim h))"

definition asks_no_ssl :: "string option \<Rightarrow> bool" where
  "asks_no_ssl m \<longleftrightarrow> (\<exists>t. m = Some t \<and> to_lower t \<in> {''disable'', ''prefer'', ''allow''})"

definition asks_ssl :: "string option \<Rightarrow> bool" where
  "asks_ssl m \<longleftrightarrow> (\<exists>t. m = Some t \<and> to_lower t \<in> {''require'', ''verify-ca'', ''verify-full''})"

lemma resolve_ssl_mode_disabled:
  "resolve_ssl_mode m h = SslDisable \<longleftrightarrow> asks_no_ssl m \<or> \<not> asks_ssl m \<and> is_local_host h"
  by (cases m) (auto simp: resolve_ssl_mode_def parse_ssl_mode_def derive_ssl_mode_from_host_def asks_no_ssl_def
      asks_ssl_def is_local_host_def Let_def nullish_def)

lemma ssl_asked_text: "asks_ssl m \<Longrightarrow> ssl_mode_text (resolve_ssl_mode m h) = to_lower (the m)"
  by (auto simp: asks_ssl_def resolve_ssl_mode_def parse_ssl_mode_def)

text \<open>A key and value string is connected without SSL exactly when its sslmode asks for that, or
  when it asks for no known mode and the host is localhost or an IPv4 address; a mode that demands
  SSL is taken as it was asked for.\<close>

theorem libpq_ssl_mode_is_safe:
  assumes "parse_libpq s = Inr c"
  shows "(pc_ssl_mode c = SslDisable \<longleftrightarrow>
      asks_no_ssl (pair_value (scan_pairs s) ''sslmode'') \<or>
      \<not> asks_ssl (pair_value (scan_pairs s) ''sslmode'') \<and> is_local_host (pc_host c)) \<and>
    (asks_ssl (pair_value (scan_pairs s) ''sslmode'') \<longrightarrow>
      ssl_mode_text (pc_ssl_mode c) = to_lower (the (pair_value (scan_pairs s) ''sslmode'')))"
  using assms
  by (auto simp: parse_libpq_def Let_def resolve_ssl_mode_disabled ssl_asked_text split: if_splits)

section \<open>A written connection string reads back\<close>

definition libpq_field :: "string \<Rightarrow> string \<Rightarrow> string" where
  "libpq_field k v = k @ ''='' @ [CHR 0x27] @ v @ [CHR 0x27]"

definition libpq_string :: "string \<Rightarrow> string \<Rightarrow> string \<Rightarrow> string \<Rightarrow> string \<Rightarrow> string" where
  "libpq_string host port db user password =
     libpq_field ''host'' host @ '' '' @ libpq_field ''port'' port @ '' '' @ libpq_field ''dbname'' db @ '' '' @
     libpq_field ''user'' user @ '' '' @ libpq_field ''password'' password"

lemma scan_libpq_field:
  assumes "k \<noteq> []" and "list_all is_word k" and "CHR 0x27 \<notin> set v"
  shows "scan_pairs (libpq_field k v @ '' '' @ rest) = (k, v) # scan_pairs rest"
    and "scan_pairs (libpq_field k v) = [(k, v)]"
  using scan_quoted [OF assms, of "'' '' @ rest"] scan_quoted [OF assms, of "[]"] scan_skip [of "CHR '' ''" rest]
  by (simp_all add: libpq_field_def is_word_def)

lemma scan_libpq_string:
  assumes "\<forall>v\<in>{host, port, db, user, password}. CHR 0x27 \<notin> set v"
  shows "scan_pairs (libpq_string host port db user password) =
    [(''host'', host), (''port'', port), (''dbname'', db), (''user'', user), (''password'', password)]"
  using assms unfolding libpq_string_def
  by (simp add: scan_libpq_field [unfolded append.simps] scan_libpq_field is_word_def del: append.simps append_Cons)

lemma trim_libpq_string: "trim (libpq_string host port db user password) = libpq_string host port db user password"
proof -
  have "libpq_string host port db user password =
      (''host='' @ [CHR 0x27] @ host @ [CHR 0x27] @ '' '' @ libpq_field ''port'' port @ '' '' @ libpq_field ''dbname'' db @ '' '' @
       libpq_field ''user'' user @ '' password='' @ [CHR 0x27] @ password) @ [CHR 0x27]" (is "_ = ?s @ [?q]")
    by (simp add: libpq_string_def libpq_field_def)
  moreover have "trim (?s @ [?q]) = ?s @ [?q]"
    by (rule trim_framed) (simp_all add: space_length_not_space printable_not_space)
  ultimately show ?thesis by simp
qed

lemma libpq_string_format:
  assumes "\<not> contains_text ''://'' (libpq_string host port db user password)"
  shows "is_libpq_format (libpq_string host port db user password)"
proof -
  have "contains_text ''host='' (libpq_string host port db user password)"
    "contains_text ''='' (libpq_string host port db user password)"
    by (simp_all add: libpq_string_def libpq_field_def)
  with assms show ?thesis by (simp add: is_libpq_format_def)
qed

text \<open>A key and value string written with quoted values is read back field by field, blanks and
  equals signs in the values included, as long as no value holds a quote or a "://".\<close>

theorem libpq_string_reads_back:
  assumes "\<forall>v\<in>{host, port, db, user, password}. CHR 0x27 \<notin> set v"
    and "host \<noteq> []" "db \<noteq> []" "user \<noteq> []" "password \<noteq> []" and "parse_int port = Some p"
    and "\<not> contains_text ''://'' (libpq_string host port db user password)"
  shows "parse_postgres br (libpq_string host port db user password) =
    Inr \<lparr>pc_host = host, pc_port = Some p, pc_username = user, pc_password = password, pc_database = db,
         pc_ssl_mode = resolve_ssl_mode None host\<rparr>"
proof -
  let ?s = "libpq_string host port db user password"
  have port: "port \<noteq> []" using assms(6) by (auto simp: parse_int_def trim_start.simps space_length_def)
  have s: "?s \<noteq> []" "\<not> prefix ''jdbc:postgresql://'' ?s" by (simp_all add: libpq_string_def libpq_field_def)
  obtain hc ht dc dt uc ut pc pt where ne: "host = hc # ht" "db = dc # dt" "user = uc # ut" "password = pc # pt"
    using assms(2-5) by (metis list.exhaust)
  have "parse_libpq ?s = Inr \<lparr>pc_host = host, pc_port = Some p, pc_username = user, pc_password = password,
      pc_database = db, pc_ssl_mode = resolve_ssl_mode None host\<rparr>"
    unfolding parse_libpq_def scan_libpq_string [OF assms(1)] Let_def
    using port assms(6) by (simp add: pair_value_def or_text_def truthy_def port_or_def ne)
  with s libpq_string_format [OF assms(7)] show ?thesis
    by (simp add: parse_postgres_def trim_libpq_string Let_def)
qed

definition azure_string :: "string \<Rightarrow> string \<Rightarrow> string \<Rightarrow> string \<Rightarrow> string \<Rightarrow> string \<Rightarrow> string" where
  "azure_string user server password host port db =
     ''postgresql://'' @ encode_uri_component user @ ''@'' @ server @ '':'' @ encode_uri_component password @
     ''@'' @ host @ '':'' @ port @ ''/'' @ encode_uri_component db"

definition ascii :: "string \<Rightarrow> bool" where
  "ascii s \<longleftrightarrow> (\<forall>c\<in>set s. (of_char c :: nat) < 128)"

lemma encoded_free_of: "ascii s \<Longrightarrow> c \<in> set '':/?@# '' \<Longrightarrow> c \<notin> set (encode_uri_component s)"
  using encode_no_delimiter(1) [of s c] by (auto simp: ascii_def)

lemma match_address_writes:
  assumes "host \<noteq> []" and "\<forall>c\<in>set host. c \<notin> set '':/?''" and "port \<noteq> []" and "list_all is_digit port"
    and "db \<noteq> []" and "CHR ''?'' \<notin> set db"
  shows "match_address (host @ CHR '':'' # port @ CHR ''/'' # db) =
     Some \<lparr>am_host = host, am_port = Some port, am_database = db, am_query = None\<rparr>"
proof -
  have slash: "\<not> is_digit CHR ''/''" by (simp add: is_digit_def)
  have d: "takeWhile is_digit (port @ CHR ''/'' # db) = port" "dropWhile is_digit (port @ CHR ''/'' # db) = CHR ''/'' # db"
    using assms(4) slash by (auto simp: takeWhile_append2 dropWhile_append2 list_all_iff)
  have host: "run_outside '':/?'' (host @ CHR '':'' # port @ CHR ''/'' # db) = Some (host, CHR '':'' # port @ CHR ''/'' # db)"
    using assms(1,2) by (intro run_outside_append) simp_all
  have db: "run_outside ''?'' db = Some (db, [])" using assms(5,6) by (intro run_outside_all) auto
  show ?thesis unfolding match_address_def host using assms(3) by (simp add: d db Let_def end_of_address_def)
qed

lemma match_azure_writes:
  assumes "user \<noteq> []" and "\<forall>c\<in>set user. c \<notin> set ''@:''" and "server \<noteq> []" and "CHR '':'' \<notin> set server"
    and "password \<noteq> []" and "CHR ''@'' \<notin> set password"
  shows "match_azure (user @ CHR ''@'' # server @ CHR '':'' # password @ CHR ''@'' # rest) =
     map_option (\<lambda>a. \<lparr>az_user = user, az_password = password, az_address = a\<rparr>) (match_address rest)"
proof -
  have 1: "run_outside ''@:'' (user @ CHR ''@'' # u) = Some (user, CHR ''@'' # u)" for u
    using assms(1,2) by (intro run_outside_append) simp_all
  have 2: "run_outside '':'' (server @ CHR '':'' # u) = Some (server, CHR '':'' # u)" for u
    using assms(3,4) by (intro run_outside_append) auto
  have 3: "run_outside ''@'' (password @ CHR ''@'' # u) = Some (password, CHR ''@'' # u)" for u
    using assms(5,6) by (intro run_outside_append) auto
  show ?thesis by (simp add: match_azure_def 1 2 3)
qed

lemma trim_azure_string:
  assumes "ascii db" and "db \<noteq> []"
  shows "trim (azure_string user server password host port db) = azure_string user server password host port db"
proof -
  obtain e c where e: "encode_uri_component db = e @ [c]"
    using encode_nonempty [OF assms(2)] by (metis rev_exhaust)
  then have "c \<notin> space_bytes" using encode_no_delimiter(2) [of db c] assms(1) by (simp add: ascii_def)
  moreover have "azure_string user server password host port db = (''postgresql://'' @ encode_uri_component user @ ''@'' @
      server @ '':'' @ encode_uri_component password @ ''@'' @ host @ '':'' @ port @ ''/'' @ e) @ [c]"
    by (simp add: azure_string_def e)
  moreover have "space_length (CHR ''p'' # x) = 0" for x by (simp add: space_length_not_space printable_not_space)
  ultimately show ?thesis
    using trim_framed [of "''postgresql://'' @ encode_uri_component user @ ''@'' @
      server @ '':'' @ encode_uri_component password @ ''@'' @ host @ '':'' @ port @ ''/'' @ e" c] by simp
qed

text \<open>In the form with \<open>@server\<close> in the user name, a user, a password and a database of any ASCII
  characters survive being written percent-encoded into the URI and read back, delimiters included.\<close>

theorem azure_string_reads_back:
  assumes "ascii user" "ascii password" "ascii db" and "user \<noteq> []" "password \<noteq> []" "db \<noteq> []"
    and "server \<noteq> []" "CHR '':'' \<notin> set server" and "host \<noteq> []" "\<forall>c\<in>set host. c \<notin> set '':/?''"
    and "port \<noteq> []" "list_all is_digit port"
  shows "parse_postgres br (azure_string user server password host port db) =
    Inr \<lparr>pc_host = host, pc_port = port_or 5432 (Some port), pc_username = user, pc_password = password,
         pc_database = db, pc_ssl_mode = check_ssl_mode br None host\<rparr>"
proof -
  let ?s = "azure_string user server password host port db"
  have s: "?s \<noteq> []" "\<not> prefix ''jdbc:postgresql://'' ?s" "prefix ''postgresql://'' ?s" "contains_text ''://'' ?s"
    by (simp_all add: azure_string_def)
  have after: "azure_scheme ?s = Some (encode_uri_component user @ CHR ''@'' # server @ CHR '':'' #
      encode_uri_component password @ CHR ''@'' # host @ CHR '':'' # port @ CHR ''/'' # encode_uri_component db)"
    by (simp add: azure_scheme_def after_text_def azure_string_def)
  have m: "Option.bind (azure_scheme ?s) match_azure =
      Some \<lparr>az_user = encode_uri_component user, az_password = encode_uri_component password,
        az_address = \<lparr>am_host = host, am_port = Some port, am_database = encode_uri_component db, am_query = None\<rparr>\<rparr>"
    unfolding after using assms
    by (simp add: match_azure_writes match_address_writes encode_nonempty encoded_free_of)
      (subst match_azure_writes; auto simp: match_address_writes encode_nonempty encoded_free_of dest: encoded_free_of)
  have "decode_three (encode_uri_component user) (encode_uri_component password) (encode_uri_component db) =
      Some (user, password, db)"
    using assms(1-3) by (simp add: decode_three_def decode_encode ascii_def)
  then have "parse_postgres_uri br ?s =
    Inr \<lparr>pc_host = host, pc_port = port_or 5432 (Some port), pc_username = user, pc_password = password,
         pc_database = db, pc_ssl_mode = check_ssl_mode br None host\<rparr>"
    by (simp add: parse_postgres_uri_def m Let_def)
  with s show ?thesis
    by (simp add: parse_postgres_def trim_azure_string [OF assms(3,6)] is_libpq_format_def Let_def)
qed

section \<open>The JDBC values are decoded twice\<close>

text \<open>\<open>URLSearchParams\<close> already answers decoded values, and the parser decodes them again: a password
  that holds a percent sign, written correctly as \<open>100%25\<close> and answered as \<open>100%\<close>, is refused.\<close>

lemma jdbc_percent_password_refused:
  assumes "after_text ''jdbc:postgresql://'' s = Some t" and "match_address t = Some a" and "am_query a = Some q" "q \<noteq> []"
    and "br_query_get br q ''user'' = Some user" "user \<noteq> []" and "br_query_get br q ''password'' = Some ''100%''"
  shows "parse_postgres_jdbc br s = Inl (format_error ''JDBC'' ''jdbc.parseFailed'')"
proof -
  have "decode_three user ''100%'' db = None" for db
    by (simp add: decode_three_def percent_byte_def bind_eq_None_conv)
  with assms show ?thesis by (simp add: parse_postgres_jdbc_def truthy_def Let_def)
qed

definition sample_browser :: browser where
  "sample_browser = \<lparr>br_new_url = (\<lambda>_. None), br_query_get = (\<lambda>q k. None)\<rparr>"

section \<open>Witnesses\<close>

lemma sample_parse_int: "parse_int ''6543'' = Some 6543"
  by (simp add: parse_int_def trim_start.simps space_length_def ascii_space_def is_digit_def digits_value_def)

lemma sample_scan:
  "scan_pairs ''host=db dbname=d user=u password=p sslmode=disable'' =
     [(''host'', ''db''), (''dbname'', ''d''), (''user'', ''u''), (''password'', ''p''), (''sslmode'', ''disable'')]"
  by (simp add: scan_pairs.simps is_word_def read_value_def Let_def space_length_def ascii_space_def)

lemmas sample_fields = pair_value_def or_text_def truthy_def port_or_def

lemma sample_libpq:
  "parse_libpq ''host=db dbname=d user=u password=p sslmode=disable'' =
     Inr \<lparr>pc_host = ''db'', pc_port = Some 5432, pc_username = ''u'', pc_password = ''p'',
          pc_database = ''d'', pc_ssl_mode = SslDisable\<rparr>"
  by (simp add: parse_libpq_def sample_scan sample_fields resolve_ssl_mode_def parse_ssl_mode_def to_lower_def
      to_lower_char_def)

lemma sample_not_local: "\<not> is_local_host ''db''"
  by (simp add: is_local_host_def trim_def trim_start.simps all_space_def space_length_def ascii_space_def
      to_lower_def to_lower_char_def is_ipv4_def)

theorem libpq_ssl_mode_is_safe_witness:
  "asks_no_ssl (pair_value (scan_pairs ''host=db dbname=d user=u password=p sslmode=disable'') ''sslmode'')"
  using libpq_ssl_mode_is_safe [OF sample_libpq] sample_not_local by simp

theorem libpq_string_reads_back_witness:
  "parse_postgres sample_browser (libpq_string ''h'' ''6543'' ''my db'' ''u'' ''a=b c'') =
    Inr \<lparr>pc_host = ''h'', pc_port = Some 6543, pc_username = ''u'', pc_password = ''a=b c'', pc_database = ''my db'',
         pc_ssl_mode = resolve_ssl_mode None ''h''\<rparr>"
  using libpq_string_reads_back [of "''h''" "''6543''" "''my db''" "''u''" "''a=b c''" 6543 sample_browser] sample_parse_int
  by (simp add: libpq_string_def libpq_field_def)

theorem azure_string_reads_back_witness:
  "\<exists>c. parse_postgres sample_browser (azure_string ''me'' ''srv'' ''p@ss:w/ord?'' ''h'' ''5432'' ''d'') = Inr c \<and>
     pc_password c = ''p@ss:w/ord?''"
  using azure_string_reads_back [of "''me''" "''p@ss:w/ord?''" "''d''" "''srv''" "''h''" "''5432''" sample_browser]
  by (simp add: ascii_def is_digit_def)

theorem accepted_postgres_string_is_complete_witness:
  "\<exists>c. parse_postgres sample_browser (libpq_string ''h'' ''6543'' ''my db'' ''u'' ''a=b c'') = Inr c \<and> pc_password c \<noteq> []"
proof -
  have "\<exists>c. parse_postgres sample_browser (libpq_string ''h'' ''6543'' ''my db'' ''u'' ''a=b c'') = Inr c"
    using sample_parse_int scan_libpq_string [of "''h''" "''6543''" "''my db''" "''u''" "''a=b c''"]
      libpq_string_format [of "''h''" "''6543''" "''my db''" "''u''" "''a=b c''"]
    by (simp add: parse_postgres_def trim_libpq_string parse_libpq_def sample_fields Let_def)
      (simp add: libpq_string_def libpq_field_def)
  then show ?thesis using accepted_postgres_string_is_complete by blast
qed

end
