(* ===== verification/Other_Strings.thy ===== *)
theory Other_Strings
  imports Postgres_Strings
begin

text \<open>
  The MySQL/MariaDB and MongoDB connection string parsers
  (\<open>src/frontend/src/entities/databases/model\<close>: mysql/MySqlCompatibleConnectionStringParser.ts,
  mongodb/MongodbConnectionStringParser.ts), and the contract the three parsers share.
\<close>

section \<open>MySQL and MariaDB\<close>

datatype mysql_type = MYSQL | MARIADB

record mysql_connection =
  my_host :: string
  my_port :: "int option"
  my_username :: string
  my_password :: string
  my_database :: string
  my_is_https :: bool

text \<open>\<open>mysql\<close>, and \<open>(?:mariadb|mysql)\<close> for MariaDB.\<close>

primrec uri_schemes :: "mysql_type \<Rightarrow> string list" where
  "uri_schemes MYSQL = [''mysql'']"
| "uri_schemes MARIADB = [''mariadb'', ''mysql'']"

primrec jdbc_format_hint :: "mysql_type \<Rightarrow> string" where
  "jdbc_format_hint MYSQL = ''jdbc:mysql://host:port/database?user=x&password=y''"
| "jdbc_format_hint MARIADB = ''jdbc:mariadb://host:port/database?user=x&password=y''"

definition is_key_value_format :: "string \<Rightarrow> bool" where
  "is_key_value_format s \<longleftrightarrow> \<not> contains_text ''://'' s \<and>
     (contains_text ''host='' s \<or> contains_text ''database='' s) \<and> contains_text ''='' s"

definition is_ssl_enabled :: "string option \<Rightarrow> bool" where
  "is_ssl_enabled v \<longleftrightarrow> truthy v \<and>
     to_lower (the v) \<in> set [''true'', ''required'', ''verify_ca'', ''verify_identity'', ''yes'', ''1'']"

definition check_mysql_ssl :: "browser \<Rightarrow> string option \<Rightarrow> bool" where
  "check_mysql_ssl br query =
     (if \<not> truthy query then False
      else let get = br_query_get br (strip_question (the query))
           in if truthy (get ''ssl'') then is_ssl_enabled (get ''ssl'')
              else if truthy (get ''sslMode'') then is_ssl_enabled (get ''sslMode'')
              else if truthy (get ''ssl-mode'') then is_ssl_enabled (get ''ssl-mode'')
              else if truthy (get ''useSSL'') then is_ssl_enabled (get ''useSSL'')
              else if truthy (get ''sslaccept'') then to_lower (the (get ''sslaccept'')) = ''strict''
              else False)"

definition parse_mysql_uri :: "browser \<Rightarrow> string \<Rightarrow> parse_error + mysql_connection" where
  "parse_mysql_uri br s =
     (let failed = Inl (format_error ''URI'' ''parseFailed'')
      in case Option.bind (after_scheme s) match_azure of
        Some m \<Rightarrow>
          (let a = az_address m
           in case decode_three (az_user m) (az_password m) (am_database a) of
                None \<Rightarrow> failed
              | Some (user, password, db) \<Rightarrow>
                  Inr \<lparr>my_host = am_host a, my_port = port_or 3306 (am_port a), my_username = user,
                       my_password = password, my_database = db, my_is_https = check_mysql_ssl br (am_query a)\<rparr>)
      | None \<Rightarrow>
          (case br_new_url br s of
             None \<Rightarrow> failed
           | Some url \<Rightarrow>
               (case decode_three (up_username url) (up_password url) (drop 1 (up_pathname url)) of
                  None \<Rightarrow> failed
                | Some (user, password, db) \<Rightarrow>
                    (if up_hostname url = [] then Inl (plain_error ''hostMissing'')
                     else if user = [] then Inl (plain_error ''usernameMissing'')
                     else if password = [] then Inl (plain_error ''passwordMissing'')
                     else if db = [] then Inl (plain_error ''databaseMissing'')
                     else Inr \<lparr>my_host = up_hostname url, my_port = port_or 3306 (Some (up_port url)),
                               my_username = user, my_password = password, my_database = db,
                               my_is_https = check_mysql_ssl br (Some (up_search url))\<rparr>))))"

definition parse_mysql_jdbc :: "browser \<Rightarrow> string \<Rightarrow> mysql_type \<Rightarrow> parse_error + mysql_connection" where
  "parse_mysql_jdbc br s type =
     (case Option.bind (Option.bind (after_text ''jdbc:'' s) after_scheme) match_address of
        None \<Rightarrow> Inl (jdbc_format_error (jdbc_format_hint type))
      | Some a \<Rightarrow>
          (if \<not> truthy (am_query a) then Inl (format_error ''JDBC'' ''jdbc.queryParametersMissing'')
           else let query = the (am_query a);
                    user = br_query_get br query ''user'';
                    password = br_query_get br query ''password''
                in if \<not> truthy user then Inl (format_error ''JDBC'' ''jdbc.usernameMissing'')
                   else if \<not> truthy password then Inl (format_error ''JDBC'' ''jdbc.passwordMissing'')
                   else case decode_three (the user) (the password) (am_database a) of
                       None \<Rightarrow> Inl (format_error ''JDBC'' ''jdbc.parseFailed'')
                     | Some (u, p, db) \<Rightarrow>
                         Inr \<lparr>my_host = am_host a, my_port = port_or 3306 (am_port a), my_username = u,
                              my_password = p, my_database = db, my_is_https = check_mysql_ssl br (Some query)\<rparr>))"

definition parse_mysql_key_value :: "string \<Rightarrow> parse_error + mysql_connection" where
  "parse_mysql_key_value s =
     (let ps = scan_pairs s;
          host = or_text (pair_value ps ''host'') (pair_value ps ''hostaddr'');
          port = pair_value ps ''port'';
          db = or_text (pair_value ps ''database'') (pair_value ps ''dbname'');
          user = or_text (pair_value ps ''user'') (pair_value ps ''username'');
          password = pair_value ps ''password'';
          ssl = or_text (or_text (or_text (pair_value ps ''ssl'') (pair_value ps ''sslMode''))
                  (pair_value ps ''ssl-mode'')) (pair_value ps ''useSSL'')
      in if \<not> truthy host then Inl (format_error ''key-value'' ''keyValue.hostMissing'')
         else if \<not> truthy user then Inl (format_error ''key-value'' ''keyValue.usernameMissing'')
         else if \<not> truthy password then Inl (format_error ''key-value'' ''keyValue.passwordMissing'')
         else if \<not> truthy db then Inl (format_error ''key-value'' ''keyValue.databaseMissing'')
         else Inr \<lparr>my_host = the host, my_port = port_or 3306 port, my_username = the user,
                   my_password = the password, my_database = the db, my_is_https = is_ssl_enabled ssl\<rparr>)"

definition has_scheme :: "string \<Rightarrow> mysql_type \<Rightarrow> string \<Rightarrow> bool" where
  "has_scheme start type s \<longleftrightarrow> (\<exists>sch\<in>set (uri_schemes type). prefix (start @ sch @ ''://'') s)"

definition parse_mysql :: "browser \<Rightarrow> mysql_type \<Rightarrow> string \<Rightarrow> parse_error + mysql_connection" where
  "parse_mysql br type text =
     (let s = trim text
      in if s = [] then Inl (plain_error ''empty'')
         else if has_scheme ''jdbc:'' type s then parse_mysql_jdbc br s type
         else if is_key_value_format s then parse_mysql_key_value s
         else if has_scheme [] type s then parse_mysql_uri br s
         else Inl (plain_error ''unrecognizedFormat''))"

section \<open>MongoDB\<close>

record mongo_connection =
  mo_host :: string
  mo_port :: "int option"
  mo_username :: string
  mo_password :: string
  mo_database :: string
  mo_auth_database :: string
  mo_use_tls :: bool
  mo_is_srv :: bool
  mo_is_direct_connection :: bool

definition default_auth_database :: string where
  "default_auth_database = ''admin''"

definition is_password_placeholder :: "string option \<Rightarrow> bool" where
  "is_password_placeholder p \<longleftrightarrow> truthy p \<and> trim (the p) \<in> {''<db_password>'', ''<password>''}"

definition is_tls_enabled :: "string option \<Rightarrow> bool" where
  "is_tls_enabled v \<longleftrightarrow> truthy v \<and> to_lower (the v) \<in> set [''true'', ''yes'', ''1'']"

definition get_auth_source :: "browser \<Rightarrow> string \<Rightarrow> string option" where
  "get_auth_source br query =
     (if query = [] then None
      else let get = br_query_get br (strip_question query)
           in or_text (or_text (get ''authSource'') (get ''authDatabase'')) None)"

definition check_direct_connection :: "browser \<Rightarrow> string \<Rightarrow> bool" where
  "check_direct_connection br query \<longleftrightarrow>
     query \<noteq> [] \<and> br_query_get br (strip_question query) ''directConnection'' = Some ''true''"

definition check_tls_mode :: "browser \<Rightarrow> string \<Rightarrow> bool" where
  "check_tls_mode br query =
     (if query = [] then False
      else let get = br_query_get br (strip_question query)
           in if truthy (get ''tls'') then is_tls_enabled (get ''tls'')
              else if truthy (get ''ssl'') then is_tls_enabled (get ''ssl'')
              else False)"

definition parse_mongo_uri :: "browser \<Rightarrow> string \<Rightarrow> parse_error + mongo_connection" where
  "parse_mongo_uri br s =
     (let srv = prefix ''mongodb+srv://'' s; failed = Inl (format_error ''URI'' ''parseFailed'')
      in case br_new_url br s of
        None \<Rightarrow> failed
      | Some url \<Rightarrow>
          (case decode_three (up_username url) (up_password url) (drop 1 (up_pathname url)) of
             None \<Rightarrow> failed
           | Some (user, raw_password, db) \<Rightarrow>
               (let password = (if is_password_placeholder (Some raw_password) then [] else raw_password);
                    auth = the (or_text (get_auth_source br (up_search url)) (Some default_auth_database));
                    tls = (if srv then True else check_tls_mode br (up_search url))
                in if up_hostname url = [] then Inl (plain_error ''hostMissing'')
                   else if user = [] then Inl (plain_error ''usernameMissing'')
                   else Inr \<lparr>mo_host = up_hostname url, mo_port = port_or 27017 (Some (up_port url)),
                             mo_username = user, mo_password = password, mo_database = db, mo_auth_database = auth,
                             mo_use_tls = tls, mo_is_srv = srv,
                             mo_is_direct_connection = check_direct_connection br (up_search url)\<rparr>)))"

definition parse_mongo_key_value :: "string \<Rightarrow> parse_error + mongo_connection" where
  "parse_mongo_key_value s =
     (let ps = scan_pairs s;
          host = or_text (pair_value ps ''host'') (pair_value ps ''hostaddr'');
          port = pair_value ps ''port'';
          db = or_text (or_text (pair_value ps ''database'') (pair_value ps ''dbname'')) (pair_value ps ''db'');
          user = or_text (pair_value ps ''user'') (pair_value ps ''username'');
          raw_password = pair_value ps ''password'';
          password = (if is_password_placeholder raw_password then [] else the (or_text raw_password (Some [])));
          auth = the (or_text (or_text (pair_value ps ''authSource'') (pair_value ps ''authDatabase''))
                   (Some default_auth_database));
          tls = or_text (pair_value ps ''tls'') (pair_value ps ''ssl'')
      in if \<not> truthy host then Inl (format_error ''key-value'' ''keyValue.hostMissing'')
         else if \<not> truthy user then Inl (format_error ''key-value'' ''keyValue.usernameMissing'')
         else Inr \<lparr>mo_host = the host, mo_port = port_or 27017 port, mo_username = the user,
                   mo_password = password, mo_database = the (or_text db (Some [])), mo_auth_database = auth,
                   mo_use_tls = is_tls_enabled tls, mo_is_srv = False,
                   mo_is_direct_connection = (pair_value ps ''directConnection'' = Some ''true'')\<rparr>)"

definition parse_mongo :: "browser \<Rightarrow> string \<Rightarrow> parse_error + mongo_connection" where
  "parse_mongo br text =
     (let s = trim text
      in if s = [] then Inl (plain_error ''empty'')
         else if is_key_value_format s then parse_mongo_key_value s
         else if prefix ''mongodb://'' s \<or> prefix ''mongodb+srv://'' s then parse_mongo_uri br s
         else Inl (plain_error ''unrecognizedFormat''))"

section \<open>The contract of the parsers\<close>

text \<open>What the form relies on: an accepted text names a host and a user, a blank one is refused as empty,
  and white space around the text makes no difference.\<close>

locale connection_parser =
  fixes parse :: "string \<Rightarrow> parse_error + 'c"
    and host_of :: "'c \<Rightarrow> string"
    and user_of :: "'c \<Rightarrow> string"
  assumes accepted_complete: "parse s = Inr c \<Longrightarrow> host_of c \<noteq> [] \<and> user_of c \<noteq> []"
    and blank_refused: "trim s = [] \<Longrightarrow> parse s = Inl (plain_error ''empty'')"
    and trimmed_alike: "trim s = trim t \<Longrightarrow> parse s = parse t"
begin

lemma accepted_not_blank: "parse s = Inr c \<Longrightarrow> trim s \<noteq> []"
  using blank_refused by fastforce

lemma accepted_after_trim: "parse s = Inr c \<Longrightarrow> trim t = trim s \<Longrightarrow> parse t = Inr c \<and> host_of c \<noteq> []"
  using accepted_complete trimmed_alike [of t s] by simp

end

lemma or_textD: "truthy (or_text a b) \<Longrightarrow> \<exists>s. or_text a b = Some s \<and> s \<noteq> []"
  by (rule truthyD)

lemma parse_mysql_uri_complete: "parse_mysql_uri br s = Inr c \<Longrightarrow>
    my_host c \<noteq> [] \<and> my_username c \<noteq> [] \<and> my_password c \<noteq> [] \<and> my_database c \<noteq> []"
  by (auto simp: parse_mysql_uri_def Let_def bind_eq_Some_conv
      dest!: match_azure_nonempty decode_three_nonempty split: option.splits prod.splits if_splits)

lemma parse_mysql_jdbc_complete: "parse_mysql_jdbc br s type = Inr c \<Longrightarrow>
    my_host c \<noteq> [] \<and> my_username c \<noteq> [] \<and> my_password c \<noteq> [] \<and> my_database c \<noteq> []"
  by (auto simp: parse_mysql_jdbc_def Let_def bind_eq_Some_conv
      dest!: match_address_nonempty truthyD decode_three_nonempty split: option.splits prod.splits if_splits)

lemma parse_mysql_key_value_complete: "parse_mysql_key_value s = Inr c \<Longrightarrow>
    my_host c \<noteq> [] \<and> my_username c \<noteq> [] \<and> my_password c \<noteq> [] \<and> my_database c \<noteq> []"
  by (auto simp: parse_mysql_key_value_def Let_def dest!: truthyD split: if_splits)

lemma parse_mysql_complete: "parse_mysql br type s = Inr c \<Longrightarrow>
    my_host c \<noteq> [] \<and> my_username c \<noteq> [] \<and> my_password c \<noteq> [] \<and> my_database c \<noteq> []"
  unfolding parse_mysql_def Let_def
  using parse_mysql_uri_complete parse_mysql_jdbc_complete parse_mysql_key_value_complete
  by (auto split: if_splits)

lemma parse_mongo_complete: "parse_mongo br s = Inr c \<Longrightarrow> mo_host c \<noteq> [] \<and> mo_username c \<noteq> []"
  by (auto simp: parse_mongo_def parse_mongo_uri_def parse_mongo_key_value_def Let_def dest!: truthyD
      split: if_splits option.splits prod.splits)

interpretation postgres_parser: connection_parser "parse_postgres br" pc_host pc_username for br
proof
  show "pc_host c \<noteq> [] \<and> pc_username c \<noteq> []" if "parse_postgres br s = Inr c" for s c
    using parse_postgres_complete [OF that] by (simp add: complete_connection_def)
qed (simp_all add: parse_postgres_def)

interpretation mysql_parser: connection_parser "parse_mysql br type" my_host my_username for br type
proof
  show "my_host c \<noteq> [] \<and> my_username c \<noteq> []" if "parse_mysql br type s = Inr c" for s c
    using parse_mysql_complete [OF that] by simp
qed (simp_all add: parse_mysql_def)

interpretation mongo_parser: connection_parser "parse_mongo br" mo_host mo_username for br
proof
  show "mo_host c \<noteq> [] \<and> mo_username c \<noteq> []" if "parse_mongo br s = Inr c" for s c
    using parse_mongo_complete [OF that] by simp
qed (simp_all add: parse_mongo_def)

section \<open>What an accepted string says\<close>

lemma has_scheme_mariadb: "has_scheme st MYSQL s \<Longrightarrow> has_scheme st MARIADB s"
  by (auto simp: has_scheme_def)

lemma mysql_jdbc_hint_only: "parse_mysql_jdbc br s type = Inr c \<Longrightarrow> parse_mysql_jdbc br s type' = Inr c"
  by (auto simp: parse_mysql_jdbc_def Let_def split: option.splits prod.splits if_splits)

lemma scheme_prefix_letters:
  "has_scheme ''jdbc:'' type s \<Longrightarrow> \<not> has_scheme [] type' s"
  by (cases type; cases type') (auto simp: has_scheme_def elim!: prefixE)

lemma scheme_not_key_value:
  assumes "has_scheme st type s"
  shows "\<not> is_key_value_format s"
proof -
  have "contains_text p (a @ p @ b)" for a p b :: string
  proof (induction a)
    case Nil
    show ?case
    proof (cases "p @ b")
      case (Cons c l)
      have "prefix p (c # l)" unfolding Cons [symmetric] by simp
      with Cons show ?thesis by simp
    qed simp
  qed auto
  from this [of "''://''"] assms have "contains_text ''://'' s"
    by (auto simp: has_scheme_def elim!: prefixE) (metis append.assoc)+
  then show ?thesis by (simp add: is_key_value_format_def)
qed

text \<open>What the MySQL form accepts, the MariaDB form accepts with the same result, every accepted
  text names host, user, password and database.\<close>

theorem mariadb_accepts_mysql_strings:
  assumes "parse_mysql br MYSQL s = Inr c"
  shows "parse_mysql br MARIADB s = Inr c \<and>
    my_host c \<noteq> [] \<and> my_username c \<noteq> [] \<and> my_password c \<noteq> [] \<and> my_database c \<noteq> []"
proof -
  have ne: "trim s \<noteq> []" using mysql_parser.accepted_not_blank [OF assms] .
  have "parse_mysql br MARIADB s = Inr c"
  proof (cases "has_scheme ''jdbc:'' MYSQL (trim s)")
    case True
    with assms ne have "parse_mysql_jdbc br (trim s) MYSQL = Inr c" by (simp add: parse_mysql_def)
    then have "parse_mysql_jdbc br (trim s) MARIADB = Inr c" by (rule mysql_jdbc_hint_only)
    with ne has_scheme_mariadb [OF True] show ?thesis by (simp add: parse_mysql_def)
  next
    case no_jdbc: False
    show ?thesis
    proof (cases "is_key_value_format (trim s)")
      case True
      with scheme_not_key_value have "\<not> has_scheme ''jdbc:'' MARIADB (trim s)" by blast
      with True assms ne no_jdbc show ?thesis by (simp add: parse_mysql_def)
    next
      case False
      with assms ne no_jdbc have uri: "has_scheme [] MYSQL (trim s)" by (simp add: parse_mysql_def Let_def split: if_splits)
      then have "\<not> has_scheme ''jdbc:'' MARIADB (trim s)" using scheme_prefix_letters by blast
      with False assms ne no_jdbc uri has_scheme_mariadb [OF uri] show ?thesis by (simp add: parse_mysql_def)
    qed
  qed
  with parse_mysql_complete [OF assms] show ?thesis by simp
qed

lemma or_text_default: "truthy (Some d) \<Longrightarrow> \<exists>t. or_text a (Some d) = Some t \<and> t \<noteq> []"
  by (auto simp: or_text_def truthy_def split: option.split list.split)

lemma not_placeholder_empty: "\<not> is_password_placeholder (Some [])" "\<not> is_password_placeholder None"
  by (simp_all add: is_password_placeholder_def truthy_def)

lemma not_placeholder_raw:
  "\<not> is_password_placeholder raw \<Longrightarrow> \<not> is_password_placeholder (Some (the (or_text raw (Some []))))"
  by (cases raw) (auto simp: or_text_def not_placeholder_empty split: list.split)

lemma default_auth_database_truthy: "truthy (Some default_auth_database)"
  by (simp add: truthy_def default_auth_database_def)

lemma mongo_uri_facts:
  assumes "parse_mongo_uri br s = Inr c"
  shows "(mo_is_srv c \<longrightarrow> mo_use_tls c) \<and> mo_auth_database c \<noteq> [] \<and> \<not> is_password_placeholder (Some (mo_password c)) \<and>
    (mo_is_srv c \<longleftrightarrow> prefix ''mongodb+srv://'' s)"
  using assms or_text_default [OF default_auth_database_truthy, of "get_auth_source br (up_search (the (br_new_url br s)))"]
  by (auto simp: parse_mongo_uri_def Let_def not_placeholder_empty split: option.splits prod.splits if_splits)

lemma mongo_key_value_facts:
  assumes "parse_mongo_key_value s = Inr c"
  shows "\<not> mo_is_srv c \<and> mo_auth_database c \<noteq> [] \<and> \<not> is_password_placeholder (Some (mo_password c))"
  using assms or_text_default [OF default_auth_database_truthy,
      of "or_text (pair_value (scan_pairs s) ''authSource'') (pair_value (scan_pairs s) ''authDatabase'')"]
  by (auto simp: parse_mongo_key_value_def Let_def not_placeholder_empty not_placeholder_raw split: if_splits)

text \<open>A MongoDB string that is accepted connects an SRV host over TLS, always names an
  authentication database, and never stores the placeholder a copied string has for the password.\<close>

theorem accepted_mongo_string_is_safe:
  assumes "parse_mongo br s = Inr c"
  shows "(mo_is_srv c \<longrightarrow> mo_use_tls c) \<and> mo_auth_database c \<noteq> [] \<and> \<not> is_password_placeholder (Some (mo_password c)) \<and>
    mo_host c \<noteq> [] \<and> mo_username c \<noteq> []"
  using assms parse_mongo_complete [OF assms] mongo_uri_facts mongo_key_value_facts
  unfolding parse_mongo_def Let_def by (auto split: if_splits)

section \<open>A hyphen is no part of a key\<close>

lemma scan_keys_are_words: "(k, v) \<in> set (scan_pairs s) \<Longrightarrow> list_all is_word k"
proof (induction s rule: scan_pairs.induct)
  case (1 s)
  show ?case
  proof (cases "dropWhile is_word s")
    case Nil
    with "1.prems" show ?thesis by (subst (asm) scan_pairs.simps) (simp add: Let_def)
  next
    case (Cons c u)
    then show ?thesis
      using "1.prems" "1.IH"(1) [OF refl refl Cons] "1.IH"(2) [OF refl refl Cons] "1.IH"(3) [OF refl refl Cons]
      by (subst (asm) scan_pairs.simps)
        (auto simp: Let_def list_all_iff dest: set_takeWhileD split: if_splits option.splits prod.splits)
  qed
qed

text \<open>The parser looks up \<open>ssl-mode\<close> among the key and value pairs, but a key is a run of word characters:
  the option is never found there, and a string that requires SSL this way is connected without.\<close>

lemma hyphenated_key_never_found: "pair_value (scan_pairs s) ''ssl-mode'' = None"
proof -
  have "''ssl-mode'' \<notin> fst ` set (scan_pairs s)"
    using scan_keys_are_words [of "''ssl-mode''" _ s] by (auto simp: is_word_def)
  then show ?thesis by (simp add: pair_value_def map_of_eq_None_iff)
qed

lemma required_ssl_mode_ignored:
  "parse_mysql_key_value ''host=h database=d user=u password=p ssl-mode=REQUIRED'' =
     Inr \<lparr>my_host = ''h'', my_port = Some 3306, my_username = ''u'', my_password = ''p'', my_database = ''d'',
          my_is_https = False\<rparr>"
proof -
  have "scan_pairs ''host=h database=d user=u password=p ssl-mode=REQUIRED'' =
     [(''host'', ''h''), (''database'', ''d''), (''user'', ''u''), (''password'', ''p''), (''mode'', ''REQUIRED'')]"
    by (simp add: scan_pairs.simps is_word_def read_value_def Let_def space_length_def ascii_space_def)
  then show ?thesis by (simp add: parse_mysql_key_value_def sample_fields is_ssl_enabled_def)
qed

section \<open>Witnesses\<close>

lemma sample_text_trim [simp]:
  "trim ''host=h database=d user=u password=p ssl-mode=REQUIRED'' = ''host=h database=d user=u password=p ssl-mode=REQUIRED''"
  using trim_framed [of "''host=h database=d user=u password=p ssl-mode=REQUIRE''" "CHR ''D''"]
  by (simp add: space_length_not_space printable_not_space)

theorem mariadb_accepts_mysql_strings_witness:
  "parse_mysql sample_browser MARIADB ''host=h database=d user=u password=p ssl-mode=REQUIRED'' =
     Inr \<lparr>my_host = ''h'', my_port = Some 3306, my_username = ''u'', my_password = ''p'', my_database = ''d'',
          my_is_https = False\<rparr>"
proof -
  have "parse_mysql sample_browser MYSQL ''host=h database=d user=u password=p ssl-mode=REQUIRED'' =
     Inr \<lparr>my_host = ''h'', my_port = Some 3306, my_username = ''u'', my_password = ''p'', my_database = ''d'',
          my_is_https = False\<rparr>"
    by (simp add: parse_mysql_def has_scheme_def is_key_value_format_def required_ssl_mode_ignored)
  then show ?thesis using mariadb_accepts_mysql_strings by blast
qed

theorem accepted_mongo_string_is_safe_witness:
  "\<exists>c. parse_mongo sample_browser ''host=h database=d user=u password=p ssl-mode=REQUIRED'' = Inr c \<and> mo_auth_database c \<noteq> []"
proof -
  have "scan_pairs ''host=h database=d user=u password=p ssl-mode=REQUIRED'' =
     [(''host'', ''h''), (''database'', ''d''), (''user'', ''u''), (''password'', ''p''), (''mode'', ''REQUIRED'')]"
    by (simp add: scan_pairs.simps is_word_def read_value_def Let_def space_length_def ascii_space_def)
  then have "\<exists>c. parse_mongo sample_browser ''host=h database=d user=u password=p ssl-mode=REQUIRED'' = Inr c"
    by (simp add: parse_mongo_def is_key_value_format_def parse_mongo_key_value_def sample_fields Let_def)
  then show ?thesis using accepted_mongo_string_is_safe by blast
qed

end
