(* ===== verification/Restore_Commands.thy ===== *)
theory Restore_Commands
  imports Js_Text
begin

text \<open>
  The shell commands a physical restore shows for copying
  (\<open>src/frontend/src/pages/databases/lib/physical-backups/restoreCommands.ts\<close>), and how a POSIX
  shell reads them back: a reader of words in double quotes, the reference the quoting is checked
  against. The two paths of the docker mount are those PhysicalRestoreEnvironmentPanel.tsx passes.
\<close>

section \<open>Versions and directories\<close>

text \<open>\<open>Number(s)\<close> on decimal texts; \<open>None\<close> is NaN. Exponents, hexadecimal and Infinity are not read.\<close>

definition number_of_text :: "string \<Rightarrow> number option" where
  "number_of_text s =
     (let t = trim s;
          (negative, body) = (case t of c # u \<Rightarrow> if c = CHR ''-'' then (True, u)
                                 else if c = CHR ''+'' then (False, u) else (False, t) | [] \<Rightarrow> (False, []));
          whole = takeWhile is_digit body;
          rest = dropWhile is_digit body;
          fraction = (case rest of c # u \<Rightarrow> if c = CHR ''.'' then u else [] | [] \<Rightarrow> []);
          well_formed = (case rest of [] \<Rightarrow> whole \<noteq> []
                         | c # u \<Rightarrow> c = CHR ''.'' \<and> list_all is_digit u \<and> (whole \<noteq> [] \<or> u \<noteq> []));
          value = of_int (digits_value whole) + of_int (digits_value fraction) / 10 ^ length fraction
      in if t = [] then Some 0 else if \<not> well_formed then None
         else Some (if negative then - value else value))"

definition is_version_18 :: "string \<Rightarrow> bool" where
  "is_version_18 v = (case number_of_text v of Some n \<Rightarrow> n \<ge> 18 | None \<Rightarrow> False)"

definition container_data_dir :: "string \<Rightarrow> string" where
  "container_data_dir v =
     (if is_version_18 v then ''/var/lib/postgresql/'' @ v @ ''/docker'' else ''/var/lib/postgresql/data'')"

definition container_volume_dir :: "string \<Rightarrow> string" where
  "container_volume_dir v = (if is_version_18 v then ''/var/lib/postgresql'' else ''/var/lib/postgresql/data'')"

definition cluster_data_dir :: "string \<Rightarrow> string \<Rightarrow> string" where
  "cluster_data_dir output_dir v =
     (if is_version_18 v then output_dir @ ''/'' @ v @ ''/docker'' else output_dir @ ''/data'')"

definition debian_config_dir :: "string \<Rightarrow> string" where
  "debian_config_dir v = ''/etc/postgresql/'' @ v @ ''/main''"

definition default_pg_bin_dir :: "string \<Rightarrow> string" where
  "default_pg_bin_dir v = ''/usr/lib/postgresql/'' @ v @ ''/bin''"

definition default_docker_image :: "string \<Rightarrow> string" where
  "default_docker_image v = ''postgres:'' @ v"

section \<open>Quoting\<close>

abbreviation squote :: char where "squote \<equiv> CHR 0x27"
abbreviation backslash :: char where "backslash \<equiv> CHR 0x5C"
abbreviation newline :: char where "newline \<equiv> CHR 0x0A"

definition shell_special :: "char list" where
  "shell_special = [backslash, CHR ''$'', CHR 0x60, dquote]"

definition escape_shell_argument :: "string \<Rightarrow> string" where
  "escape_shell_argument v = concat (map (\<lambda>c. if c \<in> set shell_special then [backslash, c] else [c]) v)"

definition quote_shell_argument :: "string \<Rightarrow> string" where
  "quote_shell_argument v = dquote # escape_shell_argument v @ [dquote]"

section \<open>Single commands\<close>

definition build_chown_command :: "string \<Rightarrow> string" where
  "build_chown_command data_dir = ''chown -R postgres:postgres '' @ quote_shell_argument data_dir"

definition build_pg_ctl_start_command :: "string \<Rightarrow> string \<Rightarrow> string" where
  "build_pg_ctl_start_command data_dir pg_bin =
     (let binary = (if trim pg_bin \<noteq> [] then quote_shell_argument (trim pg_bin @ ''/pg_ctl'') else ''pg_ctl'')
      in binary @ '' -D '' @ quote_shell_argument data_dir @ '' start'')"

definition build_docker_run_command :: "string \<Rightarrow> string \<Rightarrow> string \<Rightarrow> string" where
  "build_docker_run_command host_dir container_dir img =
     (let mount = escape_shell_argument host_dir @ '':'' @ escape_shell_argument container_dir;
          source = (if prefix ''/'' host_dir then dquote # mount @ [dquote]
                    else dquote # ''$PWD/'' @ mount @ [dquote])
      in ''docker run -e POSTGRES_PASSWORD=... -v '' @ source @ '' '' @ quote_shell_argument img)"

definition target_argument :: "string \<Rightarrow> string" where
  "target_argument target_time =
     (if trim target_time \<noteq> [] then ''--target-time '' @ quote_shell_argument (trim target_time) @ '' '' else [])"

definition build_script_command :: "string \<Rightarrow> string \<Rightarrow> string \<Rightarrow> string \<Rightarrow> string \<Rightarrow> string" where
  "build_script_command script_url bundle_url output_dir pg_bin target_time =
     (let pg_bin_arg = (if trim pg_bin \<noteq> [] then ''--pg-bin '' @ quote_shell_argument (trim pg_bin) @ '' '' else [])
      in ''curl -fsSL '' @ quote_shell_argument script_url @ '' | sh -s -- '' @ pg_bin_arg @ target_argument target_time @
         quote_shell_argument bundle_url @ '' '' @ quote_shell_argument output_dir)"

definition build_docker_script_command :: "string \<Rightarrow> string \<Rightarrow> string \<Rightarrow> string \<Rightarrow> string \<Rightarrow> string" where
  "build_docker_script_command script_url bundle_url output_dir img target_time =
     ''curl -fsSL '' @ quote_shell_argument script_url @ '' | sh -s -- --combine-image '' @ quote_shell_argument img @
     '' '' @ target_argument target_time @ quote_shell_argument bundle_url @ '' '' @ quote_shell_argument output_dir"

text \<open>The mount the panel shows: the whole output directory from version 18 on, else the cluster.\<close>

definition panel_mount :: "string \<Rightarrow> string \<Rightarrow> string \<times> string" where
  "panel_mount output_dir v =
     (if is_version_18 v then (output_dir, container_volume_dir v)
      else (cluster_data_dir output_dir v, container_data_dir v))"

section \<open>The manual steps\<close>

datatype restore_environment = OnHost | InDocker

record restore_step =
  st_title_key :: string
  st_code :: string

definition join_lines :: "string list \<Rightarrow> string" where
  "join_lines ls = (case ls of [] \<Rightarrow> [] | l # rest \<Rightarrow> l @ concat (map (\<lambda>m. newline # m) rest))"

definition in_quotes :: "string \<Rightarrow> string" where
  "in_quotes s = dquote # s @ [dquote]"

definition combine_binary :: "string \<Rightarrow> string" where
  "combine_binary pg_bin = (if trim pg_bin \<noteq> [] then in_quotes (trim pg_bin @ ''/pg_combinebackup'') else ''pg_combinebackup'')"

definition decompress_backups_block :: string where
  \<open>decompress_backups_block = join_lines
    [''for b in bundle/full $(ls -d bundle/incr-* 2>/dev/null | sort -V); do'',
     ''  d="bundle/recon/$(basename "$b")"'',
     ''  mkdir -p "$d"'',
     ''  blob=$(ls "$b"/base.tar* 2>/dev/null | head -n1)'',
     ''  case "$blob" in'',
     ''    *.zst) zstd -dqc "$blob" | tar -xf - -C "$d" ;;'',
     ''    *.gz)  gzip -dc "$blob" | tar -xf - -C "$d" ;;'',
     ''    *)     tar -xf "$blob" -C "$d" ;;'',
     ''  esac'',
     ''  cp "$b/backup_manifest" "$d/backup_manifest"'',
     ''done'']\<close>

definition check_cluster_config_block :: "string \<Rightarrow> string \<Rightarrow> string" where
  \<open>check_cluster_config_block data_dir v = join_lines
    [''for f in postgresql.conf pg_hba.conf pg_ident.conf; do'',
     ''  [ -f "'' @ data_dir @ ''/$f" ] || echo "MISSING: $f"'',
     ''done'',
     ''# Nothing printed? Skip the rest of this step.'',
     ''# A base backup copies only the data directory. Debian/Ubuntu keep the configuration in'',
     ''# '' @ debian_config_dir v @ '', outside it, so it is not in the backup and never can be.'',
     ''# Ask the source cluster where its own files are (needs superuser or pg_read_all_settings):'',
     ''#   psql -h <source-host> -U postgres -Atc "SHOW config_file"'',
     ''#   psql -h <source-host> -U postgres -Atc "SHOW hba_file"'',
     ''#   psql -h <source-host> -U postgres -Atc "SHOW ident_file"'',
     ''# Copy all three into "'' @ data_dir @ ''/" (sudo if they are root-only), then in postgresql.conf:'',
     ''#   comment out data_directory, hba_file, ident_file, external_pid_file'',
     ''#   comment out ssl, ssl_cert_file, ssl_key_file, ssl_ca_file, or copy the certs too'',
     ''#     ("ssl = on" on its own fails as well - it then looks for server.crt in the data directory)'',
     ''#   mkdir "'' @ data_dir @ ''/conf.d" for the include_dir Debian ships'',
     ''#   set listen_addresses = '' @ [squote] @ ''*'' @ [squote] @ '' when the cluster runs in a container'']\<close>

definition combine_command :: "string \<Rightarrow> string \<Rightarrow> string" where
  \<open>combine_command pg_bin data_dir =
     combine_binary pg_bin @ '' bundle/recon/full $(ls -d bundle/recon/incr-* 2>/dev/null | sort -V) -o '' @ in_quotes data_dir\<close>

definition control_data_command :: "restore_environment \<Rightarrow> string \<Rightarrow> string \<Rightarrow> string \<Rightarrow> string" where
  \<open>control_data_command environment img pg_bin data_dir =
     (case environment of
        InDocker \<Rightarrow> ''docker run --rm -v "$PWD:/work" -w /work '' @ img @ '' pg_controldata '' @ in_quotes data_dir
      | OnHost \<Rightarrow> (if trim pg_bin \<noteq> [] then in_quotes (trim pg_bin @ ''/pg_controldata'') else ''pg_controldata'') @
          '' '' @ in_quotes data_dir)\<close>

record manual_steps_params =
  ms_bundle_url :: string
  ms_output_dir :: string
  ms_pg_version :: string
  ms_pg_bin :: string
  ms_image :: string
  ms_environment :: restore_environment
  ms_has_wal :: bool
  ms_target_time :: "string option"

definition step_title :: "string \<Rightarrow> string" where
  "step_title k = ''backups.physical.restore.manualSteps.'' @ k"

definition combine_code :: "manual_steps_params \<Rightarrow> string" where
  \<open>combine_code p =
     (let data_dir = cluster_data_dir (ms_output_dir p) (ms_pg_version p)
      in case ms_environment p of
        InDocker \<Rightarrow> join_lines
          [decompress_backups_block,
           ''docker run --rm --user "$(id -u):$(id -g)" -v "$PWD:/work" -w /work '' @ ms_image p @ '' '' @ [backslash],
           ''  '' @ combine_command [] data_dir,
           ''chmod 700 '' @ in_quotes data_dir]
      | OnHost \<Rightarrow> join_lines
          [decompress_backups_block, combine_command (ms_pg_bin p) data_dir, ''chmod 700 '' @ in_quotes data_dir])\<close>

definition wire_up_code :: "manual_steps_params \<Rightarrow> string" where
  \<open>wire_up_code p =
     (let data_dir = cluster_data_dir (ms_output_dir p) (ms_pg_version p);
          target_lines = (case ms_target_time p of
              Some (c # t) \<Rightarrow>
                newline # ''  echo "recovery_target_time = '' @ [squote] @ c # t @ [squote] @ ''"'' @
                newline # ''  echo "recovery_target_action = '' @ [squote] @ ''promote'' @ [squote] @ ''"''
            | _ \<Rightarrow> [])
      in join_lines
        [''mkdir -p '' @ in_quotes (data_dir @ ''/databasus_wal_restore''),
         ''for f in bundle/wal/*; do'',
         ''  [ -e "$f" ] || continue'',
         ''  case "$f" in'',
         ''    *.zst) zstd -dq "$f" -o "'' @ data_dir @ ''/databasus_wal_restore/$(basename "${f%.zst}")" ;;'',
         ''    *) cp "$f" "'' @ data_dir @ ''/databasus_wal_restore/" ;;'',
         ''  esac'',
         ''done'',
         ''{'',
         ''  echo "restore_command = '' @ [squote] @ ''cp '' @ [backslash, dquote] @ ''databasus_wal_restore/%f'' @
           [backslash, dquote] @ '' '' @ [backslash, dquote] @ ''%p'' @ [backslash, dquote] @ [squote, dquote] @ target_lines,
         ''} >> '' @ in_quotes (data_dir @ ''/postgresql.auto.conf''),
         ''touch '' @ in_quotes (data_dir @ ''/recovery.signal'')])\<close>

definition recovery_parameters_code :: "manual_steps_params \<Rightarrow> string" where
  \<open>recovery_parameters_code p =
     (let data_dir = cluster_data_dir (ms_output_dir p) (ms_pg_version p)
      in join_lines
        [''# Read the source'' @ [squote] @ ''s recovery-required parameters from the restored control file:'',
         control_data_command (ms_environment p) (ms_image p) (ms_pg_bin p) data_dir,
         ''# then set each at or above the printed value in '' @ in_quotes (data_dir @ ''/postgresql.auto.conf'') @ '' and restart:'',
         ''#   max_connections, max_worker_processes, max_wal_senders,'',
         ''#   max_prepared_transactions, max_locks_per_transaction''])\<close>

definition build_manual_steps :: "manual_steps_params \<Rightarrow> restore_step list" where
  \<open>build_manual_steps p =
     (let data_dir = cluster_data_dir (ms_output_dir p) (ms_pg_version p)
      in [\<lparr>st_title_key = step_title ''download'', st_code = ''curl -fsSL '' @ in_quotes (ms_bundle_url p) @ '' -o restore.tar''\<rparr>,
          \<lparr>st_title_key = step_title ''extract'', st_code = join_lines [''mkdir -p bundle'', ''tar -xf restore.tar -C bundle'']\<rparr>,
          \<lparr>st_title_key = step_title ''verify'', st_code = ''(cd bundle && sha256sum -c MANIFEST.sha256)''\<rparr>,
          \<lparr>st_title_key = step_title ''reconstruct'', st_code = combine_code p\<rparr>,
          \<lparr>st_title_key = step_title ''checkConfig'', st_code = check_cluster_config_block data_dir (ms_pg_version p)\<rparr>] @
         (if ms_has_wal p
          then [\<lparr>st_title_key = step_title ''wireUpRecovery'', st_code = wire_up_code p\<rparr>,
                \<lparr>st_title_key = step_title ''recoveryParameters'', st_code = recovery_parameters_code p\<rparr>]
          else []))\<close>

section \<open>What the shell reads back\<close>

text \<open>
  The text in double quotes up to the closing one, by the rules of a POSIX shell: a backslash takes
  the special meaning from \<open>$\<close>, the backquote, the double quote and itself, and removes a newline;
  before any other character it stands for itself. \<open>None\<close>: an expansion starts, or the quote stays open.
\<close>

fun read_dquoted :: "string \<Rightarrow> (string \<times> string) option" where
  "read_dquoted [] = None"
| "read_dquoted (c # s) =
     (if c = dquote then Some ([], s)
      else if c = CHR ''$'' \<or> c = CHR 0x60 then None
      else if c = backslash then
        (case s of
           [] \<Rightarrow> None
         | d # t \<Rightarrow>
             (if d \<in> set shell_special then map_option (\<lambda>(w, r). (d # w, r)) (read_dquoted t)
              else if d = newline then read_dquoted t
              else map_option (\<lambda>(w, r). (c # w, r)) (read_dquoted s)))
      else map_option (\<lambda>(w, r). (c # w, r)) (read_dquoted s))"

lemma read_dquoted_shorter: "read_dquoted s = Some (w, r) \<Longrightarrow> length r < length s"
proof (induction s arbitrary: w rule: length_induct)
  case (1 s)
  have IH: "length r < length ys" if "read_dquoted ys = Some (v, r)" "length ys < length s" for ys v
    using "1.IH" that by blast
  show ?case
  proof (cases s)
    case (Cons c t)
    have t: "length r < length t" if "read_dquoted t = Some (v, r)" for v using IH [OF that] Cons by simp
    show ?thesis
    proof (cases t)
      case Nil
      with "1.prems" Cons show ?thesis by (auto split: if_splits)
    next
      case (Cons d u)
      have u: "length r < length u" if "read_dquoted u = Some (v, r)" for v
        using IH [OF that] Cons \<open>s = c # t\<close> by simp
      show ?thesis
        using "1.prems" unfolding \<open>s = c # t\<close>
        by (subst (asm) read_dquoted.simps)
          (auto simp: Cons simp del: read_dquoted.simps split: if_splits dest!: t [unfolded Cons] u)
    qed
  qed (use "1.prems" in simp)
qed

text \<open>The characters a command may hold unquoted here; \<open>|\<close> stands as a word of its own between blanks.\<close>

definition plain_char :: "char \<Rightarrow> bool" where
  "plain_char c \<longleftrightarrow> is_word c \<or> c \<in> set ''-./:=|''"

function read_word :: "string \<Rightarrow> (string \<times> string) option" where
  "read_word s =
     (case s of
        [] \<Rightarrow> Some ([], [])
      | c # t \<Rightarrow>
          (if c = CHR '' '' then Some ([], s)
           else if c = dquote then
             (case read_dquoted t of
                None \<Rightarrow> None
              | Some (q, r) \<Rightarrow> map_option (\<lambda>(w, u). (q @ w, u)) (read_word r))
           else if plain_char c then map_option (\<lambda>(w, u). (c # w, u)) (read_word t)
           else None))"
  by pat_completeness auto

termination read_word
  by (relation "measure length") (auto dest!: read_dquoted_shorter [OF sym] read_dquoted_shorter)

declare read_word.simps [simp del]

lemma read_word_rest: "read_word s = Some (w, r) \<Longrightarrow> length r \<le> length s \<and> (s \<noteq> [] \<and> hd s \<noteq> CHR '' '' \<longrightarrow> length r < length s)"
proof (induction s arbitrary: w rule: length_induct)
  case (1 s)
  have IH: "length r \<le> length ys" if "read_word ys = Some (v, r)" "length ys < length s" for ys v
    using "1.IH" that by blast
  show ?case
  proof (cases s)
    case (Cons c t)
    with IH have t: "read_word t = Some (v, r) \<Longrightarrow> length r \<le> length t"
      and q: "read_dquoted t = Some (q, u) \<Longrightarrow> read_word u = Some (v, r) \<Longrightarrow> length r \<le> length t" for v q u
      using read_dquoted_shorter [of t q u] by fastforce+
    show ?thesis
      using "1.prems" unfolding Cons
      by (subst (asm) read_word.simps) (auto split: if_splits option.splits dest!: t dest: q)
  qed (use "1.prems" in \<open>simp add: read_word.simps\<close>)
qed

function shell_words :: "string \<Rightarrow> string list option" where
  "shell_words s =
     (case s of
        [] \<Rightarrow> Some []
      | c # t \<Rightarrow>
          (if c = CHR '' '' then shell_words t
           else case read_word s of
                  None \<Rightarrow> None
                | Some (w, r) \<Rightarrow> map_option ((#) w) (shell_words r)))"
  by pat_completeness auto

termination shell_words
  by (relation "measure length") (auto dest!: read_word_rest)

declare shell_words.simps [simp del]

lemma read_dquoted_escape: "read_dquoted (escape_shell_argument v @ dquote # r) = Some (v, r)"
  by (induction v) (auto simp: escape_shell_argument_def shell_special_def)

lemma read_quoted_argument:
  "read_word (quote_shell_argument v @ r) = map_option (\<lambda>(w, u). (v @ w, u)) (read_word r)"
  by (subst read_word.simps) (simp add: quote_shell_argument_def read_dquoted_escape)

lemma read_word_end: "read_word [] = Some ([], [])" "read_word (CHR '' '' # r) = Some ([], CHR '' '' # r)"
  by (simp_all add: read_word.simps)

lemma read_plain: "plain_char c \<Longrightarrow> read_word (c # s) = map_option (\<lambda>(w, u). (c # w, u)) (read_word s)"
proof -
  assume "plain_char c"
  then have "c \<noteq> dquote" "c \<noteq> CHR '' ''" by (auto simp: plain_char_def is_word_def)
  with \<open>plain_char c\<close> show ?thesis by (subst read_word.simps) simp
qed

lemma shell_words_nil: "shell_words [] = Some []" and shell_words_space: "shell_words (CHR '' '' # s) = shell_words s"
  by (simp_all add: shell_words.simps)

lemma shell_words_quoted:
  "shell_words (quote_shell_argument v @ CHR '' '' # r) = map_option ((#) v) (shell_words r)"
  "shell_words (quote_shell_argument v) = Some [v]"
proof -
  have "shell_words (quote_shell_argument v @ u) =
      (case read_word (quote_shell_argument v @ u) of None \<Rightarrow> None | Some (w, r) \<Rightarrow> map_option ((#) w) (shell_words r))" for u
    by (subst shell_words.simps) (simp add: quote_shell_argument_def)
  from this [of "CHR '' '' # r"] this [of "[]"]
  show "shell_words (quote_shell_argument v @ CHR '' '' # r) = map_option ((#) v) (shell_words r)"
    "shell_words (quote_shell_argument v) = Some [v]"
    using read_quoted_argument [of v "[]"] by (simp_all add: read_quoted_argument read_word_end shell_words_space shell_words_nil)
qed

lemma shell_words_plain:
  assumes "p \<noteq> []" and "list_all plain_char p"
  shows "shell_words (p @ CHR '' '' # r) = map_option ((#) p) (shell_words r)" and "shell_words p = Some [p]"
proof -
  have no: "\<not> plain_char CHR '' ''" "\<not> plain_char dquote" by (simp_all add: plain_char_def is_word_def)
  have word: "read_word (q @ u) = map_option (\<lambda>(w, v). (q @ w, v)) (read_word u)" if "list_all plain_char q" for q u
    using that by (induction q) (cases "read_word u"; auto simp: read_plain)+
  obtain c t where p: "p = c # t" using assms(1) by (cases p) auto
  have words: "shell_words (p @ u) =
      (case read_word (p @ u) of None \<Rightarrow> None | Some (w, r) \<Rightarrow> map_option ((#) w) (shell_words r))" for u
    using assms(2) no by (subst shell_words.simps) (auto simp: p)
  from words [of "CHR '' '' # r"] words [of "[]"]
  show "shell_words (p @ CHR '' '' # r) = map_option ((#) p) (shell_words r)" "shell_words p = Some [p]"
    using word [OF assms(2), of "[]"] by (simp_all add: word [OF assms(2)] read_word_end shell_words_space shell_words_nil)
qed

lemma shell_words_char:
  assumes "plain_char c"
  shows "shell_words (c # s) =
    (case read_word (c # s) of None \<Rightarrow> None | Some (w, r) \<Rightarrow> map_option ((#) w) (shell_words r))"
proof -
  have "c \<noteq> CHR '' ''" using assms by (auto simp: plain_char_def is_word_def)
  then show ?thesis by (subst shell_words.simps) simp
qed

lemmas read_command = shell_words_char read_plain read_word_end shell_words_space shell_words_nil shell_words_quoted
  plain_char_def is_word_def

text \<open>C12: The shell reads each argument of the two script commands back as the very text that was put
  in: whatever the addresses, the directory, the image, the binaries' path and the target time hold,
  nothing is expanded, split or joined, and the optional arguments are there exactly when given.\<close>

theorem script_commands_read_back:
  "shell_words (build_script_command script_url bundle_url output_dir pg_bin target_time) =
     Some ([''curl'', ''-fsSL'', script_url, ''|'', ''sh'', ''-s'', ''--''] @
       (if trim pg_bin \<noteq> [] then [''--pg-bin'', trim pg_bin] else []) @
       (if trim target_time \<noteq> [] then [''--target-time'', trim target_time] else []) @
       [bundle_url, output_dir]) \<and>
   shell_words (build_docker_script_command script_url bundle_url output_dir img target_time) =
     Some ([''curl'', ''-fsSL'', script_url, ''|'', ''sh'', ''-s'', ''--'', ''--combine-image'', img] @
       (if trim target_time \<noteq> [] then [''--target-time'', trim target_time] else []) @
       [bundle_url, output_dir])"
  by (simp add: build_script_command_def build_docker_script_command_def target_argument_def read_command)

text \<open>So it does for the commands that hand over and start the restored cluster, and for the mount
  of an absolute directory.\<close>

theorem start_commands_read_back:
  "shell_words (build_chown_command dir) = Some [''chown'', ''-R'', ''postgres:postgres'', dir] \<and>
   shell_words (build_pg_ctl_start_command dir pg_bin) =
     Some [if trim pg_bin \<noteq> [] then trim pg_bin @ ''/pg_ctl'' else ''pg_ctl'', ''-D'', dir, ''start''] \<and>
   shell_words (build_docker_run_command (CHR ''/'' # host) container img) =
     Some [''docker'', ''run'', ''-e'', ''POSTGRES_PASSWORD=...'', ''-v'', CHR ''/'' # host @ '':'' @ container, img]"
proof -
  have escape_append: "escape_shell_argument (a @ b) = escape_shell_argument a @ escape_shell_argument b" for a b
    by (simp add: escape_shell_argument_def)
  have plain: "escape_shell_argument '':'' = '':''" by (simp add: escape_shell_argument_def shell_special_def)
  have mount: "dquote # (escape_shell_argument a @ '':'' @ escape_shell_argument b) @ [dquote] =
      quote_shell_argument (a @ '':'' @ b)" for a b
    unfolding quote_shell_argument_def escape_append plain ..
  have docker: "build_docker_run_command (CHR ''/'' # host) container img =
      ''docker run -e POSTGRES_PASSWORD=... -v '' @ quote_shell_argument ((CHR ''/'' # host) @ '':'' @ container) @ '' '' @
      quote_shell_argument img"
    unfolding build_docker_run_command_def Let_def mount by simp
  show ?thesis
    unfolding docker by (simp add: build_chown_command_def build_pg_ctl_start_command_def read_command Let_def)
qed

text \<open>The mount the panel writes puts the rebuilt cluster exactly where the image looks for its data
  directory: what lies under the host side in the output directory lies under the container side.\<close>

theorem mount_puts_cluster_at_data_dir:
  "\<exists>inner. cluster_data_dir output_dir v = fst (panel_mount output_dir v) @ inner \<and>
           container_data_dir v = snd (panel_mount output_dir v) @ inner"
  by (simp add: panel_mount_def cluster_data_dir_def container_data_dir_def container_volume_dir_def)

text \<open>The manual steps put their texts between double quotes as they are: a directory with a dollar sign
  is not one word there, although the quoted commands above take the same directory.\<close>

lemma manual_step_not_quoted:
  "shell_words (st_code (build_manual_steps p ! 0)) = None" if "ms_bundle_url p = ''http://h/a$b''"
  using that by (simp add: build_manual_steps_def in_quotes_def read_command Let_def)
    (simp add: shell_words.simps read_word.simps)

lemma manual_steps_shape:
  "map st_title_key (build_manual_steps p) = map step_title
     ([''download'', ''extract'', ''verify'', ''reconstruct'', ''checkConfig''] @
      (if ms_has_wal p then [''wireUpRecovery'', ''recoveryParameters''] else []))"
  by (simp add: build_manual_steps_def Let_def)

end
