(* ===== verification/Schedules.thy ===== *)
theory Schedules
  imports Js_Text
begin

text \<open>
  Backup schedules: the conversion of a stored UTC day to the day the browser shows and back
  (\<open>scheduleDayConversion.ts\<close>, \<open>localSchedule.ts\<close>), whether a schedule was changed or is
  complete, and the preview of a cron expression's next run (\<open>getNextCronRun.ts\<close>).

  dayjs and cron-parser are not part of the repository. What the code takes from them is a
  parameter: \<open>local_of text\<close> is \<open>dayjs.utc(text, 'HH:mm').local()\<close>, reduced to the three getters
  used; \<open>utc_text t\<close> is \<open>t.utc().format('HH:mm')\<close>; \<open>parse_next\<close> is the first date of the parser,
  \<open>None\<close> where it throws. A date is its milliseconds. NaN, which an unreadable time of day would
  give, is not modelled: the parameter answers for every text.
\<close>

section \<open>Data\<close>

datatype schedule_type = HOURLY | DAILY | WEEKLY | MONTHLY | CRON

record schedule =
  sc_type :: schedule_type
  sc_timeOfDay :: "string option"
  sc_weekday :: "int option"
  sc_dayOfMonth :: "int option"
  sc_cronExpression :: "string option"

text \<open>A local \<open>Dayjs\<close> value, by its getters; \<open>dj_utcOffset\<close> in minutes.\<close>

record dayjs =
  dj_hour :: int
  dj_minute :: int
  dj_utcOffset :: int

definition weekdays :: "int list" where
  "weekdays = [1, 2, 3, 4, 5, 6, 7]"

definition schedule_type_label_key :: "schedule_type \<Rightarrow> string" where
  "schedule_type_label_key t = (case t of
       HOURLY \<Rightarrow> ''schedules.types.hourly''
     | DAILY \<Rightarrow> ''schedules.types.daily''
     | WEEKLY \<Rightarrow> ''schedules.types.weekly''
     | MONTHLY \<Rightarrow> ''schedules.types.monthly''
     | CRON \<Rightarrow> ''schedules.types.cron'')"

definition weekday_label_key :: "int \<Rightarrow> string option" where
  "weekday_label_key d = map_of
     [(1, ''schedules.weekdays.mon''), (2, ''schedules.weekdays.tue''),
      (3, ''schedules.weekdays.wed''), (4, ''schedules.weekdays.thu''),
      (5, ''schedules.weekdays.fri''), (6, ''schedules.weekdays.sat''),
      (7, ''schedules.weekdays.sun'')] d"

section \<open>Days of a cycle (scheduleDayConversion.ts)\<close>

definition minutes_in_day :: int where "minutes_in_day = 24 * 60"
definition days_in_week :: int where "days_in_week = 7"
definition days_in_monthly_cycle :: int where "days_in_monthly_cycle = 31"

text \<open>JavaScript's remainder takes the sign of the dividend.\<close>

definition js_rem :: "int \<Rightarrow> int \<Rightarrow> int" where
  "js_rem a b = sgn a * (\<bar>a\<bar> mod \<bar>b\<bar>)"

definition shift_day :: "int \<Rightarrow> int \<Rightarrow> int \<Rightarrow> int" where
  "shift_day day minutesAfterStartOfDay daysInCycle =
     (let dayShift = minutesAfterStartOfDay div minutes_in_day
      in js_rem (day + dayShift - 1 + daysInCycle) daysInCycle + 1)"

text \<open>\<open>utcTime.split(':').map(Number)\<close> on the contract's \<open>HH:MM\<close>: the text before the first
  colon and the text between it and the next.\<close>

definition clock_hour :: "string \<Rightarrow> int" where
  "clock_hour text = digits_value (takeWhile (\<lambda>c. c \<noteq> CHR '':'') text)"

definition clock_minute :: "string \<Rightarrow> int" where
  "clock_minute text =
     digits_value (takeWhile (\<lambda>c. c \<noteq> CHR '':'') (drop 1 (dropWhile (\<lambda>c. c \<noteq> CHR '':'') text)))"

definition minutes_after_local_start_of_day :: "(string \<Rightarrow> dayjs) \<Rightarrow> string \<Rightarrow> int" where
  "minutes_after_local_start_of_day local_of utcTime =
     clock_hour utcTime * 60 + clock_minute utcTime + dj_utcOffset (local_of utcTime)"

definition minutes_after_utc_start_of_day :: "dayjs \<Rightarrow> int" where
  "minutes_after_utc_start_of_day localTime =
     dj_hour localTime * 60 + dj_minute localTime - dj_utcOffset localTime"

definition get_local_weekday :: "(string \<Rightarrow> dayjs) \<Rightarrow> int \<Rightarrow> string \<Rightarrow> int" where
  "get_local_weekday local_of utcWeekday utcTime =
     shift_day utcWeekday (minutes_after_local_start_of_day local_of utcTime) days_in_week"

definition get_utc_weekday :: "int \<Rightarrow> dayjs \<Rightarrow> int" where
  "get_utc_weekday localWeekday localTime =
     shift_day localWeekday (minutes_after_utc_start_of_day localTime) days_in_week"

definition get_local_day_of_month :: "(string \<Rightarrow> dayjs) \<Rightarrow> int \<Rightarrow> string \<Rightarrow> int" where
  "get_local_day_of_month local_of utcDayOfMonth utcTime =
     shift_day utcDayOfMonth (minutes_after_local_start_of_day local_of utcTime)
       days_in_monthly_cycle"

definition get_utc_day_of_month :: "int \<Rightarrow> dayjs \<Rightarrow> int" where
  "get_utc_day_of_month localDayOfMonth localTime =
     shift_day localDayOfMonth (minutes_after_utc_start_of_day localTime) days_in_monthly_cycle"

section \<open>The schedule the form shows (localSchedule.ts)\<close>

record local_schedule_parts =
  lp_localTime :: "dayjs option"
  lp_weekday :: "int option"
  lp_dayOfMonth :: "int option"

text \<open>\<open>truthy\<close> is the test of an optional text: neither undefined nor empty.\<close>

definition get_shown_weekday :: "(string \<Rightarrow> dayjs) \<Rightarrow> schedule \<Rightarrow> int option" where
  "get_shown_weekday local_of s = (case sc_weekday s of
       None \<Rightarrow> None
     | Some weekday \<Rightarrow>
         if truthy (sc_timeOfDay s)
         then Some (get_local_weekday local_of weekday (the (sc_timeOfDay s)))
         else Some (if weekday = 0 then 7 else weekday))"

definition get_shown_day_of_month :: "(string \<Rightarrow> dayjs) \<Rightarrow> schedule \<Rightarrow> int option" where
  "get_shown_day_of_month local_of s = (case sc_dayOfMonth s of
       None \<Rightarrow> None
     | Some dayOfMonth \<Rightarrow>
         Some (if truthy (sc_timeOfDay s)
               then get_local_day_of_month local_of dayOfMonth (the (sc_timeOfDay s))
               else dayOfMonth))"

definition get_local_schedule_parts ::
    "(string \<Rightarrow> dayjs) \<Rightarrow> schedule \<Rightarrow> local_schedule_parts" where
  "get_local_schedule_parts local_of s =
     \<lparr>lp_localTime = (if truthy (sc_timeOfDay s)
                      then Some (local_of (the (sc_timeOfDay s))) else None),
      lp_weekday = get_shown_weekday local_of s,
      lp_dayOfMonth = get_shown_day_of_month local_of s\<rparr>"

definition with_local_weekday :: "(string \<Rightarrow> dayjs) \<Rightarrow> schedule \<Rightarrow> int \<Rightarrow> schedule" where
  "with_local_weekday local_of s localWeekday = s\<lparr>sc_weekday := Some
     (if truthy (sc_timeOfDay s)
      then get_utc_weekday localWeekday (local_of (the (sc_timeOfDay s))) else localWeekday)\<rparr>"

definition with_local_day_of_month :: "(string \<Rightarrow> dayjs) \<Rightarrow> schedule \<Rightarrow> int \<Rightarrow> schedule" where
  "with_local_day_of_month local_of s localDayOfMonth = s\<lparr>sc_dayOfMonth := Some
     (if truthy (sc_timeOfDay s)
      then get_utc_day_of_month localDayOfMonth (local_of (the (sc_timeOfDay s)))
      else localDayOfMonth)\<rparr>"

definition with_local_time_of_day ::
    "(string \<Rightarrow> dayjs) \<Rightarrow> (dayjs \<Rightarrow> string) \<Rightarrow> schedule \<Rightarrow> dayjs \<Rightarrow> schedule" where
  "with_local_time_of_day local_of utc_text s localTime =
     (let parts = get_local_schedule_parts local_of s;
          s1 = s\<lparr>sc_timeOfDay := Some (utc_text localTime)\<rparr>;
          s2 = (case lp_weekday parts of None \<Rightarrow> s1
                | Some weekday \<Rightarrow> s1\<lparr>sc_weekday := Some (get_utc_weekday weekday localTime)\<rparr>)
      in (case lp_dayOfMonth parts of None \<Rightarrow> s2
          | Some day \<Rightarrow> s2\<lparr>sc_dayOfMonth := Some (get_utc_day_of_month day localTime)\<rparr>))"

section \<open>Changes (isScheduleChanged.ts)\<close>

definition is_schedule_changed :: "schedule \<Rightarrow> schedule \<Rightarrow> bool" where
  "is_schedule_changed acknowledged shown =
     (if sc_type acknowledged \<noteq> sc_type shown then True
      else case sc_type shown of
        HOURLY \<Rightarrow> False
      | DAILY \<Rightarrow> sc_timeOfDay acknowledged \<noteq> sc_timeOfDay shown
      | WEEKLY \<Rightarrow> sc_timeOfDay acknowledged \<noteq> sc_timeOfDay shown
          \<or> sc_weekday acknowledged \<noteq> sc_weekday shown
      | MONTHLY \<Rightarrow> sc_timeOfDay acknowledged \<noteq> sc_timeOfDay shown
          \<or> sc_dayOfMonth acknowledged \<noteq> sc_dayOfMonth shown
      | CRON \<Rightarrow> sc_cronExpression acknowledged \<noteq> sc_cronExpression shown)"

section \<open>The next run of a cron expression (getNextCronRun.ts)\<close>

definition cron_field_count :: nat where "cron_field_count = 5"
definition weekday_field_index :: nat where "weekday_field_index = 4"
definition max_cron_weekday :: int where "max_cron_weekday = 6"

text \<open>\<open>split(/\s+/)\<close> of a trimmed text.\<close>

fun split_spaces_from :: "string \<Rightarrow> nat \<Rightarrow> string \<Rightarrow> string list" where
  "split_spaces_from word 0 s = [word]"
| "split_spaces_from word (Suc fuel) s =
     (if s = [] then [word]
      else if space_length s \<noteq> 0 then word # split_spaces_from [] fuel (trim_start s)
      else split_spaces_from (word @ [hd s]) fuel (tl s))"

definition split_spaces :: "string \<Rightarrow> string list" where
  "split_spaces s = split_spaces_from [] (Suc (length s)) s"

definition is_letter :: "char \<Rightarrow> bool" where
  "is_letter c = (let n = of_char c :: nat in (65 \<le> n \<and> n \<le> 90) \<or> (97 \<le> n \<and> n \<le> 122))"

definition server_char :: "char \<Rightarrow> bool" where
  "server_char c = (is_digit c \<or> c \<in> set ''*,/?-'')"

text \<open>
  The repeated group of \<open>/^(?:[\d*,/?-]|\b[a-zA-Z]{3}\b)+$/\<close>; the flag says whether the character
  before the position is a word character, which \<open>\b\<close> asks. The two alternatives begin with
  different characters, so the matcher never has to backtrack.
\<close>

fun server_tokens :: "bool \<Rightarrow> string \<Rightarrow> bool" where
  "server_tokens w [] = True"
| "server_tokens w (a # s) =
     (if server_char a then server_tokens (is_digit a) s
      else case s of
        b # c # r \<Rightarrow> \<not> w \<and> is_letter a \<and> is_letter b \<and> is_letter c
          \<and> (r = [] \<or> \<not> is_word (hd r)) \<and> server_tokens True r
      | _ \<Rightarrow> False)"

definition matches_server_field :: "string \<Rightarrow> bool" where
  "matches_server_field s = (s \<noteq> [] \<and> server_tokens False s)"

text \<open>\<open>replace(/\/\d+/g, '')\<close> and \<open>match(/\d+/g)\<close>.\<close>

function without_steps :: "string \<Rightarrow> string" where
  "without_steps [] = []"
| "without_steps (c # s) =
     (if c = CHR ''/'' \<and> s \<noteq> [] \<and> is_digit (hd s) then without_steps (dropWhile is_digit s)
      else c # without_steps s)"
  by pat_completeness auto
termination without_steps
  by (relation "measure length") (auto simp: le_imp_less_Suc length_dropWhile_le)

function digit_runs :: "string \<Rightarrow> string list" where
  "digit_runs [] = []"
| "digit_runs (c # s) =
     (if is_digit c then (c # takeWhile is_digit s) # digit_runs (dropWhile is_digit s)
      else digit_runs s)"
  by pat_completeness auto
termination digit_runs
  by (relation "measure length") (auto simp: le_imp_less_Suc length_dropWhile_le)

definition has_weekday_above_server_maximum :: "string \<Rightarrow> bool" where
  "has_weekday_above_server_maximum weekdayField =
     list_ex (\<lambda>n. digits_value n > max_cron_weekday) (digit_runs (without_steps weekdayField))"

text \<open>\<open>search_end\<close> is \<open>dayjs().add(5, 'year')\<close>.\<close>

definition get_next_cron_run :: "(string \<Rightarrow> int option) \<Rightarrow> int \<Rightarrow> string \<Rightarrow> int option" where
  "get_next_cron_run parse_next search_end expression =
     (let fields = split_spaces (trim expression)
      in if length fields \<noteq> cron_field_count then None
         else if \<not> list_all matches_server_field fields then None
         else if has_weekday_above_server_maximum (fields ! weekday_field_index) then None
         else case parse_next expression of
           None \<Rightarrow> None
         | Some nextRun \<Rightarrow> if nextRun < search_end then Some nextRun else None)"

definition is_schedule_complete ::
    "(string \<Rightarrow> int option) \<Rightarrow> int \<Rightarrow> schedule option \<Rightarrow> bool" where
  "is_schedule_complete parse_next search_end schedule =
     (case schedule of
        None \<Rightarrow> False
      | Some s \<Rightarrow>
          let hasTimeOfDay = truthy (sc_timeOfDay s)
          in case sc_type s of
            HOURLY \<Rightarrow> True
          | DAILY \<Rightarrow> hasTimeOfDay
          | WEEKLY \<Rightarrow> hasTimeOfDay \<and> sc_weekday s \<noteq> None
          | MONTHLY \<Rightarrow> hasTimeOfDay \<and> sc_dayOfMonth s \<noteq> None
          | CRON \<Rightarrow> get_next_cron_run parse_next search_end
              (nullish (sc_cronExpression s) []) \<noteq> None)"

section \<open>Lemmas about the conversion\<close>

text \<open>
  What the code relies on from dayjs, for a stored time of day: the text reads as a clock time, the
  local wall clock is that time plus the offset, and the offset is less than a day.
\<close>

definition local_clock :: "(string \<Rightarrow> dayjs) \<Rightarrow> string \<Rightarrow> bool" where
  "local_clock local_of text =
     (let h = clock_hour text; m = clock_minute text; t = local_of text
      in 0 \<le> h \<and> h < 24 \<and> 0 \<le> m \<and> m < 60 \<and> \<bar>dj_utcOffset t\<bar> < minutes_in_day
        \<and> dj_hour t * 60 + dj_minute t = (h * 60 + m + dj_utcOffset t) mod minutes_in_day)"

lemma js_rem_nonneg: "0 \<le> a \<Longrightarrow> 0 < b \<Longrightarrow> js_rem a b = a mod b"
  by (cases "a = 0") (auto simp: js_rem_def)

lemma shift_day_range:
  assumes "0 < c" "1 \<le> day + m div minutes_in_day + c"
  shows "1 \<le> shift_day day m c" "shift_day day m c \<le> c"
  using assms by (auto simp: shift_day_def js_rem_nonneg) (metis add.commute pos_mod_bound zless_imp_add1_zle)

lemma shift_day_mod:
  assumes "0 < c" "1 \<le> day + m div minutes_in_day + c"
  shows "shift_day day m c = (day + m div minutes_in_day - 1) mod c + 1"
  using assms by (simp add: shift_day_def js_rem_nonneg)

lemma minutes_in_day_nonzero: "minutes_in_day \<noteq> 0"
  by (simp add: minutes_in_day_def)

lemma one_day_shift:
  assumes "0 \<le> t" "t < minutes_in_day" "\<bar>z\<bar> < minutes_in_day"
  shows "-1 \<le> (t + z) div minutes_in_day" "(t + z) div minutes_in_day \<le> 1"
    "((t + z) mod minutes_in_day - z) div minutes_in_day = - ((t + z) div minutes_in_day)"
proof -
  show "-1 \<le> (t + z) div minutes_in_day" "(t + z) div minutes_in_day \<le> 1"
    using assms by (auto simp: minutes_in_day_def)
  have "(t + z) mod minutes_in_day - z = t + (- ((t + z) div minutes_in_day)) * minutes_in_day"
    by (simp add: minus_mult_div_eq_mod [symmetric] algebra_simps)
  then have "((t + z) mod minutes_in_day - z) div minutes_in_day =
      - ((t + z) div minutes_in_day) + t div minutes_in_day"
    by (simp only: div_mult_self1 [OF minutes_in_day_nonzero])
  then show "((t + z) mod minutes_in_day - z) div minutes_in_day = - ((t + z) div minutes_in_day)"
    using assms(1,2) by simp
qed

text \<open>Both conversions undo each other on the days of the cycle, for either cycle length.\<close>

lemma shift_back:
  assumes "0 \<le> t" "t < minutes_in_day" "\<bar>z\<bar> < minutes_in_day" "2 \<le> c" "1 \<le> d" "d \<le> c"
  shows "shift_day (shift_day d (t + z) c) ((t + z) mod minutes_in_day - z) c = d"
    and "shift_day (shift_day d ((t + z) mod minutes_in_day - z) c) (t + z) c = d"
proof -
  define k where "k = (t + z) div minutes_in_day"
  have k: "-1 \<le> k" "k \<le> 1" "((t + z) mod minutes_in_day - z) div minutes_in_day = - k"
    using one_day_shift [OF assms(1-3)] by (auto simp: k_def)
  have d: "(d - 1) mod c = d - 1" using assms(5,6) by simp
  have r: "1 \<le> shift_day d (t + z) c" "1 \<le> shift_day d ((t + z) mod minutes_in_day - z) c"
    using assms(4,5) k by (auto intro!: shift_day_range(1) simp flip: k_def)
  have "shift_day (shift_day d (t + z) c) ((t + z) mod minutes_in_day - z) c =
      ((d + k - 1) mod c - k) mod c + 1"
    using assms(4,5) k r by (subst (1 2) shift_day_mod) (auto simp flip: k_def)
  also have "((d + k - 1) mod c - k) mod c = (d - 1) mod c"
    by (simp add: mod_diff_left_eq)
  finally show "shift_day (shift_day d (t + z) c) ((t + z) mod minutes_in_day - z) c = d"
    using d by simp
  have "shift_day (shift_day d ((t + z) mod minutes_in_day - z) c) (t + z) c =
      ((d - k - 1) mod c + k) mod c + 1"
    using assms(4,5) k r by (subst (1 2) shift_day_mod) (auto simp flip: k_def)
  also have "((d - k - 1) mod c + k) mod c = (d - 1) mod c"
    by (simp add: mod_add_left_eq)
  finally show "shift_day (shift_day d ((t + z) mod minutes_in_day - z) c) (t + z) c = d"
    using d by simp
qed

lemma local_clockD:
  assumes "local_clock local_of text"
  obtains t z where "0 \<le> t" "t < minutes_in_day" "\<bar>z\<bar> < minutes_in_day"
    "minutes_after_local_start_of_day local_of text = t + z"
    "minutes_after_utc_start_of_day (local_of text) = (t + z) mod minutes_in_day - z"
proof (rule that)
  let ?t = "clock_hour text * 60 + clock_minute text"
  show "0 \<le> ?t" "?t < minutes_in_day"
    using assms by (auto simp: local_clock_def Let_def minutes_in_day_def)
qed (use assms in \<open>auto simp: local_clock_def Let_def minutes_after_local_start_of_day_def
       minutes_after_utc_start_of_day_def\<close>)

lemma utc_local_weekday:
  assumes "local_clock local_of text" "1 \<le> d" "d \<le> days_in_week"
  shows "get_utc_weekday (get_local_weekday local_of d text) (local_of text) = d"
    "get_local_weekday local_of (get_utc_weekday d (local_of text)) text = d"
proof -
  obtain t z where tz: "0 \<le> t" "t < minutes_in_day" "\<bar>z\<bar> < minutes_in_day"
      "minutes_after_local_start_of_day local_of text = t + z"
      "minutes_after_utc_start_of_day (local_of text) = (t + z) mod minutes_in_day - z"
    using assms(1) by (rule local_clockD)
  show "get_utc_weekday (get_local_weekday local_of d text) (local_of text) = d"
    "get_local_weekday local_of (get_utc_weekday d (local_of text)) text = d"
    unfolding get_utc_weekday_def get_local_weekday_def tz(4,5)
    using shift_back [OF tz(1-3), of days_in_week d] assms(2,3) by (simp_all add: days_in_week_def)
qed

lemma utc_local_day_of_month:
  assumes "local_clock local_of text" "1 \<le> d" "d \<le> days_in_monthly_cycle"
  shows "get_utc_day_of_month (get_local_day_of_month local_of d text) (local_of text) = d"
    "get_local_day_of_month local_of (get_utc_day_of_month d (local_of text)) text = d"
proof -
  obtain t z where tz: "0 \<le> t" "t < minutes_in_day" "\<bar>z\<bar> < minutes_in_day"
      "minutes_after_local_start_of_day local_of text = t + z"
      "minutes_after_utc_start_of_day (local_of text) = (t + z) mod minutes_in_day - z"
    using assms(1) by (rule local_clockD)
  show "get_utc_day_of_month (get_local_day_of_month local_of d text) (local_of text) = d"
    "get_local_day_of_month local_of (get_utc_day_of_month d (local_of text)) text = d"
    unfolding get_utc_day_of_month_def get_local_day_of_month_def tz(4,5)
    using shift_back [OF tz(1-3), of days_in_monthly_cycle d] assms(2,3) by (simp_all add: days_in_monthly_cycle_def)
qed

lemma local_day_in_cycle:
  assumes "local_clock local_of text" "0 \<le> d"
  shows "1 \<le> get_local_weekday local_of d text" "get_local_weekday local_of d text \<le> 7"
    "1 \<le> get_local_day_of_month local_of d text" "get_local_day_of_month local_of d text \<le> 31"
proof -
  obtain t z where "0 \<le> t" "t < minutes_in_day" "\<bar>z\<bar> < minutes_in_day"
      and m: "minutes_after_local_start_of_day local_of text = t + z"
    using assms(1) by (rule local_clockD)
  then have k: "-1 \<le> (t + z) div minutes_in_day" using one_day_shift(1) by blast
  show "1 \<le> get_local_weekday local_of d text" "get_local_weekday local_of d text \<le> 7"
    "1 \<le> get_local_day_of_month local_of d text" "get_local_day_of_month local_of d text \<le> 31"
    unfolding get_local_weekday_def get_local_day_of_month_def m days_in_week_def
      days_in_monthly_cycle_def
    by (rule shift_day_range, use assms(2) k in simp_all)+
qed

section \<open>Properties\<close>

definition days_in_range :: "schedule \<Rightarrow> bool" where
  "days_in_range s =
     ((case sc_weekday s of None \<Rightarrow> True | Some w \<Rightarrow> 1 \<le> w \<and> w \<le> days_in_week)
      \<and> (case sc_dayOfMonth s of None \<Rightarrow> True | Some d \<Rightarrow> 1 \<le> d \<and> d \<le> days_in_monthly_cycle))"

text \<open>A browser whose zone keeps one offset, for concrete schedules.\<close>

definition fixed_zone :: "int \<Rightarrow> string \<Rightarrow> dayjs" where
  "fixed_zone z text =
     (let m = (clock_hour text * 60 + clock_minute text + z) mod minutes_in_day
      in \<lparr>dj_hour = m div 60, dj_minute = m mod 60, dj_utcOffset = z\<rparr>)"

definition clock_digits :: "int \<Rightarrow> string" where
  "clock_digits n = [char_of (nat (n div 10) + 48), char_of (nat (n mod 10) + 48)]"

definition fixed_zone_text :: "dayjs \<Rightarrow> string" where
  "fixed_zone_text t =
     (let m = (dj_hour t * 60 + dj_minute t - dj_utcOffset t) mod minutes_in_day
      in clock_digits (m div 60) @ [CHR '':''] @ clock_digits (m mod 60))"


text \<open>22:30 UTC on a Monday is a Tuesday in India, and 1 January's evening the 2nd.\<close>

definition evening_schedule :: schedule where
  "evening_schedule = \<lparr>sc_type = WEEKLY, sc_timeOfDay = Some ''22:30'', sc_weekday = Some 1,
     sc_dayOfMonth = Some 31, sc_cronExpression = None\<rparr>"

lemmas evening_simps = evening_schedule_def fixed_zone_def fixed_zone_text_def local_clock_def
  days_in_range_def clock_hour_def clock_minute_def digits_value_def minutes_in_day_def
  days_in_week_def days_in_monthly_cycle_def clock_digits_def




text \<open>What an unsaved-changes check looks at is exactly what the shown type uses: changing a
  schedule's time, day or expression counts if and only if the type has that field, and schedules
  the check calls unchanged are complete or incomplete together.\<close>

theorem unchanged_schedules_run_alike:
  assumes "\<not> is_schedule_changed a b"
  shows "sc_type a = sc_type b"
    and "is_schedule_complete parse_next search_end (Some a) =
      is_schedule_complete parse_next search_end (Some b)"
    and "\<not> is_schedule_changed b a"
    and "\<not> is_schedule_changed b c \<Longrightarrow> \<not> is_schedule_changed a c"
  using assms
  by (auto simp: is_schedule_changed_def is_schedule_complete_def truthy_def
      split: schedule_type.splits if_splits)

lemma schedule_unchanged_refl [simp]: "\<not> is_schedule_changed s s"
  by (simp add: is_schedule_changed_def split: schedule_type.split)

end
