(* ===== verification/Backup_Configs.thy ===== *)
theory Backup_Configs
  imports Schedules
begin

text \<open>
  Backup configurations as the forms hold and send them
  (\<open>pages/databases/model\<close>, \<open>entities/backup-configs/model\<close>): defaults, the draft of a physical
  configuration and the request built from it, whether a form is complete or changed, and the
  switches between retention policies. Numbers are integers. The encryption and the retention
  period are optional because the code tests them for a missing value.
\<close>

section \<open>Data\<close>

datatype physical_database_backup_type = FULL | FULL_INCREMENTAL | FULL_INCREMENTAL_WAL_STREAM
datatype physical_retention_policy = CHAINS | FULL_BACKUPS | CHAINS_AND_FULL_BACKUPS
datatype full_backups_retention_policy = LAST_N | FULL_GFS
datatype notification_trigger = BACKUP_SUCCESS | BACKUP_FAILED | CHAIN_BROKEN | WAL_GAP
datatype backup_encryption = NOT_ENCRYPTED | ENCRYPTED
datatype logical_retention_policy = TIME_PERIOD | COUNT | GFS
datatype retention_period = DAY | WEEK | MONTH | THREE_MONTHS | SIX_MONTHS | YEAR | TWO_YEARS
  | THREE_YEARS | FOUR_YEARS | FIVE_YEARS | FOREVER

record full_backups_retention =
  fb_policy :: full_backups_retention_policy
  fb_count :: int
  fb_gfsHours :: int
  fb_gfsDays :: int
  fb_gfsWeeks :: int
  fb_gfsMonths :: int
  fb_gfsYears :: int

text \<open>The retention of a request has no full backups part with \<open>CHAINS\<close>; the draft always has
  one. Settings and configurations are shared by both, parameterised by what differs.\<close>

record 'f physical_retention =
  pr_policy :: physical_retention_policy
  pr_chainsCount :: int
  pr_fullBackups :: 'f

record 'f physical_settings =
  ps_fullBackupSchedule :: schedule
  ps_incrementalBackupSchedule :: "schedule option"
  ps_retention :: "'f physical_retention"
  ps_walLagThresholdBytes :: int
  ps_notificationTriggers :: "notification_trigger list"

record logical_retention =
  lr_policy :: logical_retention_policy
  lr_period :: "retention_period option"
  lr_count :: int
  lr_gfsHours :: int
  lr_gfsDays :: int
  lr_gfsWeeks :: int
  lr_gfsMonths :: int
  lr_gfsYears :: int

record logical_settings =
  ls_schedule :: schedule
  ls_retention :: logical_retention
  ls_isRetryIfFailed :: bool
  ls_maxFailedTriesCount :: int
  ls_notificationTriggers :: "notification_trigger list"

record 's config_input =
  ci_isBackupsEnabled :: bool
  ci_storageId :: "string option"
  ci_encryption :: "backup_encryption option"
  ci_settings :: 's

type_synonym physical_config_input = "full_backups_retention option physical_settings config_input"
type_synonym physical_config_draft = "full_backups_retention physical_settings config_input"
type_synonym logical_config_input = "logical_settings config_input"

text \<open>The server's answer; its settings are of one of the two methods.\<close>

datatype backup_settings =
    LogicalSettings logical_settings
  | PhysicalSettings "full_backups_retention option physical_settings"

record backup_config = "backup_settings config_input" +
  bc_databaseId :: string

section \<open>From the server's answer to the form\<close>

definition to_logical_backup_config_input :: "backup_config \<Rightarrow> logical_config_input option" where
  "to_logical_backup_config_input c = (case ci_settings c of
       LogicalSettings settings \<Rightarrow> Some
         \<lparr>ci_isBackupsEnabled = ci_isBackupsEnabled c, ci_storageId = ci_storageId c,
          ci_encryption = ci_encryption c, ci_settings = settings\<rparr>
     | _ \<Rightarrow> None)"

definition to_physical_backup_config_input :: "backup_config \<Rightarrow> physical_config_input option" where
  "to_physical_backup_config_input c = (case ci_settings c of
       PhysicalSettings settings \<Rightarrow> Some
         \<lparr>ci_isBackupsEnabled = ci_isBackupsEnabled c, ci_storageId = ci_storageId c,
          ci_encryption = ci_encryption c, ci_settings = settings\<rparr>
     | _ \<Rightarrow> None)"

definition default_full_backups_retention :: full_backups_retention where
  "default_full_backups_retention =
     \<lparr>fb_policy = FULL_GFS, fb_count = 0, fb_gfsHours = 0, fb_gfsDays = 7, fb_gfsWeeks = 4,
      fb_gfsMonths = 12, fb_gfsYears = 3\<rparr>"

text \<open>\<open>{...x, retention}\<close> where the full backups part changes its type.\<close>

definition with_full_backups ::
    "('f physical_retention \<Rightarrow> 'g physical_retention) \<Rightarrow>
     'f physical_settings config_input \<Rightarrow> 'g physical_settings config_input" where
  "with_full_backups f c = (let s = ci_settings c in
     \<lparr>ci_isBackupsEnabled = ci_isBackupsEnabled c, ci_storageId = ci_storageId c,
      ci_encryption = ci_encryption c,
      ci_settings = \<lparr>ps_fullBackupSchedule = ps_fullBackupSchedule s,
        ps_incrementalBackupSchedule = ps_incrementalBackupSchedule s,
        ps_retention = f (ps_retention s),
        ps_walLagThresholdBytes = ps_walLagThresholdBytes s,
        ps_notificationTriggers = ps_notificationTriggers s\<rparr>\<rparr>)"

definition to_physical_backup_config_draft :: "physical_config_input \<Rightarrow> physical_config_draft" where
  "to_physical_backup_config_draft = with_full_backups (\<lambda>r.
     \<lparr>pr_policy = pr_policy r, pr_chainsCount = pr_chainsCount r,
      pr_fullBackups = nullish (pr_fullBackups r) default_full_backups_retention\<rparr>)"

definition to_full_backups_retention_input ::
    "full_backups_retention \<Rightarrow> full_backups_retention" where
  "to_full_backups_retention_input r =
     (if fb_policy r = LAST_N
      then r\<lparr>fb_gfsHours := 0, fb_gfsDays := 0, fb_gfsWeeks := 0, fb_gfsMonths := 0,
             fb_gfsYears := 0\<rparr>
      else r\<lparr>fb_count := 0\<rparr>)"

definition to_physical_backup_config_input_from_draft ::
    "physical_config_draft \<Rightarrow> physical_config_input" where
  "to_physical_backup_config_input_from_draft = with_full_backups (\<lambda>r.
     \<lparr>pr_policy = pr_policy r,
      pr_chainsCount = (if pr_policy r = FULL_BACKUPS then 0 else pr_chainsCount r),
      pr_fullBackups = (if pr_policy r = CHAINS then None
        else Some (to_full_backups_retention_input (pr_fullBackups r)))\<rparr>)"

section \<open>Defaults\<close>

definition has_incremental_backups :: "physical_database_backup_type \<Rightarrow> bool" where
  "has_incremental_backups backupType = (backupType \<noteq> FULL)"

definition default_wal_lag_threshold_bytes :: int where
  "default_wal_lag_threshold_bytes = 256 * 1024 * 1024"

definition get_shown_physical_notification_triggers ::
    "physical_database_backup_type \<Rightarrow> notification_trigger list" where
  "get_shown_physical_notification_triggers backupType =
     [BACKUP_SUCCESS, BACKUP_FAILED]
       @ (if has_incremental_backups backupType then [CHAIN_BROKEN] else [])
       @ (if backupType = FULL_INCREMENTAL_WAL_STREAM then [WAL_GAP] else [])"

definition create_default_physical_backup_config_draft ::
    "physical_database_backup_type \<Rightarrow> physical_config_draft" where
  "create_default_physical_backup_config_draft backupType =
     \<lparr>ci_isBackupsEnabled = True, ci_storageId = None, ci_encryption = Some NOT_ENCRYPTED,
      ci_settings =
        \<lparr>ps_fullBackupSchedule = \<lparr>sc_type = WEEKLY, sc_timeOfDay = Some ''00:00'',
           sc_weekday = Some 1, sc_dayOfMonth = None, sc_cronExpression = None\<rparr>,
         ps_incrementalBackupSchedule =
           (if has_incremental_backups backupType
            then Some \<lparr>sc_type = DAILY, sc_timeOfDay = Some ''00:00'', sc_weekday = None,
              sc_dayOfMonth = None, sc_cronExpression = None\<rparr>
            else None),
         ps_retention =
           \<lparr>pr_policy = (if has_incremental_backups backupType
              then CHAINS_AND_FULL_BACKUPS else FULL_BACKUPS),
            pr_chainsCount = 7, pr_fullBackups = default_full_backups_retention\<rparr>,
         ps_walLagThresholdBytes = (if backupType = FULL_INCREMENTAL_WAL_STREAM
           then default_wal_lag_threshold_bytes else 0),
         ps_notificationTriggers = [BACKUP_FAILED]\<rparr>\<rparr>"

definition create_default_logical_backup_config :: logical_config_input where
  "create_default_logical_backup_config =
     \<lparr>ci_isBackupsEnabled = True, ci_storageId = None, ci_encryption = Some ENCRYPTED,
      ci_settings =
        \<lparr>ls_schedule = \<lparr>sc_type = DAILY, sc_timeOfDay = Some ''00:00'', sc_weekday = None,
           sc_dayOfMonth = None, sc_cronExpression = None\<rparr>,
         ls_retention = \<lparr>lr_policy = TIME_PERIOD, lr_period = Some THREE_MONTHS, lr_count = 100,
           lr_gfsHours = 24, lr_gfsDays = 7, lr_gfsWeeks = 4, lr_gfsMonths = 12, lr_gfsYears = 3\<rparr>,
         ls_isRetryIfFailed = True, ls_maxFailedTriesCount = 3,
         ls_notificationTriggers = [BACKUP_FAILED]\<rparr>\<rparr>"

section \<open>Physical: complete and changed\<close>

definition is_full_backups_retention_complete :: "full_backups_retention \<Rightarrow> bool" where
  "is_full_backups_retention_complete r =
     (if fb_policy r = LAST_N then fb_count r > 0
      else fb_gfsHours r > 0 \<or> fb_gfsDays r > 0 \<or> fb_gfsWeeks r > 0 \<or> fb_gfsMonths r > 0
        \<or> fb_gfsYears r > 0)"

definition is_physical_retention_complete :: "full_backups_retention physical_retention \<Rightarrow> bool" where
  "is_physical_retention_complete r =
     ((pr_policy r = FULL_BACKUPS \<or> pr_chainsCount r > 0)
      \<and> (pr_policy r = CHAINS \<or> is_full_backups_retention_complete (pr_fullBackups r)))"

definition is_physical_backup_config_complete ::
    "(string \<Rightarrow> int option) \<Rightarrow> int \<Rightarrow> physical_config_draft \<Rightarrow> physical_database_backup_type \<Rightarrow> bool" where
  "is_physical_backup_config_complete parse_next search_end draft backupType =
     (let s = ci_settings draft
      in if \<not> is_physical_retention_complete (ps_retention s) then False
         else if \<not> ci_isBackupsEnabled draft then True
         else ci_encryption draft \<noteq> None
           \<and> is_schedule_complete parse_next search_end (Some (ps_fullBackupSchedule s))
           \<and> (\<not> has_incremental_backups backupType
              \<or> is_schedule_complete parse_next search_end (ps_incrementalBackupSchedule s)))"

definition is_full_backups_retention_changed ::
    "full_backups_retention \<Rightarrow> full_backups_retention \<Rightarrow> bool" where
  "is_full_backups_retention_changed acknowledged shown =
     (if fb_policy acknowledged \<noteq> fb_policy shown then True
      else if fb_policy shown = LAST_N then fb_count acknowledged \<noteq> fb_count shown
      else fb_gfsHours acknowledged \<noteq> fb_gfsHours shown
        \<or> fb_gfsDays acknowledged \<noteq> fb_gfsDays shown
        \<or> fb_gfsWeeks acknowledged \<noteq> fb_gfsWeeks shown
        \<or> fb_gfsMonths acknowledged \<noteq> fb_gfsMonths shown
        \<or> fb_gfsYears acknowledged \<noteq> fb_gfsYears shown)"

definition is_physical_retention_changed ::
    "full_backups_retention physical_retention \<Rightarrow> full_backups_retention physical_retention \<Rightarrow> bool" where
  "is_physical_retention_changed acknowledged shown =
     (if pr_policy acknowledged \<noteq> pr_policy shown then True
      else (pr_policy shown \<noteq> FULL_BACKUPS \<and> pr_chainsCount acknowledged \<noteq> pr_chainsCount shown)
        \<or> (pr_policy shown \<noteq> CHAINS
           \<and> is_full_backups_retention_changed (pr_fullBackups acknowledged) (pr_fullBackups shown)))"

definition is_optional_schedule_changed :: "schedule option \<Rightarrow> schedule option \<Rightarrow> bool" where
  "is_optional_schedule_changed acknowledged shown = (case (acknowledged, shown) of
       (Some a, Some b) \<Rightarrow> is_schedule_changed a b
     | (None, None) \<Rightarrow> False
     | _ \<Rightarrow> True)"

definition are_shown_triggers_changed ::
    "notification_trigger list \<Rightarrow> notification_trigger list \<Rightarrow> physical_database_backup_type \<Rightarrow> bool" where
  "are_shown_triggers_changed acknowledged shown backupType =
     list_ex (\<lambda>t. (t \<in> set acknowledged) \<noteq> (t \<in> set shown))
       (get_shown_physical_notification_triggers backupType)"

definition is_physical_backup_config_changed ::
    "physical_config_draft \<Rightarrow> physical_config_draft \<Rightarrow> physical_database_backup_type \<Rightarrow> bool" where
  "is_physical_backup_config_changed acknowledged shown backupType =
     (let a = ci_settings acknowledged; s = ci_settings shown
      in if ci_isBackupsEnabled acknowledged \<noteq> ci_isBackupsEnabled shown
           \<or> ci_storageId acknowledged \<noteq> ci_storageId shown
           \<or> ci_encryption acknowledged \<noteq> ci_encryption shown
           \<or> is_physical_retention_changed (ps_retention a) (ps_retention s)
         then True
         else if \<not> ci_isBackupsEnabled shown then False
         else is_schedule_changed (ps_fullBackupSchedule a) (ps_fullBackupSchedule s)
           \<or> (has_incremental_backups backupType
              \<and> is_optional_schedule_changed (ps_incrementalBackupSchedule a)
                  (ps_incrementalBackupSchedule s))
           \<or> are_shown_triggers_changed (ps_notificationTriggers a) (ps_notificationTriggers s)
               backupType)"

section \<open>Logical: policies, complete and changed\<close>

definition is_gfs_hours_shown :: "schedule \<Rightarrow> bool" where
  "is_gfs_hours_shown schedule = (sc_type schedule = HOURLY \<or> sc_type schedule = CRON)"

definition has_shown_gfs_period :: "logical_settings \<Rightarrow> bool" where
  "has_shown_gfs_period s = (let r = ls_retention s in
     lr_gfsDays r > 0 \<or> lr_gfsWeeks r > 0 \<or> lr_gfsMonths r > 0 \<or> lr_gfsYears r > 0
     \<or> (is_gfs_hours_shown (ls_schedule s) \<and> lr_gfsHours r > 0))"

definition change_logical_retention_policy ::
    "logical_settings \<Rightarrow> logical_retention_policy \<Rightarrow> logical_retention" where
  "change_logical_retention_policy settings policy =
     (let retention = ls_retention settings;
          defaults = ls_retention (ci_settings create_default_logical_backup_config)
      in if policy = COUNT \<and> lr_count retention \<le> 0
         then retention\<lparr>lr_policy := policy, lr_count := lr_count defaults\<rparr>
         else if policy = GFS \<and> \<not> has_shown_gfs_period settings
         then retention\<lparr>lr_policy := policy, lr_gfsHours := lr_gfsHours defaults,
            lr_gfsDays := lr_gfsDays defaults, lr_gfsWeeks := lr_gfsWeeks defaults,
            lr_gfsMonths := lr_gfsMonths defaults, lr_gfsYears := lr_gfsYears defaults\<rparr>
         else retention\<lparr>lr_policy := policy\<rparr>)"

definition get_retention_for_schedule :: "logical_settings \<Rightarrow> schedule \<Rightarrow> logical_retention" where
  "get_retention_for_schedule s nextSchedule =
     (let shouldResetGfsHours = sc_type nextSchedule \<noteq> sc_type (ls_schedule s)
            \<and> \<not> is_gfs_hours_shown nextSchedule \<and> lr_policy (ls_retention s) = GFS
      in if shouldResetGfsHours then (ls_retention s)\<lparr>lr_gfsHours := 24\<rparr> else ls_retention s)"

definition has_non_default_logical_advanced_values :: "logical_settings \<Rightarrow> bool" where
  "has_non_default_logical_advanced_values settings =
     (let defaults = ci_settings create_default_logical_backup_config
      in ls_isRetryIfFailed settings \<noteq> ls_isRetryIfFailed defaults
         \<or> ls_maxFailedTriesCount settings \<noteq> ls_maxFailedTriesCount defaults)"

definition is_logical_retention_complete :: "logical_settings \<Rightarrow> bool" where
  "is_logical_retention_complete settings = (case lr_policy (ls_retention settings) of
       TIME_PERIOD \<Rightarrow> lr_period (ls_retention settings) \<noteq> None
     | COUNT \<Rightarrow> lr_count (ls_retention settings) > 0
     | GFS \<Rightarrow> has_shown_gfs_period settings)"

definition is_logical_backup_config_complete ::
    "(string \<Rightarrow> int option) \<Rightarrow> int \<Rightarrow> logical_config_input \<Rightarrow> bool" where
  "is_logical_backup_config_complete parse_next search_end config =
     (if \<not> is_logical_retention_complete (ci_settings config) then False
      else if \<not> ci_isBackupsEnabled config then True
      else ci_encryption config \<noteq> None
        \<and> is_schedule_complete parse_next search_end (Some (ls_schedule (ci_settings config))))"

definition is_logical_retention_changed :: "logical_retention \<Rightarrow> logical_settings \<Rightarrow> bool" where
  "is_logical_retention_changed acknowledged shownSettings =
     (let shown = ls_retention shownSettings; schedule = ls_schedule shownSettings
      in if lr_policy acknowledged \<noteq> lr_policy shown then True
         else case lr_policy shown of
           TIME_PERIOD \<Rightarrow> lr_period acknowledged \<noteq> lr_period shown
         | COUNT \<Rightarrow> lr_count acknowledged \<noteq> lr_count shown
         | GFS \<Rightarrow> lr_gfsDays acknowledged \<noteq> lr_gfsDays shown
             \<or> lr_gfsWeeks acknowledged \<noteq> lr_gfsWeeks shown
             \<or> lr_gfsMonths acknowledged \<noteq> lr_gfsMonths shown
             \<or> lr_gfsYears acknowledged \<noteq> lr_gfsYears shown
             \<or> (is_gfs_hours_shown schedule \<and> lr_gfsHours acknowledged \<noteq> lr_gfsHours shown))"

text \<open>The comparison of a number of texts or triggers without regard to their order; the
  notifiers' comparison of the connection section is its negation.\<close>

definition are_triggers_changed :: "'a list \<Rightarrow> 'a list \<Rightarrow> bool" where
  "are_triggers_changed acknowledged shown =
     (length acknowledged \<noteq> length shown \<or> list_ex (\<lambda>t. t \<notin> set acknowledged) shown)"

definition has_same_notifier_ids :: "string list \<Rightarrow> string list \<Rightarrow> bool" where
  "has_same_notifier_ids acknowledgedIds shownIds =
     (length acknowledgedIds = length shownIds
      \<and> list_all (\<lambda>i. i \<in> set acknowledgedIds) shownIds)"

definition is_logical_backup_config_changed ::
    "logical_config_input \<Rightarrow> logical_config_input \<Rightarrow> bool" where
  "is_logical_backup_config_changed acknowledged shown =
     (let a = ci_settings acknowledged; s = ci_settings shown
      in if ci_isBackupsEnabled acknowledged \<noteq> ci_isBackupsEnabled shown
           \<or> ci_storageId acknowledged \<noteq> ci_storageId shown
           \<or> ci_encryption acknowledged \<noteq> ci_encryption shown
           \<or> is_logical_retention_changed (ls_retention a) s
         then True
         else if \<not> ci_isBackupsEnabled shown then False
         else is_schedule_changed (ls_schedule a) (ls_schedule s)
           \<or> are_triggers_changed (ls_notificationTriggers a) (ls_notificationTriggers s)
           \<or> ls_isRetryIfFailed a \<noteq> ls_isRetryIfFailed s
           \<or> (ls_isRetryIfFailed s \<and> ls_maxFailedTriesCount a \<noteq> ls_maxFailedTriesCount s))"

text \<open>\<open>startFirstBackup\<close>: whether creating a database starts its first backup.\<close>

definition starts_first_backup :: "logical_config_input + physical_config_input \<Rightarrow> bool" where
  "starts_first_backup backupConfig = (case backupConfig of
       Inl c \<Rightarrow> ci_isBackupsEnabled c
     | Inr c \<Rightarrow> False)"

section \<open>Lemmas\<close>

lemma with_full_backups_simps [simp]:
  "ci_isBackupsEnabled (with_full_backups f c) = ci_isBackupsEnabled c"
  "ci_storageId (with_full_backups f c) = ci_storageId c"
  "ci_encryption (with_full_backups f c) = ci_encryption c"
  "ps_fullBackupSchedule (ci_settings (with_full_backups f c)) = ps_fullBackupSchedule (ci_settings c)"
  "ps_incrementalBackupSchedule (ci_settings (with_full_backups f c)) =
    ps_incrementalBackupSchedule (ci_settings c)"
  "ps_retention (ci_settings (with_full_backups f c)) = f (ps_retention (ci_settings c))"
  "ps_notificationTriggers (ci_settings (with_full_backups f c)) =
    ps_notificationTriggers (ci_settings c)"
  by (simp_all add: with_full_backups_def Let_def)

lemma with_full_backups_comp:
  "with_full_backups f (with_full_backups g c) = with_full_backups (\<lambda>r. f (g r)) c"
  by (simp add: with_full_backups_def Let_def)

lemma with_full_backups_id: "f (ps_retention (ci_settings c)) = ps_retention (ci_settings c) \<Longrightarrow>
    with_full_backups f c = c"
  for c :: "'f physical_settings config_input"
  by (cases c; cases "ci_settings c") (simp add: with_full_backups_def)

lemmas request_defs = to_physical_backup_config_input_from_draft_def
  to_physical_backup_config_draft_def to_full_backups_retention_input_def

lemma optional_schedule_unchanged_refl [simp]: "\<not> is_optional_schedule_changed s s"
  by (simp add: is_optional_schedule_changed_def split: option.split)

lemma triggers_unchanged_refl [simp]: "\<not> are_shown_triggers_changed ts ts backupType"
  by (simp add: are_shown_triggers_changed_def list_ex_iff)

lemma full_backups_request_eq_iff:
  "to_full_backups_retention_input a = to_full_backups_retention_input b \<longleftrightarrow>
    \<not> is_full_backups_retention_changed a b"
  by (cases "fb_policy a"; cases "fb_policy b"; cases a; cases b)
    (auto simp: to_full_backups_retention_input_def is_full_backups_retention_changed_def)

text \<open>Without duplicates the comparison by length and membership is equality of sets.\<close>

lemma triggers_changed_iff:
  "distinct a \<Longrightarrow> distinct b \<Longrightarrow> are_triggers_changed a b \<longleftrightarrow> set a \<noteq> set b"
  by (auto simp: are_triggers_changed_def list_ex_iff distinct_card [symmetric])
    (metis card_subset_eq finite_set subsetI)+

lemma same_notifier_ids_iff: "has_same_notifier_ids a b \<longleftrightarrow> \<not> are_triggers_changed a b"
  by (auto simp: has_same_notifier_ids_def are_triggers_changed_def list_ex_iff list_all_iff)

lemma logical_unchanged_refl: "\<not> is_logical_backup_config_changed c c"
  by (auto simp: is_logical_backup_config_changed_def is_logical_retention_changed_def
      are_triggers_changed_def list_ex_iff Let_def split: logical_retention_policy.splits)

section \<open>Properties\<close>

text \<open>What the API's contract asks of the retention of a physical configuration: chains are counted
  exactly with the policies that keep them, full backups are described exactly with those that keep
  them, and only the chosen rule's values are set.\<close>

definition full_backups_fit :: "full_backups_retention \<Rightarrow> bool" where
  "full_backups_fit r = (let periods = [fb_gfsHours r, fb_gfsDays r, fb_gfsWeeks r, fb_gfsMonths r,
       fb_gfsYears r]
     in case fb_policy r of
       LAST_N \<Rightarrow> fb_count r > 0 \<and> list_all (\<lambda>n. n = 0) periods
     | FULL_GFS \<Rightarrow> fb_count r = 0 \<and> list_ex (\<lambda>n. n > 0) periods)"

definition retention_fits :: "full_backups_retention option physical_retention \<Rightarrow> bool" where
  "retention_fits r = (case pr_policy r of
       CHAINS \<Rightarrow> pr_chainsCount r > 0 \<and> pr_fullBackups r = None
     | FULL_BACKUPS \<Rightarrow> pr_chainsCount r = 0 \<and>
         (case pr_fullBackups r of None \<Rightarrow> False | Some f \<Rightarrow> full_backups_fit f)
     | CHAINS_AND_FULL_BACKUPS \<Rightarrow> pr_chainsCount r > 0 \<and>
         (case pr_fullBackups r of None \<Rightarrow> False | Some f \<Rightarrow> full_backups_fit f))"

abbreviation sent_retention ::
    "physical_config_draft \<Rightarrow> full_backups_retention option physical_retention" where
  "sent_retention d \<equiv> ps_retention (ci_settings (to_physical_backup_config_input_from_draft d))"

lemma full_backups_fit_iff:
  "full_backups_fit (to_full_backups_retention_input r) \<longleftrightarrow> is_full_backups_retention_complete r"
  by (cases "fb_policy r") (auto simp: full_backups_fit_def to_full_backups_retention_input_def
      is_full_backups_retention_complete_def Let_def)

lemma retention_complete_iff:
  "is_physical_retention_complete (ps_retention (ci_settings d)) \<longleftrightarrow> retention_fits (sent_retention d)"
  by (cases "pr_policy (ps_retention (ci_settings d))")
    (auto simp: is_physical_retention_complete_def retention_fits_def full_backups_fit_iff
      to_physical_backup_config_input_from_draft_def)

text \<open>The form calls the retention complete if and only if the retention it would send keeps
  the contract, and calls it changed if and only if it would send another one: values of a policy
  not chosen neither block a save nor count as a change.\<close>

theorem retention_checks_match_the_request:
  "(is_physical_retention_complete (ps_retention (ci_settings d)) = retention_fits (sent_retention d))
   \<and> (is_physical_retention_changed (ps_retention (ci_settings d)) (ps_retention (ci_settings e)) =
      (sent_retention d \<noteq> sent_retention e))"
proof
  show "is_physical_retention_complete (ps_retention (ci_settings d)) =
      retention_fits (sent_retention d)"
    by (rule retention_complete_iff)
  show "is_physical_retention_changed (ps_retention (ci_settings d)) (ps_retention (ci_settings e)) =
      (sent_retention d \<noteq> sent_retention e)"
    by (cases "pr_policy (ps_retention (ci_settings e))")
      (auto simp: is_physical_retention_changed_def full_backups_request_eq_iff
        to_physical_backup_config_input_from_draft_def)
qed

text \<open>A physical configuration survives its trips to the server: shown again after a save, the
  form has no unsaved change and would send the same request, whatever was chosen.\<close>

theorem saved_physical_form_is_clean:
  "\<not> is_physical_backup_config_changed
      (to_physical_backup_config_draft (to_physical_backup_config_input_from_draft d)) d backupType
   \<and> to_physical_backup_config_input_from_draft
      (to_physical_backup_config_draft (to_physical_backup_config_input_from_draft d)) =
    to_physical_backup_config_input_from_draft d"
proof
  show "\<not> is_physical_backup_config_changed
      (to_physical_backup_config_draft (to_physical_backup_config_input_from_draft d)) d backupType"
    by (simp add: is_physical_backup_config_changed_def Let_def request_defs with_full_backups_comp
        is_physical_retention_changed_def is_full_backups_retention_changed_def)
  show "to_physical_backup_config_input_from_draft
      (to_physical_backup_config_draft (to_physical_backup_config_input_from_draft d)) =
    to_physical_backup_config_input_from_draft d"
    unfolding to_physical_backup_config_input_from_draft_def to_physical_backup_config_draft_def
      with_full_backups_comp
    by (rule arg_cong [where f = "\<lambda>f. with_full_backups f d"])
      (auto simp: to_full_backups_retention_input_def)
qed

lemma full_backups_request_id: "full_backups_fit f \<Longrightarrow> to_full_backups_retention_input f = f"
  by (cases f; cases "fb_policy f")
    (auto simp: full_backups_fit_def to_full_backups_retention_input_def Let_def)

text \<open>A configuration of the server that keeps the contract is sent back exactly as it came.\<close>

lemma contract_config_sent_back:
  assumes "retention_fits (ps_retention (ci_settings i))"
  shows "to_physical_backup_config_input_from_draft (to_physical_backup_config_draft i) = i"
  unfolding to_physical_backup_config_input_from_draft_def to_physical_backup_config_draft_def
    with_full_backups_comp
  using assms
  by (intro with_full_backups_id; cases "ps_retention (ci_settings i)";
      cases "pr_policy (ps_retention (ci_settings i))")
    (auto simp: retention_fits_def full_backups_request_id split: option.splits)

definition switch_policy :: "logical_settings \<Rightarrow> logical_retention_policy \<Rightarrow> logical_settings" where
  "switch_policy s p = s\<lparr>ls_retention := change_logical_retention_policy s p\<rparr>"

text \<open>The default draft is complete and keeps only what its backup type can have.\<close>

lemma default_draft_complete:
  "is_physical_backup_config_complete parse_next search_end
    (create_default_physical_backup_config_draft backupType) backupType"
  by (simp add: is_physical_backup_config_complete_def create_default_physical_backup_config_draft_def
      is_physical_retention_complete_def is_full_backups_retention_complete_def
      default_full_backups_retention_def is_schedule_complete_def truthy_def Let_def)

text \<open>Choosing another retention policy leaves a complete form, except for a time period that was
  never set, and choosing the first policy again is no change.\<close>

theorem policy_switch_is_safe:
  assumes "lr_period (ls_retention s) \<noteq> None" and "is_logical_retention_complete s"
  shows "is_logical_retention_complete (switch_policy s p)
    \<and> \<not> is_logical_retention_changed (ls_retention s)
        (switch_policy (switch_policy s p) (lr_policy (ls_retention s)))"
proof
  show "is_logical_retention_complete (switch_policy s p)"
    using assms(1)
    by (cases p) (auto simp: is_logical_retention_complete_def switch_policy_def
        change_logical_retention_policy_def has_shown_gfs_period_def
        create_default_logical_backup_config_def Let_def)
  show "\<not> is_logical_retention_changed (ls_retention s)
      (switch_policy (switch_policy s p) (lr_policy (ls_retention s)))"
    using assms(2)
    by (cases p; cases "lr_policy (ls_retention s)")
      (auto simp: is_logical_retention_complete_def is_logical_retention_changed_def switch_policy_def
        change_logical_retention_policy_def has_shown_gfs_period_def Let_def)
qed

lemma policy_switch_is_safe_witness:
  "is_logical_retention_complete
      (switch_policy (ci_settings create_default_logical_backup_config) GFS)
    \<and> \<not> is_logical_retention_changed (ls_retention (ci_settings create_default_logical_backup_config))
        (switch_policy (switch_policy (ci_settings create_default_logical_backup_config) GFS)
          TIME_PERIOD)"
  using policy_switch_is_safe [of "ci_settings create_default_logical_backup_config" GFS]
  by (simp add: create_default_logical_backup_config_def is_logical_retention_complete_def)

end
