(* ===== verification/Sessions.thy ===== *)
theory Sessions
  imports Js_Text
begin

text \<open>
  The browser's sign-in state (\<open>shared/auth\<close>): the session snapshot kept over \<open>localStorage\<close>, which
  other tabs write too, and the intents that decide whether a sign-in answer still counts.

  Module variables and the two storages are one state record. A storage is a map from keys to
  texts. A snapshot is compared by object identity in the code; here by value, which is the same
  because every new snapshot has a greater generation (\<open>generation_identifies_snapshot\<close>). Listeners
  are named and a notification is an entry of a log; what a listener does is its component's. A browser without \<open>localStorage\<close> is not modelled.
\<close>

section \<open>State\<close>

record session_snapshot =
  ss_token :: "string option"
  ss_userId :: "string option"
  ss_generation :: nat

record auth_intent =
  ai_generation :: nat
  ai_revision :: nat

record identity =
  id_token :: string
  id_userId :: string

record 'l session_state =
  st_local :: "string \<Rightarrow> string option"
  st_session_storage :: "string \<Rightarrow> string option"
  st_listeners :: "'l list"
  st_notified :: "'l list"
  st_snapshot :: session_snapshot
  st_revision :: nat

record 'l subscription =
  sb_listener :: 'l
  sb_isSubscribed :: bool

definition token_key :: string where "token_key = ''databasus_user_token''"
definition user_key :: string where "user_key = ''databasus_user_id''"

definition initial_session_snapshot :: session_snapshot where
  "initial_session_snapshot = \<lparr>ss_token = None, ss_userId = None, ss_generation = 0\<rparr>"

section \<open>Storage keys of a user's selections\<close>

definition is_upper :: "char \<Rightarrow> bool" where
  "is_upper c = (let n = of_char c :: nat in 65 \<le> n \<and> n \<le> 90)"

text \<open>\<open>/^selected[A-Z][A-Za-z]*Id_/\<close>.\<close>

fun letters_then_id :: "string \<Rightarrow> bool" where
  "letters_then_id [] = False"
| "letters_then_id (c # s) =
     (take 3 (c # s) = ''Id_'' \<or> ((is_upper c \<or> is_lower c) \<and> letters_then_id s))"

definition scoped_selection_key :: "string \<Rightarrow> bool" where
  "scoped_selection_key key =
     (take 8 key = ''selected'' \<and>
      (case drop 8 key of [] \<Rightarrow> False | c # s \<Rightarrow> is_upper c \<and> letters_then_id s))"

definition remove_item :: "string \<Rightarrow> (string \<Rightarrow> string option) \<Rightarrow> string \<Rightarrow> string option" where
  "remove_item key storage = storage(key := None)"

definition set_item ::
    "string \<Rightarrow> string \<Rightarrow> (string \<Rightarrow> string option) \<Rightarrow> string \<Rightarrow> string option" where
  "set_item key v storage = storage(key := Some v)"

text \<open>The code walks the stored keys; no key is empty-tested here because the empty key does not
  match the pattern.\<close>

definition remove_scoped_selections ::
    "(string \<Rightarrow> string option) \<Rightarrow> string \<Rightarrow> string option" where
  "remove_scoped_selections storage =
     (\<lambda>key. if scoped_selection_key key then None else storage key)"

section \<open>Sessions (session.ts)\<close>

text \<open>\<open>getItem(key) || undefined\<close>.\<close>

definition stored_text :: "(string \<Rightarrow> string option) \<Rightarrow> string \<Rightarrow> string option" where
  "stored_text storage key = or_text (storage key) None"

definition get_session_snapshot :: "'l session_state \<Rightarrow> session_snapshot \<times> 'l session_state" where
  "get_session_snapshot s =
     (let token = stored_text (st_local s) token_key;
          userId = stored_text (st_local s) user_key;
          snap = st_snapshot s
      in if token \<noteq> ss_token snap \<or> userId \<noteq> ss_userId snap
         then let snap' = \<lparr>ss_token = token, ss_userId = userId,
                           ss_generation = ss_generation snap + 1\<rparr>
              in (snap', s\<lparr>st_snapshot := snap', st_revision := st_revision s + 1\<rparr>)
         else (snap, s))"

definition subscribe_session ::
    "'l \<Rightarrow> 'l session_state \<Rightarrow> 'l subscription \<times> 'l session_state" where
  "subscribe_session l s =
     (\<lparr>sb_listener = l, sb_isSubscribed = True\<rparr>,
      s\<lparr>st_listeners :=
          (if l \<in> set (st_listeners s) then st_listeners s else st_listeners s @ [l])\<rparr>)"

definition unsubscribe_session ::
    "'l subscription \<Rightarrow> 'l session_state \<Rightarrow> 'l subscription \<times> 'l session_state" where
  "unsubscribe_session b s =
     (if \<not> sb_isSubscribed b then (b, s)
      else (b\<lparr>sb_isSubscribed := False\<rparr>,
            s\<lparr>st_listeners := filter (\<lambda>l. l \<noteq> sb_listener b) (st_listeners s)\<rparr>))"

definition is_current_session ::
    "session_snapshot \<Rightarrow> 'l session_state \<Rightarrow> bool \<times> 'l session_state" where
  "is_current_session session s =
     (let (snap, s') = get_session_snapshot s in (session = snap, s'))"

definition write_identity ::
    "identity option \<Rightarrow> (string \<Rightarrow> string option) \<Rightarrow> string \<Rightarrow> string option" where
  "write_identity ident storage = (case ident of
       Some i \<Rightarrow> set_item user_key (id_userId i) (set_item token_key (id_token i) storage)
     | None \<Rightarrow> remove_item user_key (remove_item token_key storage))"

definition publish_session :: "identity option \<Rightarrow> 'l session_state \<Rightarrow> 'l session_state" where
  "publish_session ident s =
     (let (snap, s1) = get_session_snapshot s;
          generation = ss_generation snap + 1;
          l1 = write_identity ident (st_local s1);
          l2 = remove_scoped_selections (remove_item ''selected_workspace_id'' l1);
          l3 = remove_item ''physicalBackupsFilters'' (remove_item ''logicalBackupListFilter'' l2)
      in s1\<lparr>st_local := l3,
            st_session_storage :=
              remove_item ''databasus_oauth_sign_in_attempt'' (st_session_storage s1),
            st_snapshot := \<lparr>ss_token = map_option id_token ident,
              ss_userId = map_option id_userId ident, ss_generation = generation\<rparr>,
            st_revision := st_revision s1 + 1,
            st_notified := st_notified s1 @ st_listeners s1\<rparr>)"

definition activate_session :: "identity \<Rightarrow> 'l session_state \<Rightarrow> 'l session_state" where
  "activate_session ident s = publish_session (Some ident) s"

text \<open>\<open>!session.token\<close> also holds for an empty text. The default argument is the caller's
  \<open>invalidate_session (fst (get_session_snapshot s))\<close>.\<close>

definition invalidate_session ::
    "session_snapshot \<Rightarrow> 'l session_state \<Rightarrow> bool \<times> 'l session_state" where
  "invalidate_session session s =
     (if \<not> truthy (ss_token session) then (False, s)
      else let (cur, s1) = is_current_session session s
           in if \<not> cur then (False, s1) else (True, publish_session None s1))"

definition begin_auth_intent :: "'l session_state \<Rightarrow> auth_intent \<times> 'l session_state" where
  "begin_auth_intent s =
     (let (snap, s1) = get_session_snapshot s;
          revision = st_revision s1 + 1
      in (\<lparr>ai_generation = ss_generation snap, ai_revision = revision\<rparr>,
          s1\<lparr>st_revision := revision\<rparr>))"

definition is_current_auth_intent ::
    "auth_intent \<Rightarrow> 'l session_state \<Rightarrow> bool \<times> 'l session_state" where
  "is_current_auth_intent intent s =
     (let (snap, s1) = get_session_snapshot s
      in (ai_generation intent = ss_generation snap \<and> ai_revision intent = st_revision s1, s1))"

definition abandon_auth_intent :: "auth_intent \<Rightarrow> 'l session_state \<Rightarrow> 'l session_state" where
  "abandon_auth_intent intent s =
     (let (cur, s1) = is_current_auth_intent intent s
      in if cur then s1\<lparr>st_revision := st_revision s1 + 1\<rparr> else s1)"

definition accept_auth_session ::
    "auth_intent \<Rightarrow> identity \<Rightarrow> 'l session_state \<Rightarrow> bool \<times> 'l session_state" where
  "accept_auth_session intent ident s =
     (let (cur, s1) = is_current_auth_intent intent s
      in if \<not> cur then (False, s1) else (True, activate_session ident s1))"

section \<open>Hooks (useSessionGuard.ts, useAuthOperation.ts)\<close>

definition session_guard ::
    "bool \<Rightarrow> session_snapshot \<Rightarrow> 'l session_state \<Rightarrow> bool \<times> 'l session_state" where
  "session_guard isMounted session s =
     (if \<not> isMounted then (False, s) else is_current_session session s)"

record auth_operation =
  ao_intent :: "auth_intent option"
  ao_isMounted :: bool

definition operation_start ::
    "auth_operation \<Rightarrow> 'l session_state \<Rightarrow> auth_intent \<times> auth_operation \<times> 'l session_state" where
  "operation_start h s =
     (let (intent, s1) = begin_auth_intent s in (intent, h\<lparr>ao_intent := Some intent\<rparr>, s1))"

definition operation_is_current ::
    "auth_operation \<Rightarrow> auth_intent \<Rightarrow> 'l session_state \<Rightarrow> bool \<times> 'l session_state" where
  "operation_is_current h operation s =
     (if ao_isMounted h \<and> ao_intent h = Some operation
      then is_current_auth_intent operation s else (False, s))"

definition operation_accept ::
    "auth_operation \<Rightarrow> auth_intent \<Rightarrow> identity \<Rightarrow> 'l session_state \<Rightarrow> bool \<times> 'l session_state" where
  "operation_accept h operation ident s =
     (let (cur, s1) = operation_is_current h operation s
      in if cur then accept_auth_session operation ident s1 else (False, s1))"

definition operation_unmount ::
    "auth_operation \<Rightarrow> 'l session_state \<Rightarrow> auth_operation \<times> 'l session_state" where
  "operation_unmount h s =
     (h\<lparr>ao_isMounted := False\<rparr>,
      case ao_intent h of None \<Rightarrow> s | Some intent \<Rightarrow> abandon_auth_intent intent s)"

section \<open>What can happen in a browser\<close>

text \<open>Every operation of the module, in any order, and writes of other tabs to the storage.\<close>

datatype 'l session_event =
    EvRead
  | EvSubscribe 'l
  | EvUnsubscribe "'l subscription"
  | EvActivate identity
  | EvInvalidate session_snapshot
  | EvBegin
  | EvAbandon auth_intent
  | EvAccept auth_intent identity
  | EvOtherTab string "string option"

fun session_step :: "'l session_state \<Rightarrow> 'l session_event \<Rightarrow> 'l session_state" where
  "session_step s EvRead = snd (get_session_snapshot s)"
| "session_step s (EvSubscribe l) = snd (subscribe_session l s)"
| "session_step s (EvUnsubscribe b) = snd (unsubscribe_session b s)"
| "session_step s (EvActivate i) = activate_session i s"
| "session_step s (EvInvalidate x) = snd (invalidate_session x s)"
| "session_step s EvBegin = snd (begin_auth_intent s)"
| "session_step s (EvAbandon i) = abandon_auth_intent i s"
| "session_step s (EvAccept i d) = snd (accept_auth_session i d s)"
| "session_step s (EvOtherTab key v) = s\<lparr>st_local := (st_local s)(key := v)\<rparr>"

section \<open>The API client's use of the session (apiClient.ts)\<close>

text \<open>\<open>onRequest\<close>: the header value and the session remembered for the request.\<close>

definition api_on_request ::
    "'l session_state \<Rightarrow> (string option \<times> session_snapshot option) \<times> 'l session_state" where
  "api_on_request s =
     (let (session, s1) = get_session_snapshot s
      in if truthy (ss_token session)
         then ((Some (''Bearer '' @ the (ss_token session)), Some session), s1)
         else ((None, None), s1))"

text \<open>\<open>onResponse\<close> up to its first await: the session remembered for the request ends on a 401.\<close>

definition api_on_response ::
    "int \<Rightarrow> session_snapshot option \<Rightarrow> 'l session_state \<Rightarrow> 'l session_state" where
  "api_on_response status session s = (case session of
       Some x \<Rightarrow> if status = 401 then snd (invalidate_session x s) else s
     | None \<Rightarrow> s)"

section \<open>Lemmas: time only moves forward\<close>

definition later :: "'l session_state \<Rightarrow> 'l session_state \<Rightarrow> bool" where
  "later s s' \<longleftrightarrow>
     ss_generation (st_snapshot s) \<le> ss_generation (st_snapshot s') \<and>
     st_revision s \<le> st_revision s' \<and>
     (ss_generation (st_snapshot s) = ss_generation (st_snapshot s') \<longrightarrow>
        st_snapshot s = st_snapshot s') \<and>
     (st_revision s = st_revision s' \<longrightarrow> st_snapshot s = st_snapshot s')"

lemma later_refl [simp]: "later s s"
  by (simp add: later_def)

lemma later_trans: "later a b \<Longrightarrow> later b c \<Longrightarrow> later a c"
  by (auto simp: later_def)

lemma later_get [simp]: "later s (snd (get_session_snapshot s))"
  by (simp add: later_def get_session_snapshot_def Let_def)

lemma get_fst [simp]: "fst (get_session_snapshot s) = st_snapshot (snd (get_session_snapshot s))"
  by (simp add: get_session_snapshot_def Let_def)

lemma get_local [simp]: "st_local (snd (get_session_snapshot s)) = st_local s"
  by (simp add: get_session_snapshot_def Let_def)

lemma get_tokens:
  "ss_token (st_snapshot (snd (get_session_snapshot s))) = stored_text (st_local s) token_key"
  "ss_userId (st_snapshot (snd (get_session_snapshot s))) = stored_text (st_local s) user_key"
  by (auto simp: get_session_snapshot_def Let_def)

lemma get_again:
  assumes "ss_token (st_snapshot s) = stored_text (st_local s) token_key"
    and "ss_userId (st_snapshot s) = stored_text (st_local s) user_key"
  shows "get_session_snapshot s = (st_snapshot s, s)"
  using assms by (simp add: get_session_snapshot_def)

lemma publish_after_get:
  "publish_session ident s = publish_session ident (snd (get_session_snapshot s))"
  by (simp add: publish_session_def get_again get_tokens case_prod_unfold Let_def)

lemma later_publish [simp]: "later s (publish_session ident s)"
proof (rule later_trans [OF later_get])
  show "later (snd (get_session_snapshot s)) (publish_session ident s)"
    by (simp add: publish_session_def later_def Let_def case_prod_unfold)
qed

lemma publish_revision: "st_revision s < st_revision (publish_session ident s)"
  using later_get [of s] by (simp add: publish_session_def later_def Let_def case_prod_unfold)

lemma later_revision [simp]: "st_revision s < n \<Longrightarrow> later s (s\<lparr>st_revision := n\<rparr>)"
  by (simp add: later_def)

lemma is_current_session_snd [simp]:
  "snd (is_current_session x s) = snd (get_session_snapshot s)"
  by (simp add: is_current_session_def case_prod_unfold Let_def)

lemma is_current_intent_snd [simp]:
  "snd (is_current_auth_intent i s) = snd (get_session_snapshot s)"
  by (simp add: is_current_auth_intent_def case_prod_unfold Let_def)

lemma begin_snd:
  "snd (begin_auth_intent s) = (snd (get_session_snapshot s))
     \<lparr>st_revision := st_revision (snd (get_session_snapshot s)) + 1\<rparr>"
  by (simp add: begin_auth_intent_def case_prod_unfold Let_def)

lemma begin_fst:
  "ai_revision (fst (begin_auth_intent s)) = st_revision (snd (begin_auth_intent s))"
  "ai_generation (fst (begin_auth_intent s)) = ss_generation (st_snapshot (snd (begin_auth_intent s)))"
  by (simp_all add: begin_auth_intent_def case_prod_unfold Let_def)

lemma later_begin [simp]: "later s (snd (begin_auth_intent s))"
  unfolding begin_snd by (rule later_trans [OF later_get]) simp

lemma later_invalidate [simp]: "later s (snd (invalidate_session x s))"
  by (auto simp: invalidate_session_def case_prod_unfold Let_def intro: later_trans [OF later_get])

lemma later_abandon [simp]: "later s (abandon_auth_intent i s)"
  by (auto simp: abandon_auth_intent_def case_prod_unfold Let_def intro: later_trans [OF later_get])

lemma later_accept [simp]: "later s (snd (accept_auth_session i d s))"
  by (auto simp: accept_auth_session_def activate_session_def case_prod_unfold Let_def
      intro: later_trans [OF later_get])

lemma later_step [simp]: "later s (session_step s e)"
proof (cases e)
  case (EvOtherTab key v)
  then show ?thesis by (simp add: later_def)
next
  case (EvSubscribe l)
  then show ?thesis by (simp add: later_def subscribe_session_def)
next
  case (EvUnsubscribe b)
  then show ?thesis by (simp add: later_def unsubscribe_session_def)
qed (auto simp: activate_session_def)

interpretation sessions: invariant_machine session_step "later s0" for s0 :: "'l session_state"
  by unfold_locales (rule later_trans [OF _ later_step])

lemmas later_run = sessions.run_inv [OF later_refl]

section \<open>Intents are request guards\<close>

definition current_intent :: "'l session_state \<Rightarrow> auth_intent" where
  "current_intent s = (let s1 = snd (get_session_snapshot s)
     in \<lparr>ai_generation = ss_generation (st_snapshot s1), ai_revision = st_revision s1\<rparr>)"

lemma current_intent_iff:
  "fst (is_current_auth_intent i s) \<longleftrightarrow> i = current_intent s"
  by (cases i) (simp add: is_current_auth_intent_def current_intent_def case_prod_unfold Let_def)

lemma begin_synced:
  "get_session_snapshot (snd (begin_auth_intent s)) =
    (st_snapshot (snd (begin_auth_intent s)), snd (begin_auth_intent s))"
  unfolding begin_snd by (rule get_again) (simp_all add: get_tokens)

lemma begin_current: "current_intent (snd (begin_auth_intent s)) = fst (begin_auth_intent s)"
  by (cases "fst (begin_auth_intent s)")
    (use begin_fst [of s] in \<open>simp add: current_intent_def begin_synced Let_def\<close>)

lemma current_intent_revision: "st_revision s \<le> ai_revision (current_intent s)"
  using later_get [of s] by (simp add: current_intent_def later_def Let_def)

lemma begin_revision: "ai_revision (current_intent s) < ai_revision (current_intent (snd (begin_auth_intent s)))"
  unfolding begin_current begin_fst unfolding begin_snd by (simp add: current_intent_def Let_def)

lemma begin_many_revision:
  "ai_revision (current_intent s) + n \<le>
    ai_revision (current_intent (((\<lambda>s. snd (begin_auth_intent s)) ^^ n) s))"
proof (induction n)
  case 0
  then show ?case by simp
next
  case (Suc n)
  with begin_revision [of "((\<lambda>s. snd (begin_auth_intent s)) ^^ n) s"] show ?case by simp
qed

interpretation intents: request_guard "\<lambda>s. snd (begin_auth_intent s)" current_intent
  "\<lambda>s i. fst (is_current_auth_intent i s)" "\<lambda>s. True"
proof unfold_locales
  show "current_intent (((\<lambda>s. snd (begin_auth_intent s)) ^^ Suc n) s) \<noteq> current_intent s"
    for n and s :: "'a session_state"
    using begin_many_revision [of s "Suc n"] by (metis not_less_eq_eq le_add1 add_Suc_right add_leD1)
qed (simp_all add: current_intent_iff)

text \<open>What passes between the start of an intent and its answer shows in the revision.\<close>

lemma intent_current_unchanged:
  assumes "later (snd (begin_auth_intent s)) s'"
    and "fst (is_current_auth_intent (fst (begin_auth_intent s)) s')"
  shows "st_snapshot (snd (get_session_snapshot s')) = st_snapshot (snd (begin_auth_intent s))"
    and "st_revision s' = st_revision (snd (begin_auth_intent s))"
proof -
  let ?b = "snd (begin_auth_intent s)" and ?g = "snd (get_session_snapshot s')"
  have rev: "st_revision ?g = st_revision ?b"
    using assms(2) by (simp add: is_current_auth_intent_def case_prod_unfold Let_def begin_fst)
  have "later ?b ?g" using assms(1) later_get by (rule later_trans)
  with rev show "st_snapshot ?g = st_snapshot ?b" by (simp add: later_def)
  show "st_revision s' = st_revision ?b"
    using rev assms(1) later_get [of s'] by (simp add: later_def)
qed

lemma accept_true_iff:
  "fst (accept_auth_session i d s) = fst (is_current_auth_intent i s)"
  by (simp add: accept_auth_session_def case_prod_unfold Let_def)

lemma accept_false:
  "\<not> fst (accept_auth_session i d s) \<Longrightarrow>
    snd (accept_auth_session i d s) = snd (get_session_snapshot s)"
  by (auto simp: accept_auth_session_def case_prod_unfold Let_def split: if_splits)

section \<open>Properties\<close>

text \<open>C6: A sign-in answer is taken only if the user of the browser is still the one who started
  it: whatever happened between the start and the answer, in this tab or another, an accepted answer
  finds the same token and user in the storage, and a refused one leaves the storage alone.\<close>

theorem answer_accepted_only_for_unchanged_session:
  fixes s :: "'l session_state" and es :: "'l session_event list" and ident :: identity
  defines "intent \<equiv> fst (begin_auth_intent s)"
  defines "s' \<equiv> foldl session_step (snd (begin_auth_intent s)) es"
  shows "if fst (accept_auth_session intent ident s')
    then stored_text (st_local s') token_key = stored_text (st_local s) token_key
      \<and> stored_text (st_local s') user_key = stored_text (st_local s) user_key
    else st_local (snd (accept_auth_session intent ident s')) = st_local s'"
proof (cases "fst (accept_auth_session intent ident s')")
  case True
  have "later (snd (begin_auth_intent s)) s'" unfolding s'_def by (rule later_run)
  from intent_current_unchanged(1) [OF this] True
  have "st_snapshot (snd (get_session_snapshot s')) = st_snapshot (snd (begin_auth_intent s))"
    by (simp add: accept_true_iff intent_def)
  then have "st_snapshot (snd (get_session_snapshot s')) = st_snapshot (snd (get_session_snapshot s))"
    by (simp add: begin_snd)
  then show ?thesis using True by (metis get_tokens)
next
  case False
  then show ?thesis by (simp add: accept_false)
qed

text \<open>The events that end an intent: another one, a sign-in, the abandoned intent itself.\<close>

fun ends_intent :: "auth_intent \<Rightarrow> 'l session_event \<Rightarrow> bool" where
  "ends_intent i EvBegin = True"
| "ends_intent i (EvActivate d) = True"
| "ends_intent i (EvAbandon j) = (j = i)"
| "ends_intent i _ = False"

lemma ending_event_moves_revision:
  assumes "later (snd (begin_auth_intent s)) s'" "ends_intent (fst (begin_auth_intent s)) e"
  shows "st_revision (snd (begin_auth_intent s)) < st_revision (session_step s' e)"
proof (cases e)
  case (EvAbandon j)
  let ?b = "snd (begin_auth_intent s)" and ?g = "snd (get_session_snapshot s')"
  have j: "j = fst (begin_auth_intent s)" using assms(2) EvAbandon by simp
  have g: "later ?b ?g" using assms(1) later_get by (rule later_trans)
  show ?thesis
  proof (cases "fst (is_current_auth_intent j s')")
    case True
    then have "session_step s' e = ?g\<lparr>st_revision := st_revision ?g + 1\<rparr>"
      using EvAbandon by (simp add: abandon_auth_intent_def case_prod_unfold Let_def)
    then show ?thesis using g by (simp add: later_def)
  next
    case False
    then have "session_step s' e = ?g"
      using EvAbandon by (simp add: abandon_auth_intent_def case_prod_unfold Let_def)
    moreover have "st_revision ?b \<noteq> st_revision ?g"
    proof
      assume eq: "st_revision ?b = st_revision ?g"
      with g have "st_snapshot ?b = st_snapshot ?g" by (simp add: later_def)
      with eq have "fst (is_current_auth_intent j s')"
        by (simp add: j is_current_auth_intent_def case_prod_unfold Let_def begin_fst)
      with False show False by contradiction
    qed
    ultimately show ?thesis using g by (simp add: later_def)
  qed
next
  case EvBegin
  then show ?thesis
    using later_trans [OF assms(1) later_get] by (simp add: begin_snd later_def)
next
  case (EvActivate d)
  then show ?thesis
    using assms(1) publish_revision [of s' "Some d"] by (simp add: activate_session_def later_def)
qed (use assms(2) in auto)

text \<open>C7: Of the sign-ins a user starts only the last can succeed: an intent after which another
  one began, a session was activated, or which was itself abandoned, is never accepted again, and
  its answer changes nothing in the storage.\<close>

theorem superseded_sign_in_never_accepted:
  fixes s :: "'l session_state" and before after :: "'l session_event list"
  defines "intent \<equiv> fst (begin_auth_intent s)"
  assumes "ends_intent intent e"
  defines "s' \<equiv> foldl session_step (snd (begin_auth_intent s)) (before @ e # after)"
  shows "\<not> fst (accept_auth_session intent ident s')
    \<and> st_local (snd (accept_auth_session intent ident s')) = st_local s'"
proof -
  let ?b = "snd (begin_auth_intent s)"
  let ?m = "foldl session_step ?b before"
  have "st_revision ?b < st_revision (session_step ?m e)"
    using later_run assms(2) unfolding intent_def by (rule ending_event_moves_revision)
  also have "\<dots> \<le> st_revision s'"
    unfolding s'_def using later_run [of "session_step ?m e" after] by (simp add: later_def)
  finally have "st_revision s' \<noteq> st_revision ?b" by simp
  moreover have "later ?b s'" unfolding s'_def by (rule later_run)
  ultimately have "\<not> fst (accept_auth_session intent ident s')"
    using intent_current_unchanged(2) [of s s'] by (auto simp: accept_true_iff intent_def)
  then show ?thesis by (simp add: accept_false)
qed

definition signed_out_browser :: "nat session_state" where
  "signed_out_browser = \<lparr>st_local = (\<lambda>_. None), st_session_storage = (\<lambda>_. None),
     st_listeners = [], st_notified = [], st_snapshot = initial_session_snapshot, st_revision = 0\<rparr>"

definition some_identity :: identity where
  "some_identity = \<lparr>id_token = ''t1'', id_userId = ''u1''\<rparr>"

lemma superseded_sign_in_never_accepted_witness:
  "\<not> fst (accept_auth_session (fst (begin_auth_intent signed_out_browser)) some_identity
      (foldl session_step (snd (begin_auth_intent signed_out_browser)) ([EvRead] @ EvBegin # [])))"
  by (rule superseded_sign_in_never_accepted [THEN conjunct1]) simp

definition cleared_key :: "string \<Rightarrow> bool" where
  "cleared_key key \<longleftrightarrow> scoped_selection_key key \<or>
     key \<in> {''selected_workspace_id'', ''logicalBackupListFilter'', ''physicalBackupsFilters''}"

lemma session_change_keys:
  "st_local (publish_session ident s) key =
     (if key = token_key then map_option id_token ident
      else if key = user_key then map_option id_userId ident
      else if cleared_key key then None else st_local s key)"
proof -
  have keys: "\<not> scoped_selection_key token_key" "\<not> scoped_selection_key user_key"
    "token_key \<noteq> user_key" "\<not> cleared_key token_key" "\<not> cleared_key user_key"
    by (simp_all add: cleared_key_def scoped_selection_key_def token_key_def user_key_def)
  have l: "st_local (publish_session ident s) =
      remove_item ''physicalBackupsFilters'' (remove_item ''logicalBackupListFilter''
        (remove_scoped_selections (remove_item ''selected_workspace_id''
          (write_identity ident (st_local s)))))"
    by (simp add: publish_session_def case_prod_unfold Let_def)
  show ?thesis
    using keys unfolding l
    by (cases ident) (auto simp: remove_item_def remove_scoped_selections_def write_identity_def
        set_item_def cleared_key_def)
qed

text \<open>Signing in or out leaves nothing of the last user's selections behind and touches nothing
  else: afterwards the storage holds the new identity (or none), no selected workspace, no selected
  item of any kind, no backup list filters, and every other key as it was; the open OAuth attempt
  is gone, every listener is told, and the snapshot is a new one.\<close>

theorem session_change_clears_last_user:
  "st_local (publish_session ident s) = (\<lambda>key.
     if key = token_key then map_option id_token ident
     else if key = user_key then map_option id_userId ident
     else if cleared_key key then None else st_local s key)
   \<and> st_session_storage (publish_session ident s) ''databasus_oauth_sign_in_attempt'' = None
   \<and> st_notified (publish_session ident s) = st_notified s @ st_listeners s
   \<and> ss_generation (st_snapshot s) < ss_generation (st_snapshot (publish_session ident s))
   \<and> ss_token (st_snapshot (publish_session ident s)) = map_option id_token ident"
proof (intro conjI)
  show "st_local (publish_session ident s) = (\<lambda>key.
     if key = token_key then map_option id_token ident
     else if key = user_key then map_option id_userId ident
     else if cleared_key key then None else st_local s key)"
    by (rule ext) (rule session_change_keys)
  have "st_notified (snd (get_session_snapshot s)) = st_notified s"
    "st_listeners (snd (get_session_snapshot s)) = st_listeners s"
    by (simp_all add: get_session_snapshot_def Let_def)
  then show "st_notified (publish_session ident s) = st_notified s @ st_listeners s"
    by (simp add: publish_session_def case_prod_unfold Let_def)
  show "ss_generation (st_snapshot s) < ss_generation (st_snapshot (publish_session ident s))"
    using later_get [of s] by (simp add: publish_session_def case_prod_unfold Let_def later_def)
qed (simp_all add: publish_session_def case_prod_unfold Let_def remove_item_def)

text \<open>C21: An expired session's 401 signs out only that session: if the answer to a request arrives
  when the storage holds another token or user than the request was sent with, it changes nothing in
  the storage; answered at once, it signs the session out.\<close>

theorem late_unauthorized_answer_keeps_new_session:
  fixes s :: "'l session_state" and es :: "'l session_event list"
  defines "session \<equiv> snd (fst (api_on_request s))"
  defines "s1 \<equiv> snd (api_on_request s)"
  defines "s' \<equiv> foldl session_step s1 es"
  shows "(st_local (api_on_response 401 session s') = st_local s' \<or>
    stored_text (st_local s') token_key = stored_text (st_local s) token_key
      \<and> stored_text (st_local s') user_key = stored_text (st_local s) user_key)
    \<and> (if session = None then api_on_response 401 session s1 = s1
      else st_local (api_on_response 401 session s1) token_key = None
        \<and> st_local (api_on_response 401 session s1) user_key = None)"
proof -
  have s1: "s1 = snd (get_session_snapshot s)"
    by (simp add: s1_def api_on_request_def case_prod_unfold Let_def)
  have session: "session = (if truthy (ss_token (st_snapshot s1)) then Some (st_snapshot s1) else None)"
    by (simp add: session_def s1 api_on_request_def case_prod_unfold Let_def)
  have "st_local (api_on_response 401 session s') = st_local s' \<or>
    stored_text (st_local s') token_key = stored_text (st_local s) token_key
      \<and> stored_text (st_local s') user_key = stored_text (st_local s) user_key"
  proof (cases "st_snapshot s1 = st_snapshot (snd (get_session_snapshot s'))")
    case True
    then show ?thesis using get_tokens [of s] get_tokens [of s'] by (simp add: s1)
  next
    case False
    then show ?thesis
      by (simp add: session api_on_response_def invalidate_session_def is_current_session_def
          case_prod_unfold Let_def)
  qed
  moreover have "get_session_snapshot s1 = (st_snapshot s1, s1)"
    unfolding s1 by (rule get_again) (simp_all add: get_tokens)
  then have "if session = None then api_on_response 401 session s1 = s1
      else st_local (api_on_response 401 session s1) token_key = None
        \<and> st_local (api_on_response 401 session s1) user_key = None"
    using session_change_keys [of None s1]
    by (auto simp: session api_on_response_def invalidate_session_def is_current_session_def
        split: if_splits)
  ultimately show ?thesis by blast
qed

end
