(* ===== verification/Resources.thy ===== *)
theory Resources
  imports Js_Text
begin

text \<open>
  The shared state of the list screens: request revisions (\<open>RequestRevision.ts\<close>), the collection of
  a workspace's resources (\<open>useResourceCollection.ts\<close>) and the selected resource
  (\<open>useScopedSelection.ts\<close>).

  A hook's state variables are one record; a callback is a function on it; an effect and its
  cleanup are functions applied when React runs them. An asynchronous \<open>reload\<close> is cut at its await:
  \<open>start_collection_reload\<close> answers the revision the rest runs under. The session guard's answer at
  that moment is the argument \<open>cur\<close>. Calls of \<open>onError\<close> are a log.
\<close>

section \<open>Request revisions (RequestRevision.ts)\<close>

record request_revision =
  rr_revision :: nat

definition new_revision :: request_revision where
  "new_revision = \<lparr>rr_revision = 0\<rparr>"

definition get_current :: "request_revision \<Rightarrow> nat" where
  "get_current r = rr_revision r"

definition invalidate :: "request_revision \<Rightarrow> nat \<times> request_revision" where
  "invalidate r = (rr_revision r + 1, r\<lparr>rr_revision := rr_revision r + 1\<rparr>)"

definition is_current_revision :: "request_revision \<Rightarrow> nat \<Rightarrow> bool" where
  "is_current_revision r revision = (rr_revision r = revision)"

lemma invalidate_simps [simp]:
  "fst (invalidate r) = Suc (rr_revision r)" "rr_revision (snd (invalidate r)) = Suc (rr_revision r)"
  by (simp_all add: invalidate_def)

lemma invalidate_many: "rr_revision (((\<lambda>r. snd (invalidate r)) ^^ n) r) = rr_revision r + n"
  by (induction n) simp_all

interpretation revisions: request_guard "\<lambda>r. snd (invalidate r)" get_current is_current_revision
  "\<lambda>r. True"
proof unfold_locales
  show "get_current (((\<lambda>r. snd (invalidate r)) ^^ Suc n) r) \<noteq> get_current r" for n r
    unfolding get_current_def invalidate_many by simp
qed (simp_all add: is_current_revision_def get_current_def)

section \<open>A workspace's resources (useResourceCollection.ts)\<close>

record ('i, 'e) collection =
  co_items :: "'i list"
  co_isReady :: bool
  co_loadError :: "'e option"
  co_isLoading :: bool
  co_revision :: request_revision
  co_reported :: "'e list"

definition new_collection :: "('i, 'e) collection" where
  "new_collection = \<lparr>co_items = [], co_isReady = False, co_loadError = None, co_isLoading = True,
     co_revision = new_revision, co_reported = []\<rparr>"

text \<open>The effect of a scope key and its cleanup.\<close>

definition enter_scope :: "('i, 'e) collection \<Rightarrow> ('i, 'e) collection" where
  "enter_scope c = c\<lparr>co_items := [], co_isReady := False, co_loadError := None, co_isLoading := True\<rparr>"

definition leave_scope :: "('i, 'e) collection \<Rightarrow> ('i, 'e) collection" where
  "leave_scope c = c\<lparr>co_revision := snd (invalidate (co_revision c))\<rparr>"

definition change_scope :: "('i, 'e) collection \<Rightarrow> ('i, 'e) collection" where
  "change_scope c = enter_scope (leave_scope c)"

definition start_collection_reload ::
    "bool \<Rightarrow> bool \<Rightarrow> ('i, 'e) collection \<Rightarrow> nat option \<times> ('i, 'e) collection" where
  "start_collection_reload cur isSilent c =
     (if \<not> cur then (None, c)
      else let (requestRevision, r) = invalidate (co_revision c)
           in (Some requestRevision,
               c\<lparr>co_revision := r, co_isLoading := (if isSilent then co_isLoading c else True),
                 co_loadError := None\<rparr>))"

definition settle_collection_reload ::
    "bool \<Rightarrow> nat \<Rightarrow> 'e + 'i list \<Rightarrow> ('i, 'e) collection \<Rightarrow> ('i, 'e) collection" where
  "settle_collection_reload cur requestRevision answer c =
     (let isActive = cur \<and> is_current_revision (co_revision c) requestRevision;
          c1 = (if isActive then (case answer of
                  Inr items \<Rightarrow> c\<lparr>co_items := items, co_isReady := True\<rparr>
                | Inl e \<Rightarrow> c\<lparr>co_loadError := Some e, co_reported := co_reported c @ [e]\<rparr>)
                else c)
      in if isActive then c1\<lparr>co_isLoading := False\<rparr> else c1)"

definition clear_collection :: "('i, 'e) collection \<Rightarrow> ('i, 'e) collection" where
  "clear_collection c = c\<lparr>co_items := [], co_isReady := False\<rparr>"

definition accept_resource :: "('i \<Rightarrow> string) \<Rightarrow> 'i \<Rightarrow> ('i, 'e) collection \<Rightarrow> ('i, 'e) collection" where
  "accept_resource iid item c = c\<lparr>co_isReady := True,
     co_items := filter (\<lambda>r. iid r \<noteq> iid item) (co_items c) @ [item]\<rparr>"

definition remove_resource :: "('i \<Rightarrow> string) \<Rightarrow> string \<Rightarrow> ('i, 'e) collection \<Rightarrow> ('i, 'e) collection" where
  "remove_resource iid itemId c = c\<lparr>co_items := filter (\<lambda>i. iid i \<noteq> itemId) (co_items c)\<rparr>"

section \<open>The selected resource (useScopedSelection.ts)\<close>

record selection =
  sl_scopeKey :: string
  sl_selectedItemId :: "string option"
  sl_hasChosen :: bool

type_synonym storage = "string \<Rightarrow> string option"

definition read_selection :: "storage \<Rightarrow> string \<Rightarrow> selection" where
  "read_selection st scopeKey =
     \<lparr>sl_scopeKey = scopeKey, sl_selectedItemId = st scopeKey, sl_hasChosen = False\<rparr>"

definition current_selection :: "storage \<Rightarrow> string \<Rightarrow> selection \<Rightarrow> selection" where
  "current_selection st scopeKey sel =
     (if sl_scopeKey sel = scopeKey then sel else read_selection st scopeKey)"

definition shown_selection :: "string list \<Rightarrow> bool \<Rightarrow> bool \<Rightarrow> selection \<Rightarrow> string option" where
  "shown_selection itemIds isReady isMobile cur =
     (if \<not> isReady then None
      else if \<not> sl_hasChosen cur \<and> isMobile then None
      else if truthy (sl_selectedItemId cur) \<and> the (sl_selectedItemId cur) \<in> set itemIds
      then sl_selectedItemId cur
      else if sl_hasChosen cur \<and> \<not> truthy (sl_selectedItemId cur) then None
      else first_opt itemIds)"

definition select_item :: "string \<Rightarrow> string option \<Rightarrow> selection" where
  "select_item scopeKey itemId =
     \<lparr>sl_scopeKey = scopeKey, sl_selectedItemId = itemId, sl_hasChosen = True\<rparr>"

definition remove_selected :: "string \<Rightarrow> string list \<Rightarrow> string \<Rightarrow> selection" where
  "remove_selected scopeKey itemIds removedId =
     select_item scopeKey (first_opt (filter (\<lambda>i. i \<noteq> removedId) itemIds))"

definition acknowledge_selection :: "string \<Rightarrow> string option \<Rightarrow> selection \<Rightarrow> selection" where
  "acknowledge_selection scopeKey selectedItemId sel =
     (if sl_selectedItemId sel \<noteq> selectedItemId \<or> \<not> sl_hasChosen sel
      then \<lparr>sl_scopeKey = scopeKey, sl_selectedItemId = selectedItemId, sl_hasChosen = True\<rparr>
      else sel)"

definition write_selection :: "string \<Rightarrow> string option \<Rightarrow> storage \<Rightarrow> storage" where
  "write_selection scopeKey selectedItemId st =
     (if truthy selectedItemId then st(scopeKey := selectedItemId) else st(scopeKey := None))"

text \<open>One render with the effect that follows it. React runs the effect only when one of its
  dependencies changed since the last time, so these are remembered.\<close>

record selection_hook =
  sh_selection :: selection
  sh_storage :: storage
  sh_lastDeps :: "(string \<times> string option \<times> bool) option"

definition new_selection_hook :: "storage \<Rightarrow> string \<Rightarrow> selection_hook" where
  "new_selection_hook st scopeKey =
     \<lparr>sh_selection = read_selection st scopeKey, sh_storage = st, sh_lastDeps = None\<rparr>"

definition render_selection ::
    "string \<Rightarrow> string list \<Rightarrow> bool \<Rightarrow> bool \<Rightarrow> selection_hook \<Rightarrow> string option \<times> selection_hook" where
  "render_selection scopeKey itemIds isReady isMobile h =
     (let cur = current_selection (sh_storage h) scopeKey (sh_selection h);
          selectedItemId = shown_selection itemIds isReady isMobile cur;
          deps = Some (scopeKey, selectedItemId, isReady);
          h1 = h\<lparr>sh_selection := cur, sh_lastDeps := deps\<rparr>
      in (selectedItemId,
          if sh_lastDeps h \<noteq> deps \<and> isReady
          then h1\<lparr>sh_selection := acknowledge_selection scopeKey selectedItemId cur,
                  sh_storage := write_selection scopeKey selectedItemId (sh_storage h)\<rparr>
          else h1))"

section \<open>A collection refines a map from ids to resources\<close>

text \<open>What the collection promises its screens: a map of the resources of the current scope, which a
  load replaces and the local edits update. The list adds only an order.\<close>

definition collection_map :: "('i \<Rightarrow> string) \<Rightarrow> ('i, 'e) collection \<Rightarrow> string \<Rightarrow> 'i option" where
  "collection_map iid c = map_of (map (\<lambda>i. (iid i, i)) (co_items c))"

definition collection_ok :: "('i \<Rightarrow> string) \<Rightarrow> ('i, 'e) collection \<Rightarrow> bool" where
  "collection_ok iid c \<longleftrightarrow> distinct (map iid (co_items c))"

lemma map_of_filter_key:
  "map_of (map (\<lambda>i. (f i, i)) (filter (\<lambda>i. f i \<noteq> k) xs)) = (map_of (map (\<lambda>i. (f i, i)) xs))(k := None)"
  by (induction xs) (auto simp: fun_eq_iff)

lemma map_of_append_fresh:
  "f x \<notin> f ` set xs \<Longrightarrow>
    map_of (map (\<lambda>i. (f i, i)) (xs @ [x])) = (map_of (map (\<lambda>i. (f i, i)) xs))(f x \<mapsto> x)"
  by (induction xs) (auto simp: fun_eq_iff)

lemma accept_resource_map:
  "collection_map iid (accept_resource iid item c) = (collection_map iid c)(iid item \<mapsto> item)"
proof -
  have "iid item \<notin> iid ` set (filter (\<lambda>r. iid r \<noteq> iid item) (co_items c))" by auto
  from map_of_append_fresh [of iid item, OF this] show ?thesis
    by (simp add: collection_map_def accept_resource_def map_of_filter_key)
qed

lemma collection_ok_edits:
  assumes "collection_ok iid c"
  shows "collection_ok iid (accept_resource iid item c)" "collection_ok iid (remove_resource iid k c)"
    "collection_ok iid (clear_collection c)" "collection_ok iid (change_scope c)"
  using assms by (auto simp: collection_ok_def accept_resource_def remove_resource_def
      clear_collection_def change_scope_def enter_scope_def distinct_map_filter_key)

lemmas settle_defs = settle_collection_reload_def Let_def

text \<open>C14: The list of resources implements a map from ids: accepting a resource updates it at the
  resource's id, removing one deletes that id, clearing and changing the scope empty it, an active
  load replaces it with the answer's, any other answer leaves it, and no id is ever listed twice.\<close>

theorem collection_refines_map:
  assumes "collection_ok iid c" and "distinct (map iid answer)"
  shows "collection_map iid (accept_resource iid item c) = (collection_map iid c)(iid item \<mapsto> item)
    \<and> collection_map iid (remove_resource iid k c) = (collection_map iid c)(k := None)
    \<and> collection_map iid (clear_collection c) = Map.empty
    \<and> collection_map iid (change_scope c) = Map.empty
    \<and> collection_map iid (settle_collection_reload cur r (Inr answer) c) =
        (if cur \<and> is_current_revision (co_revision c) r
         then map_of (map (\<lambda>i. (iid i, i)) answer) else collection_map iid c)
    \<and> collection_map iid (settle_collection_reload cur r (Inl e) c) = collection_map iid c
    \<and> (\<forall>c' \<in> {accept_resource iid item c, remove_resource iid k c, clear_collection c,
          change_scope c, settle_collection_reload cur r (Inr answer) c,
          settle_collection_reload cur r (Inl e) c}. collection_ok iid c')"
  using assms collection_ok_edits [OF assms(1)]
  by (simp add: accept_resource_map settle_defs collection_ok_def)
    (simp add: collection_map_def remove_resource_def map_of_filter_key clear_collection_def
      change_scope_def enter_scope_def)

lemma collection_refines_map_witness:
  "collection_map id (accept_resource id ''b'' (new_collection :: (string, nat) collection)) ''b''
    = Some ''b''"
  using collection_refines_map [of id "new_collection :: (string, nat) collection" "[''a'']" "''b''"]
  by (simp add: collection_ok_def new_collection_def)

section \<open>Answers of a reload\<close>

text \<open>A list never shows the answer of a reload that was superseded: once the scope changed or
  another reload began, the first one's answer, success or failure, changes nothing, not even the
  loading flag of the newer one.\<close>

theorem superseded_reload_changes_nothing:
  assumes "fst (start_collection_reload cur isSilent c) = Some r"
    and "later = change_scope (snd (start_collection_reload cur isSilent c))
      \<or> later = snd (start_collection_reload True isSilent' (snd (start_collection_reload cur isSilent c)))"
  shows "settle_collection_reload cur' r answer later = later"
proof -
  let ?c1 = "snd (start_collection_reload cur isSilent c)"
  have r: "r = get_current (co_revision ?c1)"
    using assms(1) by (auto simp: start_collection_reload_def get_current_def Let_def invalidate_def
        split: if_splits)
  have "co_revision later = snd (invalidate (co_revision ?c1))"
    using assms(2) by (auto simp: change_scope_def enter_scope_def leave_scope_def
        start_collection_reload_def Let_def case_prod_unfold)
  then have "\<not> is_current_revision (co_revision later) r"
    using revisions.superseded_forever [of 1 "co_revision ?c1"] by (simp add: r)
  then show ?thesis by (simp add: settle_defs)
qed

lemma superseded_reload_changes_nothing_witness:
  "settle_collection_reload True 1 (Inr [1])
      (change_scope (snd (start_collection_reload True False (new_collection :: (nat, nat) collection))))
    = change_scope (snd (start_collection_reload True False new_collection))"
  by (rule superseded_reload_changes_nothing [of True False new_collection, where isSilent' = False])
    (simp_all add: start_collection_reload_def new_collection_def new_revision_def invalidate_def)

section \<open>The selection\<close>

definition hook_select :: "selection \<Rightarrow> selection_hook \<Rightarrow> selection_hook" where
  "hook_select sel h = h\<lparr>sh_selection := sel\<rparr>"

text \<open>The storage holds the selection of the last effect that ran for a ready list.\<close>

definition hook_ok :: "selection_hook \<Rightarrow> bool" where
  "hook_ok h \<longleftrightarrow> (case sh_lastDeps h of
     Some (k, Some i, True) \<Rightarrow> i \<noteq> [] \<longrightarrow> sh_storage h k = Some i
   | _ \<Rightarrow> True)"

lemma hook_okD: "hook_ok h \<Longrightarrow> sh_lastDeps h = Some (k, Some i, True) \<Longrightarrow> i \<noteq> [] \<Longrightarrow> sh_storage h k = Some i"
  by (simp add: hook_ok_def)

lemma hook_okI: "(\<And>k i. sh_lastDeps h = Some (k, Some i, True) \<Longrightarrow> i \<noteq> [] \<Longrightarrow> sh_storage h k = Some i) \<Longrightarrow> hook_ok h"
  by (auto simp: hook_ok_def split: option.splits bool.splits)

lemma new_hook_ok: "hook_ok (new_selection_hook st k)"
  by (simp add: hook_ok_def new_selection_hook_def)

lemma hook_select_ok: "hook_ok h \<Longrightarrow> hook_ok (hook_select sel h)"
  by (rule hook_okI) (simp add: hook_select_def hook_okD)

lemma shown_selection_SomeD:
  "shown_selection itemIds isReady isMobile cur = Some i \<Longrightarrow> isReady \<and> i \<in> set itemIds"
  by (auto simp: shown_selection_def truthy_def first_opt_def split: if_splits list.splits)

lemma render_keeps_hook_ok: "hook_ok h \<Longrightarrow> hook_ok (snd (render_selection k itemIds isReady isMobile h))"
  by (rule hook_okI) (auto simp: render_selection_def Let_def write_selection_def truthy_def
      dest: hook_okD split: if_splits)

lemma render_storage:
  assumes "hook_ok h" and "fst (render_selection k itemIds True isMobile h) = Some i" and "i \<noteq> []"
  shows "sh_storage (snd (render_selection k itemIds True isMobile h)) k = Some i"
  using assms hook_okD [OF assms(1)]
  by (auto simp: render_selection_def Let_def write_selection_def truthy_def)

text \<open>The shown selection is always one of the listed resources, and it is remembered: when a
  desktop screen opens anew with the same list, it shows the same one. Rendering one scope never
  touches another scope's memory.\<close>

theorem selection_is_listed_and_remembered:
  assumes "hook_ok h" and "[] \<notin> set itemIds"
    and "fst (render_selection k itemIds True isMobile h) = Some i"
    and "h' = snd (render_selection k itemIds True isMobile h)"
  shows "i \<in> set itemIds \<and> hook_ok h'
    \<and> fst (render_selection k itemIds True False (new_selection_hook (sh_storage h') k)) = Some i
    \<and> (sh_storage h')(k := None) = (sh_storage h)(k := None)"
proof (intro conjI)
  have "shown_selection itemIds True isMobile (current_selection (sh_storage h) k (sh_selection h)) = Some i"
    using assms(3) by (simp add: render_selection_def Let_def)
  then show i: "i \<in> set itemIds" by (auto dest: shown_selection_SomeD)
  show "hook_ok h'" unfolding assms(4) using assms(1) by (rule render_keeps_hook_ok)
  have "sh_storage h' k = Some i"
    using assms i unfolding assms(4) by (intro render_storage) auto
  moreover have "i \<noteq> []" using i assms(2) by auto
  ultimately show "fst (render_selection k itemIds True False (new_selection_hook (sh_storage h') k)) = Some i"
    using i by (simp add: render_selection_def new_selection_hook_def current_selection_def
        read_selection_def shown_selection_def truthy_def Let_def)
  show "(sh_storage h')(k := None) = (sh_storage h)(k := None)"
    unfolding assms(4) by (simp add: render_selection_def write_selection_def Let_def)
qed

lemma selection_is_listed_and_remembered_witness:
  "fst (render_selection ''k'' [''a'', ''b''] True False
      (new_selection_hook (sh_storage (snd (render_selection ''k'' [''a'', ''b''] True False
        (hook_select (select_item ''k'' (Some ''b'')) (new_selection_hook (\<lambda>_. None) ''k''))))) ''k''))
    = Some ''b''"
proof -
  let ?h = "hook_select (select_item ''k'' (Some ''b'')) (new_selection_hook (\<lambda>_. None) ''k'')"
  have "fst (render_selection ''k'' [''a'', ''b''] True False ?h) = Some ''b''" by code_simp
  from selection_is_listed_and_remembered
    [OF hook_select_ok [OF new_hook_ok] _ this refl] show ?thesis by simp
qed

end
