(* ===== verification/App_State.thy ===== *)
theory App_State
  imports Resources
begin

text \<open>
  The application's own state (\<open>app/model/useApplicationStartup.ts\<close>): the signed-in user, the
  instance settings, the workspaces and the selected one. Of a user, the settings and a workspace
  only the fields the code reads are kept. The session guard's answer is the argument \<open>cur\<close>;
  \<open>load\<close> and \<open>reconcileUnavailableWorkspace\<close> are cut at their awaits and answer the revision their
  rest runs under. \<open>rendered\<close> is the list of workspaces of the render the callback comes from.
\<close>

section \<open>State\<close>

datatype user_role = INSTANCE_ADMIN | INSTANCE_MEMBER
datatype workspace_role = WORKSPACE_OWNER | WORKSPACE_ADMIN | WORKSPACE_MEMBER | WORKSPACE_VIEWER

record app_user =
  us_id :: string
  us_role :: user_role

record instance_settings =
  is_isMemberAllowedToCreateWorkspaces :: bool

record workspace =
  ws_id :: string
  ws_name :: string
  ws_createdAt :: string
  ws_currentUserRole :: "workspace_role option"

record ('d, 'e) app_state =
  ap_user :: "app_user option"
  ap_settings :: "instance_settings option"
  ap_workspaces :: "workspace list"
  ap_selectedWorkspaceId :: "string option"
  ap_diskUsage :: "'d option"
  ap_error :: "'e option"
  ap_isLoading :: bool
  ap_revision :: request_revision
  ap_accessRevision :: request_revision
  ap_remembered :: "string option"

definition new_app_state :: "string option \<Rightarrow> ('d, 'e) app_state" where
  "new_app_state remembered = \<lparr>ap_user = None, ap_settings = None, ap_workspaces = [],
     ap_selectedWorkspaceId = None, ap_diskUsage = None, ap_error = None, ap_isLoading = True,
     ap_revision = new_revision, ap_accessRevision = new_revision, ap_remembered = remembered\<rparr>"

definition invalidate_access :: "('d, 'e) app_state \<Rightarrow> ('d, 'e) app_state" where
  "invalidate_access s = s\<lparr>ap_accessRevision := snd (invalidate (ap_accessRevision s))\<rparr>"

section \<open>Loading\<close>

definition start_app_load :: "('d, 'e) app_state \<Rightarrow> nat \<times> ('d, 'e) app_state" where
  "start_app_load s =
     (let (requestRevision, r) = invalidate (ap_revision s)
      in (requestRevision,
          (invalidate_access (s\<lparr>ap_revision := r\<rparr>))\<lparr>ap_isLoading := True, ap_error := None\<rparr>))"

definition settle_disk_usage :: "bool \<Rightarrow> nat \<Rightarrow> 'e + 'd \<Rightarrow> ('d, 'e) app_state \<Rightarrow> ('d, 'e) app_state" where
  "settle_disk_usage cur requestRevision answer s = (case answer of
       Inr disk \<Rightarrow> if cur \<and> is_current_revision (ap_revision s) requestRevision
                   then s\<lparr>ap_diskUsage := Some disk\<rparr> else s
     | Inl _ \<Rightarrow> s)"

definition find_workspace :: "workspace list \<Rightarrow> string option \<Rightarrow> workspace option" where
  "find_workspace ws i = find (\<lambda>w. Some (ws_id w) = i) ws"

definition first_workspace_id :: "workspace list \<Rightarrow> string option" where
  "first_workspace_id ws = map_option ws_id (first_opt ws)"

definition settle_app_load ::
    "bool \<Rightarrow> nat \<Rightarrow> 'e + (app_user \<times> instance_settings \<times> workspace list) \<Rightarrow>
     ('d, 'e) app_state \<Rightarrow> ('d, 'e) app_state" where
  "settle_app_load cur requestRevision answer s =
     (if \<not> (cur \<and> is_current_revision (ap_revision s) requestRevision) then s
      else case answer of
        Inr (currentUser, currentSettings, accessible) \<Rightarrow>
          let wanted = (case ap_selectedWorkspaceId s of None \<Rightarrow> ap_remembered s | Some i \<Rightarrow> Some i)
          in s\<lparr>ap_user := Some currentUser, ap_settings := Some currentSettings,
               ap_workspaces := accessible,
               ap_selectedWorkspaceId := (case find_workspace accessible wanted of
                  Some w \<Rightarrow> Some (ws_id w) | None \<Rightarrow> first_workspace_id accessible),
               ap_isLoading := False\<rparr>
      | Inl failure \<Rightarrow> s\<lparr>ap_error := Some failure, ap_isLoading := False\<rparr>)"

section \<open>Edits\<close>

definition accept_user :: "bool \<Rightarrow> app_user \<Rightarrow> ('d, 'e) app_state \<Rightarrow> ('d, 'e) app_state" where
  "accept_user cur changedUser s = (if cur then s\<lparr>ap_user := Some changedUser\<rparr> else s)"

definition accept_settings :: "bool \<Rightarrow> instance_settings \<Rightarrow> ('d, 'e) app_state \<Rightarrow> ('d, 'e) app_state" where
  "accept_settings cur changedSettings s = (if cur then s\<lparr>ap_settings := Some changedSettings\<rparr> else s)"

definition accept_workspace :: "bool \<Rightarrow> workspace \<Rightarrow> ('d, 'e) app_state \<Rightarrow> ('d, 'e) app_state" where
  "accept_workspace cur w s =
     (if \<not> cur then s
      else (invalidate_access s)
        \<lparr>ap_workspaces := filter (\<lambda>i. ws_id i \<noteq> ws_id w) (ap_workspaces s) @ [w],
         ap_selectedWorkspaceId := Some (ws_id w)\<rparr>)"

definition update_workspace :: "bool \<Rightarrow> workspace \<Rightarrow> ('d, 'e) app_state \<Rightarrow> ('d, 'e) app_state" where
  "update_workspace cur w s =
     (if \<not> cur then s
      else (invalidate_access s)
        \<lparr>ap_workspaces := map (\<lambda>i. if ws_id i = ws_id w then w else i) (ap_workspaces s)\<rparr>)"

definition remove_workspace ::
    "bool \<Rightarrow> workspace list \<Rightarrow> string \<Rightarrow> ('d, 'e) app_state \<Rightarrow> ('d, 'e) app_state" where
  "remove_workspace cur rendered workspaceId s =
     (if \<not> cur then s
      else (invalidate_access s)
        \<lparr>ap_workspaces := filter (\<lambda>w. ws_id w \<noteq> workspaceId) (ap_workspaces s),
         ap_selectedWorkspaceId :=
           (if ap_selectedWorkspaceId s = Some workspaceId
            then map_option ws_id (find (\<lambda>w. ws_id w \<noteq> workspaceId) rendered)
            else ap_selectedWorkspaceId s)\<rparr>)"

definition select_workspace :: "bool \<Rightarrow> workspace \<Rightarrow> ('d, 'e) app_state \<Rightarrow> ('d, 'e) app_state" where
  "select_workspace cur w s =
     (if \<not> cur then s
      else (invalidate_access s)\<lparr>ap_selectedWorkspaceId := Some (ws_id w)\<rparr>)"

definition start_reconcile ::
    "bool \<Rightarrow> workspace list \<Rightarrow> string \<Rightarrow> ('d, 'e) app_state \<Rightarrow> nat option \<times> ('d, 'e) app_state" where
  "start_reconcile cur rendered workspaceId s =
     (if \<not> cur then (None, s)
      else let s1 = invalidate_access (remove_workspace cur rendered workspaceId s)
           in (Some (get_current (ap_accessRevision s1)), s1))"

definition settle_reconcile ::
    "bool \<Rightarrow> nat \<Rightarrow> 'e + workspace list \<Rightarrow> ('d, 'e) app_state \<Rightarrow> ('d, 'e) app_state" where
  "settle_reconcile cur requestRevision answer s =
     (if \<not> cur \<or> \<not> is_current_revision (ap_accessRevision s) requestRevision then s
      else case answer of
        Inr accessible \<Rightarrow> s\<lparr>ap_workspaces := accessible,
          ap_selectedWorkspaceId :=
            (if list_ex (\<lambda>w. Some (ws_id w) = ap_selectedWorkspaceId s) accessible
             then ap_selectedWorkspaceId s else first_workspace_id accessible)\<rparr>
      | Inl failure \<Rightarrow> s\<lparr>ap_error := Some failure\<rparr>)"

text \<open>The effects: unmounting, and remembering the selection.\<close>

definition unmount_app :: "('d, 'e) app_state \<Rightarrow> ('d, 'e) app_state" where
  "unmount_app s = invalidate_access (s\<lparr>ap_revision := snd (invalidate (ap_revision s))\<rparr>)"

definition remember_selection :: "('d, 'e) app_state \<Rightarrow> ('d, 'e) app_state" where
  "remember_selection s =
     (if ap_isLoading s \<or> ap_error s \<noteq> None then s
      else s\<lparr>ap_remembered := (if truthy (ap_selectedWorkspaceId s)
             then ap_selectedWorkspaceId s else None)\<rparr>)"

section \<open>What the screens read\<close>

definition selected_workspace :: "('d, 'e) app_state \<Rightarrow> workspace option" where
  "selected_workspace s = (case find_workspace (ap_workspaces s) (ap_selectedWorkspaceId s) of
       Some w \<Rightarrow> Some w | None \<Rightarrow> first_opt (ap_workspaces s))"

definition is_ready :: "('d, 'e) app_state \<Rightarrow> bool" where
  "is_ready s = (\<not> ap_isLoading s \<and> ap_error s = None \<and> ap_user s \<noteq> None \<and> ap_settings s \<noteq> None)"

definition is_admin :: "('d, 'e) app_state \<Rightarrow> bool" where
  "is_admin s = (is_ready s \<and> us_role (the (ap_user s)) = INSTANCE_ADMIN)"

definition can_create_workspace :: "('d, 'e) app_state \<Rightarrow> bool" where
  "can_create_workspace s =
     (is_ready s \<and> (is_admin s \<or> is_isMemberAllowedToCreateWorkspaces (the (ap_settings s))))"

definition can_manage_workspace :: "('d, 'e) app_state \<Rightarrow> bool" where
  "can_manage_workspace s =
     (is_ready s \<and> (case selected_workspace s of
        None \<Rightarrow> False
      | Some w \<Rightarrow> is_admin s \<or> (case ws_currentUserRole w of
            None \<Rightarrow> False | Some role \<Rightarrow> role \<noteq> WORKSPACE_VIEWER)))"

section \<open>Runs\<close>

text \<open>
  The steps of the running application: the answers may come in any order and under any revision.
  The screens hand callbacks of the current render, whose list of workspaces is the state's, and
  let the user choose listed workspaces only.
\<close>

inductive app_step :: "('d, 'e) app_state \<Rightarrow> ('d, 'e) app_state \<Rightarrow> bool" where
  load: "app_step s (snd (start_app_load s))"
| disk: "app_step s (settle_disk_usage cur r disk s)"
| loaded: "app_step s (settle_app_load cur r answer s)"
| user: "app_step s (accept_user cur u s)"
| settings: "app_step s (accept_settings cur x s)"
| accept: "app_step s (accept_workspace cur w s)"
| update: "app_step s (update_workspace cur w s)"
| remove: "app_step s (remove_workspace cur (ap_workspaces s) i s)"
| select: "w \<in> set (ap_workspaces s) \<Longrightarrow> app_step s (select_workspace cur w s)"
| reconcile: "app_step s (snd (start_reconcile cur (ap_workspaces s) i s))"
| reconciled: "app_step s (settle_reconcile cur r accessible s)"
| unmount: "app_step s (unmount_app s)"
| remember: "app_step s (remember_selection s)"

inductive app_reachable :: "('d, 'e) app_state \<Rightarrow> bool" where
  start: "app_reachable (new_app_state remembered)"
| step: "app_reachable s \<Longrightarrow> app_step s s' \<Longrightarrow> app_reachable s'"

inductive_cases app_stepE: "app_step s s'"

text \<open>The invariant: the selected workspace is a listed one, and none is selected only when none is
  listed.\<close>

definition listed :: "workspace list \<Rightarrow> string option \<Rightarrow> bool" where
  "listed ws selected \<longleftrightarrow> (case selected of None \<Rightarrow> ws = [] | Some i \<Rightarrow> i \<in> ws_id ` set ws)"

definition selection_listed :: "('d, 'e) app_state \<Rightarrow> bool" where
  "selection_listed s \<longleftrightarrow> listed (ap_workspaces s) (ap_selectedWorkspaceId s)"

lemma access_frame [simp]:
  "ap_workspaces (invalidate_access s) = ap_workspaces s"
  "ap_selectedWorkspaceId (invalidate_access s) = ap_selectedWorkspaceId s"
  "ap_accessRevision (invalidate_access s) = snd (invalidate (ap_accessRevision s))"
  "ap_revision (invalidate_access s) = ap_revision s"
  by (simp_all add: invalidate_access_def)

lemma listed_first: "listed ws (first_workspace_id ws)"
  by (cases ws) (simp_all add: first_workspace_id_def listed_def)

lemma find_workspace_SomeD: "find_workspace ws i = Some w \<Longrightarrow> w \<in> set ws \<and> i = Some (ws_id w)"
  by (auto simp: find_workspace_def find_Some_iff)

lemma listed_choice:
  "listed ws (case find_workspace ws i of Some w \<Rightarrow> Some (ws_id w) | None \<Rightarrow> first_workspace_id ws)"
  by (auto simp: listed_first split: option.split) (auto simp: listed_def dest: find_workspace_SomeD)

lemma listed_find_other: "listed (filter P ws) (map_option ws_id (find P ws))"
  by (induction ws) (auto simp: listed_def split: option.splits)

lemma selection_listed_loaded: "selection_listed s \<Longrightarrow> selection_listed (settle_app_load cur r answer s)"
  by (auto simp: settle_app_load_def selection_listed_def Let_def listed_choice split: sum.split)

lemma selection_listed_remove:
  "selection_listed s \<Longrightarrow> selection_listed (remove_workspace cur (ap_workspaces s) i s)"
  by (auto simp: remove_workspace_def selection_listed_def listed_find_other)
    (auto simp: listed_def split: option.splits)

lemma selection_listed_reconciled:
  "selection_listed s \<Longrightarrow> selection_listed (settle_reconcile cur r answer s)"
  by (auto simp: settle_reconcile_def selection_listed_def listed_first list_ex_iff split: sum.split)
    (auto simp: listed_def image_iff split: option.splits)

lemmas edit_defs = accept_user_def accept_settings_def accept_workspace_def update_workspace_def
  select_workspace_def start_app_load_def settle_disk_usage_def unmount_app_def remember_selection_def
  Let_def case_prod_unfold

lemma selection_listed_step: "app_step s s' \<Longrightarrow> selection_listed s \<Longrightarrow> selection_listed s'"
proof (induction rule: app_step.induct)
  case (update s cur w)
  then show ?case
    by (auto simp: edit_defs selection_listed_def listed_def image_iff split: option.splits)
next
  case (reconcile s cur i)
  from selection_listed_remove [OF this, of True i] this show ?case
    by (simp add: start_reconcile_def selection_listed_def Let_def)
next
  case (accept s cur w)
  then show ?case by (auto simp: edit_defs selection_listed_def listed_def)
next
  case (select w s cur)
  then show ?case by (auto simp: edit_defs selection_listed_def listed_def)
qed (auto simp: selection_listed_loaded selection_listed_remove selection_listed_reconciled,
     auto simp: edit_defs selection_listed_def split: sum.split)

section \<open>Properties\<close>


text \<open>Managing needs a role.\<close>

lemma manage_rights_need_a_role:
  assumes "can_manage_workspace s"
  obtains w u where "selected_workspace s = Some w" "ap_user s = Some u" "ap_error s = None"
    "us_role u = INSTANCE_ADMIN \<or>
     ws_currentUserRole w \<in> {Some WORKSPACE_OWNER, Some WORKSPACE_ADMIN, Some WORKSPACE_MEMBER}"
proof -
  from assms obtain w where w: "selected_workspace s = Some w"
      "is_admin s \<or> (case ws_currentUserRole w of None \<Rightarrow> False | Some role \<Rightarrow> role \<noteq> WORKSPACE_VIEWER)"
    by (auto simp: can_manage_workspace_def split: option.splits)
  from assms obtain u where u: "ap_user s = Some u" "ap_error s = None"
    by (auto simp: can_manage_workspace_def is_ready_def)
  have "ws_currentUserRole w \<in> {Some WORKSPACE_OWNER, Some WORKSPACE_ADMIN, Some WORKSPACE_MEMBER}"
    if "\<not> is_admin s"
  proof (cases "ws_currentUserRole w")
    case None
    with w(2) that show ?thesis by simp
  next
    case (Some role)
    with w(2) that show ?thesis by (cases role) auto
  qed
  with w u that show thesis by (auto simp: is_admin_def)
qed

text \<open>The events that end a reconciliation: any change of the workspaces or of the selection in the
  meantime, a new load, another reconciliation, leaving the application.\<close>

inductive access_change :: "('d, 'e) app_state \<Rightarrow> ('d, 'e) app_state \<Rightarrow> bool" where
  "access_change s (snd (start_app_load s))"
| "access_change s (accept_workspace True w s)"
| "access_change s (update_workspace True w s)"
| "access_change s (remove_workspace True rendered i s)"
| "access_change s (select_workspace True w s)"
| "access_change s (snd (start_reconcile True rendered i s))"
| "access_change s (unmount_app s)"

lemma access_change_revision:
  "access_change s s' \<Longrightarrow> rr_revision (ap_accessRevision s) < rr_revision (ap_accessRevision s')"
  by (induction rule: access_change.induct)
    (auto simp: edit_defs remove_workspace_def start_reconcile_def)

lemma app_step_revision:
  "app_step s s' \<Longrightarrow> rr_revision (ap_accessRevision s) \<le> rr_revision (ap_accessRevision s')"
  by (induction rule: app_step.induct)
    (auto simp: edit_defs remove_workspace_def start_reconcile_def settle_app_load_def
      settle_reconcile_def split: sum.split)

lemma app_steps_revision:
  "app_step\<^sup>*\<^sup>* s s' \<Longrightarrow> rr_revision (ap_accessRevision s) \<le> rr_revision (ap_accessRevision s')"
  by (induction rule: rtranclp_induct) (auto dest: app_step_revision)

text \<open>C17: A reconciliation never undoes what the user did since: if, between the start of a
  reconciliation and its answer, a workspace was added, changed, removed or selected, the
  application was loaded again or left, or another reconciliation began, the answer changes nothing.\<close>

theorem reconciliation_never_undoes_a_change:
  assumes "start_reconcile cur rendered i s = (Some r, s1)"
    and "app_step\<^sup>*\<^sup>* s1 s2" and "access_change s2 s3" and "app_step\<^sup>*\<^sup>* s3 s4"
  shows "settle_reconcile cur' r answer s4 = s4"
proof -
  have "r = rr_revision (ap_accessRevision s1)"
    using assms(1) by (auto simp: start_reconcile_def get_current_def Let_def split: if_splits)
  also have "\<dots> \<le> rr_revision (ap_accessRevision s2)" by (rule app_steps_revision) fact
  also have "\<dots> < rr_revision (ap_accessRevision s3)" by (rule access_change_revision) fact
  also have "\<dots> \<le> rr_revision (ap_accessRevision s4)" by (rule app_steps_revision) fact
  finally show ?thesis by (simp add: settle_reconcile_def is_current_revision_def)
qed

definition two_workspaces :: "workspace list" where
  "two_workspaces = [\<lparr>ws_id = ''a'', ws_name = ''A'', ws_createdAt = ''2024'', ws_currentUserRole = None\<rparr>,
     \<lparr>ws_id = ''b'', ws_name = ''B'', ws_createdAt = ''2024'', ws_currentUserRole = None\<rparr>]"

definition loaded_app :: "(nat, nat) app_state" where
  "loaded_app = settle_app_load True 1
     (Inr (\<lparr>us_id = ''u'', us_role = INSTANCE_MEMBER\<rparr>, \<lparr>is_isMemberAllowedToCreateWorkspaces = False\<rparr>,
       two_workspaces)) (snd (start_app_load (new_app_state (Some ''b''))))"

lemma loaded_app_reachable: "app_reachable loaded_app"
  unfolding loaded_app_def
  by (rule app_reachable.step [OF app_reachable.step [OF app_reachable.start app_step.load] app_step.loaded])

lemmas loaded_app_simps = loaded_app_def settle_app_load_def start_app_load_def
  invalidate_access_def new_app_state_def new_revision_def is_current_revision_def invalidate_def Let_def


lemma reconciliation_never_undoes_a_change_witness:
  "let s1 = snd (start_reconcile True two_workspaces ''b'' loaded_app);
       s2 = select_workspace True (hd two_workspaces) s1
   in settle_reconcile True 3 (Inr two_workspaces) s2 = s2"
proof -
  have "start_reconcile True two_workspaces ''b'' loaded_app =
      (Some 3, snd (start_reconcile True two_workspaces ''b'' loaded_app))"
    by (simp add: start_reconcile_def remove_workspace_def get_current_def loaded_app_simps)
  from reconciliation_never_undoes_a_change [OF this rtranclp.rtrancl_refl access_change.intros(5)
      rtranclp.rtrancl_refl, of True "Inr two_workspaces" "hd two_workspaces"]
  show ?thesis unfolding Let_def .
qed

end
