(* ===== verification/Api_Errors.thy ===== *)
theory Api_Errors
  imports Page_Values
begin

text \<open>
  How a failed request reaches the screen: \<open>shared/api/requireData.ts\<close> turns an answer into its data
  or into an \<open>ApiError\<close>, and \<open>shared/i18n/translateApiError.ts\<close> turns an error into a sentence. The
  translation function is a parameter; an answer's body is a JSON value; the HTTP client is not
  part of the repository. An error that is not an \<open>ApiError\<close> is \<open>OtherError\<close>.
\<close>

record api_error =
  ae_message :: string
  ae_code :: "string option"
  ae_status :: "int option"

datatype thrown = ApiFailure api_error | OtherError

record 'd fetch_result =
  fr_data :: "'d option"
  fr_error :: jsval
  fr_ok :: bool
  fr_status :: int

definition network_unreachable :: string where "network_unreachable = ''network_unreachable''"
definition request_failed :: string where "request_failed = ''request_failed''"

section \<open>requireData.ts\<close>

definition field_of :: "jsval \<Rightarrow> string \<Rightarrow> jsval" where
  "field_of v k = (case v of JObj fs \<Rightarrow> (case map_of fs k of Some w \<Rightarrow> w | None \<Rightarrow> JUndefined)
     | _ \<Rightarrow> JUndefined)"

definition is_js_string :: "jsval \<Rightarrow> bool" where
  "is_js_string v = (case v of JStr _ \<Rightarrow> True | _ \<Rightarrow> False)"

definition is_js_integer :: "jsval \<Rightarrow> bool" where
  "is_js_integer v = (case v of JNum n \<Rightarrow> of_int \<lfloor>n\<rfloor> = n | _ \<Rightarrow> False)"

text \<open>\<open>typeof\<close> answers object for arrays too; an array has none of the fields.\<close>

definition is_problem :: "jsval \<Rightarrow> bool" where
  "is_problem body = (case body of
       JObj _ \<Rightarrow> is_js_string (field_of body ''type'') \<and> is_js_string (field_of body ''title'')
         \<and> is_js_integer (field_of body ''status'') \<and> is_js_string (field_of body ''code'')
         \<and> is_js_string (field_of body ''detail'')
     | _ \<Rightarrow> False)"

definition js_text :: "jsval \<Rightarrow> string" where
  "js_text v = (case v of JStr s \<Rightarrow> s | _ \<Rightarrow> [])"

definition to_api_error :: "jsval \<Rightarrow> int \<Rightarrow> api_error" where
  "to_api_error err status =
     (if is_problem err
      then \<lparr>ae_message = js_text (field_of err ''detail''),
            ae_code = Some (js_text (field_of err ''code'')), ae_status = Some status\<rparr>
      else \<lparr>ae_message = [], ae_code = Some request_failed, ae_status = Some status\<rparr>)"

definition require_data :: "'d fetch_result \<Rightarrow> thrown + 'd" where
  "require_data r = (case (fr_ok r, fr_data r) of
       (True, Some d) \<Rightarrow> Inr d
     | _ \<Rightarrow> Inl (ApiFailure (to_api_error (fr_error r) (fr_status r))))"

definition require_success :: "'d fetch_result \<Rightarrow> thrown + unit" where
  "require_success r =
     (if \<not> fr_ok r then Inl (ApiFailure (to_api_error (fr_error r) (fr_status r))) else Inr ())"

section \<open>translateApiError.ts\<close>

definition contract_error_code_keys :: "(string \<times> string) list" where
  "contract_error_code_keys =
    [(''invalid_request'', ''errors.invalidRequest''),
     (''unauthenticated'', ''errors.unauthenticated''),
     (''permission_denied'', ''errors.permissionDenied''),
     (''not_found'', ''errors.notFound''),
     (''rate_limited'', ''errors.rateLimited''),
     (''human_verification_failed'', ''errors.humanVerificationFailed''),
     (''invalid_credentials'', ''errors.invalidCredentials''),
     (''user_deactivated'', ''errors.userDeactivated''),
     (''registration_closed'', ''errors.registrationClosed''),
     (''email_taken'', ''errors.emailTaken''),
     (''invalid_reset_code'', ''errors.invalidResetCode''),
     (''oauth_not_configured'', ''errors.oauthNotConfigured''),
     (''oauth_failed'', ''errors.oauthFailed''),
     (''pending_sign_in_not_usable'', ''errors.pendingSignInNotUsable''),
     (''sign_in_code_not_sent'', ''errors.signInCodeNotSent''),
     (''too_many_sign_in_codes'', ''errors.tooManySignInCodes''),
     (''sign_in_code_resent_too_soon'', ''errors.signInCodeResentTooSoon''),
     (''sign_in_code_incorrect'', ''errors.signInCodeIncorrect''),
     (''email_not_configured'', ''errors.emailNotConfigured''),
     (''admin_email_missing'', ''errors.adminEmailMissing''),
     (''already_member'', ''errors.alreadyMember''),
     (''cannot_change_own_role'', ''errors.cannotChangeOwnRole''),
     (''owner_requires_transfer'', ''errors.ownerRequiresTransfer''),
     (''workspace_not_empty'', ''errors.workspaceNotEmpty''),
     (''in_use'', ''errors.inUse''),
     (''cleanup_pending'', ''errors.cleanupPending''),
     (''database_connection_failed'', ''errors.databaseConnectionFailed''),
     (''backup_not_completed'', ''errors.backupNotCompleted''),
     (''already_running'', ''errors.alreadyRunning''),
     (''no_extendable_chain'', ''errors.noExtendableChain''),
     (''no_restorable_backup'', ''errors.noRestorableBackup''),
     (''target_time_unreachable'', ''errors.targetTimeUnreachable''),
     (''not_running'', ''errors.notRunning''),
     (''instance_unhealthy'', ''errors.instanceUnhealthy''),
     (''insufficient_disk_space'', ''errors.insufficientDiskSpace''),
     (''internal'', ''errors.internal'')]"

definition api_error_code_keys :: "(string \<times> string) list" where
  "api_error_code_keys = contract_error_code_keys
     @ [(network_unreachable, ''errors.networkUnreachable''), (request_failed, ''errors.requestFailed'')]"

definition codes_with_detail :: "string list" where
  "codes_with_detail = [''database_connection_failed'', ''insufficient_disk_space'']"

text \<open>The parameters of the sentence: the status, absent as the empty text, and the detail. An
  empty code is falsy, so it is never looked up.\<close>

definition translate_api_error ::
    "(string \<Rightarrow> (int option \<times> string) option \<Rightarrow> string) \<Rightarrow> thrown \<Rightarrow> string" where
  "translate_api_error t err = (case err of
       OtherError \<Rightarrow> t ''errors.unknown'' None
     | ApiFailure e \<Rightarrow>
         let codeKey = (case ae_code e of
               Some c \<Rightarrow> if c \<noteq> [] then map_of api_error_code_keys c else None
             | None \<Rightarrow> None)
         in case codeKey of
              None \<Rightarrow> t ''errors.unknown'' None
            | Some k \<Rightarrow> t k (Some (ae_status e,
                 if ae_code e \<in> Some ` set codes_with_detail then ae_message e else [])))"

section \<open>Lemmas\<close>

lemma require_data_Inl:
  "require_data r = Inl x \<longleftrightarrow> \<not> (fr_ok r \<and> fr_data r \<noteq> None)
     \<and> x = ApiFailure (to_api_error (fr_error r) (fr_status r))"
  by (auto simp: require_data_def split: bool.splits option.splits)

lemma codes_distinct: "distinct (map fst api_error_code_keys)"
  by (simp add: api_error_code_keys_def contract_error_code_keys_def network_unreachable_def
      request_failed_def)

lemma keys_distinct: "distinct (map snd api_error_code_keys)"
  by (simp add: api_error_code_keys_def contract_error_code_keys_def)

lemma unknown_not_a_key: "''errors.unknown'' \<notin> snd ` set api_error_code_keys"
  by (simp add: api_error_code_keys_def contract_error_code_keys_def)

lemma request_failed_key: "map_of api_error_code_keys request_failed = Some ''errors.requestFailed''"
  by (simp add: api_error_code_keys_def contract_error_code_keys_def network_unreachable_def
      request_failed_def)

section \<open>Properties\<close>



end
