(* ===== verification/Shared_Lib.thy ===== *)
theory Shared_Lib
  imports Js_Text
begin

text \<open>
  Helpers many screens share (\<open>shared/lib\<close>, \<open>shared/i18n\<close>): lists of names typed by hand, versions,
  sizes and durations, the first language, the website's pages and optional form values. Numbers are
  exact; a \<open>NumberFormatter\<close> is a parameter that gets the number of fraction digits.
\<close>

section \<open>Name lists (normalizeNameList.ts)\<close>

definition name_list_separator :: "char \<Rightarrow> bool" where
  "name_list_separator c \<longleftrightarrow> c \<in> {CHR '','', CHR 0x0A, CHR 0x0D, CHR 0x09}"

fun split_on :: "(char \<Rightarrow> bool) \<Rightarrow> string \<Rightarrow> string list" where
  "split_on P [] = [[]]"
| "split_on P (c # s) =
     (if P c then [] # split_on P s
      else case split_on P s of w # ws \<Rightarrow> (c # w) # ws | [] \<Rightarrow> [[c]])"

definition add_name :: "string list \<Rightarrow> string \<Rightarrow> string list" where
  "add_name names name =
     (let trimmedName = trim name
      in if trimmedName \<noteq> [] \<and> trimmedName \<notin> set names then names @ [trimmedName] else names)"

definition normalize_name_list :: "string list \<Rightarrow> string list" where
  "normalize_name_list rawNames =
     foldl (\<lambda>names rawName. foldl add_name names (split_on name_list_separator rawName)) [] rawNames"

section \<open>Versions (version.ts)\<close>

definition parse_git_hub_tag :: "string \<Rightarrow> string" where
  "parse_git_hub_tag tagName =
     (case trim tagName of c # s \<Rightarrow> if c = CHR ''v'' then s else c # s | [] \<Rightarrow> [])"

definition version_parts :: "string \<Rightarrow> int list" where
  "version_parts v = map (\<lambda>part. nullish (parse_int part) 0) (split_on (\<lambda>c. c = CHR ''.'') v)"

definition version_part :: "int list \<Rightarrow> nat \<Rightarrow> int" where
  "version_part ps i = (if i < length ps then ps ! i else 0)"

fun compare_from :: "int list \<Rightarrow> int list \<Rightarrow> nat list \<Rightarrow> int" where
  "compare_from a b [] = 0"
| "compare_from a b (i # is) =
     (let diff = version_part a i - version_part b i
      in if diff \<noteq> 0 then diff else compare_from a b is)"

definition compare_versions :: "string \<Rightarrow> string \<Rightarrow> int" where
  "compare_versions a b = compare_from (version_parts a) (version_parts b) [0, 1, 2]"

section \<open>Sizes and durations\<close>

definition byte_units :: "string list" where
  "byte_units = [''B'', ''KB'', ''MB'', ''GB'', ''TB'']"

function scale_bytes :: "nat \<Rightarrow> number \<Rightarrow> nat \<times> number" where
  "scale_bytes unitIndex unitValue =
     (if unitValue \<ge> 1024 \<and> unitIndex < length byte_units - 1
      then scale_bytes (unitIndex + 1) (unitValue / 1024) else (unitIndex, unitValue))"
  by pat_completeness auto
termination scale_bytes
  by (relation "measure (\<lambda>(i, v). length byte_units - i)") (auto simp: byte_units_def)

declare scale_bytes.simps [simp del]

definition format_bytes :: "number \<Rightarrow> (number \<Rightarrow> nat \<Rightarrow> string) \<Rightarrow> string" where
  "format_bytes bytes formatNumber =
     (let (unitIndex, unitValue) = scale_bytes 0 \<bar>bytes\<bar>;
          signedValue = (if bytes < 0 then - unitValue else unitValue)
      in formatNumber signedValue 1 @ '' '' @ byte_units ! unitIndex)"

definition format_compact_size_mb :: "number \<Rightarrow> (number \<Rightarrow> nat \<Rightarrow> string) \<Rightarrow> string" where
  "format_compact_size_mb sizeMb formatNumber =
     (if sizeMb \<ge> 1024 then formatNumber (sizeMb / 1024) 1 @ '' GB''
      else formatNumber sizeMb 0 @ '' MB'')"

text \<open>\<open>formatDuration\<close> on a whole number of milliseconds that is not negative; \<open>show_int\<close> writes
  an integer.\<close>

definition format_duration :: "(int \<Rightarrow> string) \<Rightarrow> int \<Rightarrow> string" where
  "format_duration show_int durationMs =
     (let hours = durationMs div 3600000;
          minutes = (durationMs mod 3600000) div 60000;
          seconds = (durationMs mod 60000) div 1000
      in if hours > 0
         then show_int hours @ ''h '' @ show_int minutes @ ''m '' @ show_int seconds @ ''s''
         else show_int minutes @ ''m '' @ show_int seconds @ ''s'')"

section \<open>The first language (resolveInitialLocale.ts)\<close>

definition fallback_locale :: string where "fallback_locale = ''en''"

fun first_supported :: "string list \<Rightarrow> string list \<Rightarrow> string option" where
  "first_supported supported [] = None"
| "first_supported supported (language # languages) =
     (let primarySubtag = hd (split_on (\<lambda>c. c = CHR ''-'') (to_lower language))
      in if primarySubtag \<in> set supported then Some primarySubtag
         else first_supported supported languages)"

definition resolve_initial_locale :: "string option \<Rightarrow> string list \<Rightarrow> string list \<Rightarrow> string" where
  "resolve_initial_locale storedLocale browserLanguages supportedLocales =
     (if truthy storedLocale \<and> the storedLocale \<in> set supportedLocales then the storedLocale
      else nullish (first_supported supportedLocales browserLanguages) fallback_locale)"

section \<open>Website pages (websitePages.ts)\<close>

record website_page =
  wp_path :: string
  wp_isTranslated :: bool
  wp_anchor :: "string option"

datatype website_page_id = PageHome | PageInstallation | PageSecurity | PageGlobalSettings
  | PageEmailSmtp | PageRestoreVerification | PageFaqLocalhost | PageFaqSupabase | PageGoogleDrive
  | PageCloudflareR2 | PageSlack | PageTeams | PageMattermost

definition page_at :: "string \<Rightarrow> bool \<Rightarrow> string option \<Rightarrow> website_page" where
  "page_at path isTranslated anchor =
     \<lparr>wp_path = path, wp_isTranslated = isTranslated, wp_anchor = anchor\<rparr>"

fun website_page_of :: "website_page_id \<Rightarrow> website_page" where
  "website_page_of PageHome = page_at [] True None"
| "website_page_of PageInstallation = page_at ''installation'' True None"
| "website_page_of PageSecurity = page_at ''security'' True None"
| "website_page_of PageGlobalSettings = page_at ''access-management'' True (Some ''global-settings'')"
| "website_page_of PageEmailSmtp = page_at ''advanced-config'' True (Some ''email-smtp'')"
| "website_page_of PageRestoreVerification = page_at ''restore-verification'' True None"
| "website_page_of PageFaqLocalhost = page_at ''faq/localhost'' True None"
| "website_page_of PageFaqSupabase = page_at ''faq/supabase'' True None"
| "website_page_of PageGoogleDrive = page_at ''storages/google-drive'' True None"
| "website_page_of PageCloudflareR2 = page_at ''storages/cloudflare-r2'' True None"
| "website_page_of PageSlack = page_at ''notifiers/slack'' True None"
| "website_page_of PageTeams = page_at ''notifiers/teams'' True None"
| "website_page_of PageMattermost = page_at ''notifiers/mattermost'' False None"

definition website_url :: string where "website_url = ''https://databasus.com''"

definition get_website_page_url :: "website_page_id \<Rightarrow> string \<Rightarrow> string" where
  "get_website_page_url pageId locale =
     (let page = website_page_of pageId;
          languagePrefix = (if wp_isTranslated page \<and> locale \<noteq> ''en'' then ''/'' @ locale else []);
          path = (if wp_path page \<noteq> [] then ''/'' @ wp_path page @ ''/'' else ''/'');
          anchor = (case wp_anchor page of Some a \<Rightarrow> if a \<noteq> [] then ''#'' @ a else [] | None \<Rightarrow> [])
      in website_url @ languagePrefix @ path @ anchor)"

section \<open>Optional form values\<close>

definition to_optional_value :: "string option \<Rightarrow> string option" where
  "to_optional_value v = or_text v None"

text \<open>Texts and numbers share a form field in the code; here the field has one type, whose empty
  value is \<open>blank\<close>.\<close>

definition is_optional_value_changed :: "'a \<Rightarrow> 'a option \<Rightarrow> 'a option \<Rightarrow> bool" where
  "is_optional_value_changed blank v savedValue = (nullish v blank \<noteq> nullish savedValue blank)"

section \<open>Trimming twice\<close>

lemma wide_space_shape:
  "w \<in> set wide_spaces \<Longrightarrow> w \<noteq> [] \<and> hd w < 256 \<and> length w = (if hd w = 194 then 2 else 3)"
  by (auto simp: wide_spaces_def)

lemma wide_prefix_same_length:
  assumes "w \<in> set wide_spaces" "v \<in> set wide_spaces" "prefix (map byte w) (map byte v)"
  shows "length w = length v"
proof -
  from assms(1,2) have w: "w \<noteq> []" "hd w < 256" and v: "v \<noteq> []" "hd v < 256"
    by (auto dest: wide_space_shape)
  obtain x xs y ys where e: "w = x # xs" "v = y # ys" using w v by (metis neq_Nil_conv)
  with assms(3) have "byte x = byte y" by simp
  then have "(of_char (byte x) :: nat) = of_char (byte y)" by simp
  with e w v have "x = y" by simp
  with assms(1,2) e show ?thesis by (auto dest!: wide_space_shape)
qed

lemma find_wide_append:
  assumes "List.find (\<lambda>w. prefix (map byte w) a) wide_spaces = Some w"
  shows "\<exists>v. List.find (\<lambda>w. prefix (map byte w) (a @ b)) wide_spaces = Some v \<and> length v = length w"
proof -
  from assms have w: "w \<in> set wide_spaces" "prefix (map byte w) a" by (auto simp: find_Some_iff)
  then have wp: "prefix (map byte w) (a @ b)" by (simp add: prefix_append)
  obtain v where v: "List.find (\<lambda>w. prefix (map byte w) (a @ b)) wide_spaces = Some v"
  proof (cases "List.find (\<lambda>w. prefix (map byte w) (a @ b)) wide_spaces")
    case None
    then have "\<not> prefix (map byte w) (a @ b)" using w(1) by (simp add: find_None_iff)
    with wp show ?thesis by contradiction
  qed (rule that)
  then have vs: "v \<in> set wide_spaces" "prefix (map byte v) (a @ b)" by (auto simp: find_Some_iff)
  have "prefix (map byte w) (map byte v) \<or> prefix (map byte v) (map byte w)"
    using prefix_same_cases [OF wp vs(2)] by blast
  then have "length v = length w" using wide_prefix_same_length w(1) vs(1) by metis
  with v show ?thesis by blast
qed

lemma space_length_append: "space_length a \<noteq> 0 \<Longrightarrow> space_length (a @ b) = space_length a"
  using find_wide_append [of a _ b]
  by (cases a) (auto simp: space_length_def split: if_splits option.splits)

lemma all_space_nil [simp]: "all_space []"
  unfolding all_space_def by (subst trim_start.simps) (simp add: space_length_def)

lemma trim_start_stop: "space_length s = 0 \<Longrightarrow> trim_start s = s"
  by (subst trim_start.simps) simp

lemma trim_start_append: "all_space a \<Longrightarrow> trim_start (a @ b) = trim_start b"
proof (induction a rule: trim_start.induct)
  case (1 a)
  show ?case
  proof (cases "space_length a = 0")
    case True
    with "1.prems" have "a = []" by (simp add: all_space_def trim_start_stop)
    then show ?thesis by simp
  next
    case False
    have "all_space (drop (space_length a) a)"
      using "1.prems" False unfolding all_space_def by (subst (asm) trim_start.simps) simp
    from "1.IH" [OF False this] have "trim_start (drop (space_length a) a @ b) = trim_start b" .
    with False show ?thesis
      using space_length_le [of a]
      by (subst trim_start.simps) (simp add: space_length_append)
  qed
qed

lemma trim_end_split: "\<exists>t. s = trim_end s @ t \<and> all_space t"
proof (induction s)
  case Nil
  then show ?case by simp
next
  case (Cons c s)
  then obtain t where "s = trim_end s @ t" "all_space t" by blast
  then show ?case by (cases "all_space (c # s)") (auto intro: exI [of _ t])
qed

lemma all_space_append: "all_space a \<Longrightarrow> all_space b \<Longrightarrow> all_space (a @ b)"
  by (simp add: all_space_def [of "a @ b"] trim_start_append) (simp add: all_space_def)

lemma trim_end_idem: "trim_end (trim_end s) = trim_end s"
proof (induction s)
  case (Cons c s)
  show ?case
  proof (cases "all_space (c # s)")
    case False
    obtain t where t: "s = trim_end s @ t" "all_space t" using trim_end_split by blast
    have "\<not> all_space (c # trim_end s)"
      using False all_space_append [of "c # trim_end s" t] t by auto
    with False Cons.IH show ?thesis by simp
  qed simp
qed simp

lemma trim_start_no_space: "space_length (trim_start s) = 0"
proof (induction s rule: trim_start.induct)
  case (1 s)
  then show ?case by (subst trim_start.simps) auto
qed

lemma trim_idem: "trim (trim s) = trim s"
proof -
  obtain t where t: "trim_start s = trim_end (trim_start s) @ t" using trim_end_split by blast
  have "space_length (trim s) = 0"
    using space_length_append [of "trim s" t] trim_start_no_space [of s] t by (metis trim_def)
  then have "trim_start (trim s) = trim s" by (rule trim_start_stop)
  then show ?thesis by (simp add: trim_def trim_end_idem)
qed

lemma trim_subset: "set (trim s) \<subseteq> set s"
proof -
  have "set (trim_start s) \<subseteq> set s"
    by (induction s rule: trim_start.induct)
      (subst trim_start.simps, auto dest: in_set_dropD split: if_splits)
  moreover have "set (trim_end r) \<subseteq> set r" for r by (induction r) auto
  ultimately show ?thesis unfolding trim_def by blast
qed

section \<open>Names\<close>

lemma split_on_none: "\<forall>c\<in>set s. \<not> P c \<Longrightarrow> split_on P s = [s]"
  by (induction s) auto

lemma split_on_nonempty: "split_on P s \<noteq> []"
  by (induction s) (auto split: list.splits)

lemma split_on_parts: "w \<in> set (split_on P s) \<Longrightarrow> c \<in> set w \<Longrightarrow> \<not> P c"
proof (induction s arbitrary: w)
  case (Cons a s)
  then show ?case
    by (cases "split_on P s") (auto split: if_splits, (metis list.set_intros)+)
qed simp

text \<open>A list is normal when its names are trimmed, without separators, not empty and distinct.\<close>

definition normal_name :: "string \<Rightarrow> bool" where
  "normal_name n \<longleftrightarrow> n \<noteq> [] \<and> trim n = n \<and> \<not> list_ex name_list_separator n"

definition normal_names :: "string list \<Rightarrow> bool" where
  "normal_names names \<longleftrightarrow> distinct names \<and> list_all normal_name names"

text \<open>The names meant by a list typed by hand.\<close>

definition meant_names :: "string list \<Rightarrow> string set" where
  "meant_names rawNames =
     {trim part | part raw. raw \<in> set rawNames \<and> part \<in> set (split_on name_list_separator raw)} - {[]}"

lemma add_name_set: "set (add_name names n) = set names \<union> ({trim n} - {[]})"
  by (auto simp: add_name_def Let_def)

lemma add_names_set: "set (foldl add_name names parts) = set names \<union> (trim ` set parts - {[]})"
  by (induction parts arbitrary: names) (auto simp: add_name_set)

lemma normalize_set_from:
  "set (foldl (\<lambda>names raw. foldl add_name names (split_on name_list_separator raw)) names rawNames) =
    set names \<union> meant_names rawNames"
  by (induction rawNames arbitrary: names) (auto simp: add_names_set meant_names_def)

lemma normalize_set: "set (normalize_name_list rawNames) = meant_names rawNames"
  by (simp add: normalize_name_list_def normalize_set_from)

lemma add_names_distinct: "distinct names \<Longrightarrow> distinct (foldl add_name names parts)"
  by (induction parts arbitrary: names) (auto simp: add_name_def Let_def)

lemma normalize_distinct: "distinct (normalize_name_list rawNames)"
proof -
  have "distinct names \<Longrightarrow> distinct
      (foldl (\<lambda>names raw. foldl add_name names (split_on name_list_separator raw)) names rawNames)" for names
    by (induction rawNames arbitrary: names) (auto simp: add_names_distinct)
  then show ?thesis by (simp add: normalize_name_list_def)
qed

lemma meant_normal: "n \<in> meant_names rawNames \<Longrightarrow> normal_name n"
  using trim_subset by (fastforce simp: meant_names_def normal_name_def trim_idem list_ex_iff dest: split_on_parts)

lemma normalize_normal_from:
  "normal_names (names @ rest) \<Longrightarrow>
    foldl (\<lambda>names raw. foldl add_name names (split_on name_list_separator raw)) names rest = names @ rest"
proof (induction rest arbitrary: names)
  case (Cons r rest)
  then have r: "normal_name r" "r \<notin> set names" by (auto simp: normal_names_def)
  then have "split_on name_list_separator r = [r]"
    by (intro split_on_none) (auto simp: normal_name_def list_ex_iff)
  with r have "foldl add_name names (split_on name_list_separator r) = names @ [r]"
    by (simp add: add_name_def normal_name_def)
  moreover have "normal_names ((names @ [r]) @ rest)" using Cons.prems by simp
  ultimately show ?case using Cons.IH [of "names @ [r]"] by simp
qed simp

section \<open>Properties\<close>

text \<open>A list of names typed by hand is normalized once and for all: every name that was typed,
  and no other, is listed once, trimmed and without separators, and normalizing again changes
  nothing.\<close>

theorem normalized_names_are_normal:
  "set (normalize_name_list rawNames) = meant_names rawNames
   \<and> normal_names (normalize_name_list rawNames)
   \<and> normalize_name_list (normalize_name_list rawNames) = normalize_name_list rawNames"
proof -
  have "normal_names (normalize_name_list rawNames)"
    unfolding normal_names_def list_all_iff using normalize_distinct meant_normal
    by (auto simp: normalize_set)
  then show ?thesis
    using normalize_normal_from [of "[]" "normalize_name_list rawNames"]
    by (simp add: normalize_set) (simp add: normalize_name_list_def)
qed

text \<open>The order versions are meant to have: the first three numbers, from the left.\<close>

definition version_triple :: "string \<Rightarrow> int \<times> int \<times> int" where
  "version_triple v = (let ps = version_parts v
     in (version_part ps 0, version_part ps 1, version_part ps 2))"

definition triple_less :: "int \<times> int \<times> int \<Rightarrow> int \<times> int \<times> int \<Rightarrow> bool" where
  "triple_less = (\<lambda>(a, b, c) (d, e, f). a < d \<or> (a = d \<and> (b < e \<or> (b = e \<and> c < f))))"

lemma compare_versions_triples:
  "compare_versions a b < 0 \<longleftrightarrow> triple_less (version_triple a) (version_triple b)"
  "compare_versions a b = 0 \<longleftrightarrow> version_triple a = version_triple b"
  "0 < compare_versions a b \<longleftrightarrow> triple_less (version_triple b) (version_triple a)"
  by (auto simp: compare_versions_def triple_less_def version_triple_def Let_def)

text \<open>The comparison of versions is the lexicographic order of their first three numbers: its sign
  says which comes first, it is zero only for equal numbers, and it turns around with its arguments.\<close>

theorem versions_compare_lexicographically:
  "(compare_versions a b < 0) = triple_less (version_triple a) (version_triple b)
   \<and> (compare_versions a b = 0) = (version_triple a = version_triple b)
   \<and> (0 < compare_versions a b) = (compare_versions b a < 0)"
  unfolding compare_versions_triples by simp

lemma scale_bytes_correct:
  "i < length byte_units \<Longrightarrow> 0 \<le> v \<Longrightarrow> (i = 0 \<or> 1 \<le> v) \<Longrightarrow>
    (case scale_bytes i v of (j, w) \<Rightarrow> i \<le> j \<and> j < length byte_units \<and> v * 1024 ^ i = w * 1024 ^ j
      \<and> 0 \<le> w \<and> (j = 0 \<or> 1 \<le> w) \<and> (w < 1024 \<or> j = length byte_units - 1))"
proof (induction i v rule: scale_bytes.induct)
  case (1 i v)
  show ?case
  proof (cases "v \<ge> 1024 \<and> i < length byte_units - 1")
    case True
    then have "i + 1 < length byte_units" "0 \<le> v / 1024" "1 \<le> v / 1024"
      by (simp_all add: byte_units_def)
    with "1.IH" [OF True] True have "case scale_bytes (i + 1) (v / 1024) of (j, w) \<Rightarrow>
        i + 1 \<le> j \<and> j < length byte_units \<and> v / 1024 * 1024 ^ (i + 1) = w * 1024 ^ j
          \<and> 0 \<le> w \<and> (j = 0 \<or> 1 \<le> w) \<and> (w < 1024 \<or> j = length byte_units - 1)" by simp
    with True show ?thesis by (subst scale_bytes.simps) (auto split: prod.splits)
  next
    case False
    with "1.prems" show ?thesis by (subst scale_bytes.simps) auto
  qed
qed

text \<open>A shown size is the size: the amount shown times its unit is the number of bytes, the amount
  is below 1024 except for terabytes, and not below one except for bytes.\<close>

theorem shown_size_is_the_size:
  "\<exists>j w. format_bytes bytes f = f w 1 @ '' '' @ byte_units ! j \<and> j < length byte_units
    \<and> w * 1024 ^ j = bytes \<and> (\<bar>w\<bar> < 1024 \<or> byte_units ! j = ''TB'') \<and> (1 \<le> \<bar>w\<bar> \<or> byte_units ! j = ''B'')"
proof -
  obtain j w where jw: "scale_bytes 0 \<bar>bytes\<bar> = (j, w)" by (cases "scale_bytes 0 \<bar>bytes\<bar>")
  with scale_bytes_correct [of 0 "\<bar>bytes\<bar>"]
  have c: "j < length byte_units" "\<bar>bytes\<bar> = w * 1024 ^ j" "0 \<le> w" "j = 0 \<or> 1 \<le> w"
    "w < 1024 \<or> j = length byte_units - 1" by (auto simp: byte_units_def)
  have "(if bytes < 0 then - w else w) * 1024 ^ j = bytes" using c(2) by auto
  moreover have "\<bar>if bytes < 0 then - w else w\<bar> = w" using c(3) by simp
  moreover have "byte_units ! (length byte_units - 1) = ''TB''" "byte_units ! 0 = ''B''"
    by (simp_all add: byte_units_def)
  ultimately show ?thesis
    using c jw
    by (intro exI [of _ j] exI [of _ "if bytes < 0 then - w else w"])
      (auto simp: format_bytes_def)
qed

text \<open>The first language is always one the application ships.\<close>

lemma first_supported_in: "first_supported supported ls = Some l \<Longrightarrow> l \<in> set supported"
  by (induction ls) (auto simp: Let_def split: if_splits)

lemma initial_locale_supported:
  "fallback_locale \<in> set supported \<Longrightarrow> resolve_initial_locale stored languages supported \<in> set supported"
  by (cases "first_supported supported languages")
    (auto simp: resolve_initial_locale_def dest: first_supported_in)

end
