(* ===== verification/Form_Fields.thy ===== *)
theory Form_Fields
  imports Page_Values "HOL-Library.List_Lexorder" "HOL-Library.Char_ord"
begin

text \<open>
  Settings forms hold as JavaScript objects: the providers of a storage, a notifier or a database have
  different fields, and saving walks them by name. A settings object is its fields in order, and a
  missing field is \<open>JUndefined\<close>. Here are the operations the forms share: reading and setting a field,
  the comparison by a signature with its specification, and the merge of a saved answer field by field.
  \<open>structuredClone\<close> is the identity on values.
\<close>

type_synonym fields = "(string \<times> jsval) list"

section \<open>Objects\<close>

definition fld :: "fields \<Rightarrow> string \<Rightarrow> jsval" where
  "fld fs k = (case map_of fs k of Some v \<Rightarrow> v | None \<Rightarrow> JUndefined)"

fun set_field :: "string \<Rightarrow> jsval \<Rightarrow> fields \<Rightarrow> fields" where
  "set_field k v [] = [(k, v)]"
| "set_field k v ((j, w) # fs) = (if j = k then (k, v) # fs else (j, w) # set_field k v fs)"

definition delete_field :: "string \<Rightarrow> fields \<Rightarrow> fields" where
  "delete_field k fs = filter (\<lambda>(j, _). j \<noteq> k) fs"

definition js_truthy :: "jsval \<Rightarrow> bool" where
  "js_truthy v = (case v of
       JUndefined \<Rightarrow> False | JNull \<Rightarrow> False | JBool b \<Rightarrow> b | JNum n \<Rightarrow> n \<noteq> 0 | JStr s \<Rightarrow> s \<noteq> []
     | JArr _ \<Rightarrow> True | JObj _ \<Rightarrow> True)"

definition array_items :: "jsval \<Rightarrow> jsval list" where
  "array_items v = (case v of JArr xs \<Rightarrow> xs | _ \<Rightarrow> [])"

lemma fld_set_field: "fld (set_field k v fs) j = (if j = k then v else fld fs j)"
  by (induction k v fs rule: set_field.induct) (auto simp: fld_def)

lemma fld_delete_field: "fld (delete_field k fs) j = (if j = k then JUndefined else fld fs j)"
  by (induction fs) (auto simp: fld_def delete_field_def)

definition given :: "fields \<Rightarrow> string \<Rightarrow> bool" where
  "given settings k = js_truthy (fld settings k)"

text \<open>A text field; one without a value reads as the empty text.\<close>

definition text_field :: "fields \<Rightarrow> string \<Rightarrow> string" where
  "text_field settings k = (case fld settings k of JStr s \<Rightarrow> s | _ \<Rightarrow> [])"

definition object_fields :: "jsval \<Rightarrow> fields" where
  "object_fields v = (case v of JObj fs \<Rightarrow> fs | _ \<Rightarrow> [])"

definition has_type :: "fields \<Rightarrow> string \<Rightarrow> bool" where
  "has_type fs t \<longleftrightarrow> fld fs ''type'' = JStr t"

lemma has_type_only: "has_type fs t \<Longrightarrow> has_type fs u \<longleftrightarrow> u = t"
  by (auto simp: has_type_def)

text \<open>\<open>isOptionalValueChanged\<close> of \<open>shared/lib\<close> on the values of a form.\<close>

definition or_blank :: "jsval \<Rightarrow> jsval" where
  "or_blank v = (if v = JUndefined \<or> v = JNull then JStr [] else v)"

definition optional_field_changed :: "fields \<Rightarrow> fields \<Rightarrow> string \<Rightarrow> bool" where
  "optional_field_changed settings savedSettings k =
     (or_blank (fld settings k) \<noteq> or_blank (fld savedSettings k))"

section \<open>The comparison\<close>

text \<open>What \<open>JSON.stringify\<close> writes: fields without a value are left out, in an array they are null.
  With the replacer of \<open>getSettingsSignature\<close>, the fields of an object are in order first. Two texts
  are equal exactly when these values are.\<close>

lemma element_smaller: "x \<in> set xs \<Longrightarrow> size x < Suc (size_list size xs)"
  using size_list_estimation' [of x xs "size x" size] by simp

function plain :: "jsval \<Rightarrow> jsval" where
  "plain (JArr xs) = JArr (map (\<lambda>x. if x = JUndefined then JNull else plain x) xs)"
| "plain (JObj fs) = JObj (map (\<lambda>(k, v). (k, plain v)) (filter (\<lambda>(k, v). v \<noteq> JUndefined) fs))"
| "plain JUndefined = JUndefined"
| "plain JNull = JNull"
| "plain (JBool b) = JBool b"
| "plain (JNum n) = JNum n"
| "plain (JStr s) = JStr s"
  by pat_completeness auto
termination plain
  by (relation "measure size") (auto simp: field_smaller element_smaller)

function signature :: "jsval \<Rightarrow> jsval" where
  "signature (JArr xs) = JArr (map (\<lambda>x. if x = JUndefined then JNull else signature x) xs)"
| "signature (JObj fs) = JObj (map (\<lambda>(k, v). (k, signature v))
     (sort_key fst (filter (\<lambda>(k, v). v \<noteq> JUndefined) fs)))"
| "signature JUndefined = JUndefined"
| "signature JNull = JNull"
| "signature (JBool b) = JBool b"
| "signature (JNum n) = JNum n"
| "signature (JStr s) = JStr s"
  by pat_completeness auto
termination signature
  by (relation "measure size") (auto simp: field_smaller element_smaller)

definition get_settings_signature :: "fields \<Rightarrow> jsval" where
  "get_settings_signature fs = signature (JObj fs)"

section \<open>Fields acknowledged by the server\<close>

text \<open>\<open>new Set([...Object.keys(submitted), ...Object.keys(saved)])\<close>: the first occurrences.\<close>

definition acknowledged_fields :: "fields \<Rightarrow> fields \<Rightarrow> string list" where
  "acknowledged_fields submitted saved = rev (remdups (rev (map fst submitted @ map fst saved)))"

definition acknowledge_field :: "fields \<Rightarrow> fields \<Rightarrow> fields \<Rightarrow> string \<Rightarrow> fields" where
  "acknowledge_field submitted saved acknowledged k =
     (if plain (fld acknowledged k) \<noteq> plain (fld submitted k) then acknowledged
      else if fld saved k = JUndefined then delete_field k acknowledged
      else set_field k (fld saved k) acknowledged)"

lemma fld_acknowledge_field:
  "fld (acknowledge_field submitted saved ack k) j =
    (if j = k \<and> plain (fld ack k) = plain (fld submitted k) then fld saved k else fld ack j)"
  by (simp add: acknowledge_field_def fld_set_field fld_delete_field)

lemma fld_acknowledge_fold:
  "distinct ks \<Longrightarrow> fld (foldl (acknowledge_field submitted saved) ack ks) j =
    (if j \<in> set ks \<and> plain (fld ack j) = plain (fld submitted j) then fld saved j else fld ack j)"
  by (induction ks arbitrary: ack) (auto simp: fld_acknowledge_field)

section \<open>What the comparison means\<close>

lemma map_of_map_value: "map_of (map (\<lambda>(k, v). (k, f v)) fs) k = map_option f (map_of fs k)"
  by (induction fs) auto

lemma map_of_filter_defined:
  "distinct (map fst fs) \<Longrightarrow>
    map_of (filter (\<lambda>(k, v). v \<noteq> JUndefined) fs) k =
      (case map_of fs k of Some v \<Rightarrow> if v \<noteq> JUndefined then Some v else None | None \<Rightarrow> None)"
  by (induction fs) (auto simp: map_of_eq_None_iff split: option.splits)

lemma distinct_filter_keys: "distinct (map fst fs) \<Longrightarrow> distinct (map fst (filter P fs))"
  by (rule distinct_map_filter_key)

lemma sorted_assoc_eq_iff:
  assumes "sorted (map fst xs)" "distinct (map fst xs)" "sorted (map fst ys)" "distinct (map fst ys)"
  shows "xs = ys \<longleftrightarrow> map_of xs = map_of ys"
proof
  assume eq: "map_of xs = map_of ys"
  then have "set xs = set ys" using assms(2,4) map_of_inject_set by blast
  moreover have "map fst xs = map fst ys"
    using assms eq by (metis dom_map_of_conv_image_fst list.set_map sorted_distinct_set_unique)
  ultimately show "xs = ys"
    using assms(2,4) eq
    by (intro nth_equalityI) (auto dest: map_eq_imp_length_eq,
        metis (no_types, lifting) eq_key_imp_eq_value fst_conv length_map nth_map nth_mem prod.collapse)
qed simp

abbreviation defined :: "fields \<Rightarrow> fields" where
  "defined fs \<equiv> filter (\<lambda>(k, v). v \<noteq> JUndefined) fs"

lemma signature_object_eq:
  assumes "distinct (map fst xs)" "distinct (map fst ys)"
  shows "signature (JObj xs) = signature (JObj ys) \<longleftrightarrow>
    (\<forall>k. map_option signature (map_of (defined xs) k) = map_option signature (map_of (defined ys) k))"
proof -
  let ?sig = "\<lambda>fs. map (\<lambda>(k, v). (k, signature v)) (sort_key fst (defined fs))"
  have keys: "map fst (?sig fs) = map fst (sort_key fst (defined fs))" for fs
    by (simp add: case_prod_unfold comp_def)
  have ok: "sorted (map fst (?sig fs)) \<and> distinct (map fst (?sig fs))
      \<and> map_of (?sig fs) = (\<lambda>k. map_option signature (map_of (defined fs) k))"
    if d: "distinct (map fst fs)" for fs
  proof (intro conjI)
    have dd: "distinct (map fst (defined fs))" using d by (rule distinct_filter_keys)
    have ds: "distinct (map fst (sort_key fst (defined fs)))"
      using dd by (simp add: distinct_map)
    show "sorted (map fst (?sig fs))" unfolding keys by simp
    show "distinct (map fst (?sig fs))" unfolding keys by (rule ds)
    have "map_of (sort_key fst (defined fs)) = map_of (defined fs)"
      using map_of_inject_set [OF ds dd] by simp
    then show "map_of (?sig fs) = (\<lambda>k. map_option signature (map_of (defined fs) k))"
      by (simp add: fun_eq_iff map_of_map_value)
  qed
  have "signature (JObj xs) = signature (JObj ys) \<longleftrightarrow> ?sig xs = ?sig ys" by simp
  also have "\<dots> \<longleftrightarrow> map_of (?sig xs) = map_of (?sig ys)"
    using ok [OF assms(1)] ok [OF assms(2)] by (intro sorted_assoc_eq_iff) auto
  also have "\<dots> \<longleftrightarrow> (\<forall>k. map_option signature (map_of (defined xs) k) =
      map_option signature (map_of (defined ys) k))"
    using ok [OF assms(1)] ok [OF assms(2)] by (simp add: fun_eq_iff)
  finally show ?thesis .
qed

lemma denote_object_eq:
  "denote (plain (JObj xs)) = denote (plain (JObj ys)) \<longleftrightarrow>
    (\<forall>k. map_option (\<lambda>v. denote (plain v)) (map_of (defined xs) k) =
         map_option (\<lambda>v. denote (plain v)) (map_of (defined ys) k))"
  by (simp add: fun_eq_iff map_of_denote map_of_map_value option.map_comp comp_def
      del: map_map)

lemma map_option_eq_cong:
  assumes "\<And>a b. x = Some a \<Longrightarrow> y = Some b \<Longrightarrow> f a = f b \<longleftrightarrow> g a = g b"
  shows "map_option f x = map_option f y \<longleftrightarrow> map_option g x = map_option g y"
  using assms by (cases x; cases y) auto

lemma map_of_defined_smaller: "map_of (defined xs) k = Some v \<Longrightarrow> (k, v) \<in> set xs"
  by (auto dest: map_of_SomeD)

abbreviation null_for_undefined :: "jsval \<Rightarrow> jsval" where
  "null_for_undefined x \<equiv> (if x = JUndefined then JNull else x)"

lemma array_forms:
  "signature (JArr xs) = JArr (map (\<lambda>x. signature (null_for_undefined x)) xs)"
  "denote (plain (JArr xs)) = MArr (map (\<lambda>x. denote (plain (null_for_undefined x))) xs)"
  by (auto simp: comp_def)

lemma map_eq_map_cong:
  assumes "\<And>a b. a \<in> set xs \<Longrightarrow> b \<in> set ys \<Longrightarrow> f a = f b \<longleftrightarrow> g a = g b"
  shows "map f xs = map f ys \<longleftrightarrow> map g xs = map g ys"
  using assms
  by (auto simp: list_eq_iff_nth_eq)

lemma signature_eq_iff:
  "well_formed x \<Longrightarrow> well_formed y \<Longrightarrow>
    signature x = signature y \<longleftrightarrow> denote (plain x) = denote (plain y)"
proof (induction "size x" arbitrary: x y rule: less_induct)
  case less
  note IH = less.hyps
  consider (arr) xs ys where "x = JArr xs" "y = JArr ys"
    | (obj) xs ys where "x = JObj xs" "y = JObj ys"
    | (other) "\<not> (\<exists>xs ys. x = JArr xs \<and> y = JArr ys)" "\<not> (\<exists>xs ys. x = JObj xs \<and> y = JObj ys)"
    by blast
  then show ?case
  proof cases
    case arr
    have "signature (null_for_undefined a) = signature (null_for_undefined b) \<longleftrightarrow>
        denote (plain (null_for_undefined a)) = denote (plain (null_for_undefined b))"
      if "a \<in> set xs" "b \<in> set ys" for a b
    proof (rule IH)
      show "size (null_for_undefined a) < size x"
        using element_smaller [OF that(1)] arr by simp
      show "well_formed (null_for_undefined a)" "well_formed (null_for_undefined b)"
        using that less.prems arr by (auto simp: list_all_iff)
    qed
    from map_eq_map_cong [OF this] show ?thesis
      unfolding arr array_forms by (simp only: jsval.inject meaning.inject)
  next
    case obj
    have d: "distinct (map fst xs)" "distinct (map fst ys)" using less.prems obj by auto
    have "map_option signature (map_of (defined xs) k) = map_option signature (map_of (defined ys) k) \<longleftrightarrow>
        map_option (\<lambda>v. denote (plain v)) (map_of (defined xs) k) =
        map_option (\<lambda>v. denote (plain v)) (map_of (defined ys) k)" for k
    proof (rule map_option_eq_cong)
      fix a b
      assume "map_of (defined xs) k = Some a" "map_of (defined ys) k = Some b"
      then have m: "(k, a) \<in> set xs" "(k, b) \<in> set ys" by (auto dest: map_of_defined_smaller)
      show "signature a = signature b \<longleftrightarrow> denote (plain a) = denote (plain b)"
      proof (rule IH)
        show "size a < size x" using field_smaller [OF m(1)] obj by simp
        show "well_formed a" "well_formed b" using m less.prems obj by (auto simp: list_all_iff)
      qed
    qed
    then show ?thesis unfolding obj denote_object_eq signature_object_eq [OF d] by simp
  next
    case other
    then show ?thesis by (cases x; cases y) auto
  qed
qed

section \<open>Well-formed objects\<close>

lemma fld_missing: "k \<notin> fst ` set fs \<Longrightarrow> fld fs k = JUndefined"
  by (induction fs) (auto simp: fld_def)

lemma set_field_keys: "fst ` set (set_field k v fs) = insert k (fst ` set fs)"
  by (induction k v fs rule: set_field.induct) auto

lemma well_formed_set_field:
  "well_formed (JObj fs) \<Longrightarrow> well_formed v \<Longrightarrow> well_formed (JObj (set_field k v fs))"
  by (induction k v fs rule: set_field.induct) (auto simp: set_field_keys)

lemma well_formed_delete_field: "well_formed (JObj fs) \<Longrightarrow> well_formed (JObj (delete_field k fs))"
  by (auto simp: delete_field_def list_all_iff distinct_filter_keys)

lemma well_formed_fld: "well_formed (JObj fs) \<Longrightarrow> well_formed (fld fs k)"
  using well_formed_fields [of fs k] by (simp add: fld_def split: option.split)

lemma same_fields_same_meaning:
  assumes "well_formed (JObj xs)" "well_formed (JObj ys)" "\<And>k. fld xs k = fld ys k"
  shows "signature (JObj xs) = signature (JObj ys)"
proof -
  have "map_of (defined fs) k = (if fld fs k = JUndefined then None else Some (fld fs k))"
    if "well_formed (JObj fs)" for fs k
    using that by (auto simp: map_of_filter_defined fld_def split: option.split)
  with assms show ?thesis by (simp add: signature_object_eq del: signature.simps)
qed

end
