(* ===== verification/Storages.thy ===== *)
theory Storages
  imports Form_Fields
begin

text \<open>
  Storage settings as a form holds them (\<open>features/edit-storage/lib\<close>,
  \<open>features/edit-storage/model/acknowledgeStorageSettings.ts\<close>): defaults, whether the address changed,
  whether the settings are filled, the comparison of drafts and the merge of a saved answer into a
  form the user went on editing.
\<close>

section \<open>Types and defaults\<close>

definition storage_type_local :: string where "storage_type_local = ''LOCAL''"
definition storage_type_s3 :: string where "storage_type_s3 = ''S3''"
definition storage_type_google_drive :: string where "storage_type_google_drive = ''GOOGLE_DRIVE''"
definition storage_type_nas :: string where "storage_type_nas = ''NAS''"
definition storage_type_azure_blob :: string where "storage_type_azure_blob = ''AZURE_BLOB''"
definition storage_type_ftp :: string where "storage_type_ftp = ''FTP''"
definition storage_type_sftp :: string where "storage_type_sftp = ''SFTP''"
definition storage_type_rclone :: string where "storage_type_rclone = ''RCLONE''"

lemmas storage_types [table_defs] = storage_type_local_def storage_type_s3_def
  storage_type_google_drive_def storage_type_nas_def storage_type_azure_blob_def storage_type_ftp_def
  storage_type_sftp_def storage_type_rclone_def

definition create_default_storage_settings :: "string \<Rightarrow> fields" where
  "create_default_storage_settings t =
     (if t = storage_type_local then [(''type'', JStr t)]
      else if t = storage_type_s3
      then [(''type'', JStr t), (''s3Bucket'', JStr []), (''isVirtualHostedStyle'', JBool False),
            (''isSkipTlsVerify'', JBool False)]
      else if t = storage_type_google_drive then [(''type'', JStr t), (''clientId'', JStr [])]
      else if t = storage_type_nas
      then [(''type'', JStr t), (''host'', JStr []), (''port'', JNum 445), (''share'', JStr []),
            (''username'', JStr []), (''isSsl'', JBool False)]
      else if t = storage_type_azure_blob
      then [(''type'', JStr t), (''authMethod'', JStr ''ACCOUNT_KEY''), (''containerName'', JStr [])]
      else if t = storage_type_ftp
      then [(''type'', JStr t), (''host'', JStr []), (''port'', JNum 21), (''username'', JStr []),
            (''isSsl'', JBool False), (''isSkipTlsVerify'', JBool False)]
      else if t = storage_type_sftp
      then [(''type'', JStr t), (''host'', JStr []), (''port'', JNum 22), (''username'', JStr []),
            (''authMethods'', JArr [JStr ''PASSWORD'']), (''isSkipHostKeyVerify'', JBool False)]
      else if t = storage_type_rclone then [(''type'', JStr t)]
      else [])"

section \<open>Address and completeness\<close>

definition is_storage_address_changed :: "fields \<Rightarrow> fields option \<Rightarrow> bool" where
  "is_storage_address_changed settings savedSettings = (case savedSettings of
       None \<Rightarrow> False
     | Some saved \<Rightarrow>
         if has_type settings storage_type_s3
         then has_type saved storage_type_s3 \<and> optional_field_changed settings saved ''s3Endpoint''
         else if has_type settings storage_type_azure_blob
         then has_type saved storage_type_azure_blob
           \<and> (optional_field_changed settings saved ''endpoint''
              \<or> (js_truthy (fld settings ''accountName'')
                 \<and> fld settings ''accountName'' \<noteq> fld saved ''accountName''))
         else if has_type settings storage_type_ftp \<or> has_type settings storage_type_nas
           \<or> has_type settings storage_type_sftp
         then fld saved ''type'' = fld settings ''type''
           \<and> (optional_field_changed settings saved ''host''
              \<or> optional_field_changed settings saved ''port'')
         else False)"

definition is_storage_settings_filled :: "fields \<Rightarrow> bool \<Rightarrow> fields option \<Rightarrow> bool" where
  "is_storage_settings_filled settings isSaved savedSettings =
     (let canKeepAddressBoundSecret =
            isSaved \<and> \<not> is_storage_address_changed settings savedSettings;
          given = (\<lambda>k. js_truthy (fld settings k))
      in if has_type settings storage_type_local then True
         else if has_type settings storage_type_s3
         then given ''s3Bucket''
           \<and> (canKeepAddressBoundSecret \<or> (given ''s3AccessKey'' \<and> given ''s3SecretKey''))
         else if has_type settings storage_type_google_drive
         then given ''clientId'' \<and> (isSaved \<or> (given ''clientSecret'' \<and> given ''tokenJson''))
         else if has_type settings storage_type_nas
         then given ''host'' \<and> given ''port'' \<and> given ''share'' \<and> given ''username''
           \<and> (canKeepAddressBoundSecret \<or> given ''password'')
         else if has_type settings storage_type_azure_blob
         then (if \<not> given ''containerName'' then False
               else if fld settings ''authMethod'' = JStr ''CONNECTION_STRING''
               then isSaved \<or> given ''connectionString''
               else canKeepAddressBoundSecret
                 \<or> ((isSaved \<or> given ''accountName'') \<and> given ''accountKey''))
         else if has_type settings storage_type_ftp
         then given ''host'' \<and> given ''port'' \<and> given ''username''
           \<and> (canKeepAddressBoundSecret \<or> given ''password'')
         else if has_type settings storage_type_sftp
         then given ''host'' \<and> given ''port'' \<and> given ''username''
           \<and> array_items (fld settings ''authMethods'') \<noteq> []
           \<and> list_all (\<lambda>m. given (if m = JStr ''PASSWORD'' then ''password'' else ''privateKey'')
                \<or> (canKeepAddressBoundSecret
                   \<and> (case savedSettings of None \<Rightarrow> False
                      | Some saved \<Rightarrow> has_type saved storage_type_sftp
                          \<and> m \<in> set (array_items (fld saved ''authMethods'')))))
              (array_items (fld settings ''authMethods''))
         else if has_type settings storage_type_rclone then isSaved \<or> given ''configContent''
         else False)"

section \<open>Comparing drafts (StorageDraft.ts)\<close>

record storage_draft =
  dr_storageId :: "string option"
  dr_name :: string
  dr_settings :: fields

definition is_storage_draft_unchanged :: "storage_draft \<Rightarrow> storage_draft \<Rightarrow> bool" where
  "is_storage_draft_unchanged draft baseline =
     (dr_name draft = dr_name baseline
      \<and> get_settings_signature (dr_settings draft) = get_settings_signature (dr_settings baseline))"

section \<open>Acknowledging a save (acknowledgeStorageSettings.ts)\<close>

definition acknowledge_storage_settings :: "fields \<Rightarrow> fields \<Rightarrow> fields \<Rightarrow> fields" where
  "acknowledge_storage_settings current submitted saved =
     (if fld current ''type'' \<noteq> fld submitted ''type'' \<or> fld current ''type'' \<noteq> fld saved ''type''
      then current
      else foldl (acknowledge_field submitted saved) current (acknowledged_fields submitted saved))"

section \<open>Secrets and addresses\<close>

text \<open>The secrets the chosen provider and method of the form work with.\<close>

definition used_secrets :: "fields \<Rightarrow> string list" where
  "used_secrets s =
     (if has_type s storage_type_s3 then [''s3AccessKey'', ''s3SecretKey'']
      else if has_type s storage_type_nas \<or> has_type s storage_type_ftp then [''password'']
      else if has_type s storage_type_azure_blob \<and> fld s ''authMethod'' \<noteq> JStr ''CONNECTION_STRING''
      then [''accountKey'']
      else if has_type s storage_type_sftp
      then map (\<lambda>m. if m = JStr ''PASSWORD'' then ''password'' else ''privateKey'')
        (array_items (fld s ''authMethods''))
      else [])"

text \<open>Stored secrets are never carried to another address: a form whose address differs from the
  saved one counts as filled only when every secret its provider and method use is typed in again.\<close>

theorem changed_address_needs_secrets:
  assumes "is_storage_address_changed settings savedSettings"
    and "is_storage_settings_filled settings isSaved savedSettings"
  shows "list_all (\<lambda>k. js_truthy (fld settings k)) (used_secrets settings)"
  using assms
  by (auto simp: is_storage_settings_filled_def used_secrets_def has_type_def storage_types Let_def
      list_all_iff split: if_splits)

definition nas_form :: "string \<Rightarrow> string \<Rightarrow> fields" where
  "nas_form host password = [(''type'', JStr ''NAS''), (''host'', JStr host), (''port'', JNum 445),
     (''share'', JStr ''s''), (''username'', JStr ''u''), (''password'', JStr password)]"

lemma changed_address_needs_secrets_witness:
  "js_truthy (fld (nas_form ''new'' ''pw'') ''password'')"
  using changed_address_needs_secrets [of "nas_form ''new'' ''pw''" "Some (nas_form ''old'' ''pw'')" True]
  by (simp add: is_storage_address_changed_def is_storage_settings_filled_def has_type_def storage_types
      nas_form_def fld_def used_secrets_def optional_field_changed_def or_blank_def js_truthy_def Let_def)

lemma same_address_keeps_secrets:
  "is_storage_settings_filled (nas_form ''old'' []) True (Some (nas_form ''old'' []))"
  by (simp add: is_storage_address_changed_def is_storage_settings_filled_def has_type_def storage_types
      nas_form_def fld_def optional_field_changed_def or_blank_def js_truthy_def Let_def)

text \<open>A saved answer never overwrites what the user typed while it was on its way: of two forms
  of one provider, every field that still has the submitted value takes the server's, and every
  field edited since keeps the edit.\<close>

theorem acknowledged_settings_keep_edits:
  assumes "fld current ''type'' = fld submitted ''type''" "fld saved ''type'' = fld submitted ''type''"
  shows "fld (acknowledge_storage_settings current submitted saved) k =
    (if plain (fld current k) = plain (fld submitted k)
        \<and> k \<in> fst ` set submitted \<union> fst ` set saved
     then fld saved k else fld current k)"
  using assms
  by (auto simp: acknowledge_storage_settings_def acknowledged_fields_def fld_acknowledge_fold)

lemma acknowledged_settings_keep_edits_witness:
  "fld (acknowledge_storage_settings (nas_form ''edited'' ''pw'') (nas_form ''sent'' ''pw'')
      (delete_field ''password'' (nas_form ''sent'' ''pw''))) ''host'' = JStr ''edited''"
  using acknowledged_settings_keep_edits [of "nas_form ''edited'' ''pw''" "nas_form ''sent'' ''pw''"
      "delete_field ''password'' (nas_form ''sent'' ''pw'')" "''host''"]
  by (simp add: fld_delete_field) (simp add: nas_form_def fld_def)

text \<open>A form is unchanged exactly when its name is the saved one and its settings mean the saved
  ones: the order of fields and fields without a value make no difference, every other difference
  counts, at any depth.\<close>

theorem draft_unchanged_means_same_settings:
  assumes "well_formed (JObj (dr_settings draft))" "well_formed (JObj (dr_settings baseline))"
  shows "is_storage_draft_unchanged draft baseline =
    (dr_name draft = dr_name baseline
     \<and> denote (plain (JObj (dr_settings draft))) = denote (plain (JObj (dr_settings baseline))))"
  using signature_eq_iff [OF assms] by (simp add: is_storage_draft_unchanged_def get_settings_signature_def)

lemma draft_unchanged_means_same_settings_witness:
  "is_storage_draft_unchanged
     \<lparr>dr_storageId = None, dr_name = ''n'', dr_settings = [(''a'', JNum 1), (''b'', JUndefined)]\<rparr>
     \<lparr>dr_storageId = None, dr_name = ''n'', dr_settings = [(''a'', JNum 1)]\<rparr>"
  by (subst draft_unchanged_means_same_settings) simp_all

section \<open>The merge keeps objects well formed\<close>

lemma well_formed_acknowledge:
  assumes "well_formed (JObj saved)"
  shows "well_formed (JObj current) \<Longrightarrow>
    well_formed (JObj (acknowledge_storage_settings current submitted saved))"
proof -
  have "well_formed (JObj ack) \<Longrightarrow>
      well_formed (JObj (foldl (acknowledge_field submitted saved) ack ks))" for ack ks
    using well_formed_fld [OF assms]
    by (induction ks arbitrary: ack)
      (auto simp: acknowledge_field_def well_formed_set_field well_formed_delete_field
        simp del: well_formed.simps)
  then show "well_formed (JObj current) \<Longrightarrow>
      well_formed (JObj (acknowledge_storage_settings current submitted saved))"
    by (simp add: acknowledge_storage_settings_def)
qed

end
