(* ===== verification/Storage_Draft.thy ===== *)
theory Storage_Draft
  imports Storages Resources
begin

text \<open>
  The form of a storage (\<open>features/edit-storage/model/useStorageDraft.ts\<close>): editing, testing the
  connection and saving. The hook's state and its refs are one record, a ref that mirrors a state
  variable being one field with it. \<open>testConnection\<close> and \<open>save\<close> are cut at their await: the first part
  answers a token with what the rest captured; \<open>cur\<close> tells whether the session the request was sent
  under is still the current one. A \<open>Symbol()\<close> is a number not used before. Callbacks are logs, and
  the object identity of \<open>options.draft\<close> is equality.
\<close>

section \<open>State\<close>

record saved_storage =
  so_id :: string
  so_name :: string
  so_settings :: fields

record storage_options =
  op_workspaceId :: string
  op_editingStorage :: "saved_storage option"
  op_draft :: "storage_draft option"

datatype 'e storage_error = ApiStorageError 'e | ConnectionError string

record storage_context =
  cx_workspaceId :: string
  cx_inputId :: "string option"
  cx_draft :: "storage_draft option"

record 'e storage_form =
  sd_draft :: storage_draft
  sd_baseline :: storage_draft
  sd_storageId :: "string option"
  sd_savedSettings :: "fields option"
  sd_isSaving :: bool
  sd_isTesting :: bool
  sd_testedRevision :: "nat option"
  sd_error :: "'e storage_error option"
  sd_contextRevision :: request_revision
  sd_settingsRevision :: request_revision
  sd_testRevision :: request_revision
  sd_activeTest :: "nat option"
  sd_activeSave :: "nat option"
  sd_nextSymbol :: nat
  sd_context :: storage_context
  sd_persisted :: "saved_storage list"
  sd_changed :: "saved_storage list"
  sd_testSucceeded :: nat

record test_token =
  tt_context :: nat
  tt_settings :: nat
  tt_test :: nat
  tt_request :: nat
  tt_sent :: fields

record save_token =
  tv_context :: nat
  tv_test :: nat
  tv_request :: nat
  tv_submitted :: storage_draft
  tv_id :: "string option"

record storage_test_result =
  tr_isConnected :: bool
  tr_error :: "string option"

definition create_draft :: "saved_storage option \<Rightarrow> storage_draft option \<Rightarrow> storage_draft" where
  "create_draft editingStorage draft = (case draft of
       Some d \<Rightarrow> d
     | None \<Rightarrow> \<lparr>dr_storageId = map_option so_id editingStorage,
         dr_name = (case editingStorage of Some x \<Rightarrow> so_name x | None \<Rightarrow> []),
         dr_settings = (case editingStorage of Some x \<Rightarrow> so_settings x
           | None \<Rightarrow> create_default_storage_settings storage_type_local)\<rparr>)"

definition context_of :: "storage_options \<Rightarrow> storage_context" where
  "context_of opts = \<lparr>cx_workspaceId = op_workspaceId opts,
     cx_inputId = map_option so_id (op_editingStorage opts), cx_draft = op_draft opts\<rparr>"

definition new_storage_form :: "storage_options \<Rightarrow> 'e storage_form" where
  "new_storage_form opts =
     (let draft = create_draft (op_editingStorage opts) (op_draft opts)
      in \<lparr>sd_draft = draft, sd_baseline = draft, sd_storageId = dr_storageId draft,
          sd_savedSettings = map_option so_settings (op_editingStorage opts),
          sd_isSaving = False, sd_isTesting = False, sd_testedRevision = None, sd_error = None,
          sd_contextRevision = new_revision, sd_settingsRevision = new_revision,
          sd_testRevision = new_revision, sd_activeTest = None, sd_activeSave = None,
          sd_nextSymbol = 0, sd_context = context_of opts, sd_persisted = [], sd_changed = [],
          sd_testSucceeded = 0\<rparr>)"

section \<open>Editing\<close>

definition change_name :: "string \<Rightarrow> 'e storage_form \<Rightarrow> 'e storage_form" where
  "change_name name s = s\<lparr>sd_draft := (sd_draft s)\<lparr>dr_name := name\<rparr>\<rparr>"

definition invalidate_test :: "'e storage_form \<Rightarrow> 'e storage_form" where
  "invalidate_test s = s\<lparr>sd_testRevision := snd (invalidate (sd_testRevision s)),
     sd_activeTest := None, sd_isTesting := False, sd_testedRevision := None, sd_error := None\<rparr>"

text \<open>The id of a saved storage is a text that is not empty, so its truth is its presence.\<close>

definition type_change_refused :: "fields \<Rightarrow> 'e storage_form \<Rightarrow> bool" where
  "type_change_refused settings s \<longleftrightarrow>
     (truthy (sd_storageId s) \<or> sd_activeSave s \<noteq> None)
     \<and> fld settings ''type'' \<noteq> fld (dr_settings (sd_draft s)) ''type''"

definition change_settings :: "fields \<Rightarrow> 'e storage_form \<Rightarrow> 'e storage_form" where
  "change_settings settings s =
     (if type_change_refused settings s then s
      else let s1 = invalidate_test
                 (s\<lparr>sd_settingsRevision := snd (invalidate (sd_settingsRevision s))\<rparr>)
           in s1\<lparr>sd_draft := (sd_draft s1)\<lparr>dr_settings := settings\<rparr>\<rparr>)"

section \<open>Testing the connection\<close>

definition start_test :: "'e storage_form \<Rightarrow> test_token option \<times> 'e storage_form" where
  "start_test s =
     (if sd_activeTest s \<noteq> None
         \<or> \<not> is_storage_settings_filled (dr_settings (sd_draft s)) (truthy (sd_storageId s))
               (sd_savedSettings s)
      then (None, s)
      else let (testRevision, r) = invalidate (sd_testRevision s);
               request = sd_nextSymbol s
           in (Some \<lparr>tt_context = get_current (sd_contextRevision s),
                     tt_settings = get_current (sd_settingsRevision s), tt_test = testRevision,
                     tt_request = request, tt_sent = dr_settings (sd_draft s)\<rparr>,
               s\<lparr>sd_testRevision := r, sd_nextSymbol := request + 1, sd_activeTest := Some request,
                 sd_isTesting := True, sd_error := None\<rparr>))"

definition test_is_active :: "bool \<Rightarrow> test_token \<Rightarrow> 'e storage_form \<Rightarrow> bool" where
  "test_is_active cur tok s \<longleftrightarrow> cur
     \<and> is_current_revision (sd_contextRevision s) (tt_context tok)
     \<and> is_current_revision (sd_settingsRevision s) (tt_settings tok)
     \<and> is_current_revision (sd_testRevision s) (tt_test tok)"

definition end_test :: "nat \<Rightarrow> 'e storage_form \<Rightarrow> 'e storage_form" where
  "end_test request s =
     (if sd_activeTest s = Some request then s\<lparr>sd_activeTest := None, sd_isTesting := False\<rparr> else s)"

definition settle_test ::
    "bool \<Rightarrow> test_token \<Rightarrow> 'e + storage_test_result \<Rightarrow> 'e storage_form \<Rightarrow> 'e storage_form" where
  "settle_test cur tok answer s =
     (let s1 = (if \<not> test_is_active cur tok s then s
                else case answer of
                  Inr response \<Rightarrow>
                    if tr_isConnected response
                    then s\<lparr>sd_testedRevision := Some (tt_settings tok),
                           sd_testSucceeded := sd_testSucceeded s + 1\<rparr>
                    else s\<lparr>sd_error := Some (ConnectionError (nullish (tr_error response) []))\<rparr>
                | Inl failure \<Rightarrow> s\<lparr>sd_error := Some (ApiStorageError failure)\<rparr>)
      in end_test (tt_request tok) s1)"

section \<open>Saving\<close>

definition start_save :: "'e storage_form \<Rightarrow> save_token option \<times> 'e storage_form" where
  "start_save s =
     (if sd_activeSave s \<noteq> None
         \<or> sd_testedRevision s \<noteq> Some (get_current (sd_settingsRevision s)) then (None, s)
      else let submitted = sd_draft s
           in if trim (dr_name submitted) = []
                \<or> \<not> is_storage_settings_filled (dr_settings submitted) (truthy (sd_storageId s))
                      (sd_savedSettings s)
              then (None, s)
              else let request = sd_nextSymbol s
                   in (Some \<lparr>tv_context = get_current (sd_contextRevision s),
                             tv_test = get_current (sd_testRevision s), tv_request = request,
                             tv_submitted = submitted, tv_id = sd_storageId s\<rparr>,
                       s\<lparr>sd_nextSymbol := request + 1, sd_activeSave := Some request,
                         sd_isSaving := True, sd_error := None\<rparr>))"

definition end_save :: "nat \<Rightarrow> 'e storage_form \<Rightarrow> 'e storage_form" where
  "end_save request s =
     (if sd_activeSave s = Some request then s\<lparr>sd_activeSave := None, sd_isSaving := False\<rparr> else s)"

definition acknowledged_draft :: "saved_storage \<Rightarrow> storage_draft" where
  "acknowledged_draft saved =
     \<lparr>dr_storageId = Some (so_id saved), dr_name = so_name saved, dr_settings = so_settings saved\<rparr>"

definition merged_draft :: "storage_draft \<Rightarrow> storage_draft \<Rightarrow> saved_storage \<Rightarrow> storage_draft" where
  "merged_draft current submitted saved =
     \<lparr>dr_storageId = Some (so_id saved),
      dr_name = (if dr_name current = dr_name submitted then so_name saved else dr_name current),
      dr_settings = acknowledge_storage_settings (dr_settings current) (dr_settings submitted)
        (so_settings saved)\<rparr>"

definition accept_saved :: "save_token \<Rightarrow> saved_storage \<Rightarrow> 'e storage_form \<Rightarrow> 'e storage_form" where
  "accept_saved tok saved s =
     (let acknowledged = acknowledged_draft saved;
          merged = merged_draft (sd_draft s) (tv_submitted tok) saved;
          s1 = s\<lparr>sd_storageId := Some (so_id saved), sd_savedSettings := Some (so_settings saved)\<rparr>;
          s2 = (if \<not> is_current_revision (sd_testRevision s1) (tv_test tok)
                then invalidate_test s1 else s1);
          s3 = s2\<lparr>sd_draft := merged, sd_baseline := acknowledged,
                  sd_persisted := sd_persisted s2 @ [saved]\<rparr>
      in if is_storage_draft_unchanged merged acknowledged
         then s3\<lparr>sd_changed := sd_changed s3 @ [saved]\<rparr> else s3)"

definition settle_save ::
    "bool \<Rightarrow> save_token \<Rightarrow> 'e + saved_storage \<Rightarrow> 'e storage_form \<Rightarrow> 'e storage_form" where
  "settle_save cur tok answer s =
     (let s1 = (if \<not> (cur \<and> is_current_revision (sd_contextRevision s) (tv_context tok)) then s
                else case answer of
                  Inr saved \<Rightarrow> accept_saved tok saved s
                | Inl failure \<Rightarrow> s\<lparr>sd_error := Some (ApiStorageError failure)\<rparr>)
      in end_save (tv_request tok) s1)"

section \<open>Effects\<close>

definition has_new_context :: "storage_options \<Rightarrow> 'e storage_form \<Rightarrow> bool" where
  "has_new_context opts s \<longleftrightarrow>
     (let cx = sd_context s; inputId = map_option so_id (op_editingStorage opts)
      in cx_workspaceId cx \<noteq> op_workspaceId opts
         \<or> (cx_inputId cx \<noteq> inputId \<and> sd_storageId s \<noteq> inputId)
         \<or> cx_draft cx \<noteq> op_draft opts)"

definition reset_form :: "storage_options \<Rightarrow> 'e storage_form \<Rightarrow> 'e storage_form" where
  "reset_form opts s =
     (let s1 = invalidate_test (s\<lparr>sd_contextRevision := snd (invalidate (sd_contextRevision s)),
                 sd_settingsRevision := snd (invalidate (sd_settingsRevision s))\<rparr>);
          initial = create_draft (op_editingStorage opts) (op_draft opts)
      in s1\<lparr>sd_activeSave := None, sd_draft := initial, sd_baseline := initial,
            sd_storageId := dr_storageId initial,
            sd_savedSettings := map_option so_settings (op_editingStorage opts),
            sd_isSaving := False\<rparr>)"

definition sync_options :: "storage_options \<Rightarrow> 'e storage_form \<Rightarrow> 'e storage_form" where
  "sync_options opts s =
     (let hasNewContext = has_new_context opts s;
          s1 = s\<lparr>sd_context := context_of opts\<rparr>
      in if \<not> hasNewContext
            \<and> (op_editingStorage opts = None
               \<or> \<not> is_storage_draft_unchanged (sd_draft s1) (sd_baseline s1)
               \<or> sd_activeSave s1 \<noteq> None)
         then s1 else reset_form opts s1)"

text \<open>The session's listener, and unmounting.\<close>

definition cancel_requests :: "'e storage_form \<Rightarrow> 'e storage_form" where
  "cancel_requests s = s\<lparr>sd_contextRevision := snd (invalidate (sd_contextRevision s)),
     sd_testRevision := snd (invalidate (sd_testRevision s)), sd_activeTest := None,
     sd_activeSave := None, sd_isSaving := False, sd_isTesting := False, sd_testedRevision := None\<rparr>"

definition unmount_form :: "'e storage_form \<Rightarrow> 'e storage_form" where
  "unmount_form s = s\<lparr>sd_contextRevision := snd (invalidate (sd_contextRevision s)),
     sd_testRevision := snd (invalidate (sd_testRevision s)), sd_activeTest := None,
     sd_activeSave := None\<rparr>"

definition is_unsaved :: "'e storage_form \<Rightarrow> bool" where
  "is_unsaved s = (\<not> truthy (sd_storageId s) \<or> \<not> is_storage_draft_unchanged (sd_draft s) (sd_baseline s))"

definition is_tested :: "'e storage_form \<Rightarrow> bool" where
  "is_tested s = (sd_testedRevision s = Some (get_current (sd_settingsRevision s)))"

section \<open>Runs\<close>

datatype 'e form_event =
    EvName string
  | EvSettings fields
  | EvStartTest
  | EvTestAnswer bool test_token "'e + storage_test_result"
  | EvStartSave
  | EvSaveAnswer bool save_token "'e + saved_storage"
  | EvOptions storage_options
  | EvSessionChange
  | EvUnmount

fun form_step :: "'e storage_form \<Rightarrow> 'e form_event \<Rightarrow> 'e storage_form" where
  "form_step s (EvName n) = change_name n s"
| "form_step s (EvSettings g) = change_settings g s"
| "form_step s EvStartTest = snd (start_test s)"
| "form_step s (EvTestAnswer cur tok a) = settle_test cur tok a s"
| "form_step s EvStartSave = snd (start_save s)"
| "form_step s (EvSaveAnswer cur tok a) = settle_save cur tok a s"
| "form_step s (EvOptions opts) = sync_options opts s"
| "form_step s EvSessionChange = cancel_requests s"
| "form_step s EvUnmount = unmount_form s"

section \<open>Edits need a new test\<close>

lemmas form_defs = change_name_def change_settings_def invalidate_test_def start_test_def
  end_test_def start_save_def end_save_def accept_saved_def settle_save_def reset_form_def
  sync_options_def cancel_requests_def unmount_form_def Let_def case_prod_unfold

fun no_new_test :: "nat \<Rightarrow> 'e form_event \<Rightarrow> bool" where
  "no_new_test n EvStartTest = False"
| "no_new_test n (EvTestAnswer cur tok a) = (tt_settings tok \<le> n)"
| "no_new_test n _ = True"

lemma form_revision_grows: "rr_revision (sd_settingsRevision s) \<le> rr_revision (sd_settingsRevision (form_step s e))"
proof (cases e)
  case (EvTestAnswer cur tok a)
  then show ?thesis by (auto simp: settle_test_def end_test_def Let_def split: sum.split)
next
  case (EvSaveAnswer cur tok a)
  then show ?thesis by (cases a) (auto simp: form_defs)
qed (auto simp: form_defs)

lemma settle_test_untested:
  "tt_settings tok \<le> n \<Longrightarrow> n < rr_revision (sd_settingsRevision s) \<Longrightarrow>
    sd_testedRevision s \<noteq> Some (rr_revision (sd_settingsRevision s)) \<Longrightarrow>
    sd_testedRevision (settle_test cur tok a s) \<noteq> Some (rr_revision (sd_settingsRevision (settle_test cur tok a s)))"
  by (auto simp: settle_test_def test_is_active_def end_test_def is_current_revision_def Let_def)

lemma untested_step:
  "no_new_test n e \<Longrightarrow> n < rr_revision (sd_settingsRevision s) \<Longrightarrow>
    sd_testedRevision s \<noteq> Some (rr_revision (sd_settingsRevision s)) \<Longrightarrow>
    sd_testedRevision (form_step s e) \<noteq> Some (rr_revision (sd_settingsRevision (form_step s e)))"
proof (cases e)
  case (EvTestAnswer cur tok a)
  then show "no_new_test n e \<Longrightarrow> n < rr_revision (sd_settingsRevision s) \<Longrightarrow>
      sd_testedRevision s \<noteq> Some (rr_revision (sd_settingsRevision s)) \<Longrightarrow> ?thesis"
    by (simp add: settle_test_untested)
next
  case (EvSaveAnswer cur tok a)
  then show "sd_testedRevision s \<noteq> Some (rr_revision (sd_settingsRevision s)) \<Longrightarrow> ?thesis"
    by (cases a) (auto simp: form_defs)
qed (auto simp: form_defs)

interpretation storage_forms: tested_form form_step "\<lambda>s. rr_revision (sd_settingsRevision s)"
    sd_testedRevision no_new_test "\<lambda>s. fst (start_save s)"
  by unfold_locales (simp_all add: form_revision_grows untested_step start_save_def get_current_def)


section \<open>Late answers\<close>

text \<open>No request of a context older than the current one is active: its symbol is older than every
  active one, and its context is not current.\<close>

definition past_requests :: "nat \<Rightarrow> nat \<Rightarrow> 'e storage_form \<Rightarrow> bool" where
  "past_requests c n s \<longleftrightarrow>
     c < rr_revision (sd_contextRevision s) \<and> n \<le> sd_nextSymbol s
     \<and> (case sd_activeTest s of None \<Rightarrow> True | Some r \<Rightarrow> n \<le> r)
     \<and> (case sd_activeSave s of None \<Rightarrow> True | Some r \<Rightarrow> n \<le> r)"

lemma past_requests_invalidate: "past_requests c n s \<Longrightarrow> past_requests c n (invalidate_test s)"
  by (simp add: past_requests_def invalidate_test_def)

lemma past_requests_ends:
  "past_requests c n s \<Longrightarrow> past_requests c n (end_test r s)"
  "past_requests c n s \<Longrightarrow> past_requests c n (end_save r s)"
  by (simp_all add: past_requests_def end_test_def end_save_def)

lemma past_requests_accept: "past_requests c n s \<Longrightarrow> past_requests c n (accept_saved tok x s)"
  using past_requests_invalidate [of c n s]
  by (simp add: past_requests_def accept_saved_def invalidate_test_def Let_def)

lemma past_requests_step: "past_requests c n s \<Longrightarrow> past_requests c n (form_step s e)"
proof (cases e)
  case (EvTestAnswer cur tok a)
  then show "past_requests c n s \<Longrightarrow> past_requests c n (form_step s e)"
    by (auto simp: settle_test_def Let_def split: sum.split intro!: past_requests_ends)
      (auto simp: past_requests_def)
next
  case (EvSaveAnswer cur tok a)
  then show "past_requests c n s \<Longrightarrow> past_requests c n (form_step s e)"
    by (auto simp: settle_save_def Let_def past_requests_accept split: sum.split
        intro!: past_requests_ends) (auto simp: past_requests_def)
qed (auto simp: past_requests_def form_defs)

interpretation forms: invariant_machine form_step "past_requests c n" for c n
  by unfold_locales (rule past_requests_step)

text \<open>After a sign-in or sign-out, or after the form was left, the answers of the requests sent
  before change nothing, whatever the form did since: not the draft, not the messages, not even the
  flags of requests sent later.\<close>

theorem answers_of_an_ended_session_change_nothing:
  assumes "ended = cancel_requests s \<or> ended = unmount_form s"
    and "tv_context save_tok \<le> rr_revision (sd_contextRevision s)" "tv_request save_tok < sd_nextSymbol s"
    and "tt_context test_tok \<le> rr_revision (sd_contextRevision s)" "tt_request test_tok < sd_nextSymbol s"
  shows "settle_save cur save_tok a (foldl form_step ended es) = foldl form_step ended es
    \<and> settle_test cur test_tok b (foldl form_step ended es) = foldl form_step ended es"
proof -
  let ?c = "rr_revision (sd_contextRevision s)" and ?n = "sd_nextSymbol s"
  have "past_requests ?c ?n ended"
    using assms(1) by (auto simp: past_requests_def cancel_requests_def unmount_form_def)
  from forms.run_inv [OF this] have inv: "past_requests ?c ?n (foldl form_step ended es)" .
  then have "settle_save cur save_tok a (foldl form_step ended es) = foldl form_step ended es"
    using assms(2,3)
    by (auto simp: settle_save_def past_requests_def is_current_revision_def end_save_def
        split: option.splits)
  moreover have "settle_test cur test_tok b (foldl form_step ended es) = foldl form_step ended es"
    using inv assms(4,5)
    by (auto simp: settle_test_def test_is_active_def past_requests_def is_current_revision_def
        end_test_def split: option.splits)
  ultimately show ?thesis ..
qed

text \<open>The tokens a form hands out are such tokens.\<close>

lemma tokens_in_bounds:
  "start_save s = (Some tok, s') \<Longrightarrow>
    tv_context tok \<le> rr_revision (sd_contextRevision s') \<and> tv_request tok < sd_nextSymbol s'"
  "start_test s = (Some tk, s') \<Longrightarrow>
    tt_context tk \<le> rr_revision (sd_contextRevision s') \<and> tt_request tk < sd_nextSymbol s'"
  by (auto simp: form_defs get_current_def split: if_splits)

section \<open>A save without further edits\<close>

text \<open>A save that nobody edited meanwhile leaves a clean form: once the server acknowledged the
  draft that was sent, the form shows no unsaved change, its baseline is the server's answer, and the
  screen is told that the storage changed.\<close>

theorem unedited_save_leaves_a_clean_form:
  assumes "sd_draft s = tv_submitted tok"
    and "is_current_revision (sd_contextRevision s) (tv_context tok)"
    and "fld (so_settings saved) ''type'' = fld (dr_settings (tv_submitted tok)) ''type''"
    and "well_formed (JObj (so_settings saved))" "well_formed (JObj (dr_settings (tv_submitted tok)))"
    and "so_id saved \<noteq> []"
  shows "\<not> is_unsaved (settle_save True tok (Inr saved) s)
    \<and> sd_baseline (settle_save True tok (Inr saved) s) = acknowledged_draft saved
    \<and> sd_changed (settle_save True tok (Inr saved) s) = sd_changed s @ [saved]"
proof -
  let ?sub = "dr_settings (tv_submitted tok)" and ?sav = "so_settings saved"
  let ?ack = "acknowledge_storage_settings ?sub ?sub ?sav"
  have "fld ?ack k = fld ?sav k" for k
    using assms(3) fld_missing [of k ?sub] fld_missing [of k ?sav]
    by (auto simp: acknowledge_storage_settings_def acknowledged_fields_def fld_acknowledge_fold)
  then have "signature (JObj ?ack) = signature (JObj ?sav)"
    using assms(4,5) by (intro same_fields_same_meaning well_formed_acknowledge)
  then have "is_storage_draft_unchanged (merged_draft (tv_submitted tok) (tv_submitted tok) saved)
      (acknowledged_draft saved)"
    by (simp add: is_storage_draft_unchanged_def merged_draft_def acknowledged_draft_def
        get_settings_signature_def del: signature.simps)
  with assms(1,2,6) show ?thesis
    by (auto simp: is_unsaved_def settle_save_def accept_saved_def end_save_def invalidate_test_def
        truthy_def Let_def)
qed

section \<open>A form at work\<close>

definition local_form :: "nat storage_form" where
  "local_form = change_name ''backups''
     (new_storage_form \<lparr>op_workspaceId = ''w'', op_editingStorage = None, op_draft = None\<rparr>)"

definition tested_form :: "nat storage_form" where
  "tested_form = (let (tok, s) = start_test local_form
     in settle_test True (the tok) (Inr \<lparr>tr_isConnected = True, tr_error = None\<rparr>) s)"

definition saving_form :: "save_token option \<times> nat storage_form" where
  "saving_form = start_save tested_form"

definition saved_answer :: saved_storage where
  "saved_answer = \<lparr>so_id = ''s1'', so_name = ''backups'', so_settings = [(''type'', JStr ''LOCAL'')]\<rparr>"

lemmas work_simps = saving_form_def tested_form_def local_form_def new_storage_form_def
  create_draft_def context_of_def create_default_storage_settings_def storage_types
  is_storage_settings_filled_def has_type_def fld_def settle_test_def test_is_active_def
  form_defs new_revision_def get_current_def is_current_revision_def invalidate_def truthy_def

lemma backups_name: "trim ''backups'' = ''backups''"
  using trim_framed [of "''backup''" "CHR ''s''"]
  by (simp add: space_length_not_space printable_not_space)

lemma saving_form_token:
  "fst saving_form = Some \<lparr>tv_context = 0, tv_test = 1, tv_request = 1,
     tv_submitted = \<lparr>dr_storageId = None, dr_name = ''backups'',
       dr_settings = [(''type'', JStr ''LOCAL'')]\<rparr>, tv_id = None\<rparr>"
  by (simp add: work_simps backups_name)


lemma answers_of_an_ended_session_change_nothing_witness:
  "settle_save True (the (fst saving_form)) (Inr saved_answer)
      (foldl form_step (cancel_requests (snd saving_form)) [EvStartTest]) =
    foldl form_step (cancel_requests (snd saving_form)) [EvStartTest]"
  using answers_of_an_ended_session_change_nothing
    [of "cancel_requests (snd saving_form)" "snd saving_form" "the (fst saving_form)"
      "\<lparr>tt_context = 0, tt_settings = 0, tt_test = 1, tt_request = 0, tt_sent = []\<rparr>" True "Inr saved_answer"]
  unfolding saving_form_token
  by (simp add: work_simps backups_name)

lemma unedited_save_leaves_a_clean_form_witness:
  "\<not> is_unsaved (settle_save True (the (fst saving_form)) (Inr saved_answer) (snd saving_form))"
  using unedited_save_leaves_a_clean_form
    [of "snd saving_form" "the (fst saving_form)" saved_answer]
  unfolding saving_form_token saved_answer_def
  by (simp add: work_simps backups_name)

end
