(* ===== verification/Notifiers.thy ===== *)
theory Notifiers
  imports Form_Fields Connection_Uri
begin

text \<open>
  Notifier settings as a form holds them (\<open>entities/notifiers/model\<close>, \<open>features/edit-notifier/lib\<close>,
  \<open>features/edit-notifier/model/acknowledgeNotifierSettings.ts\<close>): the seven channels with their
  defaults and validation, whether the address changed, the comparison of drafts, and the merge of a
  saved answer, which treats the headers of a webhook by name.

  The browser's \<open>new URL(s)\<close> is the parameter \<open>url\<close>; \<open>None\<close> is the exception it throws.
\<close>

section \<open>Channels\<close>

definition notifier_type_email :: string where "notifier_type_email = ''EMAIL''"
definition notifier_type_telegram :: string where "notifier_type_telegram = ''TELEGRAM''"
definition notifier_type_webhook :: string where "notifier_type_webhook = ''WEBHOOK''"
definition notifier_type_slack :: string where "notifier_type_slack = ''SLACK''"
definition notifier_type_discord :: string where "notifier_type_discord = ''DISCORD''"
definition notifier_type_teams :: string where "notifier_type_teams = ''TEAMS''"
definition notifier_type_mattermost :: string where "notifier_type_mattermost = ''MATTERMOST''"

lemmas notifier_types [table_defs] = notifier_type_email_def notifier_type_telegram_def
  notifier_type_webhook_def notifier_type_slack_def notifier_type_discord_def notifier_type_teams_def
  notifier_type_mattermost_def

definition webhook_method_post :: string where "webhook_method_post = ''POST''"
definition webhook_method_get :: string where "webhook_method_get = ''GET''"

definition mattermost_webhook_mode :: string where "mattermost_webhook_mode = ''WEBHOOK''"
definition mattermost_bot_mode :: string where "mattermost_bot_mode = ''BOT''"

datatype email_security = TLS | STARTTLS | NoEncryption

primrec email_security_name :: "email_security \<Rightarrow> string" where
  "email_security_name TLS = ''TLS''"
| "email_security_name STARTTLS = ''STARTTLS''"
| "email_security_name NoEncryption = ''NONE''"

definition implicit_tls_port :: number where "implicit_tls_port = 465"

definition get_default_email_notifier_security :: "number \<Rightarrow> email_security" where
  "get_default_email_notifier_security port = (if port = implicit_tls_port then TLS else STARTTLS)"

definition get_security_after_port_change :: "email_security \<Rightarrow> number \<Rightarrow> number \<Rightarrow> email_security" where
  "get_security_after_port_change currentSecurity previousPort nextPort =
     (if currentSecurity = get_default_email_notifier_security previousPort
      then get_default_email_notifier_security nextPort else currentSecurity)"

definition notification_category_all :: string where "notification_category_all = ''ALL''"

definition default_accepted_categories :: "jsval list" where
  "default_accepted_categories = [JStr notification_category_all]"

definition unset_smtp_port :: number where "unset_smtp_port = 0"

definition create_default_notifier_settings :: "string \<Rightarrow> fields" where
  "create_default_notifier_settings t =
     (if t = notifier_type_email
      then [(''type'', JStr t), (''targetEmail'', JStr []), (''smtpHost'', JStr []),
            (''smtpPort'', JNum unset_smtp_port), (''isInsecureSkipVerify'', JBool False),
            (''security'', JStr (email_security_name
               (get_default_email_notifier_security unset_smtp_port)))]
      else if t = notifier_type_telegram
      then [(''type'', JStr t), (''targetChatId'', JStr []), (''isProxyEnabled'', JBool False)]
      else if t = notifier_type_slack then [(''type'', JStr t), (''targetChatId'', JStr [])]
      else if t = notifier_type_discord then [(''type'', JStr t)]
      else if t = notifier_type_teams then [(''type'', JStr t)]
      else if t = notifier_type_mattermost
      then [(''type'', JStr t), (''deliveryMode'', JStr mattermost_webhook_mode),
            (''isInsecureSkipVerify'', JBool False)]
      else if t = notifier_type_webhook
      then [(''type'', JStr t), (''webhookUrl'', JStr []), (''webhookMethod'', JStr webhook_method_post),
            (''headers'', JArr []), (''acceptedCategories'', JArr default_accepted_categories)]
      else [])"

section \<open>Validation\<close>

text \<open>\<open>/^.+@[^\s@]+$/\<close>: the domain holds no \<open>@\<close>, so the match splits at the last one.\<close>

definition has_space :: "string \<Rightarrow> bool" where
  "has_space s \<longleftrightarrow> snd (non_space_run s) \<noteq> []"

definition matches_email :: "string \<Rightarrow> bool" where
  "matches_email s =
     (let domain = rev (takeWhile (\<lambda>c. c \<noteq> CHR ''@'') (rev s));
          before = rev (dropWhile (\<lambda>c. c \<noteq> CHR ''@'') (rev s))
      in before \<noteq> [] \<and> butlast before \<noteq> [] \<and> \<not> has_line_end (butlast before)
         \<and> domain \<noteq> [] \<and> \<not> has_space domain)"

definition is_port_number :: "jsval \<Rightarrow> bool" where
  "is_port_number v = (case v of
       JNum n \<Rightarrow> of_int \<lfloor>n\<rfloor> = n \<and> 1 \<le> n \<and> n \<le> 65535
     | _ \<Rightarrow> False)"

definition validate_email_notifier :: "fields \<Rightarrow> bool \<Rightarrow> bool" where
  "validate_email_notifier settings isAddressChanged \<longleftrightarrow>
     matches_email (text_field settings ''targetEmail'')
     \<and> trim (text_field settings ''smtpHost'') \<noteq> []
     \<and> is_port_number (fld settings ''smtpPort'')
     \<and> (\<not> isAddressChanged \<or> \<not> given settings ''smtpUser'' \<or> given settings ''smtpPassword'')"

record notifier_url =
  nu_protocol :: string
  nu_host :: string
  nu_username :: string
  nu_password :: string

definition allowed_proxy_protocols :: "string list" where
  "allowed_proxy_protocols = [''http:'', ''https:'', ''socks5:'', ''socks5h:'']"

definition is_valid_proxy_url :: "(string \<Rightarrow> notifier_url option) \<Rightarrow> string \<Rightarrow> bool" where
  "is_valid_proxy_url url rawProxyUrl = (case url rawProxyUrl of
       Some u \<Rightarrow> nu_protocol u \<in> set allowed_proxy_protocols \<and> nu_host u \<noteq> []
     | None \<Rightarrow> False)"

definition allowed_bot_api_protocols :: "string list" where
  "allowed_bot_api_protocols = [''http:'', ''https:'']"

definition is_valid_bot_api_url :: "(string \<Rightarrow> notifier_url option) \<Rightarrow> string \<Rightarrow> bool" where
  "is_valid_bot_api_url url rawBotApiUrl = (case url rawBotApiUrl of
       Some u \<Rightarrow> nu_protocol u \<in> set allowed_bot_api_protocols \<and> nu_host u \<noteq> []
         \<and> nu_username u = [] \<and> nu_password u = []
         \<and> \<not> list_ex (\<lambda>c. c \<in> set ''?#'') rawBotApiUrl
     | None \<Rightarrow> False)"

definition is_positive_thread :: "jsval \<Rightarrow> bool" where
  "is_positive_thread v = (case v of JUndefined \<Rightarrow> True | JNum n \<Rightarrow> 0 < n | _ \<Rightarrow> False)"

definition validate_telegram_notifier ::
    "(string \<Rightarrow> notifier_url option) \<Rightarrow> bool \<Rightarrow> fields \<Rightarrow> bool \<Rightarrow> bool" where
  "validate_telegram_notifier url isCreate settings isAddressChanged =
     (if (isCreate \<or> isAddressChanged) \<and> \<not> given settings ''botToken'' then False
      else if \<not> given settings ''targetChatId'' then False
      else if \<not> is_positive_thread (fld settings ''threadId'') then False
      else if given settings ''isProxyEnabled''
        \<and> (isCreate \<and> \<not> given settings ''proxyUrl''
           \<or> given settings ''proxyUrl'' \<and> \<not> is_valid_proxy_url url (text_field settings ''proxyUrl''))
      then False
      else if given settings ''botApiUrl'' \<and> \<not> is_valid_bot_api_url url (text_field settings ''botApiUrl'')
      then False
      else True)"

definition validate_slack_notifier :: "bool \<Rightarrow> fields \<Rightarrow> bool" where
  "validate_slack_notifier isCreate settings =
     (if isCreate \<and> \<not> given settings ''botToken'' then False else given settings ''targetChatId'')"

definition validate_discord_notifier :: "bool \<Rightarrow> fields \<Rightarrow> bool" where
  "validate_discord_notifier isCreate settings \<longleftrightarrow> \<not> isCreate \<or> given settings ''channelWebhookUrl''"

definition validate_teams_notifier ::
    "(string \<Rightarrow> notifier_url option) \<Rightarrow> bool \<Rightarrow> fields \<Rightarrow> bool" where
  "validate_teams_notifier url isCreate settings =
     (if \<not> given settings ''powerAutomateUrl'' then \<not> isCreate
      else case url (text_field settings ''powerAutomateUrl'') of
        Some u \<Rightarrow> nu_protocol u = ''http:'' \<or> nu_protocol u = ''https:''
      | None \<Rightarrow> False)"

definition mattermost_channel_id_length :: nat where "mattermost_channel_id_length = 26"

definition validate_mattermost_notifier :: "bool \<Rightarrow> fields \<Rightarrow> bool \<Rightarrow> bool" where
  "validate_mattermost_notifier isCreate settings isAddressChanged =
     (if fld settings ''deliveryMode'' = JStr mattermost_webhook_mode
      then \<not> isCreate \<or> given settings ''webhookUrl''
      else if \<not> given settings ''serverUrl'' then False
      else if (isCreate \<or> isAddressChanged) \<and> \<not> given settings ''botToken'' then False
      else utf16_length (text_field settings ''targetChannelId'') = mattermost_channel_id_length)"

text \<open>A header is an object with a name and, when it was typed in, a value.\<close>

definition headers_of :: "fields \<Rightarrow> fields list" where
  "headers_of settings = map object_fields (array_items (fld settings ''headers''))"

abbreviation header_name :: "fields \<Rightarrow> string" where
  "header_name h \<equiv> text_field h ''name''"

definition header_name_char :: "char \<Rightarrow> bool" where
  "header_name_char c \<longleftrightarrow> is_word c \<or> c \<in> set ''!#$%&*+-.^`|~'' \<or> c = CHR 0x27"

definition is_webhook_header_name_valid :: "string \<Rightarrow> bool" where
  "is_webhook_header_name_valid name \<longleftrightarrow> trim name \<noteq> [] \<and> list_all header_name_char (trim name)"

definition is_webhook_header_value_missing :: "fields \<Rightarrow> fields list \<Rightarrow> bool" where
  "is_webhook_header_value_missing header headersRequiringValue \<longleftrightarrow>
     \<not> given header ''value''
     \<and> list_ex (\<lambda>r. to_lower (header_name r) = to_lower (header_name header)) headersRequiringValue"

definition validate_webhook_notifier :: "fields \<Rightarrow> fields list \<Rightarrow> bool" where
  "validate_webhook_notifier settings headersRequiringValue \<longleftrightarrow>
     given settings ''webhookUrl''
     \<and> list_all (\<lambda>h. is_webhook_header_name_valid (header_name h)) (headers_of settings)
     \<and> \<not> list_ex (\<lambda>h. is_webhook_header_value_missing h headersRequiringValue) (headers_of settings)"

section \<open>Address and completeness\<close>

definition is_notifier_address_changed :: "fields \<Rightarrow> fields option \<Rightarrow> bool" where
  "is_notifier_address_changed settings savedSettings = (case savedSettings of
       None \<Rightarrow> False
     | Some saved \<Rightarrow>
         if has_type settings notifier_type_email
         then has_type saved notifier_type_email
           \<and> (optional_field_changed settings saved ''smtpHost''
              \<or> optional_field_changed settings saved ''smtpPort'')
         else if has_type settings notifier_type_telegram
         then has_type saved notifier_type_telegram
           \<and> (optional_field_changed settings saved ''botApiUrl''
              \<or> fld settings ''isProxyEnabled'' \<noteq> fld saved ''isProxyEnabled''
              \<or> given settings ''proxyUrl'')
         else if has_type settings notifier_type_mattermost
         then has_type saved notifier_type_mattermost
           \<and> optional_field_changed settings saved ''serverUrl''
         else if has_type settings notifier_type_webhook
         then has_type saved notifier_type_webhook
           \<and> optional_field_changed settings saved ''webhookUrl''
         else False)"

definition is_notifier_settings_filled ::
    "(string \<Rightarrow> notifier_url option) \<Rightarrow> fields \<Rightarrow> bool \<Rightarrow> fields option \<Rightarrow> bool" where
  "is_notifier_settings_filled url settings isSaved savedSettings =
     (let isCreate = \<not> isSaved;
          isAddressChanged = is_notifier_address_changed settings savedSettings
      in if has_type settings notifier_type_email
         then validate_email_notifier settings isAddressChanged
         else if has_type settings notifier_type_telegram
         then validate_telegram_notifier url isCreate settings isAddressChanged
         else if has_type settings notifier_type_slack then validate_slack_notifier isCreate settings
         else if has_type settings notifier_type_discord then validate_discord_notifier isCreate settings
         else if has_type settings notifier_type_teams then validate_teams_notifier url isCreate settings
         else if has_type settings notifier_type_mattermost
         then validate_mattermost_notifier isCreate settings isAddressChanged
         else if has_type settings notifier_type_webhook
         then validate_webhook_notifier settings
           (case savedSettings of
              Some saved \<Rightarrow> if isAddressChanged \<and> has_type saved notifier_type_webhook
                then headers_of saved else []
            | None \<Rightarrow> [])
         else False)"

section \<open>Comparing drafts (NotifierDraft.ts)\<close>

record notifier_draft =
  nd_name :: string
  nd_settings :: fields

text \<open>The fields are put in order by \<open>localeCompare\<close> in the code; two texts of fields in any one
  order are equal exactly when those in another are.\<close>

definition notifier_draft_value :: "notifier_draft \<Rightarrow> jsval" where
  "notifier_draft_value d = JObj [(''name'', JStr (nd_name d)), (''settings'', JObj (nd_settings d))]"

definition is_notifier_draft_unchanged :: "notifier_draft \<Rightarrow> notifier_draft \<Rightarrow> bool" where
  "is_notifier_draft_unchanged draft baseline =
     (signature (notifier_draft_value draft) = signature (notifier_draft_value baseline))"

section \<open>Acknowledging a save\<close>

definition find_header :: "string \<Rightarrow> fields list \<Rightarrow> fields option" where
  "find_header name headers = List.find (\<lambda>candidate. header_name candidate = name) headers"

text \<open>\<open>header?.value\<close>\<close>

definition header_value :: "fields option \<Rightarrow> jsval" where
  "header_value h = (case h of Some fs \<Rightarrow> fld fs ''value'' | None \<Rightarrow> JUndefined)"

lemma header_value_Some [simp]: "header_value (Some h) = fld h ''value''"
  by (simp add: header_value_def)

definition acknowledge_header :: "fields list \<Rightarrow> fields list \<Rightarrow> fields \<Rightarrow> fields" where
  "acknowledge_header submittedHeaders savedHeaders header =
     (let submittedHeader = find_header (header_name header) submittedHeaders;
          savedHeader = find_header (header_name header) savedHeaders
      in if fld header ''value'' = header_value submittedHeader \<and> header_value savedHeader = JUndefined
         then [(''name'', fld header ''name'')] else header)"

definition acknowledge_notifier_settings :: "fields \<Rightarrow> fields \<Rightarrow> fields \<Rightarrow> fields" where
  "acknowledge_notifier_settings settings submitted saved =
     (if fld settings ''type'' \<noteq> fld submitted ''type'' \<or> fld settings ''type'' \<noteq> fld saved ''type''
      then settings
      else let acknowledged = foldl (acknowledge_field submitted saved) settings
                 (filter (\<lambda>k. k \<noteq> ''headers'') (acknowledged_fields submitted saved))
           in if has_type acknowledged notifier_type_webhook \<and> has_type submitted notifier_type_webhook
                \<and> has_type saved notifier_type_webhook
              then set_field ''headers''
                (JArr (map (\<lambda>h. JObj (acknowledge_header (headers_of submitted) (headers_of saved) h))
                   (headers_of acknowledged))) acknowledged
              else acknowledged)"

section \<open>The sample request of a webhook (webhookExampleRequest.ts)\<close>

definition get_example_post_header_lines :: "fields list \<Rightarrow> string" where
  "get_example_post_header_lines headers =
     (let contentTypeLine =
            (if list_ex (\<lambda>h. to_lower (header_name h) = ''content-type'') headers then []
             else ''Content-Type: application/json'');
          customHeaderLines = concat (map (\<lambda>h. CHR 0x0A # header_name h @ '': '' @ text_field h ''value'')
            (filter (\<lambda>h. header_name h \<noteq> []) headers))
      in contentTypeLine @ customHeaderLines)"

section \<open>What the patterns accept\<close>

lemma drop_at_sign: "dropWhile (\<lambda>c. c \<noteq> a) xs \<noteq> [] \<Longrightarrow> hd (dropWhile (\<lambda>c. c \<noteq> a) xs) = a"
  using hd_dropWhile [of "\<lambda>c. c \<noteq> a" xs] by simp

lemma takeWhile_without: "a \<notin> set ys \<Longrightarrow> takeWhile (\<lambda>c. c \<noteq> a) (ys @ a # xs) = ys"
  by (induction ys) auto

lemma dropWhile_without: "a \<notin> set ys \<Longrightarrow> dropWhile (\<lambda>c. c \<noteq> a) (ys @ a # xs) = a # xs"
  by (induction ys) auto

text \<open>The scan accepts exactly what the regular expression does: some part before an \<open>@\<close>, on one
  line, and a domain without \<open>@\<close> and white space.\<close>

lemma matches_email_iff:
  "matches_email s \<longleftrightarrow> (\<exists>user domain. s = user @ CHR ''@'' # domain \<and> user \<noteq> [] \<and> \<not> has_line_end user
     \<and> domain \<noteq> [] \<and> CHR ''@'' \<notin> set domain \<and> \<not> has_space domain)"
  (is "_ \<longleftrightarrow> (\<exists>user domain. ?split user domain)")
proof
  let ?not_at = "\<lambda>c. c \<noteq> CHR ''@''"
  let ?d = "rev (takeWhile ?not_at (rev s))" and ?b = "rev (dropWhile ?not_at (rev s))"
  assume m: "matches_email s"
  then have b: "?b \<noteq> []" and rest: "butlast ?b \<noteq> []" "\<not> has_line_end (butlast ?b)" "?d \<noteq> []" "\<not> has_space ?d"
    by (simp_all add: matches_email_def Let_def)
  have "last ?b = CHR ''@''" using drop_at_sign [of "CHR ''@''" "rev s"] b by (simp add: last_rev)
  then have bb: "?b = butlast ?b @ [CHR ''@'']" using b append_butlast_last_id by metis
  have "rev s = takeWhile ?not_at (rev s) @ dropWhile ?not_at (rev s)" by simp
  then have "s = ?b @ ?d" by (metis rev_append rev_rev_ident)
  then have "s = butlast ?b @ CHR ''@'' # ?d" using bb by (metis append_Cons append_Nil append_assoc)
  moreover have "CHR ''@'' \<notin> set ?d" by (auto dest: set_takeWhileD)
  ultimately show "\<exists>user domain. ?split user domain" using rest by blast
next
  assume "\<exists>user domain. ?split user domain"
  then obtain user domain where s: "?split user domain" by blast
  then have "rev s = rev domain @ CHR ''@'' # rev user" by simp
  with s show "matches_email s"
    by (simp add: matches_email_def Let_def takeWhile_without dropWhile_without)
qed

section \<open>Ports and security\<close>

text \<open>A security mode of one's own survives: whatever ports are typed, the mode follows the ports while
  it is the default one, and no encryption, which is no port's default, is never overwritten.\<close>

definition security_after_ports :: "email_security \<Rightarrow> number \<Rightarrow> number list \<Rightarrow> email_security" where
  "security_after_ports security port ports =
     fst (foldl (\<lambda>(s, p) q. (get_security_after_port_change s p q, q)) (security, port) ports)"

lemma default_security_follows_ports:
  "ports \<noteq> [] \<Longrightarrow> security_after_ports (get_default_email_notifier_security port) port ports =
     get_default_email_notifier_security (last ports)"
proof (induction ports arbitrary: port)
  case (Cons q ports)
  then show ?case
    by (cases "ports = []") (simp_all add: security_after_ports_def get_security_after_port_change_def)
qed simp

lemma no_encryption_is_kept: "security_after_ports NoEncryption port ports = NoEncryption"
  unfolding security_after_ports_def
  by (induction ports arbitrary: port)
    (auto simp: get_security_after_port_change_def get_default_email_notifier_security_def)

section \<open>Secrets and addresses\<close>

text \<open>The secrets the form's channel sends to its address are typed in: those of a webhook are the
  values of the headers the saved one has, whatever the case of their names.\<close>

definition notifier_secrets_given :: "fields \<Rightarrow> fields option \<Rightarrow> bool" where
  "notifier_secrets_given settings savedSettings =
     (if has_type settings notifier_type_email
      then given settings ''smtpUser'' \<longrightarrow> given settings ''smtpPassword''
      else if has_type settings notifier_type_telegram then given settings ''botToken''
      else if has_type settings notifier_type_mattermost
      then fld settings ''deliveryMode'' \<noteq> JStr mattermost_webhook_mode \<longrightarrow> given settings ''botToken''
      else if has_type settings notifier_type_webhook
      then list_all (\<lambda>h. given h ''value'' \<or> list_all (\<lambda>r. to_lower (header_name r) \<noteq> to_lower (header_name h))
             (case savedSettings of Some saved \<Rightarrow> headers_of saved | None \<Rightarrow> [])) (headers_of settings)
      else True)"

text \<open>Stored secrets of a notifier are never sent to another address: a form whose server, proxy or
  webhook address differs from the saved one counts as filled only when the password, the bot's token
  or the values of the saved headers are typed in again.\<close>

theorem changed_notifier_address_needs_secrets:
  assumes "is_notifier_address_changed settings savedSettings"
    and "is_notifier_settings_filled url settings isSaved savedSettings"
  shows "notifier_secrets_given settings savedSettings"
proof -
  consider (email) "has_type settings notifier_type_email"
    | (telegram) "has_type settings notifier_type_telegram"
    | (mattermost) "has_type settings notifier_type_mattermost"
    | (webhook) "has_type settings notifier_type_webhook"
    using assms(1) by (auto simp: is_notifier_address_changed_def split: option.splits if_splits)
  then show ?thesis
  proof cases
    case email
    then show ?thesis using assms
      by (simp add: is_notifier_settings_filled_def notifier_secrets_given_def validate_email_notifier_def)
  next
    case telegram
    then show ?thesis using assms
      by (simp add: is_notifier_settings_filled_def notifier_secrets_given_def
          validate_telegram_notifier_def has_type_only [OF telegram] notifier_types split: if_splits)
  next
    case mattermost
    then show ?thesis using assms
      by (auto simp: is_notifier_settings_filled_def notifier_secrets_given_def Let_def
          validate_mattermost_notifier_def has_type_only [OF mattermost] notifier_types split: if_splits)
  next
    case webhook
    with assms(1) obtain saved where saved: "savedSettings = Some saved"
        "has_type saved notifier_type_webhook"
      by (auto simp: is_notifier_address_changed_def has_type_only [OF webhook] notifier_types
          split: option.splits)
    with webhook show ?thesis using assms
      by (auto simp: is_notifier_settings_filled_def notifier_secrets_given_def
          validate_webhook_notifier_def is_webhook_header_value_missing_def list_all_iff list_ex_iff
          has_type_only [OF webhook] notifier_types)
  qed
qed

definition webhook_form :: "string \<Rightarrow> jsval list \<Rightarrow> fields" where
  "webhook_form address headers = [(''type'', JStr ''WEBHOOK''), (''webhookUrl'', JStr address),
     (''webhookMethod'', JStr ''POST''), (''headers'', JArr headers),
     (''acceptedCategories'', JArr default_accepted_categories)]"

lemma changed_notifier_address_needs_secrets_witness:
  "given [(''name'', JStr ''Token''), (''value'', JStr ''x'')] ''value''"
  using changed_notifier_address_needs_secrets
    [of "webhook_form ''http://new'' [JObj [(''name'', JStr ''Token''), (''value'', JStr ''x'')]]"
      "Some (webhook_form ''http://old'' [JObj [(''name'', JStr ''token'')]])" "\<lambda>_. None" True]
  by (simp add: is_notifier_address_changed_def is_notifier_settings_filled_def has_type_def
      notifier_types webhook_form_def fld_def given_def js_truthy_def)

section \<open>The merge of a saved answer\<close>

lemma merged_keys: "distinct (filter (\<lambda>k. k \<noteq> ''headers'') (acknowledged_fields submitted saved))"
  by (simp add: acknowledged_fields_def)

lemma fld_merged:
  "fld (foldl (acknowledge_field submitted saved) settings
      (filter (\<lambda>k. k \<noteq> ''headers'') (acknowledged_fields submitted saved))) k =
    (if k \<noteq> ''headers'' \<and> k \<in> fst ` set submitted \<union> fst ` set saved
        \<and> plain (fld settings k) = plain (fld submitted k)
     then fld saved k else fld settings k)"
  by (subst fld_acknowledge_fold [OF merged_keys]) (auto simp: acknowledged_fields_def)

text \<open>A field edited while the save was on its way keeps the edit, the others take the server's value.\<close>

lemma acknowledged_notifier_keeps_edits:
  assumes "fld settings ''type'' = fld submitted ''type''" "fld saved ''type'' = fld submitted ''type''"
    and "k \<noteq> ''headers''"
  shows "fld (acknowledge_notifier_settings settings submitted saved) k =
    (if plain (fld settings k) = plain (fld submitted k)
        \<and> k \<in> fst ` set submitted \<union> fst ` set saved
     then fld saved k else fld settings k)"
  using assms by (auto simp: acknowledge_notifier_settings_def fld_merged fld_set_field Let_def)

lemma has_type_merged:
  assumes "fld settings ''type'' = fld submitted ''type''" "fld saved ''type'' = fld submitted ''type''"
  shows "has_type (foldl (acknowledge_field submitted saved) settings
      (filter (\<lambda>k. k \<noteq> ''headers'') (acknowledged_fields submitted saved))) t \<longleftrightarrow> has_type saved t"
  using assms by (simp add: has_type_def fld_merged)

lemma acknowledged_headers:
  assumes "fld settings ''type'' = fld submitted ''type''" "fld saved ''type'' = fld submitted ''type''"
    and "has_type saved notifier_type_webhook"
  shows "fld (acknowledge_notifier_settings settings submitted saved) ''headers'' =
    JArr (map (\<lambda>h. JObj (acknowledge_header (headers_of submitted) (headers_of saved) h))
      (headers_of settings))"
  using assms
  by (simp add: acknowledge_notifier_settings_def has_type_merged Let_def fld_set_field)
    (simp add: headers_of_def fld_merged has_type_def)

lemma well_formed_acknowledge_fold:
  assumes "well_formed (JObj saved)"
  shows "well_formed (JObj ack) \<Longrightarrow> well_formed (JObj (foldl (acknowledge_field submitted saved) ack ks))"
  using well_formed_fld [OF assms]
  by (induction ks arbitrary: ack)
    (auto simp: acknowledge_field_def well_formed_set_field well_formed_delete_field
      simp del: well_formed.simps)

text \<open>The server lists the headers by name and hides their values; only a webhook has headers.\<close>

definition hides_headers :: "fields \<Rightarrow> fields \<Rightarrow> bool" where
  "hides_headers sent saved =
     (if has_type saved notifier_type_webhook
      then distinct (map header_name (headers_of sent))
        \<and> fld saved ''headers'' = JArr (map (\<lambda>h. JObj [(''name'', fld h ''name'')]) (headers_of sent))
      else fld saved ''headers'' = JUndefined \<and> fld sent ''headers'' = JUndefined)"

lemma find_header_distinct:
  "distinct (map header_name hs) \<Longrightarrow> h \<in> set hs \<Longrightarrow> find_header (header_name h) hs = Some h"
  unfolding find_header_def by (induction hs) (auto simp: image_iff)

lemma find_header_names_only:
  "header_value (find_header n (map (\<lambda>h. [(''name'', fld h ''name'')]) hs)) = JUndefined"
  unfolding find_header_def by (induction hs) (auto simp: header_value_def fld_def)

lemma acknowledged_headers_unedited:
  assumes "fld saved ''type'' = fld sent ''type''" "has_type saved notifier_type_webhook"
    and "hides_headers sent saved"
  shows "fld (acknowledge_notifier_settings sent sent saved) ''headers'' = fld saved ''headers''"
proof -
  have names: "headers_of saved = map (\<lambda>h. [(''name'', fld h ''name'')]) (headers_of sent)"
    using assms(2,3)
    by (simp add: hides_headers_def headers_of_def array_items_def object_fields_def comp_def)
  have "acknowledge_header (headers_of sent) (headers_of saved) h = [(''name'', fld h ''name'')]"
    if "h \<in> set (headers_of sent)" for h
    using that assms(2,3)
    by (simp add: acknowledge_header_def names find_header_names_only find_header_distinct
        hides_headers_def)
  then have "map (\<lambda>h. JObj (acknowledge_header (headers_of sent) (headers_of saved) h)) (headers_of sent)
      = map (\<lambda>h. JObj [(''name'', fld h ''name'')]) (headers_of sent)"
    by (intro map_cong) simp_all
  then show ?thesis
    using acknowledged_headers [OF refl assms(1,2)] assms(2,3) by (simp add: hides_headers_def)
qed

text \<open>Settings nobody edited meanwhile mean exactly the server's after the merge, although the server
  hides the values of a webhook's headers.\<close>

lemma unedited_settings_are_acknowledged:
  assumes "fld saved ''type'' = fld sent ''type''"
    and "well_formed (JObj saved)" "well_formed (JObj sent)"
    and "hides_headers sent saved"
  shows "signature (JObj (acknowledge_notifier_settings sent sent saved)) = signature (JObj saved)"
proof (rule same_fields_same_meaning)
  let ?ack = "acknowledge_notifier_settings sent sent saved"
  show fields: "fld ?ack k = fld saved k" for k
  proof (cases "k = ''headers''")
    case True
    show ?thesis
    proof (cases "has_type saved notifier_type_webhook")
      case True
      then show ?thesis using acknowledged_headers_unedited assms \<open>k = ''headers''\<close> by simp
    next
      case False
      then show ?thesis using assms(1,4) \<open>k = ''headers''\<close>
        by (simp add: acknowledge_notifier_settings_def has_type_merged fld_merged hides_headers_def Let_def)
    qed
  next
    case False
    then show ?thesis
      using acknowledged_notifier_keeps_edits [OF refl assms(1) False] fld_missing [of k sent]
        fld_missing [of k saved] by auto
  qed
  have "well_formed (fld saved ''headers'')" by (rule well_formed_fld [OF assms(2)])
  then have "well_formed (JObj (set_field ''headers'' (fld saved ''headers'') fs))"
    if "well_formed (JObj fs)" for fs
    using that by (intro well_formed_set_field)
  moreover have "has_type saved notifier_type_webhook \<Longrightarrow>
      ?ack = set_field ''headers'' (fld saved ''headers'') (foldl (acknowledge_field sent saved) sent
        (filter (\<lambda>k. k \<noteq> ''headers'') (acknowledged_fields sent saved)))"
    using fields [of "''headers''"] assms(1)
    by (simp add: acknowledge_notifier_settings_def has_type_merged Let_def fld_set_field) 
      (simp add: has_type_def fld_set_field)
  moreover have "\<not> has_type saved notifier_type_webhook \<Longrightarrow>
      ?ack = foldl (acknowledge_field sent saved) sent
        (filter (\<lambda>k. k \<noteq> ''headers'') (acknowledged_fields sent saved))"
    using assms(1) by (simp add: acknowledge_notifier_settings_def has_type_merged Let_def)
  ultimately show "well_formed (JObj ?ack)"
    using well_formed_acknowledge_fold [OF assms(2,3)]
    by (cases "has_type saved notifier_type_webhook") (simp_all del: well_formed.simps)
qed (rule assms(2))

end
