(* ===== verification/Notifier_Draft.thy ===== *)
theory Notifier_Draft
  imports Notifiers Resources
begin

text \<open>
  The form of a notifier (\<open>features/edit-notifier/model/useNotifierDraft.ts\<close>): editing, sending a test
  message and saving. As in the storage form, a ref that mirrors a state variable is one field with it,
  \<open>testSettings\<close> and \<open>save\<close> are cut at their await, \<open>cur\<close> tells whether the session of the request is
  still the current one, a \<open>Symbol()\<close> is a number not used before, and callbacks are logs. Unlike the
  storage form it counts every edit in a revision of the draft, and a saved answer replaces the draft
  as a whole when nothing was edited meanwhile.
\<close>

section \<open>State\<close>

record saved_notifier =
  no_id :: string
  no_name :: string
  no_settings :: fields

record notifier_options =
  no_workspaceId :: string
  no_editingNotifier :: "saved_notifier option"

datatype 'e notifier_error = ApiNotifierError 'e | DeliveryError string bool

record 'e notifier_form =
  nf_draft :: notifier_draft
  nf_baseline :: notifier_draft
  nf_savedId :: "string option"
  nf_isTesting :: bool
  nf_isSaving :: bool
  nf_testedRevision :: "nat option"
  nf_error :: "'e notifier_error option"
  nf_sessionRevision :: request_revision
  nf_settingsRevision :: request_revision
  nf_draftRevision :: request_revision
  nf_testRevision :: request_revision
  nf_workspaceId :: string
  nf_inputId :: "string option"
  nf_activeSave :: "nat option"
  nf_activeTest :: "nat option"
  nf_nextSymbol :: nat
  nf_persisted :: "saved_notifier list"
  nf_changed :: "saved_notifier list"
  nf_testSucceeded :: nat

record notifier_test_token =
  nt_session :: nat
  nt_settings :: nat
  nt_test :: nat
  nt_request :: nat
  nt_sent :: fields
  nt_id :: "string option"

record notifier_save_token =
  ns_session :: nat
  ns_draft :: nat
  ns_request :: nat
  ns_submitted :: notifier_draft
  ns_id :: "string option"

record notifier_test_result =
  ntr_isDelivered :: bool
  ntr_error :: "string option"

definition create_notifier_draft :: "saved_notifier option \<Rightarrow> notifier_draft" where
  "create_notifier_draft notifier =
     \<lparr>nd_name = (case notifier of Some x \<Rightarrow> no_name x | None \<Rightarrow> []),
      nd_settings = (case notifier of Some x \<Rightarrow> no_settings x
        | None \<Rightarrow> create_default_notifier_settings notifier_type_telegram)\<rparr>"

definition new_notifier_form :: "notifier_options \<Rightarrow> 'e notifier_form" where
  "new_notifier_form opts =
     (let draft = create_notifier_draft (no_editingNotifier opts);
          inputId = map_option no_id (no_editingNotifier opts)
      in \<lparr>nf_draft = draft, nf_baseline = draft, nf_savedId = inputId, nf_isTesting = False,
          nf_isSaving = False, nf_testedRevision = None, nf_error = None,
          nf_sessionRevision = new_revision, nf_settingsRevision = new_revision,
          nf_draftRevision = new_revision, nf_testRevision = new_revision,
          nf_workspaceId = no_workspaceId opts, nf_inputId = inputId, nf_activeSave = None,
          nf_activeTest = None, nf_nextSymbol = 0, nf_persisted = [], nf_changed = [],
          nf_testSucceeded = 0\<rparr>)"

section \<open>Editing\<close>

definition next_revision :: "request_revision \<Rightarrow> request_revision" where
  "next_revision r = snd (invalidate r)"

definition change_notifier_name :: "string \<Rightarrow> 'e notifier_form \<Rightarrow> 'e notifier_form" where
  "change_notifier_name name s = s\<lparr>nf_draftRevision := next_revision (nf_draftRevision s),
     nf_draft := (nf_draft s)\<lparr>nd_name := name\<rparr>\<rparr>"

definition channel_change_refused :: "fields \<Rightarrow> 'e notifier_form \<Rightarrow> bool" where
  "channel_change_refused settings s \<longleftrightarrow>
     (truthy (nf_savedId s) \<or> nf_activeSave s \<noteq> None)
     \<and> fld settings ''type'' \<noteq> fld (nd_settings (nf_draft s)) ''type''"

definition change_notifier_settings :: "fields \<Rightarrow> 'e notifier_form \<Rightarrow> 'e notifier_form" where
  "change_notifier_settings settings s =
     (if channel_change_refused settings s then s
      else s\<lparr>nf_draftRevision := next_revision (nf_draftRevision s),
             nf_settingsRevision := next_revision (nf_settingsRevision s),
             nf_testRevision := next_revision (nf_testRevision s), nf_activeTest := None,
             nf_isTesting := False, nf_testedRevision := None, nf_error := None,
             nf_draft := (nf_draft s)\<lparr>nd_settings := settings\<rparr>\<rparr>)"

section \<open>Sending a test message\<close>

text \<open>The settings the server knows, as the completeness check gets them.\<close>

definition known_settings :: "'e notifier_form \<Rightarrow> fields option" where
  "known_settings s = (if truthy (nf_savedId s) then Some (nd_settings (nf_baseline s)) else None)"

definition start_notifier_test ::
    "(string \<Rightarrow> notifier_url option) \<Rightarrow> 'e notifier_form
     \<Rightarrow> notifier_test_token option \<times> 'e notifier_form" where
  "start_notifier_test url s =
     (if nf_activeTest s \<noteq> None \<or> nf_activeSave s \<noteq> None \<or> trim (nd_name (nf_draft s)) = []
         \<or> \<not> is_notifier_settings_filled url (nd_settings (nf_draft s)) (truthy (nf_savedId s))
               (known_settings s)
      then (None, s)
      else let (testRevision, r) = invalidate (nf_testRevision s);
               request = nf_nextSymbol s
           in (Some \<lparr>nt_session = get_current (nf_sessionRevision s),
                     nt_settings = get_current (nf_settingsRevision s), nt_test = testRevision,
                     nt_request = request, nt_sent = nd_settings (nf_draft s),
                     nt_id = nf_savedId s\<rparr>,
               s\<lparr>nf_testRevision := r, nf_nextSymbol := request + 1, nf_activeTest := Some request,
                 nf_isTesting := True, nf_error := None\<rparr>))"

definition notifier_test_is_active :: "bool \<Rightarrow> notifier_test_token \<Rightarrow> 'e notifier_form \<Rightarrow> bool" where
  "notifier_test_is_active cur tok s \<longleftrightarrow> cur
     \<and> is_current_revision (nf_sessionRevision s) (nt_session tok)
     \<and> is_current_revision (nf_settingsRevision s) (nt_settings tok)
     \<and> is_current_revision (nf_testRevision s) (nt_test tok)"

definition end_notifier_test :: "nat \<Rightarrow> 'e notifier_form \<Rightarrow> 'e notifier_form" where
  "end_notifier_test request s =
     (if nf_activeTest s = Some request then s\<lparr>nf_activeTest := None, nf_isTesting := False\<rparr> else s)"

definition settle_notifier_test ::
    "bool \<Rightarrow> notifier_test_token \<Rightarrow> 'e + notifier_test_result \<Rightarrow> 'e notifier_form \<Rightarrow> 'e notifier_form" where
  "settle_notifier_test cur tok answer s =
     (let s1 = (if \<not> notifier_test_is_active cur tok s then s
                else case answer of
                  Inr response \<Rightarrow>
                    if ntr_isDelivered response
                    then s\<lparr>nf_testedRevision := Some (nt_settings tok),
                           nf_testSucceeded := nf_testSucceeded s + 1\<rparr>
                    else s\<lparr>nf_error := Some (DeliveryError (nullish (ntr_error response) [])
                           (has_type (nd_settings (nf_draft s)) notifier_type_slack))\<rparr>
                | Inl failure \<Rightarrow> s\<lparr>nf_error := Some (ApiNotifierError failure)\<rparr>)
      in end_notifier_test (nt_request tok) s1)"

section \<open>Saving\<close>

definition start_notifier_save ::
    "(string \<Rightarrow> notifier_url option) \<Rightarrow> 'e notifier_form
     \<Rightarrow> notifier_save_token option \<times> 'e notifier_form" where
  "start_notifier_save url s =
     (if nf_activeSave s \<noteq> None
         \<or> nf_testedRevision s \<noteq> Some (get_current (nf_settingsRevision s)) then (None, s)
      else let submittedDraft = nf_draft s
           in if trim (nd_name submittedDraft) = []
                \<or> \<not> is_notifier_settings_filled url (nd_settings submittedDraft) (truthy (nf_savedId s))
                      (known_settings s)
              then (None, s)
              else let request = nf_nextSymbol s
                   in (Some \<lparr>ns_session = get_current (nf_sessionRevision s),
                             ns_draft = get_current (nf_draftRevision s), ns_request = request,
                             ns_submitted = submittedDraft, ns_id = nf_savedId s\<rparr>,
                       s\<lparr>nf_nextSymbol := request + 1, nf_activeSave := Some request,
                         nf_isSaving := True, nf_error := None\<rparr>))"

definition end_notifier_save :: "nat \<Rightarrow> 'e notifier_form \<Rightarrow> 'e notifier_form" where
  "end_notifier_save request s =
     (if nf_activeSave s = Some request then s\<lparr>nf_activeSave := None, nf_isSaving := False\<rparr> else s)"

definition acknowledged_notifier :: "saved_notifier \<Rightarrow> notifier_draft" where
  "acknowledged_notifier saved = \<lparr>nd_name = no_name saved, nd_settings = no_settings saved\<rparr>"

definition merged_notifier ::
    "notifier_save_token \<Rightarrow> saved_notifier \<Rightarrow> 'e notifier_form \<Rightarrow> notifier_draft" where
  "merged_notifier tok saved s =
     (if is_current_revision (nf_draftRevision s) (ns_draft tok) then acknowledged_notifier saved
      else \<lparr>nd_name = (if nd_name (nf_draft s) = nd_name (ns_submitted tok) then no_name saved
              else nd_name (nf_draft s)),
            nd_settings = acknowledge_notifier_settings (nd_settings (nf_draft s))
              (nd_settings (ns_submitted tok)) (no_settings saved)\<rparr>)"

definition accept_saved_notifier ::
    "notifier_save_token \<Rightarrow> saved_notifier \<Rightarrow> 'e notifier_form \<Rightarrow> 'e notifier_form" where
  "accept_saved_notifier tok saved s =
     (let acknowledged = acknowledged_notifier saved;
          current = merged_notifier tok saved s;
          s1 = s\<lparr>nf_savedId := Some (no_id saved), nf_baseline := acknowledged, nf_draft := current,
                 nf_persisted := nf_persisted s @ [saved]\<rparr>
      in if is_notifier_draft_unchanged current acknowledged
         then s1\<lparr>nf_changed := nf_changed s1 @ [saved]\<rparr> else s1)"

definition settle_notifier_save ::
    "bool \<Rightarrow> notifier_save_token \<Rightarrow> 'e + saved_notifier \<Rightarrow> 'e notifier_form \<Rightarrow> 'e notifier_form" where
  "settle_notifier_save cur tok answer s =
     (let s1 = (if \<not> (cur \<and> is_current_revision (nf_sessionRevision s) (ns_session tok)) then s
                else case answer of
                  Inr saved \<Rightarrow> accept_saved_notifier tok saved s
                | Inl failure \<Rightarrow> s\<lparr>nf_error := Some (ApiNotifierError failure)\<rparr>)
      in end_notifier_save (ns_request tok) s1)"

section \<open>Effects\<close>

definition has_new_notifier_context :: "notifier_options \<Rightarrow> 'e notifier_form \<Rightarrow> bool" where
  "has_new_notifier_context opts s \<longleftrightarrow>
     (let inputId = map_option no_id (no_editingNotifier opts)
      in nf_workspaceId s \<noteq> no_workspaceId opts \<or> (nf_inputId s \<noteq> inputId \<and> nf_savedId s \<noteq> inputId))"

definition reset_notifier_form :: "notifier_options \<Rightarrow> 'e notifier_form \<Rightarrow> 'e notifier_form" where
  "reset_notifier_form opts s =
     (let initialDraft = create_notifier_draft (no_editingNotifier opts)
      in s\<lparr>nf_sessionRevision := next_revision (nf_sessionRevision s),
           nf_settingsRevision := next_revision (nf_settingsRevision s),
           nf_testRevision := next_revision (nf_testRevision s),
           nf_draftRevision := next_revision (nf_draftRevision s), nf_activeSave := None,
           nf_activeTest := None, nf_draft := initialDraft, nf_baseline := initialDraft,
           nf_savedId := map_option no_id (no_editingNotifier opts), nf_testedRevision := None,
           nf_error := None, nf_isSaving := False, nf_isTesting := False\<rparr>)"

definition sync_notifier_options :: "notifier_options \<Rightarrow> 'e notifier_form \<Rightarrow> 'e notifier_form" where
  "sync_notifier_options opts s =
     (let hasNewContext = has_new_notifier_context opts s;
          s1 = s\<lparr>nf_workspaceId := no_workspaceId opts,
                 nf_inputId := map_option no_id (no_editingNotifier opts)\<rparr>;
          isClean = is_notifier_draft_unchanged (nf_draft s1) (nf_baseline s1)
      in if \<not> hasNewContext
            \<and> (no_editingNotifier opts = None \<or> \<not> isClean \<or> nf_activeSave s1 \<noteq> None)
         then s1 else reset_notifier_form opts s1)"

definition invalidate_notifier_session :: "'e notifier_form \<Rightarrow> 'e notifier_form" where
  "invalidate_notifier_session s = s\<lparr>nf_sessionRevision := next_revision (nf_sessionRevision s),
     nf_testRevision := next_revision (nf_testRevision s), nf_activeSave := None,
     nf_activeTest := None, nf_isSaving := False, nf_isTesting := False, nf_testedRevision := None,
     nf_error := None\<rparr>"

definition unmount_notifier_form :: "'e notifier_form \<Rightarrow> 'e notifier_form" where
  "unmount_notifier_form s = s\<lparr>nf_sessionRevision := next_revision (nf_sessionRevision s),
     nf_activeSave := None, nf_activeTest := None\<rparr>"

section \<open>What the screen reads\<close>

definition is_notifier_unsaved :: "'e notifier_form \<Rightarrow> bool" where
  "is_notifier_unsaved s = (\<not> is_notifier_draft_unchanged (nf_draft s) (nf_baseline s))"

definition is_notifier_tested :: "'e notifier_form \<Rightarrow> bool" where
  "is_notifier_tested s = (nf_testedRevision s = Some (get_current (nf_settingsRevision s)))"

definition saved_settings :: "'e notifier_form \<Rightarrow> fields option" where
  "saved_settings s = (if nf_savedId s \<noteq> None then Some (nd_settings (nf_baseline s)) else None)"

section \<open>Runs\<close>

datatype 'e notifier_event =
    NvName string
  | NvSettings fields
  | NvStartTest
  | NvTestAnswer bool notifier_test_token "'e + notifier_test_result"
  | NvStartSave
  | NvSaveAnswer bool notifier_save_token "'e + saved_notifier"
  | NvOptions notifier_options
  | NvSessionChange
  | NvUnmount

fun notifier_step ::
    "(string \<Rightarrow> notifier_url option) \<Rightarrow> 'e notifier_form \<Rightarrow> 'e notifier_event \<Rightarrow> 'e notifier_form" where
  "notifier_step url s (NvName n) = change_notifier_name n s"
| "notifier_step url s (NvSettings g) = change_notifier_settings g s"
| "notifier_step url s NvStartTest = snd (start_notifier_test url s)"
| "notifier_step url s (NvTestAnswer cur tok a) = settle_notifier_test cur tok a s"
| "notifier_step url s NvStartSave = snd (start_notifier_save url s)"
| "notifier_step url s (NvSaveAnswer cur tok a) = settle_notifier_save cur tok a s"
| "notifier_step url s (NvOptions opts) = sync_notifier_options opts s"
| "notifier_step url s NvSessionChange = invalidate_notifier_session s"
| "notifier_step url s NvUnmount = unmount_notifier_form s"

lemmas notifier_defs = change_notifier_name_def change_notifier_settings_def start_notifier_test_def
  end_notifier_test_def start_notifier_save_def end_notifier_save_def accept_saved_notifier_def
  settle_notifier_save_def reset_notifier_form_def sync_notifier_options_def next_revision_def
  invalidate_notifier_session_def unmount_notifier_form_def Let_def case_prod_unfold

abbreviation settings_revision :: "'e notifier_form \<Rightarrow> nat" where
  "settings_revision s \<equiv> rr_revision (nf_settingsRevision s)"

fun no_new_message :: "nat \<Rightarrow> 'e notifier_event \<Rightarrow> bool" where
  "no_new_message n NvStartTest = False"
| "no_new_message n (NvTestAnswer cur tok a) = (nt_settings tok \<le> n)"
| "no_new_message n _ = True"

lemma settle_notifier_test_keeps:
  "settings_revision (settle_notifier_test cur tok a s) = settings_revision s"
  by (auto simp: settle_notifier_test_def end_notifier_test_def Let_def split: sum.split)

lemma notifier_revision_grows: "settings_revision s \<le> settings_revision (notifier_step url s e)"
proof (cases e)
  case (NvTestAnswer cur tok a)
  then show ?thesis by (simp add: settle_notifier_test_keeps)
next
  case (NvSaveAnswer cur tok a)
  then show ?thesis by (cases a) (auto simp: notifier_defs)
qed (auto simp: notifier_defs)

lemma settle_notifier_test_untested:
  "nt_settings tok \<le> n \<Longrightarrow> n < settings_revision s \<Longrightarrow> nf_testedRevision s \<noteq> Some (settings_revision s) \<Longrightarrow>
    nf_testedRevision (settle_notifier_test cur tok a s) \<noteq> Some (settings_revision s)"
  by (auto simp: settle_notifier_test_def notifier_test_is_active_def end_notifier_test_def
      is_current_revision_def Let_def)

lemma untested_notifier_step:
  "no_new_message n e \<Longrightarrow> n < settings_revision s \<Longrightarrow>
    nf_testedRevision s \<noteq> Some (settings_revision s) \<Longrightarrow>
    nf_testedRevision (notifier_step url s e) \<noteq> Some (settings_revision (notifier_step url s e))"
proof (cases e)
  case (NvTestAnswer cur tok a)
  then show "no_new_message n e \<Longrightarrow> n < settings_revision s \<Longrightarrow>
      nf_testedRevision s \<noteq> Some (settings_revision s) \<Longrightarrow> ?thesis"
    by (simp add: settle_notifier_test_untested settle_notifier_test_keeps)
next
  case (NvSaveAnswer cur tok a)
  then show "nf_testedRevision s \<noteq> Some (settings_revision s) \<Longrightarrow> ?thesis"
    by (cases a) (auto simp: notifier_defs)
qed (auto simp: notifier_defs)

interpretation notifier_forms: tested_form "notifier_step url" settings_revision nf_testedRevision
    no_new_message "\<lambda>s. fst (start_notifier_save url s)" for url
  by unfold_locales (simp_all add: notifier_revision_grows untested_notifier_step
      start_notifier_save_def get_current_def)

lemma edited_notifier_needs_a_new_message:
  "\<not> channel_change_refused settings s \<Longrightarrow>
    list_all (no_new_message (get_current (nf_settingsRevision s))) es \<Longrightarrow>
    fst (start_notifier_save url (foldl (notifier_step url) (change_notifier_settings settings s) es)) = None"
  by (rule notifier_forms.untested_run [of "get_current (nf_settingsRevision s)"])
    (simp_all add: notifier_defs get_current_def)

section \<open>A save while the name is edited\<close>

lemma notifier_draft_unchanged_iff:
  "is_notifier_draft_unchanged draft baseline \<longleftrightarrow> nd_name draft = nd_name baseline
     \<and> signature (JObj (nd_settings draft)) = signature (JObj (nd_settings baseline))"
  by (simp add: is_notifier_draft_unchanged_def notifier_draft_value_def sort_key_def)

text \<open>Of a notifier saved while only its name was edited on, the name is all that stays unsaved:
  after the server's answer the settings mean the server's, header values hidden by it included, and
  the form has unsaved changes exactly when a name typed since is not the saved one.\<close>

theorem only_a_new_name_stays_unsaved:
  assumes "nd_settings (nf_draft s) = nd_settings (ns_submitted tok)"
    and "is_current_revision (nf_sessionRevision s) (ns_session tok)"
    and "fld (no_settings saved) ''type'' = fld (nd_settings (ns_submitted tok)) ''type''"
    and "well_formed (JObj (no_settings saved))" "well_formed (JObj (nd_settings (ns_submitted tok)))"
    and "hides_headers (nd_settings (ns_submitted tok)) (no_settings saved)"
  shows "is_notifier_unsaved (settle_notifier_save True tok (Inr saved) s) =
    (\<not> is_current_revision (nf_draftRevision s) (ns_draft tok)
     \<and> nd_name (nf_draft s) \<noteq> nd_name (ns_submitted tok) \<and> nd_name (nf_draft s) \<noteq> no_name saved)"
  using assms unedited_settings_are_acknowledged [OF assms(3-6)]
  by (auto simp: is_notifier_unsaved_def notifier_draft_unchanged_iff settle_notifier_save_def
      accept_saved_notifier_def end_notifier_save_def merged_notifier_def acknowledged_notifier_def
      Let_def simp del: signature.simps)

definition sent_discord :: fields where
  "sent_discord = [(''type'', JStr ''DISCORD''), (''channelWebhookUrl'', JStr ''u'')]"

definition renamed_form :: "nat notifier_form" where
  "renamed_form = change_notifier_name ''new'' (new_notifier_form \<lparr>no_workspaceId = ''w'',
     no_editingNotifier = Some \<lparr>no_id = ''n'', no_name = ''old'', no_settings = sent_discord\<rparr>\<rparr>)"

lemma only_a_new_name_stays_unsaved_witness:
  "is_notifier_unsaved (settle_notifier_save True
     \<lparr>ns_session = 0, ns_draft = 0, ns_request = 0,
      ns_submitted = \<lparr>nd_name = ''old'', nd_settings = sent_discord\<rparr>, ns_id = Some ''n''\<rparr>
     (Inr \<lparr>no_id = ''n'', no_name = ''old'', no_settings = [(''type'', JStr ''DISCORD'')]\<rparr>) renamed_form)"
  by (subst only_a_new_name_stays_unsaved)
    (simp_all add: renamed_form_def sent_discord_def new_notifier_form_def create_notifier_draft_def
      change_notifier_name_def next_revision_def new_revision_def invalidate_def is_current_revision_def
      hides_headers_def has_type_def fld_def notifier_types Let_def)

end
