(* ===== verification/Notifier_Runs.thy ===== *)
theory Notifier_Runs
  imports Notifier_Draft
begin

text \<open>
  The notifier form with the requests on their way: every answer belongs to a request the form sent,
  each request is answered at most once, at any later moment, and the session may change at any
  moment. \<open>vetted\<close> collects the settings that are known to work: those a test message was delivered
  for, and those the server answered a save with.
\<close>

section \<open>Steps\<close>

record 'e notifier_run =
  nr_form :: "'e notifier_form"
  nr_tests :: "notifier_test_token list"
  nr_saves :: "notifier_save_token list"
  nr_vetted :: "fields list"

definition same_settings :: "fields \<Rightarrow> fields \<Rightarrow> bool" where
  "same_settings x y \<longleftrightarrow> signature (JObj x) = signature (JObj y)"

definition vetted :: "fields \<Rightarrow> fields list \<Rightarrow> bool" where
  "vetted x xs \<longleftrightarrow> list_ex (same_settings x) xs"

text \<open>The contract of an answer to a save: the saved settings are of the channel that was sent, name
  its headers and hide their values.\<close>

definition answers_save :: "notifier_save_token \<Rightarrow> saved_notifier \<Rightarrow> bool" where
  "answers_save tok saved \<longleftrightarrow>
     fld (no_settings saved) ''type'' = fld (nd_settings (ns_submitted tok)) ''type''
     \<and> well_formed (JObj (no_settings saved)) \<and> well_formed (JObj (nd_settings (ns_submitted tok)))
     \<and> hides_headers (nd_settings (ns_submitted tok)) (no_settings saved)"

inductive notifier_run_step ::
    "(string \<Rightarrow> notifier_url option) \<Rightarrow> 'e notifier_run \<Rightarrow> 'e notifier_run \<Rightarrow> bool" for url where
  edit_name: "notifier_run_step url r (r\<lparr>nr_form := change_notifier_name name (nr_form r)\<rparr>)"
| edit_settings: "notifier_run_step url r (r\<lparr>nr_form := change_notifier_settings settings (nr_form r)\<rparr>)"
| send_test: "start_notifier_test url (nr_form r) = (Some tok, s) \<Longrightarrow>
    notifier_run_step url r (r\<lparr>nr_form := s, nr_tests := tok # nr_tests r\<rparr>)"
| test_answered: "tok \<in> set (nr_tests r) \<Longrightarrow>
    notifier_run_step url r (r\<lparr>nr_form := settle_notifier_test cur tok (Inr response) (nr_form r),
      nr_tests := removeAll tok (nr_tests r),
      nr_vetted := (if ntr_isDelivered response then nt_sent tok # nr_vetted r else nr_vetted r)\<rparr>)"
| test_failed: "tok \<in> set (nr_tests r) \<Longrightarrow>
    notifier_run_step url r (r\<lparr>nr_form := settle_notifier_test cur tok (Inl failure) (nr_form r),
      nr_tests := removeAll tok (nr_tests r)\<rparr>)"
| send_save: "start_notifier_save url (nr_form r) = (Some save, s) \<Longrightarrow>
    notifier_run_step url r (r\<lparr>nr_form := s, nr_saves := save # nr_saves r\<rparr>)"
| save_answered: "save \<in> set (nr_saves r) \<Longrightarrow> answers_save save saved \<Longrightarrow>
    notifier_run_step url r (r\<lparr>nr_form := settle_notifier_save cur save (Inr saved) (nr_form r),
      nr_saves := removeAll save (nr_saves r), nr_vetted := no_settings saved # nr_vetted r\<rparr>)"
| save_failed: "save \<in> set (nr_saves r) \<Longrightarrow>
    notifier_run_step url r (r\<lparr>nr_form := settle_notifier_save cur save (Inl failure) (nr_form r),
      nr_saves := removeAll save (nr_saves r)\<rparr>)"
| new_options: "notifier_run_step url r (r\<lparr>nr_form := sync_notifier_options opts (nr_form r)\<rparr>)"
| session_changed: "notifier_run_step url r (r\<lparr>nr_form := invalidate_notifier_session (nr_form r)\<rparr>)"
| left: "notifier_run_step url r (r\<lparr>nr_form := unmount_notifier_form (nr_form r)\<rparr>)"

inductive notifier_reachable :: "(string \<Rightarrow> notifier_url option) \<Rightarrow> 'e notifier_run \<Rightarrow> bool" for url where
  opened: "notifier_reachable url
    \<lparr>nr_form = new_notifier_form opts, nr_tests = [], nr_saves = [], nr_vetted = []\<rparr>"
| moved: "notifier_reachable url r \<Longrightarrow> notifier_run_step url r r' \<Longrightarrow> notifier_reachable url r'"

section \<open>The invariant\<close>

text \<open>A test whose settings are still the form's, and a save whose session has not changed.\<close>

definition live_test :: "'e notifier_form \<Rightarrow> notifier_test_token \<Rightarrow> bool" where
  "live_test s tok \<longleftrightarrow> is_current_revision (nf_settingsRevision s) (nt_settings tok)"

definition live_save :: "'e notifier_form \<Rightarrow> notifier_save_token \<Rightarrow> bool" where
  "live_save s tok \<longleftrightarrow> is_current_revision (nf_sessionRevision s) (ns_session tok)"

abbreviation form_settings :: "'e notifier_form \<Rightarrow> fields" where
  "form_settings s \<equiv> nd_settings (nf_draft s)"

text \<open>Every live test was sent with the settings of the form, or those were vetted since; so were the
  settings of a tested form. A live save was sent with the form's settings, or they were edited since:
  then the form is not tested and no test of it is on its way.\<close>

definition unedited_or_untested :: "'e notifier_form \<Rightarrow> notifier_test_token list \<Rightarrow> notifier_save_token \<Rightarrow> bool" where
  "unedited_or_untested s tests save \<longleftrightarrow>
     form_settings s = nd_settings (ns_submitted save)
     \<or> (nf_testedRevision s \<noteq> Some (settings_revision s) \<and> list_all (\<lambda>t. \<not> live_test s t) tests)"

definition tested_ok :: "'e notifier_form \<Rightarrow> fields list \<Rightarrow> bool" where
  "tested_ok s vet \<longleftrightarrow>
     (nf_testedRevision s = Some (settings_revision s) \<longrightarrow> vetted (form_settings s) vet)"

definition tests_ok :: "'e notifier_form \<Rightarrow> notifier_test_token list \<Rightarrow> fields list \<Rightarrow> bool" where
  "tests_ok s tests vet \<longleftrightarrow> (\<forall>t\<in>set tests. nt_settings t \<le> settings_revision s
     \<and> (live_test s t \<longrightarrow> vetted (form_settings s) (nt_sent t # vet)))"

definition saves_ok :: "'e notifier_form \<Rightarrow> notifier_test_token list \<Rightarrow> notifier_save_token list \<Rightarrow> bool" where
  "saves_ok s tests saves \<longleftrightarrow> inj_on ns_request (set saves) \<and> (\<forall>v\<in>set saves.
     ns_session v \<le> rr_revision (nf_sessionRevision s) \<and> ns_request v < nf_nextSymbol s
     \<and> (live_save s v \<longrightarrow> nf_activeSave s = Some (ns_request v) \<and> unedited_or_untested s tests v))"

definition run_inv :: "'e notifier_run \<Rightarrow> bool" where
  "run_inv r \<longleftrightarrow> tested_ok (nr_form r) (nr_vetted r)
     \<and> tests_ok (nr_form r) (nr_tests r) (nr_vetted r)
     \<and> saves_ok (nr_form r) (nr_tests r) (nr_saves r)"

lemmas run_inv_defs = tested_ok_def tests_ok_def saves_ok_def live_test_def live_save_def
  is_current_revision_def unedited_or_untested_def

lemma vetted_Cons: "vetted x xs \<Longrightarrow> vetted x (y # xs)"
  by (simp add: vetted_def)

lemma vetted_self [simp]: "vetted x (x # xs)"
  by (simp add: vetted_def same_settings_def)

text \<open>Steps that leave the settings and the running save alone.\<close>

lemma tested_frame:
  "form_settings s' = form_settings s \<Longrightarrow> settings_revision s' = settings_revision s \<Longrightarrow>
    nf_testedRevision s' = nf_testedRevision s \<or> nf_testedRevision s' = None \<Longrightarrow>
    tested_ok s vet \<Longrightarrow> tested_ok s' vet"
  by (auto simp: tested_ok_def)

lemma tests_frame:
  "form_settings s' = form_settings s \<Longrightarrow> settings_revision s' = settings_revision s \<Longrightarrow>
    tests_ok s tests vet \<Longrightarrow> tests_ok s' tests vet"
  by (auto simp: run_inv_defs)

lemma saves_frame:
  assumes "form_settings s' = form_settings s" "settings_revision s' = settings_revision s"
    "nf_testedRevision s' = nf_testedRevision s" "nf_sessionRevision s' = nf_sessionRevision s"
    "nf_activeSave s' = nf_activeSave s" "nf_nextSymbol s \<le> nf_nextSymbol s'"
  shows "saves_ok s tests saves \<Longrightarrow> saves_ok s' tests saves"
  using assms by (auto simp: run_inv_defs)

lemmas run_frame = tested_frame tests_frame saves_frame

lemma fewer_requests:
  "tests_ok s tests vet \<Longrightarrow> tests_ok s (removeAll tok tests) vet"
  "tests_ok s tests vet \<Longrightarrow> tests_ok s tests (x # vet)"
  "tested_ok s vet \<Longrightarrow> tested_ok s (x # vet)"
  "saves_ok s tests saves \<Longrightarrow> saves_ok s (removeAll tok tests) saves"
  by (auto simp: run_inv_defs list_all_iff vetted_def)

text \<open>An edit of the settings: every test becomes old, and the form untested.\<close>

lemma tests_edited:
  "settings_revision s < settings_revision s' \<Longrightarrow> tests_ok s tests vet \<Longrightarrow> tests_ok s' tests vet'"
  by (fastforce simp: run_inv_defs)

lemma saves_edited:
  assumes "settings_revision s < settings_revision s'" "nf_testedRevision s' = None"
    "nf_sessionRevision s' = nf_sessionRevision s" "nf_activeSave s' = nf_activeSave s"
    "nf_nextSymbol s \<le> nf_nextSymbol s'"
  shows "tests_ok s tests vet \<Longrightarrow> saves_ok s tests saves \<Longrightarrow> saves_ok s' tests saves"
  using assms by (fastforce simp: run_inv_defs list_all_iff)

text \<open>A new session or another notifier: every save becomes old.\<close>

lemma saves_ended:
  "rr_revision (nf_sessionRevision s) < rr_revision (nf_sessionRevision s') \<Longrightarrow>
    nf_nextSymbol s \<le> nf_nextSymbol s' \<Longrightarrow> saves_ok s tests saves \<Longrightarrow> saves_ok s' tests' saves"
  by (fastforce simp: run_inv_defs)

text \<open>No save is live while none is active, and at most one is live.\<close>

lemma no_live_save: "saves_ok s tests saves \<Longrightarrow> nf_activeSave s = None \<Longrightarrow> v \<in> set saves \<Longrightarrow> \<not> live_save s v"
  by (auto simp: saves_ok_def)

lemma one_live_save:
  "saves_ok s tests saves \<Longrightarrow> v \<in> set saves \<Longrightarrow> live_save s v \<Longrightarrow> w \<in> set saves \<Longrightarrow> live_save s w \<Longrightarrow> w = v"
  unfolding saves_ok_def inj_on_def by (metis option.inject)

lemma saves_ok_none_live:
  assumes "inj_on ns_request (set saves)"
    and "\<And>v. v \<in> set saves \<Longrightarrow> ns_session v \<le> rr_revision (nf_sessionRevision s)
      \<and> ns_request v < nf_nextSymbol s \<and> \<not> live_save s v"
  shows "saves_ok s tests saves"
  using assms by (simp add: saves_ok_def)

lemma saves_okI:
  assumes "inj_on ns_request (set saves)"
    and "\<And>v. v \<in> set saves \<Longrightarrow> ns_session v \<le> rr_revision (nf_sessionRevision s)
      \<and> ns_request v < nf_nextSymbol s"
    and "\<And>v. v \<in> set saves \<Longrightarrow> live_save s v \<Longrightarrow> nf_activeSave s = Some (ns_request v)
      \<and> unedited_or_untested s tests v"
  shows "saves_ok s tests saves"
  using assms by (simp add: saves_ok_def)

lemma saves_okD:
  assumes "saves_ok s tests saves"
  shows "inj_on ns_request (set saves)"
    and "v \<in> set saves \<Longrightarrow> ns_session v \<le> rr_revision (nf_sessionRevision s) \<and> ns_request v < nf_nextSymbol s"
  using assms by (simp_all add: saves_ok_def)

section \<open>The steps keep it\<close>

lemma end_notifier_test_fields [simp]:
  "nf_draft (end_notifier_test q s) = nf_draft s"
  "nf_settingsRevision (end_notifier_test q s) = nf_settingsRevision s"
  "nf_testedRevision (end_notifier_test q s) = nf_testedRevision s"
  "nf_sessionRevision (end_notifier_test q s) = nf_sessionRevision s"
  "nf_activeSave (end_notifier_test q s) = nf_activeSave s"
  "nf_nextSymbol (end_notifier_test q s) = nf_nextSymbol s"
  by (simp_all add: end_notifier_test_def)

lemma end_notifier_save_fields [simp]:
  "nf_draft (end_notifier_save q s) = nf_draft s"
  "nf_settingsRevision (end_notifier_save q s) = nf_settingsRevision s"
  "nf_testedRevision (end_notifier_save q s) = nf_testedRevision s"
  "nf_sessionRevision (end_notifier_save q s) = nf_sessionRevision s"
  "nf_nextSymbol (end_notifier_save q s) = nf_nextSymbol s"
  by (simp_all add: end_notifier_save_def)

lemma edited_settings_inv:
  assumes "tested_ok s vet" "tests_ok s tests vet" "saves_ok s tests saves"
  shows "tested_ok (change_notifier_settings g s) vet \<and> tests_ok (change_notifier_settings g s) tests vet
    \<and> saves_ok (change_notifier_settings g s) tests saves"
proof (cases "channel_change_refused g s")
  case True
  then show ?thesis using assms by (simp add: change_notifier_settings_def)
next
  case False
  let ?s' = "change_notifier_settings g s"
  have e: "settings_revision s < settings_revision ?s'" "nf_testedRevision ?s' = None"
    "nf_sessionRevision ?s' = nf_sessionRevision s" "nf_activeSave ?s' = nf_activeSave s"
    "nf_nextSymbol s \<le> nf_nextSymbol ?s'"
    using False by (simp_all add: notifier_defs)
  show ?thesis
    using tests_edited [OF e(1) assms(2)] saves_edited [OF e assms(2,3)] e(2) by (simp add: tested_ok_def)
qed

lemma sent_test_inv:
  assumes "start_notifier_test url s = (Some tok, s')"
    and "tested_ok s vet" "tests_ok s tests vet" "saves_ok s tests saves"
  shows "tested_ok s' vet \<and> tests_ok s' (tok # tests) vet \<and> saves_ok s' (tok # tests) saves"
proof -
  have s': "form_settings s' = form_settings s" "settings_revision s' = settings_revision s"
    "nf_testedRevision s' = nf_testedRevision s" "nf_sessionRevision s' = nf_sessionRevision s"
    "nf_activeSave s' = nf_activeSave s" "nf_nextSymbol s \<le> nf_nextSymbol s'"
    and idle: "nf_activeSave s = None"
    and tok: "nt_settings tok = settings_revision s" "nt_sent tok = form_settings s"
    using assms(1) by (auto simp: notifier_defs get_current_def split: if_splits)
  have "\<not> live_save s' v" if "v \<in> set saves" for v
    using no_live_save [OF assms(4) idle that] s'(4) by (simp add: live_save_def)
  then have "saves_ok s' (tok # tests) saves"
    using assms(4) s'(4,6) by (auto simp: saves_ok_def)
  moreover have "tests_ok s' (tok # tests) vet"
    using tests_frame [OF s'(1,2) assms(3)] s'(1,2) tok by (simp add: tests_ok_def)
  ultimately show ?thesis using tested_frame [OF s'(1,2) _ assms(2)] s'(3) by simp
qed

lemma answered_test_inv:
  assumes "tok \<in> set tests"
    and "tested_ok s vet" "tests_ok s tests vet" "saves_ok s tests saves"
    and "vet' = (case a of Inr response \<Rightarrow> if ntr_isDelivered response then nt_sent tok # vet else vet
        | Inl _ \<Rightarrow> vet)"
  shows "tested_ok (settle_notifier_test cur tok a s) vet'
    \<and> tests_ok (settle_notifier_test cur tok a s) (removeAll tok tests) vet'
    \<and> saves_ok (settle_notifier_test cur tok a s) (removeAll tok tests) saves"
proof -
  let ?s' = "settle_notifier_test cur tok a s"
  have same: "form_settings ?s' = form_settings s" "settings_revision ?s' = settings_revision s"
    "nf_sessionRevision ?s' = nf_sessionRevision s" "nf_activeSave ?s' = nf_activeSave s"
    "nf_nextSymbol s \<le> nf_nextSymbol ?s'"
    by (cases a; simp add: settle_notifier_test_def Let_def)+
  have tests: "tests_ok ?s' (removeAll tok tests) vet'"
    using tests_frame [OF same(1,2) assms(3)] assms(5)
    by (auto intro: fewer_requests split: sum.splits)
  have "nf_testedRevision ?s' = nf_testedRevision s
      \<or> (\<exists>response. a = Inr response \<and> ntr_isDelivered response \<and> live_test s tok)"
    by (cases a) (simp_all add: settle_notifier_test_def notifier_test_is_active_def live_test_def Let_def)
  then consider (kept) "nf_testedRevision ?s' = nf_testedRevision s"
    | (passed) response where "a = Inr response" "ntr_isDelivered response" "live_test s tok"
    by blast
  then show ?thesis
  proof cases
    case kept
    have "saves_ok ?s' tests saves" by (rule saves_frame [OF same(1,2) kept same(3-5) assms(4)])
    moreover have "tested_ok ?s' vet" using tested_frame [OF same(1,2) _ assms(2)] kept by simp
    ultimately show ?thesis
      using tests assms(5) by (auto intro: fewer_requests split: sum.splits)
  next
    case passed
    have "vetted (form_settings s) vet'" "\<And>v. v \<in> set saves \<Longrightarrow> live_save s v \<Longrightarrow>
        form_settings s = nd_settings (ns_submitted v)"
      using assms passed by (auto simp: tests_ok_def saves_ok_def unedited_or_untested_def list_all_iff)
    then have "tested_ok ?s' vet'" "saves_ok ?s' (removeAll tok tests) saves"
      using assms(4) same by (auto simp: tested_ok_def saves_ok_def unedited_or_untested_def live_save_def)
    then show ?thesis using tests by simp
  qed
qed

lemma sent_save_inv:
  assumes "start_notifier_save url s = (Some save, s')"
    and "tested_ok s vet" "tests_ok s tests vet" "saves_ok s tests saves"
  shows "tested_ok s' vet \<and> tests_ok s' tests vet \<and> saves_ok s' tests (save # saves)"
proof -
  have s': "form_settings s' = form_settings s" "settings_revision s' = settings_revision s"
    "nf_testedRevision s' = nf_testedRevision s" "nf_sessionRevision s' = nf_sessionRevision s"
    and request: "nf_activeSave s' = Some (ns_request save)" "ns_request save = nf_nextSymbol s"
      "nf_nextSymbol s' = nf_nextSymbol s + 1"
    and idle: "nf_activeSave s = None"
    and save: "ns_session save = rr_revision (nf_sessionRevision s)"
      "nd_settings (ns_submitted save) = form_settings s"
    using assms(1) by (auto simp: notifier_defs get_current_def split: if_splits)
  have old: "\<not> live_save s' v" if "v \<in> set saves" for v
    using no_live_save [OF assms(4) idle that] s'(4) by (simp add: live_save_def)
  have "saves_ok s' tests (save # saves)"
  proof (rule saves_okI)
    show "inj_on ns_request (set (save # saves))"
      using saves_okD [OF assms(4)] request(2) by (fastforce simp: inj_on_def)
    show "ns_session v \<le> rr_revision (nf_sessionRevision s') \<and> ns_request v < nf_nextSymbol s'"
      if "v \<in> set (save # saves)" for v
      using saves_okD(2) [OF assms(4), of v] that s'(4) request save(1) by auto
    show "nf_activeSave s' = Some (ns_request v) \<and> unedited_or_untested s' tests v"
      if "v \<in> set (save # saves)" "live_save s' v" for v
      using that old [of v] s'(1) save(2) request(1) by (auto simp: unedited_or_untested_def)
  qed
  then show ?thesis
    using tested_frame [OF s'(1,2) _ assms(2)] tests_frame [OF s'(1,2) assms(3)] s'(3) by simp
qed

text \<open>Once a save is answered, no save is live but those of other sessions to come.\<close>

lemma answered_saves_ok:
  assumes "saves_ok s tests saves" "save \<in> set saves"
    and "nf_sessionRevision s' = nf_sessionRevision s" "nf_nextSymbol s' = nf_nextSymbol s"
    and "live_save s save \<or>
      (form_settings s' = form_settings s \<and> nf_settingsRevision s' = nf_settingsRevision s
       \<and> nf_testedRevision s' = nf_testedRevision s \<and> nf_activeSave s' = nf_activeSave s)"
  shows "saves_ok (end_notifier_save (ns_request save) s') tests (removeAll save saves)"
proof -
  let ?t = "end_notifier_save (ns_request save) s'" and ?rest = "removeAll save saves"
  have inj: "inj_on ns_request (set ?rest)"
    using saves_okD(1) [OF assms(1)] by (rule inj_on_subset) auto
  have bounds: "ns_session v \<le> rr_revision (nf_sessionRevision ?t) \<and> ns_request v < nf_nextSymbol ?t"
    if "v \<in> set ?rest" for v
    using saves_okD(2) [OF assms(1), of v] that assms(3,4) by simp
  have live: "live_save ?t v \<longleftrightarrow> live_save s v" for v using assms(3) by (simp add: live_save_def)
  show ?thesis
  proof (cases "live_save s save")
    case True
    have "\<not> live_save s v" if "v \<in> set ?rest" for v
      using one_live_save [OF assms(1,2) True, of v] that by auto
    then show ?thesis using inj bounds live by (intro saves_ok_none_live) simp_all
  next
    case False
    then have same: "form_settings s' = form_settings s" "nf_settingsRevision s' = nf_settingsRevision s"
      "nf_testedRevision s' = nf_testedRevision s" "nf_activeSave s' = nf_activeSave s"
      using assms(5) by simp_all
    have "nf_activeSave ?t = Some (ns_request v) \<and> unedited_or_untested ?t tests v"
      if "v \<in> set ?rest" "live_save s v" for v
    proof -
      have v: "nf_activeSave s = Some (ns_request v)" "unedited_or_untested s tests v"
        using assms(1) that by (auto simp: saves_ok_def)
      have "ns_request v \<noteq> ns_request save"
        using saves_okD(1) [OF assms(1)] assms(2) that(1) by (auto dest: inj_onD)
      then show ?thesis using v same
        by (simp add: end_notifier_save_def unedited_or_untested_def live_test_def)
    qed
    then show ?thesis using inj bounds live by (intro saves_okI) simp_all
  qed
qed

lemma merged_is_vetted:
  assumes "answers_save save saved" "form_settings s = nd_settings (ns_submitted save)"
  shows "vetted (nd_settings (merged_notifier save saved s)) (no_settings saved # vet)"
  using assms unedited_settings_are_acknowledged
    [of "no_settings saved" "nd_settings (ns_submitted save)"]
  by (simp add: vetted_def same_settings_def merged_notifier_def acknowledged_notifier_def
      answers_save_def)

lemma answered_save_inv:
  assumes "save \<in> set saves" "answers_save save saved"
    and "tested_ok s vet" "tests_ok s tests vet" "saves_ok s tests saves"
  shows "tested_ok (settle_notifier_save cur save (Inr saved) s) (no_settings saved # vet)
    \<and> tests_ok (settle_notifier_save cur save (Inr saved) s) tests (no_settings saved # vet)
    \<and> saves_ok (settle_notifier_save cur save (Inr saved) s) tests (removeAll save saves)"
proof (cases "cur \<and> live_save s save")
  case False
  then have eq: "settle_notifier_save cur save (Inr saved) s = end_notifier_save (ns_request save) s"
    by (auto simp: settle_notifier_save_def live_save_def)
  have "saves_ok (end_notifier_save (ns_request save) s) tests (removeAll save saves)"
    by (rule answered_saves_ok [OF assms(5,1)]) simp_all
  moreover have "tested_ok (end_notifier_save (ns_request save) s) (no_settings saved # vet)"
    by (rule tested_frame [OF _ _ _ fewer_requests(3) [OF assms(3)]]) simp_all
  moreover have "tests_ok (end_notifier_save (ns_request save) s) tests (no_settings saved # vet)"
    by (rule tests_frame [OF _ _ fewer_requests(2) [OF assms(4)]]) simp_all
  ultimately show ?thesis unfolding eq by simp
next
  case True
  let ?t = "accept_saved_notifier save saved s"
  have eq: "settle_notifier_save cur save (Inr saved) s = end_notifier_save (ns_request save) ?t"
    using True by (auto simp: settle_notifier_save_def live_save_def)
  have t: "nf_draft ?t = merged_notifier save saved s" "nf_settingsRevision ?t = nf_settingsRevision s"
    "nf_testedRevision ?t = nf_testedRevision s" "nf_sessionRevision ?t = nf_sessionRevision s"
    "nf_nextSymbol ?t = nf_nextSymbol s"
    by (simp_all add: accept_saved_notifier_def Let_def)
  have saves: "saves_ok (end_notifier_save (ns_request save) ?t) tests (removeAll save saves)"
    using True t by (intro answered_saves_ok [OF assms(5,1)]) simp_all
  have "unedited_or_untested s tests save" using True assms(1,5) by (simp add: saves_ok_def)
  then consider "form_settings s = nd_settings (ns_submitted save)"
    | "nf_testedRevision s \<noteq> Some (settings_revision s)" "list_all (\<lambda>t. \<not> live_test s t) tests"
    by (auto simp: unedited_or_untested_def)
  then show ?thesis
  proof cases
    case 1
    with assms(2) have "vetted (nd_settings (merged_notifier save saved s)) (no_settings saved # vet)" for vet
      by (rule merged_is_vetted)
    then show ?thesis using saves t assms(4) unfolding eq
      by (auto simp: tested_ok_def tests_ok_def live_test_def vetted_def)
  next
    case 2
    then show ?thesis using saves t assms(4) unfolding eq
      by (auto simp: tested_ok_def tests_ok_def live_test_def list_all_iff)
  qed
qed

lemma failed_save_inv:
  assumes "save \<in> set saves"
    and "tested_ok s vet" "tests_ok s tests vet" "saves_ok s tests saves"
  shows "tested_ok (settle_notifier_save cur save (Inl failure) s) vet
    \<and> tests_ok (settle_notifier_save cur save (Inl failure) s) tests vet
    \<and> saves_ok (settle_notifier_save cur save (Inl failure) s) tests (removeAll save saves)"
proof -
  obtain s' where s': "settle_notifier_save cur save (Inl failure) s = end_notifier_save (ns_request save) s'"
      "nf_draft s' = nf_draft s" "nf_settingsRevision s' = nf_settingsRevision s"
      "nf_testedRevision s' = nf_testedRevision s" "nf_sessionRevision s' = nf_sessionRevision s"
      "nf_nextSymbol s' = nf_nextSymbol s" "nf_activeSave s' = nf_activeSave s"
    by (simp add: settle_notifier_save_def Let_def)
  have "saves_ok (end_notifier_save (ns_request save) s') tests (removeAll save saves)"
    using s' by (intro answered_saves_ok [OF assms(4,1)]) simp_all
  moreover have "tested_ok (end_notifier_save (ns_request save) s') vet"
    using s' by (intro tested_frame [OF _ _ _ assms(2)]) simp_all
  moreover have "tests_ok (end_notifier_save (ns_request save) s') tests vet"
    using s' by (intro tests_frame [OF _ _ assms(3)]) simp_all
  ultimately show ?thesis unfolding s'(1) by simp
qed

lemma reset_inv:
  assumes "tested_ok s vet" "tests_ok s tests vet" "saves_ok s tests saves"
  shows "tested_ok (reset_notifier_form opts s) vet \<and> tests_ok (reset_notifier_form opts s) tests vet
    \<and> saves_ok (reset_notifier_form opts s) tests saves"
  using tests_edited [OF _ assms(2), of "reset_notifier_form opts s"]
    saves_ended [OF _ _ assms(3), of "reset_notifier_form opts s"]
  by (simp add: tested_ok_def notifier_defs)

lemma synced_inv:
  assumes "tested_ok s vet" "tests_ok s tests vet" "saves_ok s tests saves"
  shows "tested_ok (sync_notifier_options opts s) vet \<and> tests_ok (sync_notifier_options opts s) tests vet
    \<and> saves_ok (sync_notifier_options opts s) tests saves"
proof -
  let ?s1 = "s\<lparr>nf_workspaceId := no_workspaceId opts, nf_inputId := map_option no_id (no_editingNotifier opts)\<rparr>"
  have inv: "tested_ok ?s1 vet" "tests_ok ?s1 tests vet" "saves_ok ?s1 tests saves"
    using assms by (auto intro: run_frame)
  then show ?thesis using reset_inv [OF inv] by (simp add: sync_notifier_options_def Let_def)
qed

lemma session_inv:
  assumes "tested_ok s vet" "tests_ok s tests vet" "saves_ok s tests saves"
  shows "tested_ok (invalidate_notifier_session s) vet \<and> tests_ok (invalidate_notifier_session s) tests vet
      \<and> saves_ok (invalidate_notifier_session s) tests saves"
    and "tested_ok (unmount_notifier_form s) vet \<and> tests_ok (unmount_notifier_form s) tests vet
      \<and> saves_ok (unmount_notifier_form s) tests saves"
  by (intro conjI; (rule tested_frame [OF _ _ _ assms(1)] | rule tests_frame [OF _ _ assms(2)]
      | rule saves_ended [OF _ _ assms(3)]); simp add: notifier_defs)+

lemma name_inv:
  assumes "tested_ok s vet" "tests_ok s tests vet" "saves_ok s tests saves"
  shows "tested_ok (change_notifier_name n s) vet \<and> tests_ok (change_notifier_name n s) tests vet
    \<and> saves_ok (change_notifier_name n s) tests saves"
  by (intro conjI; (rule tested_frame [OF _ _ _ assms(1)] | rule tests_frame [OF _ _ assms(2)]
      | rule saves_frame [OF _ _ _ _ _ _ assms(3)]); simp add: change_notifier_name_def)

lemma run_inv_step: "notifier_run_step url r r' \<Longrightarrow> run_inv r \<Longrightarrow> run_inv r'"
proof (induction rule: notifier_run_step.induct)
  case (edit_name r name)
  then show ?case using name_inv [of "nr_form r" "nr_vetted r" "nr_tests r" "nr_saves r"] by (simp add: run_inv_def)
next
  case (edit_settings r settings)
  then show ?case using edited_settings_inv [of "nr_form r" "nr_vetted r" "nr_tests r" "nr_saves r"] by (simp add: run_inv_def)
next
  case (send_test r tok s)
  then show ?case using sent_test_inv [OF send_test(1), of "nr_vetted r" "nr_tests r" "nr_saves r"] by (simp add: run_inv_def)
next
  case (test_answered tok r response cur)
  then show ?case
    using answered_test_inv [OF test_answered(1) _ _ _ refl, of "nr_form r" "nr_vetted r" "nr_saves r"
        cur "Inr response"]
    by (simp add: run_inv_def)
next
  case (test_failed tok r cur failure)
  then show ?case
    using answered_test_inv [OF test_failed(1) _ _ _ refl, of "nr_form r" "nr_vetted r" "nr_saves r"
        cur "Inl failure"]
    by (simp add: run_inv_def)
next
  case (send_save r save s)
  then show ?case using sent_save_inv [OF send_save(1), of "nr_vetted r" "nr_tests r" "nr_saves r"] by (simp add: run_inv_def)
next
  case (save_answered save r saved cur)
  then show ?case using answered_save_inv [OF save_answered(1,2), of "nr_form r" "nr_vetted r" "nr_tests r"] by (simp add: run_inv_def)
next
  case (save_failed save r cur failure)
  then show ?case using failed_save_inv [OF save_failed(1), of "nr_form r" "nr_vetted r" "nr_tests r"] by (simp add: run_inv_def)
next
  case (new_options r opts)
  then show ?case using synced_inv [of "nr_form r" "nr_vetted r" "nr_tests r" "nr_saves r"] by (simp add: run_inv_def)
next
  case (session_changed r)
  then show ?case using session_inv(1) [of "nr_form r" "nr_vetted r" "nr_tests r" "nr_saves r"] by (simp add: run_inv_def)
next
  case (left r)
  then show ?case using session_inv(2) [of "nr_form r" "nr_vetted r" "nr_tests r" "nr_saves r"] by (simp add: run_inv_def)
qed

lemma reachable_inv: "notifier_reachable url r \<Longrightarrow> run_inv r"
proof (induction rule: notifier_reachable.induct)
  case (opened opts)
  then show ?case
    by (simp add: run_inv_def tested_ok_def tests_ok_def saves_ok_def new_notifier_form_def Let_def)
next
  case (moved r r')
  then show ?case by (simp add: run_inv_step)
qed


section \<open>A run\<close>

definition discord_settings :: fields where
  "discord_settings = [(''type'', JStr ''DISCORD''), (''channelWebhookUrl'', JStr ''u'')]"

definition discord_form :: "nat notifier_form" where
  "discord_form = change_notifier_settings discord_settings (change_notifier_name ''n''
     (new_notifier_form \<lparr>no_workspaceId = ''w'', no_editingNotifier = None\<rparr>))"

definition discord_test :: notifier_test_token where
  "discord_test = \<lparr>nt_session = 0, nt_settings = 1, nt_test = 2, nt_request = 0,
     nt_sent = discord_settings, nt_id = None\<rparr>"

definition discord_tested :: "nat notifier_form" where
  "discord_tested = settle_notifier_test True discord_test (Inr \<lparr>ntr_isDelivered = True, ntr_error = None\<rparr>)
     (snd (start_notifier_test (\<lambda>_. None) discord_form))"

definition discord_save :: notifier_save_token where
  "discord_save = \<lparr>ns_session = 0, ns_draft = 2, ns_request = 1,
     ns_submitted = \<lparr>nd_name = ''n'', nd_settings = discord_settings\<rparr>, ns_id = None\<rparr>"

lemma n_trim: "trim ''n'' = ''n''"
  using trim_framed [of "[]" "CHR ''n''"]
  by (simp add: space_length_not_space printable_not_space)

lemmas discord_simps = discord_form_def discord_settings_def discord_test_def discord_save_def
  discord_tested_def new_notifier_form_def create_notifier_draft_def new_revision_def invalidate_def
  get_current_def notifier_defs channel_change_refused_def truthy_def known_settings_def
  is_notifier_settings_filled_def has_type_def notifier_types fld_def validate_discord_notifier_def
  given_def js_truthy_def n_trim settle_notifier_test_def notifier_test_is_active_def
  is_current_revision_def

lemma discord_test_sent:
  "start_notifier_test (\<lambda>_. None) discord_form =
    (Some discord_test, snd (start_notifier_test (\<lambda>_. None) discord_form))"
  by (simp add: discord_simps)

lemma discord_save_sent:
  "start_notifier_save (\<lambda>_. None) discord_tested =
    (Some discord_save, snd (start_notifier_save (\<lambda>_. None) discord_tested))"
  by (simp add: discord_simps)

lemma discord_reachable:
  "notifier_reachable (\<lambda>_. None) \<lparr>nr_form = discord_tested, nr_tests = [], nr_saves = [],
     nr_vetted = [discord_settings]\<rparr>"
proof -
  let ?url = "\<lambda>_. None" and ?opts = "\<lparr>no_workspaceId = ''w'', no_editingNotifier = None\<rparr>"
  let ?r0 = "\<lparr>nr_form = new_notifier_form ?opts, nr_tests = [], nr_saves = [], nr_vetted = []\<rparr> :: nat notifier_run"
  have "notifier_reachable ?url ?r0" by (rule opened)
  from moved [OF this edit_name [of _ _ "''n''"]]
  have "notifier_reachable ?url (?r0\<lparr>nr_form := change_notifier_name ''n'' (new_notifier_form ?opts)\<rparr>)"
    by simp
  from moved [OF this edit_settings [of _ _ discord_settings]]
  have form: "notifier_reachable ?url (?r0\<lparr>nr_form := discord_form\<rparr>)" by (simp add: discord_form_def)
  have "notifier_reachable ?url (?r0\<lparr>nr_form := snd (start_notifier_test ?url discord_form),
      nr_tests := [discord_test]\<rparr>)"
    using moved [OF form send_test [of ?url "?r0\<lparr>nr_form := discord_form\<rparr>" discord_test]] discord_test_sent
    by simp
  from moved [OF this test_answered [where tok = discord_test and cur = True
        and response = "\<lparr>ntr_isDelivered = True, ntr_error = None\<rparr>"]]
  show ?thesis by (simp add: discord_tested_def) (simp add: discord_test_def)
qed


end
