(* ===== verification/Connections.thy ===== *)
theory Connections
  imports Form_Fields Postgres_Strings
begin

text \<open>
  Connections to databases as the form holds them (\<open>entities/databases/model\<close>,
  \<open>features/database-connection/lib\<close>, \<open>pages/databases/ui/restores/toRestoreTarget.ts\<close>): the five types
  with their defaults, the drafts of a new database, an edited one and a restore target, SSH tunnels,
  whether the address changed, whether a draft is filled, the host and SSL of PostgreSQL, and the
  request that is sent. The settings are a JavaScript object; an SSH tunnel is an object in a field.
\<close>

section \<open>Types and defaults\<close>

definition type_postgres_logical :: string where "type_postgres_logical = ''POSTGRES_LOGICAL''"
definition type_postgres_physical :: string where "type_postgres_physical = ''POSTGRES_PHYSICAL''"
definition type_mysql :: string where "type_mysql = ''MYSQL''"
definition type_mariadb :: string where "type_mariadb = ''MARIADB''"
definition type_mongodb :: string where "type_mongodb = ''MONGODB''"

lemmas database_types [table_defs] = type_postgres_logical_def type_postgres_physical_def
  type_mysql_def type_mariadb_def type_mongodb_def

definition is_postgres_type :: "string \<Rightarrow> bool" where
  "is_postgres_type t \<longleftrightarrow> t = type_postgres_logical \<or> t = type_postgres_physical"

definition ssh_password :: string where "ssh_password = ''PASSWORD''"
definition ssh_private_key :: string where "ssh_private_key = ''PRIVATE_KEY''"

definition default_ssh_port :: number where "default_ssh_port = 22"

definition create_empty_ssh_tunnel_settings :: fields where
  "create_empty_ssh_tunnel_settings =
     [(''isEnabled'', JBool False), (''host'', JStr []), (''port'', JNum default_ssh_port),
      (''username'', JStr []), (''authType'', JStr ssh_password), (''password'', JStr []),
      (''privateKey'', JStr []), (''privateKeyPassphrase'', JStr [])]"

definition create_connection :: fields where
  "create_connection = [(''host'', JStr []), (''username'', JStr []), (''password'', JStr []),
     (''sshTunnel'', JObj create_empty_ssh_tunnel_settings)]"

definition default_postgresql_port :: number where "default_postgresql_port = 5432"
definition default_mysql_port :: number where "default_mysql_port = 3306"
definition default_mongodb_port :: number where "default_mongodb_port = 27017"

definition create_default_database_settings :: "string \<Rightarrow> fields" where
  "create_default_database_settings t =
     (if t = type_postgres_logical
      then create_connection @ [(''type'', JStr t), (''port'', JNum default_postgresql_port),
        (''database'', JStr []), (''sslMode'', JStr (ssl_mode_text SslDisable)),
        (''includeSchemas'', JArr []), (''excludeTables'', JArr []), (''excludeTableData'', JArr []),
        (''cpuCount'', JNum 1), (''isSkipUserMappings'', JBool False)]
      else if t = type_postgres_physical
      then create_connection @ [(''type'', JStr t), (''port'', JNum default_postgresql_port),
        (''sslMode'', JStr (ssl_mode_text SslDisable)), (''backupType'', JStr ''FULL'')]
      else if t = type_mysql
      then create_connection @ [(''type'', JStr t), (''port'', JNum default_mysql_port),
        (''database'', JStr []), (''isHttps'', JBool False), (''excludeTables'', JArr [])]
      else if t = type_mariadb
      then create_connection @ [(''type'', JStr t), (''port'', JNum default_mysql_port),
        (''database'', JStr []), (''isHttps'', JBool False), (''excludeTables'', JArr []),
        (''isExcludeEvents'', JBool False), (''isSkipGaleraDisable'', JBool False)]
      else if t = type_mongodb
      then create_connection @ [(''type'', JStr t), (''port'', JNum default_mongodb_port),
        (''database'', JStr []), (''authDatabase'', JStr []), (''isHttps'', JBool False),
        (''isSrv'', JBool False), (''isDirectConnection'', JBool False), (''cpuCount'', JNum 1),
        (''excludeCollections'', JArr [])]
      else [])"

section \<open>Drafts\<close>

datatype connection_draft =
    CreateDraft (cd_workspaceId: string) (cd_name: string) (cd_notifierIds: "string list")
      (cd_settings: fields) (cd_hasUserChosenSslMode: bool)
  | EditDraft (cd_workspaceId: string) (cd_databaseId: string) (cd_name: string)
      (cd_notifierIds: "string list") (cd_savedSettings: fields) (cd_settings: fields)
      (cd_hasUserChosenSslMode: bool)
  | RestoreDraft (cd_settings: fields) (cd_hasUserChosenSslMode: bool)

primrec change_database_create_draft_type :: "string \<Rightarrow> connection_draft \<Rightarrow> connection_draft" where
  "change_database_create_draft_type t (CreateDraft w n ids s c) =
     CreateDraft w n ids (create_default_database_settings t) False"
| "change_database_create_draft_type t (EditDraft w d n ids saved s c) = EditDraft w d n ids saved s c"
| "change_database_create_draft_type t (RestoreDraft s c) = RestoreDraft s c"

record settings_target =
  tg_workspaceId :: string
  tg_databaseId :: "string option"
  tg_settings :: fields

text \<open>A restore target has no request of this kind.\<close>

primrec to_database_settings_target :: "connection_draft \<Rightarrow> settings_target option" where
  "to_database_settings_target (CreateDraft w n ids s c) =
     Some \<lparr>tg_workspaceId = w, tg_databaseId = None, tg_settings = s\<rparr>"
| "to_database_settings_target (EditDraft w d n ids saved s c) =
     Some \<lparr>tg_workspaceId = w, tg_databaseId = Some d, tg_settings = s\<rparr>"
| "to_database_settings_target (RestoreDraft s c) = None"

section \<open>SSH tunnels\<close>

text \<open>\<open>settings.sshTunnel\<close>, a missing one as an object without fields: its switch is off.\<close>

definition ssh_tunnel :: "fields \<Rightarrow> fields" where
  "ssh_tunnel settings = object_fields (fld settings ''sshTunnel'')"

abbreviation tunnel_enabled :: "fields \<Rightarrow> bool" where
  "tunnel_enabled settings \<equiv> given (ssh_tunnel settings) ''isEnabled''"

definition is_ssh_tunnel_address_changed :: "fields \<Rightarrow> fields \<Rightarrow> bool" where
  "is_ssh_tunnel_address_changed sshTunnel savedSshTunnel =
     (let isEnabled = given sshTunnel ''isEnabled''
      in if isEnabled \<noteq> given savedSshTunnel ''isEnabled'' then True
         else if \<not> isEnabled then False
         else optional_field_changed sshTunnel savedSshTunnel ''host''
           \<or> optional_field_changed sshTunnel savedSshTunnel ''port'')"

definition has_stored_ssh_tunnel_secrets_for_auth_type :: "fields \<Rightarrow> jsval \<Rightarrow> bool" where
  "has_stored_ssh_tunnel_secrets_for_auth_type savedSshTunnel editedAuthType \<longleftrightarrow>
     given savedSshTunnel ''isEnabled'' \<and> fld savedSshTunnel ''authType'' = editedAuthType"

definition is_ssh_tunnel_ready_to_test :: "fields \<Rightarrow> bool \<Rightarrow> bool" where
  "is_ssh_tunnel_ready_to_test sshTunnel hasStoredSecrets =
     (if \<not> given sshTunnel ''isEnabled'' then True
      else if \<not> given sshTunnel ''host'' then False
      else if \<not> given sshTunnel ''port'' then False
      else if \<not> given sshTunnel ''username'' then False
      else if hasStoredSecrets then True
      else if fld sshTunnel ''authType'' = JStr ssh_password then given sshTunnel ''password''
      else given sshTunnel ''privateKey'')"

definition set_ssh_tunnel_auth_type_and_clear_unused_secrets :: "fields \<Rightarrow> string \<Rightarrow> fields" where
  "set_ssh_tunnel_auth_type_and_clear_unused_secrets sshTunnel authType =
     (if authType = ssh_password
      then set_field ''privateKeyPassphrase'' (JStr [])
        (set_field ''privateKey'' (JStr []) (set_field ''authType'' (JStr authType) sshTunnel))
      else set_field ''password'' (JStr []) (set_field ''authType'' (JStr authType) sshTunnel))"

text \<open>\<open>toOptionalValue\<close> on the value of a form: an empty one gives way to \<open>undefined\<close>.\<close>

definition optional_text :: "jsval \<Rightarrow> jsval" where
  "optional_text v = (if js_truthy v then v else JUndefined)"

definition to_ssh_tunnel_request :: "fields \<Rightarrow> fields" where
  "to_ssh_tunnel_request sshTunnel =
     (if \<not> given sshTunnel ''isEnabled'' then [(''isEnabled'', JBool False)]
      else [(''isEnabled'', JBool True), (''host'', optional_text (fld sshTunnel ''host'')),
            (''port'', fld sshTunnel ''port''), (''username'', optional_text (fld sshTunnel ''username'')),
            (''authType'', fld sshTunnel ''authType''),
            (''password'', optional_text (fld sshTunnel ''password'')),
            (''privateKey'', optional_text (fld sshTunnel ''privateKey'')),
            (''privateKeyPassphrase'', optional_text (fld sshTunnel ''privateKeyPassphrase''))])"

definition disable_srv_when_tunneled :: "fields \<Rightarrow> fields" where
  "disable_srv_when_tunneled mongodb =
     (if \<not> tunnel_enabled mongodb then mongodb else set_field ''isSrv'' (JBool False) mongodb)"

section \<open>Address and completeness\<close>

definition is_connection_address_changed :: "connection_draft \<Rightarrow> bool" where
  "is_connection_address_changed draft = (case draft of
       EditDraft w d n ids savedSettings settings c \<Rightarrow>
         optional_field_changed settings savedSettings ''host''
         \<or> optional_field_changed settings savedSettings ''port''
         \<or> is_ssh_tunnel_address_changed (ssh_tunnel settings) (ssh_tunnel savedSettings)
         \<or> (has_type settings type_mongodb \<and> has_type savedSettings type_mongodb
            \<and> given settings ''isSrv'' \<noteq> given savedSettings ''isSrv'')
     | _ \<Rightarrow> False)"

definition has_stored_ssh_secrets :: "connection_draft \<Rightarrow> bool" where
  "has_stored_ssh_secrets draft = (case draft of
       EditDraft w d n ids savedSettings settings c \<Rightarrow>
         \<not> is_ssh_tunnel_address_changed (ssh_tunnel settings) (ssh_tunnel savedSettings)
         \<and> has_stored_ssh_tunnel_secrets_for_auth_type (ssh_tunnel savedSettings)
             (fld (ssh_tunnel settings) ''authType'')
     | _ \<Rightarrow> False)"

definition is_client_key_required_again :: "fields \<Rightarrow> bool \<Rightarrow> bool" where
  "is_client_key_required_again settings isAddressChanged \<longleftrightarrow>
     isAddressChanged \<and> given settings ''sslClientCert'' \<and> \<not> given settings ''sslClientKey''"

primrec is_edit :: "connection_draft \<Rightarrow> bool" where
  "is_edit (CreateDraft w n ids s c) = False"
| "is_edit (EditDraft w d n ids saved s c) = True"
| "is_edit (RestoreDraft s c) = False"

definition is_connection_draft_filled :: "connection_draft \<Rightarrow> bool" where
  "is_connection_draft_filled draft =
     (let settings = cd_settings draft;
          isAddressChanged = is_connection_address_changed draft
      in if \<not> given settings ''host'' \<or> \<not> given settings ''username'' then False
         else if (\<not> is_edit draft \<or> isAddressChanged) \<and> trim (text_field settings ''password'') = []
         then False
         else if \<not> is_ssh_tunnel_ready_to_test (ssh_tunnel settings) (has_stored_ssh_secrets draft)
         then False
         else if has_type settings type_postgres_physical
         then given settings ''port'' \<and> \<not> is_client_key_required_again settings isAddressChanged
         else if has_type settings type_mongodb
         then (given settings ''isSrv'' \<or> given settings ''port'') \<and> given settings ''database''
         else if has_type settings type_postgres_logical
         then given settings ''port'' \<and> given settings ''database''
           \<and> \<not> is_client_key_required_again settings isAddressChanged
         else if has_type settings type_mysql \<or> has_type settings type_mariadb
         then given settings ''port'' \<and> given settings ''database''
         else False)"

definition is_localhost_connection :: "fields \<Rightarrow> bool" where
  "is_localhost_connection settings \<longleftrightarrow> \<not> tunnel_enabled settings
     \<and> (contains_text ''localhost'' (text_field settings ''host'')
        \<or> contains_text ''127.0.0.1'' (text_field settings ''host''))"

section \<open>Host and SSL of PostgreSQL\<close>

text \<open>\<open>String.prototype.replace\<close> of a text: its first occurrence.\<close>

fun replace_first :: "string \<Rightarrow> string \<Rightarrow> string \<Rightarrow> string" where
  "replace_first old new [] = (if old = [] then new else [])"
| "replace_first old new (c # s) =
     (if prefix old (c # s) then new @ drop (length old) (c # s) else c # replace_first old new s)"

definition strip_host_scheme :: "string \<Rightarrow> string" where
  "strip_host_scheme rawHost = replace_first ''http://'' [] (replace_first ''https://'' [] (trim rawHost))"

definition ssl_mode_of_host :: "string \<Rightarrow> ssl_mode option" where
  "ssl_mode_of_host rawHost =
     (let trimmedHost = to_lower (trim rawHost)
      in if prefix ''https://'' trimmedHost then Some SslRequire
         else if prefix ''http://'' trimmedHost then Some SslDisable
         else let bareHost = takeWhile (\<lambda>c. c \<noteq> CHR '':'') trimmedHost
              in if bareHost = ''localhost'' \<or> is_ipv4 bareHost then Some SslDisable else None)"

definition clear_postgresql_certificates :: "fields \<Rightarrow> fields" where
  "clear_postgresql_certificates settings = set_field ''sslRootCert'' (JStr [])
     (set_field ''sslClientKey'' (JStr []) (set_field ''sslClientCert'' (JStr []) settings))"

definition apply_postgresql_ssl_mode :: "fields \<Rightarrow> ssl_mode \<Rightarrow> fields" where
  "apply_postgresql_ssl_mode settings sslMode =
     set_field ''sslMode'' (JStr (ssl_mode_text sslMode))
       (if sslMode = SslDisable then clear_postgresql_certificates settings else settings)"

text \<open>\<open>settings.sslMode ?? PostgresSslMode.Disable\<close> is \<open>Disable\<close>\<close>

definition is_ssl_off :: "fields \<Rightarrow> bool" where
  "is_ssl_off settings \<longleftrightarrow> fld settings ''sslMode'' \<in> {JUndefined, JNull, JStr (ssl_mode_text SslDisable)}"

definition apply_postgresql_host :: "fields \<Rightarrow> string \<Rightarrow> bool \<Rightarrow> fields" where
  "apply_postgresql_host settings rawHost hasUserChosenSslMode =
     (let settingsWithHost = set_field ''host'' (JStr (strip_host_scheme rawHost)) settings
      in if \<not> hasUserChosenSslMode
         then case ssl_mode_of_host rawHost of
             None \<Rightarrow> settingsWithHost
           | Some derivedSslMode \<Rightarrow> apply_postgresql_ssl_mode settingsWithHost derivedSslMode
         else let isHttpsHost = prefix ''https://'' (to_lower (trim rawHost))
              in if isHttpsHost \<and> is_ssl_off settings
                 then apply_postgresql_ssl_mode settingsWithHost SslRequire
                 else settingsWithHost)"

section \<open>Requests\<close>

definition trimmed_password :: "fields \<Rightarrow> jsval" where
  "trimmed_password settings = optional_text (JStr (trim (text_field settings ''password'')))"

text \<open>\<open>{...settings, k: v, ...}\<close>: a field that is there keeps its place.\<close>

definition with_fields :: "(string \<times> jsval) list \<Rightarrow> fields \<Rightarrow> fields" where
  "with_fields changes settings = foldl (\<lambda>fs (k, v). set_field k v fs) settings changes"

definition optional_of :: "fields \<Rightarrow> string \<Rightarrow> string \<times> jsval" where
  "optional_of settings k = (k, optional_text (fld settings k))"

definition to_database_settings_request :: "fields \<Rightarrow> fields" where
  "to_database_settings_request settings =
     (let sshTunnel = (''sshTunnel'', JObj (to_ssh_tunnel_request (ssh_tunnel settings)));
          password = (''password'', trimmed_password settings)
      in if has_type settings type_postgres_logical
         then with_fields [password, optional_of settings ''database'', optional_of settings ''sslClientCert'',
             optional_of settings ''sslClientKey'', optional_of settings ''sslRootCert'', sshTunnel] settings
         else if has_type settings type_postgres_physical
         then with_fields [password, optional_of settings ''sslClientCert'',
             optional_of settings ''sslClientKey'', optional_of settings ''sslRootCert'', sshTunnel]
           (delete_field ''walSegmentSizeBytes'' (delete_field ''systemIdentifier'' settings))
         else if has_type settings type_mysql \<or> has_type settings type_mariadb
         then with_fields [password, optional_of settings ''database'', sshTunnel]
           (delete_field ''privileges'' settings)
         else if has_type settings type_mongodb then with_fields [password, sshTunnel] settings
         else [])"

definition to_settings_target_request :: "settings_target \<Rightarrow> settings_target" where
  "to_settings_target_request target = target\<lparr>tg_settings := to_database_settings_request (tg_settings target)\<rparr>"

definition copied :: "fields \<Rightarrow> string \<Rightarrow> string \<times> jsval" where
  "copied settings k = (k, fld settings k)"

definition to_restore_target :: "fields \<Rightarrow> fields \<Rightarrow> fields" where
  "to_restore_target settings postgresqlRestoreOptions =
     (let password = (''password'', JStr (trim (text_field settings ''password'')));
          server = map (copied settings) [''type'', ''host'', ''port'', ''username''] @ [password];
          database = (''database'', or_blank (fld settings ''database''))
      in if has_type settings type_postgres_logical
         then with_fields (server @ [database] @ map (copied settings) [''sslMode'', ''sslClientCert'',
             ''sslClientKey'', ''sslRootCert'', ''sshTunnel'', ''cpuCount'']) postgresqlRestoreOptions
         else if has_type settings type_mysql
         then server @ [database] @ map (copied settings) [''isHttps'', ''sshTunnel'']
         else if has_type settings type_mariadb
         then server @ [database] @ map (copied settings) [''isHttps'', ''isSkipGaleraDisable'', ''sshTunnel'']
         else if has_type settings type_mongodb
         then server @ map (copied settings) [''database'', ''authDatabase'', ''isHttps'', ''isSrv'',
             ''isDirectConnection'', ''cpuCount'', ''sshTunnel'']
         else [])"

section \<open>The list of databases\<close>

datatype health_status = AVAILABLE | UNAVAILABLE

record database_item =
  db_id :: string
  db_healthStatus :: "health_status option"

text \<open>The comparison subtracts whether each is unavailable, so the sort, which is stable, is by that.\<close>

definition sort_unavailable_databases_first :: "'a database_item_scheme list \<Rightarrow> 'a database_item_scheme list" where
  "sort_unavailable_databases_first databases =
     sort_key (\<lambda>d. if db_healthStatus d = Some UNAVAILABLE then 0 else 1 :: nat) databases"

section \<open>Explaining a failed physical connection\<close>

definition quote_postgresql_identifier :: "string \<Rightarrow> string" where
  "quote_postgresql_identifier identifier =
     [dquote] @ concat (map (\<lambda>c. if c = dquote then [dquote, dquote] else [c]) identifier) @ [dquote]"

datatype connection_error_code =
    ConnectionFailed | PgHbaNoEntry | BadCredentials | NoReplicationPrivilege | WalLevelInvalid
  | NoWalSenders | NoReplicationSlots | WalSummaryDisabled | NoWalSwitchPrivilege
  | CustomTablespaces | SystemIdentifierMismatch

datatype error_step = Command string | Note string

record error_content =
  ec_titleKey :: string
  ec_summaryKey :: string
  ec_steps :: "error_step list"
  ec_managedNote :: "localized_text option"

definition replication_hba_address :: string where "replication_hba_address = ''all''"

definition error_key :: "string \<Rightarrow> string" where
  "error_key k = ''databases.physicalConnectionErrors.'' @ k"

definition error_texts :: "string \<Rightarrow> error_step list \<Rightarrow> (string \<times> text_value) list option \<Rightarrow> error_content" where
  "error_texts name steps managed =
     \<lparr>ec_titleKey = error_key (name @ ''.title''), ec_summaryKey = error_key (name @ ''.summary''),
      ec_steps = steps, ec_managedNote = map_option
        (\<lambda>ps. \<lparr>lt_key = error_key (name @ ''.managedNote''), lt_params = ps\<rparr>) managed\<rparr>"

primrec physical_connection_error_content :: "connection_error_code \<Rightarrow> string \<Rightarrow> error_content" where
  "physical_connection_error_content PgHbaNoEntry username = error_texts ''pgHbaNoEntry''
     [Note (error_key ''pgHbaNoEntry.addLineNote''),
      Command (''host    replication    all    '' @ replication_hba_address @ ''    scram-sha-256''),
      Note (error_key ''pgHbaNoEntry.reloadNote'')] (Some [])"
| "physical_connection_error_content BadCredentials username = error_texts ''badCredentials'' [] None"
| "physical_connection_error_content NoReplicationPrivilege username = error_texts ''noReplicationPrivilege''
     [Note (error_key ''grantAsSuperuserNote''),
      Command (''ALTER ROLE '' @ quote_postgresql_identifier username @ '' REPLICATION;'')]
     (Some [(''username'', TStr (quote_postgresql_identifier username))])"
| "physical_connection_error_content NoWalSwitchPrivilege username = error_texts ''noWalSwitchPrivilege''
     [Note (error_key ''grantAsSuperuserNote''),
      Command (''GRANT EXECUTE ON FUNCTION pg_switch_wal() TO '' @ quote_postgresql_identifier username @ '';''),
      Note (error_key ''noWalSwitchPrivilege.switchBackupTypeNote'')] (Some [])"
| "physical_connection_error_content WalLevelInvalid username = error_texts ''walLevelInvalid''
     [Note (error_key ''walLevelInvalid.applyNote''),
      Command ''ALTER SYSTEM SET wal_level = replica;''] (Some [])"
| "physical_connection_error_content NoWalSenders username = error_texts ''noWalSenders''
     [Note (error_key ''applyAndRestartNote''),
      Command ''ALTER SYSTEM SET max_wal_senders = 10;''] (Some [])"
| "physical_connection_error_content NoReplicationSlots username = error_texts ''noReplicationSlots''
     [Note (error_key ''applyAndRestartNote''),
      Command ''ALTER SYSTEM SET max_replication_slots = 10;''] (Some [])"
| "physical_connection_error_content WalSummaryDisabled username = error_texts ''walSummaryDisabled''
     [Note (error_key ''walSummaryDisabled.applyNote''),
      Command ''ALTER SYSTEM SET summarize_wal = on;'',
      Note (error_key ''walSummaryDisabled.thenNote''),
      Command ''SELECT pg_reload_conf();''] (Some [])"
| "physical_connection_error_content CustomTablespaces username = error_texts ''customTablespaces'' [] None"
| "physical_connection_error_content SystemIdentifierMismatch username =
     error_texts ''systemIdentifierMismatch'' [] None"
| "physical_connection_error_content ConnectionFailed username = error_texts ''connectionFailed'' [] None"

section \<open>A quoted identifier reads back\<close>

text \<open>How PostgreSQL reads an identifier between double quotes: a doubled quote is a quote of the name,
  a single one ends it. The rest of the command follows.\<close>

fun read_quoted :: "string \<Rightarrow> (string \<times> string) option" where
  "read_quoted [] = None"
| "read_quoted (c # s) =
     (if c \<noteq> dquote then map_option (\<lambda>(n, r). (c # n, r)) (read_quoted s)
      else case s of
        d # t \<Rightarrow> if d = dquote then map_option (\<lambda>(n, r). (dquote # n, r)) (read_quoted t) else Some ([], s)
      | [] \<Rightarrow> Some ([], []))"

definition read_identifier :: "string \<Rightarrow> (string \<times> string) option" where
  "read_identifier s = (case s of c # t \<Rightarrow> if c = dquote then read_quoted t else None | [] \<Rightarrow> None)"

lemma read_quoted_doubled:
  "rest = [] \<or> hd rest \<noteq> dquote \<Longrightarrow>
    read_quoted (concat (map (\<lambda>c. if c = dquote then [dquote, dquote] else [c]) name) @ dquote # rest) =
      Some (name, rest)"
  by (induction name) (auto split: list.split)

lemma read_identifier_quoted:
  "rest = [] \<or> hd rest \<noteq> dquote \<Longrightarrow>
    read_identifier (quote_postgresql_identifier name @ rest) = Some (name, rest)"
  using read_quoted_doubled [of rest name] by (simp add: quote_postgresql_identifier_def read_identifier_def)

text \<open>Whatever user name the server has, the commands shown for granting the missing right name
  exactly that user: PostgreSQL reads the quoted name back as it is, and the rest of the command stays
  the command, so a name with quotes or semicolons adds nothing to it.\<close>

theorem shown_commands_name_the_user:
  "list_ex (\<lambda>step. case step of
       Command c \<Rightarrow> prefix ''ALTER ROLE '' c \<and> read_identifier (drop 11 c) = Some (username, '' REPLICATION;'')
     | Note _ \<Rightarrow> False) (ec_steps (physical_connection_error_content NoReplicationPrivilege username))
   \<and> list_ex (\<lambda>step. case step of
       Command c \<Rightarrow> prefix ''GRANT EXECUTE ON FUNCTION pg_switch_wal() TO '' c
         \<and> read_identifier (drop 45 c) = Some (username, '';'')
     | Note _ \<Rightarrow> False) (ec_steps (physical_connection_error_content NoWalSwitchPrivilege username))"
  by (simp add: error_texts_def read_identifier_quoted)

section \<open>The unavailable ones first\<close>

lemma insort_after_all:
  "(\<And>y. y \<in> set ys \<Longrightarrow> f y < f x) \<Longrightarrow> (\<And>z. z \<in> set zs \<Longrightarrow> f x \<le> f z) \<Longrightarrow>
    insort_key f x (ys @ zs) = ys @ x # zs"
  by (induction ys) (cases zs; force)+

lemma sort_key_two_values:
  fixes f :: "'a \<Rightarrow> nat"
  assumes "f = (\<lambda>x. if P x then 0 else 1)"
  shows "sort_key f xs = filter P xs @ filter (\<lambda>x. \<not> P x) xs"
proof (induction xs)
  case (Cons x xs)
  have "insort_key f x (filter P xs @ filter (\<lambda>x. \<not> P x) xs) =
      filter P (x # xs) @ filter (\<lambda>x. \<not> P x) (x # xs)"
  proof (cases "P x")
    case True
    have "insort_key f x ([] @ filter P xs @ filter (\<lambda>x. \<not> P x) xs) =
        [] @ x # filter P xs @ filter (\<lambda>x. \<not> P x) xs"
      by (rule insort_after_all) (simp_all add: assms True)
    then show ?thesis using True by simp
  next
    case False
    then show ?thesis by (subst insort_after_all) (auto simp: assms)
  qed
  with Cons show ?case by simp
qed simp

lemma unavailable_databases_first:
  "sort_unavailable_databases_first ds =
    filter (\<lambda>d. db_healthStatus d = Some UNAVAILABLE) ds
    @ filter (\<lambda>d. db_healthStatus d \<noteq> Some UNAVAILABLE) ds"
  unfolding sort_unavailable_databases_first_def
  by (rule sort_key_two_values [of _ "\<lambda>d. db_healthStatus d = Some UNAVAILABLE"]) simp

end
