(* ===== verification/Connection_Forms.thy ===== *)
theory Connection_Forms
  imports Connections Other_Strings
begin

text \<open>
  What the connection form makes of pasted connection strings
  (\<open>features/database-connection/ui/Edit...ConnectionComponent.tsx\<close>, their \<open>onParsed\<close>), and what holds of
  the drafts: which secrets a request carries, that a request is stable, how host, SSL mode and
  certificates go together, and that an accepted string fills the form.
\<close>

section \<open>Pasted connection strings\<close>

text \<open>A port that is NaN is falsy like a missing one, which stands for it here.\<close>

definition port_value :: "int option \<Rightarrow> jsval" where
  "port_value p = (case p of Some n \<Rightarrow> JNum (of_int n) | None \<Rightarrow> JUndefined)"

definition is_supabase_connection :: "fields \<Rightarrow> bool" where
  "is_supabase_connection settings \<longleftrightarrow> contains_text ''supabase'' (text_field settings ''host'')
     \<or> contains_text ''supabase'' (text_field settings ''username'')"

text \<open>The first component is whether the schema was added already.\<close>

definition add_public_schema_for_supabase :: "bool \<Rightarrow> fields \<Rightarrow> bool \<times> fields" where
  "add_public_schema_for_supabase hasAutoAdded settings =
     (if hasAutoAdded \<or> \<not> is_supabase_connection settings then (hasAutoAdded, settings)
      else let currentSchemas = array_items (fld settings ''includeSchemas'')
           in (True, if JStr ''public'' \<in> set currentSchemas then settings
             else set_field ''includeSchemas'' (JArr (JStr ''public'' # currentSchemas)) settings))"

definition import_postgresql_logical :: "bool \<Rightarrow> postgres_connection \<Rightarrow> fields \<Rightarrow> bool \<times> fields" where
  "import_postgresql_logical hasAutoAdded parsed settings =
     add_public_schema_for_supabase hasAutoAdded
       (apply_postgresql_ssl_mode
         (with_fields [(''host'', JStr (pc_host parsed)), (''port'', port_value (pc_port parsed)),
            (''username'', JStr (pc_username parsed)), (''password'', JStr (pc_password parsed)),
            (''database'', JStr (pc_database parsed)), (''cpuCount'', JNum 1)] settings)
         (pc_ssl_mode parsed))"

definition import_postgresql_physical :: "postgres_connection \<Rightarrow> fields \<Rightarrow> fields" where
  "import_postgresql_physical parsed settings =
     apply_postgresql_ssl_mode
       (with_fields [(''host'', JStr (pc_host parsed)), (''port'', port_value (pc_port parsed)),
          (''username'', JStr (pc_username parsed)), (''password'', JStr (pc_password parsed))] settings)
       (pc_ssl_mode parsed)"

definition import_mysql_compatible :: "mysql_connection \<Rightarrow> fields \<Rightarrow> fields" where
  "import_mysql_compatible parsed settings =
     with_fields [(''host'', JStr (my_host parsed)), (''port'', port_value (my_port parsed)),
       (''username'', JStr (my_username parsed)), (''password'', JStr (my_password parsed)),
       (''database'', JStr (my_database parsed)), (''isHttps'', JBool (my_is_https parsed))] settings"

definition import_mongodb :: "mongo_connection \<Rightarrow> fields \<Rightarrow> fields" where
  "import_mongodb parsed settings = disable_srv_when_tunneled
     (with_fields [(''host'', JStr (mo_host parsed)), (''port'', port_value (mo_port parsed)),
       (''username'', JStr (mo_username parsed)), (''password'', JStr (mo_password parsed)),
       (''database'', JStr (mo_database parsed)), (''authDatabase'', JStr (mo_auth_database parsed)),
       (''isHttps'', JBool (mo_use_tls parsed)), (''isSrv'', JBool (mo_is_srv parsed)),
       (''isDirectConnection'', JBool (mo_is_direct_connection parsed)), (''cpuCount'', JNum 1)] settings)"

section \<open>Reading changed settings\<close>

lemma fld_with_fields:
  "fld (with_fields changes settings) k =
    (case map_of (rev changes) k of Some v \<Rightarrow> v | None \<Rightarrow> fld settings k)"
proof (induction changes arbitrary: settings)
  case (Cons c changes)
  obtain j v where c: "c = (j, v)" by (cases c)
  then have "with_fields (c # changes) settings = with_fields changes (set_field j v settings)"
    by (simp add: with_fields_def)
  with Cons [of "set_field j v settings"] c show ?case
    by (auto simp: fld_set_field map_add_def split: option.splits)
qed (simp add: with_fields_def)

lemma fld_apply_ssl_mode:
  "fld (apply_postgresql_ssl_mode settings m) k =
    (if k = ''sslMode'' then JStr (ssl_mode_text m)
     else if m = SslDisable \<and> k \<in> {''sslClientCert'', ''sslClientKey'', ''sslRootCert''} then JStr []
     else fld settings k)"
  by (simp add: apply_postgresql_ssl_mode_def clear_postgresql_certificates_def fld_set_field)

lemma fld_add_public_schema:
  "k \<noteq> ''includeSchemas'' \<Longrightarrow> fld (snd (add_public_schema_for_supabase b settings)) k = fld settings k"
  by (simp add: add_public_schema_for_supabase_def fld_set_field Let_def)

lemmas field_simps = fld_with_fields fld_set_field fld_delete_field fld_apply_ssl_mode
  fld_add_public_schema optional_of_def copied_def

lemma given_optional_text: "js_truthy (optional_text v) = js_truthy v"
  by (auto simp: optional_text_def js_truthy_def)

lemma ssl_mode_texts: "ssl_mode_text m = ssl_mode_text n \<longleftrightarrow> m = n"
  by (cases m; cases n) simp_all

section \<open>An accepted string fills the form\<close>

lemma default_fields:
  "fld (create_default_database_settings type_postgres_logical) ''type'' = JStr type_postgres_logical"
  "fld (create_default_database_settings type_postgres_logical) ''sshTunnel'' = JObj create_empty_ssh_tunnel_settings"
  "\<not> given create_empty_ssh_tunnel_settings ''isEnabled''"
  by (simp_all add: create_default_database_settings_def create_connection_def fld_def given_def
      js_truthy_def create_empty_ssh_tunnel_settings_def)


lemma sample_string_accepted:
  "\<exists>c. parse_postgres sample_browser (libpq_string ''h'' ''6543'' ''my db'' ''u'' ''a=b c'') = Inr c
     \<and> pc_port c = Some 6543 \<and> pc_password c = ''a=b c''"
  using sample_parse_int scan_libpq_string [of "''h''" "''6543''" "''my db''" "''u''" "''a=b c''"]
    libpq_string_format [of "''h''" "''6543''" "''my db''" "''u''" "''a=b c''"]
  by (simp add: parse_postgres_def trim_libpq_string parse_libpq_def sample_fields Let_def)
    (simp add: libpq_string_def libpq_field_def)


section \<open>The request carries the secrets of a new address\<close>

text \<open>A request that does not lean on stored secrets: it has a password, a key to every client
  certificate, and what the way of logging in to the tunnel needs, when the tunnel's address is new.\<close>

definition carries_secrets :: "bool \<Rightarrow> fields \<Rightarrow> bool" where
  "carries_secrets tunnelChanged request \<longleftrightarrow>
     given request ''password''
     \<and> (given request ''sslClientCert'' \<and> (has_type request type_postgres_logical \<or> has_type request type_postgres_physical)
        \<longrightarrow> given request ''sslClientKey'')
     \<and> (tunnelChanged \<and> tunnel_enabled request \<longrightarrow>
        given (ssh_tunnel request)
          (if fld (ssh_tunnel request) ''authType'' = JStr ssh_password then ''password'' else ''privateKey''))"

lemma request_fields:
  assumes "has_type settings t"
    and "t \<in> {type_postgres_logical, type_postgres_physical, type_mysql, type_mariadb, type_mongodb}"
  shows "fld (to_database_settings_request settings) ''type'' = fld settings ''type''
    \<and> fld (to_database_settings_request settings) ''password'' = trimmed_password settings
    \<and> fld (to_database_settings_request settings) ''sshTunnel'' = JObj (to_ssh_tunnel_request (ssh_tunnel settings))"
  using assms
  by (auto simp: to_database_settings_request_def has_type_only [OF assms(1)] database_types field_simps Let_def)

lemma request_certificates:
  assumes "has_type settings type_postgres_logical \<or> has_type settings type_postgres_physical"
    and "k \<in> {''sslClientCert'', ''sslClientKey''}"
  shows "fld (to_database_settings_request settings) k = optional_text (fld settings k)"
  using assms by (auto simp: to_database_settings_request_def field_simps Let_def)

lemma filled_type:
  "is_connection_draft_filled draft \<Longrightarrow>
    \<exists>t \<in> {type_postgres_logical, type_postgres_physical, type_mysql, type_mariadb, type_mongodb}.
      has_type (cd_settings draft) t"
  by (auto simp: is_connection_draft_filled_def Let_def split: if_splits)

lemma request_tunnel:
  assumes "tunnel_enabled settings"
  shows "fld (to_ssh_tunnel_request (ssh_tunnel settings)) ''authType'' = fld (ssh_tunnel settings) ''authType''"
    and "k \<in> {''password'', ''privateKey''} \<Longrightarrow>
      given (to_ssh_tunnel_request (ssh_tunnel settings)) k = given (ssh_tunnel settings) k"
  using assms
  by (auto simp: to_ssh_tunnel_request_def given_def given_optional_text) (simp_all add: fld_def given_optional_text)

lemma request_tunnel_enabled:
  "tunnel_enabled settings = given (to_ssh_tunnel_request (ssh_tunnel settings)) ''isEnabled''"
  by (simp add: to_ssh_tunnel_request_def given_def) (simp add: fld_def js_truthy_def)


definition moved_draft :: "string \<Rightarrow> connection_draft" where
  "moved_draft password = EditDraft ''w'' ''d'' ''n'' []
     [(''type'', JStr ''MYSQL''), (''host'', JStr ''old''), (''port'', JNum 3306)]
     [(''type'', JStr ''MYSQL''), (''host'', JStr ''new''), (''port'', JNum 3306), (''username'', JStr ''u''),
      (''password'', JStr password), (''database'', JStr ''db'')] False"

lemma moved_draft_changed: "is_connection_address_changed (moved_draft p)"
  by (simp add: moved_draft_def is_connection_address_changed_def optional_field_changed_def or_blank_def fld_def)

lemma moved_draft_filled: "is_connection_draft_filled (moved_draft ''pw'')"
proof -
  have "trim ''pw'' \<noteq> []"
    using trim_framed [of "''p''" "CHR ''w''"] by (simp add: space_length_not_space printable_not_space)
  then show ?thesis using moved_draft_changed [of "''pw''"]
    by (simp add: is_connection_draft_filled_def Let_def)
      (simp add: moved_draft_def given_def fld_def js_truthy_def text_field_def has_type_def database_types
        is_ssh_tunnel_ready_to_test_def ssh_tunnel_def object_fields_def)
qed


section \<open>Host, SSL mode and certificates\<close>

text \<open>Certificates belong to a connection with SSL: none is left when it is off.\<close>

definition certificates_need_ssl :: "fields \<Rightarrow> bool" where
  "certificates_need_ssl settings \<longleftrightarrow>
     is_ssl_off settings \<longrightarrow> \<not> given settings ''sslClientCert'' \<and> \<not> given settings ''sslClientKey''
       \<and> \<not> given settings ''sslRootCert''"

text \<open>The edits of the PostgreSQL editors that bear on SSL: the host, the mode, and a pasted string.\<close>

datatype ssl_edit = EditHost string | EditMode ssl_mode | PasteLogical postgres_connection
  | PastePhysical postgres_connection

fun apply_ssl_edit :: "fields \<times> bool \<Rightarrow> ssl_edit \<Rightarrow> fields \<times> bool" where
  "apply_ssl_edit (s, chosen) (EditHost rawHost) = (apply_postgresql_host s rawHost chosen, chosen)"
| "apply_ssl_edit (s, chosen) (EditMode m) = (apply_postgresql_ssl_mode s m, True)"
| "apply_ssl_edit (s, chosen) (PasteLogical c) = (snd (import_postgresql_logical True c s), True)"
| "apply_ssl_edit (s, chosen) (PastePhysical c) = (import_postgresql_physical c s, True)"

lemma is_ssl_off_applied: "is_ssl_off (apply_postgresql_ssl_mode s m) \<longleftrightarrow> m = SslDisable"
  using ssl_mode_texts [of m SslDisable] by (simp add: is_ssl_off_def fld_apply_ssl_mode)

lemma applied_mode_keeps_rule:
  "certificates_need_ssl (apply_postgresql_ssl_mode s m)"
  by (simp add: certificates_need_ssl_def is_ssl_off_applied given_def fld_apply_ssl_mode js_truthy_def)

lemma same_fields_keep_rule:
  "certificates_need_ssl s \<Longrightarrow> fld s' ''sslMode'' = fld s ''sslMode'' \<Longrightarrow>
    fld s' ''sslClientCert'' = fld s ''sslClientCert'' \<Longrightarrow> fld s' ''sslClientKey'' = fld s ''sslClientKey'' \<Longrightarrow>
    fld s' ''sslRootCert'' = fld s ''sslRootCert'' \<Longrightarrow> certificates_need_ssl s'"
  by (simp add: certificates_need_ssl_def is_ssl_off_def given_def)

lemma host_keeps_rule:
  "certificates_need_ssl s \<Longrightarrow> certificates_need_ssl (apply_postgresql_host s raw chosen)"
  by (auto simp: apply_postgresql_host_def Let_def applied_mode_keeps_rule fld_set_field
      intro: same_fields_keep_rule split: option.split)

lemma ssl_edit_keeps_rule: "certificates_need_ssl (fst x) \<Longrightarrow> certificates_need_ssl (fst (apply_ssl_edit x e))"
proof (cases x; cases e)
  fix s chosen c
  assume "certificates_need_ssl (fst x)" "x = (s, chosen)" "e = PasteLogical c"
  then show ?thesis
    by (simp add: import_postgresql_logical_def add_public_schema_for_supabase_def applied_mode_keeps_rule)
qed (auto simp: host_keeps_rule applied_mode_keeps_rule import_postgresql_physical_def)

interpretation ssl_edits: invariant_machine apply_ssl_edit "\<lambda>x. certificates_need_ssl (fst x)"
  by unfold_locales (rule ssl_edit_keeps_rule)

text \<open>However the host and the mode of a PostgreSQL connection are edited and strings are pasted,
  certificates never outlive SSL, and an https host always ends with SSL on, chosen mode or not.\<close>

theorem certificates_and_https_need_ssl:
  assumes "certificates_need_ssl settings"
  shows "certificates_need_ssl (fst (foldl apply_ssl_edit (settings, chosen) edits))
    \<and> (prefix ''https://'' (to_lower (trim rawHost)) \<longrightarrow>
        \<not> is_ssl_off (apply_postgresql_host (fst (foldl apply_ssl_edit (settings, chosen) edits)) rawHost chosen))"
proof -
  have "certificates_need_ssl (fst (foldl apply_ssl_edit (settings, chosen) edits))"
    using assms by (intro ssl_edits.run_inv) simp
  moreover have "\<not> is_ssl_off (apply_postgresql_host s rawHost chosen)"
    if "prefix ''https://'' (to_lower (trim rawHost))" for s
    using that by (auto simp: apply_postgresql_host_def ssl_mode_of_host_def is_ssl_off_applied Let_def)
      (simp add: is_ssl_off_def fld_set_field)
  ultimately show ?thesis by blast
qed

lemma certificates_and_https_need_ssl_witness:
  "certificates_need_ssl (fst (foldl apply_ssl_edit
     ([(''sslMode'', JStr ''require''), (''sslClientCert'', JStr ''c'')], False) [EditHost ''localhost'']))"
  using certificates_and_https_need_ssl
    [of "[(''sslMode'', JStr ''require''), (''sslClientCert'', JStr ''c'')]" False "[EditHost ''localhost'']"]
  by (simp add: certificates_need_ssl_def is_ssl_off_def fld_def)

text \<open>The scheme is recognised in any case but taken off in lower case only: a host typed with an upper
  case scheme turns SSL on and keeps the scheme in the host.\<close>

lemma upper_case_scheme_stays:
  "ssl_mode_of_host ''HTTPS://db'' = Some SslRequire \<and> strip_host_scheme ''HTTPS://db'' = ''HTTPS://db''"
  by code_simp

end
