(* ===== verification/Connection_Test.thy ===== *)
theory Connection_Test
  imports Connections Resources
begin

text \<open>
  The test of a database connection (\<open>features/database-connection/model/useDatabaseConnectionTest.ts\<close>):
  a change of the connection withdraws the test, and an answer counts only for the session, the
  settings and the test it was asked under. The form keeps the draft and offers to save only a tested
  one. \<open>testConnection\<close> is cut at its await.
\<close>

section \<open>The hook\<close>

record database_test_result =
  dt_isConnected :: bool
  dt_reason :: "connection_error_code option"
  dt_error :: "string option"

datatype 'e test_failure = FailedResult database_test_result | FailedRequest 'e

record 'e connection_test =
  ct_isTesting :: bool
  ct_isTested :: bool
  ct_failure :: "'e test_failure option"
  ct_contextRevision :: request_revision
  ct_settingsRevision :: request_revision
  ct_testRevision :: request_revision
  ct_isTestActive :: bool
  ct_succeeded :: nat

definition new_connection_test :: "'e connection_test" where
  "new_connection_test = \<lparr>ct_isTesting = False, ct_isTested = False, ct_failure = None,
     ct_contextRevision = new_revision, ct_settingsRevision = new_revision,
     ct_testRevision = new_revision, ct_isTestActive = False, ct_succeeded = 0\<rparr>"

definition withdraw_test :: "'e connection_test \<Rightarrow> 'e connection_test" where
  "withdraw_test s = s\<lparr>ct_testRevision := snd (invalidate (ct_testRevision s)),
     ct_isTestActive := False, ct_isTesting := False, ct_isTested := False, ct_failure := None\<rparr>"

definition change_connection :: "'e connection_test \<Rightarrow> 'e connection_test" where
  "change_connection s =
     withdraw_test (s\<lparr>ct_settingsRevision := snd (invalidate (ct_settingsRevision s))\<rparr>)"

text \<open>What \<open>testConnection\<close> captured, with the target it sent.\<close>

record 'c connection_token =
  kt_context :: nat
  kt_settings :: nat
  kt_test :: nat
  kt_target :: 'c

definition start_connection_test ::
    "'c \<Rightarrow> 'e connection_test \<Rightarrow> 'c connection_token option \<times> 'e connection_test" where
  "start_connection_test target s =
     (if ct_isTestActive s then (None, s)
      else let (testRevision, r) = invalidate (ct_testRevision s)
           in (Some \<lparr>kt_context = get_current (ct_contextRevision s),
                     kt_settings = get_current (ct_settingsRevision s), kt_test = testRevision,
                     kt_target = target\<rparr>,
               s\<lparr>ct_testRevision := r, ct_isTestActive := True, ct_isTesting := True, ct_failure := None\<rparr>))"

definition connection_test_is_current :: "bool \<Rightarrow> 'c connection_token \<Rightarrow> 'e connection_test \<Rightarrow> bool" where
  "connection_test_is_current cur tok s \<longleftrightarrow> cur
     \<and> is_current_revision (ct_contextRevision s) (kt_context tok)
     \<and> is_current_revision (ct_settingsRevision s) (kt_settings tok)
     \<and> is_current_revision (ct_testRevision s) (kt_test tok)"

definition end_connection_test :: "'c connection_token \<Rightarrow> 'e connection_test \<Rightarrow> 'e connection_test" where
  "end_connection_test tok s =
     (if is_current_revision (ct_testRevision s) (kt_test tok)
      then s\<lparr>ct_isTestActive := False, ct_isTesting := False\<rparr> else s)"

definition settle_connection_test ::
    "bool \<Rightarrow> 'c connection_token \<Rightarrow> 'e + database_test_result \<Rightarrow> 'e connection_test \<Rightarrow> 'e connection_test" where
  "settle_connection_test cur tok answer s =
     (let s1 = (if \<not> connection_test_is_current cur tok s then s
                else case answer of
                  Inr testResult \<Rightarrow>
                    if dt_isConnected testResult
                    then s\<lparr>ct_isTested := True, ct_succeeded := ct_succeeded s + 1\<rparr>
                    else s\<lparr>ct_failure := Some (FailedResult testResult)\<rparr>
                | Inl e \<Rightarrow> s\<lparr>ct_failure := Some (FailedRequest e)\<rparr>)
      in end_connection_test tok s1)"

definition cancel_for_new_session :: "'e connection_test \<Rightarrow> 'e connection_test" where
  "cancel_for_new_session s =
     withdraw_test (s\<lparr>ct_contextRevision := snd (invalidate (ct_contextRevision s))\<rparr>)"

definition unmount_connection_test :: "'e connection_test \<Rightarrow> 'e connection_test" where
  "unmount_connection_test s = s\<lparr>ct_contextRevision := snd (invalidate (ct_contextRevision s)),
     ct_testRevision := snd (invalidate (ct_testRevision s)), ct_isTestActive := False\<rparr>"

text \<open>The form offers to submit a draft once it was tested; a restore target is not tested, its restore
  reports what fails. Submitting needs a filled draft.\<close>

definition offers_submit :: "connection_draft \<Rightarrow> 'e connection_test \<Rightarrow> bool" where
  "offers_submit draft s \<longleftrightarrow>
     (to_database_settings_target draft = None \<or> ct_isTested s) \<and> is_connection_draft_filled draft"

section \<open>Runs\<close>

text \<open>The form with the requests on their way. \<open>'c\<close> is the part of the draft a connection depends on, and
  \<open>cr_connected\<close> collects the targets a test connected to.\<close>

record ('c, 'e) connection_run =
  cr_test :: "'e connection_test"
  cr_connection :: 'c
  cr_pending :: "'c connection_token list"
  cr_connected :: "'c list"
  cr_mounted :: bool

inductive connection_step :: "('c, 'e) connection_run \<Rightarrow> ('c, 'e) connection_run \<Rightarrow> bool" where
  changed: "connection_step r (r\<lparr>cr_test := change_connection (cr_test r), cr_connection := c\<rparr>)"
| started: "start_connection_test (cr_connection r) (cr_test r) = (Some tok, s) \<Longrightarrow>
    connection_step r (r\<lparr>cr_test := s, cr_pending := tok # cr_pending r\<rparr>)"
| answered: "tok \<in> set (cr_pending r) \<Longrightarrow>
    connection_step r (r\<lparr>cr_test := settle_connection_test cur tok (Inr result) (cr_test r),
      cr_pending := removeAll tok (cr_pending r),
      cr_connected := (if dt_isConnected result then kt_target tok # cr_connected r else cr_connected r)\<rparr>)"
| failed: "tok \<in> set (cr_pending r) \<Longrightarrow>
    connection_step r (r\<lparr>cr_test := settle_connection_test cur tok (Inl e) (cr_test r),
      cr_pending := removeAll tok (cr_pending r)\<rparr>)"
| new_session: "connection_step r (r\<lparr>cr_test := cancel_for_new_session (cr_test r)\<rparr>)"
| unmounted: "connection_step r (r\<lparr>cr_test := unmount_connection_test (cr_test r), cr_mounted := False\<rparr>)"

inductive connection_reachable :: "('c, 'e) connection_run \<Rightarrow> bool" where
  fresh: "connection_reachable \<lparr>cr_test = new_connection_test, cr_connection = c, cr_pending = [],
    cr_connected = [], cr_mounted = True\<rparr>"
| next_step: "connection_reachable r \<Longrightarrow> connection_step r r' \<Longrightarrow> connection_reachable r'"

abbreviation settings_current :: "'e connection_test \<Rightarrow> 'c connection_token \<Rightarrow> bool" where
  "settings_current s tok \<equiv> is_current_revision (ct_settingsRevision s) (kt_settings tok)"

definition connection_inv :: "('c, 'e) connection_run \<Rightarrow> bool" where
  "connection_inv r \<longleftrightarrow> (let s = cr_test r in
     (ct_isTested s \<longrightarrow> cr_connection r \<in> set (cr_connected r))
     \<and> (\<forall>tok\<in>set (cr_pending r). kt_settings tok \<le> rr_revision (ct_settingsRevision s)
          \<and> (settings_current s tok \<longrightarrow> kt_target tok = cr_connection r))
     \<and> (cr_mounted r \<and> ct_isTesting s \<longrightarrow>
          (\<exists>tok\<in>set (cr_pending r). is_current_revision (ct_testRevision s) (kt_test tok))))"

lemmas connection_defs = new_connection_test_def withdraw_test_def change_connection_def
  start_connection_test_def end_connection_test_def settle_connection_test_def
  cancel_for_new_session_def unmount_connection_test_def connection_test_is_current_def
  is_current_revision_def get_current_def Let_def case_prod_unfold

lemma settled_test_fields:
  "ct_settingsRevision (settle_connection_test cur tok a s) = ct_settingsRevision s"
  "ct_testRevision (settle_connection_test cur tok a s) = ct_testRevision s"
  "ct_isTesting (settle_connection_test cur tok a s) =
    (ct_isTesting s \<and> \<not> is_current_revision (ct_testRevision s) (kt_test tok))"
  by (cases a; simp add: settle_connection_test_def end_connection_test_def Let_def)+

lemma settled_tested:
  "ct_isTested (settle_connection_test cur tok a s) \<Longrightarrow> ct_isTested s
    \<or> (\<exists>res. a = Inr res \<and> dt_isConnected res \<and> settings_current s tok)"
  by (cases a) (auto simp: settle_connection_test_def end_connection_test_def connection_test_is_current_def
      Let_def split: if_splits)

lemma connection_inv_step: "connection_step r r' \<Longrightarrow> connection_inv r \<Longrightarrow> connection_inv r'"
proof (induction rule: connection_step.induct)
  case (changed r c)
  then show ?case by (fastforce simp: connection_inv_def connection_defs)
next
  case (started r tok s)
  then show ?case by (auto simp: connection_inv_def connection_defs split: if_splits)
next
  case (answered tok r result cur)
  then show ?case
    using settled_tested [of cur tok "Inr result" "cr_test r"]
    by (auto simp: connection_inv_def settled_test_fields is_current_revision_def Let_def)
next
  case (failed tok r cur e)
  then show ?case
    using settled_tested [of cur tok "Inl e" "cr_test r"]
    by (auto simp: connection_inv_def settled_test_fields is_current_revision_def Let_def)
next
  case (new_session r)
  then show ?case by (simp add: connection_inv_def connection_defs)
next
  case (unmounted r)
  then show ?case by (simp add: connection_inv_def connection_defs)
qed

lemma connection_reachable_inv: "connection_reachable r \<Longrightarrow> connection_inv r"
proof (induction rule: connection_reachable.induct)
  case (fresh c)
  then show ?case by (simp add: connection_inv_def connection_defs)
next
  case (next_step r r')
  then show ?case by (simp add: connection_inv_step)
qed

text \<open>C9: The form calls a connection tested only when a test connected to exactly the connection it
  shows: however edits, tests, sign-ins and late answers interleave, the result of another connection
  never counts, and while it shows a running test, the answer that ends it is on its way.\<close>

theorem tested_connection_did_connect:
  assumes "connection_reachable r"
  shows "(ct_isTested (cr_test r) \<longrightarrow> cr_connection r \<in> set (cr_connected r))
    \<and> (cr_mounted r \<and> ct_isTesting (cr_test r) \<longrightarrow>
        (\<exists>tok\<in>set (cr_pending r). \<forall>cur a. \<not> ct_isTesting (settle_connection_test cur tok a (cr_test r))))"
  using connection_reachable_inv [OF assms]
  by (auto simp: connection_inv_def settled_test_fields Let_def)

definition tested_run :: "(nat, nat) connection_run" where
  "tested_run = \<lparr>cr_test = settle_connection_test True
       \<lparr>kt_context = 0, kt_settings = 0, kt_test = 1, kt_target = (7::nat)\<rparr>
       (Inr \<lparr>dt_isConnected = True, dt_reason = None, dt_error = None\<rparr>)
       (snd (start_connection_test (7::nat) new_connection_test)),
     cr_connection = 7, cr_pending = [], cr_connected = [7], cr_mounted = True\<rparr>"

lemma tested_run_reachable: "connection_reachable tested_run"
proof -
  let ?tok = "\<lparr>kt_context = 0, kt_settings = 0, kt_test = 1, kt_target = 7\<rparr> :: nat connection_token"
  let ?r = "\<lparr>cr_test = new_connection_test, cr_connection = 7, cr_pending = [], cr_connected = [],
      cr_mounted = True\<rparr> :: (nat, nat) connection_run"
  have "start_connection_test 7 (new_connection_test :: nat connection_test) =
      (Some ?tok, snd (start_connection_test 7 (new_connection_test :: nat connection_test)))"
    by (simp add: connection_defs new_revision_def invalidate_def)
  then have "connection_step ?r (?r\<lparr>cr_test := snd (start_connection_test 7 new_connection_test),
      cr_pending := [?tok]\<rparr>)"
    using started [of ?r ?tok] by simp
  from next_step [OF fresh this]
  have "connection_reachable (?r\<lparr>cr_test := snd (start_connection_test 7 new_connection_test),
      cr_pending := [?tok]\<rparr>)" .
  from next_step [OF this answered [where tok = ?tok and cur = True
        and result = "\<lparr>dt_isConnected = True, dt_reason = None, dt_error = None\<rparr>"]]
  show ?thesis by (simp add: tested_run_def)
qed

lemma tested_connection_did_connect_witness: "cr_connection tested_run \<in> set (cr_connected tested_run)"
proof -
  have "ct_isTested (cr_test tested_run)"
    by (simp add: tested_run_def connection_defs new_revision_def invalidate_def)
  then show ?thesis using tested_connection_did_connect [OF tested_run_reachable] by blast
qed

end
