(* ===== verification/Json_Text.thy ===== *)
theory Json_Text
  imports Form_Fields Js_Text
begin

text \<open>
  \<open>JSON.stringify\<close> and \<open>JSON.parse\<close> of the JavaScript standard library, which the frontend uses to keep
  values in the browser's storages and to read answers. The writer takes \<open>show_number\<close>, the text of a
  number that is no integer of at most 21 digits. The reader has fuel, one unit for each nested value or
  member; \<open>json_fuel_enough\<close> shows that twice the length of the text and two more are enough. A text is its UTF-8 bytes, and
  a lone surrogate escape is the three bytes of its code unit.
\<close>

section \<open>Writing\<close>

fun nat_digits :: "nat \<Rightarrow> string" where
  "nat_digits n = (if n < 10 then [byte (48 + n)] else nat_digits (n div 10) @ [byte (48 + n mod 10)])"

declare nat_digits.simps [simp del]

definition int_text :: "int \<Rightarrow> string" where
  "int_text n = (if n < 0 then CHR ''-'' # nat_digits (nat (- n)) else nat_digits (nat n))"

definition plain_number :: "number \<Rightarrow> bool" where
  "plain_number n \<longleftrightarrow> of_int \<lfloor>n\<rfloor> = n \<and> \<bar>n\<bar> < 10 ^ 21"

definition number_text :: "(number \<Rightarrow> string) \<Rightarrow> number \<Rightarrow> string" where
  "number_text show_number n = (if plain_number n then int_text \<lfloor>n\<rfloor> else show_number n)"

definition hex_lower :: "nat \<Rightarrow> char" where
  "hex_lower n = (if n < 10 then byte (48 + n) else byte (87 + n))"

definition backslash :: char where "backslash = CHR 0x5C"

definition escape_json_char :: "char \<Rightarrow> string" where
  "escape_json_char c = (let n = of_char c :: nat in
     if n = 34 then [backslash, dquote]
     else if n = 92 then [backslash, backslash]
     else if n = 8 then [backslash, CHR ''b'']
     else if n = 9 then [backslash, CHR ''t'']
     else if n = 10 then [backslash, CHR ''n'']
     else if n = 12 then [backslash, CHR ''f'']
     else if n = 13 then [backslash, CHR ''r'']
     else if n < 32 then [backslash, CHR ''u'', CHR ''0'', CHR ''0'', hex_lower (n div 16), hex_lower (n mod 16)]
     else [c])"

definition json_string :: "string \<Rightarrow> string" where
  "json_string s = dquote # concat (map escape_json_char s) @ [dquote]"

fun comma_join :: "string list \<Rightarrow> string" where
  "comma_join [] = []"
| "comma_join [s] = s"
| "comma_join (s # t # ts) = s @ CHR '','' # comma_join (t # ts)"

fun json_write :: "(number \<Rightarrow> string) \<Rightarrow> jsval \<Rightarrow> string" where
  "json_write sn JUndefined = ''null''"
| "json_write sn JNull = ''null''"
| "json_write sn (JBool b) = (if b then ''true'' else ''false'')"
| "json_write sn (JNum n) = number_text sn n"
| "json_write sn (JStr s) = json_string s"
| "json_write sn (JArr xs) = CHR ''['' # comma_join (map (json_write sn) xs) @ '']''"
| "json_write sn (JObj fs) =
     CHR ''{'' # comma_join (map (\<lambda>(k, v). json_string k @ CHR '':'' # json_write sn v) fs) @ ''}''"

text \<open>\<open>JSON.stringify\<close>: undefined has no text, a field without a value is left out.\<close>

definition json_stringify :: "(number \<Rightarrow> string) \<Rightarrow> jsval \<Rightarrow> string option" where
  "json_stringify sn v = (if v = JUndefined then None else Some (json_write sn (plain v)))"

section \<open>Reading\<close>

definition json_space :: "char \<Rightarrow> bool" where
  "json_space c \<longleftrightarrow> of_char c \<in> {9, 10, 13, 32 :: nat}"

definition skip_space :: "string \<Rightarrow> string" where
  "skip_space s = dropWhile json_space s"

definition utf8 :: "nat \<Rightarrow> string" where
  "utf8 u = (if u < 128 then [byte u]
     else if u < 2048 then [byte (192 + u div 64), byte (128 + u mod 64)]
     else if u < 65536 then [byte (224 + u div 4096), byte (128 + u div 64 mod 64), byte (128 + u mod 64)]
     else [byte (240 + u div 262144), byte (128 + u div 4096 mod 64), byte (128 + u div 64 mod 64),
           byte (128 + u mod 64)])"

text \<open>The four hexadecimal digits after \<open>\u\<close>, and a second escape that completes a surrogate pair.\<close>

definition hex4 :: "string \<Rightarrow> nat option" where
  "hex4 s = (case s of a # b # c # d # _ \<Rightarrow>
       (case (hex_value a, hex_value b, hex_value c, hex_value d) of
          (Some w, Some x, Some y, Some z) \<Rightarrow> Some (4096 * w + 256 * x + 16 * y + z) | _ \<Rightarrow> None)
     | _ \<Rightarrow> None)"

definition low_surrogate :: "string \<Rightarrow> nat option" where
  "low_surrogate s = (case s of b # u # t \<Rightarrow>
       if b = backslash \<and> u = CHR ''u'' then
         (case hex4 t of Some n \<Rightarrow> if 56320 \<le> n \<and> n < 57344 then Some n else None | None \<Rightarrow> None)
       else None
     | _ \<Rightarrow> None)"

definition unicode_escape :: "string \<Rightarrow> (string \<times> string) option" where
  "unicode_escape s = (case hex4 s of
       None \<Rightarrow> None
     | Some n \<Rightarrow>
         (if 55296 \<le> n \<and> n < 56320 then
            (case low_surrogate (drop 4 s) of
               Some m \<Rightarrow> Some (utf8 (65536 + (n - 55296) * 1024 + (m - 56320)), drop 10 s)
             | None \<Rightarrow> Some (utf8 n, drop 4 s))
          else Some (utf8 n, drop 4 s)))"

definition simple_escape :: "char \<Rightarrow> char option" where
  "simple_escape c = map_of [(dquote, dquote), (backslash, backslash), (CHR ''/'', CHR ''/''),
     (CHR ''b'', byte 8), (CHR ''f'', byte 12), (CHR ''n'', byte 10), (CHR ''r'', byte 13),
     (CHR ''t'', byte 9)] c"

lemma unicode_escape_shorter: "unicode_escape s = Some (d, t) \<Longrightarrow> length t \<le> length s"
  by (auto simp: unicode_escape_def split: option.splits if_splits)

text \<open>A string after its opening quote.\<close>

function read_string :: "string \<Rightarrow> (string \<times> string) option" where
  "read_string s = (case s of
       [] \<Rightarrow> None
     | c # t \<Rightarrow>
         if c = dquote then Some ([], t)
         else if c = backslash then
           (case t of
              [] \<Rightarrow> None
            | e # u \<Rightarrow>
                (case simple_escape e of
                   Some d \<Rightarrow> map_option (apfst ((#) d)) (read_string u)
                 | None \<Rightarrow>
                     (if e = CHR ''u'' then
                        (case unicode_escape u of
                           Some (d, w) \<Rightarrow> map_option (apfst ((@) d)) (read_string w)
                         | None \<Rightarrow> None)
                      else None)))
         else if (of_char c :: nat) < 32 then None
         else map_option (apfst ((#) c)) (read_string t))"
  by pat_completeness auto

termination read_string
  by (relation "measure length") (auto dest!: unicode_escape_shorter)

declare read_string.simps [simp del]

definition read_fraction :: "string \<Rightarrow> (number \<times> string) option" where
  "read_fraction s = (case s of
       [] \<Rightarrow> Some (0, [])
     | c # t \<Rightarrow>
         if c = CHR ''.'' then
           (let ds = takeWhile is_digit t in
            if ds = [] then None
            else Some (of_int (digits_value ds) / 10 ^ length ds, dropWhile is_digit t))
         else Some (0, s))"

definition read_exponent :: "string \<Rightarrow> (number \<times> string) option" where
  "read_exponent s = (case s of
       [] \<Rightarrow> Some (1, [])
     | c # t \<Rightarrow>
         if c \<in> set ''eE'' then
           (let (negative, u) = (case t of d # v \<Rightarrow> if d = CHR ''-'' then (True, v)
                                   else if d = CHR ''+'' then (False, v) else (False, t)
                                 | [] \<Rightarrow> (False, []));
                ds = takeWhile is_digit u;
                p = 10 ^ nat (digits_value ds)
            in if ds = [] then None
               else Some (if negative then 1 / p else p, dropWhile is_digit u))
         else Some (1, s))"

text \<open>A number does not go on after a leading zero.\<close>

definition whole_part :: "string \<Rightarrow> string" where
  "whole_part ds = (if ds \<noteq> [] \<and> hd ds = CHR ''0'' then ''0'' else ds)"

definition read_number :: "string \<Rightarrow> (number \<times> string) option" where
  "read_number s =
     (let (negative, s1) = (case s of c # t \<Rightarrow> if c = CHR ''-'' then (True, t) else (False, s)
                            | [] \<Rightarrow> (False, []));
          ds = takeWhile is_digit s1;
          whole = whole_part ds
      in if ds = [] then None
         else case read_fraction (drop (length whole) s1) of
           None \<Rightarrow> None
         | Some (f, s3) \<Rightarrow>
             (case read_exponent s3 of
                None \<Rightarrow> None
              | Some (p, s4) \<Rightarrow>
                  Some ((if negative then - 1 else 1) * (of_int (digits_value whole) + f) * p, s4)))"

definition read_word :: "string \<Rightarrow> (jsval \<times> string) option" where
  "read_word s =
     (if prefix ''null'' s then Some (JNull, drop 4 s)
      else if prefix ''true'' s then Some (JBool True, drop 4 s)
      else if prefix ''false'' s then Some (JBool False, drop 5 s)
      else map_option (apfst JNum) (read_number s))"

text \<open>A field given twice keeps its place and takes the later value.\<close>

definition object_of :: "fields \<Rightarrow> jsval" where
  "object_of ms = JObj (foldl (\<lambda>fs (k, v). set_field k v fs) [] ms)"

fun read_json :: "nat \<Rightarrow> string \<Rightarrow> (jsval \<times> string) option"
  and read_elements :: "nat \<Rightarrow> string \<Rightarrow> (jsval list \<times> string) option"
  and read_members :: "nat \<Rightarrow> string \<Rightarrow> (fields \<times> string) option" where
  "read_json 0 s = None"
| "read_json (Suc n) s = (case skip_space s of
       [] \<Rightarrow> None
     | c # t \<Rightarrow>
         if c = dquote then map_option (apfst JStr) (read_string t)
         else if c = CHR ''{'' then
           (if prefix ''}'' (skip_space t) then Some (JObj [], tl (skip_space t))
            else map_option (apfst object_of) (read_members n t))
         else if c = CHR ''['' then
           (if prefix '']'' (skip_space t) then Some (JArr [], tl (skip_space t))
            else map_option (apfst JArr) (read_elements n t))
         else read_word (c # t))"
| "read_elements 0 s = None"
| "read_elements (Suc n) s = (case read_json n s of
       None \<Rightarrow> None
     | Some (v, t) \<Rightarrow>
         (case skip_space t of
            [] \<Rightarrow> None
          | c # u \<Rightarrow>
              if c = CHR '','' then map_option (apfst ((#) v)) (read_elements n u)
              else if c = CHR '']'' then Some ([v], u) else None))"
| "read_members 0 s = None"
| "read_members (Suc n) s = (case skip_space s of
       [] \<Rightarrow> None
     | q # t \<Rightarrow>
         if q \<noteq> dquote then None
         else (case read_string t of
            None \<Rightarrow> None
          | Some (k, u) \<Rightarrow>
              (case skip_space u of
                 [] \<Rightarrow> None
               | c # w \<Rightarrow>
                   if c \<noteq> CHR '':'' then None
                   else (case read_json n w of
                      None \<Rightarrow> None
                    | Some (v, x) \<Rightarrow>
                        (case skip_space x of
                           [] \<Rightarrow> None
                         | d # y \<Rightarrow>
                             if d = CHR '','' then map_option (apfst ((#) (k, v))) (read_members n y)
                             else if d = CHR ''}'' then Some ([(k, v)], y) else None)))))"

text \<open>\<open>JSON.parse\<close>; \<open>None\<close> stands for the exception it throws.\<close>

definition json_parse :: "string \<Rightarrow> jsval option" where
  "json_parse s = (case read_json (2 * length s + 2) s of
       Some (v, t) \<Rightarrow> if skip_space t = [] then Some v else None
     | None \<Rightarrow> None)"

section \<open>Fuel\<close>

lemma skip_space_le: "length (skip_space s) \<le> length s"
  by (simp add: skip_space_def length_dropWhile_le)

lemma skip_space_Cons: "skip_space s = c # t \<Longrightarrow> Suc (length t) \<le> length s"
  using skip_space_le [of s] by simp

lemma read_string_step:
  assumes "read_string s = Some (v, t)"
  shows "s = dquote # t \<or> (\<exists>w v'. length w < length s \<and> read_string w = Some (v', t))"
proof (cases s)
  case Nil
  with assms show ?thesis by (simp add: read_string.simps)
next
  case (Cons c u)
  show ?thesis
  proof (cases "c = backslash \<and> c \<noteq> dquote")
    case False
    with assms Cons show ?thesis by (subst (asm) read_string.simps) (auto split: if_splits)
  next
    case True
    then obtain e w where u: "u = e # w"
      using assms Cons by (subst (asm) read_string.simps) (auto split: list.splits)
    show ?thesis
    proof (cases "simple_escape e")
      case (Some d)
      with assms Cons True u have "\<exists>v'. read_string w = Some (v', t)"
        by (subst (asm) read_string.simps) (auto split: if_splits)
      moreover have "length w < length s" using Cons u by simp
      ultimately show ?thesis by blast
    next
      case None
      with assms Cons True u obtain d x where x: "unicode_escape w = Some (d, x)"
          "\<exists>v'. read_string x = Some (v', t)"
        by (subst (asm) read_string.simps) (auto split: if_splits option.splits)
      then have "length x < length s" using unicode_escape_shorter [OF x(1)] Cons u by simp
      with x(2) show ?thesis by blast
    qed
  qed
qed

lemma read_string_le: "read_string s = Some (v, t) \<Longrightarrow> length t \<le> length s"
proof (induction "length s" arbitrary: s v rule: less_induct)
  case less
  from read_string_step [OF less.prems] show ?case
  proof
    assume "\<exists>w v'. length w < length s \<and> read_string w = Some (v', t)"
    then obtain w v' where w: "length w < length s" "read_string w = Some (v', t)" by blast
    from less.hyps [OF this] w(1) show ?thesis by simp
  qed simp
qed

lemma read_fraction_le: "read_fraction s = Some (f, t) \<Longrightarrow> length t \<le> length s"
  using length_dropWhile_le [of is_digit "tl s"]
  by (auto simp: read_fraction_def Let_def split: list.splits if_splits)

lemma read_exponent_le: "read_exponent s = Some (f, t) \<Longrightarrow> length t \<le> length s"
  using length_dropWhile_le [of is_digit "tl s"] length_dropWhile_le [of is_digit "tl (tl s)"]
  by (auto simp: read_exponent_def Let_def split: list.splits if_splits prod.splits)

lemma read_number_le: "read_number s = Some (f, t) \<Longrightarrow> length t \<le> length s"
  by (auto simp: read_number_def Let_def split: list.splits if_splits option.splits prod.splits
      dest!: read_fraction_le read_exponent_le)

lemma read_word_le: "read_word s = Some (v, t) \<Longrightarrow> length t \<le> length s"
  by (auto simp: read_word_def dest: read_number_le split: if_splits)

lemma read_le:
  "read_json n s = Some (v, t) \<Longrightarrow> length t \<le> length s"
  "read_elements n s = Some (vs, t) \<Longrightarrow> length t \<le> length s"
  "read_members n s = Some (ms, t) \<Longrightarrow> length t \<le> length s"
proof (induction n arbitrary: s v vs ms t)
  case 0
  { case 1 then show ?case by simp }
  { case 2 then show ?case by simp }
  { case 3 then show ?case by simp }
next
  case (Suc n)
  { case 1
    then obtain c u where u: "skip_space s = c # u" by (auto split: list.splits)
    from 1 u have "(\<exists>w. read_string u = Some (w, t)) \<or> t = tl (skip_space u)
        \<or> (\<exists>vs. read_elements n u = Some (vs, t)) \<or> (\<exists>ms. read_members n u = Some (ms, t))
        \<or> read_word (c # u) = Some (v, t)"
      by (simp only: read_json.simps list.case) (auto split: if_splits)
    then have "length t \<le> length (c # u)"
      using skip_space_le [of u] read_word_le [of "c # u" v t]
      by (elim disjE exE) (auto dest: read_string_le Suc.IH(2) Suc.IH(3))
    then show ?case using skip_space_Cons [OF u] by simp }
  { case 2
    then show ?case
      by (auto split: list.splits if_splits option.splits dest!: Suc.IH skip_space_Cons) }
  { case 3
    then show ?case
      by (auto split: list.splits if_splits option.splits dest!: Suc.IH skip_space_Cons read_string_le) }
qed

lemma fuel_irrelevant:
  "2 * length s < n \<Longrightarrow> 2 * length s < m \<Longrightarrow> read_json n s = read_json m s"
  "2 * length s + 1 < n \<Longrightarrow> 2 * length s + 1 < m \<Longrightarrow> read_elements n s = read_elements m s"
  "2 * length s + 1 < n \<Longrightarrow> 2 * length s + 1 < m \<Longrightarrow> read_members n s = read_members m s"
proof (induction n arbitrary: s m)
  case 0
  { case 1 then show ?case by simp }
  { case 2 then show ?case by simp }
  { case 3 then show ?case by simp }
next
  case (Suc n)
  { case 1
    then obtain k where k: "m = Suc k" by (cases m) auto
    show ?case
    proof (cases "skip_space s")
      case (Cons c u)
      have "2 * length u + 1 < n" "2 * length u + 1 < k"
        using 1 k skip_space_Cons [OF Cons] by simp_all
      then have "read_elements n u = read_elements k u" "read_members n u = read_members k u"
        by (rule Suc.IH)+
      with Cons k show ?thesis by simp
    qed (simp add: k) }
  { case 2
    then obtain k where k: "m = Suc k" by (cases m) auto
    from 2 k have "read_json n s = read_json k s" by (intro Suc.IH(1)) simp_all
    moreover have "read_elements n u = read_elements k u"
      if "read_json k s = Some (v, t)" "skip_space t = c # u" for v t c u
      using read_le(1) [OF that(1)] skip_space_Cons [OF that(2)] 2 k by (intro Suc.IH(2)) simp_all
    ultimately show ?case by (auto simp: k split: option.splits list.splits) }
  { case 3
    then obtain k where k: "m = Suc k" by (cases m) auto
    show ?case
    proof (cases "skip_space s")
      case q: (Cons q t)
      have "read_json n w = read_json k w \<and>
          (\<forall>v x d y. read_json k w = Some (v, x) \<and> skip_space x = d # y \<longrightarrow> read_members n y = read_members k y)"
        if "read_string t = Some (j, u)" "skip_space u = c # w" for j u c w
      proof -
        have w: "2 * length w + 1 < n" "2 * length w + 1 < k"
          using read_string_le [OF that(1)] skip_space_Cons [OF that(2)] skip_space_Cons [OF q] 3 k by simp_all
        then have "read_json n w = read_json k w" by (intro Suc.IH(1)) simp_all
        moreover have "read_members n y = read_members k y"
          if "read_json k w = Some (v, x)" "skip_space x = d # y" for v x d y
          using read_le(1) [OF that(1)] skip_space_Cons [OF that(2)] w by (intro Suc.IH(3)) simp_all
        ultimately show ?thesis by blast
      qed
      with q show ?thesis by (simp add: k split: option.splits list.splits)
    qed (simp add: k) }
qed

lemma json_fuel_enough: "2 * length s < n \<Longrightarrow>
    json_parse s = (case read_json n s of Some (v, t) \<Rightarrow> if skip_space t = [] then Some v else None | None \<Rightarrow> None)"
  using fuel_irrelevant(1) [of s "2 * length s + 2" n] by (simp add: json_parse_def)

section \<open>What is written is read back\<close>

lemma of_char_byte: "n < 256 \<Longrightarrow> (of_char (byte n) :: nat) = n"
  by simp

lemma is_digit_byte: "n < 10 \<Longrightarrow> is_digit (byte (48 + n))"
  by (simp add: is_digit_def)

lemma nat_digits_digits: "list_all is_digit (nat_digits n)"
proof (induction n rule: nat_digits.induct)
  case (1 n)
  then show ?case
    by (subst nat_digits.simps) (simp add: is_digit_byte)
qed

lemma nat_digits_nonempty: "nat_digits n \<noteq> []"
  by (subst nat_digits.simps) simp

lemma digits_value_append: "digits_value (ds @ [c]) = digits_value ds * 10 + (int (of_char c) - 48)"
  by (simp add: digits_value_def)

lemma digits_value_nat_digits: "digits_value (nat_digits n) = int n"
proof (induction n rule: nat_digits.induct)
  case (1 n)
  show ?case
  proof (cases "n < 10")
    case True
    then show ?thesis by (subst nat_digits.simps) (simp add: digits_value_def)
  next
    case False
    have "int (n div 10) * 10 + int (n mod 10) = int n"
      by (metis div_mult_mod_eq of_nat_add of_nat_mult of_nat_numeral)
    with 1 [OF False] False show ?thesis
      by (subst nat_digits.simps) (simp add: digits_value_append)
  qed
qed

lemma nat_digits_zero_head: "n \<noteq> 0 \<Longrightarrow> hd (nat_digits n) \<noteq> CHR ''0''"
proof (induction n rule: nat_digits.induct)
  case (1 n)
  show ?case
  proof (cases "n < 10")
    case True
    have "(of_char (byte (48 + n)) :: nat) \<noteq> of_char (CHR ''0'')" using True 1(2) by simp
    then have "byte (48 + n) \<noteq> CHR ''0''" by metis
    then show ?thesis using True by (subst nat_digits.simps) simp
  next
    case False
    then have "n div 10 \<noteq> 0" by auto
    with 1(1) [OF False] have "hd (nat_digits (n div 10)) \<noteq> CHR ''0''" by blast
    then show ?thesis using False by (subst nat_digits.simps) (simp add: hd_append nat_digits_nonempty)
  qed
qed

lemma nat_digits_0: "nat_digits 0 = ''0''"
  by code_simp

definition value_end :: "string \<Rightarrow> bool" where
  "value_end rest \<longleftrightarrow> (case rest of [] \<Rightarrow> True | c # _ \<Rightarrow> c \<in> set '',]}'')"

lemma takeWhile_digits:
  "list_all is_digit ds \<Longrightarrow> value_end rest \<Longrightarrow> takeWhile is_digit (ds @ rest) = ds"
  by (induction ds) (auto simp: value_end_def is_digit_def split: list.splits)

lemma no_fraction: "value_end rest \<Longrightarrow> read_fraction rest = Some (0, rest)"
  by (auto simp: value_end_def read_fraction_def split: list.splits)

lemma no_exponent: "value_end rest \<Longrightarrow> read_exponent rest = Some (1, rest)"
  by (auto simp: value_end_def read_exponent_def split: list.splits)

lemma read_natural:
  "value_end rest \<Longrightarrow> takeWhile is_digit (nat_digits n @ rest) = nat_digits n"
  using nat_digits_digits by (rule takeWhile_digits)

lemma whole_part_digits: "whole_part (nat_digits n) = nat_digits n"
proof (cases "n = 0")
  case True
  then show ?thesis by (simp only: nat_digits_0) (simp add: whole_part_def)
qed (simp add: whole_part_def nat_digits_zero_head)

lemma digits_no_minus: "nat_digits n = c # cs \<Longrightarrow> c \<noteq> CHR ''-''"
  using nat_digits_digits [of n] by (auto simp: is_digit_def)

lemma read_int_text:
  assumes "value_end rest"
  shows "read_number (int_text i @ rest) = Some (of_int i, rest)"
proof (cases "i < 0")
  case True
  then show ?thesis
    using read_natural [OF assms, of "nat (- i)"]
    by (simp add: read_number_def int_text_def Let_def nat_digits_nonempty no_fraction no_exponent assms
        digits_value_nat_digits whole_part_digits)
next
  case False
  obtain c cs where c: "nat_digits (nat i) = c # cs" using nat_digits_nonempty by (metis list.exhaust)
  then have "c \<noteq> CHR ''-''" by (rule digits_no_minus)
  moreover have "(of_nat (nat i) :: number) = of_int i" using False by simp
  ultimately show ?thesis
    using False read_natural [OF assms, of "nat i"] digits_value_nat_digits [of "nat i"]
      whole_part_digits [of "nat i"]
    by (simp add: read_number_def int_text_def Let_def no_fraction no_exponent assms c)
qed

lemma backslash_not_dquote [simp]: "backslash \<noteq> dquote" "dquote \<noteq> backslash"
  by (simp_all add: backslash_def)

lemma read_string_simple:
  "simple_escape e = Some d \<Longrightarrow>
     read_string (backslash # e # t) = map_option (apfst ((#) d)) (read_string t)"
  by (subst read_string.simps) simp

lemma read_string_plain:
  "c \<noteq> dquote \<Longrightarrow> c \<noteq> backslash \<Longrightarrow> 32 \<le> (of_char c :: nat) \<Longrightarrow>
     read_string (c # t) = map_option (apfst ((#) c)) (read_string t)"
  by (subst read_string.simps) simp

lemma hex_value_lower: "k < 16 \<Longrightarrow> hex_value (hex_lower k) = Some k"
  by (auto simp: hex_value_def hex_lower_def Let_def)

lemma char_eq_byte: "(of_char c :: nat) = n \<Longrightarrow> n < 256 \<Longrightarrow> c = byte n"
  by (metis char_of_char)

lemma read_string_control:
  assumes "(of_char c :: nat) < 32"
  shows "read_string ([backslash, CHR ''u'', CHR ''0'', CHR ''0'', hex_lower (of_char c div 16),
      hex_lower (of_char c mod 16)] @ t) = map_option (apfst ((#) c)) (read_string t)"
proof -
  have v: "hex_value CHR ''0'' = Some 0" by code_simp
  have u: "simple_escape CHR ''u'' = None" by code_simp
  have "(of_char c :: nat) div 16 * 16 + of_char c mod 16 = of_char c" by (rule div_mult_mod_eq)
  then have "hex4 (CHR ''0'' # CHR ''0'' # hex_lower (of_char c div 16) # hex_lower (of_char c mod 16) # t)
      = Some (of_char c)"
    using assms by (simp add: hex4_def v hex_value_lower)
  then have "unicode_escape (CHR ''0'' # CHR ''0'' # hex_lower (of_char c div 16)
      # hex_lower (of_char c mod 16) # t) = Some ([c], t)"
    using assms by (simp add: unicode_escape_def utf8_def)
  moreover have "(@) [c] = (#) c" by auto
  ultimately show ?thesis
    by (subst read_string.simps) (simp add: u)
qed

lemma read_escaped_char:
  "read_string (escape_json_char c @ t) = map_option (apfst ((#) c)) (read_string t)"
proof -
  have s: "simple_escape dquote = Some (byte 34)" "simple_escape backslash = Some (byte 92)"
    "simple_escape CHR ''b'' = Some (byte 8)" "simple_escape CHR ''t'' = Some (byte 9)"
    "simple_escape CHR ''n'' = Some (byte 10)" "simple_escape CHR ''f'' = Some (byte 12)"
    "simple_escape CHR ''r'' = Some (byte 13)"
    by code_simp+
  have q: "(of_char dquote :: nat) = 34" "(of_char backslash :: nat) = 92" by code_simp+
  consider "(of_char c :: nat) \<in> {34, 92, 8, 9, 10, 12, 13}"
    | "(of_char c :: nat) \<notin> {34, 92, 8, 9, 10, 12, 13}" "(of_char c :: nat) < 32"
    | "(of_char c :: nat) \<notin> {34, 92, 8, 9, 10, 12, 13}" "32 \<le> (of_char c :: nat)" by linarith
  then show ?thesis
  proof cases
    case 1
    then have "c = byte (of_char c)" by simp
    with 1 show ?thesis
      by (elim insertE emptyE) (simp_all add: escape_json_char_def Let_def read_string_simple s)
  next
    case 2
    then show ?thesis using read_string_control [OF 2(2), of t] by (simp add: escape_json_char_def Let_def)
  next
    case 3
    then have "c \<noteq> dquote" "c \<noteq> backslash" using q by auto
    with 3 show ?thesis by (simp add: escape_json_char_def Let_def read_string_plain)
  qed
qed

lemma read_escaped_string: "read_string (concat (map escape_json_char s) @ dquote # rest) = Some (s, rest)"
proof (induction s)
  case Nil
  show ?case by (simp, subst read_string.simps) simp
next
  case (Cons c s)
  then show ?case by (simp add: read_escaped_char)
qed

text \<open>The values a text can carry: no field without a value, no field twice, numbers that are printed
  exactly.\<close>

fun json_value :: "jsval \<Rightarrow> bool" where
  "json_value JUndefined = False"
| "json_value (JNum n) = plain_number n"
| "json_value (JArr xs) = list_all json_value xs"
| "json_value (JObj fs) = (distinct (map fst fs) \<and> list_all (\<lambda>(k, v). json_value v) fs)"
| "json_value v = True"

lemma set_field_new: "k \<notin> fst ` set fs \<Longrightarrow> set_field k v fs = fs @ [(k, v)]"
  by (induction k v fs rule: set_field.induct) auto

lemma object_of_distinct: "distinct (map fst ms) \<Longrightarrow> object_of ms = JObj ms"
proof -
  assume d: "distinct (map fst ms)"
  have "distinct (map fst (fs @ gs)) \<Longrightarrow> foldl (\<lambda>fs (k, v). set_field k v fs) fs gs = fs @ gs" for fs gs
    by (induction gs arbitrary: fs) (auto simp: set_field_new)
  from this [of "[]" ms] d show ?thesis by (simp add: object_of_def)
qed

definition starts_value :: "string \<Rightarrow> bool" where
  "starts_value s \<longleftrightarrow> s \<noteq> [] \<and> (hd s \<in> set ''-ntf[{'' \<or> hd s = dquote \<or> is_digit (hd s))"

lemma starts_value_facts:
  assumes "starts_value s"
  shows "skip_space (s @ r) = s @ r" "\<not> prefix '']'' (s @ r)" "\<not> prefix ''}'' (s @ r)"
proof -
  obtain c t where c: "s = c # t" using assms by (cases s) (auto simp: starts_value_def)
  have "\<not> json_space c \<and> c \<noteq> CHR '']'' \<and> c \<noteq> CHR ''}''"
    using assms c by (auto simp: starts_value_def json_space_def is_digit_def)
  then show "skip_space (s @ r) = s @ r" "\<not> prefix '']'' (s @ r)" "\<not> prefix ''}'' (s @ r)"
    by (auto simp: c skip_space_def)
qed

lemma int_text_form: "\<exists>c t. int_text i = c # t \<and> (c = CHR ''-'' \<or> is_digit c)"
proof (cases "i < 0")
  case False
  then show ?thesis using nat_digits_digits [of "nat i"] nat_digits_nonempty [of "nat i"]
    by (cases "nat_digits (nat i)") (simp_all add: int_text_def)
qed (simp add: int_text_def)

lemma int_text_starts: "starts_value (int_text i)"
  using int_text_form [of i] by (auto simp: starts_value_def)

lemma write_starts: "json_value v \<Longrightarrow> starts_value (json_write sn v)"
  by (cases v) (auto simp: number_text_def int_text_starts, auto simp: starts_value_def json_string_def)

lemma skip_space_punctuation:
  "skip_space (CHR '','' # s) = CHR '','' # s" "skip_space (CHR '']'' # s) = CHR '']'' # s"
  "skip_space (CHR ''}'' # s) = CHR ''}'' # s" "skip_space (CHR '':'' # s) = CHR '':'' # s"
  "skip_space (CHR ''['' # s) = CHR ''['' # s" "skip_space (CHR ''{'' # s) = CHR ''{'' # s"
  "skip_space (dquote # s) = dquote # s"
  by (simp_all add: skip_space_def json_space_def)

definition reads_back :: "(number \<Rightarrow> string) \<Rightarrow> jsval \<Rightarrow> bool" where
  "reads_back sn v \<longleftrightarrow> (\<forall>n rest. value_end rest \<and> 2 * length (json_write sn v @ rest) < n \<longrightarrow>
     read_json n (json_write sn v @ rest) = Some (v, rest))"

lemma reads_backD:
  "reads_back sn v \<Longrightarrow> value_end rest \<Longrightarrow> 2 * length (json_write sn v @ rest) < n \<Longrightarrow>
     read_json n (json_write sn v @ rest) = Some (v, rest)"
  by (simp add: reads_back_def)

lemma value_end_punctuation:
  "value_end (CHR '','' # s)" "value_end (CHR '']'' # s)" "value_end (CHR ''}'' # s)"
  by (simp_all add: value_end_def)

lemma elements_read_back:
  assumes "xs \<noteq> []" and "list_all (reads_back sn) xs"
    and "2 * length (comma_join (map (json_write sn) xs) @ CHR '']'' # rest) + 1 < n"
  shows "read_elements n (comma_join (map (json_write sn) xs) @ CHR '']'' # rest) = Some (xs, rest)"
  using assms
proof (induction xs arbitrary: n)
  case (Cons x xs)
  then obtain m where m: "n = Suc m" by (cases n) auto
  show ?case
  proof (cases xs)
    case Nil
    have "read_json m (json_write sn x @ CHR '']'' # rest) = Some (x, CHR '']'' # rest)"
      using Cons.prems m Nil by (intro reads_backD value_end_punctuation) simp_all
    then show ?thesis by (simp add: Nil m skip_space_punctuation)
  next
    case (Cons y ys)
    let ?more = "comma_join (map (json_write sn) xs) @ CHR '']'' # rest"
    have "read_json m (json_write sn x @ CHR '','' # ?more) = Some (x, CHR '','' # ?more)"
      using Cons.prems m Cons by (intro reads_backD value_end_punctuation) simp_all
    moreover have "read_elements m ?more = Some (xs, rest)"
      using Cons.prems m Cons by (intro Cons.IH) simp_all
    ultimately show ?thesis using Cons by (simp add: m skip_space_punctuation)
  qed
qed simp

abbreviation member_text :: "(number \<Rightarrow> string) \<Rightarrow> string \<times> jsval \<Rightarrow> string" where
  "member_text sn \<equiv> \<lambda>(k, v). json_string k @ CHR '':'' # json_write sn v"

lemma members_read_back:
  assumes "fs \<noteq> []" and "list_all (\<lambda>(k, v). reads_back sn v) fs"
    and "2 * length (comma_join (map (member_text sn) fs) @ CHR ''}'' # rest) + 1 < n"
  shows "read_members n (comma_join (map (member_text sn) fs) @ CHR ''}'' # rest) = Some (fs, rest)"
  using assms
proof (induction fs arbitrary: n)
  case (Cons f fs)
  obtain k v where f: "f = (k, v)" by (cases f)
  from Cons.prems obtain m where m: "n = Suc m" by (cases n) auto
  show ?case
  proof (cases fs)
    case Nil
    have "read_json m (json_write sn v @ CHR ''}'' # rest) = Some (v, CHR ''}'' # rest)"
      using Cons.prems m f Nil by (intro reads_backD value_end_punctuation) simp_all
    then show ?thesis
      by (simp add: Nil m f json_string_def read_escaped_string skip_space_punctuation)
  next
    case (Cons g gs)
    let ?more = "comma_join (map (member_text sn) fs) @ CHR ''}'' # rest"
    have "read_json m (json_write sn v @ CHR '','' # ?more) = Some (v, CHR '','' # ?more)"
      using Cons.prems m f Cons by (intro reads_backD value_end_punctuation) simp_all
    moreover have "read_members m ?more = Some (fs, rest)"
      using Cons.prems m f Cons by (intro Cons.IH) simp_all
    ultimately show ?thesis using Cons
      by (simp add: m f json_string_def read_escaped_string skip_space_punctuation)
  qed
qed simp

lemma no_prefix_head: "a \<noteq> c \<Longrightarrow> \<not> prefix (a # w) (c # s)"
  by simp

lemma number_reads_back: "plain_number n \<Longrightarrow> reads_back sn (JNum n)"
  unfolding reads_back_def
proof (intro allI impI, elim conjE)
  fix m rest
  assume p: "plain_number n" and e: "value_end rest" and m: "2 * length (json_write sn (JNum n) @ rest) < m"
  obtain k where k: "m = Suc k" using m by (cases m) auto
  obtain c t where c: "int_text \<lfloor>n\<rfloor> = c # t" "c = CHR ''-'' \<or> is_digit c"
    using int_text_form by blast
  have "c \<noteq> dquote" "c \<noteq> CHR ''{''" "c \<noteq> CHR ''[''" "c \<noteq> CHR ''n''" "c \<noteq> CHR ''t''" "c \<noteq> CHR ''f''"
    using c(2) by (auto simp: is_digit_def)
  moreover have "read_number (c # t @ rest) = Some (n, rest)"
    using read_int_text [OF e, of "\<lfloor>n\<rfloor>"] c p by (simp add: plain_number_def)
  moreover have "skip_space (c # t @ rest) = c # t @ rest"
    using starts_value_facts(1) [OF int_text_starts, of "\<lfloor>n\<rfloor>" rest] c by simp
  ultimately show "read_json m (json_write sn (JNum n) @ rest) = Some (JNum n, rest)"
    using p by (simp add: k number_text_def c read_word_def)
qed

lemma bool_reads_back: "reads_back sn (JBool b)"
  unfolding reads_back_def
proof (intro allI impI, elim conjE)
  fix n rest
  assume "2 * length (json_write sn (JBool b) @ rest) < n"
  then obtain m where "n = Suc m" by (cases n) auto
  then show "read_json n (json_write sn (JBool b) @ rest) = Some (JBool b, rest)"
    by (cases b) (simp_all add: skip_space_def json_space_def read_word_def)
qed

lemma json_reads_back: "json_value v \<Longrightarrow> reads_back sn v"
proof (induction v rule: jsval.induct)
  case (JNum n)
  then show ?case by (simp add: number_reads_back)
next
  case (JStr s)
  show ?case
    by (auto simp: reads_back_def json_string_def read_escaped_string skip_space_punctuation
        dest: less_imp_Suc_add)
next
  case (JArr xs)
  have all: "list_all (reads_back sn) xs" using JArr by (auto simp: list_all_iff)
  show ?case
    unfolding reads_back_def
  proof (intro allI impI, elim conjE)
    fix n rest
    assume n: "2 * length (json_write sn (JArr xs) @ rest) < n"
    then obtain m where m: "n = Suc m" by (cases n) auto
    show "read_json n (json_write sn (JArr xs) @ rest) = Some (JArr xs, rest)"
    proof (cases "xs = []")
      case False
      then have "starts_value (comma_join (map (json_write sn) xs))"
        using JArr.prems write_starts [of "hd xs" sn]
        by (cases xs; cases "tl xs") (auto simp: starts_value_def)
      moreover have "read_elements m (comma_join (map (json_write sn) xs) @ CHR '']'' # rest) = Some (xs, rest)"
        using False all n m by (intro elements_read_back) simp_all
      ultimately show ?thesis using starts_value_facts [of "comma_join (map (json_write sn) xs)"]
        by (simp add: m skip_space_punctuation)
    qed (simp add: m skip_space_punctuation)
  qed
next
  case (JObj fs)
  have all: "list_all (\<lambda>(k, v). reads_back sn v) fs" using JObj by (fastforce simp: list_all_iff)
  show ?case
    unfolding reads_back_def
  proof (intro allI impI, elim conjE)
    fix n rest
    assume n: "2 * length (json_write sn (JObj fs) @ rest) < n"
    then obtain m where m: "n = Suc m" by (cases n) auto
    show "read_json n (json_write sn (JObj fs) @ rest) = Some (JObj fs, rest)"
    proof (cases "fs = []")
      case False
      then have "starts_value (comma_join (map (member_text sn) fs))"
        by (cases fs; cases "tl fs") (auto simp: starts_value_def json_string_def)
      moreover have "read_members m (comma_join (map (member_text sn) fs) @ CHR ''}'' # rest) = Some (fs, rest)"
        using False all n m by (intro members_read_back) simp_all
      ultimately show ?thesis
        using starts_value_facts [of "comma_join (map (member_text sn) fs)"] JObj.prems
        by (simp add: m skip_space_punctuation object_of_distinct)
    qed (simp add: m skip_space_punctuation)
  qed
next
  case (JBool b)
  show ?case by (rule bool_reads_back)
qed (auto simp: reads_back_def skip_space_def json_space_def read_word_def dest: less_imp_Suc_add)

lemma json_round_trip: "json_value v \<Longrightarrow> json_parse (json_write sn v) = Some v"
  using reads_backD [OF json_reads_back, of v "[]" sn "2 * length (json_write sn v) + 2"]
  by (simp add: json_parse_def value_end_def skip_space_def)

end
