(* ===== verification/Sign_In_Attempts.thy ===== *)
theory Sign_In_Attempts
  imports Sessions Json_Text
begin

text \<open>
  Signing in with GitHub or Google (\<open>features/oauth-sign-in\<close>, \<open>pages/auth-callback\<close>): the attempt kept in
  \<open>sessionStorage\<close> while the provider's page is shown, the callback that exchanges the provider's code,
  and the page that waits for it.

  Random bytes, the clock and the origin of the page are arguments; one reading of the clock serves a
  whole call. An exception is an \<open>attempt_error\<close>. \<open>OAuthCallback.Start\<close> answers a promise; here it answers
  what the promise waits for, a request on its way or a failure. Query parameters are the pairs the
  browser read from the address.
\<close>

section \<open>Attempts (OAuthSignInAttempt.ts)\<close>

datatype oauth_provider = Github | Google

fun provider_name :: "oauth_provider \<Rightarrow> string" where
  "provider_name Github = ''github''"
| "provider_name Google = ''google''"

record oauth_attempt =
  oa_state :: string
  oa_provider :: oauth_provider
  oa_createdAt :: int
  oa_redirectUri :: string

datatype attempt_error =
    AttemptMissing
  | AttemptUnreadable
  | AttemptInvalid
  | AuthorizationNotCompleted

definition attempt_key :: string where "attempt_key = ''databasus_oauth_sign_in_attempt''"
definition attempt_ttl_ms :: int where "attempt_ttl_ms = 10 * 60 * 1000"

definition get_oauth_redirect_uri :: "string \<Rightarrow> string" where
  "get_oauth_redirect_uri origin = origin @ ''/auth/callback''"

text \<open>\<open>byte.toString(16).padStart(2, '0')\<close> of every byte.\<close>

definition hex_state :: "nat list \<Rightarrow> string" where
  "hex_state bytes = concat (map (\<lambda>b. [hex_lower (b div 16), hex_lower (b mod 16)]) bytes)"

definition attempt_value :: "oauth_attempt \<Rightarrow> jsval" where
  "attempt_value a = JObj [(''provider'', JStr (provider_name (oa_provider a))), (''state'', JStr (oa_state a)),
     (''createdAt'', JNum (of_int (oa_createdAt a))), (''redirectUri'', JStr (oa_redirectUri a))]"

definition create_oauth_sign_in_attempt ::
    "(number \<Rightarrow> string) \<Rightarrow> oauth_provider \<Rightarrow> nat list \<Rightarrow> int \<Rightarrow> string \<Rightarrow> 'l session_state \<Rightarrow>
      oauth_attempt \<times> 'l session_state" where
  "create_oauth_sign_in_attempt sn provider bytes now origin s =
     (let attempt = \<lparr>oa_state = hex_state bytes, oa_provider = provider, oa_createdAt = now,
            oa_redirectUri = get_oauth_redirect_uri origin\<rparr>;
          s1 = s\<lparr>st_session_storage :=
                   set_item attempt_key (json_write sn (attempt_value attempt)) (st_session_storage s)\<rparr>
      in (attempt, snd (begin_auth_intent s1)))"

text \<open>\<open>/^[a-f0-9]{64}$/\<close>, also the state of a storage's authorization.\<close>

definition is_state_char :: "char \<Rightarrow> bool" where
  "is_state_char c \<longleftrightarrow> (let n = of_char c :: nat in 48 \<le> n \<and> n \<le> 57 \<or> 97 \<le> n \<and> n \<le> 102)"

definition is_attempt_state :: "string \<Rightarrow> bool" where
  "is_attempt_state st \<longleftrightarrow> length st = 64 \<and> list_all is_state_char st"

definition provider_of :: "jsval \<Rightarrow> oauth_provider option" where
  "provider_of v = (if v = JStr ''github'' then Some Github else if v = JStr ''google'' then Some Google else None)"

text \<open>The stored value as an attempt, when it passes every check of the code. A field of a value that is no
  object is undefined and fails the first of them.\<close>

definition valid_attempt :: "string \<Rightarrow> int \<Rightarrow> string \<Rightarrow> jsval \<Rightarrow> oauth_attempt option" where
  "valid_attempt state now origin v =
     (let fs = object_fields v in
      case (fld fs ''state'', provider_of (fld fs ''provider''), fld fs ''createdAt'') of
        (JStr st, Some provider, JNum createdAt) \<Rightarrow>
          (if \<not> is_attempt_state st \<or> state \<noteq> st \<or> createdAt > of_int now
              \<or> of_int now - createdAt \<ge> of_int attempt_ttl_ms
              \<or> fld fs ''redirectUri'' \<noteq> JStr (get_oauth_redirect_uri origin) then None
           else Some \<lparr>oa_state = st, oa_provider = provider, oa_createdAt = \<lfloor>createdAt\<rfloor>,
                  oa_redirectUri = get_oauth_redirect_uri origin\<rparr>)
      | _ \<Rightarrow> None)"

definition consume_oauth_sign_in_attempt ::
    "string option \<Rightarrow> int \<Rightarrow> string \<Rightarrow> 'l session_state \<Rightarrow> (attempt_error + oauth_attempt) \<times> 'l session_state" where
  "consume_oauth_sign_in_attempt state now origin s =
     (let raw = st_session_storage s attempt_key in
      if \<not> truthy raw \<or> \<not> truthy state then (Inl AttemptMissing, s)
      else case json_parse (the raw) of
        None \<Rightarrow> (Inl AttemptUnreadable, s)
      | Some v \<Rightarrow>
          (case valid_attempt (the state) now origin v of
             None \<Rightarrow> (Inl AttemptInvalid, s)
           | Some attempt \<Rightarrow>
               (Inr attempt, s\<lparr>st_session_storage := remove_item attempt_key (st_session_storage s)\<rparr>)))"

section \<open>The address the browser is sent to (OAuthSignInButtons.tsx)\<close>

definition authorization_parameters :: "string \<Rightarrow> string \<Rightarrow> oauth_attempt \<Rightarrow> (string \<times> string) list" where
  "authorization_parameters githubClientId googleClientId a =
     [(''client_id'', case oa_provider a of Github \<Rightarrow> githubClientId | Google \<Rightarrow> googleClientId),
      (''redirect_uri'', oa_redirectUri a), (''state'', oa_state a),
      (''scope'', case oa_provider a of Github \<Rightarrow> ''user:email'' | Google \<Rightarrow> ''openid email profile'')]
     @ (case oa_provider a of Github \<Rightarrow> [] | Google \<Rightarrow> [(''response_type'', ''code'')])"

definition authorization_page :: "oauth_provider \<Rightarrow> string" where
  "authorization_page p = (case p of Github \<Rightarrow> ''https://github.com/login/oauth/authorize''
     | Google \<Rightarrow> ''https://accounts.google.com/o/oauth2/v2/auth'')"

section \<open>The callback (OAuthCallback.ts)\<close>

record oauth_request =
  or_provider :: oauth_provider
  or_code :: string
  or_redirectUri :: string

record oauth_callback =
  cb_code :: "string option"
  cb_state :: "string option"
  cb_error :: "string option"
  cb_exchange :: "(attempt_error + oauth_request) option"
  cb_intent :: "auth_intent option"

definition new_callback :: "string option \<Rightarrow> string option \<Rightarrow> string option \<Rightarrow> oauth_callback" where
  "new_callback code state err =
     \<lparr>cb_code = code, cb_state = state, cb_error = err, cb_exchange = None, cb_intent = None\<rparr>"

definition exchange_code ::
    "int \<Rightarrow> string \<Rightarrow> oauth_callback \<Rightarrow> 'l session_state \<Rightarrow> (attempt_error + oauth_request) \<times> 'l session_state" where
  "exchange_code now origin cb s =
     (case consume_oauth_sign_in_attempt (cb_state cb) now origin s of
        (Inl e, s1) \<Rightarrow> (Inl e, s1)
      | (Inr attempt, s1) \<Rightarrow>
          (if truthy (cb_error cb) \<or> \<not> truthy (cb_code cb) then (Inl AuthorizationNotCompleted, s1)
           else (Inr \<lparr>or_provider = oa_provider attempt, or_code = the (cb_code cb),
                   or_redirectUri = oa_redirectUri attempt\<rparr>, s1)))"

definition callback_start ::
    "int \<Rightarrow> string \<Rightarrow> oauth_callback \<Rightarrow> 'l session_state \<Rightarrow> oauth_callback \<times> 'l session_state" where
  "callback_start now origin cb s =
     (case cb_exchange cb of
        Some _ \<Rightarrow> (cb, s)
      | None \<Rightarrow>
          (let (intent, s1) = begin_auth_intent s;
               (exchange, s2) = exchange_code now origin cb s1
           in (cb\<lparr>cb_intent := Some intent, cb_exchange := Some exchange\<rparr>, s2)))"

definition callback_is_current :: "oauth_callback \<Rightarrow> 'l session_state \<Rightarrow> bool \<times> 'l session_state" where
  "callback_is_current cb s =
     (case cb_intent cb of None \<Rightarrow> (False, s) | Some i \<Rightarrow> is_current_auth_intent i s)"

definition callback_accept :: "oauth_callback \<Rightarrow> identity \<Rightarrow> 'l session_state \<Rightarrow> bool \<times> 'l session_state" where
  "callback_accept cb session s =
     (case cb_intent cb of None \<Rightarrow> (False, s) | Some i \<Rightarrow> accept_auth_session i session s)"

section \<open>The callback's page (AuthCallbackPage.tsx)\<close>

text \<open>One run of the effect is numbered; its \<open>isAttached\<close> is whether its number is the attached one. The
  failure of a request is of any type \<open>'f\<close>.\<close>

record 'f callback_page =
  pg_callback :: oauth_callback
  pg_run :: nat
  pg_isAttached :: bool
  pg_failure :: "'f option"
  pg_navigated :: nat
  pg_query :: "(string \<times> string) list"

definition scrubbed_query :: "(string \<times> string) list \<Rightarrow> (string \<times> string) list" where
  "scrubbed_query query =
     filter (\<lambda>(k, _). k \<notin> {''code'', ''state'', ''error'', ''error_description'', ''error_uri''}) query"

definition page_effect ::
    "int \<Rightarrow> string \<Rightarrow> 'f callback_page \<Rightarrow> 'l session_state \<Rightarrow> 'f callback_page \<times> 'l session_state" where
  "page_effect now origin p s =
     (let (cb, s1) = callback_start now origin (pg_callback p) s
      in (p\<lparr>pg_callback := cb, pg_run := pg_run p + 1, pg_isAttached := True, pg_failure := None,
            pg_query := scrubbed_query (pg_query p)\<rparr>, s1))"

definition page_cleanup :: "'f callback_page \<Rightarrow> 'f callback_page" where
  "page_cleanup p = p\<lparr>pg_isAttached := False\<rparr>"

definition settle_page ::
    "nat \<Rightarrow> ('f + identity) \<Rightarrow> 'f callback_page \<Rightarrow> 'l session_state \<Rightarrow> 'f callback_page \<times> 'l session_state" where
  "settle_page run answer p s =
     (if \<not> pg_isAttached p \<or> run \<noteq> pg_run p then (p, s)
      else case answer of
        Inr session \<Rightarrow>
          (let (ok, s1) = callback_accept (pg_callback p) session s
           in (if ok then p\<lparr>pg_navigated := pg_navigated p + 1\<rparr> else p, s1))
      | Inl failure \<Rightarrow>
          (let (cur, s1) = callback_is_current (pg_callback p) s
           in (if cur then p\<lparr>pg_failure := Some failure\<rparr> else p, s1)))"

section \<open>Lemmas: an attempt is read back\<close>

definition clock_time :: "int \<Rightarrow> bool" where
  "clock_time now \<longleftrightarrow> \<bar>now\<bar> \<le> 8640000000000000"

lemma clock_time_plain: "clock_time now \<Longrightarrow> plain_number (of_int now)"
proof -
  assume "clock_time now"
  then have "\<bar>now\<bar> < 10 ^ 21" by (simp add: clock_time_def)
  then have "(of_int \<bar>now\<bar> :: number) < of_int (10 ^ 21)" by (simp only: of_int_less_iff)
  then have "\<bar>of_int now :: number\<bar> < 10 ^ 21" by (simp only: of_int_abs of_int_power of_int_numeral)
  then show ?thesis unfolding plain_number_def by (simp only: floor_of_int)
qed

definition random_bytes :: "nat list \<Rightarrow> bool" where
  "random_bytes bytes \<longleftrightarrow> length bytes = 32 \<and> list_all (\<lambda>b. b < 256) bytes"

lemma hex_lower_state_char: "n < 16 \<Longrightarrow> is_state_char (hex_lower n)"
  by (auto simp: is_state_char_def hex_lower_def Let_def)

lemma hex_state_length: "length (hex_state bytes) = 2 * length bytes"
  by (induction bytes) (auto simp: hex_state_def)

lemma nibble: "(b::nat) < 256 \<Longrightarrow> b div 16 < 16"
  by linarith

lemma hex_state_is_attempt_state: "random_bytes bytes \<Longrightarrow> is_attempt_state (hex_state bytes)"
proof -
  assume r: "random_bytes bytes"
  have "list_all (\<lambda>b. b < 256) bs \<Longrightarrow> list_all is_state_char (hex_state bs)" for bs
    by (induction bs) (simp_all add: hex_state_def hex_lower_state_char nibble)
  with r show ?thesis by (simp add: random_bytes_def is_attempt_state_def hex_state_length)
qed

lemma hex_state_injective:
  "list_all (\<lambda>b. b < 256) bs \<Longrightarrow> list_all (\<lambda>b. b < 256) cs \<Longrightarrow> hex_state bs = hex_state cs \<Longrightarrow> bs = cs"
proof (induction bs arbitrary: cs)
  case Nil
  then show ?case by (cases cs) (simp_all add: hex_state_def)
next
  case (Cons b bs)
  then obtain c ds where cs: "cs = c # ds" by (cases cs) (simp_all add: hex_state_def)
  have "hex_value (hex_lower (b div 16)) = hex_value (hex_lower (c div 16))"
    "hex_value (hex_lower (b mod 16)) = hex_value (hex_lower (c mod 16))"
    using Cons.prems cs by (simp_all add: hex_state_def)
  then have "b div 16 = c div 16" "b mod 16 = c mod 16"
    using Cons.prems cs by (simp_all add: hex_value_lower nibble)
  then have "b = c" by (metis div_mult_mod_eq)
  with Cons cs show ?case by (simp add: hex_state_def)
qed

definition good_attempt :: "oauth_attempt \<Rightarrow> bool" where
  "good_attempt a \<longleftrightarrow> is_attempt_state (oa_state a) \<and> clock_time (oa_createdAt a)"

lemma attempt_parses: "good_attempt a \<Longrightarrow> json_parse (json_write sn (attempt_value a)) = Some (attempt_value a)"
  by (rule json_round_trip) (simp add: attempt_value_def good_attempt_def clock_time_plain)

lemma attempt_text_truthy: "truthy (Some (json_write sn (attempt_value a)))"
  by (simp add: attempt_value_def truthy_def)

lemma provider_of_name: "provider_of (JStr (provider_name p)) = Some p"
  by (cases p) (simp_all add: provider_of_def)

definition attempt_accepts :: "string \<Rightarrow> int \<Rightarrow> string \<Rightarrow> oauth_attempt \<Rightarrow> bool" where
  "attempt_accepts state now origin a \<longleftrightarrow> state = oa_state a \<and> oa_createdAt a \<le> now
     \<and> now - oa_createdAt a < attempt_ttl_ms \<and> oa_redirectUri a = get_oauth_redirect_uri origin"

lemma age_of_int:
  "((of_int c :: number) > of_int now) = (c > now)"
  "((of_int now - of_int c :: number) \<ge> of_int t) = (now - c \<ge> t)"
  by (simp_all flip: of_int_diff)

lemma valid_attempt_value:
  "good_attempt a \<Longrightarrow> valid_attempt state now origin (attempt_value a) =
     (if attempt_accepts state now origin a then Some a else None)"
  by (cases a) (auto simp: valid_attempt_def attempt_value_def object_fields_def fld_def provider_of_name
      attempt_accepts_def good_attempt_def age_of_int not_less not_le)

lemma consume_stored:
  assumes "st_session_storage s attempt_key = Some (json_write sn (attempt_value a))" and "good_attempt a"
  shows "consume_oauth_sign_in_attempt state now origin s =
     (if \<not> truthy state then (Inl AttemptMissing, s)
      else if attempt_accepts (the state) now origin a
      then (Inr a, s\<lparr>st_session_storage := remove_item attempt_key (st_session_storage s)\<rparr>)
      else (Inl AttemptInvalid, s))"
  using assms
  by (simp add: consume_oauth_sign_in_attempt_def attempt_text_truthy attempt_parses valid_attempt_value)

lemma consume_nothing:
  "st_session_storage s attempt_key = None \<Longrightarrow>
     consume_oauth_sign_in_attempt state now origin s = (Inl AttemptMissing, s)"
  by (simp add: consume_oauth_sign_in_attempt_def truthy_def)

lemma begin_session_storage: "st_session_storage (snd (begin_auth_intent s)) = st_session_storage s"
  by (simp add: begin_auth_intent_def get_session_snapshot_def Let_def)

lemma same_redirect_uri: "get_oauth_redirect_uri a = get_oauth_redirect_uri b \<longleftrightarrow> a = b"
  by (simp add: get_oauth_redirect_uri_def)

text \<open>C18: A sign-in attempt is found again when the provider sends the user back: with the state it was
  created with, on the same origin and within ten minutes. Anything else is refused and leaves it in
  place, and the one acceptance uses it up.\<close>

theorem attempt_is_consumed_once:
  fixes s :: "'l session_state" and sn :: "number \<Rightarrow> string" and provider :: oauth_provider
    and bytes :: "nat list" and now later_time :: int and origin origin' state :: string
  assumes "random_bytes bytes" and "clock_time now"
  defines "created \<equiv> create_oauth_sign_in_attempt sn provider bytes now origin s"
  defines "answer \<equiv> consume_oauth_sign_in_attempt (Some state) later_time origin' (snd created)"
  shows "(if state = hex_state bytes \<and> origin' = origin \<and> now \<le> later_time \<and> later_time < now + 600000
      then fst answer = Inr (fst created)
        \<and> (\<forall>st t o'. consume_oauth_sign_in_attempt st t o' (snd answer) = (Inl AttemptMissing, snd answer))
      else fst answer = Inl (if state = [] then AttemptMissing else AttemptInvalid) \<and> snd answer = snd created)
    \<and> oa_provider (fst created) = provider"
proof -
  let ?a = "fst created"
  have a: "?a = \<lparr>oa_state = hex_state bytes, oa_provider = provider, oa_createdAt = now,
      oa_redirectUri = get_oauth_redirect_uri origin\<rparr>"
    by (simp add: created_def create_oauth_sign_in_attempt_def Let_def)
  have good: "good_attempt ?a"
    using assms(1,2) by (simp add: a good_attempt_def hex_state_is_attempt_state)
  have "st_session_storage (snd created) attempt_key = Some (json_write sn (attempt_value ?a))"
    by (simp add: a) (simp add: created_def create_oauth_sign_in_attempt_def Let_def begin_session_storage set_item_def)
  note c = consume_stored [OF this good, of "Some state" later_time origin']
  have nonempty: "hex_state bytes \<noteq> []"
    using assms(1) hex_state_length [of bytes] by (auto simp: random_bytes_def)
  have gone: "st_session_storage (x\<lparr>st_session_storage := remove_item attempt_key y\<rparr>) attempt_key = None"
    for x :: "'l session_state" and y
    by (simp add: remove_item_def)
  have accepts: "attempt_accepts state later_time origin' ?a \<longleftrightarrow>
      state = hex_state bytes \<and> origin' = origin \<and> now \<le> later_time \<and> later_time < now + 600000"
    by (auto simp: a attempt_accepts_def same_redirect_uri attempt_ttl_ms_def)
  show ?thesis
  proof (cases "attempt_accepts state later_time origin' ?a")
    case True
    then have "answer = (Inr ?a, (snd created)\<lparr>st_session_storage :=
        remove_item attempt_key (st_session_storage (snd created))\<rparr>)"
      unfolding answer_def c using nonempty accepts by (simp add: truthy_def)
    with True show ?thesis
      unfolding accepts using consume_nothing [OF gone] by (simp add: a)
  next
    case False
    then have "answer = (Inl (if state = [] then AttemptMissing else AttemptInvalid), snd created)"
      unfolding answer_def c by (simp add: truthy_def)
    with False show ?thesis unfolding accepts by (simp add: a)
  qed
qed

definition some_bytes :: "nat list" where "some_bytes = replicate 32 171"

lemma some_bytes_random: "random_bytes some_bytes"
  by code_simp

lemma attempt_is_consumed_once_witness:
  "fst (consume_oauth_sign_in_attempt (Some (hex_state some_bytes)) 1599999 ''https://d''
      (snd (create_oauth_sign_in_attempt (\<lambda>_. []) Google some_bytes 1000000 ''https://d'' signed_out_browser)))
    = Inr (fst (create_oauth_sign_in_attempt (\<lambda>_. []) Google some_bytes 1000000 ''https://d'' signed_out_browser))"
  using attempt_is_consumed_once [where bytes = some_bytes and now = 1000000 and state = "hex_state some_bytes"
      and later_time = 1599999 and origin = "''https://d''" and origin' = "''https://d''"
      and s = signed_out_browser and sn = "\<lambda>_. []" and provider = Google]
    some_bytes_random
  by (simp add: clock_time_def)

section \<open>Every exchange answers an attempt of this tab\<close>

text \<open>One tab over time: attempts it creates, callback pages opened in it (with whatever parameters an
  address may carry), and every event of the session. \<open>ow_sent\<close> logs each request for an exchange with
  the state it came with and the time.\<close>

record 'l oauth_world =
  ow_session :: "'l session_state"
  ow_created :: "oauth_attempt list"
  ow_sent :: "(string \<times> oauth_request \<times> int) list"

datatype 'l oauth_event =
    OaCreate oauth_provider "nat list" int
  | OaCallback "string option" "string option" "string option" int
  | OaSession "'l session_event"

fun oauth_step ::
    "(number \<Rightarrow> string) \<Rightarrow> string \<Rightarrow> 'l oauth_world \<Rightarrow> 'l oauth_event \<Rightarrow> 'l oauth_world" where
  "oauth_step sn origin w (OaCreate provider bytes now) =
     (let (a, s) = create_oauth_sign_in_attempt sn provider bytes now origin (ow_session w)
      in w\<lparr>ow_session := s, ow_created := ow_created w @ [a]\<rparr>)"
| "oauth_step sn origin w (OaCallback code state err now) =
     (let (cb, s) = callback_start now origin (new_callback code state err) (ow_session w)
      in w\<lparr>ow_session := s, ow_sent := ow_sent w @
           (case cb_exchange cb of Some (Inr r) \<Rightarrow> [(the state, r, now)] | _ \<Rightarrow> [])\<rparr>)"
| "oauth_step sn origin w (OaSession e) = w\<lparr>ow_session := session_step (ow_session w) e\<rparr>"

fun honest_event :: "'l oauth_event \<Rightarrow> bool" where
  "honest_event (OaCreate provider bytes now) \<longleftrightarrow> random_bytes bytes \<and> clock_time now"
| "honest_event _ \<longleftrightarrow> True"

definition answers_attempt :: "oauth_attempt list \<Rightarrow> string \<times> oauth_request \<times> int \<Rightarrow> bool" where
  "answers_attempt created = (\<lambda>(state, request, now). \<exists>a\<in>set created. oa_state a = state
     \<and> or_provider request = oa_provider a \<and> or_redirectUri request = oa_redirectUri a
     \<and> oa_createdAt a \<le> now \<and> now < oa_createdAt a + 600000)"

definition oauth_inv :: "(number \<Rightarrow> string) \<Rightarrow> 'l oauth_world \<Rightarrow> bool" where
  "oauth_inv sn w \<longleftrightarrow>
     (case st_session_storage (ow_session w) attempt_key of
        None \<Rightarrow> True
      | Some raw \<Rightarrow> (\<exists>a\<in>set (ow_created w). raw = json_write sn (attempt_value a) \<and> good_attempt a
          \<and> oa_state a \<notin> fst ` set (ow_sent w)))
     \<and> distinct (map fst (ow_sent w)) \<and> (\<forall>e\<in>set (ow_sent w). answers_attempt (ow_created w) e)"

lemma answers_attempt_mono: "answers_attempt cs e \<Longrightarrow> set cs \<subseteq> set ds \<Longrightarrow> answers_attempt ds e"
  by (auto simp: answers_attempt_def)

lemma answered_state: "answers_attempt cs e \<Longrightarrow> fst e \<in> oa_state ` set cs"
  by (auto simp: answers_attempt_def)

lemma publish_drops_attempt: "st_session_storage (publish_session i s) attempt_key = None"
  by (simp add: publish_session_def attempt_key_def remove_item_def case_prod_unfold Let_def)

lemma get_session_storage: "st_session_storage (snd (get_session_snapshot s)) = st_session_storage s"
  by (simp add: get_session_snapshot_def Let_def)

lemma session_step_attempt:
  "st_session_storage (session_step s e) attempt_key \<in> {None, st_session_storage s attempt_key}"
  by (cases e) (auto simp: subscribe_session_def unsubscribe_session_def activate_session_def
      invalidate_session_def abandon_auth_intent_def accept_auth_session_def case_prod_unfold Let_def
      publish_drops_attempt get_session_storage begin_session_storage)

lemma consume_inv:
  assumes "oauth_inv sn w" and "st_session_storage s = st_session_storage (ow_session w)"
    and "consume_oauth_sign_in_attempt state now origin s = (answer, s')"
  shows "(st_session_storage s' = st_session_storage s \<and> (\<exists>e. answer = Inl e)) \<or>
    (st_session_storage s' attempt_key = None \<and> (\<exists>a\<in>set (ow_created w). answer = Inr a
      \<and> attempt_accepts (the state) now origin a \<and> oa_state a \<notin> fst ` set (ow_sent w)))"
proof (cases "st_session_storage s attempt_key")
  case None
  then show ?thesis using assms(3) by (auto simp: consume_nothing)
next
  case (Some raw)
  with assms(1,2) obtain a where a: "a \<in> set (ow_created w)" "raw = json_write sn (attempt_value a)"
      "good_attempt a" "oa_state a \<notin> fst ` set (ow_sent w)"
    by (auto simp: oauth_inv_def)
  from Some a(2) have "st_session_storage s attempt_key = Some (json_write sn (attempt_value a))" by simp
  from consume_stored [OF this a(3), of state now origin] assms(3) a(1,4) show ?thesis
    by (auto simp: remove_item_def split: if_splits)
qed

lemma session_event_inv:
  assumes "oauth_inv sn w"
  shows "oauth_inv sn (w\<lparr>ow_session := session_step (ow_session w) e\<rparr>)"
  using assms session_step_attempt [of "ow_session w" e] by (auto simp: oauth_inv_def split: option.splits)

lemma create_inv:
  assumes inv: "oauth_inv sn w" and h: "honest_event (OaCreate provider bytes now)"
    and d: "distinct (map oa_state (ow_created (oauth_step sn origin w (OaCreate provider bytes now))))"
  shows "oauth_inv sn (oauth_step sn origin w (OaCreate provider bytes now))"
proof -
  define a where "a = fst (create_oauth_sign_in_attempt sn provider bytes now origin (ow_session w))"
  have st: "oa_state a = hex_state bytes" "oa_createdAt a = now"
    by (simp_all add: a_def create_oauth_sign_in_attempt_def Let_def)
  then have good: "good_attempt a" using h by (simp add: good_attempt_def hex_state_is_attempt_state)
  let ?w = "oauth_step sn origin w (OaCreate provider bytes now)"
  have cr: "ow_created ?w = ow_created w @ [a]" "ow_sent ?w = ow_sent w"
    by (simp_all add: a_def case_prod_unfold Let_def)
  have raw: "st_session_storage (ow_session ?w) attempt_key = Some (json_write sn (attempt_value a))"
    by (simp add: a_def create_oauth_sign_in_attempt_def Let_def begin_session_storage set_item_def)
  have "oa_state a \<notin> fst ` set (ow_sent w)"
  proof
    assume "oa_state a \<in> fst ` set (ow_sent w)"
    then have "oa_state a \<in> oa_state ` set (ow_created w)"
      using inv answered_state by (fastforce simp: oauth_inv_def)
    with d [unfolded cr] show False by auto
  qed
  moreover have "answers_attempt (ow_created ?w) e" if "e \<in> set (ow_sent w)" for e
  proof (rule answers_attempt_mono)
    show "answers_attempt (ow_created w) e" using inv that by (simp add: oauth_inv_def)
    show "set (ow_created w) \<subseteq> set (ow_created ?w)" unfolding cr by auto
  qed
  ultimately show ?thesis using inv good unfolding oauth_inv_def raw cr by simp
qed

lemma callback_inv:
  assumes inv: "oauth_inv sn w"
  shows "oauth_inv sn (oauth_step sn origin w (OaCallback code state err now))"
proof -
  define s1 where "s1 = snd (begin_auth_intent (ow_session w))"
  have s1: "st_session_storage s1 = st_session_storage (ow_session w)"
    by (simp add: s1_def begin_session_storage)
  obtain answer s2 where c: "consume_oauth_sign_in_attempt state now origin s1 = (answer, s2)" by force
  let ?w = "oauth_step sn origin w (OaCallback code state err now)"
  have w: "ow_session ?w = s2" "ow_created ?w = ow_created w"
    "ow_sent ?w = ow_sent w @ (case answer of Inl _ \<Rightarrow> [] | Inr a \<Rightarrow>
       if truthy err \<or> \<not> truthy code then [] else [(the state, \<lparr>or_provider = oa_provider a,
         or_code = the code, or_redirectUri = oa_redirectUri a\<rparr>, now)])"
    using c by (auto simp: callback_start_def new_callback_def exchange_code_def s1_def case_prod_unfold
        Let_def split: sum.split)
  from consume_inv [OF inv s1 c] show ?thesis
  proof (elim disjE conjE exE bexE)
    fix e assume s2: "st_session_storage s2 = st_session_storage s1" and ans: "answer = Inl e"
    from inv show ?thesis unfolding oauth_inv_def w ans s2 s1 sum.case append_Nil2 .
  next
    fix a
    assume none: "st_session_storage s2 attempt_key = None" and a: "a \<in> set (ow_created w)"
      and ans: "answer = Inr a" and acc: "attempt_accepts (the state) now origin a"
      and new: "oa_state a \<notin> fst ` set (ow_sent w)"
    have "answers_attempt (ow_created w) (the state, \<lparr>or_provider = oa_provider a,
        or_code = the code, or_redirectUri = oa_redirectUri a\<rparr>, now)"
      using a acc by (auto simp: answers_attempt_def attempt_accepts_def attempt_ttl_ms_def)
    with inv none new acc show ?thesis
      unfolding oauth_inv_def w ans by (auto simp: attempt_accepts_def)
  qed
qed

lemma oauth_run_inv:
  "oauth_inv sn w \<Longrightarrow> list_all honest_event es \<Longrightarrow>
    distinct (map oa_state (ow_created (foldl (oauth_step sn origin) w es))) \<Longrightarrow>
    oauth_inv sn (foldl (oauth_step sn origin) w es)"
proof (induction es rule: rev_induct)
  case (snoc e es)
  let ?m = "foldl (oauth_step sn origin) w es"
  have "\<exists>new. ow_created (oauth_step sn origin ?m e) = ow_created ?m @ new"
    by (cases e) (simp_all add: case_prod_unfold Let_def)
  then have "distinct (map oa_state (ow_created ?m))" using snoc.prems(3) by auto
  then have m: "oauth_inv sn ?m" using snoc.prems by (intro snoc.IH) simp_all
  show ?case
  proof (cases e)
    case (OaCreate provider bytes now)
    then show ?thesis using create_inv [OF m, of provider bytes now origin] snoc.prems
      by (simp only: foldl_append foldl.simps list_all_append list_all_iff list.set) simp
  next
    case (OaCallback code state err now)
    then show ?thesis using callback_inv [OF m] by (simp only: foldl_append foldl.simps)
  next
    case (OaSession e')
    then show ?thesis using session_event_inv [OF m] by simp
  qed
qed simp

text \<open>C8: A code that comes back from a provider is exchanged only for a sign-in this tab began: whatever
  addresses the callback page is opened with, and whatever signs in or out meanwhile, every exchange
  carries the provider and the redirect address of an attempt created less than ten minutes before, and no
  attempt is exchanged twice. The states of the attempts are 32 random bytes, distinct in a run.\<close>

theorem exchanges_answer_own_attempts:
  assumes "st_session_storage s attempt_key = None" and "list_all honest_event es"
    and "distinct (map oa_state (ow_created (foldl (oauth_step sn origin)
      \<lparr>ow_session = s, ow_created = [], ow_sent = []\<rparr> es)))"
  shows "distinct (map fst (ow_sent (foldl (oauth_step sn origin)
      \<lparr>ow_session = s, ow_created = [], ow_sent = []\<rparr> es)))
    \<and> list_all (answers_attempt (ow_created (foldl (oauth_step sn origin)
        \<lparr>ow_session = s, ow_created = [], ow_sent = []\<rparr> es)))
      (ow_sent (foldl (oauth_step sn origin) \<lparr>ow_session = s, ow_created = [], ow_sent = []\<rparr> es))"
proof -
  have "oauth_inv sn \<lparr>ow_session = s, ow_created = [], ow_sent = []\<rparr>"
    using assms(1) by (simp add: oauth_inv_def)
  from oauth_run_inv [OF this assms(2,3)] show ?thesis by (simp add: oauth_inv_def list_all_iff)
qed

definition one_sign_in :: "nat oauth_event list" where
  "one_sign_in = [OaCreate Google some_bytes 1000000,
     OaCallback (Some ''code'') (Some (hex_state some_bytes)) None 1000500,
     OaCallback (Some ''code'') (Some (hex_state some_bytes)) None 1000600]"

lemma exchanges_answer_own_attempts_witness:
  "distinct (map fst (ow_sent (foldl (oauth_step (\<lambda>_. []) ''https://d'')
      \<lparr>ow_session = signed_out_browser, ow_created = [], ow_sent = []\<rparr> one_sign_in)))"
  by (rule exchanges_answer_own_attempts [THEN conjunct1])
    (simp_all add: one_sign_in_def signed_out_browser_def some_bytes_random clock_time_def
      case_prod_unfold Let_def)

end
