(* ===== verification/Drive_Authorization.thy ===== *)
theory Drive_Authorization
  imports Sign_In_Attempts
begin

text \<open>
  Authorizing a Google Drive storage: the form's controller (\<open>useGoogleDriveAuthorization.ts\<close>), the messages
  between it and the window Google sends the user back to (\<open>storageAuthorizationRelay.ts\<close>,
  \<open>StorageOAuthPage.tsx\<close>), and the exchange of the code for a token.

  An attempt object is named by a number; \<open>isConsumed\<close>, the one field that changes, is read only of the
  active attempt and is kept beside it. The timer and the channel of an attempt are events that name it.
  Requests, messages and calls of \<open>onChange\<close> are logs. \<open>exchange\<close> is cut at both of its awaits. The editor's
  id is compared with itself only and is left out.
\<close>

section \<open>Messages (storageAuthorizationRelay.ts)\<close>

definition get_storage_authorization_channel_name :: "string \<Rightarrow> string" where
  "get_storage_authorization_channel_name state = ''databasus-storage-authorization:'' @ state"

definition nonblank :: "jsval \<Rightarrow> bool" where
  "nonblank v = (case v of JStr s \<Rightarrow> trim s \<noteq> [] | _ \<Rightarrow> False)"

definition is_storage_authorization_state :: "jsval \<Rightarrow> bool" where
  "is_storage_authorization_state v = (case v of JStr s \<Rightarrow> is_attempt_state s | _ \<Rightarrow> False)"

definition sorted_keys :: "fields \<Rightarrow> string" where
  "sorted_keys fs = comma_join (sort (map fst fs))"

definition is_storage_authorization_response :: "jsval \<Rightarrow> bool" where
  "is_storage_authorization_response message =
     (case message of
        JObj fs \<Rightarrow>
          is_storage_authorization_state (fld fs ''state'') \<and>
          (has_type fs ''refusal'' \<and> sorted_keys fs = ''state,type'' \<or>
           has_type fs ''code'' \<and> sorted_keys fs = ''code,state,type'' \<and> nonblank (fld fs ''code''))
      | _ \<Rightarrow> False)"

definition code_message :: "string \<Rightarrow> string \<Rightarrow> jsval" where
  "code_message state code = JObj [(''type'', JStr ''code''), (''state'', JStr state), (''code'', JStr code)]"

definition refusal_message :: "string \<Rightarrow> jsval" where
  "refusal_message state = JObj [(''type'', JStr ''refusal''), (''state'', JStr state)]"

definition ack_message :: "string \<Rightarrow> jsval" where
  "ack_message state = JObj [(''type'', JStr ''ack''), (''state'', JStr state)]"

section \<open>The window Google sends the user back to (StorageOAuthPage.tsx)\<close>

definition query_all :: "(string \<times> string) list \<Rightarrow> string \<Rightarrow> string list" where
  "query_all query k = map snd (filter (\<lambda>(j, _). j = k) query)"

definition query_get :: "(string \<times> string) list \<Rightarrow> string \<Rightarrow> string option" where
  "query_get query k = map_of query k"

definition has_text :: "string option \<Rightarrow> bool" where
  "has_text t = (case t of None \<Rightarrow> False | Some s \<Rightarrow> trim s \<noteq> [])"

definition get_callback_response :: "(string \<times> string) list \<Rightarrow> jsval option" where
  "get_callback_response query =
     (let state = query_get query ''state''; code = query_get query ''code''; err = query_get query ''error'' in
      case state of
        None \<Rightarrow> None
      | Some st \<Rightarrow>
          (if \<not> is_attempt_state st \<or> length (query_all query ''state'') \<noteq> 1
              \<or> length (query_all query ''code'') > 1 \<or> length (query_all query ''error'') > 1 then None
           else if has_text code \<and> err = None then Some (code_message st (the code))
           else if has_text err \<and> code = None then Some (refusal_message st)
           else None))"

datatype relay_status = RelayWaiting | RelayComplete | RelayRestart

record relay_page =
  rp_response :: "jsval option"
  rp_status :: relay_status
  rp_isOpen :: bool
  rp_posted :: "(string \<times> jsval) list"
  rp_isWindowClosed :: bool

text \<open>\<open>canOpen\<close> is whether the browser can open a channel.\<close>

definition open_relay_page :: "bool \<Rightarrow> (string \<times> string) list \<Rightarrow> relay_page" where
  "open_relay_page canOpen query =
     (case get_callback_response query of
        None \<Rightarrow> \<lparr>rp_response = None, rp_status = RelayRestart, rp_isOpen = False, rp_posted = [],
                 rp_isWindowClosed = False\<rparr>
      | Some r \<Rightarrow>
          (if canOpen then
             \<lparr>rp_response = Some r, rp_status = RelayWaiting, rp_isOpen = True,
              rp_posted = [(get_storage_authorization_channel_name (text_field (object_fields r) ''state''), r)],
              rp_isWindowClosed = False\<rparr>
           else \<lparr>rp_response = Some r, rp_status = RelayRestart, rp_isOpen = False, rp_posted = [],
                 rp_isWindowClosed = False\<rparr>))"

definition relay_message :: "bool \<Rightarrow> jsval \<Rightarrow> relay_page \<Rightarrow> relay_page" where
  "relay_message isSameOrigin message p =
     (let fs = object_fields message; own = object_fields (nullish (rp_response p) JUndefined) in
      if \<not> rp_isOpen p \<or> \<not> isSameOrigin \<or> sorted_keys fs \<noteq> ''state,type'' \<or> \<not> has_type fs ''ack''
         \<or> fld fs ''state'' \<noteq> fld own ''state'' then p
      else p\<lparr>rp_isOpen := False, rp_status := RelayComplete, rp_isWindowClosed := True\<rparr>)"

definition relay_timeout :: "relay_page \<Rightarrow> relay_page" where
  "relay_timeout p = (if \<not> rp_isOpen p then p else p\<lparr>rp_isOpen := False, rp_status := RelayRestart\<rparr>)"

section \<open>The form's controller (useGoogleDriveAuthorization.ts)\<close>

record drive_options =
  do_workspaceId :: string
  do_storageId :: "string option"
  do_settings :: fields

record drive_attempt =
  da_id :: nat
  da_state :: string
  da_createdAt :: int
  da_redirectUri :: string
  da_workspaceId :: string
  da_storageId :: "string option"
  da_session :: session_snapshot
  da_settings :: fields
  da_revision :: nat

datatype drive_status = DriveIdle | DriveWaiting | DriveExchanging | DriveAuthorized | DriveError

record token_request =
  tr_code :: string
  tr_clientId :: jsval
  tr_clientSecret :: jsval
  tr_redirectUri :: string

record drive_form =
  df_status :: drive_status
  df_errorKey :: "string option"
  df_active :: "drive_attempt option"
  df_isConsumed :: bool
  df_requestRevision :: nat
  df_options :: drive_options
  df_nextId :: nat
  df_opened :: "(string \<times> string) list list"
  df_acknowledged :: "(nat \<times> jsval) list"
  df_exchanges :: "(nat \<times> token_request) list"
  df_saved :: "(drive_attempt \<times> drive_options \<times> fields) list"

definition attempt_lifetime :: int where "attempt_lifetime = 10 * 60 * 1000"

definition release :: "drive_form \<Rightarrow> drive_form" where
  "release f = f\<lparr>df_active := None, df_requestRevision := df_requestRevision f + 1\<rparr>"

definition cancel_authorization :: "drive_form \<Rightarrow> drive_form" where
  "cancel_authorization f = (release f)\<lparr>df_status := DriveIdle, df_errorKey := None\<rparr>"

definition fail_authorization :: "string \<Rightarrow> drive_form \<Rightarrow> drive_form" where
  "fail_authorization key f =
     (release f)\<lparr>df_errorKey := Some (''storages.edit.googleDrive.'' @ key), df_status := DriveError\<rparr>"

definition is_current_attempt ::
    "drive_attempt \<Rightarrow> drive_form \<Rightarrow> 'l session_state \<Rightarrow> bool \<times> 'l session_state" where
  "is_current_attempt a f s =
     (if map_option da_id (df_active f) \<noteq> Some (da_id a) \<or> da_revision a \<noteq> df_requestRevision f then (False, s)
      else
        (let (cur, s1) = is_current_session (da_session a) s; current = df_options f in
         (cur \<and> do_workspaceId current = da_workspaceId a \<and> do_storageId current = da_storageId a
            \<and> fld (do_settings current) ''clientId'' = fld (da_settings a) ''clientId''
            \<and> fld (do_settings current) ''clientSecret'' = fld (da_settings a) ''clientSecret'', s1)))"

definition drive_parameters :: "drive_attempt \<Rightarrow> (string \<times> string) list" where
  "drive_parameters a =
     [(''client_id'', text_field (da_settings a) ''clientId''), (''redirect_uri'', da_redirectUri a),
      (''response_type'', ''code''), (''scope'', ''https://www.googleapis.com/auth/drive.file''),
      (''access_type'', ''offline''), (''prompt'', ''consent''), (''state'', da_state a)]"

text \<open>\<open>canOpen\<close> is whether the browser has random bytes and a channel, \<open>popup\<close> whether it opens the window.\<close>

definition start_authorization ::
    "nat list \<Rightarrow> int \<Rightarrow> string \<Rightarrow> bool \<Rightarrow> bool \<Rightarrow> drive_form \<Rightarrow> 'l session_state \<Rightarrow>
      drive_attempt option \<times> drive_form \<times> 'l session_state" where
  "start_authorization bytes now origin canOpen popup f0 s =
     (let f = cancel_authorization f0; current = df_options f in
      if \<not> given (do_settings current) ''clientId'' \<or> \<not> nonblank (fld (do_settings current) ''clientSecret'')
      then (None, f, s)
      else if \<not> canOpen then (None, fail_authorization ''unavailable'' f, s)
      else
        (let (snap, s1) = get_session_snapshot s;
             a = \<lparr>da_id = df_nextId f, da_state = hex_state bytes, da_createdAt = now,
                  da_redirectUri = origin @ ''/storages/google-oauth'', da_workspaceId = do_workspaceId current,
                  da_storageId = do_storageId current, da_session = snap, da_settings = do_settings current,
                  da_revision = df_requestRevision f\<rparr>;
             f1 = f\<lparr>df_active := Some a, df_isConsumed := False, df_nextId := df_nextId f + 1,
                    df_status := DriveWaiting, df_opened := df_opened f @ [drive_parameters a]\<rparr>
         in (Some a, if popup then f1 else fail_authorization ''popupBlocked'' f1, s1)))"

definition start_exchange :: "drive_attempt \<Rightarrow> string \<Rightarrow> drive_form \<Rightarrow> drive_form" where
  "start_exchange a code f =
     f\<lparr>df_status := DriveExchanging, df_exchanges := df_exchanges f @ [(da_id a,
        \<lparr>tr_code = code, tr_clientId = fld (da_settings a) ''clientId'',
         tr_clientSecret = fld (da_settings a) ''clientSecret'', tr_redirectUri = da_redirectUri a\<rparr>)]\<rparr>"

text \<open>The first component says that a code is being exchanged.\<close>

definition on_message ::
    "bool \<Rightarrow> jsval \<Rightarrow> int \<Rightarrow> drive_attempt \<Rightarrow> drive_form \<Rightarrow> 'l session_state \<Rightarrow>
      bool \<times> drive_form \<times> 'l session_state" where
  "on_message isSameOrigin data now a f s =
     (if \<not> isSameOrigin \<or> \<not> is_storage_authorization_response data
         \<or> fld (object_fields data) ''state'' \<noteq> JStr (da_state a) then (False, f, s)
      else
        (let (cur, s1) = is_current_attempt a f s; age = now - da_createdAt a in
         if \<not> cur \<or> df_isConsumed f then (False, f, s1)
         else if age < 0 \<or> age \<ge> attempt_lifetime then (False, fail_authorization ''expired'' f, s1)
         else
           (let f1 = f\<lparr>df_isConsumed := True,
                       df_acknowledged := df_acknowledged f @ [(da_id a, ack_message (da_state a))]\<rparr>
            in if has_type (object_fields data) ''refusal'' then (False, fail_authorization ''refused'' f1, s1)
               else (True, start_exchange a (text_field (object_fields data) ''code'') f1, s1))))"

definition fire_timer :: "drive_attempt \<Rightarrow> drive_form \<Rightarrow> 'l session_state \<Rightarrow> drive_form \<times> 'l session_state" where
  "fire_timer a f s =
     (let (cur, s1) = is_current_attempt a f s in (if cur then fail_authorization ''expired'' f else f, s1))"

text \<open>After the first await: \<open>Inl\<close> a failed request, else whether the answer's status is a success. The first
  component says that the body is being read.\<close>

definition settle_fetch ::
    "drive_attempt \<Rightarrow> unit + bool \<Rightarrow> drive_form \<Rightarrow> 'l session_state \<Rightarrow> bool \<times> drive_form \<times> 'l session_state" where
  "settle_fetch a answer f s =
     (let (cur, s1) = is_current_attempt a f s in
      if \<not> cur then (False, f, s1)
      else if answer = Inr True then (True, f, s1)
      else (False, fail_authorization ''exchangeFailed'' f, s1))"

definition token_settings :: "(number \<Rightarrow> string) \<Rightarrow> jsval \<Rightarrow> fields \<Rightarrow> fields" where
  "token_settings sn token settings =
     set_field ''tokenJson'' (JStr (nullish (json_stringify sn token) [])) settings"

definition settle_token ::
    "(number \<Rightarrow> string) \<Rightarrow> drive_attempt \<Rightarrow> unit + jsval \<Rightarrow> drive_form \<Rightarrow> 'l session_state \<Rightarrow>
      drive_form \<times> 'l session_state" where
  "settle_token sn a answer f s =
     (let (cur, s1) = is_current_attempt a f s in
      if \<not> cur then (f, s1)
      else (case answer of
          Inl _ \<Rightarrow> fail_authorization ''exchangeFailed'' f
        | Inr token \<Rightarrow>
            (let fs = object_fields token in
             if \<not> nonblank (fld fs ''access_token'') then fail_authorization ''exchangeFailed'' f
             else if \<not> nonblank (fld fs ''refresh_token'') then fail_authorization ''missingRefreshToken'' f
             else (release (f\<lparr>df_saved := df_saved f @ [(a, df_options f,
                     token_settings sn token (do_settings (df_options f)))]\<rparr>))\<lparr>df_status := DriveAuthorized\<rparr>), s1))"

text \<open>A render with other options. When the workspace, the storage or the client changed, the effect is
  cleaned up and run again.\<close>

definition same_subject :: "drive_options \<Rightarrow> drive_options \<Rightarrow> bool" where
  "same_subject o1 o2 \<longleftrightarrow> do_workspaceId o1 = do_workspaceId o2 \<and> do_storageId o1 = do_storageId o2
     \<and> fld (do_settings o1) ''clientId'' = fld (do_settings o2) ''clientId''
     \<and> fld (do_settings o1) ''clientSecret'' = fld (do_settings o2) ''clientSecret''"

definition render_options :: "drive_options \<Rightarrow> drive_form \<Rightarrow> drive_form" where
  "render_options opts f =
     (let f1 = f\<lparr>df_options := opts\<rparr>
      in if same_subject opts (df_options f) then f1 else cancel_authorization (release f1))"

definition mount_authorization :: "drive_options \<Rightarrow> drive_form" where
  "mount_authorization opts = cancel_authorization
     \<lparr>df_status = DriveIdle, df_errorKey = None, df_active = None, df_isConsumed = False,
      df_requestRevision = 0, df_options = opts, df_nextId = 0, df_opened = [], df_acknowledged = [],
      df_exchanges = [], df_saved = []\<rparr>"

definition is_authorization_pending :: "drive_form \<Rightarrow> bool" where
  "is_authorization_pending f \<longleftrightarrow> df_status f = DriveWaiting \<or> df_status f = DriveExchanging"

section \<open>Runs of the form\<close>

text \<open>The form with the attempts it began and the requests on their way. Messages and the timer may reach
  any attempt ever begun, answers come in any order or never, and the user and the session do anything.\<close>

record 'l drive_world =
  dw_form :: drive_form
  dw_session :: "'l session_state"
  dw_attempts :: "drive_attempt list"
  dw_fetching :: "drive_attempt list"
  dw_reading :: "drive_attempt list"

datatype 'l drive_event =
    DvStart "nat list" int string bool bool
  | DvCancel
  | DvRelease
  | DvRender drive_options
  | DvMessage nat bool jsval int
  | DvTimer nat
  | DvFetched nat "unit + bool"
  | DvRead nat "unit + jsval"
  | DvSession "'l session_event"

definition without_nth :: "nat \<Rightarrow> 'a list \<Rightarrow> 'a list" where
  "without_nth i xs = take i xs @ drop (Suc i) xs"

fun drive_step :: "(number \<Rightarrow> string) \<Rightarrow> 'l drive_world \<Rightarrow> 'l drive_event \<Rightarrow> 'l drive_world" where
  "drive_step sn w (DvStart bytes now origin canOpen popup) =
     (let (a, f, s) = start_authorization bytes now origin canOpen popup (dw_form w) (dw_session w)
      in w\<lparr>dw_form := f, dw_session := s,
           dw_attempts := dw_attempts w @ (case a of None \<Rightarrow> [] | Some a \<Rightarrow> [a])\<rparr>)"
| "drive_step sn w DvCancel = w\<lparr>dw_form := cancel_authorization (dw_form w)\<rparr>"
| "drive_step sn w DvRelease = w\<lparr>dw_form := release (dw_form w)\<rparr>"
| "drive_step sn w (DvRender opts) = w\<lparr>dw_form := render_options opts (dw_form w)\<rparr>"
| "drive_step sn w (DvMessage i isSameOrigin data now) =
     (if i < length (dw_attempts w) then
        (let a = dw_attempts w ! i;
             (isExchanging, f, s) = on_message isSameOrigin data now a (dw_form w) (dw_session w)
         in w\<lparr>dw_form := f, dw_session := s,
              dw_fetching := dw_fetching w @ (if isExchanging then [a] else [])\<rparr>)
      else w)"
| "drive_step sn w (DvTimer i) =
     (if i < length (dw_attempts w) then
        (let (f, s) = fire_timer (dw_attempts w ! i) (dw_form w) (dw_session w)
         in w\<lparr>dw_form := f, dw_session := s\<rparr>)
      else w)"
| "drive_step sn w (DvFetched i answer) =
     (if i < length (dw_fetching w) then
        (let a = dw_fetching w ! i;
             (isReading, f, s) = settle_fetch a answer (dw_form w) (dw_session w)
         in w\<lparr>dw_form := f, dw_session := s, dw_fetching := without_nth i (dw_fetching w),
              dw_reading := dw_reading w @ (if isReading then [a] else [])\<rparr>)
      else w)"
| "drive_step sn w (DvRead i answer) =
     (if i < length (dw_reading w) then
        (let (f, s) = settle_token sn (dw_reading w ! i) answer (dw_form w) (dw_session w)
         in w\<lparr>dw_form := f, dw_session := s, dw_reading := without_nth i (dw_reading w)\<rparr>)
      else w)"
| "drive_step sn w (DvSession e) = w\<lparr>dw_session := session_step (dw_session w) e\<rparr>"

section \<open>Lemmas\<close>

definition request_of :: "drive_attempt \<Rightarrow> token_request \<Rightarrow> bool" where
  "request_of a r \<longleftrightarrow> tr_clientId r = fld (da_settings a) ''clientId''
     \<and> tr_clientSecret r = fld (da_settings a) ''clientSecret'' \<and> tr_redirectUri r = da_redirectUri a"

definition shown_for :: "drive_attempt \<Rightarrow> drive_options \<Rightarrow> bool" where
  "shown_for a opts \<longleftrightarrow> do_workspaceId opts = da_workspaceId a \<and> do_storageId opts = da_storageId a
     \<and> fld (do_settings opts) ''clientId'' = fld (da_settings a) ''clientId''
     \<and> fld (do_settings opts) ''clientSecret'' = fld (da_settings a) ''clientSecret''"

abbreviation saved_ids :: "drive_form \<Rightarrow> nat list" where
  "saved_ids f \<equiv> map (da_id \<circ> fst) (df_saved f)"

definition ok_save :: "(nat \<times> token_request) list \<Rightarrow> drive_attempt set \<Rightarrow> drive_attempt \<times> drive_options \<times> fields \<Rightarrow> bool" where
  "ok_save exchanges attempts = (\<lambda>(a, opts, fs). a \<in> attempts \<and> da_id a \<in> fst ` set exchanges
     \<and> shown_for a opts \<and> delete_field ''tokenJson'' fs = delete_field ''tokenJson'' (do_settings opts))"

definition drive_inv :: "drive_form \<Rightarrow> drive_attempt set \<Rightarrow> drive_attempt set \<Rightarrow> bool" where
  "drive_inv f attempts pending \<longleftrightarrow>
     (\<forall>a\<in>attempts. da_id a < df_nextId f) \<and> inj_on da_id attempts
     \<and> distinct (map fst (df_exchanges f))
     \<and> (\<forall>(i, r)\<in>set (df_exchanges f). \<exists>a\<in>attempts. da_id a = i \<and> request_of a r)
     \<and> (\<forall>a\<in>pending. a \<in> attempts \<and> da_id a \<in> fst ` set (df_exchanges f))
     \<and> distinct (saved_ids f) \<and> (\<forall>e\<in>set (df_saved f). ok_save (df_exchanges f) attempts e)
     \<and> (\<forall>a. df_active f = Some a \<longrightarrow> da_id a \<notin> set (saved_ids f)
          \<and> (df_isConsumed f \<or> da_id a \<notin> fst ` set (df_exchanges f)))"

lemma inv_release: "drive_inv f A P \<Longrightarrow> drive_inv (release f) A P"
  by (simp add: drive_inv_def release_def)

lemma inv_unobserved:
  "drive_inv (f\<lparr>df_status := st\<rparr>) A P = drive_inv f A P"
  "drive_inv (f\<lparr>df_errorKey := k\<rparr>) A P = drive_inv f A P"
  "drive_inv (f\<lparr>df_options := opts\<rparr>) A P = drive_inv f A P"
  "drive_inv (f\<lparr>df_requestRevision := n\<rparr>) A P = drive_inv f A P"
  "drive_inv (f\<lparr>df_acknowledged := l\<rparr>) A P = drive_inv f A P"
  "drive_inv (f\<lparr>df_opened := o'\<rparr>) A P = drive_inv f A P"
  by (simp_all add: drive_inv_def)

lemma inv_consumed: "drive_inv f A P \<Longrightarrow> drive_inv (f\<lparr>df_isConsumed := True\<rparr>) A P"
  by (auto simp: drive_inv_def split: option.splits)

lemma inv_cancel: "drive_inv f A P \<Longrightarrow> drive_inv (cancel_authorization f) A P"
  by (simp add: cancel_authorization_def inv_unobserved inv_release)

lemma inv_fail: "drive_inv f A P \<Longrightarrow> drive_inv (fail_authorization key f) A P"
  by (simp add: fail_authorization_def inv_unobserved inv_release)

lemma inv_render: "drive_inv f A P \<Longrightarrow> drive_inv (render_options opts f) A P"
  by (simp add: render_options_def Let_def inv_unobserved inv_release inv_cancel)

lemma inv_pending: "drive_inv f A P \<Longrightarrow> Q \<subseteq> P \<Longrightarrow> drive_inv f A Q"
  by (auto simp: drive_inv_def)

lemma current_attempt:
  assumes "fst (is_current_attempt a f s)"
  shows "\<exists>b. df_active f = Some b \<and> da_id b = da_id a" and "shown_for a (df_options f)"
  using assms by (auto simp: is_current_attempt_def shown_for_def case_prod_unfold Let_def split: if_splits)

lemma delete_set_field: "delete_field k (set_field k v fs) = delete_field k fs"
  by (induction k v fs rule: set_field.induct) (auto simp: delete_field_def)

lemma inv_exchange:
  assumes inv: "drive_inv f A P" and a: "a \<in> A" and cur: "fst (is_current_attempt a f s)"
    and new: "\<not> df_isConsumed f"
  shows "drive_inv (start_exchange a code (f\<lparr>df_isConsumed := True, df_acknowledged := l\<rparr>)) A (insert a P)"
proof -
  from current_attempt(1) [OF cur] obtain b where b: "df_active f = Some b" "da_id b = da_id a" by blast
  with inv new have "da_id a \<notin> fst ` set (df_exchanges f)" by (simp add: drive_inv_def)
  moreover have "ok_save (df_exchanges f @ xs) A e" if "ok_save (df_exchanges f) A e" for xs e
    using that by (auto simp: ok_save_def)
  ultimately show ?thesis
    using inv a b by (auto simp: drive_inv_def start_exchange_def request_of_def)
qed

lemma inv_save:
  assumes inv: "drive_inv f A P" and a: "a \<in> P" and cur: "fst (is_current_attempt a f s)"
  shows "drive_inv (release (f\<lparr>df_saved := df_saved f @ [(a, df_options f,
      token_settings sn token (do_settings (df_options f)))]\<rparr>)) A P"
proof -
  from current_attempt(1) [OF cur] obtain b where b: "df_active f = Some b" "da_id b = da_id a" by blast
  with inv have "da_id a \<notin> set (saved_ids f)" by (simp add: drive_inv_def)
  moreover have "ok_save (df_exchanges f) A (a, df_options f, token_settings sn token (do_settings (df_options f)))"
    using inv a current_attempt(2) [OF cur]
    by (simp add: ok_save_def drive_inv_def token_settings_def delete_set_field)
  ultimately show ?thesis using inv by (simp add: drive_inv_def release_def)
qed

lemma inv_begin:
  assumes inv: "drive_inv f A P" and a: "da_id a = df_nextId f"
  shows "drive_inv (f\<lparr>df_active := Some a, df_isConsumed := False, df_nextId := df_nextId f + 1\<rparr>) (insert a A) P"
proof -
  have new: "da_id b \<noteq> da_id a" if "b \<in> A" for b using inv that a by (auto simp: drive_inv_def)
  then have "a \<notin> A" by blast
  have "da_id a \<notin> fst ` set (df_exchanges f)" using inv new by (fastforce simp: drive_inv_def)
  moreover have "da_id a \<notin> set (saved_ids f)" using inv new by (fastforce simp: drive_inv_def ok_save_def)
  moreover have "inj_on da_id (insert a A)"
  proof -
    have "da_id a \<notin> da_id ` (A - {a})" using new by (metis imageE DiffD1)
    with inv show ?thesis by (simp add: drive_inv_def inj_on_insert)
  qed
  moreover have "ok_save (df_exchanges f) (insert a A) e" if "ok_save (df_exchanges f) A e" for e
    using that by (auto simp: ok_save_def)
  ultimately show ?thesis using inv a by (auto simp: drive_inv_def)
qed

definition world_inv :: "'l drive_world \<Rightarrow> bool" where
  "world_inv w \<longleftrightarrow>
     drive_inv (dw_form w) (set (dw_attempts w)) (set (dw_fetching w) \<union> set (dw_reading w))"

lemma without_nth_subset: "set (without_nth i xs) \<subseteq> set xs"
  by (auto simp: without_nth_def dest: in_set_takeD in_set_dropD)

lemma drive_start_inv: "world_inv w \<Longrightarrow> world_inv (drive_step sn w (DvStart bytes now origin canOpen popup))"
proof -
  assume "world_inv w"
  let ?f = "cancel_authorization (dw_form w)"
  let ?A = "set (dw_attempts w)" and ?P = "set (dw_fetching w) \<union> set (dw_reading w)"
  have f: "drive_inv ?f ?A ?P" using \<open>world_inv w\<close> by (simp add: world_inv_def inv_cancel)
  obtain a f' s where r: "start_authorization bytes now origin canOpen popup (dw_form w) (dw_session w) = (a, f', s)"
    by (metis prod_cases3)
  have "drive_inv f' (?A \<union> set_option a) ?P"
  proof (cases a)
    case None
    with r f show ?thesis
      by (auto simp: start_authorization_def Let_def case_prod_unfold inv_fail split: if_splits)
  next
    case (Some b)
    let ?g = "?f\<lparr>df_active := Some b, df_isConsumed := False, df_nextId := df_nextId ?f + 1\<rparr>"
    from r Some have b: "da_id b = df_nextId ?f" and f': "f' = ?g\<lparr>df_status := DriveWaiting,
          df_opened := df_opened ?f @ [drive_parameters b]\<rparr>
        \<or> f' = fail_authorization ''popupBlocked'' (?g\<lparr>df_status := DriveWaiting,
          df_opened := df_opened ?f @ [drive_parameters b]\<rparr>)"
      by (auto simp: start_authorization_def Let_def case_prod_unfold split: if_splits)
    have g: "drive_inv ?g (insert b ?A) ?P" using f b by (rule inv_begin)
    from f' g Some show ?thesis by (elim disjE) (simp_all add: inv_unobserved inv_fail)
  qed
  moreover have "set (case a of None \<Rightarrow> [] | Some a \<Rightarrow> [a]) = set_option a" by (cases a) simp_all
  ultimately show ?thesis by (simp add: r world_inv_def)
qed

lemma message_inv: "world_inv w \<Longrightarrow> world_inv (drive_step sn w (DvMessage i isSameOrigin data now))"
proof (cases "i < length (dw_attempts w)")
  case True
  assume w: "world_inv w"
  let ?a = "dw_attempts w ! i" and ?f = "dw_form w"
  let ?A = "set (dw_attempts w)" and ?P = "set (dw_fetching w) \<union> set (dw_reading w)"
  have a: "?a \<in> ?A" using True by simp
  have f: "drive_inv ?f ?A ?P" using w by (simp add: world_inv_def)
  obtain x f' s where r: "on_message isSameOrigin data now ?a ?f (dw_session w) = (x, f', s)"
    by (metis prod_cases3)
  have "x \<and> fst (is_current_attempt ?a ?f (dw_session w)) \<and> \<not> df_isConsumed ?f
        \<and> (\<exists>code l. f' = start_exchange ?a code (?f\<lparr>df_isConsumed := True, df_acknowledged := l\<rparr>))
      \<or> \<not> x \<and> (f' = ?f \<or> (\<exists>key. f' = fail_authorization key ?f)
        \<or> (\<exists>key l. f' = fail_authorization key (?f\<lparr>df_isConsumed := True, df_acknowledged := l\<rparr>)))"
    using r unfolding on_message_def Let_def case_prod_unfold
    by (auto split: if_splits)
  then have "drive_inv f' ?A ((if x then {?a} else {}) \<union> ?P)"
    using inv_exchange [OF f a] f by (auto simp: inv_fail inv_unobserved inv_consumed)
  then show ?thesis using True by (cases x) (simp_all add: r world_inv_def)
qed simp

lemma timer_inv: "world_inv w \<Longrightarrow> world_inv (drive_step sn w (DvTimer i))"
  by (simp add: world_inv_def fire_timer_def case_prod_unfold Let_def inv_fail)

lemma fetched_inv: "world_inv w \<Longrightarrow> world_inv (drive_step sn w (DvFetched i answer))"
proof (cases "i < length (dw_fetching w)")
  case True
  assume w: "world_inv w"
  let ?a = "dw_fetching w ! i"
  let ?A = "set (dw_attempts w)" and ?P = "set (dw_fetching w) \<union> set (dw_reading w)"
  obtain x f s where r: "settle_fetch ?a answer (dw_form w) (dw_session w) = (x, f, s)"
    by (metis prod_cases3)
  then have "f = dw_form w \<or> f = fail_authorization ''exchangeFailed'' (dw_form w)"
    by (auto simp: settle_fetch_def Let_def case_prod_unfold split: if_splits)
  then have "drive_inv f ?A ?P" using w by (auto simp: world_inv_def inv_fail)
  then have "drive_inv f ?A (set (without_nth i (dw_fetching w)) \<union> set (dw_reading w @ (if x then [?a] else [])))"
    by (rule inv_pending) (use True without_nth_subset [of i "dw_fetching w"] in auto)
  with True show ?thesis by (simp add: r world_inv_def)
qed simp

lemma read_inv: "world_inv w \<Longrightarrow> world_inv (drive_step sn w (DvRead i answer))"
proof (cases "i < length (dw_reading w)")
  case True
  assume w: "world_inv w"
  let ?a = "dw_reading w ! i" and ?f = "dw_form w"
  let ?A = "set (dw_attempts w)" and ?P = "set (dw_fetching w) \<union> set (dw_reading w)"
  have i: "drive_inv ?f ?A ?P" using w by (simp add: world_inv_def)
  have a: "?a \<in> ?P" using True by simp
  obtain f s where r: "settle_token sn ?a answer ?f (dw_session w) = (f, s)" by force
  then have "f = ?f \<or> (\<exists>key. f = fail_authorization key ?f)
      \<or> fst (is_current_attempt ?a ?f (dw_session w))
        \<and> (\<exists>token. f = (release (?f\<lparr>df_saved := df_saved ?f @ [(?a, df_options ?f,
            token_settings sn token (do_settings (df_options ?f)))]\<rparr>))\<lparr>df_status := DriveAuthorized\<rparr>)"
    by (auto simp: settle_token_def Let_def case_prod_unfold split: if_splits sum.splits)
  then have "drive_inv f ?A ?P"
    using i inv_save [OF i a] by (auto simp: inv_fail inv_unobserved)
  then have "drive_inv f ?A (set (dw_fetching w) \<union> set (without_nth i (dw_reading w)))"
    by (rule inv_pending) (use without_nth_subset [of i "dw_reading w"] in auto)
  with True show ?thesis by (simp add: r world_inv_def)
qed simp

lemma world_step_inv: "world_inv w \<Longrightarrow> world_inv (drive_step sn w e)"
proof (cases e)
  case (DvStart bytes now origin canOpen popup)
  assume "world_inv w"
  then show ?thesis unfolding DvStart by (rule drive_start_inv)
next
  case (DvMessage i isSameOrigin data now)
  assume "world_inv w"
  then show ?thesis unfolding DvMessage by (rule message_inv)
next
  case (DvTimer i)
  assume "world_inv w"
  then show ?thesis unfolding DvTimer by (rule timer_inv)
next
  case (DvFetched i answer)
  assume "world_inv w"
  then show ?thesis unfolding DvFetched by (rule fetched_inv)
next
  case (DvRead i answer)
  assume "world_inv w"
  then show ?thesis unfolding DvRead by (rule read_inv)
qed (simp_all add: world_inv_def inv_cancel inv_release inv_render)

interpretation drive: invariant_machine "drive_step sn" world_inv
  by unfold_locales (rule world_step_inv)

definition opened_form :: "drive_options \<Rightarrow> 'l session_state \<Rightarrow> 'l drive_world" where
  "opened_form opts s = \<lparr>dw_form = mount_authorization opts, dw_session = s, dw_attempts = [],
     dw_fetching = [], dw_reading = []\<rparr>"

lemma opened_inv: "world_inv (opened_form opts s)"
  by (simp add: world_inv_def opened_form_def mount_authorization_def inv_cancel drive_inv_def)
    (simp add: cancel_authorization_def release_def)

text \<open>C3: Google's token reaches the settings only for the client they show. In every run of the form,
  whatever messages other windows send and however late answers come, a code is exchanged and a token
  saved at most once for each time the user asked; each code goes out with the client of its own attempt;
  and a token is put into settings that show the same client, workspace and storage as the request that
  brought it, changing no other field.\<close>

theorem token_saved_for_shown_client:
  fixes es :: "'l drive_event list" and s :: "'l session_state" and opts :: drive_options
    and sn :: "number \<Rightarrow> string"
  defines "w \<equiv> foldl (drive_step sn) (opened_form opts s) es"
  shows "distinct (map fst (df_exchanges (dw_form w))) \<and> distinct (saved_ids (dw_form w))
    \<and> list_all (\<lambda>(a, opts, fs). shown_for a opts \<and> (\<exists>r. (da_id a, r) \<in> set (df_exchanges (dw_form w))
        \<and> tr_clientId r = fld (do_settings opts) ''clientId''
        \<and> tr_clientSecret r = fld (do_settings opts) ''clientSecret'')
        \<and> delete_field ''tokenJson'' fs = delete_field ''tokenJson'' (do_settings opts))
      (df_saved (dw_form w))"
proof -
  have "world_inv w" unfolding w_def by (rule drive.run_inv) (rule opened_inv)
  then have inv: "drive_inv (dw_form w) (set (dw_attempts w)) (set (dw_fetching w) \<union> set (dw_reading w))"
    by (simp add: world_inv_def)
  have "shown_for a opts \<and> (\<exists>r. (da_id a, r) \<in> set (df_exchanges (dw_form w))
      \<and> tr_clientId r = fld (do_settings opts) ''clientId'' \<and> tr_clientSecret r = fld (do_settings opts) ''clientSecret'')
      \<and> delete_field ''tokenJson'' fs = delete_field ''tokenJson'' (do_settings opts)"
    if "(a, opts, fs) \<in> set (df_saved (dw_form w))" for a opts fs
  proof -
    from inv that have ok: "ok_save (df_exchanges (dw_form w)) (set (dw_attempts w)) (a, opts, fs)"
      by (simp add: drive_inv_def)
    then obtain r where r: "(da_id a, r) \<in> set (df_exchanges (dw_form w))" by (auto simp: ok_save_def)
    with inv obtain b where b: "b \<in> set (dw_attempts w)" "da_id b = da_id a" "request_of b r"
      by (fastforce simp: drive_inv_def)
    moreover have "a \<in> set (dw_attempts w)" using ok by (simp add: ok_save_def)
    ultimately have "b = a" using inv by (auto simp: drive_inv_def dest: inj_onD)
    with b ok r show ?thesis by (auto simp: ok_save_def request_of_def shown_for_def)
  qed
  with inv show ?thesis by (auto simp: list_all_iff drive_inv_def)
qed

section \<open>The two windows understand each other\<close>

lemma code_message_is_response:
  "is_attempt_state st \<Longrightarrow> trim c \<noteq> [] \<Longrightarrow> is_storage_authorization_response (code_message st c)"
proof -
  have "sort [''type'', ''state'', ''code''] = [''code'', ''state'', ''type'']" by code_simp
  then show "is_attempt_state st \<Longrightarrow> trim c \<noteq> [] \<Longrightarrow> ?thesis"
    by (simp add: is_storage_authorization_response_def code_message_def is_storage_authorization_state_def
        fld_def has_type_def sorted_keys_def nonblank_def)
qed

lemma refusal_message_is_response:
  "is_attempt_state st \<Longrightarrow> is_storage_authorization_response (refusal_message st)"
proof -
  have "sort [''type'', ''state''] = [''state'', ''type'']" by code_simp
  then show "is_attempt_state st \<Longrightarrow> ?thesis"
    by (simp add: is_storage_authorization_response_def refusal_message_def is_storage_authorization_state_def
        fld_def has_type_def sorted_keys_def)
qed

lemma posted_message:
  assumes "rp_posted (open_relay_page True query) = [(channel, m)]"
  shows "\<exists>st. query_get query ''state'' = Some st \<and> is_attempt_state st
    \<and> channel = get_storage_authorization_channel_name st
    \<and> rp_response (open_relay_page True query) = Some m \<and> rp_isOpen (open_relay_page True query)
    \<and> ((\<exists>c. query_get query ''code'' = Some c \<and> trim c \<noteq> [] \<and> m = code_message st c)
       \<or> query_get query ''code'' = None \<and> m = refusal_message st)"
  using assms
  by (auto simp: open_relay_page_def get_callback_response_def Let_def has_text_def code_message_def
      refusal_message_def text_field_def object_fields_def fld_def split: option.splits if_splits)

lemma ack_completes:
  assumes "rp_response p = Some m" and "rp_isOpen p" and "fld (object_fields m) ''state'' = JStr st"
  shows "rp_status (relay_message True (ack_message st) p) = RelayComplete"
proof -
  have "sort [''type'', ''state''] = [''state'', ''type'']" by code_simp
  with assms show ?thesis
    by (simp add: relay_message_def ack_message_def object_fields_def sorted_keys_def has_type_def fld_def)
qed

lemma message_fields:
  "fld (object_fields (code_message st c)) ''state'' = JStr st"
  "text_field (object_fields (code_message st c)) ''code'' = c"
  "\<not> has_type (object_fields (code_message st c)) ''refusal''"
  "fld (object_fields (refusal_message st)) ''state'' = JStr st"
  "has_type (object_fields (refusal_message st)) ''refusal''"
  by (simp_all add: code_message_def refusal_message_def object_fields_def fld_def text_field_def has_type_def)

text \<open>C19: The window Google sends the user back to and the form that sent him there understand each other.
  What the window posts goes to the channel of the state in its address; the form whose attempt has that
  state, while it is current and not older than ten minutes, exchanges exactly the code of the address or
  ends with a refusal, and its acknowledgement closes the window; any other form leaves the message alone.\<close>

theorem callback_reaches_its_form:
  assumes posted: "rp_posted (open_relay_page True query) = [(channel, m)]"
    and cur: "fst (is_current_attempt a f s)" and new: "\<not> df_isConsumed f"
    and age: "da_createdAt a \<le> now" "now < da_createdAt a + 600000"
  shows "(if query_get query ''state'' = Some (da_state a)
    then channel = get_storage_authorization_channel_name (da_state a)
      \<and> df_acknowledged (fst (snd (on_message True m now a f s)))
          = df_acknowledged f @ [(da_id a, ack_message (da_state a))]
      \<and> (case query_get query ''code'' of
           Some code \<Rightarrow> fst (on_message True m now a f s)
             \<and> map (tr_code \<circ> snd) (df_exchanges (fst (snd (on_message True m now a f s))))
                 = map (tr_code \<circ> snd) (df_exchanges f) @ [code]
         | None \<Rightarrow> \<not> fst (on_message True m now a f s)
             \<and> df_status (fst (snd (on_message True m now a f s))) = DriveError
             \<and> df_exchanges (fst (snd (on_message True m now a f s))) = df_exchanges f)
      \<and> rp_status (relay_message True (ack_message (da_state a)) (open_relay_page True query)) = RelayComplete
    else fst (snd (on_message True m now a f s)) = f)"
proof -
  from posted_message [OF posted] obtain st where st: "query_get query ''state'' = Some st"
      "is_attempt_state st" "channel = get_storage_authorization_channel_name st"
    and page: "rp_response (open_relay_page True query) = Some m" "rp_isOpen (open_relay_page True query)"
    and m: "(\<exists>c. query_get query ''code'' = Some c \<and> trim c \<noteq> [] \<and> m = code_message st c)
       \<or> query_get query ''code'' = None \<and> m = refusal_message st" by blast
  have state: "fld (object_fields m) ''state'' = JStr st" using m by (auto simp: message_fields)
  show ?thesis
  proof (cases "st = da_state a")
    case False
    then show ?thesis using st state by (simp add: on_message_def)
  next
    case True
    have ack: "rp_status (relay_message True (ack_message (da_state a)) (open_relay_page True query)) = RelayComplete"
      using ack_completes [OF page state] True by simp
    have lifetime: "\<not> (now - da_createdAt a < 0 \<or> now - da_createdAt a \<ge> attempt_lifetime)"
      using age by (simp add: attempt_lifetime_def)
    from m show ?thesis
    proof (elim disjE exE conjE)
      fix c
      assume c: "query_get query ''code'' = Some c" "trim c \<noteq> []" "m = code_message st c"
      then have "on_message True m now a f s = (True, start_exchange a c (f\<lparr>df_isConsumed := True,
          df_acknowledged := df_acknowledged f @ [(da_id a, ack_message (da_state a))]\<rparr>),
          snd (is_current_attempt a f s))"
        using cur new lifetime True code_message_is_response [OF st(2) c(2)]
        by (simp add: on_message_def message_fields case_prod_unfold Let_def)
      with c st True ack show ?thesis by (simp add: start_exchange_def)
    next
      assume r: "query_get query ''code'' = None" "m = refusal_message st"
      then have "on_message True m now a f s = (False, fail_authorization ''refused'' (f\<lparr>df_isConsumed := True,
          df_acknowledged := df_acknowledged f @ [(da_id a, ack_message (da_state a))]\<rparr>),
          snd (is_current_attempt a f s))"
        using cur new lifetime True refusal_message_is_response [OF st(2)]
        by (simp add: on_message_def message_fields case_prod_unfold Let_def)
      with r st True ack show ?thesis by (simp add: fail_authorization_def release_def)
    qed
  qed
qed

definition some_drive_options :: drive_options where
  "some_drive_options = \<lparr>do_workspaceId = ''w1'', do_storageId = None,
     do_settings = [(''type'', JStr ''GOOGLE_DRIVE''), (''clientId'', JStr ''client''), (''clientSecret'', JStr ''s'')]\<rparr>"

definition some_attempt_run :: "drive_attempt option \<times> drive_form \<times> nat session_state" where
  "some_attempt_run = start_authorization some_bytes 1000000 ''https://d'' True True
     (mount_authorization some_drive_options) signed_out_browser"

lemma callback_reaches_its_form_witness:
  "fst (on_message True (code_message (hex_state some_bytes) ''4/0A'') 1000900 (the (fst some_attempt_run))
     (fst (snd some_attempt_run)) (snd (snd some_attempt_run)))"
proof -
  let ?q = "[(''state'', hex_state some_bytes), (''code'', ''4/0A'')]"
  have t: "trim ''4/0A'' = ''4/0A''" by code_simp
  have b: "trim ''s'' = ''s''" by code_simp
  have posted: "rp_posted (open_relay_page True ?q) = [(get_storage_authorization_channel_name (hex_state some_bytes),
      code_message (hex_state some_bytes) ''4/0A'')]"
    using hex_state_is_attempt_state [OF some_bytes_random] t
    by (simp add: open_relay_page_def get_callback_response_def query_get_def query_all_def has_text_def
        code_message_def object_fields_def text_field_def fld_def)
  have "fst (is_current_attempt (the (fst some_attempt_run)) (fst (snd some_attempt_run)) (snd (snd some_attempt_run)))"
      "\<not> df_isConsumed (fst (snd some_attempt_run))" "da_createdAt (the (fst some_attempt_run)) = 1000000"
      "da_state (the (fst some_attempt_run)) = hex_state some_bytes"
    by (simp_all add: some_attempt_run_def start_authorization_def mount_authorization_def cancel_authorization_def
        release_def some_drive_options_def given_def nonblank_def fld_def js_truthy_def b signed_out_browser_def
        get_session_snapshot_def stored_text_def or_text_def initial_session_snapshot_def
        is_current_attempt_def is_current_session_def Let_def)
  with callback_reaches_its_form [OF posted this(1,2)] show ?thesis by (simp add: query_get_def)
qed

end
