(* ===== verification/Backup_Actions.thy ===== *)
theory Backup_Actions
  imports Paged_Controller Form_Fields Js_Text
begin

text \<open>
  What a user does to the backups of a database: the list's filter, the buttons each row shows
  (\<open>LogicalBackupActions.tsx\<close>, \<open>PhysicalBackupActions.tsx\<close>), the dialogs that ask before
  (\<open>LogicalBackupsComponent.tsx\<close>, \<open>PhysicalBackupsComponent.tsx\<close>) and the requests behind them
  (\<open>useLogicalBackupActions.ts\<close>, \<open>usePhysicalBackupActions.ts\<close>), over the paged list of \<open>Paged_Controller\<close>.

  An action is cut at its awaits; what waits is an entry of the pending list. \<open>isActive()\<close> is the argument
  \<open>active\<close>, the answer of the session guard at that moment. Rows are objects. A handler reads the flags
  of the last render, which is the current state. \<open>dayjs\<close>'s comparison is the parameter \<open>before\<close>.
\<close>

section \<open>The filter of the list\<close>

record list_filter =
  lf_statuses :: "string list option"
  lf_createdBefore :: "string option"

definition is_logical_backup_listed_by_filter ::
    "(string \<Rightarrow> string \<Rightarrow> bool) \<Rightarrow> fields \<Rightarrow> list_filter \<Rightarrow> bool" where
  "is_logical_backup_listed_by_filter before backup flt =
     ((case lf_statuses flt of None \<Rightarrow> True
       | Some ss \<Rightarrow> ss = [] \<or> text_field backup ''status'' \<in> set ss)
      \<and> (case lf_createdBefore flt of None \<Rightarrow> True
         | Some t \<Rightarrow> before (text_field backup ''createdAt'') t))"

definition handle_status_change :: "string list \<Rightarrow> list_filter \<Rightarrow> list_filter" where
  "handle_status_change statuses flt =
     flt\<lparr>lf_statuses := (if length statuses > 0 then Some statuses else None)\<rparr>"

definition handle_created_before_change :: "string option \<Rightarrow> list_filter \<Rightarrow> list_filter" where
  "handle_created_before_change isoDate flt = flt\<lparr>lf_createdBefore := isoDate\<rparr>"

definition is_any_filter_applied :: "list_filter \<Rightarrow> bool" where
  "is_any_filter_applied flt \<longleftrightarrow>
     (case lf_statuses flt of None \<Rightarrow> False | Some ss \<Rightarrow> length ss > 0) \<or> lf_createdBefore flt \<noteq> None"

section \<open>State of the logical backups' screen\<close>

datatype action_effect =
    FailureShown jsval
  | VerificationQueued
  | NavigatedToVerifications
  | LinkOpened string string

datatype action_pending =
    PendStart list_filter
  | PendCancel string
  | PendDelete string
  | PendReloadAfterDelete string
  | PendDownload string
  | PendVerify string

record logical_screen =
  lb_isStarting :: bool
  lb_cancellingId :: "string option"
  lb_deletingId :: "string option"
  lb_downloadingId :: "string option"
  lb_verifyingId :: "string option"
  lb_filter :: list_filter
  lb_deleteDialog :: "string option"
  lb_verifyDialog :: "string option"
  lb_isVerifyConfirmOpen :: bool
  lb_list :: controller
  lb_log :: "action_effect list"

section \<open>Buttons (LogicalBackupActions.tsx)\<close>

datatype row_button = CancelButton | DeleteButton | VerifyButton | RestoreButton | DownloadButton

text \<open>The buttons of a row with whether a click on each counts: a disabled or a loading one ignores it.\<close>

definition logical_row_buttons ::
    "bool \<Rightarrow> bool \<Rightarrow> fields \<Rightarrow> logical_screen \<Rightarrow> (row_button \<times> bool) list" where
  "logical_row_buttons isPostgresql isCanManageDBs backup s =
     (let status = text_field backup ''status''; own = Some (text_field backup ''id'') in
      if status = ''IN_PROGRESS'' \<and> isCanManageDBs then
        [(CancelButton, lb_cancellingId s \<noteq> own \<and> \<not> truthy (lb_cancellingId s))]
      else if status \<noteq> ''COMPLETED'' then []
      else if lb_deletingId s = own then [(DeleteButton, False)]
      else
        (if isCanManageDBs then [(DeleteButton, \<not> truthy (lb_deletingId s))] else [])
        @ (if isCanManageDBs \<and> isPostgresql
           then [(VerifyButton, lb_verifyingId s \<noteq> own \<and> \<not> truthy (lb_verifyingId s))] else [])
        @ [(RestoreButton, True),
           (DownloadButton, lb_downloadingId s \<noteq> own \<and> \<not> truthy (lb_downloadingId s))])"

definition is_start_enabled :: "logical_screen \<Rightarrow> bool" where
  "is_start_enabled s \<longleftrightarrow> \<not> lb_isStarting s \<and> ls_error (c_state (lb_list s)) = None"

section \<open>Actions up to the first await (useLogicalBackupActions.ts)\<close>

definition start_logical_backup :: "logical_screen \<Rightarrow> logical_screen \<times> action_pending list" where
  "start_logical_backup s = (s\<lparr>lb_isStarting := True\<rparr>, [PendStart (lb_filter s)])"

definition cancel_logical_backup :: "string \<Rightarrow> logical_screen \<Rightarrow> logical_screen \<times> action_pending list" where
  "cancel_logical_backup backupId s =
     (if truthy (lb_cancellingId s) then (s, [])
      else (s\<lparr>lb_cancellingId := Some backupId\<rparr>, [PendCancel backupId]))"

definition delete_logical_backup :: "string \<Rightarrow> logical_screen \<Rightarrow> logical_screen \<times> action_pending list" where
  "delete_logical_backup backupId s = (s\<lparr>lb_deletingId := Some backupId\<rparr>, [PendDelete backupId])"

definition download_logical_backup :: "string \<Rightarrow> logical_screen \<Rightarrow> logical_screen \<times> action_pending list" where
  "download_logical_backup backupId s =
     (if truthy (lb_downloadingId s) then (s, [])
      else (s\<lparr>lb_downloadingId := Some backupId\<rparr>, [PendDownload backupId]))"

definition start_verification :: "string \<Rightarrow> logical_screen \<Rightarrow> logical_screen \<times> action_pending list" where
  "start_verification backupId s = (s\<lparr>lb_verifyingId := Some backupId\<rparr>, [PendVerify backupId])"

section \<open>Actions after an await\<close>

definition log_action :: "action_effect list \<Rightarrow> logical_screen \<Rightarrow> logical_screen" where
  "log_action es s = s\<lparr>lb_log := lb_log s @ es\<rparr>"

definition show_failure :: "bool \<Rightarrow> jsval \<Rightarrow> logical_screen \<Rightarrow> logical_screen" where
  "show_failure active e s = (if active then log_action [FailureShown e] s else s)"

definition show_row :: "jsval \<Rightarrow> logical_screen \<Rightarrow> logical_screen" where
  "show_row row s = s\<lparr>lb_list := replace_or_prepend_item row (lb_list s)\<rparr>"

definition get_logical_backup_file_url :: "string \<Rightarrow> (string \<Rightarrow> string) \<Rightarrow> string \<Rightarrow> string \<Rightarrow> string" where
  "get_logical_backup_file_url server encodeQuery backupId token =
     server @ ''/api/v1/logical-backups/'' @ encode_uri_component backupId @ ''/file?token='' @ encodeQuery token"

text \<open>\<open>fileUrl\<close> is the address of a backup's file under a token. The end of the verification's dialog
  (\<open>onOk\<close>) follows in the same step.\<close>

fun settle_action ::
    "(string \<Rightarrow> string \<Rightarrow> bool) \<Rightarrow> (string \<Rightarrow> string \<Rightarrow> string) \<Rightarrow> bool \<Rightarrow> jsval + jsval \<Rightarrow> action_pending \<Rightarrow>
      logical_screen \<Rightarrow> logical_screen \<times> action_pending list" where
  "settle_action before fileUrl active answer (PendStart flt) s =
     ((case answer of
         Inr row \<Rightarrow> if active \<and> is_logical_backup_listed_by_filter before (object_fields row) flt
                    then show_row row s else s
       | Inl e \<Rightarrow> show_failure active e s)\<lparr>lb_isStarting := False\<rparr>, [])"
| "settle_action before fileUrl active answer (PendCancel i) s =
     ((case answer of Inr row \<Rightarrow> if active then show_row row s else s
       | Inl e \<Rightarrow> show_failure active e s)\<lparr>lb_cancellingId := None\<rparr>, [])"
| "settle_action before fileUrl active answer (PendDelete i) s =
     (case answer of
        Inr _ \<Rightarrow>
          (if active then (s\<lparr>lb_list := fst (start_reload (lb_list s))\<rparr>, [PendReloadAfterDelete i])
           else (s\<lparr>lb_deletingId := None\<rparr>, []))
      | Inl e \<Rightarrow> ((show_failure active e s)\<lparr>lb_deletingId := None\<rparr>, []))"
| "settle_action before fileUrl active answer (PendReloadAfterDelete i) s = (s\<lparr>lb_deletingId := None\<rparr>, [])"
| "settle_action before fileUrl active answer (PendDownload i) s =
     ((case answer of
         Inr token \<Rightarrow>
           if active then log_action [LinkOpened (fileUrl i (text_field (object_fields token) ''token''))
                            (text_field (object_fields token) ''fileName'')] s else s
       | Inl e \<Rightarrow> show_failure active e s)\<lparr>lb_downloadingId := None\<rparr>, [])"
| "settle_action before fileUrl active answer (PendVerify i) s =
     ((case answer of Inr _ \<Rightarrow> if active then log_action [VerificationQueued, NavigatedToVerifications] s else s
       | Inl e \<Rightarrow> show_failure active e s)\<lparr>lb_verifyingId := None, lb_isVerifyConfirmOpen := False\<rparr>, [])"

section \<open>Clicks (LogicalBackupsComponent.tsx)\<close>

definition confirm_verify_restore :: "string \<Rightarrow> logical_screen \<Rightarrow> logical_screen" where
  "confirm_verify_restore backupId s =
     (if lb_isVerifyConfirmOpen s then s
      else s\<lparr>lb_isVerifyConfirmOpen := True, lb_verifyDialog := Some backupId\<rparr>)"

definition cancel_verify_dialog :: "logical_screen \<Rightarrow> logical_screen" where
  "cancel_verify_dialog s = s\<lparr>lb_isVerifyConfirmOpen := False, lb_verifyDialog := None\<rparr>"

definition confirm_delete :: "logical_screen \<Rightarrow> logical_screen \<times> action_pending list" where
  "confirm_delete s = (case lb_deleteDialog s of
       None \<Rightarrow> (s, [])
     | Some i \<Rightarrow> delete_logical_backup i (s\<lparr>lb_deleteDialog := None\<rparr>))"

text \<open>\<open>onOk\<close> of the dialog: while its promise is open the button is loading, so that the dialog cannot be
  confirmed twice.\<close>

definition confirm_verification :: "logical_screen \<Rightarrow> logical_screen \<times> action_pending list" where
  "confirm_verification s = (case lb_verifyDialog s of
       None \<Rightarrow> (s, [])
     | Some i \<Rightarrow> start_verification i (s\<lparr>lb_verifyDialog := None\<rparr>))"

definition click_row_button ::
    "row_button \<Rightarrow> string \<Rightarrow> logical_screen \<Rightarrow> logical_screen \<times> action_pending list" where
  "click_row_button b backupId s = (case b of
       CancelButton \<Rightarrow> cancel_logical_backup backupId s
     | DeleteButton \<Rightarrow> (s\<lparr>lb_deleteDialog := Some backupId\<rparr>, [])
     | VerifyButton \<Rightarrow> (confirm_verify_restore backupId s, [])
     | RestoreButton \<Rightarrow> (s, [])
     | DownloadButton \<Rightarrow> download_logical_backup backupId s)"

section \<open>Physical backups (PhysicalBackupActions.tsx, usePhysicalBackupActions.ts)\<close>

record physical_screen =
  pb_isStarting :: bool
  pb_cancellingId :: "string option"
  pb_deletingId :: "string option"
  pb_list :: controller
  pb_log :: "jsval list"

datatype physical_pending =
    PhStart
  | PhCancel string
  | PhRefreshAfterCancel string
  | PhDelete string
  | PhReloadAfterDelete string

definition physical_row_buttons :: "bool \<Rightarrow> fields \<Rightarrow> physical_screen \<Rightarrow> (row_button \<times> bool) list" where
  "physical_row_buttons isCanManageDBs backup s =
     (let status = text_field backup ''status''; own = Some (text_field backup ''id'') in
      if text_field backup ''type'' = ''WAL'' then []
      else (if status = ''IN_PROGRESS'' \<and> isCanManageDBs
            then [(CancelButton, pb_cancellingId s \<noteq> own \<and> \<not> truthy (pb_cancellingId s))] else [])
        @ (if status = ''COMPLETED''
           then (RestoreButton, True) # (if isCanManageDBs
             then [(DeleteButton, pb_deletingId s \<noteq> own \<and> \<not> truthy (pb_deletingId s))] else []) else []))"

text \<open>\<open>isBackupsEnabled\<close> and \<open>storageId\<close> of the configuration, once it is loaded.\<close>

definition is_start_refused_by_config :: "(bool \<times> string option) option \<Rightarrow> bool" where
  "is_start_refused_by_config config = (case config of None \<Rightarrow> False
     | Some (isBackupsEnabled, storageId) \<Rightarrow> \<not> isBackupsEnabled \<or> \<not> truthy storageId)"

definition is_physical_start_enabled :: "(bool \<times> string option) option \<Rightarrow> physical_screen \<Rightarrow> bool" where
  "is_physical_start_enabled config s \<longleftrightarrow> \<not> pb_isStarting s
     \<and> ls_error (c_state (pb_list s)) = None \<and> \<not> is_start_refused_by_config config"

definition start_physical_backup :: "physical_screen \<Rightarrow> physical_screen \<times> physical_pending list" where
  "start_physical_backup s = (s\<lparr>pb_isStarting := True\<rparr>, [PhStart])"

definition cancel_physical_backup :: "string \<Rightarrow> physical_screen \<Rightarrow> physical_screen \<times> physical_pending list" where
  "cancel_physical_backup backupId s =
     (if truthy (pb_cancellingId s) then (s, [])
      else (s\<lparr>pb_cancellingId := Some backupId\<rparr>, [PhCancel backupId]))"

definition delete_physical_backup :: "string \<Rightarrow> physical_screen \<Rightarrow> physical_screen \<times> physical_pending list" where
  "delete_physical_backup backupId s = (s\<lparr>pb_deletingId := Some backupId\<rparr>, [PhDelete backupId])"

definition show_physical_failure :: "bool \<Rightarrow> jsval \<Rightarrow> physical_screen \<Rightarrow> physical_screen" where
  "show_physical_failure active e s = (if active then s\<lparr>pb_log := pb_log s @ [e]\<rparr> else s)"

fun settle_physical_action ::
    "bool \<Rightarrow> jsval + unit \<Rightarrow> physical_pending \<Rightarrow> physical_screen \<Rightarrow> physical_screen \<times> physical_pending list" where
  "settle_physical_action active answer PhStart s =
     ((case answer of Inr _ \<Rightarrow> s | Inl e \<Rightarrow> show_physical_failure active e s)\<lparr>pb_isStarting := False\<rparr>, [])"
| "settle_physical_action active answer (PhCancel i) s =
     (case answer of
        Inr _ \<Rightarrow>
          (if active then (s\<lparr>pb_list := fst (start_refresh (pb_list s))\<rparr>, [PhRefreshAfterCancel i])
           else (s\<lparr>pb_cancellingId := None\<rparr>, []))
      | Inl e \<Rightarrow> ((show_physical_failure active e s)\<lparr>pb_cancellingId := None\<rparr>, []))"
| "settle_physical_action active answer (PhRefreshAfterCancel i) s = (s\<lparr>pb_cancellingId := None\<rparr>, [])"
| "settle_physical_action active answer (PhDelete i) s =
     (case answer of
        Inr _ \<Rightarrow>
          (if active then (s\<lparr>pb_list := fst (start_reload (pb_list s))\<rparr>, [PhReloadAfterDelete i])
           else (s\<lparr>pb_deletingId := None\<rparr>, []))
      | Inl e \<Rightarrow> ((show_physical_failure active e s)\<lparr>pb_deletingId := None\<rparr>, []))"
| "settle_physical_action active answer (PhReloadAfterDelete i) s = (s\<lparr>pb_deletingId := None\<rparr>, [])"

section \<open>Runs of the logical backups' screen\<close>

text \<open>The screen and what is on its way. A click counts only if the button of a shown row is there and enabled;
  the list may change in any way between two events.\<close>

datatype screen_event =
    SeStart
  | SeRow row_button bool bool fields
  | SeConfirmDelete
  | SeDeclineDelete
  | SeConfirmVerification
  | SeCancelVerification
  | SeFilter list_filter
  | SeList controller
  | SeSettle nat bool "jsval + jsval"

definition without_pending :: "nat \<Rightarrow> 'a list \<Rightarrow> 'a list" where
  "without_pending i ps = take i ps @ drop (Suc i) ps"

definition add_pending :: "'a list \<Rightarrow> 's \<times> 'a list \<Rightarrow> 's \<times> 'a list" where
  "add_pending ps r = (fst r, ps @ snd r)"

fun screen_event_step ::
    "(string \<Rightarrow> string \<Rightarrow> bool) \<Rightarrow> (string \<Rightarrow> string \<Rightarrow> string) \<Rightarrow>
      logical_screen \<times> action_pending list \<Rightarrow> screen_event \<Rightarrow> logical_screen \<times> action_pending list" where
  "screen_event_step before fileUrl (s, ps) SeStart =
     (if is_start_enabled s then add_pending ps (start_logical_backup s) else (s, ps))"
| "screen_event_step before fileUrl (s, ps) (SeRow b isPostgresql isCanManageDBs backup) =
     (if (b, True) \<in> set (logical_row_buttons isPostgresql isCanManageDBs backup s)
      then add_pending ps (click_row_button b (text_field backup ''id'') s) else (s, ps))"
| "screen_event_step before fileUrl (s, ps) SeConfirmDelete = add_pending ps (confirm_delete s)"
| "screen_event_step before fileUrl (s, ps) SeDeclineDelete = (s\<lparr>lb_deleteDialog := None\<rparr>, ps)"
| "screen_event_step before fileUrl (s, ps) SeConfirmVerification = add_pending ps (confirm_verification s)"
| "screen_event_step before fileUrl (s, ps) SeCancelVerification = (cancel_verify_dialog s, ps)"
| "screen_event_step before fileUrl (s, ps) (SeFilter f) = (s\<lparr>lb_filter := f\<rparr>, ps)"
| "screen_event_step before fileUrl (s, ps) (SeList c) = (s\<lparr>lb_list := c\<rparr>, ps)"
| "screen_event_step before fileUrl (s, ps) (SeSettle i active answer) =
     (if i < length ps
      then add_pending (without_pending i ps) (settle_action before fileUrl active answer (ps ! i) s)
      else (s, ps))"

definition opened_logical_screen :: "controller \<Rightarrow> list_filter \<Rightarrow> logical_screen" where
  "opened_logical_screen c f = \<lparr>lb_isStarting = False, lb_cancellingId = None, lb_deletingId = None,
     lb_downloadingId = None, lb_verifyingId = None, lb_filter = f, lb_deleteDialog = None,
     lb_verifyDialog = None, lb_isVerifyConfirmOpen = False, lb_list = c, lb_log = []\<rparr>"

section \<open>Lemmas\<close>

text \<open>The requests of one kind that are on their way, by the backup they are about.\<close>

definition starts :: "action_pending list \<Rightarrow> unit list" where
  "starts ps = concat (map (\<lambda>p. case p of PendStart f \<Rightarrow> [()] | _ \<Rightarrow> []) ps)"

definition cancels :: "action_pending list \<Rightarrow> string list" where
  "cancels ps = concat (map (\<lambda>p. case p of PendCancel i \<Rightarrow> [i] | _ \<Rightarrow> []) ps)"

definition deletes :: "action_pending list \<Rightarrow> string list" where
  "deletes ps = concat (map (\<lambda>p. case p of PendDelete i \<Rightarrow> [i] | PendReloadAfterDelete i \<Rightarrow> [i] | _ \<Rightarrow> []) ps)"

definition downloads :: "action_pending list \<Rightarrow> string list" where
  "downloads ps = concat (map (\<lambda>p. case p of PendDownload i \<Rightarrow> [i] | _ \<Rightarrow> []) ps)"

definition verifications :: "action_pending list \<Rightarrow> string list" where
  "verifications ps = concat (map (\<lambda>p. case p of PendVerify i \<Rightarrow> [i] | _ \<Rightarrow> []) ps)"

definition option_list :: "'a option \<Rightarrow> 'a list" where
  "option_list x = (case x of None \<Rightarrow> [] | Some a \<Rightarrow> [a])"

lemma option_list_simps [simp]: "option_list None = []" "option_list (Some a) = [a]"
  by (simp_all add: option_list_def)

lemma option_list_length: "length (option_list x) \<le> 1"
  by (cases x) simp_all

lemmas kinds = starts_def cancels_def deletes_def downloads_def verifications_def

definition actions_inv :: "logical_screen \<times> action_pending list \<Rightarrow> bool" where
  "actions_inv = (\<lambda>(s, ps).
     starts ps = option_list (if lb_isStarting s then Some () else None)
     \<and> cancels ps = option_list (lb_cancellingId s) \<and> deletes ps = option_list (lb_deletingId s)
     \<and> downloads ps = option_list (lb_downloadingId s) \<and> verifications ps = option_list (lb_verifyingId s)
     \<and> lb_cancellingId s \<noteq> Some [] \<and> lb_deletingId s \<noteq> Some [] \<and> lb_downloadingId s \<noteq> Some []
     \<and> lb_verifyingId s \<noteq> Some [] \<and> lb_deleteDialog s \<noteq> Some [] \<and> lb_verifyDialog s \<noteq> Some []
     \<and> (lb_deleteDialog s \<noteq> None \<longrightarrow> lb_deletingId s = None)
     \<and> (lb_verifyDialog s \<noteq> None \<longrightarrow> lb_verifyingId s = None))"

fun event_with_id :: "screen_event \<Rightarrow> bool" where
  "event_with_id (SeRow b isPostgresql isCanManageDBs backup) \<longleftrightarrow> text_field backup ''id'' \<noteq> []"
| "event_with_id _ \<longleftrightarrow> True"

lemma kinds_append:
  "starts (ps @ qs) = starts ps @ starts qs" "cancels (ps @ qs) = cancels ps @ cancels qs"
  "deletes (ps @ qs) = deletes ps @ deletes qs" "downloads (ps @ qs) = downloads ps @ downloads qs"
  "verifications (ps @ qs) = verifications ps @ verifications qs"
  by (simp_all add: kinds)

lemma kinds_nil: "starts [] = []" "cancels [] = []" "deletes [] = []" "downloads [] = []" "verifications [] = []"
  by (simp_all add: kinds)

lemma reload_kinds:
  "starts [PendReloadAfterDelete i] = []" "cancels [PendReloadAfterDelete i] = []"
  "deletes [PendReloadAfterDelete i] = [i]" "downloads [PendReloadAfterDelete i] = []"
  "verifications [PendReloadAfterDelete i] = []"
  by (simp_all add: kinds)

text \<open>A request of a kind that settles takes the kind's flag with it; any other leaves the kind alone.\<close>

lemma kind_settled:
  assumes append: "\<And>xs ys. K (xs @ ys) = K xs @ K ys"
    and flag: "K ps = option_list flag" and i: "i < length ps"
    and other: "K [ps ! i] = [] \<Longrightarrow> K new = [] \<and> flag' = flag"
    and own: "\<And>j. K [ps ! i] = [j] \<Longrightarrow> flag = Some j \<Longrightarrow> K new = option_list flag'"
  shows "K (without_pending i ps @ new) = option_list flag'"
proof -
  have "ps = take i ps @ [ps ! i] @ drop (Suc i) ps" using i by (simp add: id_take_nth_drop)
  then have split: "K (take i ps) @ K [ps ! i] @ K (drop (Suc i) ps) = option_list flag"
    using flag append by metis
  then consider "K [ps ! i] = []"
    | j where "K [ps ! i] = [j]" "K (take i ps) = []" "K (drop (Suc i) ps) = []" "flag = Some j"
    by (cases flag) (auto simp: append_eq_Cons_conv)
  then show ?thesis
  proof cases
    case 1
    then show ?thesis using split other by (simp add: without_pending_def append)
  next
    case 2
    then show ?thesis using own by (simp add: without_pending_def append)
  qed
qed

text \<open>What an action leaves untouched.\<close>

lemma settled_fields:
  "lb_deleteDialog (fst (settle_action before fileUrl active answer p s)) = lb_deleteDialog s"
  "lb_verifyDialog (fst (settle_action before fileUrl active answer p s)) = lb_verifyDialog s"
  by (cases p; cases answer; simp add: show_failure_def log_action_def show_row_def)+

lemma settled_flags:
  "lb_isStarting (fst (settle_action before fileUrl active answer p s)) =
     (if starts [p] \<noteq> [] then False else lb_isStarting s)"
  "lb_cancellingId (fst (settle_action before fileUrl active answer p s)) =
     (if cancels [p] \<noteq> [] then None else lb_cancellingId s)"
  "lb_downloadingId (fst (settle_action before fileUrl active answer p s)) =
     (if downloads [p] \<noteq> [] then None else lb_downloadingId s)"
  "lb_verifyingId (fst (settle_action before fileUrl active answer p s)) =
     (if verifications [p] \<noteq> [] then None else lb_verifyingId s)"
  "lb_deletingId (fst (settle_action before fileUrl active answer p s)) =
     (if deletes [p] \<noteq> [] \<and> snd (settle_action before fileUrl active answer p s) = []
      then None else lb_deletingId s)"
  by (cases p; cases answer; simp add: kinds show_failure_def log_action_def show_row_def)+

lemma settled_pending:
  "snd (settle_action before fileUrl active answer p s) = []
   \<or> (\<exists>i. deletes [p] = [i] \<and> snd (settle_action before fileUrl active answer p s) = [PendReloadAfterDelete i])"
  by (cases p; cases answer; simp add: kinds)

lemma settle_inv:
  assumes inv: "actions_inv (s, ps)" and i: "i < length ps"
  shows "actions_inv (add_pending (without_pending i ps) (settle_action before fileUrl active answer (ps ! i) s))"
proof -
  let ?p = "ps ! i" and ?r = "settle_action before fileUrl active answer (ps ! i) s"
  note pending = settled_pending [of before fileUrl active answer ?p s]
  have "starts (without_pending i ps @ snd ?r) = option_list (if lb_isStarting (fst ?r) then Some () else None)"
    by (rule kind_settled [of starts ps "if lb_isStarting s then Some () else None" i "snd ?r" "if lb_isStarting (fst ?r) then Some () else None", OF kinds_append(1) _ i])
      (use inv pending in \<open>auto simp: actions_inv_def settled_flags reload_kinds kinds_nil\<close>)
  moreover have "cancels (without_pending i ps @ snd ?r) = option_list (lb_cancellingId (fst ?r))"
    by (rule kind_settled [of cancels ps "lb_cancellingId s" i "snd ?r" "lb_cancellingId (fst ?r)", OF kinds_append(2) _ i])
      (use inv pending in \<open>auto simp: actions_inv_def settled_flags reload_kinds kinds_nil\<close>)
  moreover have "deletes (without_pending i ps @ snd ?r) = option_list (lb_deletingId (fst ?r))"
    by (rule kind_settled [of deletes ps "lb_deletingId s" i "snd ?r" "lb_deletingId (fst ?r)", OF kinds_append(3) _ i])
      (use inv pending in \<open>auto simp: actions_inv_def settled_flags reload_kinds kinds_nil\<close>)
  moreover have "downloads (without_pending i ps @ snd ?r) = option_list (lb_downloadingId (fst ?r))"
    by (rule kind_settled [of downloads ps "lb_downloadingId s" i "snd ?r" "lb_downloadingId (fst ?r)", OF kinds_append(4) _ i])
      (use inv pending in \<open>auto simp: actions_inv_def settled_flags reload_kinds kinds_nil\<close>)
  moreover have "verifications (without_pending i ps @ snd ?r) = option_list (lb_verifyingId (fst ?r))"
    by (rule kind_settled [of verifications ps "lb_verifyingId s" i "snd ?r" "lb_verifyingId (fst ?r)", OF kinds_append(5) _ i])
      (use inv pending in \<open>auto simp: actions_inv_def settled_flags reload_kinds kinds_nil\<close>)
  moreover have "lb_cancellingId (fst ?r) \<noteq> Some []" "lb_deletingId (fst ?r) \<noteq> Some []"
    "lb_downloadingId (fst ?r) \<noteq> Some []" "lb_verifyingId (fst ?r) \<noteq> Some []"
    "lb_deleteDialog s \<noteq> None \<longrightarrow> lb_deletingId (fst ?r) = None"
    "lb_verifyDialog s \<noteq> None \<longrightarrow> lb_verifyingId (fst ?r) = None"
    using inv by (simp_all add: settled_flags actions_inv_def)
  moreover have "lb_deleteDialog s \<noteq> Some []" "lb_verifyDialog s \<noteq> Some []"
    using inv by (simp_all add: actions_inv_def)
  ultimately show ?thesis
    unfolding actions_inv_def add_pending_def prod.case settled_fields by (intro conjI)
qed

lemma started_kinds:
  "starts [PendStart f] = [()]" "cancels [PendStart f] = []" "deletes [PendStart f] = []"
  "downloads [PendStart f] = []" "verifications [PendStart f] = []"
  "starts [PendCancel i] = []" "cancels [PendCancel i] = [i]" "deletes [PendCancel i] = []"
  "downloads [PendCancel i] = []" "verifications [PendCancel i] = []"
  "starts [PendDelete i] = []" "cancels [PendDelete i] = []" "deletes [PendDelete i] = [i]"
  "downloads [PendDelete i] = []" "verifications [PendDelete i] = []"
  "starts [PendDownload i] = []" "cancels [PendDownload i] = []" "deletes [PendDownload i] = []"
  "downloads [PendDownload i] = [i]" "verifications [PendDownload i] = []"
  "starts [PendVerify i] = []" "cancels [PendVerify i] = []" "deletes [PendVerify i] = []"
  "downloads [PendVerify i] = []" "verifications [PendVerify i] = [i]"
  by (simp_all add: kinds)

lemma enabled_buttons:
  assumes "(b, True) \<in> set (logical_row_buttons isPostgresql isCanManageDBs backup s)"
  shows "case b of CancelButton \<Rightarrow> \<not> truthy (lb_cancellingId s) | DeleteButton \<Rightarrow> \<not> truthy (lb_deletingId s)
    | VerifyButton \<Rightarrow> \<not> truthy (lb_verifyingId s) | RestoreButton \<Rightarrow> True
    | DownloadButton \<Rightarrow> \<not> truthy (lb_downloadingId s)"
  using assms by (cases b) (auto simp: logical_row_buttons_def Let_def split: if_splits)

lemma not_truthy: "\<not> truthy x \<Longrightarrow> x \<noteq> Some [] \<Longrightarrow> x = None"
  by (auto simp: truthy_def)

lemma click_inv:
  assumes inv: "actions_inv (s, ps)" and i: "i \<noteq> []"
    and b: "(b, True) \<in> set (logical_row_buttons isPostgresql isCanManageDBs backup s)"
  shows "actions_inv (add_pending ps (click_row_button b i s))"
proof (cases b)
  case CancelButton
  then have "lb_cancellingId s = None" using enabled_buttons [OF b] inv not_truthy by (simp add: actions_inv_def)
  with inv i CancelButton show ?thesis
    by (simp add: actions_inv_def add_pending_def click_row_button_def cancel_logical_backup_def truthy_def
        kinds_append started_kinds)
next
  case DeleteButton
  then have "lb_deletingId s = None" using enabled_buttons [OF b] inv not_truthy by (simp add: actions_inv_def)
  with inv i DeleteButton show ?thesis by (simp add: actions_inv_def add_pending_def click_row_button_def)
next
  case VerifyButton
  then have "lb_verifyingId s = None" using enabled_buttons [OF b] inv not_truthy by (simp add: actions_inv_def)
  with inv i VerifyButton show ?thesis
    by (simp add: actions_inv_def add_pending_def click_row_button_def confirm_verify_restore_def)
next
  case RestoreButton
  with inv show ?thesis by (simp add: add_pending_def click_row_button_def)
next
  case DownloadButton
  then have "lb_downloadingId s = None" using enabled_buttons [OF b] inv not_truthy by (simp add: actions_inv_def)
  with inv i DownloadButton show ?thesis
    by (simp add: actions_inv_def add_pending_def click_row_button_def download_logical_backup_def truthy_def
        kinds_append started_kinds)
qed

lemma actions_start_inv: "actions_inv (s, ps) \<Longrightarrow> actions_inv (screen_event_step before fileUrl (s, ps) SeStart)"
  by (auto simp: actions_inv_def add_pending_def start_logical_backup_def is_start_enabled_def kinds_append
      started_kinds)

lemma confirm_delete_inv: "actions_inv (s, ps) \<Longrightarrow> actions_inv (add_pending ps (confirm_delete s))"
  by (cases "lb_deleteDialog s")
    (simp_all add: actions_inv_def add_pending_def confirm_delete_def delete_logical_backup_def kinds_append started_kinds)

lemma confirm_verification_inv:
  "actions_inv (s, ps) \<Longrightarrow> actions_inv (add_pending ps (confirm_verification s))"
  by (cases "lb_verifyDialog s")
    (simp_all add: actions_inv_def add_pending_def confirm_verification_def start_verification_def kinds_append
      started_kinds)

lemma screen_step_inv:
  assumes inv: "actions_inv x" and e: "event_with_id e"
  shows "actions_inv (screen_event_step before fileUrl x e)"
proof -
  obtain s ps where x: "x = (s, ps)" by (cases x)
  note inv = inv [unfolded x]
  show ?thesis
  proof (cases e)
    case SeStart
    show ?thesis unfolding SeStart x using inv by (rule actions_start_inv)
  next
    case (SeRow b isPostgresql isCanManageDBs backup)
    with e inv show ?thesis by (simp add: x click_inv)
  next
    case SeConfirmDelete
    with inv show ?thesis by (simp add: x confirm_delete_inv)
  next
    case SeConfirmVerification
    with inv show ?thesis by (simp add: x confirm_verification_inv)
  next
    case (SeSettle i active answer)
    with inv show ?thesis by (simp add: x settle_inv)
  qed (use inv in \<open>auto simp: x actions_inv_def cancel_verify_dialog_def\<close>)
qed

interpretation screen: guarded_machine "screen_event_step before fileUrl" actions_inv event_with_id
  for before fileUrl
  by unfold_locales (rule screen_step_inv)

text \<open>C16: However a user clicks and whenever answers come, the screen has at most one request of each kind on
  its way, and shows as busy exactly the backup that request is about: a flag is set when, and only when, its
  request or the reload after it is still open, so no flag outlives its answer and no backup is cancelled,
  deleted, downloaded or verified twice at once. Rows have an id.\<close>

theorem one_request_of_each_kind:
  assumes "list_all event_with_id es"
  shows "case foldl (screen_event_step before fileUrl) (opened_logical_screen c f, []) es of (s, ps) \<Rightarrow>
    starts ps = option_list (if lb_isStarting s then Some () else None)
    \<and> cancels ps = option_list (lb_cancellingId s) \<and> deletes ps = option_list (lb_deletingId s)
    \<and> downloads ps = option_list (lb_downloadingId s) \<and> verifications ps = option_list (lb_verifyingId s)"
proof -
  have "actions_inv (opened_logical_screen c f, [])"
    by (simp add: actions_inv_def opened_logical_screen_def kinds_nil)
  from screen.guarded_run_inv [OF this assms, of before fileUrl] show ?thesis by (simp add: actions_inv_def case_prod_unfold)
qed

definition finished_row :: fields where
  "finished_row = [(''id'', JStr ''b1''), (''status'', JStr ''COMPLETED''), (''createdAt'', JStr ''2026-01-01'')]"

definition no_filter :: list_filter where
  "no_filter = \<lparr>lf_statuses = None, lf_createdBefore = None\<rparr>"

definition empty_list :: controller where
  "empty_list = new_controller (\<lambda>v. text_field (object_fields v) ''id'')"

lemma one_request_of_each_kind_witness:
  "case foldl (screen_event_step (\<lambda>_ _. True) (\<lambda>_ _. [])) (opened_logical_screen empty_list no_filter, [])
      [SeRow DeleteButton True True finished_row, SeConfirmDelete] of (s, ps) \<Rightarrow>
    starts ps = option_list (if lb_isStarting s then Some () else None)
    \<and> cancels ps = option_list (lb_cancellingId s) \<and> deletes ps = option_list (lb_deletingId s)
    \<and> downloads ps = option_list (lb_downloadingId s) \<and> verifications ps = option_list (lb_verifyingId s)"
  by (rule one_request_of_each_kind) (simp add: finished_row_def text_field_def fld_def)

section \<open>What the list shows of an answer\<close>

text \<open>The rule the filter stands for: a started backup goes into the list only if the list, under the
  filter of the click, would show it.\<close>

lemma started_backup_shown_where_listed:
  "lb_list (fst (settle_action before fileUrl active (Inr row) (PendStart flt) s)) =
     (if active \<and> is_logical_backup_listed_by_filter before (object_fields row) flt
      then replace_or_prepend_item row (lb_list s) else lb_list s)"
  by (simp add: show_row_def)

text \<open>A cancelled backup does not follow it: it stays in a list of the backups in progress.\<close>

definition canceled_row :: jsval where
  "canceled_row = JObj [(''id'', JStr ''b1''), (''status'', JStr ''CANCELED''), (''createdAt'', JStr ''2026-01-01'')]"

definition in_progress_filter :: list_filter where
  "in_progress_filter = \<lparr>lf_statuses = Some [''IN_PROGRESS''], lf_createdBefore = None\<rparr>"

lemma cancelled_backup_shown_outside_filter:
  "\<not> is_logical_backup_listed_by_filter before (object_fields canceled_row) in_progress_filter
   \<and> items (ls_list (c_state (lb_list (fst (settle_action before fileUrl True (Inr canceled_row) (PendCancel ''b1'')
       (opened_logical_screen empty_list in_progress_filter)))))) = [canceled_row]"
  by (simp add: is_logical_backup_listed_by_filter_def canceled_row_def in_progress_filter_def object_fields_def
      text_field_def fld_def show_row_def replace_or_prepend_item_def opened_logical_screen_def empty_list_def
      new_controller_def initial_list_state_def update_state_def log_effect_def Let_def)

text \<open>The panel and the list agree on what an applied filter is.\<close>

lemma unapplied_filter_lists_all:
  "\<not> is_any_filter_applied flt \<Longrightarrow> is_logical_backup_listed_by_filter before backup flt"
  by (auto simp: is_any_filter_applied_def is_logical_backup_listed_by_filter_def split: option.splits)

lemma cleared_filter_is_unapplied:
  "\<not> is_any_filter_applied (handle_created_before_change None (handle_status_change [] flt))"
  by (simp add: is_any_filter_applied_def handle_created_before_change_def handle_status_change_def)

end
