(* ===== verification/Create_Wizard.thy ===== *)
theory Create_Wizard
  imports Connection_Forms Backup_Configs
begin

text \<open>
  The wizard that creates a database (\<open>pages/databases/ui/CreateDatabaseComponent.tsx\<close> with its steps
  \<open>EditDatabaseBaseInfoComponent.tsx\<close>, \<open>CreateLogicalBackupConfigStep.tsx\<close>,
  \<open>CreatePhysicalBackupConfigStep.tsx\<close> and \<open>CreateLimitedUserComponent.tsx\<close>). Its completion sends up to
  four requests one after another; \<open>completeWizard\<close> is cut at each of them. The conversation with the
  server is a log, and a protocol says which logs a completion and its retries may produce. Whether the
  session's guard holds when an answer comes is an argument of the step that takes it.
\<close>

section \<open>The first step (EditDatabaseBaseInfoComponent.tsx)\<close>

text \<open>\<open>t0\<close> is the type the database had when the step was opened.\<close>

definition select_engine :: "string \<Rightarrow> string \<Rightarrow> string \<Rightarrow> string" where
  "select_engine t0 engineType selectedType =
     (if is_postgres_type engineType \<and> is_postgres_type selectedType then selectedType
      else if is_postgres_type engineType \<and> is_postgres_type t0 then t0 else engineType)"

definition is_base_info_filled :: "string \<Rightarrow> bool" where
  "is_base_info_filled editingName \<longleftrightarrow> trim editingName \<noteq> []"

section \<open>State\<close>

datatype wizard_step =
    BaseInfo | PostgresBackupType | DbSettings | CreateLimitedUser | BackupConfigStep | NotifiersStep

record created_database =
  db_id :: string
  db_name :: string
  db_settings :: fields
  db_notifierIds :: "string list"

type_synonym wizard_config = "logical_config_input + physical_config_input"

text \<open>\<open>wz_reported\<close> are the calls of \<open>onCreated\<close>, \<open>wz_messages\<close> the errors shown as messages;
  \<open>wz_isOpen\<close> ends with \<open>onClose\<close> or when the user leaves, and the wizard is unmounted.\<close>

record wizard =
  wz_isCompleting :: bool
  wz_createdDatabase :: "created_database option"
  wz_isBackupConfigAcknowledged :: bool
  wz_completionError :: "jsval option"
  wz_backupConfig :: "logical_config_input option"
  wz_physicalBackupDraft :: "physical_config_draft option"
  wz_acceptedPhysicalBackupType :: "physical_database_backup_type option"
  wz_draft :: connection_draft
  wz_step :: wizard_step
  wz_reported :: "created_database list"
  wz_messages :: "jsval list"
  wz_isOpen :: bool

definition create_initial_draft :: "string \<Rightarrow> connection_draft" where
  "create_initial_draft workspaceId =
     CreateDraft workspaceId [] [] (create_default_database_settings type_postgres_logical) False"

definition opened_wizard :: "string \<Rightarrow> wizard" where
  "opened_wizard workspaceId =
     \<lparr>wz_isCompleting = False, wz_createdDatabase = None, wz_isBackupConfigAcknowledged = False,
      wz_completionError = None, wz_backupConfig = None, wz_physicalBackupDraft = None,
      wz_acceptedPhysicalBackupType = None, wz_draft = create_initial_draft workspaceId, wz_step = BaseInfo,
      wz_reported = [], wz_messages = [], wz_isOpen = True\<rparr>"

text \<open>The field \<open>backupType\<close> has three values.\<close>

definition backup_type_of_text :: "string \<Rightarrow> physical_database_backup_type" where
  "backup_type_of_text t = (if t = ''FULL'' then FULL
     else if t = ''FULL_INCREMENTAL'' then FULL_INCREMENTAL else FULL_INCREMENTAL_WAL_STREAM)"

definition get_physical_backup_type :: "fields \<Rightarrow> physical_database_backup_type option" where
  "get_physical_backup_type settings =
     (if has_type settings type_postgres_physical
      then Some (backup_type_of_text (text_field settings ''backupType'')) else None)"

section \<open>Steps before the completion\<close>

definition accept_database_type :: "string \<Rightarrow> wizard \<Rightarrow> wizard" where
  "accept_database_type t s =
     (if has_type (cd_settings (wz_draft s)) t then s
      else s\<lparr>wz_backupConfig := None, wz_physicalBackupDraft := None,
             wz_draft := change_database_create_draft_type t (wz_draft s)\<rparr>)"

primrec named_draft :: "string \<Rightarrow> connection_draft \<Rightarrow> connection_draft" where
  "named_draft name (CreateDraft w n ids s c) = CreateDraft w name ids s c"
| "named_draft name (EditDraft w d n ids saved s c) = EditDraft w d name ids saved s c"
| "named_draft name (RestoreDraft s c) = RestoreDraft s c"

primrec notifying_draft :: "string list \<Rightarrow> connection_draft \<Rightarrow> connection_draft" where
  "notifying_draft ids (CreateDraft w n ids0 s c) = CreateDraft w n ids s c"
| "notifying_draft ids (EditDraft w d n ids0 saved s c) = EditDraft w d n ids saved s c"
| "notifying_draft ids (RestoreDraft s c) = RestoreDraft s c"

primrec connected_draft :: "fields \<Rightarrow> bool \<Rightarrow> connection_draft \<Rightarrow> connection_draft" where
  "connected_draft s c (CreateDraft w n ids s0 c0) = CreateDraft w n ids s c"
| "connected_draft s c (EditDraft w d n ids saved s0 c0) = EditDraft w d n ids saved s c"
| "connected_draft s c (RestoreDraft s0 c0) = RestoreDraft s c"

definition continue_base_info :: "string \<Rightarrow> string \<Rightarrow> wizard \<Rightarrow> wizard" where
  "continue_base_info name t s0 = (let s = accept_database_type t s0 in
     s\<lparr>wz_draft := named_draft name (wz_draft s),
       wz_step := (if is_postgres_type t then PostgresBackupType else DbSettings)\<rparr>)"

definition select_backup_type :: "string \<Rightarrow> wizard \<Rightarrow> wizard" where
  "select_backup_type t s = (accept_database_type t s)\<lparr>wz_step := DbSettings\<rparr>"

definition reset_physical_backup_config_if_type_changed :: "wizard \<Rightarrow> wizard" where
  "reset_physical_backup_config_if_type_changed s =
     (if get_physical_backup_type (cd_settings (wz_draft s)) \<noteq> wz_acceptedPhysicalBackupType s
      then s\<lparr>wz_physicalBackupDraft := None\<rparr> else s)"

definition submit_connection :: "wizard \<Rightarrow> wizard" where
  "submit_connection s =
     (reset_physical_backup_config_if_type_changed s)\<lparr>wz_step := CreateLimitedUser\<rparr>"

definition connection_back :: "wizard \<Rightarrow> wizard" where
  "connection_back s = s\<lparr>wz_step :=
     (if is_postgres_type (text_field (cd_settings (wz_draft s)) ''type'')
      then PostgresBackupType else BaseInfo)\<rparr>"

definition use_limited_user :: "string \<Rightarrow> string \<Rightarrow> wizard \<Rightarrow> wizard" where
  "use_limited_user username password s =
     (let draft = wz_draft s in
      s\<lparr>wz_draft := connected_draft
          (with_fields [(''username'', JStr username), (''password'', JStr password)] (cd_settings draft))
          (cd_hasUserChosenSslMode draft) draft,
        wz_step := BackupConfigStep\<rparr>)"

definition accept_physical_backup_draft :: "physical_config_draft \<Rightarrow> wizard \<Rightarrow> wizard" where
  "accept_physical_backup_draft acceptedDraft s =
     s\<lparr>wz_physicalBackupDraft := Some acceptedDraft,
       wz_acceptedPhysicalBackupType := get_physical_backup_type (cd_settings (wz_draft s))\<rparr>"

text \<open>The two configuration steps continue only with a complete configuration that has a storage.\<close>

definition can_continue_logical :: "(string \<Rightarrow> int option) \<Rightarrow> int \<Rightarrow> logical_config_input \<Rightarrow> bool" where
  "can_continue_logical parse_next search_end c \<longleftrightarrow>
     is_logical_backup_config_complete parse_next search_end c \<and> truthy (ci_storageId c)"

definition can_continue_physical ::
    "(string \<Rightarrow> int option) \<Rightarrow> int \<Rightarrow> physical_config_draft \<Rightarrow> physical_database_backup_type \<Rightarrow> bool" where
  "can_continue_physical parse_next search_end d backupType \<longleftrightarrow>
     is_physical_backup_config_complete parse_next search_end d backupType \<and> truthy (ci_storageId d)"

section \<open>The completion\<close>

record database_request =
  dr_name :: string
  dr_settings :: fields
  dr_notifierIds :: "string list"

datatype wizard_request =
    CreateDatabase string database_request
  | UpdateDatabase string database_request
  | UpdateBackupConfig string wizard_config
  | StartLogicalBackup string

text \<open>What the completion captured when it began.\<close>

record completion =
  cm_draft :: connection_draft
  cm_config :: wizard_config
  cm_isAcknowledged :: bool

datatype completion_await =
    AwaitCreate completion
  | AwaitUpdate completion created_database
  | AwaitConfig completion created_database
  | AwaitStart completion created_database

definition create_database :: "connection_draft \<Rightarrow> wizard_request" where
  "create_database d = CreateDatabase (cd_workspaceId d)
     \<lparr>dr_name = cd_name d, dr_settings = to_database_settings_request (cd_settings d),
      dr_notifierIds = cd_notifierIds d\<rparr>"

definition update_database :: "created_database \<Rightarrow> string list \<Rightarrow> wizard_request" where
  "update_database db notifierIds = UpdateDatabase (db_id db)
     \<lparr>dr_name = db_name db, dr_settings = to_database_settings_request (db_settings db),
      dr_notifierIds = notifierIds\<rparr>"

primrec awaited_request :: "completion_await \<Rightarrow> wizard_request" where
  "awaited_request (AwaitCreate m) = create_database (cm_draft m)"
| "awaited_request (AwaitUpdate m db) = update_database db (cd_notifierIds (cm_draft m))"
| "awaited_request (AwaitConfig m db) = UpdateBackupConfig (db_id db) (cm_config m)"
| "awaited_request (AwaitStart m db) = StartLogicalBackup (db_id db)"

definition config_to_save :: "wizard \<Rightarrow> wizard_config option" where
  "config_to_save s =
     (if get_physical_backup_type (cd_settings (wz_draft s)) \<noteq> None
      then map_option (Inr \<circ> to_physical_backup_config_input_from_draft) (wz_physicalBackupDraft s)
      else map_option Inl (wz_backupConfig s))"

definition finish_wizard :: "wizard \<Rightarrow> wizard" where
  "finish_wizard s = s\<lparr>wz_isOpen := False, wz_isCompleting := False\<rparr>"

text \<open>A configuration that starts no backup leaves nothing to wait for.\<close>

definition after_config :: "completion \<Rightarrow> created_database \<Rightarrow> wizard \<Rightarrow> wizard \<times> completion_await option" where
  "after_config m db s =
     (if starts_first_backup (cm_config m) then (s, Some (AwaitStart m db)) else (finish_wizard s, None))"

definition after_notifiers :: "completion \<Rightarrow> created_database \<Rightarrow> wizard \<Rightarrow> wizard \<times> completion_await option" where
  "after_notifiers m db s =
     (if cm_isAcknowledged m then after_config m db s else (s, Some (AwaitConfig m db)))"

definition after_create :: "completion \<Rightarrow> created_database \<Rightarrow> wizard \<Rightarrow> wizard \<times> completion_await option" where
  "after_create m db s =
     (if has_same_notifier_ids (db_notifierIds db) (cd_notifierIds (cm_draft m))
      then after_notifiers m db s else (s, Some (AwaitUpdate m db)))"

definition complete_wizard :: "connection_draft \<Rightarrow> wizard \<Rightarrow> wizard \<times> completion_await option" where
  "complete_wizard completedDraft s = (case config_to_save s of
       None \<Rightarrow> (s, None)
     | Some config \<Rightarrow>
         (let s1 = s\<lparr>wz_isCompleting := True, wz_completionError := None\<rparr>;
              m = \<lparr>cm_draft = completedDraft, cm_config = config,
                   cm_isAcknowledged = wz_isBackupConfigAcknowledged s\<rparr>
          in case wz_createdDatabase s of
               None \<Rightarrow> (s1, Some (AwaitCreate m))
             | Some db \<Rightarrow> after_create m db s1))"

definition continue_notifiers :: "string list \<Rightarrow> wizard \<Rightarrow> wizard \<times> completion_await option" where
  "continue_notifiers notifierIds s =
     (if wz_isCompleting s then (s, None)
      else (let completedDraft = notifying_draft notifierIds (wz_draft s)
            in case complete_wizard completedDraft s of
                 (s1, aw) \<Rightarrow> (s1\<lparr>wz_draft := completedDraft\<rparr>, aw)))"

text \<open>\<open>Inl\<close> is a failed request. The answers to the configuration and to the backup are not read.\<close>

definition settle_completion ::
    "bool \<Rightarrow> jsval + created_database \<Rightarrow> completion_await \<Rightarrow> wizard \<Rightarrow> wizard \<times> completion_await option" where
  "settle_completion isCurrent answer aw s =
     (if \<not> isCurrent then (s, None)
      else case answer of
        Inl e \<Rightarrow> ((case aw of AwaitCreate m \<Rightarrow> s\<lparr>wz_messages := wz_messages s @ [e], wz_isCompleting := False\<rparr>
           | _ \<Rightarrow> s\<lparr>wz_completionError := Some e, wz_isCompleting := False\<rparr>), None)
      | Inr answered \<Rightarrow>
          (case aw of
             AwaitCreate m \<Rightarrow> after_create m answered
               (s\<lparr>wz_createdDatabase := Some answered, wz_reported := wz_reported s @ [answered]\<rparr>)
           | AwaitUpdate m db \<Rightarrow> after_notifiers m answered (s\<lparr>wz_createdDatabase := Some answered\<rparr>)
           | AwaitConfig m db \<Rightarrow> after_config m db (s\<lparr>wz_isBackupConfigAcknowledged := True\<rparr>)
           | AwaitStart m db \<Rightarrow> (finish_wizard s, None)))"

section \<open>Runs\<close>

text \<open>What a user can do, each only in the step that shows it, and answers. \<open>LimitedUserDone\<close> is a skip
  or a user that needs no restriction.\<close>

datatype wizard_event =
    ContinueBaseInfo string string
  | BackupTypeBack
  | SelectBackupType string
  | ChangeConnection fields bool
  | ConnectionBack
  | SubmitConnection
  | LimitedUserBack
  | LimitedUserDone
  | LimitedUserCreated string string
  | LogicalBack logical_config_input
  | LogicalContinue logical_config_input
  | PhysicalBack physical_config_draft
  | PhysicalContinue physical_config_draft
  | NotifiersBack "string list"
  | NotifiersContinue "string list"
  | LeaveWizard
  | AnswerArrived bool "jsval + created_database"

text \<open>The steps of the configuration: which of the two is shown, and whether it has a way back.\<close>

definition shown_backup_type :: "wizard \<Rightarrow> physical_database_backup_type option" where
  "shown_backup_type s = get_physical_backup_type (cd_settings (wz_draft s))"

definition set_step :: "wizard_step \<Rightarrow> wizard \<Rightarrow> wizard" where
  "set_step st s = s\<lparr>wz_step := st\<rparr>"

definition handle_connection :: "wizard_event \<Rightarrow> wizard \<Rightarrow> wizard" where
  "handle_connection e s = (case e of
       ChangeConnection settings chosen \<Rightarrow> s\<lparr>wz_draft := connected_draft settings chosen (wz_draft s)\<rparr>
     | ConnectionBack \<Rightarrow> connection_back s
     | SubmitConnection \<Rightarrow> submit_connection s
     | _ \<Rightarrow> s)"

definition handle_limited_user :: "wizard_event \<Rightarrow> wizard \<Rightarrow> wizard" where
  "handle_limited_user e s = (case e of
       LimitedUserBack \<Rightarrow> set_step DbSettings s
     | LimitedUserDone \<Rightarrow> set_step BackupConfigStep s
     | LimitedUserCreated username password \<Rightarrow> use_limited_user username password s
     | _ \<Rightarrow> s)"

definition handle_backup_config :: "(string \<Rightarrow> int option) \<Rightarrow> int \<Rightarrow> wizard_event \<Rightarrow> wizard \<Rightarrow> wizard" where
  "handle_backup_config pn se e s = (case (shown_backup_type s, e) of
       (None, LogicalBack c) \<Rightarrow> if wz_createdDatabase s = None
         then set_step DbSettings (s\<lparr>wz_backupConfig := Some c\<rparr>) else s
     | (None, LogicalContinue c) \<Rightarrow> if can_continue_logical pn se c
         then set_step NotifiersStep (s\<lparr>wz_backupConfig := Some c\<rparr>) else s
     | (Some backupType, PhysicalBack d) \<Rightarrow> if wz_createdDatabase s = None
         then set_step DbSettings (accept_physical_backup_draft d s) else s
     | (Some backupType, PhysicalContinue d) \<Rightarrow> if can_continue_physical pn se d backupType
         then set_step NotifiersStep (accept_physical_backup_draft d s) else s
     | _ \<Rightarrow> s)"

definition handle_in_step :: "(string \<Rightarrow> int option) \<Rightarrow> int \<Rightarrow> wizard_event \<Rightarrow> wizard \<Rightarrow> wizard" where
  "handle_in_step pn se e s = (case wz_step s of
       BaseInfo \<Rightarrow> (case e of ContinueBaseInfo name t \<Rightarrow> continue_base_info name t s | _ \<Rightarrow> s)
     | PostgresBackupType \<Rightarrow> (case e of BackupTypeBack \<Rightarrow> set_step BaseInfo s
         | SelectBackupType t \<Rightarrow> select_backup_type t s | _ \<Rightarrow> s)
     | DbSettings \<Rightarrow> handle_connection e s
     | CreateLimitedUser \<Rightarrow> handle_limited_user e s
     | BackupConfigStep \<Rightarrow> handle_backup_config pn se e s
     | NotifiersStep \<Rightarrow> (case e of NotifiersBack notifierIds \<Rightarrow>
           if wz_isCompleting s \<or> wz_isBackupConfigAcknowledged s then s
           else set_step BackupConfigStep (s\<lparr>wz_draft := notifying_draft notifierIds (wz_draft s)\<rparr>)
         | _ \<Rightarrow> s))"

text \<open>The conversation with the server: what was sent, and what became of it. An ignored answer found the
  session or the wizard gone.\<close>

datatype log_entry = Sent wizard_request | Answered created_database | Failed | Ignored

record wizard_run =
  wr_wizard :: wizard
  wr_await :: "completion_await option"
  wr_log :: "log_entry list"

definition send_next :: "log_entry list \<Rightarrow> wizard \<times> completion_await option \<Rightarrow> wizard_run \<Rightarrow> wizard_run" where
  "send_next entries r w = (case r of (s, aw) \<Rightarrow>
     \<lparr>wr_wizard = s, wr_await = aw,
      wr_log = wr_log w @ entries @ (case aw of None \<Rightarrow> [] | Some a \<Rightarrow> [Sent (awaited_request a)])\<rparr>)"

definition answer_entry :: "bool \<Rightarrow> jsval + created_database \<Rightarrow> log_entry" where
  "answer_entry isCurrent answer =
     (if \<not> isCurrent then Ignored else case answer of Inl e \<Rightarrow> Failed | Inr db \<Rightarrow> Answered db)"

definition wizard_run_step :: "(string \<Rightarrow> int option) \<Rightarrow> int \<Rightarrow> wizard_run \<Rightarrow> wizard_event \<Rightarrow> wizard_run" where
  "wizard_run_step pn se w e = (let s = wr_wizard w in
     case e of
       AnswerArrived isCurrent answer \<Rightarrow>
         (case wr_await w of
            None \<Rightarrow> w
          | Some aw \<Rightarrow> (let cur = isCurrent \<and> wz_isOpen s in
              send_next [answer_entry cur answer] (settle_completion cur answer aw s) w))
     | _ \<Rightarrow>
         (if \<not> wz_isOpen s then w
          else case e of
            LeaveWizard \<Rightarrow> w\<lparr>wr_wizard := s\<lparr>wz_isOpen := False\<rparr>\<rparr>
          | NotifiersContinue notifierIds \<Rightarrow>
              (if wz_step s = NotifiersStep \<and> \<not> wz_isCompleting s
               then send_next [] (continue_notifiers notifierIds s) w else w)
          | _ \<Rightarrow> w\<lparr>wr_wizard := handle_in_step pn se e s\<rparr>))"

definition opened_run :: "string \<Rightarrow> wizard_run" where
  "opened_run workspaceId = \<lparr>wr_wizard = opened_wizard workspaceId, wr_await = None, wr_log = []\<rparr>"

section \<open>The protocol of a completion\<close>

text \<open>What is known to be done: the database the server answered last, with the settings of the request that
  created it, and whether its configuration is acknowledged.\<close>

record progress =
  pg_database :: "(created_database \<times> fields) option"
  pg_isConfigured :: bool

datatype phase = Idle progress | Waiting progress wizard_request | Over

text \<open>A request for a physical configuration fits a backup type when it keeps the API's contract, names a
  storage and, with backups switched on, has its encryption and every schedule the type needs.\<close>

definition physical_request_fits ::
    "(string \<Rightarrow> int option) \<Rightarrow> int \<Rightarrow> physical_database_backup_type \<Rightarrow> physical_config_input \<Rightarrow> bool" where
  "physical_request_fits pn se backupType c \<longleftrightarrow>
     truthy (ci_storageId c) \<and> retention_fits (ps_retention (ci_settings c))
     \<and> (ci_isBackupsEnabled c \<longrightarrow> ci_encryption c \<noteq> None
        \<and> is_schedule_complete pn se (Some (ps_fullBackupSchedule (ci_settings c)))
        \<and> (has_incremental_backups backupType \<longrightarrow>
             is_schedule_complete pn se (ps_incrementalBackupSchedule (ci_settings c))))"

definition config_fits :: "(string \<Rightarrow> int option) \<Rightarrow> int \<Rightarrow> fields \<Rightarrow> wizard_config \<Rightarrow> bool" where
  "config_fits pn se settings config = (case (get_physical_backup_type settings, config) of
       (None, Inl c) \<Rightarrow> can_continue_logical pn se c
     | (Some backupType, Inr c) \<Rightarrow> physical_request_fits pn se backupType c
     | _ \<Rightarrow> False)"

definition may_send :: "(string \<Rightarrow> int option) \<Rightarrow> int \<Rightarrow> progress \<Rightarrow> wizard_request \<Rightarrow> bool" where
  "may_send pn se p r = (case r of
       CreateDatabase w q \<Rightarrow> pg_database p = None
     | UpdateDatabase i q \<Rightarrow> (case pg_database p of
         None \<Rightarrow> False
       | Some (db, t) \<Rightarrow> UpdateDatabase i q = update_database db (dr_notifierIds q)
           \<and> \<not> has_same_notifier_ids (db_notifierIds db) (dr_notifierIds q))
     | UpdateBackupConfig i c \<Rightarrow> (case pg_database p of
         None \<Rightarrow> False
       | Some (db, t) \<Rightarrow> i = db_id db \<and> \<not> pg_isConfigured p \<and> config_fits pn se t c)
     | StartLogicalBackup i \<Rightarrow> (case pg_database p of
         None \<Rightarrow> False
       | Some (db, t) \<Rightarrow> i = db_id db \<and> pg_isConfigured p \<and> get_physical_backup_type t = None))"

definition after_answer :: "progress \<Rightarrow> wizard_request \<Rightarrow> created_database \<Rightarrow> phase" where
  "after_answer p r db = (case r of
       CreateDatabase w q \<Rightarrow> Idle (p\<lparr>pg_database := Some (db, dr_settings q)\<rparr>)
     | UpdateDatabase i q \<Rightarrow> Idle (p\<lparr>pg_database := map_option (\<lambda>(_, t). (db, t)) (pg_database p)\<rparr>)
     | UpdateBackupConfig i c \<Rightarrow> Idle (p\<lparr>pg_isConfigured := True\<rparr>)
     | StartLogicalBackup i \<Rightarrow> Over)"

fun protocol_step :: "(string \<Rightarrow> int option) \<Rightarrow> int \<Rightarrow> phase option \<Rightarrow> log_entry \<Rightarrow> phase option" where
  "protocol_step pn se (Some (Idle p)) (Sent r) = (if may_send pn se p r then Some (Waiting p r) else None)"
| "protocol_step pn se (Some (Waiting p r)) (Answered db) = Some (after_answer p r db)"
| "protocol_step pn se (Some (Waiting p r)) Failed = Some (Idle p)"
| "protocol_step pn se (Some (Waiting p r)) Ignored = Some Over"
| "protocol_step pn se _ _ = None"

definition protocol_phase :: "(string \<Rightarrow> int option) \<Rightarrow> int \<Rightarrow> log_entry list \<Rightarrow> phase option" where
  "protocol_phase pn se = foldl (protocol_step pn se)
     (Some (Idle \<lparr>pg_database = None, pg_isConfigured = False\<rparr>))"

section \<open>Lemmas\<close>

lemma get_physical_backup_type_request [simp]:
  "get_physical_backup_type (to_database_settings_request settings) = get_physical_backup_type settings"
proof (cases "has_type settings type_postgres_physical")
  case True
  then show ?thesis
    by (simp add: get_physical_backup_type_def to_database_settings_request_def has_type_only [OF True]
        database_types Let_def has_type_def text_field_def field_simps)
next
  case False
  have "\<not> has_type (to_database_settings_request settings) type_postgres_physical"
    using False by (auto simp: to_database_settings_request_def has_type_def database_types Let_def field_simps)
      (simp add: fld_def)
  with False show ?thesis by (simp add: get_physical_backup_type_def)
qed

lemma config_fits_request [simp]:
  "config_fits pn se (to_database_settings_request settings) c = config_fits pn se settings c"
  by (simp add: config_fits_def)

lemma request_of_complete_draft_fits:
  "can_continue_physical pn se d backupType \<Longrightarrow>
    physical_request_fits pn se backupType (to_physical_backup_config_input_from_draft d)"
  by (auto simp: can_continue_physical_def physical_request_fits_def is_physical_backup_config_complete_def
      retention_complete_iff [symmetric] Let_def split: if_splits)
    (auto simp: to_physical_backup_config_input_from_draft_def)

text \<open>The state of the wizard: which steps a created database leaves, the backup type of the configuration
  that the configuration's step offers, and the configuration at the last step.\<close>

definition config_ready :: "(string \<Rightarrow> int option) \<Rightarrow> int \<Rightarrow> wizard \<Rightarrow> bool" where
  "config_ready pn se s = (case config_to_save s of
       None \<Rightarrow> False | Some c \<Rightarrow> config_fits pn se (cd_settings (wz_draft s)) c)"

definition offers_own_type :: "wizard \<Rightarrow> bool" where
  "offers_own_type s \<longleftrightarrow> wz_physicalBackupDraft s = None \<or> wz_acceptedPhysicalBackupType s = shown_backup_type s"

definition wizard_inv :: "(string \<Rightarrow> int option) \<Rightarrow> int \<Rightarrow> wizard \<Rightarrow> bool" where
  "wizard_inv pn se s \<longleftrightarrow>
     (wz_createdDatabase s \<noteq> None \<longrightarrow> wz_step s \<in> {BackupConfigStep, NotifiersStep})
     \<and> (wz_isBackupConfigAcknowledged s \<longrightarrow> wz_createdDatabase s \<noteq> None \<and> wz_step s = NotifiersStep)
     \<and> (wz_step s \<in> {CreateLimitedUser, BackupConfigStep, NotifiersStep} \<longrightarrow> offers_own_type s)
     \<and> (wz_step s = NotifiersStep \<longrightarrow> config_ready pn se s)
     \<and> (wz_isCompleting s \<longrightarrow> wz_step s = NotifiersStep)"

definition progress_of :: "wizard \<Rightarrow> progress \<Rightarrow> bool" where
  "progress_of s p \<longleftrightarrow> pg_isConfigured p = wz_isBackupConfigAcknowledged s
     \<and> map_option fst (pg_database p) = wz_createdDatabase s
     \<and> (\<forall>db t. pg_database p = Some (db, t) \<longrightarrow>
          t = to_database_settings_request (cd_settings (wz_draft s)))"

lemma draft_settings [simp]:
  "cd_settings (notifying_draft ids d) = cd_settings d" "cd_settings (named_draft name d) = cd_settings d"
  by (cases d; simp)+

lemma connected_settings [simp]: "cd_settings (connected_draft t c d) = t"
  by (cases d) simp_all

lemma limited_user_type [simp]:
  "get_physical_backup_type (with_fields [(''username'', u), (''password'', q)] fs) = get_physical_backup_type fs"
  by (simp add: get_physical_backup_type_def has_type_def text_field_def field_simps)

lemmas wizard_simps = wizard_inv_def progress_of_def offers_own_type_def shown_backup_type_def set_step_def
lemmas handler_defs = handle_in_step_def handle_connection_def handle_limited_user_def handle_backup_config_def
  continue_base_info_def select_backup_type_def connection_back_def submit_connection_def
  use_limited_user_def accept_physical_backup_draft_def reset_physical_backup_config_if_type_changed_def
  accept_database_type_def

lemma config_ready_cong:
  "cd_settings (wz_draft s) = cd_settings (wz_draft s') \<Longrightarrow> wz_backupConfig s = wz_backupConfig s' \<Longrightarrow>
   wz_physicalBackupDraft s = wz_physicalBackupDraft s' \<Longrightarrow> config_ready pn se s = config_ready pn se s'"
  by (simp only: config_ready_def config_to_save_def)

lemma config_ready_logical:
  "get_physical_backup_type (cd_settings (wz_draft s)) = None \<Longrightarrow> can_continue_logical pn se c \<Longrightarrow>
    config_ready pn se (s\<lparr>wz_backupConfig := Some c, wz_step := st\<rparr>)"
  by (simp add: config_ready_def config_to_save_def config_fits_def)

lemma config_ready_physical:
  "get_physical_backup_type (cd_settings (wz_draft s)) = Some backupType \<Longrightarrow>
   can_continue_physical pn se d backupType \<Longrightarrow>
    config_ready pn se (s\<lparr>wz_physicalBackupDraft := Some d, wz_acceptedPhysicalBackupType := Some backupType,
      wz_step := st\<rparr>)"
  by (simp add: config_ready_def config_to_save_def config_fits_def request_of_complete_draft_fits)

lemma backup_config_inv:
  assumes "wizard_inv pn se s" and "wz_step s = BackupConfigStep"
  shows "wizard_inv pn se (handle_backup_config pn se e s)"
proof (cases "get_physical_backup_type (cd_settings (wz_draft s))")
  case None
  with assms show ?thesis
    by (cases e) (auto simp: handle_backup_config_def config_ready_logical wizard_simps)
next
  case (Some backupType)
  with assms show ?thesis
    by (cases e) (auto simp: handle_backup_config_def config_ready_physical wizard_simps
        accept_physical_backup_draft_def)
qed

lemma type_change_inv:
  assumes "wizard_inv pn se s" and "wz_createdDatabase s = None" and "st \<in> {BaseInfo, PostgresBackupType, DbSettings}"
    and "\<not> wz_isCompleting s"
  shows "wizard_inv pn se (s\<lparr>wz_step := st\<rparr>) \<and> wizard_inv pn se ((accept_database_type t s)\<lparr>wz_step := st\<rparr>)
    \<and> wizard_inv pn se ((accept_database_type t s)\<lparr>wz_draft := d, wz_step := st\<rparr>)
    \<and> wizard_inv pn se (s\<lparr>wz_draft := d, wz_step := st\<rparr>)"
  using assms by (auto simp: wizard_inv_def accept_database_type_def)

lemma early_step:
  assumes "wizard_inv pn se s" and "wz_step s \<in> {BaseInfo, PostgresBackupType, DbSettings, CreateLimitedUser}"
  shows "wz_createdDatabase s = None \<and> \<not> wz_isCompleting s \<and> \<not> wz_isBackupConfigAcknowledged s"
  using assms by (auto simp: wizard_inv_def)

lemma connection_inv:
  assumes "wizard_inv pn se s" and "wz_step s = DbSettings"
  shows "wizard_inv pn se (handle_connection e s)"
proof (cases e)
  case SubmitConnection
  with assms early_step [OF assms(1)] show ?thesis
    by (simp add: handler_defs wizard_simps)
next
  case (ChangeConnection t c)
  with assms early_step [OF assms(1)] show ?thesis by (simp add: handler_defs wizard_simps)
next
  case ConnectionBack
  with assms early_step [OF assms(1)] show ?thesis by (simp add: handler_defs wizard_simps)
qed (use assms in \<open>simp_all add: handle_connection_def\<close>)

lemma limited_user_inv:
  assumes "wizard_inv pn se s" and "wz_step s = CreateLimitedUser"
  shows "wizard_inv pn se (handle_limited_user e s)"
  using assms early_step [OF assms(1)]
  by (cases e) (simp_all add: handle_limited_user_def use_limited_user_def wizard_simps Let_def)

lemma handler_inv:
  assumes "wizard_inv pn se s"
  shows "wizard_inv pn se (handle_in_step pn se e s)"
proof (cases "wz_step s")
  case BaseInfo
  with assms early_step [OF assms] type_change_inv [OF assms] show ?thesis
    by (cases e) (simp_all add: handle_in_step_def continue_base_info_def Let_def)
next
  case PostgresBackupType
  with assms early_step [OF assms] type_change_inv [OF assms] show ?thesis
    by (cases e) (simp_all add: handle_in_step_def select_backup_type_def set_step_def)
next
  case NotifiersStep
  with assms show ?thesis
    by (cases e) (simp_all add: handle_in_step_def wizard_simps)
qed (simp_all add: handle_in_step_def backup_config_inv connection_inv limited_user_inv assms)

lemma handler_keeps:
  "wz_isCompleting (handle_in_step pn se e s) = wz_isCompleting s
   \<and> wz_createdDatabase (handle_in_step pn se e s) = wz_createdDatabase s
   \<and> wz_isBackupConfigAcknowledged (handle_in_step pn se e s) = wz_isBackupConfigAcknowledged s
   \<and> wz_isOpen (handle_in_step pn se e s) = wz_isOpen s"
  by (cases "wz_step s"; cases e; cases "shown_backup_type s") (simp_all add: handler_defs set_step_def Let_def)

lemma handler_keeps_created_settings:
  assumes "wizard_inv pn se s" and "wz_createdDatabase s \<noteq> None"
  shows "cd_settings (wz_draft (handle_in_step pn se e s)) = cd_settings (wz_draft s)"
  using assms by (cases "wz_step s"; cases e; cases "shown_backup_type s") (simp_all add: handler_defs wizard_simps)

lemma handler_idle_when_completing:
  "wizard_inv pn se s \<Longrightarrow> wz_isCompleting s \<Longrightarrow> handle_in_step pn se e s = s"
  by (cases e) (simp_all add: wizard_inv_def handle_in_step_def)

lemma handler_progress:
  assumes "wizard_inv pn se s" and "progress_of s p"
  shows "progress_of (handle_in_step pn se e s) p"
  using assms handler_keeps [of pn se e s] handler_keeps_created_settings [OF assms(1), of e]
  by (cases "wz_createdDatabase s") (auto simp: progress_of_def)

section \<open>The completion keeps the protocol\<close>

text \<open>What a request on its way knows: the completion is about the draft and the configuration on the screen.\<close>

definition completion_fits :: "(string \<Rightarrow> int option) \<Rightarrow> int \<Rightarrow> wizard \<Rightarrow> completion \<Rightarrow> bool" where
  "completion_fits pn se s m \<longleftrightarrow> cm_draft m = wz_draft s
     \<and> config_fits pn se (cd_settings (wz_draft s)) (cm_config m)"

fun await_fits :: "(string \<Rightarrow> int option) \<Rightarrow> int \<Rightarrow> wizard \<Rightarrow> completion_await \<Rightarrow> bool" where
  "await_fits pn se s (AwaitCreate m) \<longleftrightarrow>
     completion_fits pn se s m \<and> wz_createdDatabase s = None \<and> \<not> cm_isAcknowledged m"
| "await_fits pn se s (AwaitUpdate m db) \<longleftrightarrow>
     completion_fits pn se s m \<and> wz_createdDatabase s = Some db
     \<and> cm_isAcknowledged m = wz_isBackupConfigAcknowledged s
     \<and> \<not> has_same_notifier_ids (db_notifierIds db) (cd_notifierIds (cm_draft m))"
| "await_fits pn se s (AwaitConfig m db) \<longleftrightarrow>
     completion_fits pn se s m \<and> wz_createdDatabase s = Some db \<and> \<not> wz_isBackupConfigAcknowledged s"
| "await_fits pn se s (AwaitStart m db) \<longleftrightarrow>
     completion_fits pn se s m \<and> wz_createdDatabase s = Some db \<and> wz_isBackupConfigAcknowledged s
     \<and> starts_first_backup (cm_config m)"

definition completion_ok ::
    "(string \<Rightarrow> int option) \<Rightarrow> int \<Rightarrow> wizard \<times> completion_await option \<Rightarrow> bool" where
  "completion_ok pn se r \<longleftrightarrow> wizard_inv pn se (fst r)
     \<and> (\<forall>aw. snd r = Some aw \<longrightarrow> wz_isCompleting (fst r) \<and> await_fits pn se (fst r) aw)"

lemma starting_config_is_logical:
  "config_fits pn se settings c \<Longrightarrow> starts_first_backup c \<Longrightarrow> get_physical_backup_type settings = None"
  by (cases c) (auto simp: config_fits_def starts_first_backup_def split: option.splits)

lemma await_may_send:
  assumes "await_fits pn se s aw" and "progress_of s p"
  shows "may_send pn se p (awaited_request aw)"
proof (cases "pg_database p")
  case None
  with assms show ?thesis
    by (cases aw) (auto simp: may_send_def progress_of_def create_database_def)
next
  case (Some x)
  obtain db t where x: "x = (db, t)" by (cases x)
  with Some assms(2) have "wz_createdDatabase s = Some db"
      "t = to_database_settings_request (cd_settings (wz_draft s))"
      "pg_isConfigured p = wz_isBackupConfigAcknowledged s"
    by (auto simp: progress_of_def)
  with assms(1) Some x show ?thesis
    by (cases aw) (auto simp: may_send_def completion_fits_def update_database_def
        starting_config_is_logical)
qed

lemma config_ready_frame [simp]:
  "config_ready pn se (s\<lparr>wz_isOpen := o'\<rparr>) = config_ready pn se s"
  "config_ready pn se (s\<lparr>wz_isCompleting := b\<rparr>) = config_ready pn se s"
  "config_ready pn se (s\<lparr>wz_createdDatabase := db\<rparr>) = config_ready pn se s"
  "config_ready pn se (s\<lparr>wz_isBackupConfigAcknowledged := b\<rparr>) = config_ready pn se s"
  "config_ready pn se (s\<lparr>wz_completionError := err\<rparr>) = config_ready pn se s"
  "config_ready pn se (s\<lparr>wz_reported := rs\<rparr>) = config_ready pn se s"
  "config_ready pn se (s\<lparr>wz_messages := ms\<rparr>) = config_ready pn se s"
  "config_ready pn se (s\<lparr>wz_draft := notifying_draft ids (wz_draft s)\<rparr>) = config_ready pn se s"
  by (rule config_ready_cong; simp)+

lemma finish_inv: "wizard_inv pn se s \<Longrightarrow> wizard_inv pn se (finish_wizard s)"
  by (simp add: wizard_simps finish_wizard_def)

lemma after_config_ok:
  assumes "wizard_inv pn se s" "wz_isCompleting s" "completion_fits pn se s m"
    and "wz_createdDatabase s = Some db" "wz_isBackupConfigAcknowledged s"
  shows "completion_ok pn se (after_config m db s)"
  using assms by (simp add: completion_ok_def after_config_def finish_inv)

lemma after_notifiers_ok:
  assumes "wizard_inv pn se s" "wz_isCompleting s" "completion_fits pn se s m"
    and "wz_createdDatabase s = Some db" "cm_isAcknowledged m = wz_isBackupConfigAcknowledged s"
  shows "completion_ok pn se (after_notifiers m db s)"
  using assms by (simp add: after_notifiers_def after_config_ok) (simp add: completion_ok_def)

lemma after_create_ok:
  assumes "wizard_inv pn se s" "wz_isCompleting s" "completion_fits pn se s m"
    and "wz_createdDatabase s = Some db" "cm_isAcknowledged m = wz_isBackupConfigAcknowledged s"
  shows "completion_ok pn se (after_create m db s)"
  using assms by (simp add: after_create_def after_notifiers_ok) (simp add: completion_ok_def)

lemma database_inv:
  "wizard_inv pn se s \<Longrightarrow> wz_step s = NotifiersStep \<Longrightarrow>
     wizard_inv pn se (s\<lparr>wz_createdDatabase := Some db\<rparr>)
     \<and> wizard_inv pn se (s\<lparr>wz_createdDatabase := Some db, wz_reported := rs\<rparr>)
     \<and> wizard_inv pn se (s\<lparr>wz_isCompleting := True, wz_completionError := err\<rparr>)
     \<and> wizard_inv pn se (s\<lparr>wz_completionError := err, wz_isCompleting := False\<rparr>)
     \<and> wizard_inv pn se (s\<lparr>wz_messages := ms, wz_isCompleting := False\<rparr>)"
  by (simp add: wizard_simps)

lemma acknowledged_inv:
  "wizard_inv pn se s \<Longrightarrow> wz_step s = NotifiersStep \<Longrightarrow> wz_createdDatabase s \<noteq> None \<Longrightarrow>
     wizard_inv pn se (s\<lparr>wz_isBackupConfigAcknowledged := True\<rparr>)"
  by (simp add: wizard_simps)

lemma completion_fits_cong:
  "wz_draft s = wz_draft s' \<Longrightarrow> completion_fits pn se s m = completion_fits pn se s' m"
  by (simp add: completion_fits_def)

lemma settle_completion_ok:
  assumes "wizard_inv pn se s" "wz_isCompleting s" "await_fits pn se s aw"
  shows "completion_ok pn se (settle_completion True answer aw s)"
proof -
  from assms(1,2) have step: "wz_step s = NotifiersStep" by (simp add: wizard_inv_def)
  note inv = database_inv [OF assms(1) step] acknowledged_inv [OF assms(1) step]
  show ?thesis
  proof (cases answer)
    case (Inl e)
    with inv show ?thesis by (cases aw) (simp_all add: settle_completion_def completion_ok_def)
  next
    case (Inr db)
    show ?thesis
    proof (cases aw)
      case (AwaitCreate m)
      have "\<not> wz_isBackupConfigAcknowledged s"
        using assms(1,3) AwaitCreate by (auto simp: wizard_inv_def)
      with Inr AwaitCreate assms inv show ?thesis
        by (simp add: settle_completion_def after_create_ok completion_fits_def)
    next
      case (AwaitUpdate m old)
      with Inr assms inv show ?thesis
        by (simp add: settle_completion_def after_notifiers_ok completion_fits_def)
    next
      case (AwaitConfig m old)
      with Inr assms inv show ?thesis
        by (simp add: settle_completion_def after_config_ok completion_fits_def)
    next
      case (AwaitStart m old)
      with Inr assms show ?thesis
        by (simp add: settle_completion_def completion_ok_def finish_inv)
    qed
  qed
qed

lemma continue_notifiers_ok:
  assumes "wizard_inv pn se s" "wz_step s = NotifiersStep" "\<not> wz_isCompleting s"
  shows "completion_ok pn se (continue_notifiers ids s)"
proof -
  define s1 where "s1 = s\<lparr>wz_draft := notifying_draft ids (wz_draft s), wz_isCompleting := True,
    wz_completionError := None\<rparr>"
  from assms obtain c where c: "config_to_save s = Some c" "config_fits pn se (cd_settings (wz_draft s)) c"
    by (auto simp: wizard_inv_def config_ready_def split: option.splits)
  define m where "m = \<lparr>cm_draft = notifying_draft ids (wz_draft s), cm_config = c,
    cm_isAcknowledged = wz_isBackupConfigAcknowledged s\<rparr>"
  have s1: "wizard_inv pn se s1" "wz_isCompleting s1" "completion_fits pn se s1 m"
      "cm_isAcknowledged m = wz_isBackupConfigAcknowledged s1" "wz_createdDatabase s1 = wz_createdDatabase s"
    using assms c by (simp_all add: s1_def m_def wizard_simps completion_fits_def)
  have "continue_notifiers ids s = (case wz_createdDatabase s of None \<Rightarrow> (s1, Some (AwaitCreate m))
      | Some db \<Rightarrow> after_create m db s1)"
    using assms(3) by (cases "wz_createdDatabase s")
      (simp_all add: continue_notifiers_def complete_wizard_def c Let_def s1_def m_def after_create_def
        after_notifiers_def after_config_def finish_wizard_def)
  moreover have "completion_ok pn se (after_create m db s1)" if "wz_createdDatabase s = Some db" for db
    using s1 that by (simp add: after_create_ok)
  moreover have "completion_ok pn se (s1, Some (AwaitCreate m))" if "wz_createdDatabase s = None"
    using s1 that by (auto simp: completion_ok_def wizard_inv_def)
  ultimately show ?thesis by (cases "wz_createdDatabase s") simp_all
qed

lemma completion_keeps_progress:
  assumes "progress_of s p" "cd_settings (wz_draft s') = cd_settings (wz_draft s)"
    "wz_createdDatabase s' = wz_createdDatabase s"
    "wz_isBackupConfigAcknowledged s' = wz_isBackupConfigAcknowledged s"
  shows "progress_of s' p"
  using assms by (simp add: progress_of_def)

lemma after_keeps [simp]:
  "wz_draft (fst (after_create m db s)) = wz_draft s"
  "wz_createdDatabase (fst (after_create m db s)) = wz_createdDatabase s"
  "wz_isBackupConfigAcknowledged (fst (after_create m db s)) = wz_isBackupConfigAcknowledged s"
  "wz_draft (fst (after_notifiers m db s)) = wz_draft s"
  "wz_createdDatabase (fst (after_notifiers m db s)) = wz_createdDatabase s"
  "wz_isBackupConfigAcknowledged (fst (after_notifiers m db s)) = wz_isBackupConfigAcknowledged s"
  "wz_draft (fst (after_config m db s)) = wz_draft s"
  "wz_createdDatabase (fst (after_config m db s)) = wz_createdDatabase s"
  "wz_isBackupConfigAcknowledged (fst (after_config m db s)) = wz_isBackupConfigAcknowledged s"
  by (simp_all add: after_create_def after_notifiers_def after_config_def finish_wizard_def)

lemma continue_keeps [simp]:
  "cd_settings (wz_draft (fst (continue_notifiers ids s))) = cd_settings (wz_draft s)"
  "wz_createdDatabase (fst (continue_notifiers ids s)) = wz_createdDatabase s"
  "wz_isBackupConfigAcknowledged (fst (continue_notifiers ids s)) = wz_isBackupConfigAcknowledged s"
  by (simp_all add: continue_notifiers_def complete_wizard_def Let_def split: option.split prod.split)
    (auto simp: after_create_def after_notifiers_def after_config_def finish_wizard_def split: if_splits)

text \<open>An answer takes the progress as the protocol says; only the start of the backup ends it.\<close>

lemma answered_progress:
  assumes "wizard_inv pn se s" "await_fits pn se s aw" "progress_of s p"
  shows "case after_answer p (awaited_request aw) db of
      Idle p' \<Rightarrow> progress_of (fst (settle_completion True (Inr db) aw s)) p'
    | Over \<Rightarrow> snd (settle_completion True (Inr db) aw s) = None
        \<and> \<not> wz_isOpen (fst (settle_completion True (Inr db) aw s))
    | Waiting p' r \<Rightarrow> False"
proof (cases aw)
  case (AwaitCreate m)
  with assms show ?thesis
    by (simp add: after_answer_def create_database_def settle_completion_def progress_of_def completion_fits_def)
next
  case (AwaitUpdate m old)
  with assms show ?thesis
    by (auto simp: after_answer_def update_database_def settle_completion_def progress_of_def)
next
  case (AwaitConfig m old)
  with assms show ?thesis
    by (simp add: after_answer_def settle_completion_def progress_of_def)
next
  case (AwaitStart m old)
  with assms show ?thesis
    by (simp add: after_answer_def settle_completion_def finish_wizard_def)
qed

section \<open>Every run\<close>

definition conversation_inv :: "(string \<Rightarrow> int option) \<Rightarrow> int \<Rightarrow> wizard_run \<Rightarrow> bool" where
  "conversation_inv pn se w \<longleftrightarrow> wizard_inv pn se (wr_wizard w)
     \<and> (case wr_await w of
          None \<Rightarrow> (\<exists>p. protocol_phase pn se (wr_log w) = Some (Idle p) \<and> progress_of (wr_wizard w) p)
            \<or> protocol_phase pn se (wr_log w) = Some Over
              \<and> (\<not> wz_isOpen (wr_wizard w) \<or> wz_isCompleting (wr_wizard w))
        | Some aw \<Rightarrow> wz_isCompleting (wr_wizard w) \<and> await_fits pn se (wr_wizard w) aw
            \<and> (\<exists>p. protocol_phase pn se (wr_log w) = Some (Waiting p (awaited_request aw))
                \<and> progress_of (wr_wizard w) p))"

lemma protocol_append:
  "protocol_phase pn se (earlier @ es) = foldl (protocol_step pn se) (protocol_phase pn se earlier) es"
  by (simp add: protocol_phase_def)

lemma send_next_inv:
  assumes ok: "completion_ok pn se r"
    and idle: "foldl (protocol_step pn se) (protocol_phase pn se (wr_log w)) entries = Some (Idle p)"
    and progress: "progress_of (fst r) p"
  shows "conversation_inv pn se (send_next entries r w)"
proof -
  obtain s aw where r: "r = (s, aw)" by (cases r)
  show ?thesis
  proof (cases aw)
    case None
    with assms r show ?thesis
      by (simp add: send_next_def conversation_inv_def completion_ok_def protocol_append)
  next
    case (Some a)
    with assms r have "may_send pn se p (awaited_request a)"
      by (auto simp: completion_ok_def intro: await_may_send)
    with Some assms r show ?thesis
      by (simp add: send_next_def conversation_inv_def completion_ok_def protocol_append)
  qed
qed

lemma await_fits_open [simp]: "await_fits pn se (s\<lparr>wz_isOpen := b\<rparr>) aw = await_fits pn se s aw"
  by (cases aw) (simp_all add: completion_fits_def)

lemma progress_open [simp]: "progress_of (s\<lparr>wz_isOpen := b\<rparr>) p = progress_of s p"
  by (simp add: progress_of_def)

lemma leave_inv:
  "conversation_inv pn se w \<Longrightarrow> conversation_inv pn se (w\<lparr>wr_wizard := (wr_wizard w)\<lparr>wz_isOpen := False\<rparr>\<rparr>)"
  by (auto simp: conversation_inv_def wizard_simps(1,3,4) split: option.splits)

lemma failed_progress:
  "progress_of s p \<Longrightarrow> progress_of (fst (settle_completion True (Inl e) aw s)) p"
  by (cases aw) (simp_all add: settle_completion_def progress_of_def)

lemma answer_inv:
  assumes inv: "conversation_inv pn se w" and aw: "wr_await w = Some aw"
  shows "conversation_inv pn se (send_next [answer_entry cur answer] (settle_completion cur answer aw (wr_wizard w)) w)"
proof -
  let ?s = "wr_wizard w"
  from inv aw obtain p where p: "protocol_phase pn se (wr_log w) = Some (Waiting p (awaited_request aw))"
      "progress_of ?s p" and s: "wizard_inv pn se ?s" "wz_isCompleting ?s" "await_fits pn se ?s aw"
    by (auto simp: conversation_inv_def)
  show ?thesis
  proof (cases cur)
    case False
    with p s show ?thesis
      by (simp add: send_next_def conversation_inv_def settle_completion_def answer_entry_def protocol_append)
  next
    case True
    note ok = settle_completion_ok [OF s, of answer]
    show ?thesis
    proof (cases answer)
      case (Inl e)
      show ?thesis
        by (rule send_next_inv [where p = p]) (use ok p True Inl failed_progress in \<open>simp_all add: answer_entry_def\<close>)
    next
      case (Inr db)
      note progress = answered_progress [OF s(1,3) p(2), of db]
      show ?thesis
      proof (cases "after_answer p (awaited_request aw) db")
        case (Idle p')
        show ?thesis
          by (rule send_next_inv [where p = p']) (use ok p True Inr Idle progress in \<open>simp_all add: answer_entry_def\<close>)
      next
        case (Waiting p' r)
        with progress show ?thesis by simp
      next
        case Over
        with progress ok p True Inr show ?thesis
          by (cases "settle_completion True (Inr db) aw ?s")
            (simp add: send_next_def conversation_inv_def completion_ok_def answer_entry_def protocol_append)
      qed
    qed
  qed
qed

lemma notifiers_inv:
  assumes inv: "conversation_inv pn se w" and s: "wz_step (wr_wizard w) = NotifiersStep"
    "\<not> wz_isCompleting (wr_wizard w)" "wz_isOpen (wr_wizard w)"
  shows "conversation_inv pn se (send_next [] (continue_notifiers ids (wr_wizard w)) w)"
proof -
  from inv s have "wizard_inv pn se (wr_wizard w)" "wr_await w = None"
    by (auto simp: conversation_inv_def split: option.splits)
  with inv s obtain p where p: "protocol_phase pn se (wr_log w) = Some (Idle p)" "progress_of (wr_wizard w) p"
    by (auto simp: conversation_inv_def)
  show ?thesis
    by (rule send_next_inv [where p = p])
      (use continue_notifiers_ok [of pn se "wr_wizard w" ids] \<open>wizard_inv pn se (wr_wizard w)\<close> s p
        completion_keeps_progress [OF p(2)] in simp_all)
qed

lemma handler_run_inv:
  assumes inv: "conversation_inv pn se w"
  shows "conversation_inv pn se (w\<lparr>wr_wizard := handle_in_step pn se e (wr_wizard w)\<rparr>)"
proof (cases "wz_isCompleting (wr_wizard w)")
  case True
  with inv have "handle_in_step pn se e (wr_wizard w) = wr_wizard w"
    by (intro handler_idle_when_completing) (simp_all add: conversation_inv_def)
  with inv show ?thesis by simp
next
  case False
  with inv have "wr_await w = None" by (auto simp: conversation_inv_def split: option.splits)
  with inv False handler_inv handler_progress handler_keeps show ?thesis
    by (auto simp: conversation_inv_def)
qed

lemma wizard_run_step_inv:
  assumes inv: "conversation_inv pn se w"
  shows "conversation_inv pn se (wizard_run_step pn se w e)"
proof -
  note same = handler_run_inv [OF inv]
  show ?thesis
    using inv same leave_inv [OF inv] notifiers_inv [OF inv] answer_inv [OF inv]
    by (cases e) (simp_all add: wizard_run_step_def Let_def split: option.split)
qed

interpretation wizard: invariant_machine "wizard_run_step pn se" "conversation_inv pn se" for pn se
  by unfold_locales (rule wizard_run_step_inv)

lemma opened_conversation: "conversation_inv pn se (opened_run workspaceId)"
  by (simp add: conversation_inv_def opened_run_def opened_wizard_def wizard_inv_def protocol_phase_def progress_of_def)


text \<open>C4: A retry repeats only unfinished work. Whatever the user does and however requests end, the wizard's
  requests keep the protocol: one at a time; no second database is created once one was answered; its
  notifiers are sent only while they differ; its configuration is sent until it is acknowledged and never
  after, and is of the method and backup type of the settings the database was created with; the first
  backup is started only then and only for logical backups; and after an answer that found the wizard
  closed or the session gone, or once the backup started, nothing more is sent.\<close>

theorem completion_keeps_protocol:
  "protocol_phase pn se (wr_log (foldl (wizard_run_step pn se) (opened_run workspaceId) es)) \<noteq> None"
  using wizard.run_inv [OF opened_conversation, of pn se workspaceId es]
  by (auto simp: conversation_inv_def split: option.splits)

section \<open>The completion ends\<close>

fun steps_left :: "completion_await \<Rightarrow> nat" where
  "steps_left (AwaitCreate m) = 4"
| "steps_left (AwaitUpdate m db) = 3"
| "steps_left (AwaitConfig m db) = 2"
| "steps_left (AwaitStart m db) = 1"

lemma answered_step:
  assumes "wr_await w = Some aw" "wz_isOpen (wr_wizard w)"
  shows "wr_wizard (wizard_run_step pn se w (AnswerArrived True (Inr db)))
      = fst (settle_completion True (Inr db) aw (wr_wizard w))"
    and "wr_await (wizard_run_step pn se w (AnswerArrived True (Inr db)))
      = snd (settle_completion True (Inr db) aw (wr_wizard w))"
  using assms by (simp_all add: wizard_run_step_def send_next_def split_beta Let_def)

lemma answer_shortens:
  assumes "wr_await w = Some aw" "wz_isOpen (wr_wizard w)"
  shows "case wr_await (wizard_run_step pn se w (AnswerArrived True (Inr db))) of
      None \<Rightarrow> \<not> wz_isOpen (wr_wizard (wizard_run_step pn se w (AnswerArrived True (Inr db))))
    | Some aw' \<Rightarrow> steps_left aw' < steps_left aw
        \<and> wz_isOpen (wr_wizard (wizard_run_step pn se w (AnswerArrived True (Inr db))))"
  unfolding answered_step [OF assms]
  using assms(2)
  by (cases aw) (auto simp: settle_completion_def after_create_def after_notifiers_def after_config_def
      finish_wizard_def)

lemma unanswered_stays:
  "wr_await w = None \<Longrightarrow> foldl (wizard_run_step pn se) w (replicate n (AnswerArrived True (Inr db))) = w"
  by (induction n) (simp_all add: wizard_run_step_def)

lemma answers_close:
  "wr_await w = Some aw \<Longrightarrow> wz_isOpen (wr_wizard w) \<Longrightarrow> steps_left aw \<le> n \<Longrightarrow>
    \<not> wz_isOpen (wr_wizard (foldl (wizard_run_step pn se) w (replicate n (AnswerArrived True (Inr db)))))"
proof (induction n arbitrary: w aw)
  case 0
  then show ?case by (cases aw) simp_all
next
  case (Suc n)
  let ?w = "wizard_run_step pn se w (AnswerArrived True (Inr db))"
  show ?case
  proof (cases "wr_await ?w")
    case None
    with answer_shortens [OF Suc.prems(1,2), of pn se db] show ?thesis by (simp add: unanswered_stays)
  next
    case (Some aw')
    with answer_shortens [OF Suc.prems(1,2), of pn se db] Suc.prems(3)
    have "wz_isOpen (wr_wizard ?w)" "steps_left aw' \<le> n" by simp_all
    with Suc.IH [OF Some] show ?thesis by simp
  qed
qed

lemma continued_wizard:
  assumes "config_ready pn se s" "\<not> wz_isCompleting s" "wz_isOpen s"
  shows "case snd (continue_notifiers ids s) of
      None \<Rightarrow> \<not> wz_isOpen (fst (continue_notifiers ids s))
    | Some aw \<Rightarrow> wz_isOpen (fst (continue_notifiers ids s)) \<and> steps_left aw \<le> 4"
  using assms
  by (cases "wz_createdDatabase s") (auto simp: config_ready_def continue_notifiers_def complete_wizard_def
      Let_def after_create_def after_notifiers_def after_config_def finish_wizard_def split: option.splits)


definition nightly_config :: logical_config_input where
  "nightly_config = create_default_logical_backup_config\<lparr>ci_storageId := Some ''s1''\<rparr>"

definition mysql_events :: "wizard_event list" where
  "mysql_events = [ContinueBaseInfo ''shop'' ''MYSQL'', SubmitConnection, LimitedUserDone,
     LogicalContinue nightly_config]"

lemma mysql_run_reaches_last_step:
  "wz_step (wr_wizard (foldl (wizard_run_step (\<lambda>_. None) 0) (opened_run ''w'') mysql_events)) = NotifiersStep
   \<and> \<not> wz_isCompleting (wr_wizard (foldl (wizard_run_step (\<lambda>_. None) 0) (opened_run ''w'') mysql_events))
   \<and> wz_isOpen (wr_wizard (foldl (wizard_run_step (\<lambda>_. None) 0) (opened_run ''w'') mysql_events))"
  by code_simp


text \<open>What such a completion sends when the server answers without the notifiers: all four requests.\<close>

lemma mysql_requests:
  "length (filter (\<lambda>x. case x of Sent r \<Rightarrow> True | _ \<Rightarrow> False) (wr_log (foldl (wizard_run_step (\<lambda>_. None) 0)
      (foldl (wizard_run_step (\<lambda>_. None) 0) (opened_run ''w'') mysql_events)
      (NotifiersContinue [''n1''] # replicate 4 (AnswerArrived True
        (Inr \<lparr>db_id = ''d'', db_name = ''shop'', db_settings = [], db_notifierIds = []\<rparr>)))))) = 4"
  by code_simp

section \<open>The restricted user (CreateLimitedUserComponent.tsx)\<close>

datatype limited_user_outcome = UserCreated string string | UserSkipped | UserNotSuggested

text \<open>\<open>lu_outcomes\<close> are the calls of the wizard, \<open>lu_messages\<close> the errors shown, \<open>lu_warnings\<close> counts the
  warnings that forced WAL rotation is not available.\<close>

record limited_user_step =
  lu_isChecking :: bool
  lu_isCreating :: bool
  lu_isSkipShown :: bool
  lu_privileges :: "string list"
  lu_isExpanded :: bool
  lu_outcomes :: "limited_user_outcome list"
  lu_messages :: "jsval list"
  lu_warnings :: nat

record limited_user_check =
  uc_isAdvisable :: bool
  uc_privileges :: "string list option"

record limited_user =
  lm_username :: string
  lm_password :: string
  lm_isForcedWalRotationAvailable :: bool

definition call_wizard :: "limited_user_outcome \<Rightarrow> limited_user_step \<Rightarrow> limited_user_step" where
  "call_wizard x u = u\<lparr>lu_outcomes := lu_outcomes u @ [x]\<rparr>"

definition start_suggestion_check :: "limited_user_step \<Rightarrow> limited_user_step" where
  "start_suggestion_check u = u\<lparr>lu_isChecking := True\<rparr>"

text \<open>A failed check (\<open>Inl\<close>) is null to the code after it, and keeps the screen.\<close>

definition settle_suggestion_check ::
    "bool \<Rightarrow> jsval + limited_user_check \<Rightarrow> limited_user_step \<Rightarrow> limited_user_step" where
  "settle_suggestion_check isActive answer u =
     (if \<not> isActive then u
      else (case answer of
          Inl e \<Rightarrow> u\<lparr>lu_messages := lu_messages u @ [e], lu_privileges := []\<rparr>
        | Inr c \<Rightarrow> (if uc_isAdvisable c then id else call_wizard UserNotSuggested)
            (u\<lparr>lu_privileges := nullish (uc_privileges c) []\<rparr>))\<lparr>lu_isChecking := False\<rparr>)"

definition start_provision :: "limited_user_step \<Rightarrow> limited_user_step" where
  "start_provision u = u\<lparr>lu_isCreating := True\<rparr>"

definition settle_provision ::
    "bool \<Rightarrow> bool \<Rightarrow> jsval + limited_user \<Rightarrow> limited_user_step \<Rightarrow> limited_user_step" where
  "settle_provision isPhysicalPostgres isActive answer u =
     (case answer of
        Inl e \<Rightarrow> (if isActive then u\<lparr>lu_messages := lu_messages u @ [e]\<rparr> else u)\<lparr>lu_isCreating := False\<rparr>
      | Inr user \<Rightarrow>
          if \<not> isActive then u
          else (call_wizard (UserCreated (lm_username user) (lm_password user))
            (if isPhysicalPostgres \<and> \<not> lm_isForcedWalRotationAvailable user
             then u\<lparr>lu_warnings := Suc (lu_warnings u)\<rparr> else u))\<lparr>lu_isCreating := False\<rparr>)"

definition handle_skip :: "limited_user_step \<Rightarrow> limited_user_step" where
  "handle_skip u = u\<lparr>lu_isSkipShown := True\<rparr>"

definition handle_skip_confirmed :: "limited_user_step \<Rightarrow> limited_user_step" where
  "handle_skip_confirmed u = call_wizard UserSkipped (u\<lparr>lu_isSkipShown := False\<rparr>)"

fun join_text :: "string \<Rightarrow> string list \<Rightarrow> string" where
  "join_text sep [] = []"
| "join_text sep [x] = x"
| "join_text sep (x # xs) = x @ sep @ join_text sep xs"

definition privileges_truncate_length :: nat where "privileges_truncate_length = 50"

definition get_privileges_display :: "limited_user_step \<Rightarrow> string" where
  "get_privileges_display u = (let fullText = join_text '', '' (lu_privileges u) in
     if lu_isExpanded u \<or> length fullText \<le> privileges_truncate_length then fullText
     else take privileges_truncate_length fullText @ ''...'')"

definition should_show_expand_toggle :: "limited_user_step \<Rightarrow> bool" where
  "should_show_expand_toggle u \<longleftrightarrow> privileges_truncate_length < length (join_text '', '' (lu_privileges u))"

text \<open>The wizard's event that an outcome is.\<close>

definition outcome_event :: "limited_user_outcome \<Rightarrow> wizard_event" where
  "outcome_event x = (case x of UserCreated u p \<Rightarrow> LimitedUserCreated u p | _ \<Rightarrow> LimitedUserDone)"

text \<open>A failed check never advances the wizard, and neither does an answer after the step was left.\<close>

lemma only_a_good_check_advances:
  "lu_outcomes (settle_suggestion_check isActive answer u) =
    lu_outcomes u @ (case answer of
      Inr c \<Rightarrow> if isActive \<and> \<not> uc_isAdvisable c then [UserNotSuggested] else [] | Inl e \<Rightarrow> [])"
  by (simp add: settle_suggestion_check_def call_wizard_def split: sum.split)

lemma created_user_fills_the_connection:
  assumes "wz_step s = CreateLimitedUser"
    and "u' = settle_provision isPhysicalPostgres True (Inr user) u"
  shows "fld (cd_settings (wz_draft (handle_in_step pn se (outcome_event (last (lu_outcomes u'))) s))) ''username''
      = JStr (lm_username user)
    \<and> fld (cd_settings (wz_draft (handle_in_step pn se (outcome_event (last (lu_outcomes u'))) s))) ''password''
      = JStr (lm_password user)"
  using assms
  by (simp add: settle_provision_def call_wizard_def outcome_event_def handle_in_step_def
      handle_limited_user_def use_limited_user_def Let_def field_simps)

end
