(* ===== verification/Transfer_Dialog.thy ===== *)
theory Transfer_Dialog
  imports Resources Page_Values
begin

text \<open>
  The dialog that moves a database to another workspace
  (\<open>pages/databases/ui/DatabaseTransferDialogComponent.tsx\<close>). Its loads and the transfer are cut at their
  awaits: the first part answers the revision (and the workspace) that the rest compares. Whether the
  session's guard holds is an argument of each step that asks it.
\<close>

section \<open>State\<close>

datatype transfer_option = TransferExisting | SelectFromTarget

text \<open>Storages and notifiers, as far as the dialog reads them.\<close>

record target_resource =
  rs_id :: string
  rs_workspaceId :: string

record notifier_usage =
  nu_notifierId :: string
  nu_databaseCount :: nat
  nu_canTransfer :: bool

record transferred_database =
  xd_id :: string
  xd_workspaceId :: string
  xd_notifierIds :: "string list"

text \<open>\<open>td_transferred\<close> counts the calls of \<open>onTransferred\<close>.\<close>

record transfer_dialog =
  td_database :: transferred_database
  td_currentStorageId :: "string option"
  td_error :: "jsval option"
  td_isLoading :: bool
  td_workspaces :: "string list"
  td_selectedWorkspaceId :: "string option"
  td_storageOption :: transfer_option
  td_isStorageShared :: bool
  td_isLoadingStorageSharing :: bool
  td_targetStorages :: "target_resource list"
  td_selectedStorageId :: "string option"
  td_isShowCreateStorage :: bool
  td_notifierOption :: transfer_option
  td_notifierUsageInfo :: "notifier_usage list"
  td_isLoadingNotifierCounts :: bool
  td_targetNotifiers :: "target_resource list"
  td_selectedNotifierIds :: "string list"
  td_isShowCreateNotifier :: bool
  td_isTransferring :: bool
  td_contextRevision :: request_revision
  td_targetRevision :: request_revision
  td_acknowledgedStorages :: "target_resource list"
  td_acknowledgedNotifiers :: "target_resource list"
  td_transferred :: nat

definition opened_dialog :: "transferred_database \<Rightarrow> string option \<Rightarrow> transfer_dialog" where
  "opened_dialog database currentStorageId =
     \<lparr>td_database = database, td_currentStorageId = currentStorageId, td_error = None, td_isLoading = True,
      td_workspaces = [], td_selectedWorkspaceId = None, td_storageOption = SelectFromTarget,
      td_isStorageShared = False, td_isLoadingStorageSharing = False, td_targetStorages = [],
      td_selectedStorageId = None, td_isShowCreateStorage = False, td_notifierOption = SelectFromTarget,
      td_notifierUsageInfo = [], td_isLoadingNotifierCounts = False, td_targetNotifiers = [],
      td_selectedNotifierIds = [], td_isShowCreateNotifier = False, td_isTransferring = False,
      td_contextRevision = new_revision, td_targetRevision = new_revision, td_acknowledgedStorages = [],
      td_acknowledgedNotifiers = [], td_transferred = 0\<rparr>"

section \<open>What the dialog knows of the database\<close>

definition is_context_active :: "bool \<Rightarrow> nat \<Rightarrow> transfer_dialog \<Rightarrow> bool" where
  "is_context_active isCurrent revision s \<longleftrightarrow> isCurrent \<and> is_current_revision (td_contextRevision s) revision"

definition load_workspaces :: "transfer_dialog \<Rightarrow> transfer_dialog \<times> nat" where
  "load_workspaces s = (s\<lparr>td_isLoading := True\<rparr>, get_current (td_contextRevision s))"

definition settle_workspaces ::
    "bool \<Rightarrow> nat \<Rightarrow> jsval + string list \<Rightarrow> transfer_dialog \<Rightarrow> transfer_dialog" where
  "settle_workspaces isCurrent revision answer s =
     (if \<not> is_context_active isCurrent revision s then s
      else (case answer of
          Inl e \<Rightarrow> s\<lparr>td_error := Some e\<rparr>
        | Inr listed \<Rightarrow> s\<lparr>td_workspaces := filter (\<lambda>w. w \<noteq> xd_workspaceId (td_database s)) listed\<rparr>)
        \<lparr>td_isLoading := False\<rparr>)"

definition storage_sharing_check_limit :: nat where "storage_sharing_check_limit = 2"

definition load_storage_sharing :: "transfer_dialog \<Rightarrow> transfer_dialog \<times> nat option" where
  "load_storage_sharing s =
     (if \<not> truthy (td_currentStorageId s) then (s, None)
      else (s\<lparr>td_isLoadingStorageSharing := True\<rparr>, Some (get_current (td_contextRevision s))))"

text \<open>The answer: the databases of the first configurations that back up into the storage.\<close>

definition settle_storage_sharing ::
    "bool \<Rightarrow> nat \<Rightarrow> jsval + string list \<Rightarrow> transfer_dialog \<Rightarrow> transfer_dialog" where
  "settle_storage_sharing isCurrent revision answer s =
     (if \<not> is_context_active isCurrent revision s then s
      else (case answer of
          Inl e \<Rightarrow> s\<lparr>td_error := Some e\<rparr>
        | Inr databaseIds \<Rightarrow>
            s\<lparr>td_isStorageShared := list_ex (\<lambda>i. i \<noteq> xd_id (td_database s)) databaseIds\<rparr>)
        \<lparr>td_isLoadingStorageSharing := False\<rparr>)"

definition load_notifier_usage_counts :: "transfer_dialog \<Rightarrow> transfer_dialog \<times> nat option" where
  "load_notifier_usage_counts s =
     (if xd_notifierIds (td_database s) = [] then (s, None)
      else (s\<lparr>td_isLoadingNotifierCounts := True\<rparr>, Some (get_current (td_contextRevision s))))"

text \<open>After the first await the databases of each of the database's notifiers are asked for.\<close>

definition settle_workspace_notifiers ::
    "bool \<Rightarrow> nat \<Rightarrow> jsval + string list \<Rightarrow> transfer_dialog \<Rightarrow> transfer_dialog \<times> string list option" where
  "settle_workspace_notifiers isCurrent revision answer s =
     (if \<not> is_context_active isCurrent revision s then (s, None)
      else case answer of
          Inl e \<Rightarrow> (s\<lparr>td_error := Some e, td_isLoadingNotifierCounts := False\<rparr>, None)
        | Inr listed \<Rightarrow> (s, Some (filter (\<lambda>i. i \<in> set (xd_notifierIds (td_database s))) listed)))"

definition settle_notifier_counts ::
    "bool \<Rightarrow> nat \<Rightarrow> string list \<Rightarrow> jsval + nat list \<Rightarrow> transfer_dialog \<Rightarrow> transfer_dialog" where
  "settle_notifier_counts isCurrent revision notifierIds answer s =
     (if \<not> is_context_active isCurrent revision s then s
      else (case answer of
          Inl e \<Rightarrow> s\<lparr>td_error := Some e\<rparr>
        | Inr counts \<Rightarrow> s\<lparr>td_notifierUsageInfo := map2 (\<lambda>i c.
              \<lparr>nu_notifierId = i, nu_databaseCount = c, nu_canTransfer = (c = 1)\<rparr>) notifierIds counts\<rparr>)
        \<lparr>td_isLoadingNotifierCounts := False\<rparr>)"

section \<open>The target workspace\<close>

definition remember_resource :: "target_resource \<Rightarrow> target_resource list \<Rightarrow> target_resource list" where
  "remember_resource r rs = filter (\<lambda>x. rs_id x \<noteq> rs_id r) rs @ [r]"

definition with_acknowledged :: "target_resource list \<Rightarrow> target_resource list \<Rightarrow> target_resource list" where
  "with_acknowledged acknowledged listed =
     filter (\<lambda>x. \<not> list_ex (\<lambda>y. rs_id y = rs_id x) acknowledged) listed @ acknowledged"

definition load_target_workspace_data :: "string \<Rightarrow> transfer_dialog \<Rightarrow> transfer_dialog \<times> (nat \<times> string)" where
  "load_target_workspace_data workspaceId s = (let (revision, r) = invalidate (td_targetRevision s)
     in (s\<lparr>td_targetRevision := r\<rparr>, (revision, workspaceId)))"

definition settle_target_data ::
    "bool \<Rightarrow> nat \<times> string \<Rightarrow> jsval + target_resource list \<times> target_resource list \<Rightarrow> transfer_dialog \<Rightarrow>
      transfer_dialog" where
  "settle_target_data isCurrent load answer s = (case load of (revision, workspaceId) \<Rightarrow>
     if \<not> isCurrent \<or> \<not> is_current_revision (td_targetRevision s) revision
        \<or> td_selectedWorkspaceId s \<noteq> Some workspaceId then s
     else case answer of
        Inl e \<Rightarrow> s\<lparr>td_error := Some e\<rparr>
      | Inr (storages, notifiers) \<Rightarrow>
          s\<lparr>td_targetStorages := with_acknowledged (td_acknowledgedStorages s) storages,
            td_targetNotifiers := with_acknowledged (td_acknowledgedNotifiers s) notifiers\<rparr>)"

definition accept_target_storage ::
    "bool \<Rightarrow> target_resource \<Rightarrow> transfer_dialog \<Rightarrow> transfer_dialog \<times> (nat \<times> string) option" where
  "accept_target_storage isCurrent storage s =
     (if \<not> isCurrent \<or> td_selectedWorkspaceId s \<noteq> Some (rs_workspaceId storage) then (s, None)
      else (let (s1, load) = load_target_workspace_data (rs_workspaceId storage)
          (s\<lparr>td_acknowledgedStorages := remember_resource storage (td_acknowledgedStorages s),
             td_targetStorages := remember_resource storage (td_targetStorages s)\<rparr>)
        in (s1, Some load)))"

definition accept_target_notifier ::
    "bool \<Rightarrow> target_resource \<Rightarrow> transfer_dialog \<Rightarrow> transfer_dialog \<times> (nat \<times> string) option" where
  "accept_target_notifier isCurrent notifier s =
     (if \<not> isCurrent \<or> td_selectedWorkspaceId s \<noteq> Some (rs_workspaceId notifier) then (s, None)
      else (let (s1, load) = load_target_workspace_data (rs_workspaceId notifier)
          (s\<lparr>td_acknowledgedNotifiers := remember_resource notifier (td_acknowledgedNotifiers s),
             td_targetNotifiers := remember_resource notifier (td_targetNotifiers s)\<rparr>)
        in (s1, Some load)))"

text \<open>\<open>onChanged\<close> of the two forms: the new one is chosen and the form closed.\<close>

definition choose_created_storage :: "bool \<Rightarrow> target_resource \<Rightarrow> transfer_dialog \<Rightarrow> transfer_dialog" where
  "choose_created_storage isCurrent storage s =
     (if \<not> isCurrent \<or> td_selectedWorkspaceId s \<noteq> Some (rs_workspaceId storage) then s
      else s\<lparr>td_selectedStorageId := Some (rs_id storage), td_isShowCreateStorage := False\<rparr>)"

definition choose_created_notifier :: "bool \<Rightarrow> target_resource \<Rightarrow> transfer_dialog \<Rightarrow> transfer_dialog" where
  "choose_created_notifier isCurrent notifier s =
     (if \<not> isCurrent \<or> td_selectedWorkspaceId s \<noteq> Some (rs_workspaceId notifier) then s
      else s\<lparr>td_selectedNotifierIds := td_selectedNotifierIds s @ [rs_id notifier],
             td_isShowCreateNotifier := False\<rparr>)"

text \<open>Another workspace is selected, and the effect on it runs.\<close>

definition select_target_workspace :: "string \<Rightarrow> transfer_dialog \<Rightarrow> transfer_dialog \<times> (nat \<times> string) option" where
  "select_target_workspace workspaceId s =
     (if td_selectedWorkspaceId s = Some workspaceId then (s, None)
      else (let s1 = s\<lparr>td_selectedWorkspaceId := Some workspaceId,
                td_targetRevision := snd (invalidate (td_targetRevision s)),
                td_acknowledgedStorages := [], td_acknowledgedNotifiers := [], td_isShowCreateStorage := False,
                td_isShowCreateNotifier := False, td_error := None, td_targetStorages := [],
                td_targetNotifiers := []\<rparr>
        in if workspaceId = [] then (s1, None)
           else (let (s2, load) = load_target_workspace_data workspaceId s1
             in (s2\<lparr>td_selectedStorageId := None, td_selectedNotifierIds := []\<rparr>, Some load))))"

section \<open>The transfer\<close>

datatype transfer_storage = MoveWithDatabase | SwitchToStorage string

record database_transfer =
  dt_targetWorkspaceId :: string
  dt_storage :: transfer_storage
  dt_isMovingNotifiers :: bool
  dt_targetNotifierIds :: "string list"

definition to_transfer_storage :: "transfer_option \<Rightarrow> string option \<Rightarrow> transfer_storage option" where
  "to_transfer_storage storageOption selectedStorageId =
     (if storageOption = TransferExisting then Some MoveWithDatabase
      else if \<not> truthy selectedStorageId then None
      else map_option SwitchToStorage selectedStorageId)"

definition is_storage_valid :: "transfer_dialog \<Rightarrow> bool" where
  "is_storage_valid s = (if td_storageOption s = TransferExisting
     then \<not> td_isStorageShared s \<and> truthy (td_currentStorageId s) else truthy (td_selectedStorageId s))"

definition is_transfer_form_valid :: "transfer_dialog \<Rightarrow> bool" where
  "is_transfer_form_valid s \<longleftrightarrow> truthy (td_selectedWorkspaceId s) \<and> is_storage_valid s"

text \<open>The token keeps the revision and the workspace the answer is compared with.\<close>

definition handle_transfer ::
    "bool \<Rightarrow> transfer_dialog \<Rightarrow> transfer_dialog \<times> (database_transfer \<times> nat \<times> string option) option" where
  "handle_transfer isCurrent s =
     (if \<not> isCurrent \<or> td_isTransferring s \<or> \<not> truthy (td_selectedWorkspaceId s) then (s, None)
      else case to_transfer_storage (td_storageOption s) (td_selectedStorageId s) of
        None \<Rightarrow> (s, None)
      | Some storage \<Rightarrow> (s\<lparr>td_isTransferring := True\<rparr>,
          Some (\<lparr>dt_targetWorkspaceId = the (td_selectedWorkspaceId s), dt_storage = storage,
                 dt_isMovingNotifiers = (td_notifierOption s = TransferExisting),
                 dt_targetNotifierIds = (if td_notifierOption s = SelectFromTarget
                   then td_selectedNotifierIds s else [])\<rparr>,
               get_current (td_contextRevision s), td_selectedWorkspaceId s)))"

definition settle_transfer ::
    "bool \<Rightarrow> nat \<times> string option \<Rightarrow> jsval + unit \<Rightarrow> transfer_dialog \<Rightarrow> transfer_dialog" where
  "settle_transfer isCurrent captured answer s = (case captured of (revision, workspaceId) \<Rightarrow>
     if \<not> is_context_active isCurrent revision s \<or> td_selectedWorkspaceId s \<noteq> workspaceId then s
     else (case answer of
         Inl e \<Rightarrow> s\<lparr>td_error := Some e\<rparr>
       | Inr _ \<Rightarrow> s\<lparr>td_transferred := Suc (td_transferred s)\<rparr>)\<lparr>td_isTransferring := False\<rparr>)"

text \<open>The dialog is shown for another database: cleanup and effect. The button that retries keeps the
  revisions.\<close>

definition start_context_load :: "transfer_dialog \<Rightarrow> transfer_dialog" where
  "start_context_load s =
     fst (load_notifier_usage_counts (fst (load_storage_sharing (fst (load_workspaces s)))))"

definition show_database :: "transferred_database \<Rightarrow> string option \<Rightarrow> transfer_dialog \<Rightarrow> transfer_dialog" where
  "show_database database currentStorageId s =
     (let s1 = s\<lparr>td_database := database, td_currentStorageId := currentStorageId\<rparr>
      in if xd_id database = xd_id (td_database s) then s1
         else start_context_load
           (s1\<lparr>td_contextRevision := snd (invalidate (snd (invalidate (td_contextRevision s)))),
               td_targetRevision := snd (invalidate (td_targetRevision s))\<rparr>))"

definition retry_loads :: "transfer_dialog \<Rightarrow> transfer_dialog" where
  "retry_loads s0 = (let s = start_context_load (s0\<lparr>td_error := None\<rparr>)
     in case td_selectedWorkspaceId s of
       None \<Rightarrow> s
     | Some w \<Rightarrow> if w = [] then s else fst (load_target_workspace_data w s))"

definition notifiers_blocking_transfer :: "transfer_dialog \<Rightarrow> notifier_usage list" where
  "notifiers_blocking_transfer s = filter (\<lambda>u. \<not> nu_canTransfer u) (td_notifierUsageInfo s)"

definition notifiers_can_transfer :: "transfer_dialog \<Rightarrow> notifier_usage list" where
  "notifiers_can_transfer s = filter nu_canTransfer (td_notifierUsageInfo s)"

section \<open>Runs\<close>

datatype transfer_event =
    SelectWorkspace string
  | ChooseStorage string
  | ChooseNotifiers "string list"
  | SetStorageOption transfer_option
  | SetNotifierOption transfer_option
  | StoragePersisted bool target_resource
  | StorageChanged bool target_resource
  | NotifierPersisted bool target_resource
  | NotifierChanged bool target_resource
  | WorkspacesAnswered bool nat "jsval + string list"
  | SharingAnswered bool nat "jsval + string list"
  | NotifiersListed bool nat "jsval + string list"
  | CountsAnswered bool nat "string list" "jsval + nat list"
  | TargetAnswered bool "nat \<times> string" "jsval + target_resource list \<times> target_resource list"
  | ClickTransfer bool
  | TransferAnswered bool "nat \<times> string option" "jsval + unit"
  | RetryLoads

text \<open>The dialog, the transfers sent, and what the server has said of storages and notifiers: which it listed
  for a workspace or answered as saved in it.\<close>

record transfer_run =
  tx_dialog :: transfer_dialog
  tx_sent :: "database_transfer list"
  tx_storages :: "(string \<times> string) list"
  tx_notifiers :: "(string \<times> string) list"

abbreviation in_workspace :: "target_resource \<Rightarrow> string \<times> string" where
  "in_workspace r \<equiv> (rs_workspaceId r, rs_id r)"

text \<open>Controls are disabled while the transfer runs and show only what there is to choose; a choice of
  notifiers is among those shown and those already chosen.\<close>

definition handle_control :: "transfer_event \<Rightarrow> transfer_dialog \<Rightarrow> transfer_dialog" where
  "handle_control e s = (if td_isTransferring s \<or> td_isLoading s then s else case e of
       SelectWorkspace w \<Rightarrow> if w \<in> set (td_workspaces s) then fst (select_target_workspace w s) else s
     | ChooseStorage i \<Rightarrow> if i \<in> rs_id ` set (td_targetStorages s) then s\<lparr>td_selectedStorageId := Some i\<rparr> else s
     | ChooseNotifiers ids \<Rightarrow>
         if list_all (\<lambda>i. i \<in> rs_id ` set (td_targetNotifiers s) \<or> i \<in> set (td_selectedNotifierIds s)) ids
         then s\<lparr>td_selectedNotifierIds := ids\<rparr> else s
     | SetStorageOption x \<Rightarrow> s\<lparr>td_storageOption := x\<rparr>
     | SetNotifierOption x \<Rightarrow> s\<lparr>td_notifierOption := x\<rparr>
     | _ \<Rightarrow> s)"

definition handle_answer :: "transfer_event \<Rightarrow> transfer_dialog \<Rightarrow> transfer_dialog" where
  "handle_answer e s = (case e of
       StoragePersisted cur r \<Rightarrow> fst (accept_target_storage cur r s)
     | StorageChanged cur r \<Rightarrow> choose_created_storage cur r s
     | NotifierPersisted cur r \<Rightarrow> fst (accept_target_notifier cur r s)
     | NotifierChanged cur r \<Rightarrow> choose_created_notifier cur r s
     | WorkspacesAnswered cur revision a \<Rightarrow> settle_workspaces cur revision a s
     | SharingAnswered cur revision a \<Rightarrow> settle_storage_sharing cur revision a s
     | NotifiersListed cur revision a \<Rightarrow> fst (settle_workspace_notifiers cur revision a s)
     | CountsAnswered cur revision ids a \<Rightarrow> settle_notifier_counts cur revision ids a s
     | TargetAnswered cur load a \<Rightarrow> settle_target_data cur load a s
     | TransferAnswered cur captured a \<Rightarrow> settle_transfer cur captured a s
     | RetryLoads \<Rightarrow> if td_isTransferring s then s else retry_loads s
     | _ \<Rightarrow> handle_control e s)"

definition listed_for :: "transfer_event \<Rightarrow> (string \<times> string) list \<times> (string \<times> string) list" where
  "listed_for e = (case e of
       StoragePersisted cur r \<Rightarrow> ([in_workspace r], [])
     | StorageChanged cur r \<Rightarrow> ([in_workspace r], [])
     | NotifierPersisted cur r \<Rightarrow> ([], [in_workspace r])
     | NotifierChanged cur r \<Rightarrow> ([], [in_workspace r])
     | TargetAnswered cur load (Inr (storages, notifiers)) \<Rightarrow>
         (map (\<lambda>r. (snd load, rs_id r)) storages, map (\<lambda>r. (snd load, rs_id r)) notifiers)
     | _ \<Rightarrow> ([], []))"

definition click_transfer :: "bool \<Rightarrow> transfer_dialog \<Rightarrow> transfer_dialog \<times> database_transfer list" where
  "click_transfer cur s =
     (if td_isLoading s \<or> \<not> is_transfer_form_valid s then (s, [])
      else case handle_transfer cur s of
        (s1, None) \<Rightarrow> (s1, []) | (s1, Some (t, _)) \<Rightarrow> (s1, [t]))"

definition transfer_step :: "transfer_run \<Rightarrow> transfer_event \<Rightarrow> transfer_run" where
  "transfer_step x e = (case e of
       ClickTransfer cur \<Rightarrow> x\<lparr>tx_dialog := fst (click_transfer cur (tx_dialog x)),
         tx_sent := tx_sent x @ snd (click_transfer cur (tx_dialog x))\<rparr>
     | _ \<Rightarrow> x\<lparr>tx_dialog := handle_answer e (tx_dialog x),
         tx_storages := tx_storages x @ fst (listed_for e), tx_notifiers := tx_notifiers x @ snd (listed_for e)\<rparr>)"

definition opened_transfer :: "transferred_database \<Rightarrow> string option \<Rightarrow> transfer_run" where
  "opened_transfer database storageId =
     \<lparr>tx_dialog = start_context_load (opened_dialog database storageId), tx_sent = [], tx_storages = [],
      tx_notifiers = []\<rparr>"

section \<open>Targets belong to the target workspace\<close>

text \<open>Nothing can be transferred to a workspace whose id is the empty text.\<close>

definition offered_in :: "string option \<Rightarrow> (string \<times> string) set \<Rightarrow> string \<Rightarrow> bool" where
  "offered_in w offers i \<longleftrightarrow> (\<exists>x. w = Some x \<and> (x = [] \<or> (x, i) \<in> offers))"

definition target_inv :: "(string \<times> string) set \<Rightarrow> (string \<times> string) set \<Rightarrow> transfer_dialog \<Rightarrow> bool" where
  "target_inv ss ns s \<longleftrightarrow>
     list_all (\<lambda>r. offered_in (td_selectedWorkspaceId s) ss (rs_id r)) (td_targetStorages s)
     \<and> list_all (\<lambda>r. offered_in (td_selectedWorkspaceId s) ss (rs_id r)) (td_acknowledgedStorages s)
     \<and> list_all (\<lambda>r. offered_in (td_selectedWorkspaceId s) ns (rs_id r)) (td_targetNotifiers s)
     \<and> list_all (\<lambda>r. offered_in (td_selectedWorkspaceId s) ns (rs_id r)) (td_acknowledgedNotifiers s)
     \<and> (\<forall>i. td_selectedStorageId s = Some i \<longrightarrow> offered_in (td_selectedWorkspaceId s) ss i)
     \<and> list_all (offered_in (td_selectedWorkspaceId s) ns) (td_selectedNotifierIds s)
     \<and> xd_workspaceId (td_database s) \<notin> set (td_workspaces s)
     \<and> td_selectedWorkspaceId s \<noteq> Some (xd_workspaceId (td_database s))"

lemma offered_mono: "offered_in w ss i \<Longrightarrow> ss \<subseteq> ss' \<Longrightarrow> offered_in w ss' i"
  by (auto simp: offered_in_def)

lemma target_inv_mono: "target_inv ss ns s \<Longrightarrow> ss \<subseteq> ss' \<Longrightarrow> ns \<subseteq> ns' \<Longrightarrow> target_inv ss' ns' s"
  by (auto simp: target_inv_def list_all_iff intro: offered_mono)

lemma offered_Some [simp]: "offered_in (Some w) ss i \<longleftrightarrow> w = [] \<or> (w, i) \<in> ss"
  by (simp add: offered_in_def)

lemma context_target_inv:
  assumes "target_inv ss ns s"
  shows "target_inv ss ns (settle_workspaces cur n a1 s)"
    and "target_inv ss ns (settle_storage_sharing cur n a2 s)"
    and "target_inv ss ns (fst (settle_workspace_notifiers cur n a3 s))"
    and "target_inv ss ns (settle_notifier_counts cur n ids a4 s)"
    and "target_inv ss ns (settle_transfer cur c a5 s)"
  using assms
  by (auto simp: target_inv_def settle_workspaces_def settle_storage_sharing_def settle_workspace_notifiers_def
      settle_notifier_counts_def settle_transfer_def split: sum.split prod.split)

lemma start_context_target_inv: "target_inv ss ns (start_context_load s) = target_inv ss ns s"
  by (simp add: start_context_load_def load_workspaces_def load_storage_sharing_def
      load_notifier_usage_counts_def target_inv_def)

lemma load_target_inv: "target_inv ss ns (fst (load_target_workspace_data w s)) = target_inv ss ns s"
  by (simp add: load_target_workspace_data_def target_inv_def split_beta Let_def)

lemma retry_target_inv: "target_inv ss ns s \<Longrightarrow> target_inv ss ns (retry_loads s)"
proof -
  assume "target_inv ss ns s"
  then have "target_inv ss ns (s\<lparr>td_error := None\<rparr>)" by (simp add: target_inv_def)
  then show ?thesis
    by (auto simp: retry_loads_def Let_def load_target_inv start_context_target_inv split: option.split)
qed

lemma remember_all: "list_all P (remember_resource r rs) \<longleftrightarrow> P r \<and> list_all P (filter (\<lambda>x. rs_id x \<noteq> rs_id r) rs)"
  by (auto simp: remember_resource_def)

lemma list_all_filter_weaken: "list_all P xs \<Longrightarrow> list_all P (filter Q xs)"
  by (auto simp: list_all_iff)

lemma acknowledged_all:
  "list_all P ack \<Longrightarrow> list_all P listed \<Longrightarrow> list_all P (with_acknowledged ack listed)"
  by (auto simp: with_acknowledged_def list_all_iff)

lemma accept_storage_inv:
  "target_inv ss ns s \<Longrightarrow> in_workspace r \<in> ss \<Longrightarrow> target_inv ss ns (fst (accept_target_storage cur r s))"
  by (auto simp: accept_target_storage_def split_beta Let_def load_target_inv)
    (simp add: target_inv_def remember_all list_all_filter_weaken)

lemma accept_notifier_inv:
  "target_inv ss ns s \<Longrightarrow> in_workspace r \<in> ns \<Longrightarrow> target_inv ss ns (fst (accept_target_notifier cur r s))"
  by (auto simp: accept_target_notifier_def split_beta Let_def load_target_inv)
    (simp add: target_inv_def remember_all list_all_filter_weaken)

lemma choose_created_inv:
  "target_inv ss ns s \<Longrightarrow> in_workspace r \<in> ss \<Longrightarrow> target_inv ss ns (choose_created_storage cur r s)"
  "target_inv ss ns s \<Longrightarrow> in_workspace r \<in> ns \<Longrightarrow> target_inv ss ns (choose_created_notifier cur r s)"
  by (auto simp: target_inv_def choose_created_storage_def choose_created_notifier_def offered_in_def)

lemma settle_target_inv:
  assumes "target_inv ss ns s"
    and "\<And>storages notifiers. a = Inr (storages, notifiers) \<Longrightarrow>
      (\<lambda>r. (snd load, rs_id r)) ` set storages \<subseteq> ss \<and> (\<lambda>r. (snd load, rs_id r)) ` set notifiers \<subseteq> ns"
  shows "target_inv ss ns (settle_target_data cur load a s)"
proof (cases a)
  case (Inl e)
  with assms(1) show ?thesis by (auto simp: settle_target_data_def target_inv_def split_beta)
next
  case (Inr answer)
  obtain storages notifiers where answer: "answer = (storages, notifiers)" by (cases answer)
  with assms(2) Inr have "list_all (\<lambda>r. snd load = [] \<or> (snd load, rs_id r) \<in> ss) storages"
      "list_all (\<lambda>r. snd load = [] \<or> (snd load, rs_id r) \<in> ns) notifiers" by (auto simp: list_all_iff)
  with assms(1) Inr answer show ?thesis
    by (auto simp: settle_target_data_def target_inv_def split_beta intro!: acknowledged_all)
qed

lemma select_workspace_inv:
  assumes "target_inv ss ns s" and "w \<in> set (td_workspaces s)"
  shows "target_inv ss ns (fst (select_target_workspace w s))"
proof (cases "w = []")
  case True
  with assms show ?thesis
    by (auto simp: select_target_workspace_def target_inv_def Let_def list_all_iff)
next
  case False
  with assms show ?thesis
    by (auto simp: select_target_workspace_def load_target_workspace_data_def target_inv_def Let_def split_beta)
qed

lemma control_inv:
  assumes "target_inv ss ns s"
  shows "target_inv ss ns (handle_control e s)"
proof (cases "td_isTransferring s \<or> td_isLoading s")
  case True
  then show ?thesis using assms by (simp add: handle_control_def)
next
  case False
  show ?thesis
  proof (cases e)
    case (SelectWorkspace w)
    with False assms select_workspace_inv [OF assms, of w] show ?thesis by (simp add: handle_control_def)
  next
    case (ChooseStorage i)
    with False assms show ?thesis by (auto simp: handle_control_def target_inv_def list_all_iff)
  next
    case (ChooseNotifiers ids)
    with False assms show ?thesis by (auto simp: handle_control_def target_inv_def list_all_iff)
  next
    case (SetStorageOption x)
    with False assms show ?thesis by (simp add: handle_control_def target_inv_def)
  next
    case (SetNotifierOption x)
    with False assms show ?thesis by (simp add: handle_control_def target_inv_def)
  qed (use assms False in \<open>simp_all add: handle_control_def\<close>)
qed

lemma dialog_answer_inv:
  assumes "target_inv ss ns s" and "set (fst (listed_for e)) \<subseteq> ss" "set (snd (listed_for e)) \<subseteq> ns"
  shows "target_inv ss ns (handle_answer e s)"
proof (cases e)
  case (TargetAnswered cur load a)
  have "target_inv ss ns (settle_target_data cur load a s)"
    by (rule settle_target_inv [OF assms(1)]) (use assms(2,3) TargetAnswered in \<open>auto simp: listed_for_def\<close>)
  with TargetAnswered show ?thesis by (simp add: handle_answer_def)
qed (use assms in \<open>simp_all add: handle_answer_def listed_for_def control_inv context_target_inv retry_target_inv
    accept_storage_inv accept_notifier_inv choose_created_inv\<close>)

definition sent_to_offered :: "transfer_run \<Rightarrow> database_transfer \<Rightarrow> bool" where
  "sent_to_offered x t \<longleftrightarrow>
     dt_targetWorkspaceId t \<noteq> xd_workspaceId (td_database (tx_dialog x))
     \<and> (case dt_storage t of
          MoveWithDatabase \<Rightarrow> truthy (td_currentStorageId (tx_dialog x))
        | SwitchToStorage i \<Rightarrow> (dt_targetWorkspaceId t, i) \<in> set (tx_storages x))
     \<and> list_all (\<lambda>i. (dt_targetWorkspaceId t, i) \<in> set (tx_notifiers x)) (dt_targetNotifierIds t)"

definition transfer_run_inv :: "transfer_run \<Rightarrow> bool" where
  "transfer_run_inv x \<longleftrightarrow> target_inv (set (tx_storages x)) (set (tx_notifiers x)) (tx_dialog x)
     \<and> list_all (sent_to_offered x) (tx_sent x)"

lemma click_keeps:
  "td_database (fst (click_transfer cur s)) = td_database s
   \<and> td_currentStorageId (fst (click_transfer cur s)) = td_currentStorageId s"
  by (auto simp: click_transfer_def handle_transfer_def split: option.split)

lemma click_target_inv: "target_inv ss ns s \<Longrightarrow> target_inv ss ns (fst (click_transfer cur s))"
  by (auto simp: click_transfer_def handle_transfer_def target_inv_def split: option.split)

lemma clicked_transfer_ok:
  assumes "target_inv (set (tx_storages x)) (set (tx_notifiers x)) (tx_dialog x)"
    and "t \<in> set (snd (click_transfer cur (tx_dialog x)))"
  shows "sent_to_offered x t"
proof -
  let ?s = "tx_dialog x"
  from assms(2) obtain w st where w: "td_selectedWorkspaceId ?s = Some w" "w \<noteq> []"
    and st: "to_transfer_storage (td_storageOption ?s) (td_selectedStorageId ?s) = Some st" "is_storage_valid ?s"
    and t: "t = \<lparr>dt_targetWorkspaceId = w, dt_storage = st,
        dt_isMovingNotifiers = (td_notifierOption ?s = TransferExisting),
        dt_targetNotifierIds = (if td_notifierOption ?s = SelectFromTarget then td_selectedNotifierIds ?s else [])\<rparr>"
    by (auto simp: click_transfer_def handle_transfer_def truthy_def is_transfer_form_valid_def
        split: option.splits if_splits)
  have "list_all (\<lambda>i. (w, i) \<in> set (tx_notifiers x)) (td_selectedNotifierIds ?s)"
    using assms(1) w by (auto simp: target_inv_def list_all_iff)
  moreover have "w \<noteq> xd_workspaceId (td_database ?s)" using assms(1) w by (simp add: target_inv_def)
  moreover have "case st of MoveWithDatabase \<Rightarrow> truthy (td_currentStorageId ?s)
      | SwitchToStorage i \<Rightarrow> (w, i) \<in> set (tx_storages x)"
  proof (cases "td_storageOption ?s")
    case TransferExisting
    with st show ?thesis by (auto simp: to_transfer_storage_def is_storage_valid_def)
  next
    case SelectFromTarget
    with st obtain i where "st = SwitchToStorage i" "td_selectedStorageId ?s = Some i"
      by (auto simp: to_transfer_storage_def split: if_splits)
    with assms(1) w show ?thesis by (simp add: target_inv_def)
  qed
  ultimately show ?thesis by (cases st) (simp_all add: sent_to_offered_def t)
qed

lemma answer_keeps:
  "td_database (handle_answer e s) = td_database s
   \<and> td_currentStorageId (handle_answer e s) = td_currentStorageId s"
  by (cases e) (auto simp: handle_answer_def handle_control_def accept_target_storage_def
      accept_target_notifier_def load_target_workspace_data_def choose_created_storage_def
      choose_created_notifier_def settle_workspaces_def settle_storage_sharing_def
      settle_workspace_notifiers_def settle_notifier_counts_def settle_target_data_def settle_transfer_def
      retry_loads_def start_context_load_def load_workspaces_def load_storage_sharing_def
      load_notifier_usage_counts_def select_target_workspace_def Let_def split_beta
      split: sum.split option.split)

lemma sent_stays_offered:
  assumes "sent_to_offered x t" "td_database (tx_dialog y) = td_database (tx_dialog x)"
    "td_currentStorageId (tx_dialog y) = td_currentStorageId (tx_dialog x)"
    "set (tx_storages x) \<subseteq> set (tx_storages y)" "set (tx_notifiers x) \<subseteq> set (tx_notifiers y)"
  shows "sent_to_offered y t"
  using assms by (auto simp: sent_to_offered_def list_all_iff split: transfer_storage.splits)

lemma transfer_step_inv:
  assumes "transfer_run_inv x"
  shows "transfer_run_inv (transfer_step x e)"
proof (cases "\<exists>cur. e = ClickTransfer cur")
  case True
  then obtain cur where e: "e = ClickTransfer cur" by blast
  let ?x = "x\<lparr>tx_dialog := fst (click_transfer cur (tx_dialog x)),
    tx_sent := tx_sent x @ snd (click_transfer cur (tx_dialog x))\<rparr>"
  have inv: "target_inv (set (tx_storages x)) (set (tx_notifiers x)) (tx_dialog x)"
    using assms by (simp add: transfer_run_inv_def)
  have "sent_to_offered ?x t" if "t \<in> set (tx_sent ?x)" for t
  proof (rule sent_stays_offered [of x])
    from that assms clicked_transfer_ok [OF inv] show "sent_to_offered x t"
      by (auto simp: transfer_run_inv_def list_all_iff)
  qed (simp_all add: click_keeps)
  with inv show ?thesis by (simp add: transfer_step_def e transfer_run_inv_def click_target_inv list_all_iff)
next
  case False
  let ?x = "x\<lparr>tx_dialog := handle_answer e (tx_dialog x),
    tx_storages := tx_storages x @ fst (listed_for e), tx_notifiers := tx_notifiers x @ snd (listed_for e)\<rparr>"
  have step: "transfer_step x e = ?x" using False by (cases e) (simp_all add: transfer_step_def)
  have "target_inv (set (tx_storages ?x)) (set (tx_notifiers ?x)) (tx_dialog x)"
    by (rule target_inv_mono [of "set (tx_storages x)" "set (tx_notifiers x)"])
      (use assms in \<open>auto simp: transfer_run_inv_def\<close>)
  then have "target_inv (set (tx_storages ?x)) (set (tx_notifiers ?x)) (tx_dialog ?x)"
    using dialog_answer_inv by simp
  moreover have "sent_to_offered ?x t" if "t \<in> set (tx_sent x)" for t
    by (rule sent_stays_offered [of x])
      (use assms that in \<open>auto simp: transfer_run_inv_def list_all_iff answer_keeps\<close>)
  ultimately show ?thesis unfolding step by (simp add: transfer_run_inv_def list_all_iff)
qed

interpretation transfer: invariant_machine transfer_step transfer_run_inv
  by unfold_locales (rule transfer_step_inv)

lemma opened_transfer_inv: "transfer_run_inv (opened_transfer database storageId)"
  by (simp add: transfer_run_inv_def opened_transfer_def start_context_target_inv)
    (simp add: target_inv_def opened_dialog_def)

text \<open>C29: A database is moved only to what belongs to the target. Whatever is clicked in whatever order
  answers come, every transfer sent goes to another workspace than the database's own; its storage is the
  one the database has, or one the server listed for, or saved in, that very workspace; and so are all the
  notifiers it names.\<close>

theorem transfers_name_what_the_target_has:
  "list_all (sent_to_offered (foldl transfer_step (opened_transfer database storageId) es))
    (tx_sent (foldl transfer_step (opened_transfer database storageId) es))"
  using transfer.run_inv [OF opened_transfer_inv, of database storageId es] by (simp add: transfer_run_inv_def)

section \<open>What was just saved can be chosen\<close>

definition remembered :: "string \<Rightarrow> transfer_dialog \<Rightarrow> bool" where
  "remembered i s \<longleftrightarrow> i \<in> rs_id ` set (td_acknowledgedStorages s) \<and> i \<in> rs_id ` set (td_targetStorages s)"

fun stays_on :: "string \<Rightarrow> transfer_event \<Rightarrow> bool" where
  "stays_on w (SelectWorkspace v) = (v = w)"
| "stays_on w e = True"

lemma remember_keeps: "i \<in> rs_id ` set rs \<Longrightarrow> i \<in> rs_id ` set (remember_resource r rs)"
  by (cases "i = rs_id r") (auto simp: remember_resource_def)

lemma remembers_itself: "rs_id r \<in> rs_id ` set (remember_resource r rs)"
  by (simp add: remember_resource_def)

lemma acknowledged_listed: "i \<in> rs_id ` set ack \<Longrightarrow> i \<in> rs_id ` set (with_acknowledged ack listed)"
  by (auto simp: with_acknowledged_def)

lemma loads_keep_remembered:
  "remembered i (start_context_load s) = remembered i s"
  "remembered i (fst (load_target_workspace_data w s)) = remembered i s"
  "remembered i (s\<lparr>td_error := err\<rparr>) = remembered i s"
  "td_selectedWorkspaceId (start_context_load s) = td_selectedWorkspaceId s"
  "td_selectedWorkspaceId (fst (load_target_workspace_data w s)) = td_selectedWorkspaceId s"
  by (simp_all add: remembered_def start_context_load_def load_workspaces_def load_storage_sharing_def
      load_notifier_usage_counts_def load_target_workspace_data_def split_beta Let_def)

lemma retry_keeps_remembered:
  "remembered i (retry_loads s) = remembered i s \<and> td_selectedWorkspaceId (retry_loads s) = td_selectedWorkspaceId s"
  by (simp add: retry_loads_def Let_def loads_keep_remembered split: option.split)

lemma control_keeps_remembered:
  assumes "remembered i s" "td_selectedWorkspaceId s = Some w" "stays_on w e"
  shows "remembered i (handle_control e s) \<and> td_selectedWorkspaceId (handle_control e s) = Some w"
  using assms by (cases e) (simp_all add: handle_control_def remembered_def select_target_workspace_def)

lemma answer_keeps_remembered:
  assumes "remembered i s" "td_selectedWorkspaceId s = Some w" "stays_on w e"
  shows "remembered i (handle_answer e s) \<and> td_selectedWorkspaceId (handle_answer e s) = Some w"
proof (cases e)
  case (StoragePersisted cur r)
  with assms show ?thesis
    by (simp add: handle_answer_def accept_target_storage_def split_beta Let_def loads_keep_remembered)
      (simp add: remembered_def remember_keeps)
next
  case (NotifierPersisted cur r)
  with assms show ?thesis
    by (simp add: handle_answer_def accept_target_notifier_def split_beta Let_def loads_keep_remembered)
      (simp add: remembered_def)
next
  case (TargetAnswered cur load a)
  with assms show ?thesis
    by (auto simp: handle_answer_def settle_target_data_def remembered_def acknowledged_listed
        split: sum.split prod.split)
next
  case RetryLoads
  with assms retry_keeps_remembered show ?thesis by (simp add: handle_answer_def)
qed (use assms control_keeps_remembered [OF assms] in \<open>auto simp: handle_answer_def settle_workspaces_def
    settle_storage_sharing_def settle_workspace_notifiers_def settle_notifier_counts_def settle_transfer_def
    choose_created_storage_def choose_created_notifier_def remembered_def split: sum.split prod.split\<close>)

lemma click_keeps_remembered:
  "remembered i (fst (click_transfer cur s)) = remembered i s
   \<and> td_selectedWorkspaceId (fst (click_transfer cur s)) = td_selectedWorkspaceId s"
  by (auto simp: click_transfer_def handle_transfer_def remembered_def split: option.split)

lemma step_keeps_remembered:
  assumes "remembered i (tx_dialog x)" "td_selectedWorkspaceId (tx_dialog x) = Some w" "stays_on w e"
  shows "remembered i (tx_dialog (transfer_step x e))
    \<and> td_selectedWorkspaceId (tx_dialog (transfer_step x e)) = Some w"
  using assms answer_keeps_remembered [OF assms]
  by (cases e) (simp_all add: transfer_step_def click_keeps_remembered)

interpretation remembering: guarded_machine transfer_step
  "\<lambda>x. remembered i (tx_dialog x) \<and> td_selectedWorkspaceId (tx_dialog x) = Some w" "stays_on w" for i w
  by unfold_locales (use step_keeps_remembered in blast)

text \<open>A storage that was just created for the target workspace stays there to be chosen: whatever lists
  were on their way when it was saved, and whatever answers, clicks and further saves follow, the dialog
  shows it until another workspace is selected.\<close>

theorem created_storage_stays_selectable:
  assumes "td_selectedWorkspaceId (tx_dialog x) = Some (rs_workspaceId r)"
    and "list_all (stays_on (rs_workspaceId r)) es"
  shows "rs_id r \<in> rs_id ` set (td_targetStorages (tx_dialog
    (foldl transfer_step (transfer_step x (StoragePersisted True r)) es)))"
proof -
  have "remembered (rs_id r) (tx_dialog (transfer_step x (StoragePersisted True r)))
      \<and> td_selectedWorkspaceId (tx_dialog (transfer_step x (StoragePersisted True r))) = Some (rs_workspaceId r)"
    using assms(1) by (simp add: transfer_step_def handle_answer_def accept_target_storage_def split_beta
        Let_def loads_keep_remembered) (simp add: remembered_def remembers_itself)
  from remembering.guarded_run_inv [OF this assms(2)] show ?thesis by (simp add: remembered_def)
qed

definition sample_database :: transferred_database where
  "sample_database = \<lparr>xd_id = ''d'', xd_workspaceId = ''w0'', xd_notifierIds = []\<rparr>"

definition sample_run :: transfer_run where
  "sample_run = foldl transfer_step (opened_transfer sample_database None)
     [WorkspacesAnswered True 0 (Inr [''w0'', ''w1'']), SelectWorkspace ''w1'']"

definition sample_storage :: target_resource where
  "sample_storage = \<lparr>rs_id = ''s'', rs_workspaceId = ''w1''\<rparr>"

lemma created_storage_stays_selectable_witness:
  "''s'' \<in> rs_id ` set (td_targetStorages (tx_dialog (foldl transfer_step
    (transfer_step sample_run (StoragePersisted True sample_storage))
      [TargetAnswered True (2, ''w1'') (Inr ([], [])), TargetAnswered True (3, ''w1'') (Inr ([], []))])))"
proof -
  have "td_selectedWorkspaceId (tx_dialog sample_run) = Some (rs_workspaceId sample_storage)"
    unfolding sample_run_def sample_storage_def sample_database_def by code_simp
  from created_storage_stays_selectable [OF this, of
      "[TargetAnswered True (2, ''w1'') (Inr ([], [])), TargetAnswered True (3, ''w1'') (Inr ([], []))]"]
  show ?thesis by (simp add: sample_storage_def)
qed

text \<open>The button does not wait for the check of the storage: while the answer is still on its way, a storage
  that other databases use can be sent along.\<close>

lemma unchecked_storage_can_be_moved:
  assumes "td_storageOption s = TransferExisting" "truthy (td_currentStorageId s)"
    "truthy (td_selectedWorkspaceId s)" "td_isLoadingStorageSharing s" "\<not> td_isStorageShared s"
    "\<not> td_isTransferring s" "\<not> td_isLoading s"
  shows "map dt_storage (snd (click_transfer True s)) = [MoveWithDatabase]"
  using assms by (simp add: click_transfer_def is_transfer_form_valid_def is_storage_valid_def handle_transfer_def
      to_transfer_storage_def)

lemma answers_of_another_database_dropped:
  assumes "xd_id database \<noteq> xd_id (td_database s)" "revision = get_current (td_contextRevision s)"
  shows "\<not> is_context_active cur revision (show_database database storageId s)"
  using assms by (simp add: show_database_def start_context_load_def load_workspaces_def load_storage_sharing_def
      load_notifier_usage_counts_def is_context_active_def is_current_revision_def get_current_def Let_def)

end
