(* ===== verification/Workspace_Members.thy ===== *)
theory Workspace_Members
  imports App_State Page_Values
begin

text \<open>
  The members of a workspace (\<open>pages/workspace-settings/ui/WorkspaceMembersComponent.tsx\<close>): what each
  user may do with whom, and the screen's loads, searches and changes, each cut at its await. Whether the
  session's guard holds when an answer comes is an argument.
\<close>

section \<open>State\<close>

record workspace_member =
  wm_id :: string
  wm_userId :: string
  wm_email :: string
  wm_role :: workspace_role

record add_member_form =
  am_email :: string
  am_role :: workspace_role

definition empty_add_member_form :: add_member_form where
  "empty_add_member_form = \<lparr>am_email = [], am_role = WORKSPACE_MEMBER\<rparr>"

datatype members_message =
    MemberAdded | RoleChanged | MemberRemoved string | OwnershipTransferred
  | EmailRequired | TransferMemberRequired | TransferMemberNotFound | RequestFailed jsval

record members_screen =
  ms_workspace :: workspace
  ms_user :: app_user
  ms_loadError :: "jsval option"
  ms_members :: "workspace_member list"
  ms_isLoadingMembers :: bool
  ms_hasLoadedMembers :: bool
  ms_isAddMemberModalOpen :: bool
  ms_addMemberForm :: add_member_form
  ms_isAddingMember :: bool
  ms_addMemberEmailError :: bool
  ms_isInviteDialogOpen :: bool
  ms_invitedEmail :: string
  ms_changingRoleFor :: "string option"
  ms_isChangingRole :: bool
  ms_isTransferOwnershipModalOpen :: bool
  ms_selectedMemberId :: string
  ms_isTransferringOwnership :: bool
  ms_transferMemberError :: bool
  ms_removingMembers :: "string set"
  ms_userSearchResults :: "string list"
  ms_isSearchingUsers :: bool
  ms_searchInputValue :: string
  ms_searchRevision :: request_revision
  ms_memberReadRevision :: request_revision
  ms_messages :: "members_message list"
  ms_unavailable :: "jsval list"

definition opened_members :: "workspace \<Rightarrow> app_user \<Rightarrow> members_screen" where
  "opened_members w u =
     \<lparr>ms_workspace = w, ms_user = u, ms_loadError = None, ms_members = [], ms_isLoadingMembers = True,
      ms_hasLoadedMembers = False, ms_isAddMemberModalOpen = False, ms_addMemberForm = empty_add_member_form,
      ms_isAddingMember = False, ms_addMemberEmailError = False, ms_isInviteDialogOpen = False,
      ms_invitedEmail = [], ms_changingRoleFor = None, ms_isChangingRole = False,
      ms_isTransferOwnershipModalOpen = False, ms_selectedMemberId = [], ms_isTransferringOwnership = False,
      ms_transferMemberError = False, ms_removingMembers = {}, ms_userSearchResults = [],
      ms_isSearchingUsers = False, ms_searchInputValue = [], ms_searchRevision = new_revision,
      ms_memberReadRevision = new_revision, ms_messages = [], ms_unavailable = []\<rparr>"

definition say :: "members_message \<Rightarrow> members_screen \<Rightarrow> members_screen" where
  "say m s = s\<lparr>ms_messages := ms_messages s @ [m]\<rparr>"

section \<open>Rights\<close>

definition is_instance_admin :: "members_screen \<Rightarrow> bool" where
  "is_instance_admin s \<longleftrightarrow> us_role (ms_user s) = INSTANCE_ADMIN"

definition is_workspace_owner :: "members_screen \<Rightarrow> bool" where
  "is_workspace_owner s \<longleftrightarrow> ws_currentUserRole (ms_workspace s) = Some WORKSPACE_OWNER"

definition can_manage_members :: "members_screen \<Rightarrow> bool" where
  "can_manage_members s \<longleftrightarrow> is_instance_admin s \<or> is_workspace_owner s
     \<or> ws_currentUserRole (ms_workspace s) = Some WORKSPACE_ADMIN"

definition can_manage_admins :: "members_screen \<Rightarrow> bool" where
  "can_manage_admins s \<longleftrightarrow> is_instance_admin s \<or> is_workspace_owner s"

definition can_transfer_ownership :: "members_screen \<Rightarrow> bool" where
  "can_transfer_ownership s = can_manage_admins s"

definition eligible_members :: "members_screen \<Rightarrow> workspace_member list" where
  "eligible_members s = filter (\<lambda>m. if wm_role m = WORKSPACE_OWNER then False
     else if wm_userId m = us_id (ms_user s) then is_instance_admin s \<and> \<not> is_workspace_owner s
     else True) (ms_members s)"

definition is_member_manageable :: "members_screen \<Rightarrow> workspace_member \<Rightarrow> bool" where
  "is_member_manageable s m \<longleftrightarrow> can_manage_members s \<and> wm_role m \<noteq> WORKSPACE_OWNER
     \<and> wm_userId m \<noteq> us_id (ms_user s) \<and> (wm_role m \<noteq> WORKSPACE_ADMIN \<or> can_manage_admins s)"

definition assignable_roles :: "members_screen \<Rightarrow> workspace_role list" where
  "assignable_roles s = (if can_manage_admins s then [WORKSPACE_VIEWER, WORKSPACE_MEMBER, WORKSPACE_ADMIN]
     else [WORKSPACE_VIEWER, WORKSPACE_MEMBER])"

section \<open>Requests\<close>

datatype members_request =
    ListMembers
  | SearchUsers string
  | AddMember string workspace_role
  | ChangeRole string workspace_role
  | RemoveMember string
  | TransferOwnership string

text \<open>What the rest of a request captured.\<close>

datatype members_pending =
    PendMembers nat
  | PendSearch nat
  | PendAdd
  | PendRole string
  | PendRemove string string
  | PendTransfer

type_synonym members_start = "members_screen \<times> (members_request \<times> members_pending) option"

definition load_members :: "members_screen \<Rightarrow> members_start" where
  "load_members s = (let (revision, r) = invalidate (ms_memberReadRevision s)
     in (s\<lparr>ms_memberReadRevision := r, ms_isLoadingMembers := True, ms_loadError := None\<rparr>,
         Some (ListMembers, PendMembers revision)))"

definition search_users :: "string \<Rightarrow> members_screen \<Rightarrow> members_start" where
  "search_users query s = (let (revision, r) = invalidate (ms_searchRevision s);
       s1 = s\<lparr>ms_searchRevision := r\<rparr>
     in if us_role (ms_user s) \<noteq> INSTANCE_ADMIN then (s1, None)
        else (s1\<lparr>ms_isSearchingUsers := True\<rparr>, Some (SearchUsers query, PendSearch revision)))"

definition handle_add_member :: "members_screen \<Rightarrow> members_start" where
  "handle_add_member s =
     (if trim (am_email (ms_addMemberForm s)) = []
      then (say EmailRequired (s\<lparr>ms_addMemberEmailError := True\<rparr>), None)
      else (s\<lparr>ms_addMemberEmailError := False, ms_isAddingMember := True\<rparr>,
        Some (AddMember (trim (am_email (ms_addMemberForm s))) (am_role (ms_addMemberForm s)), PendAdd)))"

definition handle_change_role :: "string \<Rightarrow> workspace_role \<Rightarrow> members_screen \<Rightarrow> members_start" where
  "handle_change_role memberId newRole s =
     (s\<lparr>ms_changingRoleFor := Some memberId, ms_isChangingRole := True\<rparr>,
      Some (ChangeRole memberId newRole, PendRole memberId))"

definition handle_remove_member :: "string \<Rightarrow> string \<Rightarrow> members_screen \<Rightarrow> members_start" where
  "handle_remove_member memberId memberEmail s =
     (s\<lparr>ms_removingMembers := insert memberId (ms_removingMembers s)\<rparr>,
      Some (RemoveMember memberId, PendRemove memberId memberEmail))"

definition handle_transfer_ownership :: "members_screen \<Rightarrow> members_start" where
  "handle_transfer_ownership s =
     (if ms_selectedMemberId s = []
      then (say TransferMemberRequired (s\<lparr>ms_transferMemberError := True\<rparr>), None)
      else case find (\<lambda>m. wm_id m = ms_selectedMemberId s) (ms_members s) of
        None \<Rightarrow> (say TransferMemberNotFound s, None)
      | Some m \<Rightarrow> (s\<lparr>ms_transferMemberError := False, ms_isTransferringOwnership := True\<rparr>,
          Some (TransferOwnership (wm_id m), PendTransfer)))"

section \<open>Answers\<close>

text \<open>A failure has its value and, when it is an answer of the API, its status.\<close>

record members_failure =
  mf_error :: jsval
  mf_status :: "int option"

datatype members_answer =
    Members "workspace_member list"
  | Users "(string \<times> string) list"
  | Added string bool
  | Changed workspace_member
  | Done

definition fail_members :: "members_failure \<Rightarrow> members_screen \<Rightarrow> members_screen" where
  "fail_members f s = say (RequestFailed (mf_error f)) s"

definition settle_members ::
    "bool \<Rightarrow> nat \<Rightarrow> members_failure + workspace_member list \<Rightarrow> members_screen \<Rightarrow> members_screen" where
  "settle_members isCurrent revision answer s =
     (if \<not> isCurrent \<or> \<not> is_current_revision (ms_memberReadRevision s) revision then s
      else (case answer of
          Inr loaded \<Rightarrow> s\<lparr>ms_members := loaded, ms_hasLoadedMembers := True\<rparr>
        | Inl f \<Rightarrow> (let s1 = s\<lparr>ms_loadError := Some (mf_error f)\<rparr> in
            if mf_status f \<in> {Some 403, Some 404}
            then s1\<lparr>ms_members := [], ms_hasLoadedMembers := False,
                    ms_unavailable := ms_unavailable s @ [mf_error f]\<rparr>
            else s1))\<lparr>ms_isLoadingMembers := False\<rparr>)"

text \<open>Users are their e-mail and status.\<close>

definition settle_search ::
    "bool \<Rightarrow> nat \<Rightarrow> members_failure + (string \<times> string) list \<Rightarrow> members_screen \<Rightarrow> members_screen" where
  "settle_search isCurrent revision answer s =
     (if \<not> isCurrent \<or> \<not> is_current_revision (ms_searchRevision s) revision then s
      else (case answer of
          Inr found \<Rightarrow> s\<lparr>ms_userSearchResults := map fst (filter (\<lambda>u. snd u = ''ACTIVE'') found)\<rparr>
        | Inl f \<Rightarrow> (fail_members f s)\<lparr>ms_userSearchResults := []\<rparr>)\<lparr>ms_isSearchingUsers := False\<rparr>)"

text \<open>An addition answers the e-mail and whether the user was invited. The list is read again.\<close>

definition settle_add ::
    "bool \<Rightarrow> members_failure + string \<times> bool \<Rightarrow> members_screen \<Rightarrow> members_start" where
  "settle_add isCurrent answer s =
     (if \<not> isCurrent then (s, None)
      else case answer of
        Inl f \<Rightarrow> ((fail_members f s)\<lparr>ms_isAddingMember := False\<rparr>, None)
      | Inr (email, isInvited) \<Rightarrow>
          (let s1 = s\<lparr>ms_addMemberForm := empty_add_member_form, ms_isAddMemberModalOpen := False\<rparr>;
               s2 = (if isInvited then s1\<lparr>ms_invitedEmail := email, ms_isInviteDialogOpen := True\<rparr>
                     else say MemberAdded s1);
               (s3, req) = load_members s2
           in (s3\<lparr>ms_isAddingMember := False\<rparr>, req)))"

definition settle_role ::
    "bool \<Rightarrow> string \<Rightarrow> members_failure + workspace_member \<Rightarrow> members_screen \<Rightarrow> members_screen" where
  "settle_role isCurrent memberId answer s =
     (if \<not> isCurrent then s
      else (case answer of
          Inr changed \<Rightarrow> say RoleChanged
            (s\<lparr>ms_members := map (\<lambda>m. if wm_id m = memberId then changed else m) (ms_members s)\<rparr>)
        | Inl f \<Rightarrow> fail_members f s)\<lparr>ms_changingRoleFor := None, ms_isChangingRole := False\<rparr>)"

definition settle_remove ::
    "bool \<Rightarrow> string \<Rightarrow> string \<Rightarrow> members_failure + unit \<Rightarrow> members_screen \<Rightarrow> members_screen" where
  "settle_remove isCurrent memberId memberEmail answer s =
     (if \<not> isCurrent then s
      else (case answer of
          Inr _ \<Rightarrow> say (MemberRemoved memberEmail)
            (s\<lparr>ms_members := filter (\<lambda>m. wm_id m \<noteq> memberId) (ms_members s)\<rparr>)
        | Inl f \<Rightarrow> fail_members f s)\<lparr>ms_removingMembers := ms_removingMembers s - {memberId}\<rparr>)"

definition settle_transfer_ownership ::
    "bool \<Rightarrow> members_failure + unit \<Rightarrow> members_screen \<Rightarrow> members_start" where
  "settle_transfer_ownership isCurrent answer s =
     (if \<not> isCurrent then (s, None)
      else case answer of
        Inl f \<Rightarrow> ((fail_members f s)\<lparr>ms_isTransferringOwnership := False\<rparr>, None)
      | Inr _ \<Rightarrow>
          (let (s1, req) = load_members (say OwnershipTransferred
              (s\<lparr>ms_selectedMemberId := [], ms_isTransferOwnershipModalOpen := False\<rparr>))
           in (s1\<lparr>ms_isTransferringOwnership := False\<rparr>, req)))"

section \<open>Dialogs\<close>

definition enter_email :: "string \<Rightarrow> members_screen \<Rightarrow> members_screen" where
  "enter_email v s = (let s1 = s\<lparr>ms_addMemberEmailError := False,
       ms_addMemberForm := (ms_addMemberForm s)\<lparr>am_email := trim (to_lower v)\<rparr>\<rparr>
     in if us_role (ms_user s) = INSTANCE_ADMIN then s1\<lparr>ms_searchInputValue := v\<rparr> else s1)"

definition cancel_add_dialog :: "members_screen \<Rightarrow> members_screen" where
  "cancel_add_dialog s = s\<lparr>ms_isAddMemberModalOpen := False, ms_addMemberForm := empty_add_member_form,
     ms_addMemberEmailError := False, ms_searchInputValue := [], ms_userSearchResults := []\<rparr>"

definition cancel_transfer_dialog :: "members_screen \<Rightarrow> members_screen" where
  "cancel_transfer_dialog s = s\<lparr>ms_isTransferOwnershipModalOpen := False, ms_selectedMemberId := [],
     ms_transferMemberError := False\<rparr>"

text \<open>The effect of the search: 300 ms after the last change of the text or the dialog; before, its cleanup
  makes an earlier answer old.\<close>

definition cleanup_search :: "members_screen \<Rightarrow> members_screen" where
  "cleanup_search s = s\<lparr>ms_searchRevision := snd (invalidate (ms_searchRevision s))\<rparr>"

definition fire_search_timer :: "members_screen \<Rightarrow> members_start" where
  "fire_search_timer s = (if us_role (ms_user s) = INSTANCE_ADMIN \<and> ms_isAddMemberModalOpen s
     then search_users (ms_searchInputValue s) s else (s, None))"

section \<open>Runs\<close>

datatype members_event =
    RetryMembers
  | OpenAddDialog
  | EnterEmail string
  | ChooseNewRole workspace_role
  | CancelAddDialog
  | FocusEmail
  | SearchTimer
  | CleanupSearch
  | ClickAdd
  | SelectRole string workspace_role
  | ConfirmRemoval string
  | OpenTransferDialog
  | ChooseOwner string
  | CancelTransferDialog
  | ClickTransferOwnership
  | MembersAnswered bool members_pending "members_failure + members_answer"

text \<open>The screen, what is on its way, and the requests sent, each with the members shown then.\<close>

record members_run =
  mr_screen :: members_screen
  mr_pending :: "members_pending list"
  mr_sent :: "(members_request \<times> workspace_member list) list"

definition shown_member :: "string \<Rightarrow> members_screen \<Rightarrow> workspace_member option" where
  "shown_member i s = (if ms_isLoadingMembers s \<or> \<not> ms_hasLoadedMembers s then None
     else find (\<lambda>m. wm_id m = i) (ms_members s))"

text \<open>Which controls are there and enabled.\<close>

definition click_in_screen :: "members_event \<Rightarrow> members_screen \<Rightarrow> members_start" where
  "click_in_screen e s = (case e of
       RetryMembers \<Rightarrow> if ms_loadError s \<noteq> None then load_members s else (s, None)
     | OpenAddDialog \<Rightarrow> (if can_manage_members s \<and> \<not> ms_isLoadingMembers s
         then s\<lparr>ms_isAddMemberModalOpen := True\<rparr> else s, None)
     | EnterEmail v \<Rightarrow> (enter_email v s, None)
     | ChooseNewRole r \<Rightarrow> (if r \<in> set (assignable_roles s)
         then s\<lparr>ms_addMemberForm := (ms_addMemberForm s)\<lparr>am_role := r\<rparr>\<rparr> else s, None)
     | CancelAddDialog \<Rightarrow> (cancel_add_dialog s, None)
     | FocusEmail \<Rightarrow> search_users [] s
     | SearchTimer \<Rightarrow> fire_search_timer s
     | CleanupSearch \<Rightarrow> (cleanup_search s, None)
     | ClickAdd \<Rightarrow> if ms_isAddMemberModalOpen s \<and> \<not> ms_isAddingMember s then handle_add_member s else (s, None)
     | SelectRole i r \<Rightarrow> (case shown_member i s of
         None \<Rightarrow> (s, None)
       | Some m \<Rightarrow> if is_member_manageable s m \<and> r \<in> set (assignable_roles s)
             \<and> \<not> (ms_changingRoleFor s = Some i \<and> ms_isChangingRole s)
           then handle_change_role i r s else (s, None))
     | ConfirmRemoval i \<Rightarrow> (case shown_member i s of
         None \<Rightarrow> (s, None)
       | Some m \<Rightarrow> if is_member_manageable s m \<and> i \<notin> ms_removingMembers s
           then handle_remove_member i (wm_email m) s else (s, None))
     | OpenTransferDialog \<Rightarrow> (if can_transfer_ownership s \<and> \<not> ms_isLoadingMembers s \<and> eligible_members s \<noteq> []
         then s\<lparr>ms_isTransferOwnershipModalOpen := True\<rparr> else s, None)
     | ChooseOwner i \<Rightarrow> (if i \<in> wm_id ` set (eligible_members s)
         then s\<lparr>ms_transferMemberError := False, ms_selectedMemberId := i\<rparr> else s, None)
     | CancelTransferDialog \<Rightarrow> (cancel_transfer_dialog s, None)
     | ClickTransferOwnership \<Rightarrow>
         if ms_isTransferOwnershipModalOpen s \<and> \<not> ms_isTransferringOwnership s \<and> eligible_members s \<noteq> []
         then handle_transfer_ownership s else (s, None)
     | MembersAnswered cur p a \<Rightarrow> (s, None))"

text \<open>The rest of a request with its answer; one of another kind cannot come.\<close>

definition settle_pending ::
    "bool \<Rightarrow> members_pending \<Rightarrow> members_failure + members_answer \<Rightarrow> members_screen \<Rightarrow> members_start" where
  "settle_pending cur p a s = (case (p, a) of
       (PendMembers n, Inr (Members l)) \<Rightarrow> (settle_members cur n (Inr l) s, None)
     | (PendMembers n, Inl f) \<Rightarrow> (settle_members cur n (Inl f) s, None)
     | (PendSearch n, Inr (Users l)) \<Rightarrow> (settle_search cur n (Inr l) s, None)
     | (PendSearch n, Inl f) \<Rightarrow> (settle_search cur n (Inl f) s, None)
     | (PendAdd, Inr (Added email isInvited)) \<Rightarrow> settle_add cur (Inr (email, isInvited)) s
     | (PendAdd, Inl f) \<Rightarrow> settle_add cur (Inl f) s
     | (PendRole i, Inr (Changed m)) \<Rightarrow> (settle_role cur i (Inr m) s, None)
     | (PendRole i, Inl f) \<Rightarrow> (settle_role cur i (Inl f) s, None)
     | (PendRemove i email, Inr Done) \<Rightarrow> (settle_remove cur i email (Inr ()) s, None)
     | (PendRemove i email, Inl f) \<Rightarrow> (settle_remove cur i email (Inl f) s, None)
     | (PendTransfer, Inr Done) \<Rightarrow> settle_transfer_ownership cur (Inr ()) s
     | (PendTransfer, Inl f) \<Rightarrow> settle_transfer_ownership cur (Inl f) s
     | _ \<Rightarrow> (s, None))"

fun answers_pending :: "members_pending \<Rightarrow> members_failure + members_answer \<Rightarrow> bool" where
  "answers_pending p (Inl f) = True"
| "answers_pending (PendMembers n) (Inr (Members l)) = True"
| "answers_pending (PendSearch n) (Inr (Users l)) = True"
| "answers_pending PendAdd (Inr (Added email isInvited)) = True"
| "answers_pending (PendRole i) (Inr (Changed m)) = True"
| "answers_pending (PendRemove i email) (Inr Done) = True"
| "answers_pending PendTransfer (Inr Done) = True"
| "answers_pending _ _ = False"

definition started :: "members_start \<Rightarrow> members_pending list \<Rightarrow> members_run \<Rightarrow> members_run" where
  "started r pending w = (case r of (s, req) \<Rightarrow>
     \<lparr>mr_screen = s,
      mr_pending = pending @ (case req of None \<Rightarrow> [] | Some (_, p) \<Rightarrow> [p]),
      mr_sent = mr_sent w @ (case req of None \<Rightarrow> [] | Some (q, _) \<Rightarrow> [(q, ms_members (mr_screen w))])\<rparr>)"

definition members_step :: "members_run \<Rightarrow> members_event \<Rightarrow> members_run" where
  "members_step w e = (case e of
       MembersAnswered cur p a \<Rightarrow>
         (if p \<in> set (mr_pending w) \<and> answers_pending p a
          then started (settle_pending cur p a (mr_screen w)) (remove1 p (mr_pending w)) w else w)
     | _ \<Rightarrow> started (click_in_screen e (mr_screen w)) (mr_pending w) w)"

definition opened_members_run :: "workspace \<Rightarrow> app_user \<Rightarrow> members_run" where
  "opened_members_run ws u = started (load_members (opened_members ws u)) []
     \<lparr>mr_screen = opened_members ws u, mr_pending = [], mr_sent = []\<rparr>"

section \<open>Ranks\<close>

text \<open>The rights as ranks: who may do what with whom, independent of the screen.\<close>

fun member_rank :: "workspace_role \<Rightarrow> nat" where
  "member_rank WORKSPACE_OWNER = 3"
| "member_rank WORKSPACE_ADMIN = 2"
| "member_rank WORKSPACE_MEMBER = 1"
| "member_rank WORKSPACE_VIEWER = 1"

definition actor_rank :: "workspace \<Rightarrow> app_user \<Rightarrow> nat" where
  "actor_rank ws u = (if us_role u = INSTANCE_ADMIN then 3
     else case ws_currentUserRole ws of
       None \<Rightarrow> 0
     | Some r \<Rightarrow> if member_rank r \<le> 1 then 0 else member_rank r)"

definition outranks :: "workspace \<Rightarrow> app_user \<Rightarrow> workspace_member list \<Rightarrow> string \<Rightarrow> bool" where
  "outranks ws u ms i \<longleftrightarrow> list_ex (\<lambda>m. wm_id m = i \<and> wm_userId m \<noteq> us_id u
     \<and> member_rank (wm_role m) < actor_rank ws u) ms"

definition request_in_rank :: "workspace \<Rightarrow> app_user \<Rightarrow> members_request \<times> workspace_member list \<Rightarrow> bool" where
  "request_in_rank ws u x = (case x of (q, ms) \<Rightarrow> (case q of
       ChangeRole i r \<Rightarrow> outranks ws u ms i \<and> member_rank r < actor_rank ws u
     | RemoveMember i \<Rightarrow> outranks ws u ms i
     | AddMember email r \<Rightarrow> email \<noteq> [] \<and> member_rank r < actor_rank ws u
     | TransferOwnership i \<Rightarrow> actor_rank ws u = 3 \<and> i \<in> wm_id ` set ms
     | SearchUsers v \<Rightarrow> us_role u = INSTANCE_ADMIN
     | ListMembers \<Rightarrow> True))"

lemma actor_rank_screen:
  "actor_rank (ms_workspace s) (ms_user s) =
    (if can_manage_admins s then 3 else if can_manage_members s then 2 else 0)"
  by (auto simp: actor_rank_def can_manage_admins_def can_manage_members_def is_instance_admin_def
      is_workspace_owner_def split: option.split) (case_tac x2; simp)+

lemma manageable_iff_outranked:
  "is_member_manageable s m \<longleftrightarrow> wm_userId m \<noteq> us_id (ms_user s)
    \<and> member_rank (wm_role m) < actor_rank (ms_workspace s) (ms_user s)"
  unfolding actor_rank_screen
  by (cases "wm_role m") (auto simp: is_member_manageable_def can_manage_admins_def can_manage_members_def)

lemma assignable_iff_lower:
  "can_manage_members s \<Longrightarrow>
    r \<in> set (assignable_roles s) \<longleftrightarrow> member_rank r < actor_rank (ms_workspace s) (ms_user s)"
  unfolding actor_rank_screen by (cases r) (auto simp: assignable_roles_def can_manage_admins_def)

lemmas start_defs = load_members_def search_users_def handle_add_member_def handle_change_role_def
  handle_remove_member_def handle_transfer_ownership_def fire_search_timer_def cleanup_search_def
  enter_email_def cancel_add_dialog_def cancel_transfer_dialog_def say_def
lemmas settle_defs = settle_members_def settle_search_def settle_add_def settle_role_def settle_remove_def
  settle_transfer_ownership_def fail_members_def

text \<open>What the rights depend on never changes, and the dialogs are open only to those who may use them.\<close>

definition same_actor :: "workspace \<Rightarrow> app_user \<Rightarrow> members_screen \<Rightarrow> bool" where
  "same_actor ws u s \<longleftrightarrow> ms_workspace s = ws \<and> ms_user s = u"

definition dialogs_allowed :: "members_screen \<Rightarrow> bool" where
  "dialogs_allowed s \<longleftrightarrow> (ms_isAddMemberModalOpen s \<longrightarrow> can_manage_members s)
     \<and> (ms_isTransferOwnershipModalOpen s \<longrightarrow> can_transfer_ownership s)
     \<and> am_role (ms_addMemberForm s) \<in> set (assignable_roles s)"

lemmas right_defs = can_manage_members_def can_transfer_ownership_def can_manage_admins_def
  is_instance_admin_def is_workspace_owner_def assignable_roles_def

lemma rights_cong:
  assumes "same_actor ws u s" "same_actor ws u s'"
  shows "can_manage_members s' = can_manage_members s" "can_transfer_ownership s' = can_transfer_ownership s"
    "assignable_roles s' = assignable_roles s"
  using assms by (simp_all add: same_actor_def right_defs)

lemma click_same_actor: "same_actor ws u s \<Longrightarrow> same_actor ws u (fst (click_in_screen e s))"
  by (cases e) (auto simp: click_in_screen_def start_defs same_actor_def Let_def split_beta split: option.split)

lemma settle_same_actor: "same_actor ws u s \<Longrightarrow> same_actor ws u (fst (settle_pending cur p a s))"
  by (cases p) (auto simp: settle_pending_def settle_defs start_defs same_actor_def Let_def split_beta
      split: sum.split members_answer.split)

lemma member_is_assignable [simp]: "WORKSPACE_MEMBER \<in> set (assignable_roles s)"
  by (simp add: assignable_roles_def)

lemma dialogs_cong:
  assumes "dialogs_allowed s" "same_actor ws u s" "same_actor ws u s'"
    and "ms_isAddMemberModalOpen s' \<longrightarrow> ms_isAddMemberModalOpen s"
    and "ms_isTransferOwnershipModalOpen s' \<longrightarrow> ms_isTransferOwnershipModalOpen s"
    and "am_role (ms_addMemberForm s') \<in> {am_role (ms_addMemberForm s), WORKSPACE_MEMBER}"
  shows "dialogs_allowed s'"
  using assms(1,4-6) rights_cong [OF assms(2,3)] by (auto simp: dialogs_allowed_def)

lemma settle_dialogs:
  assumes "dialogs_allowed s" "same_actor ws u s"
  shows "dialogs_allowed (fst (settle_pending cur p a s))"
  by (rule dialogs_cong [OF assms settle_same_actor [OF assms(2)]])
    (cases p; auto simp: settle_pending_def settle_defs start_defs Let_def split_beta empty_add_member_form_def
      split: sum.split members_answer.split)+

lemma click_dialogs:
  assumes "dialogs_allowed s" "same_actor ws u s"
  shows "dialogs_allowed (fst (click_in_screen e s))"
proof -
  note same = rights_cong [OF assms(2) click_same_actor [OF assms(2), of e]]
  show ?thesis
    using assms(1) unfolding dialogs_allowed_def same
    by (cases e) (auto simp: click_in_screen_def start_defs Let_def split_beta empty_add_member_form_def
        split: option.split)
qed

lemma shown_member_in: "shown_member i s = Some m \<Longrightarrow> m \<in> set (ms_members s) \<and> wm_id m = i"
  by (auto simp: shown_member_def find_Some_iff split: if_splits)

lemma click_in_rank:
  assumes "dialogs_allowed s" "same_actor ws u s" "snd (click_in_screen e s) = Some (q, p)"
  shows "request_in_rank ws u (q, ms_members s)"
proof -
  have actor: "ms_workspace s = ws" "ms_user s = u" using assms(2) by (simp_all add: same_actor_def)
  note rank = actor_rank_screen [of s, unfolded actor]
  show ?thesis
  proof (cases e)
    case ClickAdd
    with assms(3) have q: "q = AddMember (trim (am_email (ms_addMemberForm s))) (am_role (ms_addMemberForm s))"
      "trim (am_email (ms_addMemberForm s)) \<noteq> []" "ms_isAddMemberModalOpen s"
      by (auto simp: click_in_screen_def handle_add_member_def split: if_splits)
    with assms(1) assignable_iff_lower [of s "am_role (ms_addMemberForm s)"] actor show ?thesis
      by (simp add: request_in_rank_def dialogs_allowed_def)
  next
    case (SelectRole i r)
    with assms(3) obtain m where m: "shown_member i s = Some m" "is_member_manageable s m"
        "r \<in> set (assignable_roles s)" and q: "q = ChangeRole i r"
      by (auto simp: click_in_screen_def handle_change_role_def split: option.splits if_splits)
    from m(2) have "can_manage_members s" by (simp add: is_member_manageable_def)
    with m q shown_member_in [OF m(1)] manageable_iff_outranked [of s m] assignable_iff_lower [of s r] actor
    show ?thesis by (auto simp: request_in_rank_def outranks_def list_ex_iff)
  next
    case (ConfirmRemoval i)
    with assms(3) obtain m where m: "shown_member i s = Some m" "is_member_manageable s m" and q: "q = RemoveMember i"
      by (auto simp: click_in_screen_def handle_remove_member_def split: option.splits if_splits)
    with shown_member_in [OF m(1)] manageable_iff_outranked [of s m] actor
    show ?thesis by (auto simp: request_in_rank_def outranks_def list_ex_iff)
  next
    case ClickTransferOwnership
    with assms(3) obtain m where "find (\<lambda>m. wm_id m = ms_selectedMemberId s) (ms_members s) = Some m"
        "q = TransferOwnership (wm_id m)" "ms_isTransferOwnershipModalOpen s"
      by (auto simp: click_in_screen_def handle_transfer_ownership_def split: option.splits if_splits)
    moreover from this assms(1) have "can_manage_admins s"
      by (simp add: dialogs_allowed_def can_transfer_ownership_def)
    ultimately show ?thesis using rank by (auto simp: request_in_rank_def find_Some_iff)
  qed (use assms(3) actor in \<open>auto simp: click_in_screen_def start_defs request_in_rank_def Let_def split_beta
      split: if_splits option.splits\<close>)
qed

lemma settle_in_rank:
  assumes "snd (settle_pending cur p a s) = Some (q, p')"
  shows "q = ListMembers"
  using assms by (cases p) (auto simp: settle_pending_def settle_defs load_members_def say_def Let_def split_beta
      split: sum.splits members_answer.splits if_splits)

definition rank_inv :: "workspace \<Rightarrow> app_user \<Rightarrow> members_run \<Rightarrow> bool" where
  "rank_inv ws u w \<longleftrightarrow> same_actor ws u (mr_screen w) \<and> dialogs_allowed (mr_screen w)
     \<and> list_all (request_in_rank ws u) (mr_sent w)"

lemma started_rank:
  assumes "rank_inv ws u w" "same_actor ws u (fst r)" "dialogs_allowed (fst r)"
    and "\<And>q p. snd r = Some (q, p) \<Longrightarrow> request_in_rank ws u (q, ms_members (mr_screen w))"
  shows "rank_inv ws u (started r pending w)"
  using assms by (cases r) (auto simp: rank_inv_def started_def split: option.split)

lemma rank_step: "rank_inv ws u w \<Longrightarrow> rank_inv ws u (members_step w e)"
proof -
  assume inv: "rank_inv ws u w"
  then have s: "same_actor ws u (mr_screen w)" "dialogs_allowed (mr_screen w)" by (simp_all add: rank_inv_def)
  have "rank_inv ws u (started (click_in_screen e (mr_screen w)) (mr_pending w) w)"
    by (rule started_rank [OF inv]) (use s click_same_actor click_dialogs click_in_rank in \<open>simp_all\<close>)
  moreover have "rank_inv ws u (started (settle_pending cur p a (mr_screen w)) ps w)" for cur p a ps
    by (rule started_rank [OF inv])
      (use s settle_same_actor settle_dialogs in \<open>auto dest: settle_in_rank simp: request_in_rank_def\<close>)
  ultimately show ?thesis using inv by (cases e) (simp_all add: members_step_def)
qed

interpretation member_rights: invariant_machine members_step "rank_inv ws u" for ws u
  by unfold_locales (rule rank_step)

lemma opened_rank: "rank_inv ws u (opened_members_run ws u)"
  by (simp add: rank_inv_def opened_members_run_def started_def load_members_def Let_def split_beta
      opened_members_def same_actor_def dialogs_allowed_def empty_add_member_form_def request_in_rank_def)

text \<open>C30: Nobody acts above his rank. Whatever is clicked and whenever answers come, every request to change
  a role or to remove a member is about a member shown then, other than the user himself and of a lower
  rank (owners and instance admins rank above admins, those above members and viewers); a role given, to a
  member or a newcomer, is below the user's own rank; and ownership is handed over only by the highest.\<close>

theorem nobody_acts_above_rank:
  "list_all (request_in_rank ws u) (mr_sent (foldl members_step (opened_members_run ws u) es))"
  using member_rights.run_inv [OF opened_rank, of ws u es] by (simp add: rank_inv_def)

section \<open>One removal of a member at a time\<close>

fun removals :: "members_pending list \<Rightarrow> string list" where
  "removals [] = []"
| "removals (PendRemove i email # ps) = i # removals ps"
| "removals (_ # ps) = removals ps"

definition count_of :: "members_pending \<Rightarrow> members_pending list \<Rightarrow> nat" where
  "count_of p ps = length (filter (\<lambda>x. x = p) ps)"

definition flags_inv :: "members_run \<Rightarrow> bool" where
  "flags_inv w \<longleftrightarrow> distinct (removals (mr_pending w))
     \<and> set (removals (mr_pending w)) \<subseteq> ms_removingMembers (mr_screen w)
     \<and> count_of PendAdd (mr_pending w) \<le> (if ms_isAddingMember (mr_screen w) then 1 else 0)
     \<and> count_of PendTransfer (mr_pending w) \<le> (if ms_isTransferringOwnership (mr_screen w) then 1 else 0)"

lemma removals_append [simp]: "removals (ps @ qs) = removals ps @ removals qs"
  by (induction ps rule: removals.induct) simp_all

lemma removals_remove1: "\<nexists>i email. p = PendRemove i email \<Longrightarrow> removals (remove1 p ps) = removals ps"
  by (induction ps rule: removals.induct) auto

lemma removals_remove1_subset: "set (removals (remove1 p ps)) \<subseteq> set (removals ps)"
  by (induction ps rule: removals.induct) auto

lemma removals_remove1_distinct: "distinct (removals ps) \<Longrightarrow> distinct (removals (remove1 p ps))"
  using removals_remove1_subset by (induction ps rule: removals.induct) (auto simp: subset_iff)

lemma removals_mem: "PendRemove i email \<in> set ps \<Longrightarrow> i \<in> set (removals ps)"
  by (induction ps rule: removals.induct) auto

lemma removed_once:
  "distinct (removals ps) \<Longrightarrow> PendRemove i email \<in> set ps \<Longrightarrow>
    set (removals (remove1 (PendRemove i email) ps)) = set (removals ps) - {i}"
proof (induction ps rule: removals.induct)
  case (2 j e ps)
  then show ?case by (cases "PendRemove i email = PendRemove j e") (auto dest: removals_mem)
qed auto

lemma count_simps [simp]:
  "count_of p [] = 0" "count_of p (q # ps) = (if q = p then Suc (count_of p ps) else count_of p ps)"
  "count_of p (ps @ qs) = count_of p ps + count_of p qs"
  by (simp_all add: count_of_def)

lemma count_remove1: "count_of p (remove1 q ps) = count_of p ps - (if p = q \<and> q \<in> set ps then 1 else 0)"
  by (induction ps) (auto simp: count_of_def filter_empty_conv)

lemma count_in: "p \<in> set ps \<longleftrightarrow> 0 < count_of p ps"
  by (auto simp: count_of_def filter_empty_conv)

lemma flags_click:
  assumes "flags_inv w"
  shows "flags_inv (started (click_in_screen e (mr_screen w)) (mr_pending w) w)"
  using assms
  by (cases e) (auto simp: flags_inv_def started_def click_in_screen_def start_defs Let_def split_beta
      split: option.split)

lemma flags_answer:
  assumes inv: "flags_inv w" and p: "p \<in> set (mr_pending w)" "answers_pending p a"
  shows "flags_inv (started (settle_pending cur p a (mr_screen w)) (remove1 p (mr_pending w)) w)"
proof -
  note c = count_remove1 [of PendAdd p "mr_pending w"] count_remove1 [of PendTransfer p "mr_pending w"]
  show ?thesis
  proof (cases p)
    case (PendRemove i email)
    have d: "distinct (removals (mr_pending w))" using inv by (simp add: flags_inv_def)
    note r = removed_once [OF d p(1) [unfolded PendRemove]] removals_remove1_distinct [OF d, of p]
    have rest: "set (removals (mr_pending w)) \<subseteq> ms_removingMembers (mr_screen w)"
        "count_of PendAdd (mr_pending w) \<le> (if ms_isAddingMember (mr_screen w) then 1 else 0)"
        "count_of PendTransfer (mr_pending w) \<le> (if ms_isTransferringOwnership (mr_screen w) then 1 else 0)"
      using inv by (simp_all add: flags_inv_def)
    show ?thesis
    proof (cases a)
      case (Inl f)
      with r rest c PendRemove show ?thesis
        by (auto simp: flags_inv_def started_def settle_pending_def settle_remove_def fail_members_def say_def)
    next
      case (Inr b)
      with p PendRemove have "b = Done" by (cases b) simp_all
      with Inr r rest c PendRemove show ?thesis
        by (auto simp: flags_inv_def started_def settle_pending_def settle_remove_def fail_members_def say_def)
    qed
  next
    case PendAdd
    then have "removals (remove1 p (mr_pending w)) = removals (mr_pending w)" by (simp add: removals_remove1)
    with inv c PendAdd p show ?thesis
      by (cases a; auto simp: flags_inv_def started_def settle_pending_def settle_defs start_defs Let_def
          split_beta count_in split: members_answer.split if_splits)
  next
    case PendTransfer
    then have "removals (remove1 p (mr_pending w)) = removals (mr_pending w)" by (simp add: removals_remove1)
    with inv c PendTransfer p show ?thesis
      by (cases a; auto simp: flags_inv_def started_def settle_pending_def settle_defs start_defs Let_def
          split_beta count_in split: members_answer.split if_splits)
  next
    case (PendMembers n)
    then have "removals (remove1 p (mr_pending w)) = removals (mr_pending w)" by (simp add: removals_remove1)
    with inv c PendMembers show ?thesis
      by (auto simp: flags_inv_def started_def settle_pending_def settle_members_def Let_def
          split: sum.split members_answer.split)
  next
    case (PendSearch n)
    then have "removals (remove1 p (mr_pending w)) = removals (mr_pending w)" by (simp add: removals_remove1)
    with inv c PendSearch show ?thesis
      by (auto simp: flags_inv_def started_def settle_pending_def settle_search_def fail_members_def say_def
          split: sum.split members_answer.split)
  next
    case (PendRole i)
    then have "removals (remove1 p (mr_pending w)) = removals (mr_pending w)" by (simp add: removals_remove1)
    with inv c PendRole show ?thesis
      by (auto simp: flags_inv_def started_def settle_pending_def settle_role_def fail_members_def say_def
          split: sum.split members_answer.split)
  qed
qed

interpretation member_flags: invariant_machine members_step flags_inv
proof unfold_locales
  fix w e
  assume "flags_inv w"
  with flags_click [OF this] flags_answer [OF this] show "flags_inv (members_step w e)"
    by (cases e) (simp_all add: members_step_def)
qed

text \<open>However fast the user clicks, no member is removed twice at once, and there is at most one
  addition and one transfer of ownership on its way; each such request has its flag up until its answer.\<close>

theorem no_member_removed_twice_at_once:
  "flags_inv (foldl members_step (opened_members_run ws u) es)"
  by (rule member_flags.run_inv) (simp add: flags_inv_def opened_members_run_def started_def load_members_def
      Let_def split_beta)

section \<open>What the screen does not prevent\<close>

definition owned_workspace :: workspace where
  "owned_workspace = \<lparr>ws_id = ''w'', ws_name = ''team'', ws_createdAt = [],
     ws_currentUserRole = Some WORKSPACE_OWNER\<rparr>"

definition workspace_owner :: app_user where
  "workspace_owner = \<lparr>us_id = ''u'', us_role = INSTANCE_MEMBER\<rparr>"

definition team_member :: "string \<Rightarrow> workspace_role \<Rightarrow> workspace_member" where
  "team_member i r = \<lparr>wm_id = i, wm_userId = i, wm_email = i, wm_role = r\<rparr>"

definition two_members :: "workspace_member list" where
  "two_members = [team_member ''a'' WORKSPACE_MEMBER, team_member ''b'' WORKSPACE_MEMBER]"

text \<open>There is one flag for all role changes. The answer to one row's change takes it down for a row whose own
  change is still on its way, which can then be changed again: two changes of one member are under way, and
  the list ends with the one answered last.\<close>

lemma role_changes_overlap:
  "mr_pending (foldl members_step (opened_members_run owned_workspace workspace_owner)
     [MembersAnswered True (PendMembers 1) (Inr (Members two_members)),
      SelectRole ''a'' WORKSPACE_VIEWER, SelectRole ''b'' WORKSPACE_VIEWER,
      MembersAnswered True (PendRole ''a'') (Inr (Changed (team_member ''a'' WORKSPACE_VIEWER))),
      SelectRole ''b'' WORKSPACE_ADMIN]) = [PendRole ''b'', PendRole ''b'']"
  by code_simp

text \<open>A list asked for before a removal was answered brings the removed member back.\<close>

lemma older_list_undoes_a_removal:
  "map wm_id (ms_members (mr_screen (foldl members_step (opened_members_run owned_workspace workspace_owner)
     [MembersAnswered True (PendMembers 1) (Inr (Members two_members)),
      ConfirmRemoval ''a'', OpenAddDialog, EnterEmail ''c'', ClickAdd,
      MembersAnswered True PendAdd (Inr (Added ''c'' True)),
      MembersAnswered True (PendRemove ''a'' ''a'') (Inr Done),
      MembersAnswered True (PendMembers 2) (Inr (Members two_members))]))) = [''a'', ''b'']"
  by code_simp

end
