(* ===== verification/Auth_Forms.thy ===== *)
theory Auth_Forms
  imports Resources Page_Values
begin

text \<open>
  The page that signs users in (\<open>pages/auth\<close>): the forms for signing in and up, for the code sent by
  e-mail and for a new password, their checks and their requests cut at the await, the answers of the
  Cloudflare challenge they carry (\<open>useCloudflareTurnstile.ts\<close>), and the page that shows one of them.
  Whether the sign-in is still the current one (\<open>Sessions\<close>) when an answer comes is an argument.
\<close>

section \<open>Checks (FormValidator.ts)\<close>

text \<open>A text has white space somewhere.\<close>

fun has_space :: "string \<Rightarrow> bool" where
  "has_space [] = False"
| "has_space (c # s) = (trim_start (c # s) \<noteq> c # s \<or> has_space s)"

text \<open>\<open>/^\S+@\S+\.\S+$/\<close>: the part before the first at sign past the start, and a dot that is neither first
  nor last in the rest.\<close>

definition is_valid_email :: "string \<Rightarrow> bool" where
  "is_valid_email email \<longleftrightarrow> \<not> has_space email
     \<and> (case dropWhile (\<lambda>c. c \<noteq> CHR ''@'') (tl email) of
          [] \<Rightarrow> False | _ # rest \<Rightarrow> CHR ''.'' \<in> set (butlast (tl rest)))"

definition is_six_digits :: "string \<Rightarrow> bool" where
  "is_six_digits code \<longleftrightarrow> length code = 6 \<and> list_all is_digit code"

definition to_code :: "string \<Rightarrow> string" where
  "to_code v = take 6 (filter is_digit v)"

section \<open>The challenge (useCloudflareTurnstile.ts)\<close>

text \<open>Without a site key, or before the widget is drawn, there is none.\<close>

datatype challenge = NoWidget | Widget "string option"

primrec challenge_token :: "challenge \<Rightarrow> string option" where
  "challenge_token NoWidget = None"
| "challenge_token (Widget t) = t"

primrec set_challenge_token :: "string option \<Rightarrow> challenge \<Rightarrow> challenge" where
  "set_challenge_token t NoWidget = NoWidget"
| "set_challenge_token t (Widget _) = Widget t"

definition reset_cloudflare_turnstile :: "challenge \<Rightarrow> challenge" where
  "reset_cloudflare_turnstile = set_challenge_token None"

section \<open>Signing in (SignInComponent.tsx)\<close>

text \<open>\<open>si_isGone\<close> says that the form is left: the user is signed in, or the code is asked for.\<close>

record sign_in_form =
  si_email :: string
  si_password :: string
  si_isLoading :: bool
  si_isEmailError :: bool
  si_isPasswordError :: bool
  si_error :: "jsval option"
  si_challenge :: challenge
  si_isGone :: bool

definition validate_fields_for_sign_in :: "sign_in_form \<Rightarrow> bool \<times> sign_in_form" where
  "validate_fields_for_sign_in f =
     (if si_email f = [] then (False, f\<lparr>si_isEmailError := True\<rparr>)
      else if \<not> is_valid_email (si_email f) \<and> si_email f \<noteq> ''admin'' then (False, f\<lparr>si_isEmailError := True\<rparr>)
      else if si_password f = [] then (False, f\<lparr>si_isPasswordError := True\<rparr>)
      else (True, f\<lparr>si_isPasswordError := False\<rparr>))"

record sign_in_request =
  sq_email :: string
  sq_password :: string
  sq_token :: "string option"

definition on_sign_in :: "sign_in_form \<Rightarrow> sign_in_form \<times> sign_in_request option" where
  "on_sign_in f =
     (if si_isLoading f then (f, None)
      else case validate_fields_for_sign_in (f\<lparr>si_error := None\<rparr>) of
        (False, f1) \<Rightarrow> (f1, None)
      | (True, f1) \<Rightarrow> (f1\<lparr>si_isLoading := True\<rparr>,
          Some \<lparr>sq_email = si_email f1, sq_password = si_password f1,
                sq_token = challenge_token (si_challenge f1)\<rparr>))"

datatype sign_in_outcome = SignInCompleted | SignInCodeRequired string string

text \<open>A completed sign-in that is current is accepted.\<close>

definition settle_sign_in :: "bool \<Rightarrow> jsval + sign_in_outcome \<Rightarrow> sign_in_form \<Rightarrow> sign_in_form" where
  "settle_sign_in isCurrent answer f =
     (if \<not> isCurrent then f
      else (case answer of
          Inl e \<Rightarrow> f\<lparr>si_error := Some e, si_challenge := reset_cloudflare_turnstile (si_challenge f)\<rparr>
        | Inr _ \<Rightarrow> f\<lparr>si_isGone := True\<rparr>)\<lparr>si_isLoading := False\<rparr>)"

section \<open>Signing up (SignUpComponent.tsx)\<close>

record sign_up_form =
  su_name :: string
  su_email :: string
  su_password :: string
  su_confirmPassword :: string
  su_isLoading :: bool
  su_isNameError :: bool
  su_isEmailError :: bool
  su_isPasswordError :: bool
  su_isConfirmPasswordError :: bool
  su_error :: "jsval option"
  su_challenge :: challenge
  su_isGone :: bool

definition validate_fields_for_sign_up :: "sign_up_form \<Rightarrow> bool \<times> sign_up_form" where
  "validate_fields_for_sign_up f0 =
     (if su_name f0 = [] \<or> trim (su_name f0) = [] then (False, f0\<lparr>su_isNameError := True\<rparr>)
      else (let f = f0\<lparr>su_isNameError := False\<rparr> in
        if su_email f = [] \<or> \<not> is_valid_email (su_email f) then (False, f\<lparr>su_isEmailError := True\<rparr>)
        else if su_password f = [] \<or> utf16_length (su_password f) < 8 then (False, f\<lparr>su_isPasswordError := True\<rparr>)
        else (let f1 = f\<lparr>su_isPasswordError := False\<rparr> in
          if su_confirmPassword f1 = [] \<or> su_password f1 \<noteq> su_confirmPassword f1
          then (False, f1\<lparr>su_isConfirmPasswordError := True\<rparr>)
          else (True, f1\<lparr>su_isConfirmPasswordError := False\<rparr>))))"

record sign_up_request =
  uq_email :: string
  uq_password :: string
  uq_name :: string
  uq_token :: "string option"

definition on_sign_up :: "sign_up_form \<Rightarrow> sign_up_form \<times> sign_up_request option" where
  "on_sign_up f =
     (if su_isLoading f then (f, None)
      else case validate_fields_for_sign_up (f\<lparr>su_error := None\<rparr>) of
        (False, f1) \<Rightarrow> (f1\<lparr>su_isLoading := False\<rparr>, None)
      | (True, f1) \<Rightarrow> (f1\<lparr>su_isLoading := True\<rparr>,
          Some \<lparr>uq_email = su_email f1, uq_password = su_password f1, uq_name = su_name f1,
                uq_token = challenge_token (su_challenge f1)\<rparr>))"

text \<open>An answer that is not current is refused by the session, but ends the loading.\<close>

definition settle_sign_up :: "bool \<Rightarrow> jsval + unit \<Rightarrow> sign_up_form \<Rightarrow> sign_up_form" where
  "settle_sign_up isCurrent answer f = (case answer of
       Inr _ \<Rightarrow> f\<lparr>su_isGone := (su_isGone f \<or> isCurrent), su_isLoading := False\<rparr>
     | Inl e \<Rightarrow> (if \<not> isCurrent then f
         else f\<lparr>su_error := Some e, su_challenge := reset_cloudflare_turnstile (su_challenge f),
                su_isLoading := False\<rparr>))"

section \<open>The code sent by e-mail (SignInCodeComponent.tsx)\<close>

record pending_sign_in =
  ps_id :: string
  ps_email :: string

record sign_in_code_form =
  sc_pending :: pending_sign_in
  sc_code :: string
  sc_isCodeError :: bool
  sc_isLoading :: bool
  sc_isResending :: bool
  sc_failure :: "jsval option"
  sc_challenge :: challenge
  sc_isGone :: bool

text \<open>A failure is a value and, when it is an error of the API, its code.\<close>

definition report_failure :: "jsval \<times> string option \<Rightarrow> sign_in_code_form \<Rightarrow> sign_in_code_form" where
  "report_failure e f = (if snd e = Some ''pending_sign_in_not_usable'' then f\<lparr>sc_isGone := True\<rparr>
     else f\<lparr>sc_failure := Some (fst e)\<rparr>)"

definition enter_code :: "string \<Rightarrow> sign_in_code_form \<Rightarrow> sign_in_code_form" where
  "enter_code v f = f\<lparr>sc_isCodeError := False, sc_failure := None, sc_code := to_code v\<rparr>"

definition on_verify :: "sign_in_code_form \<Rightarrow> sign_in_code_form \<times> (string \<times> string \<times> string option) option" where
  "on_verify f0 =
     (if sc_isLoading f0 \<or> sc_isResending f0 then (f0, None)
      else (let f = f0\<lparr>sc_failure := None\<rparr> in
        if \<not> is_six_digits (sc_code f) then (f\<lparr>sc_isCodeError := True\<rparr>, None)
        else (f\<lparr>sc_isLoading := True\<rparr>,
          Some (ps_id (sc_pending f), sc_code f, challenge_token (sc_challenge f)))))"

definition settle_verify :: "bool \<Rightarrow> (jsval \<times> string option) + unit \<Rightarrow> sign_in_code_form \<Rightarrow> sign_in_code_form" where
  "settle_verify isCurrent answer f = (case answer of
       Inr _ \<Rightarrow> f\<lparr>sc_isGone := (sc_isGone f \<or> isCurrent), sc_isLoading := False\<rparr>
     | Inl e \<Rightarrow> (if \<not> isCurrent then f
         else (report_failure e f)\<lparr>sc_challenge := reset_cloudflare_turnstile (sc_challenge f),
                sc_isLoading := False\<rparr>))"

definition on_resend :: "sign_in_code_form \<Rightarrow> sign_in_code_form \<times> (string \<times> string option) option" where
  "on_resend f =
     (if sc_isLoading f \<or> sc_isResending f then (f, None)
      else (f\<lparr>sc_failure := None, sc_isResending := True\<rparr>,
        Some (ps_id (sc_pending f), challenge_token (sc_challenge f))))"

definition settle_resend ::
    "bool \<Rightarrow> (jsval \<times> string option) + pending_sign_in \<Rightarrow> sign_in_code_form \<Rightarrow> sign_in_code_form" where
  "settle_resend isCurrent answer f =
     (if \<not> isCurrent then f
      else (case answer of
          Inr resent \<Rightarrow> f\<lparr>sc_code := [], sc_pending := resent\<rparr>
        | Inl e \<Rightarrow> report_failure e f)
        \<lparr>sc_challenge := reset_cloudflare_turnstile (sc_challenge f), sc_isResending := False\<rparr>)"

section \<open>A new password (RequestResetPasswordComponent.tsx, ResetPasswordComponent.tsx)\<close>

text \<open>\<open>rr_left\<close> is the address the next form is opened with, once the timer has run.\<close>

record request_reset_form =
  rr_email :: string
  rr_isLoading :: bool
  rr_isEmailError :: bool
  rr_error :: "jsval option"
  rr_isCodeSent :: bool
  rr_challenge :: challenge
  rr_left :: "string option"

definition on_send_code ::
    "request_reset_form \<Rightarrow> request_reset_form \<times> (string \<times> string option) option" where
  "on_send_code f0 =
     (if rr_isLoading f0 \<or> rr_isCodeSent f0 then (f0, None)
      else (let f = f0\<lparr>rr_error := None, rr_isCodeSent := False\<rparr> in
        if rr_email f = [] \<or> \<not> is_valid_email (rr_email f) then (f\<lparr>rr_isEmailError := True\<rparr>, None)
        else (f\<lparr>rr_isLoading := True\<rparr>, Some (rr_email f, challenge_token (rr_challenge f)))))"

definition settle_send_code :: "bool \<Rightarrow> jsval + unit \<Rightarrow> request_reset_form \<Rightarrow> request_reset_form" where
  "settle_send_code isCurrent answer f =
     (if \<not> isCurrent then f
      else (case answer of
          Inr _ \<Rightarrow> f\<lparr>rr_isCodeSent := True\<rparr>
        | Inl e \<Rightarrow> f\<lparr>rr_error := Some e, rr_challenge := reset_cloudflare_turnstile (rr_challenge f)\<rparr>)
        \<lparr>rr_isLoading := False\<rparr>)"

definition fire_reset_navigation :: "bool \<Rightarrow> string \<Rightarrow> request_reset_form \<Rightarrow> request_reset_form" where
  "fire_reset_navigation isCurrent email f = (if isCurrent then f\<lparr>rr_left := Some email\<rparr> else f)"

record reset_password_form =
  rp_email :: string
  rp_code :: string
  rp_newPassword :: string
  rp_confirmPassword :: string
  rp_isLoading :: bool
  rp_isResetComplete :: bool
  rp_isEmailError :: bool
  rp_isCodeError :: bool
  rp_isPasswordError :: bool
  rp_isConfirmPasswordError :: bool
  rp_error :: "jsval option"

definition validate_reset_fields :: "reset_password_form \<Rightarrow> bool \<times> reset_password_form" where
  "validate_reset_fields f =
     (let emailError = (rp_email f = [] \<or> \<not> is_valid_email (rp_email f));
          codeError = (rp_code f = [] \<or> \<not> is_six_digits (rp_code f));
          passwordError = (rp_newPassword f = [] \<or> utf16_length (rp_newPassword f) < 8);
          confirmError = (rp_confirmPassword f = [] \<or> rp_newPassword f \<noteq> rp_confirmPassword f)
      in (\<not> emailError \<and> \<not> codeError \<and> \<not> passwordError \<and> \<not> confirmError,
          f\<lparr>rp_isEmailError := emailError, rp_isCodeError := codeError, rp_isPasswordError := passwordError,
            rp_isConfirmPasswordError := confirmError\<rparr>))"

definition on_reset_password ::
    "reset_password_form \<Rightarrow> reset_password_form \<times> (string \<times> string \<times> string) option" where
  "on_reset_password f =
     (if rp_isLoading f \<or> rp_isResetComplete f then (f, None)
      else case validate_reset_fields (f\<lparr>rp_error := None\<rparr>) of
        (False, f1) \<Rightarrow> (f1, None)
      | (True, f1) \<Rightarrow> (f1\<lparr>rp_isLoading := True\<rparr>, Some (rp_email f1, rp_code f1, rp_newPassword f1)))"

definition settle_reset_password :: "bool \<Rightarrow> jsval + unit \<Rightarrow> reset_password_form \<Rightarrow> reset_password_form" where
  "settle_reset_password isCurrent answer f =
     (if \<not> isCurrent then f
      else (case answer of
          Inr _ \<Rightarrow> f\<lparr>rp_isResetComplete := True\<rparr>
        | Inl e \<Rightarrow> f\<lparr>rp_error := Some e\<rparr>)\<lparr>rp_isLoading := False\<rparr>)"

section \<open>The page (AuthPage.tsx)\<close>

datatype auth_mode = SignInMode | SignUpMode | RequestResetMode | ResetPasswordMode | SignInCodeMode

record auth_page =
  ap_hasAnyUser :: bool
  ap_authMode :: auth_mode
  ap_resetEmail :: string
  ap_pendingSignIn :: "pending_sign_in option"
  ap_isLoading :: bool
  ap_failure :: "jsval option"
  ap_revision :: request_revision

definition opened_auth_page :: auth_page where
  "opened_auth_page = \<lparr>ap_hasAnyUser = True, ap_authMode = SignInMode, ap_resetEmail = [],
     ap_pendingSignIn = None, ap_isLoading = True, ap_failure = None, ap_revision = new_revision\<rparr>"

definition return_to_password_step :: "auth_page \<Rightarrow> auth_page" where
  "return_to_password_step p = p\<lparr>ap_pendingSignIn := None, ap_authMode := SignInMode\<rparr>"

definition load_options :: "auth_page \<Rightarrow> auth_page \<times> nat" where
  "load_options p = (let (revision, r) = invalidate (ap_revision p)
     in (p\<lparr>ap_revision := r, ap_isLoading := True, ap_failure := None\<rparr>, revision))"

definition settle_options :: "bool \<Rightarrow> nat \<Rightarrow> jsval + bool \<Rightarrow> auth_page \<Rightarrow> auth_page" where
  "settle_options isCurrent revision answer p =
     (if \<not> isCurrent \<or> \<not> is_current_revision (ap_revision p) revision then p
      else (case answer of
          Inr hasUsers \<Rightarrow> p\<lparr>ap_hasAnyUser := hasUsers,
            ap_authMode := (if hasUsers then SignInMode else SignUpMode)\<rparr>
        | Inl e \<Rightarrow> p\<lparr>ap_failure := Some e\<rparr>)\<lparr>ap_isLoading := False\<rparr>)"

datatype auth_screen =
    Loading | LoadFailed jsval | SignInScreen | SignUpScreen bool bool | CodeScreen pending_sign_in
  | RequestResetScreen | ResetPasswordScreen string

text \<open>The arguments of signing up: whether there is a way to the other form, and whether the user claims the
  instance.\<close>

definition shown_auth_screen :: "auth_page \<Rightarrow> auth_screen" where
  "shown_auth_screen p = (if ap_isLoading p then Loading
     else case ap_failure p of
       Some e \<Rightarrow> LoadFailed e
     | None \<Rightarrow>
         (if ap_authMode p = SignUpMode then SignUpScreen (ap_hasAnyUser p) (\<not> ap_hasAnyUser p)
          else if ap_authMode p = SignInMode then SignInScreen
          else case (ap_authMode p, ap_pendingSignIn p) of
            (SignInCodeMode, Some q) \<Rightarrow> CodeScreen q
          | (RequestResetMode, _) \<Rightarrow> RequestResetScreen
          | _ \<Rightarrow> ResetPasswordScreen (ap_resetEmail p)))"

datatype auth_event =
    SwitchToSignIn | SwitchToSignUp | SwitchToReset | CodeRequired pending_sign_in
  | PendingReplaced pending_sign_in | PendingLost | SwitchToResetPassword string | SwitchToRequestCode
  | RetryOptions | OptionsAnswered bool nat "jsval + bool"

text \<open>Each form has its ways to the others.\<close>

definition auth_step :: "auth_page \<Rightarrow> auth_event \<Rightarrow> auth_page" where
  "auth_step p e = (case (e, shown_auth_screen p) of
       (OptionsAnswered cur revision a, _) \<Rightarrow> settle_options cur revision a p
     | (RetryOptions, LoadFailed _) \<Rightarrow> fst (load_options p)
     | (SwitchToSignIn, SignUpScreen True _) \<Rightarrow> p\<lparr>ap_authMode := SignInMode\<rparr>
     | (SwitchToSignUp, SignInScreen) \<Rightarrow> p\<lparr>ap_authMode := SignUpMode\<rparr>
     | (SwitchToReset, SignInScreen) \<Rightarrow> p\<lparr>ap_authMode := RequestResetMode\<rparr>
     | (CodeRequired q, SignInScreen) \<Rightarrow> p\<lparr>ap_pendingSignIn := Some q, ap_authMode := SignInCodeMode\<rparr>
     | (PendingReplaced q, CodeScreen _) \<Rightarrow> p\<lparr>ap_pendingSignIn := Some q\<rparr>
     | (PendingLost, CodeScreen _) \<Rightarrow> return_to_password_step p
     | (SwitchToSignIn, CodeScreen _) \<Rightarrow> return_to_password_step p
     | (SwitchToSignIn, RequestResetScreen) \<Rightarrow> p\<lparr>ap_authMode := SignInMode\<rparr>
     | (SwitchToResetPassword email, RequestResetScreen) \<Rightarrow>
         p\<lparr>ap_resetEmail := email, ap_authMode := ResetPasswordMode\<rparr>
     | (SwitchToSignIn, ResetPasswordScreen _) \<Rightarrow> p\<lparr>ap_authMode := SignInMode\<rparr>
     | (SwitchToRequestCode, ResetPasswordScreen _) \<Rightarrow> p\<lparr>ap_authMode := RequestResetMode\<rparr>
     | _ \<Rightarrow> p)"

section \<open>Every answer of the challenge is sent once\<close>

text \<open>A form with a challenge: \<open>solved\<close> is the answer an event of the widget brings, \<open>busy\<close> forbids a
  request. A request spends the answer and makes the form busy, and the form is free again only without
  it.\<close>

locale challenged_form =
  fixes step :: "'s \<Rightarrow> 'e \<Rightarrow> 's"
    and token :: "'s \<Rightarrow> string option"
    and sent :: "'s \<Rightarrow> string list"
    and busy :: "'s \<Rightarrow> bool"
    and solved :: "'e \<Rightarrow> string list"
    and admissible :: "'e \<Rightarrow> bool"
  assumes solved_step: "solved e \<noteq> [] \<Longrightarrow> sent (step s e) = sent s \<and> busy (step s e) = busy s
      \<and> set_option (token (step s e)) \<subseteq> set_option (token s) \<union> set (solved e)"
    and other_step: "solved e = [] \<Longrightarrow> admissible e \<Longrightarrow>
      (sent (step s e) = sent s \<and>
        (token (step s e) = None \<or> token (step s e) = token s \<and> (busy s \<longrightarrow> busy (step s e))))
      \<or> (\<exists>t. \<not> busy s \<and> token s = Some t \<and> sent (step s e) = sent s @ [t] \<and> busy (step s e)
        \<and> token (step s e) = Some t)"
begin

definition spent_once :: "string list \<Rightarrow> 's \<Rightarrow> bool" where
  "spent_once answers s \<longleftrightarrow> distinct (sent s) \<and> set (sent s) \<subseteq> set answers
     \<and> set_option (token s) \<subseteq> set answers
     \<and> (\<not> busy s \<longrightarrow> set_option (token s) \<inter> set (sent s) = {})"

lemma spent_once_step:
  assumes "spent_once answers s" "admissible e" "set (solved e) \<inter> set answers = {}"
  shows "spent_once (answers @ solved e) (step s e)"
proof (cases "solved e = []")
  case True
  from assms(1) have inv: "distinct (sent s)" "set (sent s) \<subseteq> set answers" "set_option (token s) \<subseteq> set answers"
    "busy s \<or> set_option (token s) \<inter> set (sent s) = {}" by (auto simp: spent_once_def)
  from other_step [OF True assms(2), of s] show ?thesis
  proof (elim disjE conjE exE)
    assume "sent (step s e) = sent s" "token (step s e) = None"
    with inv True show ?thesis by (simp add: spent_once_def)
  next
    assume "sent (step s e) = sent s" "token (step s e) = token s" "busy s \<longrightarrow> busy (step s e)"
    with inv True show ?thesis by (auto simp: spent_once_def)
  next
    fix t
    assume "\<not> busy s" "token s = Some t" "sent (step s e) = sent s @ [t]" "busy (step s e)"
      "token (step s e) = Some t"
    with inv True show ?thesis by (simp add: spent_once_def)
  qed
next
  case False
  from solved_step [OF False, of s] have same: "sent (step s e) = sent s" "busy (step s e) = busy s"
    and tok: "set_option (token (step s e)) \<subseteq> set_option (token s) \<union> set (solved e)" by simp_all
  from assms(1) have inv: "distinct (sent s)" "set (sent s) \<subseteq> set answers" "set_option (token s) \<subseteq> set answers"
    "busy s \<or> set_option (token s) \<inter> set (sent s) = {}" by (auto simp: spent_once_def)
  have "set_option (token (step s e)) \<subseteq> set (answers @ solved e)" using tok inv(3) by auto
  moreover have "busy s \<or> set_option (token (step s e)) \<inter> set (sent s) = {}"
    using tok inv(2,4) assms(3) by blast
  ultimately show ?thesis using inv(1,2) by (auto simp: spent_once_def same)
qed

lemma spent_once_run:
  "spent_once answers s \<Longrightarrow> list_all admissible es \<Longrightarrow> distinct (answers @ concat (map solved es)) \<Longrightarrow>
    \<exists>answers'. spent_once answers' (foldl step s es)"
proof (induction es arbitrary: answers s)
  case (Cons e es)
  have "spent_once (answers @ solved e) (step s e)"
    by (rule spent_once_step) (use Cons.prems in auto)
  from Cons.IH [OF this] Cons.prems show ?case by simp
qed auto

lemma every_answer_sent_once:
  "token s = None \<Longrightarrow> sent s = [] \<Longrightarrow> list_all admissible es \<Longrightarrow> distinct (concat (map solved es)) \<Longrightarrow>
    distinct (sent (foldl step s es))"
  using spent_once_run [of "[]" s es] by (auto simp: spent_once_def)

end

section \<open>Runs of the forms\<close>

text \<open>What happens to a form: its fields are edited, the widget answers (\<open>Solved\<close>) or its answer expires, a
  button is pressed, or the request on its way is answered. \<open>hasSiteKey\<close> is whether the page asks for
  the challenge at all; then the buttons of signing in wait for its answer.\<close>

datatype 'a form_event = Solved string | Expired | Press | Answered bool 'a

primrec solved_answer :: "'a form_event \<Rightarrow> string list" where
  "solved_answer (Solved t) = [t]"
| "solved_answer Expired = []"
| "solved_answer Press = []"
| "solved_answer (Answered cur a) = []"

definition spent :: "string option \<Rightarrow> string list" where
  "spent t = (case t of None \<Rightarrow> [] | Some x \<Rightarrow> [x])"

definition is_challenge_awaited :: "bool \<Rightarrow> challenge \<Rightarrow> bool" where
  "is_challenge_awaited hasSiteKey c \<longleftrightarrow> hasSiteKey \<and> \<not> truthy (challenge_token c)"

datatype 'a sign_in_event = EnterEmail string | EnterPassword string | SignInEvent "'a form_event"

fun sign_in_step :: "bool \<Rightarrow> sign_in_form \<times> string list \<Rightarrow> (jsval + sign_in_outcome) sign_in_event \<Rightarrow>
    sign_in_form \<times> string list" where
  "sign_in_step k (f, sent) (EnterEmail v) = (f\<lparr>si_isEmailError := False, si_email := to_lower (trim v)\<rparr>, sent)"
| "sign_in_step k (f, sent) (EnterPassword v) = (f\<lparr>si_isPasswordError := False, si_password := v\<rparr>, sent)"
| "sign_in_step k (f, sent) (SignInEvent (Solved t)) =
     (f\<lparr>si_challenge := set_challenge_token (Some t) (si_challenge f)\<rparr>, sent)"
| "sign_in_step k (f, sent) (SignInEvent Expired) =
     (f\<lparr>si_challenge := set_challenge_token None (si_challenge f)\<rparr>, sent)"
| "sign_in_step k (f, sent) (SignInEvent Press) =
     (if si_isGone f \<or> is_challenge_awaited k (si_challenge f) then (f, sent)
      else case on_sign_in f of
        (f1, None) \<Rightarrow> (f1, sent) | (f1, Some q) \<Rightarrow> (f1, sent @ spent (sq_token q)))"
| "sign_in_step k (f, sent) (SignInEvent (Answered cur a)) =
     (if si_isLoading f \<and> \<not> si_isGone f then (settle_sign_in cur a f, sent) else (f, sent))"

primrec sign_in_solved :: "'a sign_in_event \<Rightarrow> string list" where
  "sign_in_solved (EnterEmail v) = []"
| "sign_in_solved (EnterPassword v) = []"
| "sign_in_solved (SignInEvent e) = solved_answer e"

lemma challenge_simps [simp]:
  "challenge_token (set_challenge_token t c) = (case c of NoWidget \<Rightarrow> None | Widget _ \<Rightarrow> t)"
  "challenge_token (reset_cloudflare_turnstile c) = None"
  by (cases c; simp add: reset_cloudflare_turnstile_def)+

lemma validated_sign_in:
  "si_challenge (snd (validate_fields_for_sign_in f)) = si_challenge f"
  "si_isLoading (snd (validate_fields_for_sign_in f)) = si_isLoading f"
  "si_isGone (snd (validate_fields_for_sign_in f)) = si_isGone f"
  by (simp_all add: validate_fields_for_sign_in_def)

lemma sent_sign_in:
  "snd (on_sign_in f) = Some q \<Longrightarrow> \<not> si_isLoading f \<and> si_isLoading (fst (on_sign_in f))
    \<and> sq_token q = challenge_token (si_challenge f)"
  using validated_sign_in [of "f\<lparr>si_error := None\<rparr>"]
  by (auto simp: on_sign_in_def split: if_splits prod.splits bool.splits)

lemma sign_in_keeps:
  "si_challenge (fst (on_sign_in f)) = si_challenge f \<and> si_isGone (fst (on_sign_in f)) = si_isGone f
   \<and> (si_isLoading f \<longrightarrow> si_isLoading (fst (on_sign_in f)))"
  using validated_sign_in [of "f\<lparr>si_error := None\<rparr>"]
  by (auto simp: on_sign_in_def split: prod.splits bool.splits)

lemma solved_event: "solved_answer x \<noteq> [] \<Longrightarrow> (\<And>t. x = Solved t \<Longrightarrow> P) \<Longrightarrow> P"
  by (cases x) simp_all

lemma sign_in_solved_event:
  "sign_in_solved e \<noteq> [] \<Longrightarrow> (\<And>t. e = SignInEvent (Solved t) \<Longrightarrow> P) \<Longrightarrow> P"
  by (cases e) (auto elim: solved_event)

interpretation signing_in: challenged_form "sign_in_step k" "\<lambda>x. challenge_token (si_challenge (fst x))" snd
  "\<lambda>x. si_isLoading (fst x) \<or> si_isGone (fst x)" sign_in_solved "\<lambda>_. True" for k
proof unfold_locales
  fix e :: "(jsval + sign_in_outcome) sign_in_event" and s :: "sign_in_form \<times> string list"
  assume e: "sign_in_solved e \<noteq> []"
  obtain f sent where s: "s = (f, sent)" by (cases s)
  from e obtain t where "e = SignInEvent (Solved t)"
    by (auto elim!: sign_in_solved_event)
  then show "snd (sign_in_step k s e) = snd s
      \<and> (si_isLoading (fst (sign_in_step k s e)) \<or> si_isGone (fst (sign_in_step k s e)))
        = (si_isLoading (fst s) \<or> si_isGone (fst s))
      \<and> set_option (challenge_token (si_challenge (fst (sign_in_step k s e))))
        \<subseteq> set_option (challenge_token (si_challenge (fst s))) \<union> set (sign_in_solved e)"
    by (simp add: s split: challenge.split)
next
  fix e :: "(jsval + sign_in_outcome) sign_in_event" and s :: "sign_in_form \<times> string list"
  assume e: "sign_in_solved e = []"
  obtain f sent where s: "s = (f, sent)" by (cases s)
  show "(snd (sign_in_step k s e) = snd s \<and>
      (challenge_token (si_challenge (fst (sign_in_step k s e))) = None \<or>
       challenge_token (si_challenge (fst (sign_in_step k s e))) = challenge_token (si_challenge (fst s)) \<and>
       (si_isLoading (fst s) \<or> si_isGone (fst s) \<longrightarrow>
        si_isLoading (fst (sign_in_step k s e)) \<or> si_isGone (fst (sign_in_step k s e)))))
    \<or> (\<exists>t. \<not> (si_isLoading (fst s) \<or> si_isGone (fst s)) \<and> challenge_token (si_challenge (fst s)) = Some t \<and>
        snd (sign_in_step k s e) = snd s @ [t] \<and>
        (si_isLoading (fst (sign_in_step k s e)) \<or> si_isGone (fst (sign_in_step k s e))) \<and>
        challenge_token (si_challenge (fst (sign_in_step k s e))) = Some t)"
  proof (cases e)
    case (SignInEvent x)
    show ?thesis
    proof (cases x)
      case Press
      show ?thesis
      proof (cases "snd (on_sign_in f)")
        case None
        then have "on_sign_in f = (fst (on_sign_in f), None)" by (metis prod.collapse)
        with sign_in_keeps [of f] s SignInEvent Press show ?thesis by (auto split: prod.splits)
      next
        case (Some q)
        then have "on_sign_in f = (fst (on_sign_in f), Some q)" by (metis prod.collapse)
        with sign_in_keeps [of f] sent_sign_in [OF Some] s SignInEvent Press show ?thesis
          by (cases "challenge_token (si_challenge f)") (auto simp: spent_def split: prod.splits)
      qed
    qed (use e s SignInEvent in \<open>auto simp: settle_sign_in_def split: sum.split challenge.split\<close>)
  qed (use s in simp_all)
qed

definition opened_sign_in :: "challenge \<Rightarrow> sign_in_form" where
  "opened_sign_in c = \<lparr>si_email = [], si_password = [], si_isLoading = False, si_isEmailError = False,
     si_isPasswordError = False, si_error = None, si_challenge = c, si_isGone = False\<rparr>"

text \<open>C31: Signing in spends every answer of the challenge once. However often the button is pressed and
  whatever the server answers, no two requests carry the same answer of the widget.\<close>

theorem challenge_answers_sent_once:
  assumes "challenge_token c = None" and "distinct (concat (map sign_in_solved es))"
  shows "distinct (snd (foldl (sign_in_step hasSiteKey) (opened_sign_in c, []) es))"
  by (rule signing_in.every_answer_sent_once) (use assms in \<open>simp_all add: opened_sign_in_def list_all_iff\<close>)

definition mistyped_sign_in :: "(jsval + sign_in_outcome) sign_in_event list" where
  "mistyped_sign_in = [EnterEmail ''a@b.cd'', EnterPassword ''secret'', SignInEvent (Solved ''t1''),
     SignInEvent Press, SignInEvent Press, SignInEvent (Answered True (Inl JNull)),
     SignInEvent Press, SignInEvent (Solved ''t2''), SignInEvent Press]"

lemma challenge_answers_sent_once_witness:
  "distinct (snd (foldl (sign_in_step True) (opened_sign_in (Widget None), []) mistyped_sign_in))"
  by (rule challenge_answers_sent_once) (simp_all add: mistyped_sign_in_def)

lemma mistyped_sign_in_sends_both:
  "snd (foldl (sign_in_step True) (opened_sign_in (Widget None), []) mistyped_sign_in) = [''t1'', ''t2'']"
  by code_simp

section \<open>The code's form spends answers once, too\<close>

datatype code_event =
    EnterCode string
  | CodeSolved string
  | CodeExpired
  | PressVerify
  | PressResend
  | VerifyAnswered bool "(jsval \<times> string option) + unit"
  | ResendAnswered bool "(jsval \<times> string option) + pending_sign_in"

definition spend_on :: "'q option \<Rightarrow> ('q \<Rightarrow> string option) \<Rightarrow> string list" where
  "spend_on q answer = (case q of None \<Rightarrow> [] | Some r \<Rightarrow> spent (answer r))"

definition press_verify :: "sign_in_code_form \<times> string list \<Rightarrow> sign_in_code_form \<times> string list" where
  "press_verify x = (fst (on_verify (fst x)), snd x @ spend_on (snd (on_verify (fst x))) (snd \<circ> snd))"

definition press_resend :: "sign_in_code_form \<times> string list \<Rightarrow> sign_in_code_form \<times> string list" where
  "press_resend x = (fst (on_resend (fst x)), snd x @ spend_on (snd (on_resend (fst x))) snd)"

definition code_step :: "bool \<Rightarrow> sign_in_code_form \<times> string list \<Rightarrow> code_event \<Rightarrow>
    sign_in_code_form \<times> string list" where
  "code_step k x e = (let f = fst x; closed = sc_isGone f \<or> is_challenge_awaited k (sc_challenge f) in
     case e of
       EnterCode v \<Rightarrow> (enter_code v f, snd x)
     | CodeSolved t \<Rightarrow> (f\<lparr>sc_challenge := set_challenge_token (Some t) (sc_challenge f)\<rparr>, snd x)
     | CodeExpired \<Rightarrow> (f\<lparr>sc_challenge := set_challenge_token None (sc_challenge f)\<rparr>, snd x)
     | PressVerify \<Rightarrow> if closed then x else press_verify x
     | PressResend \<Rightarrow> if closed then x else press_resend x
     | VerifyAnswered cur a \<Rightarrow> if sc_isLoading f \<and> \<not> sc_isGone f then (settle_verify cur a f, snd x) else x
     | ResendAnswered cur a \<Rightarrow> if sc_isResending f \<and> \<not> sc_isGone f then (settle_resend cur a f, snd x) else x)"

primrec code_solved :: "code_event \<Rightarrow> string list" where
  "code_solved (EnterCode v) = []"
| "code_solved (CodeSolved t) = [t]"
| "code_solved CodeExpired = []"
| "code_solved PressVerify = []"
| "code_solved PressResend = []"
| "code_solved (VerifyAnswered cur a) = []"
| "code_solved (ResendAnswered cur a) = []"

text \<open>A session the server answered is accepted.\<close>

fun is_not_refused :: "code_event \<Rightarrow> bool" where
  "is_not_refused (VerifyAnswered False (Inr _)) = False"
| "is_not_refused _ = True"

definition code_busy :: "sign_in_code_form \<Rightarrow> bool" where
  "code_busy f \<longleftrightarrow> sc_isLoading f \<or> sc_isResending f \<or> sc_isGone f"

lemma verify_cases:
  "(snd (on_verify f) = None \<and> sc_challenge (fst (on_verify f)) = sc_challenge f
      \<and> code_busy (fst (on_verify f)) = code_busy f)
   \<or> (\<exists>q. snd (on_verify f) = Some q \<and> snd (snd q) = challenge_token (sc_challenge f)
      \<and> sc_challenge (fst (on_verify f)) = sc_challenge f \<and> sc_isLoading (fst (on_verify f))
      \<and> \<not> sc_isLoading f \<and> \<not> sc_isResending f \<and> sc_isGone (fst (on_verify f)) = sc_isGone f)"
  by (auto simp: on_verify_def Let_def code_busy_def)

lemma resend_cases:
  "(snd (on_resend f) = None \<and> fst (on_resend f) = f)
   \<or> (\<exists>q. snd (on_resend f) = Some q \<and> snd q = challenge_token (sc_challenge f)
      \<and> sc_challenge (fst (on_resend f)) = sc_challenge f \<and> sc_isResending (fst (on_resend f))
      \<and> \<not> sc_isLoading f \<and> \<not> sc_isResending f \<and> sc_isGone (fst (on_resend f)) = sc_isGone f)"
  by (auto simp: on_resend_def)

lemma spend_simps [simp]: "spent None = []" "spent (Some t) = [t]" "spend_on None g = []"
  "spend_on (Some q) g = spent (g q)"
  by (simp_all add: spent_def spend_on_def)

abbreviation (input) code_progress ::
    "sign_in_code_form \<times> string list \<Rightarrow> sign_in_code_form \<times> string list \<Rightarrow> bool" where
  "code_progress x y \<equiv>
     (snd y = snd x \<and> (challenge_token (sc_challenge (fst y)) = None
        \<or> challenge_token (sc_challenge (fst y)) = challenge_token (sc_challenge (fst x))
          \<and> (code_busy (fst x) \<longrightarrow> code_busy (fst y))))
     \<or> (\<exists>t. \<not> code_busy (fst x) \<and> challenge_token (sc_challenge (fst x)) = Some t \<and> snd y = snd x @ [t]
        \<and> code_busy (fst y) \<and> challenge_token (sc_challenge (fst y)) = Some t)"

lemma press_progress:
  "\<not> sc_isGone (fst x) \<Longrightarrow> code_progress x (press_verify x)"
  "\<not> sc_isGone (fst x) \<Longrightarrow> code_progress x (press_resend x)"
  subgoal
    using verify_cases [of "fst x"]
    by (cases "challenge_token (sc_challenge (fst x))") (auto simp: press_verify_def code_busy_def)
  subgoal
    using resend_cases [of "fst x"]
    by (cases "challenge_token (sc_challenge (fst x))") (auto simp: press_resend_def code_busy_def)
  done

lemma report_keeps [simp]: "sc_challenge (report_failure e f) = sc_challenge f"
  by (simp add: report_failure_def)

lemma settle_verify_progress:
  assumes "is_not_refused (VerifyAnswered cur a)"
  shows "code_progress (f, sent) (settle_verify cur a f, sent)"
  using assms by (cases a; cases cur) (simp_all add: settle_verify_def code_busy_def)

lemma settle_resend_progress: "code_progress (f, sent) (settle_resend cur a f, sent)"
  by (cases a; cases cur) (simp_all add: settle_resend_def)

interpretation code_form: challenged_form "code_step k" "\<lambda>x. challenge_token (sc_challenge (fst x))" snd
  "\<lambda>x. code_busy (fst x)" code_solved is_not_refused for k
proof unfold_locales
  fix e and x :: "sign_in_code_form \<times> string list"
  assume "code_solved e \<noteq> []"
  then obtain t where "e = CodeSolved t" by (cases e) simp_all
  then show "snd (code_step k x e) = snd x \<and> code_busy (fst (code_step k x e)) = code_busy (fst x)
      \<and> set_option (challenge_token (sc_challenge (fst (code_step k x e))))
        \<subseteq> set_option (challenge_token (sc_challenge (fst x))) \<union> set (code_solved e)"
    by (simp add: code_step_def code_busy_def Let_def split: challenge.split)
next
  fix e and x :: "sign_in_code_form \<times> string list"
  assume e: "code_solved e = []" "is_not_refused e"
  obtain f sent where x: "x = (f, sent)" by (cases x)
  show "code_progress x (code_step k x e)"
  proof (cases e)
    case (EnterCode v)
    then show ?thesis by (simp add: x code_step_def Let_def enter_code_def code_busy_def)
  next
    case CodeExpired
    then show ?thesis by (simp add: x code_step_def Let_def split: challenge.split)
  next
    case PressVerify
    show ?thesis
      by (cases "sc_isGone f \<or> is_challenge_awaited k (sc_challenge f)")
        (use press_progress(1) [of x] PressVerify in \<open>simp_all add: x code_step_def Let_def\<close>)
  next
    case PressResend
    show ?thesis
      by (cases "sc_isGone f \<or> is_challenge_awaited k (sc_challenge f)")
        (use press_progress(2) [of x] PressResend in \<open>simp_all add: x code_step_def Let_def\<close>)
  next
    case (VerifyAnswered cur a)
    show ?thesis
      by (cases "sc_isLoading f \<and> \<not> sc_isGone f")
        (use settle_verify_progress [where f = f and sent = sent and cur = cur and a = a] e VerifyAnswered in \<open>simp_all add: x code_step_def Let_def\<close>)
  next
    case (ResendAnswered cur a)
    show ?thesis
      by (cases "sc_isResending f \<and> \<not> sc_isGone f")
        (use settle_resend_progress [where f = f and sent = sent and cur = cur and a = a] ResendAnswered in \<open>simp_all add: x code_step_def Let_def\<close>)
  qed (use e in simp_all)
qed

definition opened_code_form :: "pending_sign_in \<Rightarrow> challenge \<Rightarrow> sign_in_code_form" where
  "opened_code_form p c = \<lparr>sc_pending = p, sc_code = [], sc_isCodeError = False, sc_isLoading = False,
     sc_isResending = False, sc_failure = None, sc_challenge = c, sc_isGone = False\<rparr>"

text \<open>The code's form sends each answer of the challenge once as well, verifying and resending together, as
  long as the session accepts what it is answered.\<close>

lemma code_form_spends_answers_once:
  assumes "challenge_token c = None" and "list_all is_not_refused es" and "distinct (concat (map code_solved es))"
  shows "distinct (snd (foldl (code_step hasSiteKey) (opened_code_form p c, []) es))"
  by (rule code_form.every_answer_sent_once) (use assms in \<open>simp_all add: opened_code_form_def\<close>)

text \<open>When it does not (another tab signed in and out meanwhile), the form is ready to send the spent answer
  again.\<close>

lemma refused_code_keeps_spent_answer:
  "snd (foldl (code_step True) (opened_code_form \<lparr>ps_id = ''p'', ps_email = ''a@b.cd''\<rparr> (Widget None), [])
     [EnterCode ''123456'', CodeSolved ''t1'', PressVerify, VerifyAnswered False (Inr ()), PressVerify])
   = [''t1'', ''t1'']"
  by code_simp

section \<open>Checks and what they stand for\<close>

lemma butlast_split: "x \<in> set (butlast xs) \<longleftrightarrow> (\<exists>u v. xs = u @ x # v \<and> v \<noteq> [])"
proof
  assume "x \<in> set (butlast xs)"
  then obtain u v where "butlast xs = u @ x # v" by (auto dest: split_list)
  moreover from \<open>x \<in> set (butlast xs)\<close> have "xs = butlast xs @ [last xs]" by (cases xs rule: rev_cases) simp_all
  ultimately have "xs = u @ x # (v @ [last xs])" by simp
  then show "\<exists>u v. xs = u @ x # v \<and> v \<noteq> []" by blast
qed (auto simp: butlast_append)

lemma dot_in_rest: "CHR ''.'' \<in> set (butlast (tl rest)) \<longleftrightarrow>
    (\<exists>b c. rest = b @ CHR ''.'' # c \<and> b \<noteq> [] \<and> c \<noteq> [])"
  unfolding butlast_split
proof
  assume "\<exists>u v. tl rest = u @ CHR ''.'' # v \<and> v \<noteq> []"
  then obtain u v where u: "tl rest = u @ CHR ''.'' # v" "v \<noteq> []" by blast
  then have "rest = (hd rest # u) @ CHR ''.'' # v" by (cases rest) simp_all
  with u(2) show "\<exists>b c. rest = b @ CHR ''.'' # c \<and> b \<noteq> [] \<and> c \<noteq> []" by blast
next
  assume "\<exists>b c. rest = b @ CHR ''.'' # c \<and> b \<noteq> [] \<and> c \<noteq> []"
  then show "\<exists>u v. tl rest = u @ CHR ''.'' # v \<and> v \<noteq> []" by (metis tl_append2)
qed

text \<open>The check of an e-mail address is the regular expression: parts around an at sign and a dot, none of
  them empty, without white space.\<close>

lemma valid_email_iff:
  "is_valid_email email \<longleftrightarrow> \<not> has_space email
    \<and> (\<exists>a b c. email = a @ ''@'' @ b @ ''.'' @ c \<and> a \<noteq> [] \<and> b \<noteq> [] \<and> c \<noteq> [])"
proof -
  have "(case dropWhile (\<lambda>c. c \<noteq> CHR ''@'') (tl email) of
      [] \<Rightarrow> False | _ # rest \<Rightarrow> CHR ''.'' \<in> set (butlast (tl rest)))
    \<longleftrightarrow> (\<exists>a b c. email = a @ ''@'' @ b @ ''.'' @ c \<and> a \<noteq> [] \<and> b \<noteq> [] \<and> c \<noteq> [])" (is "?l \<longleftrightarrow> ?r")
  proof
    assume ?l
    then obtain x rest where d: "dropWhile (\<lambda>c. c \<noteq> CHR ''@'') (tl email) = x # rest"
      and dot: "CHR ''.'' \<in> set (butlast (tl rest))" by (auto split: list.splits)
    from d have x: "x = CHR ''@''" using hd_dropWhile [of "\<lambda>c. c \<noteq> CHR ''@''" "tl email"] by simp
    from dot obtain b c where b: "rest = b @ CHR ''.'' # c" "b \<noteq> []" "c \<noteq> []" by (auto simp: dot_in_rest)
    have "tl email = takeWhile (\<lambda>c. c \<noteq> CHR ''@'') (tl email) @ CHR ''@'' # rest"
      using d x takeWhile_dropWhile_id [of "\<lambda>c. c \<noteq> CHR ''@''" "tl email"] by simp
    moreover from d have "email \<noteq> []" by auto
    ultimately have "email = (hd email # takeWhile (\<lambda>c. c \<noteq> CHR ''@'') (tl email)) @ CHR ''@'' # rest"
      by (metis append_Cons list.collapse)
    then have "email = (hd email # takeWhile (\<lambda>c. c \<noteq> CHR ''@'') (tl email)) @ ''@'' @ b @ ''.'' @ c"
      using b(1) by simp
    with b(2,3) show ?r by blast
  next
    assume ?r
    then obtain a b c where e: "email = a @ ''@'' @ b @ ''.'' @ c" and ne: "a \<noteq> []" "b \<noteq> []" "c \<noteq> []" by blast
    have tail: "tl email = tl a @ CHR ''@'' # (b @ CHR ''.'' # c)" using e ne by simp
    then obtain x rest where d: "dropWhile (\<lambda>c. c \<noteq> CHR ''@'') (tl email) = x # rest"
      by (cases "dropWhile (\<lambda>c. c \<noteq> CHR ''@'') (tl email)") (auto simp: dropWhile_eq_Nil_conv)
    have "\<exists>p. rest = p @ b @ CHR ''.'' # c"
    proof (cases "CHR ''@'' \<in> set (tl a)")
      case True
      then have "dropWhile (\<lambda>c. c \<noteq> CHR ''@'') (tl a) \<noteq> []" by (auto simp: dropWhile_eq_Nil_conv)
      then obtain y ys where y: "dropWhile (\<lambda>c. c \<noteq> CHR ''@'') (tl a) = y # ys"
        by (cases "dropWhile (\<lambda>c. c \<noteq> CHR ''@'') (tl a)") simp_all
      have "dropWhile (\<lambda>c. c \<noteq> CHR ''@'') (tl email)
          = dropWhile (\<lambda>c. c \<noteq> CHR ''@'') (tl a) @ CHR ''@'' # (b @ CHR ''.'' # c)"
        unfolding tail by (rule dropWhile_append1 [OF True]) simp
      with d y show ?thesis by auto
    next
      case False
      then have "dropWhile (\<lambda>c. c \<noteq> CHR ''@'') (tl email) = CHR ''@'' # (b @ CHR ''.'' # c)"
        unfolding tail by (subst dropWhile_append2) auto
      with d show ?thesis by simp
    qed
    then obtain p where "rest = (p @ b) @ CHR ''.'' # c" by auto
    with ne have "CHR ''.'' \<in> set (butlast (tl rest))" unfolding dot_in_rest by blast
    with d show ?l by simp
  qed
  then show ?thesis by (simp add: is_valid_email_def)
qed

text \<open>What the forms send is what they ask for.\<close>

lemma sign_up_sends_valid_fields:
  assumes "snd (on_sign_up f) = Some q"
  shows "trim (uq_name q) \<noteq> [] \<and> is_valid_email (uq_email q) \<and> 8 \<le> utf16_length (uq_password q)
    \<and> su_password f = su_confirmPassword f \<and> uq_password q = su_password f"
  using assms by (auto simp: on_sign_up_def validate_fields_for_sign_up_def Let_def split: if_splits)

lemma reset_sends_valid_fields:
  assumes "snd (on_reset_password f) = Some (email, code, password)"
  shows "is_valid_email email \<and> is_six_digits code \<and> 8 \<le> utf16_length password
    \<and> password = rp_confirmPassword f"
  using assms by (auto simp: on_reset_password_def validate_reset_fields_def Let_def
      split: if_splits bool.splits)

lemma typed_code_is_digits: "list_all is_digit (to_code v) \<and> length (to_code v) \<le> 6"
  by (auto simp: to_code_def list_all_iff dest: in_set_takeD)

section \<open>The page never loses its step\<close>

definition page_inv :: "auth_page \<Rightarrow> bool" where
  "page_inv p \<longleftrightarrow> (ap_authMode p = SignInCodeMode \<longrightarrow> ap_pendingSignIn p \<noteq> None)"

lemma auth_step_inv: "page_inv p \<Longrightarrow> page_inv (auth_step p e)"
  by (cases e) (auto simp: page_inv_def auth_step_def settle_options_def load_options_def
      return_to_password_step_def Let_def split_beta split: auth_screen.split sum.split bool.split)

interpretation auth_page: invariant_machine auth_step page_inv
  by unfold_locales (rule auth_step_inv)

text \<open>Of the forms the page shows the one its mode names; in particular the code is asked for a sign-in that
  waits for it, and a new password only when the user asked for one.\<close>

lemma shown_form_is_of_its_mode:
  "case shown_auth_screen (foldl auth_step opened_auth_page es) of
     CodeScreen q \<Rightarrow> ap_authMode (foldl auth_step opened_auth_page es) = SignInCodeMode
   | ResetPasswordScreen email \<Rightarrow> ap_authMode (foldl auth_step opened_auth_page es) = ResetPasswordMode
   | _ \<Rightarrow> True"
proof -
  have "page_inv (foldl auth_step opened_auth_page es)"
    by (rule auth_page.run_inv) (simp add: page_inv_def opened_auth_page_def)
  then show ?thesis
    by (cases "ap_authMode (foldl auth_step opened_auth_page es)")
      (auto simp: shown_auth_screen_def page_inv_def split: option.split)
qed

end
