(* ===== verification/Config_Screens.thy ===== *)
theory Config_Screens
  imports Transfer_Dialog Backup_Configs
begin

text \<open>
  The screens around a backup configuration: its load (\<open>useBackupConfigLoad.ts\<close>), the section that edits it
  (\<open>EditBackupConfigSection.tsx\<close>), the choice of its storage (\<open>BackupStorageSelection.tsx\<close>), the files
  of an earlier storage still to be removed (\<open>useBackupCleanup.ts\<close>) and the space a storage uses
  (\<open>useStorageUsage.ts\<close>). An effect has a number; its cleanup, or the next effect, makes it inactive.
  Whether the session's guard holds is an argument.
\<close>

section \<open>Loading a configuration (useBackupConfigLoad.ts)\<close>

record 'c config_load =
  cl_config :: "'c option"
  cl_isLoading :: bool
  cl_error :: "jsval option"
  cl_revision :: request_revision
  cl_effect :: nat

definition opened_config_load :: "'c config_load" where
  "opened_config_load = \<lparr>cl_config = None, cl_isLoading = False, cl_error = None, cl_revision = new_revision,
     cl_effect = 0\<rparr>"

text \<open>The effect runs when the database, the workspace or the session changes, and for every reload. It answers
  what its request captured, if it sends one.\<close>

definition run_config_effect :: "bool \<Rightarrow> 'c config_load \<Rightarrow> 'c config_load \<times> (nat \<times> nat) option" where
  "run_config_effect isCurrentSession h = (let (revision, r) = invalidate (cl_revision h);
       h1 = h\<lparr>cl_revision := r, cl_effect := Suc (cl_effect h), cl_isLoading := True, cl_config := None,
              cl_error := None\<rparr>
     in if \<not> isCurrentSession then (h1\<lparr>cl_isLoading := False\<rparr>, None)
        else (h1, Some (cl_effect h1, revision)))"

definition is_current_load :: "bool \<Rightarrow> nat \<times> nat \<Rightarrow> 'c config_load \<Rightarrow> bool" where
  "is_current_load isCurrentSession load h \<longleftrightarrow>
     fst load = cl_effect h \<and> isCurrentSession \<and> is_current_revision (cl_revision h) (snd load)"

definition settle_config_load :: "bool \<Rightarrow> nat \<times> nat \<Rightarrow> jsval + 'c \<Rightarrow> 'c config_load \<Rightarrow> 'c config_load" where
  "settle_config_load isCurrentSession load answer h =
     (if \<not> is_current_load isCurrentSession load h then h
      else (case answer of Inr c \<Rightarrow> h\<lparr>cl_config := Some c\<rparr> | Inl e \<Rightarrow> h\<lparr>cl_error := Some e\<rparr>)
        \<lparr>cl_isLoading := False\<rparr>)"

definition acknowledge_backup_config :: "bool \<Rightarrow> 'c \<Rightarrow> 'c config_load \<Rightarrow> 'c config_load" where
  "acknowledge_backup_config isCurrentSession c h =
     (if \<not> isCurrentSession then h
      else h\<lparr>cl_revision := snd (invalidate (cl_revision h)), cl_config := Some c, cl_error := None,
             cl_isLoading := False\<rparr>)"

section \<open>Editing a configuration (EditBackupConfigSection.tsx)\<close>

record 's config_section =
  cs_acknowledgedDraft :: "'s config_input option"
  cs_draft :: "'s config_input option"
  cs_hasHistory :: "bool option"
  cs_loadError :: "jsval option"
  cs_isSaving :: bool
  cs_saveError :: "jsval option"
  cs_isShowStorageSwitchWarning :: bool
  cs_effect :: nat
  cs_saved :: nat

definition opened_section :: "'s config_section" where
  "opened_section = \<lparr>cs_acknowledgedDraft = None, cs_draft = None, cs_hasHistory = None, cs_loadError = None,
     cs_isSaving = False, cs_saveError = None, cs_isShowStorageSwitchWarning = False, cs_effect = 0,
     cs_saved = 0\<rparr>"

text \<open>The load: the configuration as a draft, and whether there are backups; that question may fail (\<open>None\<close>).\<close>

definition run_section_effect :: "'s config_section \<Rightarrow> 's config_section" where
  "run_section_effect s = s\<lparr>cs_effect := Suc (cs_effect s), cs_loadError := None, cs_acknowledgedDraft := None,
     cs_draft := None\<rparr>"

definition settle_section_load ::
    "nat \<Rightarrow> jsval + 's config_input option \<times> bool option \<Rightarrow> 's config_section \<Rightarrow> 's config_section" where
  "settle_section_load effect answer s =
     (if effect \<noteq> cs_effect s then s
      else case answer of
        Inl e \<Rightarrow> s\<lparr>cs_loadError := Some e\<rparr>
      | Inr (loadedDraft, loadedHasHistory) \<Rightarrow> s\<lparr>cs_acknowledgedDraft := loadedDraft, cs_draft := loadedDraft,
          cs_hasHistory := loadedHasHistory\<rparr>)"

definition save_config_draft :: "'s config_input \<Rightarrow> 's config_section \<Rightarrow> 's config_section" where
  "save_config_draft d s = s\<lparr>cs_isSaving := True, cs_saveError := None\<rparr>"

definition settle_config_save :: "bool \<Rightarrow> jsval + unit \<Rightarrow> 's config_section \<Rightarrow> 's config_section" where
  "settle_config_save isActive answer s =
     (if \<not> isActive then s
      else case answer of
        Inr _ \<Rightarrow> s\<lparr>cs_saved := Suc (cs_saved s)\<rparr>
      | Inl e \<Rightarrow> s\<lparr>cs_saveError := Some e, cs_isSaving := False\<rparr>)"

definition saved_storage_id :: "'s config_section \<Rightarrow> string option" where
  "saved_storage_id s = (case cs_acknowledgedDraft s of None \<Rightarrow> None | Some d \<Rightarrow> ci_storageId d)"

definition needs_switch_warning :: "'s config_input \<Rightarrow> 's config_section \<Rightarrow> bool" where
  "needs_switch_warning d s \<longleftrightarrow> truthy (ci_storageId d) \<and> ci_storageId d \<noteq> saved_storage_id s
     \<and> (saved_storage_id s \<noteq> None \<or> cs_hasHistory s \<noteq> Some False)"

text \<open>The second component is the draft whose request is sent.\<close>

definition confirm_and_save_draft ::
    "'s config_input \<Rightarrow> 's config_section \<Rightarrow> 's config_section \<times> 's config_input option" where
  "confirm_and_save_draft d s =
     (if needs_switch_warning d s then (s\<lparr>cs_isShowStorageSwitchWarning := True\<rparr>, None)
      else (save_config_draft d s, Some d))"

definition confirm_switch :: "'s config_section \<Rightarrow> 's config_section \<times> 's config_input option" where
  "confirm_switch s = (case cs_draft s of
       None \<Rightarrow> (s, None)
     | Some d \<Rightarrow> (save_config_draft d (s\<lparr>cs_isShowStorageSwitchWarning := False\<rparr>), Some d))"

definition decline_switch :: "'s config_section \<Rightarrow> 's config_section" where
  "decline_switch s = s\<lparr>cs_isShowStorageSwitchWarning := False\<rparr>"

definition can_save_section ::
    "('s config_input \<Rightarrow> 's config_input \<Rightarrow> bool) \<Rightarrow> ('s config_input \<Rightarrow> bool) \<Rightarrow> 's config_section \<Rightarrow> bool" where
  "can_save_section isChanged isComplete s = (case (cs_acknowledgedDraft s, cs_draft s) of
       (Some a, Some d) \<Rightarrow> isChanged a d \<and> isComplete d | _ \<Rightarrow> False)"

section \<open>Choosing a storage (BackupStorageSelection.tsx)\<close>

record storage_selection =
  sl_workspaceId :: string
  sl_storages :: "target_resource list"
  sl_isLoading :: bool
  sl_error :: "jsval option"
  sl_isCreating :: bool
  sl_acknowledged :: "target_resource list"
  sl_requests :: request_revision
  sl_selected :: "string option"

definition create_storage_choice :: "storage_selection \<Rightarrow> storage_selection" where
  "create_storage_choice s = s\<lparr>sl_isCreating := True\<rparr>"

definition load_storage_choices :: "storage_selection \<Rightarrow> storage_selection \<times> nat" where
  "load_storage_choices s = (let (revision, r) = invalidate (sl_requests s)
     in (s\<lparr>sl_requests := r, sl_isLoading := True, sl_error := None\<rparr>, revision))"

definition settle_storage_choices ::
    "bool \<Rightarrow> nat \<Rightarrow> jsval + target_resource list \<Rightarrow> storage_selection \<Rightarrow> storage_selection" where
  "settle_storage_choices isCurrent revision answer s =
     (if \<not> isCurrent \<or> \<not> is_current_revision (sl_requests s) revision then s
      else (case answer of
          Inr choices \<Rightarrow> s\<lparr>sl_storages := with_acknowledged (sl_acknowledged s) choices\<rparr>
        | Inl e \<Rightarrow> s\<lparr>sl_error := Some e\<rparr>)\<lparr>sl_isLoading := False\<rparr>)"

definition accept_storage_choice :: "bool \<Rightarrow> target_resource \<Rightarrow> storage_selection \<Rightarrow> storage_selection \<times> nat option" where
  "accept_storage_choice isCurrent r s =
     (if \<not> isCurrent \<or> sl_workspaceId s \<noteq> rs_workspaceId r then (s, None)
      else (let (s1, revision) = load_storage_choices (s\<lparr>sl_acknowledged := remember_resource r (sl_acknowledged s),
                sl_storages := remember_resource r (sl_storages s)\<rparr>)
            in (s1, Some revision)))"

definition choose_created_choice :: "bool \<Rightarrow> target_resource \<Rightarrow> storage_selection \<Rightarrow> storage_selection" where
  "choose_created_choice isCurrent r s =
     (if \<not> isCurrent \<or> sl_workspaceId s \<noteq> rs_workspaceId r then s
      else s\<lparr>sl_selected := Some (rs_id r), sl_isCreating := False\<rparr>)"

definition open_workspace_choices :: "string \<Rightarrow> storage_selection \<Rightarrow> storage_selection \<times> nat" where
  "open_workspace_choices workspaceId s = load_storage_choices
     (s\<lparr>sl_workspaceId := workspaceId, sl_acknowledged := [], sl_storages := [], sl_isCreating := False,
        sl_requests := snd (invalidate (sl_requests s))\<rparr>)"

section \<open>Files still to be removed (useBackupCleanup.ts)\<close>

text \<open>A source is the database, the workspace and the cleanup the screen was opened with, compared as one;
  a cleanup is an object, compared by its identity, and its number of pending files.\<close>

type_synonym backup_cleanup = "nat \<times> nat"

record 'k cleanup_state =
  ck_source :: "'k \<times> backup_cleanup option"
  ck_cleanup :: "backup_cleanup option"
  ck_error :: "jsval option"
  ck_shouldReadImmediately :: bool

record 'k cleanup_hook =
  ch_source :: "'k \<times> backup_cleanup option"
  ch_state :: "'k cleanup_state option"
  ch_effect :: nat

definition is_same_cleanup_source :: "'k cleanup_hook \<Rightarrow> bool" where
  "is_same_cleanup_source h \<longleftrightarrow> (case ch_state h of None \<Rightarrow> False | Some st \<Rightarrow> ck_source st = ch_source h)"

definition shown_cleanup :: "'k cleanup_hook \<Rightarrow> backup_cleanup option" where
  "shown_cleanup h = (if is_same_cleanup_source h then ck_cleanup (the (ch_state h)) else snd (ch_source h))"

definition cleanup_error :: "'k cleanup_hook \<Rightarrow> jsval option" where
  "cleanup_error h = (if is_same_cleanup_source h then ck_error (the (ch_state h)) else None)"

definition reads_immediately :: "'k cleanup_hook \<Rightarrow> bool" where
  "reads_immediately h \<longleftrightarrow> is_same_cleanup_source h \<and> ck_shouldReadImmediately (the (ch_state h))"

definition retry_cleanup :: "'k cleanup_hook \<Rightarrow> 'k cleanup_hook" where
  "retry_cleanup h = h\<lparr>ch_state := Some \<lparr>ck_source = ch_source h, ck_cleanup = shown_cleanup h, ck_error = None,
     ck_shouldReadImmediately = True\<rparr>\<rparr>"

text \<open>The effect: the delay of its timer, if it sets one.\<close>

definition run_cleanup_effect :: "bool \<Rightarrow> 'k cleanup_hook \<Rightarrow> 'k cleanup_hook \<times> int option" where
  "run_cleanup_effect isCurrentSession h = (h\<lparr>ch_effect := Suc (ch_effect h)\<rparr>,
     if nullish (map_option snd (shown_cleanup h)) 0 = 0 \<or> cleanup_error h \<noteq> None \<or> \<not> isCurrentSession then None
     else Some (if reads_immediately h then 0 else 2000))"

definition settle_cleanup ::
    "bool \<Rightarrow> nat \<Rightarrow> 'k \<times> backup_cleanup option \<Rightarrow> backup_cleanup option \<Rightarrow> jsval + backup_cleanup option \<Rightarrow> 'k cleanup_hook \<Rightarrow> 'k cleanup_hook" where
  "settle_cleanup isCurrentSession effect source cleanup answer h =
     (if effect \<noteq> ch_effect h \<or> \<not> isCurrentSession then h
      else h\<lparr>ch_state := Some (case answer of
          Inr c \<Rightarrow> \<lparr>ck_source = source, ck_cleanup = c, ck_error = None, ck_shouldReadImmediately = False\<rparr>
        | Inl e \<Rightarrow> \<lparr>ck_source = source, ck_cleanup = cleanup, ck_error = Some e, ck_shouldReadImmediately = False\<rparr>)\<rparr>)"

section \<open>The space a storage uses (useStorageUsage.ts)\<close>

text \<open>A source is the storage, the workspace and the session.\<close>

record 'k usage_state =
  ug_source :: 'k
  ug_totalUsageMb :: "number option"
  ug_error :: "jsval option"

record 'k usage_hook =
  uh_source :: 'k
  uh_state :: "'k usage_state option"
  uh_effect :: nat
  uh_isInFlight :: bool
  uh_hasFailed :: bool

definition is_same_usage_source :: "'k usage_hook \<Rightarrow> bool" where
  "is_same_usage_source h \<longleftrightarrow> (case uh_state h of None \<Rightarrow> False | Some st \<Rightarrow> ug_source st = uh_source h)"

definition shown_usage :: "'k usage_hook \<Rightarrow> number option" where
  "shown_usage h = (if is_same_usage_source h then ug_totalUsageMb (the (uh_state h)) else None)"

definition usage_error :: "'k usage_hook \<Rightarrow> jsval option" where
  "usage_error h = (if is_same_usage_source h then ug_error (the (uh_state h)) else None)"

text \<open>Reading: a request for the source the effect captured, unless one is on its way or one failed. \<open>isCurrent\<close>
  is whether the session of the source is still the current one.\<close>

definition read_usage :: "bool \<Rightarrow> 'k usage_hook \<Rightarrow> 'k usage_hook \<times> (nat \<times> 'k) option" where
  "read_usage isCurrent h =
     (if uh_isInFlight h \<or> uh_hasFailed h \<or> \<not> isCurrent then (h, None)
      else (h\<lparr>uh_isInFlight := True\<rparr>, Some (uh_effect h, uh_source h)))"

definition refresh_usage_if_visible :: "bool \<Rightarrow> bool \<Rightarrow> 'k usage_hook \<Rightarrow> 'k usage_hook \<times> (nat \<times> 'k) option" where
  "refresh_usage_if_visible isVisible isCurrent h = (if isVisible then read_usage isCurrent h else (h, None))"

definition run_usage_effect :: "bool \<Rightarrow> 'k \<Rightarrow> 'k usage_hook \<Rightarrow> 'k usage_hook \<times> (nat \<times> 'k) option" where
  "run_usage_effect isCurrent source h = read_usage isCurrent
     (h\<lparr>uh_source := source, uh_effect := Suc (uh_effect h), uh_isInFlight := False, uh_hasFailed := False,
        uh_state := Some \<lparr>ug_source = source,
          ug_totalUsageMb = (case uh_state h of None \<Rightarrow> None
            | Some st \<Rightarrow> if ug_source st = source then ug_totalUsageMb st else None),
          ug_error = None\<rparr>\<rparr>)"

text \<open>A failure is its value and, when it is an answer of the API, its status.\<close>

definition settle_usage ::
    "bool \<Rightarrow> nat \<times> 'k \<Rightarrow> (jsval \<times> int option) + number \<Rightarrow> 'k usage_hook \<Rightarrow> 'k usage_hook" where
  "settle_usage isCurrent token answer h =
     (if fst token \<noteq> uh_effect h then h
      else if \<not> isCurrent then h\<lparr>uh_isInFlight := False\<rparr>
      else (case answer of
          Inr mb \<Rightarrow> h\<lparr>uh_state := Some \<lparr>ug_source = snd token, ug_totalUsageMb = Some mb, ug_error = None\<rparr>\<rparr>
        | Inl e \<Rightarrow> h\<lparr>uh_hasFailed := True, uh_state := Some \<lparr>ug_source = snd token,
            ug_totalUsageMb = (if snd e \<in> {Some 401, Some 403, Some 404} then None
              else case uh_state h of None \<Rightarrow> None | Some st \<Rightarrow> ug_totalUsageMb st),
            ug_error = Some (fst e)\<rparr>\<rparr>)\<lparr>uh_isInFlight := False\<rparr>)"

definition opened_usage :: "'k \<Rightarrow> 'k usage_hook" where
  "opened_usage source = \<lparr>uh_source = source, uh_state = None, uh_effect = 0, uh_isInFlight = False,
     uh_hasFailed = False\<rparr>"

section \<open>A saved configuration is not replaced by an older load\<close>

datatype 'c load_event = LoadAnswered bool "nat \<times> nat" "jsval + 'c"

primrec load_step :: "'c config_load \<Rightarrow> 'c load_event \<Rightarrow> 'c config_load" where
  "load_step h (LoadAnswered cur load a) = settle_config_load cur load a h"

primrec sent_by :: "nat \<Rightarrow> 'c load_event \<Rightarrow> bool" where
  "sent_by n (LoadAnswered cur load a) \<longleftrightarrow> snd load \<le> n"

lemma older_load_dropped:
  "snd load < rr_revision (cl_revision h) \<Longrightarrow> settle_config_load cur load a h = h"
  by (simp add: settle_config_load_def is_current_load_def is_current_revision_def)

lemma acknowledged_config_stays:
  assumes "list_all (sent_by (get_current (cl_revision h))) es"
  shows "foldl load_step (acknowledge_backup_config True c h) es = acknowledge_backup_config True c h"
proof -
  let ?h = "acknowledge_backup_config True c h"
  have "load_step ?h e = ?h" if "sent_by (get_current (cl_revision h)) e" for e
    using that by (cases e) (simp add: older_load_dropped acknowledge_backup_config_def get_current_def)
  with assms show ?thesis by (induction es) simp_all
qed

section \<open>Another storage is saved only after the warning\<close>

datatype 's section_event =
    SectionEffect | SectionLoaded nat "jsval + 's config_input option \<times> bool option"
  | EditDraft "'s config_input" | ClickSave | ConfirmSwitch | DeclineSwitch
  | SectionSaved bool "jsval + unit"

text \<open>A save, whether it was confirmed, and the section it was sent from.\<close>

record 's section_run =
  sr_section :: "'s config_section"
  sr_sent :: "('s config_input \<times> bool \<times> 's config_section) list"

definition send_section :: "bool \<Rightarrow> 's config_section \<times> 's config_input option \<Rightarrow> 's section_run \<Rightarrow> 's section_run" where
  "send_section confirmed r x = \<lparr>sr_section = fst r,
     sr_sent = sr_sent x @ (case snd r of None \<Rightarrow> [] | Some d \<Rightarrow> [(d, confirmed, sr_section x)])\<rparr>"

definition section_step ::
    "('s config_input \<Rightarrow> 's config_input \<Rightarrow> bool) \<Rightarrow> ('s config_input \<Rightarrow> bool) \<Rightarrow>
      's section_run \<Rightarrow> 's section_event \<Rightarrow> 's section_run" where
  "section_step isChanged isComplete x e = (let s = sr_section x; quiet = (\<lambda>s. x\<lparr>sr_section := s\<rparr>) in case e of
       SectionEffect \<Rightarrow> quiet (run_section_effect s)
     | SectionLoaded n a \<Rightarrow> quiet (settle_section_load n a s)
     | EditDraft d \<Rightarrow> if cs_draft s = None \<or> cs_isShowStorageSwitchWarning s then x else quiet (s\<lparr>cs_draft := Some d\<rparr>)
     | ClickSave \<Rightarrow> (case cs_draft s of
         None \<Rightarrow> x
       | Some d \<Rightarrow> if can_save_section isChanged isComplete s \<and> \<not> cs_isSaving s
               \<and> \<not> cs_isShowStorageSwitchWarning s \<and> cs_loadError s = None
           then send_section False (confirm_and_save_draft d s) x else x)
     | ConfirmSwitch \<Rightarrow> if cs_isShowStorageSwitchWarning s \<and> cs_draft s \<noteq> None \<and> cs_acknowledgedDraft s \<noteq> None
         then send_section True (confirm_switch s) x else x
     | DeclineSwitch \<Rightarrow> if cs_isShowStorageSwitchWarning s then quiet (decline_switch s) else x
     | SectionSaved cur a \<Rightarrow> if cs_isSaving s then quiet (settle_config_save cur a s) else x)"

definition warned_save :: "'s config_input \<times> bool \<times> 's config_section \<Rightarrow> bool" where
  "warned_save x = (case x of (d, confirmed, s) \<Rightarrow>
     (confirmed \<and> cs_isShowStorageSwitchWarning s \<or> \<not> needs_switch_warning d s) \<and> cs_draft s = Some d)"

lemma section_step_warned:
  "list_all warned_save (sr_sent x) \<Longrightarrow> list_all warned_save (sr_sent (section_step isChanged isComplete x e))"
  by (cases e) (auto simp: section_step_def send_section_def warned_save_def confirm_and_save_draft_def
      confirm_switch_def save_config_draft_def Let_def split: option.split)

interpretation warned: invariant_machine "section_step isChanged isComplete" "\<lambda>x. list_all warned_save (sr_sent x)"
  for isChanged isComplete
  by unfold_locales (rule section_step_warned)


section \<open>The space shown is of the storage shown\<close>

datatype 'k usage_event =
    UsageEffect bool 'k
  | UsageTick bool bool
  | UsageAnswered bool "nat \<times> 'k" "(jsval \<times> int option) + number"

text \<open>The hook, the requests on their way, and what was answered for which source.\<close>

record 'k usage_run =
  gr_hook :: "'k usage_hook"
  gr_pending :: "(nat \<times> 'k) list"
  gr_answers :: "('k \<times> number) list"

definition usage_sent :: "'k usage_hook \<times> (nat \<times> 'k) option \<Rightarrow> 'k usage_run \<Rightarrow> 'k usage_run" where
  "usage_sent r x = x\<lparr>gr_hook := fst r,
     gr_pending := gr_pending x @ (case snd r of None \<Rightarrow> [] | Some t \<Rightarrow> [t])\<rparr>"

primrec usage_step :: "'k usage_run \<Rightarrow> 'k usage_event \<Rightarrow> 'k usage_run" where
  "usage_step x (UsageEffect cur source) = usage_sent (run_usage_effect cur source (gr_hook x)) x"
| "usage_step x (UsageTick visible cur) = usage_sent (refresh_usage_if_visible visible cur (gr_hook x)) x"
| "usage_step x (UsageAnswered cur t a) = (if t \<notin> set (gr_pending x) then x
     else \<lparr>gr_hook = settle_usage cur t a (gr_hook x), gr_pending = remove1 t (gr_pending x),
           gr_answers = gr_answers x @ (case a of Inl e \<Rightarrow> [] | Inr mb \<Rightarrow> [(snd t, mb)])\<rparr>)"

definition of_effect :: "nat \<Rightarrow> (nat \<times> 'k) list \<Rightarrow> (nat \<times> 'k) list" where
  "of_effect n ts = filter (\<lambda>t. fst t = n) ts"

definition usage_inv :: "'k usage_run \<Rightarrow> bool" where
  "usage_inv x \<longleftrightarrow> (let h = gr_hook x in
     (\<forall>t\<in>set (gr_pending x). fst t \<le> uh_effect h \<and> (fst t = uh_effect h \<longrightarrow> snd t = uh_source h))
     \<and> length (of_effect (uh_effect h) (gr_pending x)) \<le> (if uh_isInFlight h then 1 else 0)
     \<and> (\<forall>st. uh_state h = Some st \<longrightarrow> ug_source st = uh_source h
         \<and> (\<forall>mb. ug_totalUsageMb st = Some mb \<longrightarrow> (ug_source st, mb) \<in> set (gr_answers x))))"

lemma of_effect_simps [simp]:
  "of_effect n [] = []" "of_effect n (ts @ us) = of_effect n ts @ of_effect n us"
  "of_effect n (t # ts) = (if fst t = n then t # of_effect n ts else of_effect n ts)"
  by (simp_all add: of_effect_def)

lemma of_effect_fresh: "\<forall>t\<in>set ts. fst t \<le> n \<Longrightarrow> of_effect (Suc n) ts = []"
  by (auto simp: of_effect_def filter_empty_conv)

lemma of_effect_remove1:
  "of_effect n (remove1 t ts) = remove1 t (of_effect n ts)"
  by (simp add: of_effect_def filter_remove1 [symmetric])

lemma in_set_remove1D: "y \<in> set (remove1 t ts) \<Longrightarrow> y \<in> set ts"
  by (rule subsetD [OF set_remove1_subset])

lemma in_of_effect [simp]: "t \<in> set (of_effect n ts) \<longleftrightarrow> fst t = n \<and> t \<in> set ts"
  by (auto simp: of_effect_def)

lemma read_usage_inv:
  "usage_inv x \<Longrightarrow> usage_inv (usage_sent (read_usage cur (gr_hook x)) x)"
  by (auto simp: usage_inv_def usage_sent_def read_usage_def Let_def)

lemma fresh_effect_inv:
  assumes "usage_inv x"
  shows "usage_inv (x\<lparr>gr_hook := (gr_hook x)\<lparr>uh_source := source, uh_effect := Suc (uh_effect (gr_hook x)),
      uh_isInFlight := False, uh_hasFailed := False,
      uh_state := Some \<lparr>ug_source = source,
        ug_totalUsageMb = (case uh_state (gr_hook x) of None \<Rightarrow> None
          | Some st \<Rightarrow> if ug_source st = source then ug_totalUsageMb st else None),
        ug_error = None\<rparr>\<rparr>\<rparr>)"
proof -
  from assms have "\<forall>t\<in>set (gr_pending x). fst t \<le> uh_effect (gr_hook x)"
    by (simp add: usage_inv_def Let_def)
  with assms of_effect_fresh [OF this] show ?thesis
    by (force simp: usage_inv_def Let_def split: option.splits if_splits)
qed

lemma usage_sent_frame: "usage_sent r (x\<lparr>gr_hook := h\<rparr>) = usage_sent r x"
  by (simp add: usage_sent_def)

lemma usage_effect_inv: "usage_inv x \<Longrightarrow> usage_inv (usage_sent (run_usage_effect cur source (gr_hook x)) x)"
  using read_usage_inv [OF fresh_effect_inv, of x cur source]
  by (simp add: usage_sent_frame run_usage_effect_def)

lemma usage_answered_inv:
  assumes "usage_inv x"
  shows "usage_inv (usage_step x (UsageAnswered cur t a))"
proof (cases "t \<in> set (gr_pending x)")
  case True
  show ?thesis
  proof (cases "fst t = uh_effect (gr_hook x)")
    case current: True
    from assms True current have src: "snd t = uh_source (gr_hook x)" by (auto simp: usage_inv_def Let_def)
    from True current have "t \<in> set (of_effect (uh_effect (gr_hook x)) (gr_pending x))" by simp
    moreover from assms have "length (of_effect (uh_effect (gr_hook x)) (gr_pending x)) \<le> 1"
      by (simp add: usage_inv_def Let_def split: if_splits)
    ultimately have none: "remove1 t (of_effect (uh_effect (gr_hook x)) (gr_pending x)) = []"
      by (cases "of_effect (uh_effect (gr_hook x)) (gr_pending x)") auto
    from assms True current src none show ?thesis
      by (cases "uh_state (gr_hook x)"; cases a)
        (auto simp: usage_inv_def settle_usage_def of_effect_remove1 Let_def  dest: in_set_remove1D split: if_splits)
  next
    case False
    with assms True show ?thesis
      by (auto simp: usage_inv_def settle_usage_def of_effect_remove1 remove1_idem Let_def split: if_splits
          dest: in_set_remove1D)
  qed
qed (use assms in simp)

lemma usage_step_inv: "usage_inv x \<Longrightarrow> usage_inv (usage_step x e)"
proof (cases e)
  case (UsageTick visible cur)
  assume "usage_inv x"
  moreover from this have "usage_inv (usage_sent (gr_hook x, None) x)" by (simp add: usage_sent_def)
  ultimately show ?thesis using read_usage_inv [of x cur] UsageTick
    by (simp add: refresh_usage_if_visible_def)
qed (simp_all only: usage_answered_inv usage_step.simps(1) usage_effect_inv)

interpretation usage: invariant_machine usage_step usage_inv
  by unfold_locales (rule usage_step_inv)

definition opened_usage_run :: "'k \<Rightarrow> 'k usage_run" where
  "opened_usage_run source = \<lparr>gr_hook = opened_usage source, gr_pending = [], gr_answers = []\<rparr>"

lemma opened_usage_inv: "usage_inv (opened_usage_run source)"
  by (simp add: usage_inv_def opened_usage_run_def opened_usage_def)

lemma one_usage_request_at_a_time:
  "(let x = foldl usage_step (opened_usage_run source) es
    in length (of_effect (uh_effect (gr_hook x)) (gr_pending x)) \<le> 1)"
  using usage.run_inv [OF opened_usage_inv, of source es] by (auto simp: usage_inv_def Let_def split: if_splits)

lemma usage_shown_is_of_its_storage:
  "(let x = foldl usage_step (opened_usage_run source) es
    in set_option (map_option (Pair (uh_source (gr_hook x))) (shown_usage (gr_hook x))) \<subseteq> set (gr_answers x))"
  using usage.run_inv [OF opened_usage_inv, of source es]
  by (auto simp: usage_inv_def Let_def shown_usage_def is_same_usage_source_def split: option.splits if_splits)

section \<open>A cleanup is read again until nothing is left\<close>

lemma cleanup_of_another_source_is_not_shown:
  "effect = ch_effect h \<Longrightarrow> source \<noteq> ch_source h \<Longrightarrow>
    shown_cleanup (settle_cleanup True effect source c a h) = snd (ch_source h)"
  by (simp add: shown_cleanup_def is_same_cleanup_source_def settle_cleanup_def split: sum.split)

lemma failed_cleanup_waits_for_a_retry:
  assumes "effect = ch_effect h"
  shows "snd (run_cleanup_effect cur (settle_cleanup True effect (ch_source h) c (Inl e) h)) = None"
  using assms by (simp add: run_cleanup_effect_def settle_cleanup_def cleanup_error_def is_same_cleanup_source_def)

lemma retried_cleanup_reads_at_once:
  "snd (run_cleanup_effect True (retry_cleanup h)) =
    (if nullish (map_option snd (shown_cleanup h)) 0 = 0 then None else Some 0)"
  by (simp add: run_cleanup_effect_def retry_cleanup_def cleanup_error_def is_same_cleanup_source_def
      shown_cleanup_def reads_immediately_def)

end
