(* ===== verification/Storage_Screen.thy ===== *)
theory Storage_Screen
  imports Resources Api_Errors
begin

text \<open>
  The screen of one storage (\<open>pages/storages/ui/StorageComponent.tsx\<close>): its load, the test of its connection,
  its name, its settings, and its removal with the warning about files still to be removed. Requests are cut at
  their \<open>await\<close>; a request in flight is what the rest of the function captured. A storage's settings are a
  parameter type; the editor of the settings reports what it saved.
\<close>

record 'x saved_resource =
  sv_id :: string
  sv_name :: string
  sv_workspaceId :: string
  sv_settings :: 'x

section \<open>The state\<close>

record 'x storage_screen =
  ss_storageId :: string
  ss_error :: "thrown option"
  ss_connectionError :: "string option"
  ss_isDeleteBlocked :: bool
  ss_storage :: "'x saved_resource option"
  ss_isEditName :: bool
  ss_isEditSettings :: bool
  ss_editStorage :: "'x saved_resource option"
  ss_isSaving :: bool
  ss_isTestingConnection :: bool
  ss_isShowRemoveConfirm :: bool
  ss_isRemoving :: bool
  ss_isShowCleanupWarning :: bool
  ss_isShowTransferDialog :: bool
  ss_contextRevision :: request_revision
  ss_savedTestRevision :: request_revision
  ss_isCurrent :: bool
  ss_changes :: "'x saved_resource list"
  ss_deletions :: nat
  ss_transfers :: nat
  ss_unavailable :: nat
  ss_succeededTests :: nat

definition opened_storage :: "string \<Rightarrow> 'x storage_screen" where
  "opened_storage storageId = \<lparr>ss_storageId = storageId, ss_error = None, ss_connectionError = None,
     ss_isDeleteBlocked = False, ss_storage = None, ss_isEditName = False, ss_isEditSettings = False,
     ss_editStorage = None, ss_isSaving = False, ss_isTestingConnection = False, ss_isShowRemoveConfirm = False,
     ss_isRemoving = False, ss_isShowCleanupWarning = False, ss_isShowTransferDialog = False,
     ss_contextRevision = new_revision, ss_savedTestRevision = new_revision, ss_isCurrent = True,
     ss_changes = [], ss_deletions = 0, ss_transfers = 0, ss_unavailable = 0, ss_succeededTests = 0\<rparr>"

text \<open>What is on its way, with the revisions it captured.\<close>

datatype 'x storage_request =
    LoadStorage nat
  | TestStorage nat nat string
  | DeleteStorage nat string bool
  | RenameStorage nat string string 'x

definition has_code :: "string \<Rightarrow> thrown \<Rightarrow> bool" where
  "has_code code e = (case e of ApiFailure a \<Rightarrow> ae_code a = Some code | OtherError \<Rightarrow> False)"

definition is_gone :: "thrown \<Rightarrow> bool" where
  "is_gone e = (case e of ApiFailure a \<Rightarrow> nullish (ae_status a) 0 \<in> {403, 404} | OtherError \<Rightarrow> False)"

definition storage_in_use_code :: string where "storage_in_use_code = ''in_use''"

section \<open>Testing the connection\<close>

definition test_connection :: "'x storage_screen \<Rightarrow> 'x storage_screen \<times> 'x storage_request option" where
  "test_connection s = (case ss_storage s of
       None \<Rightarrow> (s, None)
     | Some storage \<Rightarrow>
         if \<not> ss_isCurrent s \<or> ss_isTestingConnection s then (s, None)
         else (let (testRevision, r) = invalidate (ss_savedTestRevision s)
           in (s\<lparr>ss_savedTestRevision := r, ss_error := None, ss_connectionError := None,
                 ss_isDeleteBlocked := False, ss_isTestingConnection := True\<rparr>,
               Some (TestStorage (get_current (ss_contextRevision s)) testRevision (sv_id storage)))))"

text \<open>An answer: whether it connected, and the error it may name.\<close>

definition settle_storage_test ::
    "nat \<Rightarrow> nat \<Rightarrow> thrown + bool \<times> string option \<Rightarrow> 'x storage_screen \<Rightarrow> 'x storage_screen" where
  "settle_storage_test revision testRevision answer s =
     (if \<not> (ss_isCurrent s \<and> is_current_revision (ss_contextRevision s) revision
             \<and> is_current_revision (ss_savedTestRevision s) testRevision) then s
      else (case answer of
          Inr (isConnected, e) \<Rightarrow>
            if isConnected then s\<lparr>ss_succeededTests := Suc (ss_succeededTests s)\<rparr>
            else s\<lparr>ss_connectionError := Some (nullish e [])\<rparr>
        | Inl e \<Rightarrow> s\<lparr>ss_error := Some e\<rparr>)\<lparr>ss_isTestingConnection := False\<rparr>)"

section \<open>Removing the storage\<close>

definition remove_storage ::
    "bool \<Rightarrow> bool \<Rightarrow> 'x storage_screen \<Rightarrow> 'x storage_screen \<times> 'x storage_request option" where
  "remove_storage isCanManageStorages shouldAbandonCleanup s = (case ss_storage s of
       None \<Rightarrow> (s, None)
     | Some storage \<Rightarrow>
         if \<not> ss_isCurrent s \<or> ss_isRemoving s \<or> \<not> isCanManageStorages then (s, None)
         else (s\<lparr>ss_error := None, ss_connectionError := None, ss_isDeleteBlocked := False,
                 ss_isRemoving := True\<rparr>,
               Some (DeleteStorage (get_current (ss_contextRevision s)) (sv_id storage) shouldAbandonCleanup)))"

definition settle_removal :: "nat \<Rightarrow> thrown + unit \<Rightarrow> 'x storage_screen \<Rightarrow> 'x storage_screen" where
  "settle_removal revision answer s =
     (if \<not> (ss_isCurrent s \<and> is_current_revision (ss_contextRevision s) revision) then s
      else (case answer of
          Inr _ \<Rightarrow> s\<lparr>ss_deletions := Suc (ss_deletions s)\<rparr>
        | Inl e \<Rightarrow> (let s1 = s\<lparr>ss_isShowRemoveConfirm := False\<rparr>
            in if has_code ''cleanup_pending'' e then s1\<lparr>ss_isShowCleanupWarning := True\<rparr>
               else if has_code storage_in_use_code e then s1\<lparr>ss_isDeleteBlocked := True\<rparr>
               else s1\<lparr>ss_error := Some e\<rparr>))\<lparr>ss_isRemoving := False\<rparr>)"

section \<open>Editing\<close>

definition start_edit_storage :: "bool \<Rightarrow> 'x storage_screen \<Rightarrow> 'x storage_screen" where
  "start_edit_storage isSettings s =
     (if ss_isEditName s \<or> ss_isEditSettings s \<or> ss_isSaving s then s
      else (let s1 = (if isSettings
              then s\<lparr>ss_savedTestRevision := snd (invalidate (ss_savedTestRevision s)),
                     ss_isTestingConnection := False, ss_error := None, ss_connectionError := None\<rparr>
              else s)
            in s1\<lparr>ss_editStorage := ss_storage s, ss_isEditName := \<not> isSettings, ss_isEditSettings := isSettings\<rparr>))"

definition type_storage_name :: "string \<Rightarrow> 'x storage_screen \<Rightarrow> 'x storage_screen" where
  "type_storage_name name s = (case ss_editStorage s of
       None \<Rightarrow> s | Some e \<Rightarrow> s\<lparr>ss_editStorage := Some (e\<lparr>sv_name := name\<rparr>)\<rparr>)"

definition cancel_name :: "'x storage_screen \<Rightarrow> 'x storage_screen" where
  "cancel_name s = s\<lparr>ss_isEditName := False, ss_editStorage := None\<rparr>"

definition save_storage_name :: "'x storage_screen \<Rightarrow> 'x storage_screen \<times> 'x storage_request option" where
  "save_storage_name s = (let s1 = s\<lparr>ss_error := None, ss_connectionError := None, ss_isDeleteBlocked := False\<rparr>
     in case ss_editStorage s1 of
       None \<Rightarrow> (s1, None)
     | Some e \<Rightarrow>
         if ss_isSaving s1 \<or> \<not> ss_isCurrent s1 then (s1, None)
         else (s1\<lparr>ss_isSaving := True\<rparr>,
               Some (RenameStorage (get_current (ss_contextRevision s)) (sv_id e) (sv_name e) (sv_settings e))))"

definition is_newer_name :: "string \<Rightarrow> string \<Rightarrow> string option \<Rightarrow> bool" where
  "is_newer_name submittedName savedName currentName \<longleftrightarrow>
     currentName \<noteq> Some submittedName \<and> currentName \<noteq> Some savedName"

definition settle_storage_name ::
    "nat \<Rightarrow> string \<Rightarrow> thrown + 'x saved_resource \<Rightarrow> 'x storage_screen \<Rightarrow> 'x storage_screen" where
  "settle_storage_name revision submittedName answer s =
     (if \<not> (ss_isCurrent s \<and> is_current_revision (ss_contextRevision s) revision) then s
      else (case answer of
          Inr renamed \<Rightarrow> (let s1 = s\<lparr>ss_storage := Some renamed\<rparr>;
              s2 = (if is_newer_name submittedName (sv_name renamed) (map_option sv_name (ss_editStorage s)) then s1
                    else s1\<lparr>ss_editStorage := Some renamed, ss_isEditName := False\<rparr>)
            in s2\<lparr>ss_changes := ss_changes s @ [renamed]\<rparr>)
        | Inl e \<Rightarrow> s\<lparr>ss_error := Some e\<rparr>)\<lparr>ss_isSaving := False\<rparr>)"

definition acknowledge_storage :: "'x saved_resource \<Rightarrow> 'x storage_screen \<Rightarrow> 'x storage_screen" where
  "acknowledge_storage saved s = s\<lparr>ss_savedTestRevision := snd (invalidate (ss_savedTestRevision s)),
     ss_storage := Some saved, ss_changes := ss_changes s @ [saved]\<rparr>"

section \<open>Loading\<close>

definition load_storage :: "'x storage_screen \<Rightarrow> 'x storage_screen \<times> 'x storage_request option" where
  "load_storage s = (let (revision, r) = invalidate (ss_contextRevision s)
     in (s\<lparr>ss_contextRevision := r, ss_savedTestRevision := snd (invalidate (ss_savedTestRevision s)),
           ss_isTestingConnection := False, ss_isSaving := False, ss_isRemoving := False, ss_error := None,
           ss_connectionError := None, ss_storage := None, ss_editStorage := None\<rparr>,
         Some (LoadStorage revision)))"

definition settle_storage_load :: "nat \<Rightarrow> thrown + 'x saved_resource \<Rightarrow> 'x storage_screen \<Rightarrow> 'x storage_screen" where
  "settle_storage_load revision answer s =
     (if \<not> (ss_isCurrent s \<and> is_current_revision (ss_contextRevision s) revision) then s
      else case answer of
        Inr loaded \<Rightarrow> s\<lparr>ss_storage := Some loaded\<rparr>
      | Inl e \<Rightarrow> s\<lparr>ss_error := Some e,
          ss_unavailable := (if is_gone e then Suc (ss_unavailable s) else ss_unavailable s)\<rparr>)"

text \<open>The effect on mount and when the session changed, after the cleanup of the one before.\<close>

definition run_storage_effect :: "'x storage_screen \<Rightarrow> 'x storage_screen \<times> 'x storage_request option" where
  "run_storage_effect s = load_storage (s\<lparr>ss_contextRevision := snd (invalidate (ss_contextRevision s)),
     ss_isEditName := False, ss_isEditSettings := False, ss_isShowTransferDialog := False,
     ss_isShowRemoveConfirm := False, ss_isShowCleanupWarning := False\<rparr>)"

definition close_settings :: "'x storage_screen \<Rightarrow> 'x storage_screen \<times> 'x storage_request option" where
  "close_settings s = load_storage (s\<lparr>ss_isEditSettings := False, ss_editStorage := None\<rparr>)"

definition is_name_unsaved :: "'x storage_screen \<Rightarrow> bool" where
  "is_name_unsaved s \<longleftrightarrow> ss_isEditName s \<and> map_option sv_name (ss_editStorage s) \<noteq> map_option sv_name (ss_storage s)"

section \<open>What a user can do\<close>

datatype 'x storage_event =
    SessionEnds | SessionEffect
  | ClickTest | ClickEditName | ClickEditSettings | TypeName string | CancelName | ClickSaveName
  | SettingsSaved "'x saved_resource" | SettingsClosed
  | ClickRemove | ConfirmRemove | DeclineRemove | WaitForCleanup | DeleteAnyway
  | ClickTransfer | TransferClosed | TransferDone | RetryStorageLoad

text \<open>A control acts where it is shown and enabled.\<close>

definition storage_control ::
    "bool \<Rightarrow> 'x storage_event \<Rightarrow> 'x storage_screen \<Rightarrow> 'x storage_screen \<times> 'x storage_request option" where
  "storage_control can e s = (let shown = ss_storage s \<noteq> None; quiet = (\<lambda>s. (s, None)) in case e of
       SessionEnds \<Rightarrow> quiet (s\<lparr>ss_isCurrent := False\<rparr>)
     | SessionEffect \<Rightarrow> if ss_isCurrent s then quiet s else run_storage_effect s
     | ClickTest \<Rightarrow> if shown \<and> \<not> ss_isEditSettings s then test_connection s else quiet s
     | ClickEditName \<Rightarrow> if shown \<and> can then quiet (start_edit_storage False s) else quiet s
     | ClickEditSettings \<Rightarrow> if shown \<and> can then quiet (start_edit_storage True s) else quiet s
     | TypeName name \<Rightarrow> if shown \<and> ss_isEditName s then quiet (type_storage_name name s) else quiet s
     | CancelName \<Rightarrow> if shown \<and> ss_isEditName s then quiet (cancel_name s) else quiet s
     | ClickSaveName \<Rightarrow> if shown \<and> is_name_unsaved s \<and> truthy (map_option sv_name (ss_editStorage s))
         then save_storage_name s else quiet s
     | SettingsSaved saved \<Rightarrow> if shown \<and> ss_isEditSettings s \<and> can then quiet (acknowledge_storage saved s) else quiet s
     | SettingsClosed \<Rightarrow> if shown \<and> ss_isEditSettings s \<and> can then close_settings s else quiet s
     | ClickRemove \<Rightarrow> if shown \<and> \<not> ss_isEditSettings s \<and> can \<and> \<not> ss_isRemoving s
         then quiet (s\<lparr>ss_isShowRemoveConfirm := True\<rparr>) else quiet s
     | ConfirmRemove \<Rightarrow> if ss_isShowRemoveConfirm s then remove_storage can False s else quiet s
     | DeclineRemove \<Rightarrow> quiet (s\<lparr>ss_isShowRemoveConfirm := False\<rparr>)
     | WaitForCleanup \<Rightarrow> if ss_isRemoving s then quiet s else quiet (s\<lparr>ss_isShowCleanupWarning := False\<rparr>)
     | DeleteAnyway \<Rightarrow> if ss_isShowCleanupWarning s \<and> \<not> ss_isRemoving s then remove_storage can True s else quiet s
     | ClickTransfer \<Rightarrow> if shown \<and> \<not> ss_isEditSettings s \<and> can then quiet (s\<lparr>ss_isShowTransferDialog := True\<rparr>)
         else quiet s
     | TransferClosed \<Rightarrow> quiet (s\<lparr>ss_isShowTransferDialog := False\<rparr>)
     | TransferDone \<Rightarrow> if ss_isShowTransferDialog s \<and> shown
         then quiet (s\<lparr>ss_isShowTransferDialog := False, ss_transfers := Suc (ss_transfers s)\<rparr>) else quiet s
     | RetryStorageLoad \<Rightarrow> if ss_error s \<noteq> None \<and> \<not> shown then load_storage s else quiet s)"

datatype 'x storage_answer =
    LoadedStorage "thrown + 'x saved_resource"
  | TestedStorage "thrown + bool \<times> string option"
  | DeletedStorage "thrown + unit"
  | RenamedStorage "thrown + 'x saved_resource"

definition settle_storage_request ::
    "'x storage_request \<Rightarrow> 'x storage_answer \<Rightarrow> 'x storage_screen \<Rightarrow> 'x storage_screen" where
  "settle_storage_request q answer s = (case (q, answer) of
       (LoadStorage n, LoadedStorage a) \<Rightarrow> settle_storage_load n a s
     | (TestStorage n m i, TestedStorage a) \<Rightarrow> settle_storage_test n m a s
     | (DeleteStorage n i b, DeletedStorage a) \<Rightarrow> settle_removal n a s
     | (RenameStorage n i name x, RenamedStorage a) \<Rightarrow> settle_storage_name n name a s
     | _ \<Rightarrow> s)"

fun answers_storage :: "'x storage_request \<Rightarrow> 'x storage_answer \<Rightarrow> bool" where
  "answers_storage (LoadStorage n) (LoadedStorage a) = True"
| "answers_storage (TestStorage n m i) (TestedStorage a) = True"
| "answers_storage (DeleteStorage n i b) (DeletedStorage a) = True"
| "answers_storage (RenameStorage n i name x) (RenamedStorage a) = True"
| "answers_storage _ _ = False"

section \<open>Requests and the flags that show them\<close>

text \<open>
  The kind of a request on its way with the revisions it captured; one without a flag is \<open>Unflagged\<close>. The
  requests of a kind whose answers still count are at most one, and while the session lasts the screen shows
  the kind's flag exactly while there is one. The settings are not edited while a test is shown.
\<close>

datatype request_kind = Unflagged | Testing | Removing | Saving

definition counted :: "('q \<Rightarrow> request_kind \<times> nat \<times> nat) \<Rightarrow> request_kind \<Rightarrow> nat \<Rightarrow> nat \<Rightarrow> 'q list \<Rightarrow> nat" where
  "counted tk k c t ps = length (filter (\<lambda>q. tk q = (k, c, t)) ps)"

definition shown_by :: "bool \<Rightarrow> bool \<Rightarrow> nat \<Rightarrow> bool" where
  "shown_by cur flag n \<longleftrightarrow> n \<le> of_bool flag \<and> (cur \<longrightarrow> of_bool flag \<le> n)"

definition flags_shown ::
    "('q \<Rightarrow> request_kind \<times> nat \<times> nat) \<Rightarrow> nat \<Rightarrow> nat \<Rightarrow> bool \<Rightarrow> bool \<Rightarrow> bool \<Rightarrow> bool \<Rightarrow> bool \<Rightarrow> 'q list \<Rightarrow> bool" where
  "flags_shown tk c t cur testing removing saving editing ps \<longleftrightarrow>
     (\<forall>q\<in>set ps. fst (snd (tk q)) \<le> c \<and> (fst (tk q) = Testing \<longrightarrow> snd (snd (tk q)) \<le> t))
     \<and> shown_by cur testing (counted tk Testing c t ps)
     \<and> shown_by cur removing (counted tk Removing c 0 ps)
     \<and> shown_by cur saving (counted tk Saving c 0 ps)
     \<and> (editing \<longrightarrow> \<not> testing)"

lemma counted_append [simp]:
  "counted tk k c t [] = 0"
  "counted tk k c t (ps @ qs) = counted tk k c t ps + counted tk k c t qs"
  "counted tk k c t [q] = of_bool (tk q = (k, c, t))"
  by (simp_all add: counted_def)

lemma counted_remove1:
  "q \<in> set ps \<Longrightarrow> counted tk k c t (remove1 q ps) = counted tk k c t ps - of_bool (tk q = (k, c, t))"
  by (auto simp: counted_def filter_remove1 length_remove1)

lemma counted_pos: "q \<in> set ps \<Longrightarrow> tk q = (k, c, t) \<Longrightarrow> 0 < counted tk k c t ps"
  by (auto simp: counted_def filter_empty_conv)

lemma no_later_context: "\<forall>q\<in>set ps. fst (snd (tk q)) \<le> c \<Longrightarrow> c < c' \<Longrightarrow> counted tk k c' t ps = 0"
  by (force simp: counted_def filter_empty_conv)

lemma no_later_test:
  "\<forall>q\<in>set ps. fst (tk q) = Testing \<longrightarrow> snd (snd (tk q)) \<le> t \<Longrightarrow> t < t' \<Longrightarrow> counted tk Testing c t' ps = 0"
  by (force simp: counted_def filter_empty_conv)

lemma shown_by_simps [simp]: "shown_by cur False 0" "shown_by cur True (Suc 0)" "shown_by cur False n \<longleftrightarrow> n = 0"
  by (auto simp: shown_by_def)

lemma flags_shown_load:
  assumes "flags_shown tk c t cur te re sa ed ps" "tk q = (Unflagged, c', 0)" "c < c'" "t \<le> t'"
  shows "flags_shown tk c' t' cur2 False False False ed2 (ps @ [q])"
  using assms no_later_context [of ps tk c c'] by (fastforce simp: flags_shown_def)

lemma flags_shown_test:
  assumes "flags_shown tk c t cur False re sa False ps" "tk q = (Testing, c, Suc t)"
  shows "flags_shown tk c (Suc t) cur True re sa False (ps @ [q])"
  using assms no_later_test [of ps tk t "Suc t"] by (fastforce simp: flags_shown_def)

lemma flags_shown_removal:
  assumes "flags_shown tk c t cur te False sa ed ps" "tk q = (Removing, c, 0)"
  shows "flags_shown tk c t cur te True sa ed (ps @ [q])"
  using assms by (auto simp: flags_shown_def)

lemma flags_shown_unflagged:
  assumes "flags_shown tk c t cur te re sa ed ps" "tk q = (Unflagged, c, 0)"
  shows "flags_shown tk c t cur te re sa ed (ps @ [q])"
  using assms by (auto simp: flags_shown_def)

lemma flags_shown_save:
  assumes "flags_shown tk c t cur te re False ed ps" "tk q = (Saving, c, 0)"
  shows "flags_shown tk c t cur te re True ed (ps @ [q])"
  using assms by (auto simp: flags_shown_def)

lemma flags_shown_edit:
  assumes "flags_shown tk c t cur te re sa ed ps"
  shows "flags_shown tk c (Suc t) cur False re sa ed2 ps"
  using assms no_later_test [of ps tk t "Suc t"] by (fastforce simp: flags_shown_def)

lemma flags_shown_acknowledge:
  assumes "flags_shown tk c t cur te re sa True ps"
  shows "flags_shown tk c (Suc t) cur te re sa True ps"
  using assms no_later_test [of ps tk t "Suc t"] by (fastforce simp: flags_shown_def)

lemma flags_shown_close: "flags_shown tk c t cur te re sa ed ps \<Longrightarrow> flags_shown tk c t cur te re sa False ps"
  by (simp add: flags_shown_def)

lemma flags_shown_end: "flags_shown tk c t cur te re sa ed ps \<Longrightarrow> flags_shown tk c t False te re sa ed ps"
  by (simp add: flags_shown_def shown_by_def)

lemma flags_shown_answer:
  assumes "flags_shown tk c t cur te re sa ed ps" "q \<in> set ps"
    and "te2 \<longleftrightarrow> te \<and> \<not> (cur \<and> tk q = (Testing, c, t))"
    and "re2 \<longleftrightarrow> re \<and> \<not> (cur \<and> tk q = (Removing, c, 0))"
    and "sa2 \<longleftrightarrow> sa \<and> \<not> (cur \<and> tk q = (Saving, c, 0))"
  shows "flags_shown tk c t cur te2 re2 sa2 ed (remove1 q ps)"
proof -
  have shown: "shown_by cur (f \<and> \<not> (cur \<and> tk q = (k, c, m))) (counted tk k c m (remove1 q ps))"
    if "shown_by cur f (counted tk k c m ps)" for f k m
    using that counted_pos [OF assms(2), of tk k c m]
    by (auto simp: shown_by_def counted_remove1 [OF assms(2)] split: if_splits)
  show ?thesis
    using assms shown by (auto simp: flags_shown_def dest: set_mp [OF set_remove1_subset])
qed


section \<open>The storage's requests\<close>

primrec storage_token :: "'x storage_request \<Rightarrow> request_kind \<times> nat \<times> nat" where
  "storage_token (LoadStorage n) = (Unflagged, n, 0)"
| "storage_token (TestStorage n m i) = (Testing, n, m)"
| "storage_token (DeleteStorage n i b) = (Removing, n, 0)"
| "storage_token (RenameStorage n i name x) = (Saving, n, 0)"

text \<open>The screen, the requests on their way, what was sent with the screen it was sent from, and whether a
  removal was refused since files were still to be removed.\<close>

record 'x storage_run =
  sg_screen :: "'x storage_screen"
  sg_pending :: "'x storage_request list"
  sg_sent :: "('x storage_request \<times> 'x storage_screen \<times> bool) list"
  sg_wasRefused :: bool

definition storage_sent ::
    "'x storage_screen \<times> 'x storage_request option \<Rightarrow> 'x storage_run \<Rightarrow> 'x storage_run" where
  "storage_sent r x = x\<lparr>sg_screen := fst r,
     sg_pending := sg_pending x @ (case snd r of None \<Rightarrow> [] | Some q \<Rightarrow> [q]),
     sg_sent := sg_sent x @ (case snd r of None \<Rightarrow> [] | Some q \<Rightarrow> [(q, sg_screen x, sg_wasRefused x)])\<rparr>"

definition refuses_for_cleanup :: "'x storage_answer \<Rightarrow> bool" where
  "refuses_for_cleanup a = (case a of DeletedStorage (Inl e) \<Rightarrow> has_code ''cleanup_pending'' e | _ \<Rightarrow> False)"

datatype 'x storage_run_event = Control "'x storage_event" | Answer "'x storage_request" "'x storage_answer"

primrec storage_run_step :: "bool \<Rightarrow> 'x storage_run \<Rightarrow> 'x storage_run_event \<Rightarrow> 'x storage_run" where
  "storage_run_step can x (Control e) = storage_sent (storage_control can e (sg_screen x)) x"
| "storage_run_step can x (Answer q a) = (if q \<notin> set (sg_pending x) \<or> \<not> answers_storage q a then x
     else x\<lparr>sg_screen := settle_storage_request q a (sg_screen x), sg_pending := remove1 q (sg_pending x),
            sg_wasRefused := sg_wasRefused x \<or> refuses_for_cleanup a\<rparr>)"

definition opened_storage_run :: "string \<Rightarrow> 'x storage_run" where
  "opened_storage_run storageId = storage_sent (run_storage_effect (opened_storage storageId))
     \<lparr>sg_screen = opened_storage storageId, sg_pending = [], sg_sent = [], sg_wasRefused = False\<rparr>"

definition screen_flags :: "'x storage_screen \<Rightarrow> 'x storage_request list \<Rightarrow> bool" where
  "screen_flags s ps = flags_shown storage_token (rr_revision (ss_contextRevision s)) (rr_revision (ss_savedTestRevision s))
     (ss_isCurrent s) (ss_isTestingConnection s) (ss_isRemoving s) (ss_isSaving s) (ss_isEditSettings s) ps"

definition storage_flags :: "'x storage_run \<Rightarrow> bool" where
  "storage_flags x = screen_flags (sg_screen x) (sg_pending x)"

lemmas storage_controls = test_connection_def remove_storage_def start_edit_storage_def type_storage_name_def
  cancel_name_def save_storage_name_def acknowledge_storage_def load_storage_def run_storage_effect_def
  close_settings_def

lemma screen_flags_control:
  "screen_flags s ps \<Longrightarrow> screen_flags (fst (storage_control can e s))
     (ps @ (case snd (storage_control can e s) of None \<Rightarrow> [] | Some q \<Rightarrow> [q]))"
proof (cases e)
  case ClickTest
  then show "screen_flags s ps \<Longrightarrow> ?thesis"
    by (auto simp: storage_control_def storage_controls Let_def screen_flags_def split_beta get_current_def
        intro!: flags_shown_test split: option.split)
next
  case ClickEditSettings
  then show "screen_flags s ps \<Longrightarrow> ?thesis"
    by (auto simp: storage_control_def storage_controls Let_def screen_flags_def intro: flags_shown_edit)
next
  case (SettingsSaved saved)
  then show "screen_flags s ps \<Longrightarrow> ?thesis"
    by (auto simp: storage_control_def storage_controls Let_def screen_flags_def intro: flags_shown_acknowledge)
next
  case SettingsClosed
  then show "screen_flags s ps \<Longrightarrow> ?thesis"
    by (auto simp: storage_control_def storage_controls Let_def screen_flags_def split_beta
        intro!: flags_shown_load)
next
  case SessionEffect
  then show "screen_flags s ps \<Longrightarrow> ?thesis"
    by (auto simp: storage_control_def storage_controls Let_def screen_flags_def split_beta
        intro!: flags_shown_load)
next
  case RetryStorageLoad
  then show "screen_flags s ps \<Longrightarrow> ?thesis"
    by (auto simp: storage_control_def storage_controls Let_def screen_flags_def split_beta
        intro!: flags_shown_load)
next
  case ConfirmRemove
  then show "screen_flags s ps \<Longrightarrow> ?thesis"
    by (auto simp: storage_control_def storage_controls Let_def screen_flags_def split_beta get_current_def
        intro!: flags_shown_removal split: option.split)
next
  case DeleteAnyway
  then show "screen_flags s ps \<Longrightarrow> ?thesis"
    by (auto simp: storage_control_def storage_controls Let_def screen_flags_def split_beta get_current_def
        intro!: flags_shown_removal split: option.split)
next
  case ClickSaveName
  then show "screen_flags s ps \<Longrightarrow> ?thesis"
    by (auto simp: storage_control_def storage_controls Let_def screen_flags_def split_beta get_current_def
        intro!: flags_shown_save split: option.split)
next
  case SessionEnds
  then show "screen_flags s ps \<Longrightarrow> ?thesis"
    by (auto simp: storage_control_def Let_def screen_flags_def intro: flags_shown_end)
next
  case ClickEditName
  then show "screen_flags s ps \<Longrightarrow> ?thesis"
    by (auto simp: storage_control_def storage_controls Let_def screen_flags_def)
next
  case (TypeName name)
  then show "screen_flags s ps \<Longrightarrow> ?thesis"
    by (auto simp: storage_control_def storage_controls Let_def screen_flags_def split: option.split)
qed (auto simp: storage_control_def storage_controls Let_def screen_flags_def)


lemmas storage_settles = settle_storage_test_def settle_removal_def settle_storage_name_def settle_storage_load_def

lemma settle_storage_frame:
  "ss_contextRevision (settle_storage_request q a s) = ss_contextRevision s"
  "ss_savedTestRevision (settle_storage_request q a s) = ss_savedTestRevision s"
  "ss_isCurrent (settle_storage_request q a s) = ss_isCurrent s"
  "ss_isEditSettings (settle_storage_request q a s) = ss_isEditSettings s"
  by (cases q; cases a; auto simp: settle_storage_request_def storage_settles Let_def split: sum.split)+

lemma settle_storage_flags:
  assumes "answers_storage q a"
  shows "ss_isTestingConnection (settle_storage_request q a s) \<longleftrightarrow> ss_isTestingConnection s \<and> \<not> (ss_isCurrent s
      \<and> storage_token q = (Testing, rr_revision (ss_contextRevision s), rr_revision (ss_savedTestRevision s)))"
    and "ss_isRemoving (settle_storage_request q a s) \<longleftrightarrow> ss_isRemoving s \<and> \<not> (ss_isCurrent s
      \<and> storage_token q = (Removing, rr_revision (ss_contextRevision s), 0))"
    and "ss_isSaving (settle_storage_request q a s) \<longleftrightarrow> ss_isSaving s \<and> \<not> (ss_isCurrent s
      \<and> storage_token q = (Saving, rr_revision (ss_contextRevision s), 0))"
  using assms
  by (cases q; cases a; auto simp: settle_storage_request_def storage_settles Let_def is_current_revision_def
      split: sum.split)+

lemma screen_flags_answer:
  assumes "screen_flags s ps" "q \<in> set ps" "answers_storage q a"
  shows "screen_flags (settle_storage_request q a s) (remove1 q ps)"
  using flags_shown_answer [OF assms(1) [unfolded screen_flags_def] assms(2) settle_storage_flags [OF assms(3)]]
  by (simp only: screen_flags_def settle_storage_frame)

lemma storage_flags_step: "storage_flags x \<Longrightarrow> storage_flags (storage_run_step can x e)"
  by (cases e) (simp_all add: storage_flags_def storage_sent_def screen_flags_control screen_flags_answer)

interpretation storage_flags: invariant_machine "storage_run_step can" storage_flags for can
  by unfold_locales (rule storage_flags_step)

lemma opened_storage_flags: "storage_flags (opened_storage_run i)"
  by (simp add: storage_flags_def storage_sent_def opened_storage_run_def run_storage_effect_def load_storage_def
      Let_def split_beta opened_storage_def screen_flags_def flags_shown_def new_revision_def)

definition requests_now :: "request_kind \<Rightarrow> 'x storage_run \<Rightarrow> nat" where
  "requests_now k x = counted storage_token k (rr_revision (ss_contextRevision (sg_screen x)))
     (if k = Testing then rr_revision (ss_savedTestRevision (sg_screen x)) else 0) (sg_pending x)"

lemma storage_flags_show_requests:
  "(let x = foldl (storage_run_step can) (opened_storage_run i) es; s = sg_screen x in
     shown_by (ss_isCurrent s) (ss_isTestingConnection s) (requests_now Testing x)
     \<and> shown_by (ss_isCurrent s) (ss_isRemoving s) (requests_now Removing x)
     \<and> shown_by (ss_isCurrent s) (ss_isSaving s) (requests_now Saving x))"
  using storage_flags.run_inv [OF opened_storage_flags, of can i es]
  by (simp add: storage_flags_def screen_flags_def flags_shown_def requests_now_def Let_def)

section \<open>Files are abandoned only after the warning\<close>

definition sent_after_warning :: "'x storage_request \<times> 'x storage_screen \<times> bool \<Rightarrow> bool" where
  "sent_after_warning y = (case y of
       (DeleteStorage n i abandons, s, refused) \<Rightarrow>
         (if abandons then ss_isShowCleanupWarning s \<and> refused else ss_isShowRemoveConfirm s)
     | _ \<Rightarrow> True)"

definition warning_inv :: "'x storage_run \<Rightarrow> bool" where
  "warning_inv x \<longleftrightarrow> list_all sent_after_warning (sg_sent x) \<and> (ss_isShowCleanupWarning (sg_screen x) \<longrightarrow> sg_wasRefused x)"

lemma warning_control: "warning_inv x \<Longrightarrow> warning_inv (storage_sent (storage_control can e (sg_screen x)) x)"
  by (cases e) (auto simp: warning_inv_def storage_sent_def sent_after_warning_def storage_control_def
      storage_controls Let_def split_beta split: option.split)

lemma warning_answer: "warning_inv x \<Longrightarrow> warning_inv (storage_run_step can x (Answer q a))"
  by (cases q; cases a) (auto simp: warning_inv_def settle_storage_request_def storage_settles Let_def
      refuses_for_cleanup_def split: sum.split)

interpretation warned_removal: invariant_machine "storage_run_step can" warning_inv for can
proof unfold_locales
  show "warning_inv (storage_run_step can x e)" if "warning_inv x" for x :: "'a storage_run" and e
    using that warning_control warning_answer by (cases e) (simp_all del: storage_run_step.simps(2))
qed

lemma opened_warning: "warning_inv (opened_storage_run i)"
  by (simp add: warning_inv_def opened_storage_run_def storage_sent_def run_storage_effect_def load_storage_def
      Let_def split_beta opened_storage_def sent_after_warning_def)

text \<open>C33: In every run of a storage's screen a request to delete the storage is sent from an open confirmation, and
  one that gives up the files still to be removed only from the open warning about them, after the server refused
  a removal because of them.\<close>

theorem files_abandoned_only_after_the_warning:
  "list_all sent_after_warning (sg_sent (foldl (storage_run_step can) (opened_storage_run i) es))"
  using warned_removal.run_inv [OF opened_warning, of can i es] by (simp add: warning_inv_def)

section \<open>A name typed meanwhile is kept\<close>

lemma newer_name_stays:
  assumes "ss_editStorage s = Some e" "sv_name e \<noteq> submitted" "sv_name e \<noteq> sv_name renamed"
  shows "ss_editStorage (settle_storage_name n submitted (Inr renamed) s) = Some e
    \<and> ss_isEditName (settle_storage_name n submitted (Inr renamed) s) = ss_isEditName s"
  using assms by (simp add: settle_storage_name_def is_newer_name_def)

lemma saved_name_closes:
  assumes "ss_isCurrent s" "is_current_revision (ss_contextRevision s) n"
    and "ss_editStorage s = Some e" "sv_name e = submitted"
  shows "\<not> ss_isEditName (settle_storage_name n submitted (Inr renamed) s)"
  using assms by (simp add: settle_storage_name_def is_newer_name_def)

lemma failed_name_stays:
  "ss_editStorage (settle_storage_name n submitted (Inl f) s) = ss_editStorage s
    \<and> ss_storage (settle_storage_name n submitted (Inl f) s) = ss_storage s"
  by (simp add: settle_storage_name_def)

end
