(* ===== verification/Notifier_Screen.thy ===== *)
theory Notifier_Screen
  imports Storage_Screen
begin

text \<open>
  The screen of one notifier (\<open>pages/notifiers/ui/NotifierComponent.tsx\<close>): its load, the test message, its name,
  its settings and its removal. It is built like the storage's screen and differs in what it resets and guards:
  a removal on its way does not stop a second one, and a successful change leaves an earlier error on the screen.
\<close>

record 'x saved_notifier = "'x saved_resource" +
  sv_lastSendError :: "string option"

section \<open>The state\<close>

record 'x notifier_screen =
  ns_notifierId :: string
  ns_error :: "thrown option"
  ns_deliveryError :: "string option"
  ns_notifier :: "'x saved_notifier option"
  ns_isEditName :: bool
  ns_isEditSettings :: bool
  ns_editName :: string
  ns_isSaving :: bool
  ns_isSendingTest :: bool
  ns_isShowRemoveConfirm :: bool
  ns_isRemoving :: bool
  ns_isShowTransferDialog :: bool
  ns_notifierRevision :: request_revision
  ns_savedTestRevision :: request_revision
  ns_isCurrent :: bool
  ns_changes :: "'x saved_notifier list"
  ns_deletions :: nat
  ns_transfers :: nat
  ns_unavailable :: nat
  ns_succeededTests :: nat

definition opened_notifier :: "string \<Rightarrow> 'x notifier_screen" where
  "opened_notifier notifierId = \<lparr>ns_notifierId = notifierId, ns_error = None, ns_deliveryError = None,
     ns_notifier = None, ns_isEditName = False, ns_isEditSettings = False, ns_editName = [], ns_isSaving = False,
     ns_isSendingTest = False, ns_isShowRemoveConfirm = False, ns_isRemoving = False,
     ns_isShowTransferDialog = False, ns_notifierRevision = new_revision, ns_savedTestRevision = new_revision,
     ns_isCurrent = True, ns_changes = [], ns_deletions = 0, ns_transfers = 0, ns_unavailable = 0,
     ns_succeededTests = 0\<rparr>"

datatype 'x notifier_request =
    LoadNotifier nat
  | TestNotifier nat nat string
  | DeleteNotifier nat string
  | RenameNotifier nat string string 'x

definition is_current_notifier :: "nat \<Rightarrow> 'x notifier_screen \<Rightarrow> bool" where
  "is_current_notifier revision s \<longleftrightarrow> ns_isCurrent s \<and> is_current_revision (ns_notifierRevision s) revision"

section \<open>The test message\<close>

definition send_test_notification :: "'x notifier_screen \<Rightarrow> 'x notifier_screen \<times> 'x notifier_request option" where
  "send_test_notification s = (case ns_notifier s of
       None \<Rightarrow> (s, None)
     | Some notifier \<Rightarrow>
         if \<not> ns_isCurrent s \<or> ns_isSendingTest s then (s, None)
         else (let (testRevision, r) = invalidate (ns_savedTestRevision s)
           in (s\<lparr>ns_savedTestRevision := r, ns_error := None, ns_deliveryError := None, ns_isSendingTest := True\<rparr>,
               Some (TestNotifier (get_current (ns_notifierRevision s)) testRevision (sv_id notifier)))))"

definition settle_test_notification ::
    "nat \<Rightarrow> nat \<Rightarrow> thrown + bool \<times> string option \<Rightarrow> 'x notifier_screen \<Rightarrow> 'x notifier_screen" where
  "settle_test_notification revision testRevision answer s =
     (if \<not> (is_current_notifier revision s \<and> is_current_revision (ns_savedTestRevision s) testRevision) then s
      else case answer of
        Inl e \<Rightarrow> s\<lparr>ns_error := Some e, ns_isSendingTest := False\<rparr>
      | Inr (isDelivered, e) \<Rightarrow> (case ns_notifier s of
          None \<Rightarrow> s
        | Some acknowledged \<Rightarrow>
            let s1 = (if isDelivered then s\<lparr>ns_succeededTests := Suc (ns_succeededTests s)\<rparr>
                      else s\<lparr>ns_deliveryError := Some (nullish e [])\<rparr>);
                tested = acknowledged\<lparr>sv_lastSendError := e\<rparr>;
                s2 = (if sv_lastSendError tested \<noteq> sv_lastSendError acknowledged
                      then s1\<lparr>ns_notifier := Some tested, ns_changes := ns_changes s1 @ [tested]\<rparr> else s1)
            in s2\<lparr>ns_isSendingTest := False\<rparr>))"

section \<open>Removing and renaming\<close>

definition remove_notifier :: "'x notifier_screen \<Rightarrow> 'x notifier_screen \<times> 'x notifier_request option" where
  "remove_notifier s = (case ns_notifier s of
       None \<Rightarrow> (s, None)
     | Some notifier \<Rightarrow>
         if \<not> ns_isCurrent s then (s, None)
         else (s\<lparr>ns_isRemoving := True\<rparr>,
               Some (DeleteNotifier (get_current (ns_notifierRevision s)) (sv_id notifier))))"

definition settle_notifier_removal :: "nat \<Rightarrow> thrown + unit \<Rightarrow> 'x notifier_screen \<Rightarrow> 'x notifier_screen" where
  "settle_notifier_removal revision answer s =
     (if \<not> is_current_notifier revision s then s
      else (case answer of
          Inr _ \<Rightarrow> s\<lparr>ns_deletions := Suc (ns_deletions s)\<rparr>
        | Inl e \<Rightarrow> s\<lparr>ns_error := Some e, ns_isShowRemoveConfirm := False\<rparr>)\<lparr>ns_isRemoving := False\<rparr>)"

definition start_edit_notifier :: "bool \<Rightarrow> 'x notifier_screen \<Rightarrow> 'x notifier_screen" where
  "start_edit_notifier isSettings s =
     (if ns_isEditName s \<or> ns_isEditSettings s \<or> ns_isSaving s then s
      else (let s1 = (if isSettings
              then s\<lparr>ns_savedTestRevision := snd (invalidate (ns_savedTestRevision s)),
                     ns_isSendingTest := False, ns_error := None, ns_deliveryError := None\<rparr>
              else s)
            in s1\<lparr>ns_editName := nullish (map_option sv_name (ns_notifier s)) [], ns_isEditName := \<not> isSettings,
                  ns_isEditSettings := isSettings\<rparr>))"

definition save_notifier_name :: "'x notifier_screen \<Rightarrow> 'x notifier_screen \<times> 'x notifier_request option" where
  "save_notifier_name s = (case ns_notifier s of
       None \<Rightarrow> (s, None)
     | Some notifier \<Rightarrow>
         if \<not> ns_isCurrent s \<or> ns_isSaving s then (s, None)
         else (s\<lparr>ns_isSaving := True\<rparr>,
               Some (RenameNotifier (get_current (ns_notifierRevision s)) (sv_id notifier) (ns_editName s)
                 (sv_settings notifier))))"

definition settle_notifier_name ::
    "nat \<Rightarrow> string \<Rightarrow> thrown + 'x saved_notifier \<Rightarrow> 'x notifier_screen \<Rightarrow> 'x notifier_screen" where
  "settle_notifier_name revision submittedName answer s =
     (if \<not> is_current_notifier revision s then s
      else (case answer of
          Inr saved \<Rightarrow> (let s1 = s\<lparr>ns_notifier := Some saved\<rparr>;
              s2 = (if is_newer_name submittedName (sv_name saved) (Some (ns_editName s)) then s1
                    else s1\<lparr>ns_editName := sv_name saved, ns_isEditName := False\<rparr>)
            in s2\<lparr>ns_changes := ns_changes s @ [saved]\<rparr>)
        | Inl e \<Rightarrow> s\<lparr>ns_error := Some e\<rparr>)\<lparr>ns_isSaving := False\<rparr>)"

text \<open>What the editor of the settings saved.\<close>

definition acknowledge_notifier :: "'x saved_notifier \<Rightarrow> 'x notifier_screen \<Rightarrow> 'x notifier_screen" where
  "acknowledge_notifier saved s =
     (if \<not> ns_isCurrent s \<or> sv_id saved \<noteq> ns_notifierId s then s
      else s\<lparr>ns_savedTestRevision := snd (invalidate (ns_savedTestRevision s)), ns_notifier := Some saved,
             ns_changes := ns_changes s @ [saved]\<rparr>)"

section \<open>Loading\<close>

definition load_notifier :: "'x notifier_screen \<Rightarrow> 'x notifier_screen \<times> 'x notifier_request option" where
  "load_notifier s =
     (if \<not> ns_isCurrent s then (s, None)
      else (let (revision, r) = invalidate (ns_notifierRevision s)
        in (s\<lparr>ns_notifierRevision := r, ns_savedTestRevision := snd (invalidate (ns_savedTestRevision s)),
              ns_isSendingTest := False, ns_isSaving := False, ns_isRemoving := False, ns_deliveryError := None,
              ns_error := None, ns_notifier := None\<rparr>,
            Some (LoadNotifier revision))))"

definition settle_notifier_load :: "nat \<Rightarrow> thrown + 'x saved_notifier \<Rightarrow> 'x notifier_screen \<Rightarrow> 'x notifier_screen" where
  "settle_notifier_load revision answer s =
     (if \<not> is_current_notifier revision s then s
      else case answer of
        Inr loaded \<Rightarrow> s\<lparr>ns_notifier := Some loaded\<rparr>
      | Inl e \<Rightarrow> s\<lparr>ns_error := Some e,
          ns_unavailable := (if is_gone e then Suc (ns_unavailable s) else ns_unavailable s)\<rparr>)"

text \<open>The effect runs on mount; its cleanup only on unmount, for the screen is keyed by the notifier.\<close>

definition run_notifier_effect :: "'x notifier_screen \<Rightarrow> 'x notifier_screen \<times> 'x notifier_request option" where
  "run_notifier_effect s = load_notifier (s\<lparr>ns_isEditName := False, ns_isEditSettings := False,
     ns_isShowTransferDialog := False, ns_isShowRemoveConfirm := False\<rparr>)"

definition close_notifier_settings :: "'x notifier_screen \<Rightarrow> 'x notifier_screen \<times> 'x notifier_request option" where
  "close_notifier_settings s = load_notifier (s\<lparr>ns_isEditSettings := False\<rparr>)"

definition is_notifier_name_unsaved :: "'x notifier_screen \<Rightarrow> bool" where
  "is_notifier_name_unsaved s \<longleftrightarrow> ns_isEditName s \<and> Some (ns_editName s) \<noteq> map_option sv_name (ns_notifier s)"

section \<open>What a user can do\<close>

datatype 'x notifier_event =
    NSessionEnds
  | NClickTest | NClickEditName | NClickEditSettings | NTypeName string | NCancelName | NClickSaveName
  | NSettingsPersisted "'x saved_notifier" | NSettingsChanged | NSettingsClosed
  | NClickRemove | NConfirmRemove | NDeclineRemove
  | NClickTransfer | NTransferClosed | NTransferDone | NRetryLoad

definition notifier_control ::
    "bool \<Rightarrow> 'x notifier_event \<Rightarrow> 'x notifier_screen \<Rightarrow> 'x notifier_screen \<times> 'x notifier_request option" where
  "notifier_control can e s = (let shown = ns_notifier s \<noteq> None; quiet = (\<lambda>s. (s, None)) in case e of
       NSessionEnds \<Rightarrow> quiet (s\<lparr>ns_isCurrent := False\<rparr>)
     | NClickTest \<Rightarrow> if shown \<and> \<not> ns_isEditSettings s then send_test_notification s else quiet s
     | NClickEditName \<Rightarrow> if shown \<and> can then quiet (start_edit_notifier False s) else quiet s
     | NClickEditSettings \<Rightarrow> if shown \<and> can then quiet (start_edit_notifier True s) else quiet s
     | NTypeName name \<Rightarrow> if shown \<and> ns_isEditName s then quiet (s\<lparr>ns_editName := name\<rparr>) else quiet s
     | NCancelName \<Rightarrow> if shown \<and> ns_isEditName s then quiet (s\<lparr>ns_isEditName := False\<rparr>) else quiet s
     | NClickSaveName \<Rightarrow> if shown \<and> is_notifier_name_unsaved s \<and> ns_editName s \<noteq> [] then save_notifier_name s
         else quiet s
     | NSettingsPersisted saved \<Rightarrow> if shown \<and> ns_isEditSettings s then quiet (acknowledge_notifier saved s) else quiet s
     | NSettingsChanged \<Rightarrow> if shown \<and> ns_isEditSettings s then quiet (s\<lparr>ns_isEditSettings := False\<rparr>) else quiet s
     | NSettingsClosed \<Rightarrow> if shown \<and> ns_isEditSettings s then close_notifier_settings s else quiet s
     | NClickRemove \<Rightarrow> if shown \<and> \<not> ns_isEditSettings s \<and> can \<and> \<not> ns_isRemoving s
         then quiet (s\<lparr>ns_isShowRemoveConfirm := True\<rparr>) else quiet s
     | NConfirmRemove \<Rightarrow> if ns_isShowRemoveConfirm s then remove_notifier s else quiet s
     | NDeclineRemove \<Rightarrow> quiet (s\<lparr>ns_isShowRemoveConfirm := False\<rparr>)
     | NClickTransfer \<Rightarrow> if shown \<and> \<not> ns_isEditSettings s \<and> can then quiet (s\<lparr>ns_isShowTransferDialog := True\<rparr>)
         else quiet s
     | NTransferClosed \<Rightarrow> quiet (s\<lparr>ns_isShowTransferDialog := False\<rparr>)
     | NTransferDone \<Rightarrow> if ns_isShowTransferDialog s \<and> shown
         then quiet (s\<lparr>ns_isShowTransferDialog := False, ns_transfers := Suc (ns_transfers s)\<rparr>) else quiet s
     | NRetryLoad \<Rightarrow> if ns_error s \<noteq> None \<and> \<not> shown then load_notifier s else quiet s)"

datatype 'x notifier_answer =
    LoadedNotifier "thrown + 'x saved_notifier"
  | TestedNotifier "thrown + bool \<times> string option"
  | DeletedNotifier "thrown + unit"
  | RenamedNotifier "thrown + 'x saved_notifier"

definition settle_notifier_request ::
    "'x notifier_request \<Rightarrow> 'x notifier_answer \<Rightarrow> 'x notifier_screen \<Rightarrow> 'x notifier_screen" where
  "settle_notifier_request q answer s = (case (q, answer) of
       (LoadNotifier n, LoadedNotifier a) \<Rightarrow> settle_notifier_load n a s
     | (TestNotifier n m i, TestedNotifier a) \<Rightarrow> settle_test_notification n m a s
     | (DeleteNotifier n i, DeletedNotifier a) \<Rightarrow> settle_notifier_removal n a s
     | (RenameNotifier n i name x, RenamedNotifier a) \<Rightarrow> settle_notifier_name n name a s
     | _ \<Rightarrow> s)"

fun answers_notifier :: "'x notifier_request \<Rightarrow> 'x notifier_answer \<Rightarrow> bool" where
  "answers_notifier (LoadNotifier n) (LoadedNotifier a) = True"
| "answers_notifier (TestNotifier n m i) (TestedNotifier a) = True"
| "answers_notifier (DeleteNotifier n i) (DeletedNotifier a) = True"
| "answers_notifier (RenameNotifier n i name x) (RenamedNotifier a) = True"
| "answers_notifier _ _ = False"

section \<open>Requests and the flags that show them\<close>

text \<open>A removal has no flag that would hold back a second one.\<close>

primrec notifier_token :: "'x notifier_request \<Rightarrow> request_kind \<times> nat \<times> nat" where
  "notifier_token (LoadNotifier n) = (Unflagged, n, 0)"
| "notifier_token (TestNotifier n m i) = (Testing, n, m)"
| "notifier_token (DeleteNotifier n i) = (Unflagged, n, 0)"
| "notifier_token (RenameNotifier n i name x) = (Saving, n, 0)"

record 'x notifier_screen_run =
  nr_screen :: "'x notifier_screen"
  nr_pending :: "'x notifier_request list"

definition notifier_sent ::
    "'x notifier_screen \<times> 'x notifier_request option \<Rightarrow> 'x notifier_screen_run \<Rightarrow> 'x notifier_screen_run" where
  "notifier_sent r x = x\<lparr>nr_screen := fst r,
     nr_pending := nr_pending x @ (case snd r of None \<Rightarrow> [] | Some q \<Rightarrow> [q])\<rparr>"

datatype 'x notifier_run_event = NControl "'x notifier_event" | NAnswer "'x notifier_request" "'x notifier_answer"

primrec notifier_screen_step ::
    "bool \<Rightarrow> 'x notifier_screen_run \<Rightarrow> 'x notifier_run_event \<Rightarrow> 'x notifier_screen_run" where
  "notifier_screen_step can x (NControl e) = notifier_sent (notifier_control can e (nr_screen x)) x"
| "notifier_screen_step can x (NAnswer q a) = (if q \<notin> set (nr_pending x) \<or> \<not> answers_notifier q a then x
     else x\<lparr>nr_screen := settle_notifier_request q a (nr_screen x), nr_pending := remove1 q (nr_pending x)\<rparr>)"

definition opened_notifier_run :: "string \<Rightarrow> 'x notifier_screen_run" where
  "opened_notifier_run notifierId = notifier_sent (run_notifier_effect (opened_notifier notifierId))
     \<lparr>nr_screen = opened_notifier notifierId, nr_pending = []\<rparr>"

definition notifier_flags_shown :: "'x notifier_screen \<Rightarrow> 'x notifier_request list \<Rightarrow> bool" where
  "notifier_flags_shown s ps \<longleftrightarrow>
     flags_shown notifier_token (rr_revision (ns_notifierRevision s)) (rr_revision (ns_savedTestRevision s))
       (ns_isCurrent s) (ns_isSendingTest s) False (ns_isSaving s) (ns_isEditSettings s) ps
     \<and> (ns_isSendingTest s \<longrightarrow> ns_notifier s \<noteq> None)"

definition notifier_flags :: "'x notifier_screen_run \<Rightarrow> bool" where
  "notifier_flags x = notifier_flags_shown (nr_screen x) (nr_pending x)"

lemmas notifier_controls = send_test_notification_def remove_notifier_def start_edit_notifier_def
  save_notifier_name_def acknowledge_notifier_def load_notifier_def run_notifier_effect_def
  close_notifier_settings_def

lemmas notifier_settles = settle_test_notification_def settle_notifier_removal_def settle_notifier_name_def
  settle_notifier_load_def is_current_notifier_def

lemma notifier_flags_control:
  "notifier_flags_shown s ps \<Longrightarrow> notifier_flags_shown (fst (notifier_control can e s))
     (ps @ (case snd (notifier_control can e s) of None \<Rightarrow> [] | Some q \<Rightarrow> [q]))"
proof (cases e)
  case NClickTest
  then show "notifier_flags_shown s ps \<Longrightarrow> ?thesis"
    by (auto simp: notifier_control_def notifier_controls Let_def notifier_flags_shown_def split_beta get_current_def
        intro!: flags_shown_test split: option.split)
next
  case NClickEditSettings
  then show "notifier_flags_shown s ps \<Longrightarrow> ?thesis"
    by (auto simp: notifier_control_def notifier_controls Let_def notifier_flags_shown_def intro: flags_shown_edit)
next
  case (NSettingsPersisted saved)
  then show "notifier_flags_shown s ps \<Longrightarrow> ?thesis"
    by (auto simp: notifier_control_def notifier_controls Let_def notifier_flags_shown_def
        intro: flags_shown_acknowledge)
next
  case NSettingsChanged
  then show "notifier_flags_shown s ps \<Longrightarrow> ?thesis"
    by (auto simp: notifier_control_def notifier_controls Let_def notifier_flags_shown_def intro: flags_shown_close)
next
  case NSettingsClosed
  then show "notifier_flags_shown s ps \<Longrightarrow> ?thesis"
    by (auto simp: notifier_control_def notifier_controls Let_def notifier_flags_shown_def split_beta
        intro!: flags_shown_load intro: flags_shown_close)
next
  case NRetryLoad
  then show "notifier_flags_shown s ps \<Longrightarrow> ?thesis"
    by (auto simp: notifier_control_def notifier_controls Let_def notifier_flags_shown_def split_beta
        intro!: flags_shown_load)
next
  case NConfirmRemove
  then show "notifier_flags_shown s ps \<Longrightarrow> ?thesis"
    by (auto simp: notifier_control_def notifier_controls Let_def notifier_flags_shown_def split_beta get_current_def
        intro!: flags_shown_unflagged split: option.split)
next
  case NClickSaveName
  then show "notifier_flags_shown s ps \<Longrightarrow> ?thesis"
    by (auto simp: notifier_control_def notifier_controls Let_def notifier_flags_shown_def split_beta get_current_def
        intro!: flags_shown_save split: option.split)
next
  case NSessionEnds
  then show "notifier_flags_shown s ps \<Longrightarrow> ?thesis"
    by (auto simp: notifier_control_def Let_def notifier_flags_shown_def intro: flags_shown_end)
qed (auto simp: notifier_control_def notifier_controls Let_def notifier_flags_shown_def)

lemma settle_notifier_frame:
  "ns_notifierRevision (settle_notifier_request q a s) = ns_notifierRevision s"
  "ns_savedTestRevision (settle_notifier_request q a s) = ns_savedTestRevision s"
  "ns_isCurrent (settle_notifier_request q a s) = ns_isCurrent s"
  "ns_isEditSettings (settle_notifier_request q a s) = ns_isEditSettings s"
  "ns_notifier s \<noteq> None \<Longrightarrow> ns_notifier (settle_notifier_request q a s) \<noteq> None"
  by (cases q; cases a; auto simp: settle_notifier_request_def notifier_settles Let_def
      split: sum.split option.splits)+

lemma settle_notifier_flags:
  assumes "answers_notifier q a" "ns_isSendingTest s \<longrightarrow> ns_notifier s \<noteq> None"
  shows "ns_isSendingTest (settle_notifier_request q a s) \<longleftrightarrow> ns_isSendingTest s \<and> \<not> (ns_isCurrent s
      \<and> notifier_token q = (Testing, rr_revision (ns_notifierRevision s), rr_revision (ns_savedTestRevision s)))"
    and "ns_isSaving (settle_notifier_request q a s) \<longleftrightarrow> ns_isSaving s \<and> \<not> (ns_isCurrent s
      \<and> notifier_token q = (Saving, rr_revision (ns_notifierRevision s), 0))"
  using assms
  by (cases q; cases a; auto simp: settle_notifier_request_def notifier_settles Let_def is_current_revision_def
      split: sum.split option.split)+

lemma notifier_flags_answer:
  assumes inv: "notifier_flags_shown s ps" and q: "q \<in> set ps" "answers_notifier q a"
  shows "notifier_flags_shown (settle_notifier_request q a s) (remove1 q ps)"
proof -
  from inv have n: "ns_isSendingTest s \<longrightarrow> ns_notifier s \<noteq> None" by (simp add: notifier_flags_shown_def)
  note f = settle_notifier_flags [OF q(2) n]
  from inv have "flags_shown notifier_token (rr_revision (ns_notifierRevision s)) (rr_revision (ns_savedTestRevision s))
       (ns_isCurrent s) (ns_isSendingTest s) False (ns_isSaving s) (ns_isEditSettings s) ps"
    by (simp add: notifier_flags_shown_def)
  from flags_shown_answer [OF this q(1) f(1) _ f(2), of False] n f(1) show ?thesis
    by (auto simp: notifier_flags_shown_def settle_notifier_frame)
qed

lemma notifier_flags_step: "notifier_flags x \<Longrightarrow> notifier_flags (notifier_screen_step can x e)"
  by (cases e) (simp_all add: notifier_flags_def notifier_sent_def notifier_flags_control notifier_flags_answer)

interpretation notifier_flags: invariant_machine "notifier_screen_step can" notifier_flags for can
  by unfold_locales (rule notifier_flags_step)

lemma opened_notifier_flags: "notifier_flags (opened_notifier_run i)"
  by (simp add: notifier_flags_def notifier_sent_def opened_notifier_run_def run_notifier_effect_def
      load_notifier_def Let_def split_beta opened_notifier_def notifier_flags_shown_def flags_shown_def
      new_revision_def)

lemma notifier_flags_show_requests:
  "(let x = foldl (notifier_screen_step can) (opened_notifier_run i) es; s = nr_screen x;
        c = rr_revision (ns_notifierRevision s) in
     shown_by (ns_isCurrent s) (ns_isSendingTest s)
       (counted notifier_token Testing c (rr_revision (ns_savedTestRevision s)) (nr_pending x))
     \<and> shown_by (ns_isCurrent s) (ns_isSaving s) (counted notifier_token Saving c 0 (nr_pending x)))"
  using notifier_flags.run_inv [OF opened_notifier_flags, of can i es]
  by (simp add: notifier_flags_def notifier_flags_shown_def flags_shown_def Let_def)

section \<open>Where it differs from the storage's screen\<close>

text \<open>Two clicks on the confirmation send two removals; the storage's screen sends one.\<close>

lemma removal_is_sent_twice:
  "nr_pending (foldl (notifier_screen_step True) (opened_notifier_run i)
     [NAnswer (LoadNotifier 1) (LoadedNotifier (Inr n)), NControl NClickRemove, NControl NConfirmRemove,
      NControl NConfirmRemove])
   = [DeleteNotifier 1 (sv_id n), DeleteNotifier 1 (sv_id n)]"
  by (simp add: opened_notifier_run_def notifier_sent_def run_notifier_effect_def load_notifier_def Let_def
      split_beta opened_notifier_def new_revision_def invalidate_def settle_notifier_request_def
      settle_notifier_load_def is_current_notifier_def is_current_revision_def notifier_control_def
      remove_notifier_def get_current_def)

lemma rename_keeps_an_earlier_error:
  "ns_error (settle_notifier_name n submitted (Inr saved) (fst (save_notifier_name s))) = ns_error s"
  by (auto simp: settle_notifier_name_def save_notifier_name_def Let_def split: option.split)

lemma newer_notifier_name_stays:
  assumes "ns_editName s \<noteq> submitted" "ns_editName s \<noteq> sv_name saved"
  shows "ns_editName (settle_notifier_name n submitted (Inr saved) s) = ns_editName s
    \<and> ns_isEditName (settle_notifier_name n submitted (Inr saved) s) = ns_isEditName s"
  using assms by (simp add: settle_notifier_name_def is_newer_name_def)

lemma delivered_test_clears_the_error:
  assumes "is_current_notifier r s" "is_current_revision (ns_savedTestRevision s) t" "ns_notifier s = Some n"
  shows "map_option sv_lastSendError (ns_notifier (settle_test_notification r t (Inr (True, None)) s)) = Some None"
  using assms by (simp add: settle_test_notification_def Let_def)

end
