(* ===== verification/Resource_Transfer.thy ===== *)
theory Resource_Transfer
  imports Resources Api_Errors
begin

text \<open>
  The dialog that moves a storage or a notifier to another workspace (\<open>shared/ui/ResourceTransferDialog.tsx\<close>) with
  the two that fill it (\<open>StorageTransferDialogComponent.tsx\<close>, \<open>NotifierTransferDialogComponent.tsx\<close>): whether
  something still uses the resource, the workspaces it can go to, and the transfer. Loading has two awaits.
\<close>

section \<open>The state\<close>

text \<open>A resource is its workspace and its id; a workspace its id and its name.\<close>

datatype availability = Blocked | Targets "(string \<times> string) list"

record transfer_choice =
  tc_resource :: "string \<times> string"
  tc_availability :: "availability option"
  tc_loadError :: "thrown option"
  tc_transferError :: "thrown option"
  tc_isLoading :: bool
  tc_selectedTargetId :: "string option"
  tc_isTransferring :: bool
  tc_hasPendingTransfer :: bool
  tc_revision :: request_revision
  tc_isCurrent :: bool
  tc_closed :: nat
  tc_transferred :: nat

definition opened_transfer :: "string \<times> string \<Rightarrow> transfer_choice" where
  "opened_transfer resource = \<lparr>tc_resource = resource, tc_availability = None, tc_loadError = None,
     tc_transferError = None, tc_isLoading = True, tc_selectedTargetId = None, tc_isTransferring = False,
     tc_hasPendingTransfer = False, tc_revision = new_revision, tc_isCurrent = True, tc_closed = 0,
     tc_transferred = 0\<rparr>"

text \<open>What is on its way: the users of a resource, the workspaces for it, or its transfer to a target.\<close>

datatype transfer_request =
    CheckUse nat "string \<times> string"
  | ListTargets nat "string \<times> string"
  | SendTransfer nat "string \<times> string" string

definition is_active_transfer :: "nat \<Rightarrow> transfer_choice \<Rightarrow> bool" where
  "is_active_transfer revision s \<longleftrightarrow> tc_isCurrent s \<and> is_current_revision (tc_revision s) revision"

section \<open>Loading\<close>

definition load_choice :: "transfer_choice \<Rightarrow> transfer_choice \<times> transfer_request option" where
  "load_choice s =
     (if \<not> tc_isCurrent s then (s, None)
      else (let (requestRevision, r) = invalidate (tc_revision s)
        in (s\<lparr>tc_revision := r, tc_loadError := None, tc_transferError := None, tc_isLoading := True\<rparr>,
            Some (CheckUse requestRevision (tc_resource s)))))"

definition start_data_load :: "transfer_choice \<Rightarrow> transfer_choice \<times> transfer_request option" where
  "start_data_load s = load_choice (s\<lparr>tc_availability := None, tc_selectedTargetId := None,
     tc_isTransferring := False, tc_hasPendingTransfer := False\<rparr>)"

text \<open>Another resource: the cleanup of the effect, then the effect.\<close>

definition change_resource :: "string \<times> string \<Rightarrow> transfer_choice \<Rightarrow> transfer_choice \<times> transfer_request option" where
  "change_resource resource s =
     (if resource = tc_resource s then (s, None)
      else start_data_load (s\<lparr>tc_resource := resource, tc_revision := snd (invalidate (tc_revision s))\<rparr>))"

definition settle_availability :: "nat \<Rightarrow> thrown + availability option \<Rightarrow> transfer_choice \<Rightarrow> transfer_choice" where
  "settle_availability requestRevision answer s =
     (if \<not> is_active_transfer requestRevision s then s
      else (case answer of
          Inr a \<Rightarrow> s\<lparr>tc_availability := a\<rparr>
        | Inl e \<Rightarrow> s\<lparr>tc_loadError := Some e\<rparr>)\<lparr>tc_isLoading := False\<rparr>)"

text \<open>The first await of \<open>loadAvailability\<close>: how many use the resource. The second: the workspaces.\<close>

definition settle_use_check ::
    "nat \<Rightarrow> string \<times> string \<Rightarrow> thrown + nat \<Rightarrow> transfer_choice \<Rightarrow> transfer_choice \<times> transfer_request option" where
  "settle_use_check requestRevision resource answer s = (case answer of
       Inl e \<Rightarrow> (settle_availability requestRevision (Inl e) s, None)
     | Inr users \<Rightarrow>
         if \<not> is_active_transfer requestRevision s then (settle_availability requestRevision (Inr None) s, None)
         else if 0 < users then (settle_availability requestRevision (Inr (Some Blocked)) s, None)
         else (s, Some (ListTargets requestRevision resource)))"

definition to_targets :: "string \<times> string \<Rightarrow> (string \<times> string) list \<Rightarrow> availability" where
  "to_targets resource workspaces = Targets (filter (\<lambda>w. fst w \<noteq> fst resource) workspaces)"

definition settle_targets ::
    "nat \<Rightarrow> string \<times> string \<Rightarrow> thrown + (string \<times> string) list \<Rightarrow> transfer_choice \<Rightarrow> transfer_choice" where
  "settle_targets requestRevision resource answer s = settle_availability requestRevision
     (case answer of Inl e \<Rightarrow> Inl e | Inr workspaces \<Rightarrow> Inr (Some (to_targets resource workspaces))) s"

section \<open>The transfer\<close>

definition transfer_resource :: "transfer_choice \<Rightarrow> transfer_choice \<times> transfer_request option" where
  "transfer_resource s = (case tc_selectedTargetId s of
       None \<Rightarrow> (s, None)
     | Some target \<Rightarrow>
         if \<not> tc_isCurrent s \<or> target = [] \<or> tc_hasPendingTransfer s then (s, None)
         else (s\<lparr>tc_hasPendingTransfer := True, tc_isTransferring := True, tc_transferError := None\<rparr>,
               Some (SendTransfer (get_current (tc_revision s)) (tc_resource s) target)))"

definition settle_resource_transfer :: "nat \<Rightarrow> thrown + unit \<Rightarrow> transfer_choice \<Rightarrow> transfer_choice" where
  "settle_resource_transfer requestRevision answer s =
     (if \<not> is_active_transfer requestRevision s then s
      else (case answer of
          Inr _ \<Rightarrow> s\<lparr>tc_transferred := Suc (tc_transferred s)\<rparr>
        | Inl e \<Rightarrow> s\<lparr>tc_transferError := Some e\<rparr>)\<lparr>tc_hasPendingTransfer := False, tc_isTransferring := False\<rparr>)"

definition close_transfer :: "transfer_choice \<Rightarrow> transfer_choice" where
  "close_transfer s = s\<lparr>tc_revision := snd (invalidate (tc_revision s)), tc_closed := Suc (tc_closed s)\<rparr>"

text \<open>A target can be chosen when targets are shown.\<close>

definition shown_targets :: "transfer_choice \<Rightarrow> (string \<times> string) list" where
  "shown_targets s = (if tc_isLoading s then []
     else case tc_availability s of Some (Targets ts) \<Rightarrow> ts | _ \<Rightarrow> [])"

definition select_target :: "string \<Rightarrow> transfer_choice \<Rightarrow> transfer_choice" where
  "select_target target s =
     (if target \<in> fst ` set (shown_targets s) then s\<lparr>tc_selectedTargetId := Some target\<rparr> else s)"

definition shows_transfer :: "transfer_choice \<Rightarrow> bool" where
  "shows_transfer s \<longleftrightarrow> \<not> tc_isLoading s \<and> (case tc_availability s of Some (Targets ts) \<Rightarrow> True | _ \<Rightarrow> False)"

datatype transfer_choice_event =
    TransferSessionEnds | ChangeResource "string \<times> string" | SelectTarget string | ClickSubmit | CloseDialog
  | RetryLoad
  | UseAnswered nat "string \<times> string" "thrown + nat"
  | TargetsAnswered nat "string \<times> string" "thrown + (string \<times> string) list"
  | TransferAnswered nat "string \<times> string" string "thrown + unit"

definition choice_step :: "transfer_choice_event \<Rightarrow> transfer_choice \<Rightarrow> transfer_choice \<times> transfer_request option" where
  "choice_step e s = (let quiet = (\<lambda>s. (s, None)) in case e of
       TransferSessionEnds \<Rightarrow> quiet (s\<lparr>tc_isCurrent := False\<rparr>)
     | ChangeResource resource \<Rightarrow> change_resource resource s
     | SelectTarget target \<Rightarrow> quiet (select_target target s)
     | ClickSubmit \<Rightarrow> if shows_transfer s \<and> \<not> tc_isTransferring s then transfer_resource s else quiet s
     | CloseDialog \<Rightarrow> quiet (close_transfer s)
     | RetryLoad \<Rightarrow> if tc_loadError s \<noteq> None then load_choice s else quiet s
     | UseAnswered n resource a \<Rightarrow> settle_use_check n resource a s
     | TargetsAnswered n resource a \<Rightarrow> quiet (settle_targets n resource a s)
     | TransferAnswered n resource target a \<Rightarrow> quiet (settle_resource_transfer n a s))"

section \<open>A transfer goes to a listed workspace, of a resource nothing uses\<close>

text \<open>The dialog, the requests on their way, the resources the server said nothing uses, the workspaces it
  listed for them, and the transfers sent.\<close>

record choice_run =
  cr_choice :: transfer_choice
  cr_pending :: "transfer_request list"
  cr_unused :: "(string \<times> string) list"
  cr_listed :: "((string \<times> string) \<times> string) list"
  cr_sent :: "((string \<times> string) \<times> string) list"

fun request_of :: "transfer_choice_event \<Rightarrow> transfer_request option" where
  "request_of (UseAnswered n resource a) = Some (CheckUse n resource)"
| "request_of (TargetsAnswered n resource a) = Some (ListTargets n resource)"
| "request_of (TransferAnswered n resource target a) = Some (SendTransfer n resource target)"
| "request_of _ = None"

fun said_unused :: "transfer_choice_event \<Rightarrow> (string \<times> string) list" where
  "said_unused (UseAnswered n resource (Inr 0)) = [resource]"
| "said_unused _ = []"

fun said_listed :: "transfer_choice_event \<Rightarrow> ((string \<times> string) \<times> string) list" where
  "said_listed (TargetsAnswered n resource (Inr ws)) = map (\<lambda>w. (resource, fst w)) ws"
| "said_listed _ = []"

fun sent_transfer :: "transfer_request option \<Rightarrow> ((string \<times> string) \<times> string) list" where
  "sent_transfer (Some (SendTransfer n resource target)) = [(resource, target)]"
| "sent_transfer _ = []"

definition choice_run_step :: "choice_run \<Rightarrow> transfer_choice_event \<Rightarrow> choice_run" where
  "choice_run_step x e = (if (case request_of e of None \<Rightarrow> False | Some q \<Rightarrow> q \<notin> set (cr_pending x)) then x
     else (let r = choice_step e (cr_choice x);
               left = (case request_of e of None \<Rightarrow> cr_pending x | Some q \<Rightarrow> remove1 q (cr_pending x))
       in \<lparr>cr_choice = fst r, cr_pending = left @ (case snd r of None \<Rightarrow> [] | Some q \<Rightarrow> [q]),
           cr_unused = cr_unused x @ said_unused e, cr_listed = cr_listed x @ said_listed e,
           cr_sent = cr_sent x @ sent_transfer (snd r)\<rparr>))"

definition opened_choice_run :: "string \<times> string \<Rightarrow> choice_run" where
  "opened_choice_run resource = (let r = start_data_load (opened_transfer resource) in
     \<lparr>cr_choice = fst r, cr_pending = (case snd r of None \<Rightarrow> [] | Some q \<Rightarrow> [q]), cr_unused = [],
      cr_listed = [], cr_sent = []\<rparr>)"

text \<open>What holds of a transfer that may be sent.\<close>

definition may_go ::
    "(string \<times> string) list \<Rightarrow> ((string \<times> string) \<times> string) list \<Rightarrow> (string \<times> string) \<times> string \<Rightarrow> bool" where
  "may_go unused listed t \<longleftrightarrow> snd t \<noteq> fst (fst t) \<and> fst t \<in> set unused \<and> t \<in> set listed"

fun loads_of :: "nat \<Rightarrow> transfer_request \<Rightarrow> bool" where
  "loads_of n (CheckUse m r) \<longleftrightarrow> m = n"
| "loads_of n (ListTargets m r) \<longleftrightarrow> m = n"
| "loads_of n (SendTransfer m r t) \<longleftrightarrow> False"

fun transfers_of :: "nat \<Rightarrow> transfer_request \<Rightarrow> bool" where
  "transfers_of n (SendTransfer m r t) \<longleftrightarrow> m = n"
| "transfers_of n _ \<longleftrightarrow> False"

fun request_fits :: "(string \<times> string) list \<Rightarrow> nat \<Rightarrow> string \<times> string \<Rightarrow> transfer_request \<Rightarrow> bool" where
  "request_fits unused n resource (CheckUse m r) \<longleftrightarrow> m \<le> n \<and> (m = n \<longrightarrow> r = resource)"
| "request_fits unused n resource (ListTargets m r) \<longleftrightarrow> m \<le> n \<and> (m = n \<longrightarrow> r = resource) \<and> r \<in> set unused"
| "request_fits unused n resource (SendTransfer m r t) \<longleftrightarrow> m \<le> n"

definition offered :: "transfer_choice \<Rightarrow> string list" where
  "offered s = (case tc_availability s of Some (Targets ts) \<Rightarrow> map fst ts | _ \<Rightarrow> [])
     @ (case tc_selectedTargetId s of None \<Rightarrow> [] | Some t \<Rightarrow> [t])"

lemma offered_frame [simp]:
  "offered (tc_revision_update f1 s) = offered s" "offered (tc_loadError_update f2 s) = offered s"
  "offered (tc_transferError_update f3 s) = offered s" "offered (tc_isLoading_update f4 s) = offered s"
  "offered (tc_hasPendingTransfer_update f5 s) = offered s" "offered (tc_isTransferring_update f6 s) = offered s"
  "offered (tc_isCurrent_update f7 s) = offered s" "offered (tc_closed_update f8 s) = offered s"
  "offered (tc_transferred_update f9 s) = offered s"
  by (simp_all add: offered_def)

lemma offered_availability [simp]:
  assumes "offered s = []"
  shows "offered (s\<lparr>tc_availability := Some Blocked\<rparr>) = []" "offered (s\<lparr>tc_availability := None\<rparr>) = []"
    "offered (s\<lparr>tc_availability := Some (Targets ts)\<rparr>) = map fst ts"
  using assms by (auto simp: offered_def split: option.splits)

definition choice_inv :: "choice_run \<Rightarrow> bool" where
  "choice_inv x \<longleftrightarrow> (let s = cr_choice x; n = rr_revision (tc_revision s) in
     list_all (may_go (cr_unused x) (cr_listed x)) (cr_sent x)
     \<and> (\<forall>t\<in>set (offered s). may_go (cr_unused x) (cr_listed x) (tc_resource s, t))
     \<and> list_all (request_fits (cr_unused x) n (tc_resource s)) (cr_pending x)
     \<and> length (filter (loads_of n) (cr_pending x)) \<le> of_bool (tc_isLoading s \<and> tc_loadError s = None)
     \<and> length (filter (transfers_of n) (cr_pending x)) \<le> of_bool (tc_hasPendingTransfer s)
     \<and> (tc_isLoading s \<or> tc_loadError s \<noteq> None \<longrightarrow>
          offered s = [] \<and> \<not> tc_hasPendingTransfer s))"

lemma may_go_more: "may_go u l t \<Longrightarrow> may_go (u @ u') (l @ l') t"
  by (simp add: may_go_def)

lemma request_fits_more: "request_fits u n r q \<Longrightarrow> request_fits (u @ u') n r q"
  by (cases q) auto

lemma length_filter_remove1:
  "q \<in> set ps \<Longrightarrow> length (filter P (remove1 q ps)) = length (filter P ps) - of_bool (P q)"
  by (auto simp: filter_remove1 length_remove1)

lemma none_of_a_later_revision:
  assumes "list_all (request_fits u n r) ps" "n < m"
  shows "filter (loads_of m) ps = []" "filter (transfers_of m) ps = []"
    "list_all (request_fits u m r') ps"
proof -
  have "\<not> loads_of m q \<and> \<not> transfers_of m q \<and> request_fits u m r' q" if "request_fits u n r q" for q
    using that assms(2) by (cases q) auto
  with assms(1) show "filter (loads_of m) ps = []" "filter (transfers_of m) ps = []"
      "list_all (request_fits u m r') ps"
    by (auto simp: filter_empty_conv list_all_iff)
qed

lemma load_choice_inv:
  assumes "list_all (may_go (cr_unused x) (cr_listed x)) (cr_sent x)"
    and "list_all (request_fits (cr_unused x) n r') (cr_pending x)" "n \<le> rr_revision (tc_revision s)"
    and "offered s = []" "\<not> tc_hasPendingTransfer s"
    and "tc_isCurrent s \<or> n < rr_revision (tc_revision s)"
  shows "choice_inv (x\<lparr>cr_choice := fst (load_choice s),
    cr_pending := cr_pending x @ (case snd (load_choice s) of None \<Rightarrow> [] | Some q \<Rightarrow> [q])\<rparr>)"
proof -
  have "n < Suc (rr_revision (tc_revision s))" using assms(3) by simp
  note later = none_of_a_later_revision [OF assms(2) this]
  show ?thesis
  proof (cases "tc_isCurrent s")
    case True
    with assms(1,4,5) later show ?thesis
      by (simp add: choice_inv_def load_choice_def Let_def split_beta)
  next
    case False
    with assms(6) none_of_a_later_revision [OF assms(2)] assms(1,4,5) show ?thesis
      by (simp add: choice_inv_def load_choice_def Let_def)
  qed
qed

lemma choice_run_step_control:
  "request_of e = None \<Longrightarrow> choice_run_step x e = x\<lparr>cr_choice := fst (choice_step e (cr_choice x)),
    cr_pending := cr_pending x @ (case snd (choice_step e (cr_choice x)) of None \<Rightarrow> [] | Some q \<Rightarrow> [q]),
    cr_sent := cr_sent x @ sent_transfer (snd (choice_step e (cr_choice x)))\<rparr>"
  by (cases e) (simp_all add: choice_run_step_def Let_def)

lemma no_transfer_by_load: "sent_transfer (snd (load_choice s)) = []"
  by (simp add: load_choice_def Let_def split_beta)

lemma choice_control:
  assumes inv: "choice_inv x" and e: "request_of e = None"
  shows "choice_inv (choice_run_step x e)"
proof -
  let ?s = "cr_choice x"
  let ?n = "rr_revision (tc_revision ?s)"
  from inv have sent: "list_all (may_go (cr_unused x) (cr_listed x)) (cr_sent x)"
    and fits: "list_all (request_fits (cr_unused x) ?n (tc_resource ?s)) (cr_pending x)"
    and idle: "tc_isLoading ?s \<or> tc_loadError ?s \<noteq> None \<Longrightarrow> offered ?s = [] \<and> \<not> tc_hasPendingTransfer ?s"
    by (auto simp: choice_inv_def Let_def)
  show ?thesis
  proof (cases e)
    case (ChangeResource r)
    have "choice_inv (choice_run_step x e)" if "r \<noteq> tc_resource ?s"
      using load_choice_inv [OF sent fits, of "?s\<lparr>tc_resource := r, tc_revision := snd (invalidate (tc_revision ?s)),
          tc_availability := None, tc_selectedTargetId := None, tc_isTransferring := False,
          tc_hasPendingTransfer := False\<rparr>"] that ChangeResource
      by (simp add: choice_run_step_control choice_step_def change_resource_def start_data_load_def Let_def
          no_transfer_by_load offered_def)
    with inv ChangeResource show ?thesis
      by (cases "r = tc_resource ?s")
        (simp_all add: choice_run_step_control choice_step_def change_resource_def Let_def)
  next
    case RetryLoad
    show ?thesis
    proof (cases "tc_loadError ?s = None \<or> \<not> tc_isCurrent ?s")
      case True
      with inv RetryLoad show ?thesis
        by (auto simp: choice_run_step_control choice_step_def Let_def load_choice_def)
    next
      case False
      with idle RetryLoad load_choice_inv [OF sent fits order_refl] show ?thesis
        by (simp add: choice_run_step_control choice_step_def Let_def no_transfer_by_load)
    qed
  next
    case (SelectTarget t)
    with inv show ?thesis
      by (auto simp: choice_run_step_control choice_step_def select_target_def shown_targets_def choice_inv_def
          Let_def offered_def split: option.splits availability.splits if_splits)
  next
    case ClickSubmit
    with inv show ?thesis
      by (auto simp: choice_run_step_control choice_step_def transfer_resource_def shows_transfer_def choice_inv_def
          Let_def offered_def get_current_def split: option.splits availability.splits)
  next
    case CloseDialog
    with inv none_of_a_later_revision [OF fits, of "Suc ?n"] show ?thesis
      by (simp add: choice_run_step_control choice_step_def close_transfer_def choice_inv_def Let_def offered_def)
  next
    case TransferSessionEnds
    with inv show ?thesis
      by (simp add: choice_run_step_control choice_step_def choice_inv_def Let_def offered_def)
  qed (use e in simp_all)
qed


lemma selected_offered: "tc_selectedTargetId s = Some t \<Longrightarrow> t \<in> set (offered s)"
  by (simp add: offered_def)

lemma choice_sent:
  "choice_inv x \<Longrightarrow> list_all (may_go (cr_unused x @ u) (cr_listed x @ l)) (cr_sent x)"
  by (auto simp: choice_inv_def Let_def list_all_iff intro: may_go_more)

lemma choice_offered:
  "choice_inv x \<Longrightarrow> t \<in> set (offered (cr_choice x)) \<Longrightarrow>
    may_go (cr_unused x @ u) (cr_listed x @ l) (tc_resource (cr_choice x), t)"
  by (simp add: choice_inv_def Let_def may_go_more)

lemma choice_fits:
  "choice_inv x \<Longrightarrow> list_all (request_fits (cr_unused x @ u) (rr_revision (tc_revision (cr_choice x)))
    (tc_resource (cr_choice x))) (remove1 q (cr_pending x))"
  using set_remove1_subset [of q "cr_pending x"]
  by (auto simp: choice_inv_def Let_def list_all_iff intro: request_fits_more)

lemma choice_inv_counts:
  assumes "choice_inv x"
  shows "length (filter (loads_of (rr_revision (tc_revision (cr_choice x)))) (cr_pending x))
      \<le> of_bool (tc_isLoading (cr_choice x) \<and> tc_loadError (cr_choice x) = None)"
    and "length (filter (transfers_of (rr_revision (tc_revision (cr_choice x)))) (cr_pending x))
      \<le> of_bool (tc_hasPendingTransfer (cr_choice x))"
    and "tc_isLoading (cr_choice x) \<or> tc_loadError (cr_choice x) \<noteq> None \<Longrightarrow>
      offered (cr_choice x) = [] \<and> \<not> tc_hasPendingTransfer (cr_choice x)"
  using assms by (auto simp: choice_inv_def Let_def)

lemma pending_counted: "q \<in> set ps \<Longrightarrow> P q \<Longrightarrow> 0 < length (filter P ps)"
  by (auto simp: filter_empty_conv)

text \<open>An answer of the current load finds the dialog loading, with nothing to choose from.\<close>

lemma current_load_waits:
  assumes inv: "choice_inv x" and q: "q \<in> set (cr_pending x)" "loads_of (rr_revision (tc_revision (cr_choice x))) q"
  shows "tc_isLoading (cr_choice x)" "tc_loadError (cr_choice x) = None" "offered (cr_choice x) = []"
    "\<not> tc_hasPendingTransfer (cr_choice x)"
    "filter (loads_of (rr_revision (tc_revision (cr_choice x)))) (remove1 q (cr_pending x)) = []"
    "filter (transfers_of (rr_revision (tc_revision (cr_choice x)))) (remove1 q (cr_pending x)) = []"
proof -
  note c = choice_inv_counts [OF inv]
  from pending_counted [where P = "loads_of (rr_revision (tc_revision (cr_choice x)))", OF q] c(1) show l: "tc_isLoading (cr_choice x)" "tc_loadError (cr_choice x) = None"
    by (auto simp: of_bool_def split: if_splits)
  with c(3) show o: "offered (cr_choice x) = []" "\<not> tc_hasPendingTransfer (cr_choice x)" by simp_all
  from c(1) l length_filter_remove1 [OF q(1), of "loads_of (rr_revision (tc_revision (cr_choice x)))"] q(2)
  show "filter (loads_of (rr_revision (tc_revision (cr_choice x)))) (remove1 q (cr_pending x)) = []" by simp
  from c(2) o have "filter (transfers_of (rr_revision (tc_revision (cr_choice x)))) (cr_pending x) = []" by simp
  then show "filter (transfers_of (rr_revision (tc_revision (cr_choice x)))) (remove1 q (cr_pending x)) = []"
    by (simp add: filter_remove1)
qed

lemma fewer_after_answer: "length (filter P ps) \<le> n \<Longrightarrow> length (filter P (remove1 q ps)) \<le> n"
  by (auto simp: filter_remove1 length_remove1)

lemma choice_answer_frame:
  assumes inv: "choice_inv x"
  shows "choice_inv (x\<lparr>cr_pending := remove1 q (cr_pending x), cr_unused := cr_unused x @ u,
    cr_listed := cr_listed x @ l\<rparr>)"
  using choice_sent [OF inv, of u l] choice_offered [OF inv, of _ u l] choice_fits [OF inv, of u q]
    fewer_after_answer [OF choice_inv_counts(1) [OF inv], of q]
    fewer_after_answer [OF choice_inv_counts(2) [OF inv], of q] choice_inv_counts(3) [OF inv]
  unfolding choice_inv_def Let_def by simp

lemma choice_transfer_answered:
  assumes inv: "choice_inv x" and q: "SendTransfer n r t \<in> set (cr_pending x)"
  shows "choice_inv (choice_run_step x (TransferAnswered n r t a))"
proof -
  let ?n = "rr_revision (tc_revision (cr_choice x))" and ?ps = "remove1 (SendTransfer n r t) (cr_pending x)"
  have left: "choice_inv (x\<lparr>cr_pending := ?ps\<rparr>)"
    using choice_answer_frame [OF inv, where q = "SendTransfer n r t" and u = "[]" and l = "[]"] by simp
  have step: "choice_run_step x (TransferAnswered n r t a) =
      x\<lparr>cr_pending := ?ps, cr_choice := settle_resource_transfer n a (cr_choice x)\<rparr>"
    using q by (simp add: choice_run_step_def choice_step_def Let_def)
  show ?thesis
  proof (cases "is_active_transfer n (cr_choice x)")
    case True
    then have n: "?n = n" by (simp add: is_active_transfer_def is_current_revision_def)
    have "filter (transfers_of ?n) ?ps = []"
      using length_filter_remove1 [OF q, of "transfers_of ?n"] choice_inv_counts(2) [OF inv] n
      by (simp add: of_bool_def split: if_splits)
    with left True show ?thesis
      unfolding step by (cases a) (simp_all add: choice_inv_def Let_def settle_resource_transfer_def)
  next
    case False
    with left show ?thesis unfolding step by (simp add: settle_resource_transfer_def)
  qed
qed

lemma choice_use_answered:
  assumes inv: "choice_inv x" and q: "CheckUse n r \<in> set (cr_pending x)"
  shows "choice_inv (choice_run_step x (UseAnswered n r a))"
proof (cases "is_active_transfer n (cr_choice x)")
  case True
  then have n: "rr_revision (tc_revision (cr_choice x)) = n"
    by (simp add: is_active_transfer_def is_current_revision_def)
  with q have "loads_of (rr_revision (tc_revision (cr_choice x))) (CheckUse n r)" by simp
  note w = current_load_waits [OF inv q this]
  from inv q n have r: "tc_resource (cr_choice x) = r" by (auto simp: choice_inv_def Let_def list_all_iff)
  note m = choice_sent [OF inv, of _ "[]"] choice_fits [OF inv, of _ "CheckUse n r"]
  note facts = q True w n r m [of "[]"] m [of "[r]"]
  show ?thesis
  proof (cases a)
    case (Inl e)
    with facts show ?thesis
      by (simp add: choice_inv_def Let_def choice_run_step_def choice_step_def settle_use_check_def
          settle_availability_def)
  next
    case (Inr users)
    with facts show ?thesis
      by (cases users) (simp_all add: choice_inv_def Let_def choice_run_step_def choice_step_def
          settle_use_check_def settle_availability_def)
  qed
next
  case False
  then have "choice_run_step x (UseAnswered n r a) = x\<lparr>cr_pending := remove1 (CheckUse n r) (cr_pending x),
      cr_unused := cr_unused x @ said_unused (UseAnswered n r a), cr_listed := cr_listed x @ []\<rparr>"
    using q by (cases a) (simp_all add: choice_run_step_def choice_step_def settle_use_check_def
        settle_availability_def Let_def)
  then show ?thesis using choice_answer_frame [OF inv] by (simp only:)
qed

lemma choice_targets_answered:
  assumes inv: "choice_inv x" and q: "ListTargets n r \<in> set (cr_pending x)"
  shows "choice_inv (choice_run_step x (TargetsAnswered n r a))"
proof (cases "is_active_transfer n (cr_choice x)")
  case True
  then have n: "rr_revision (tc_revision (cr_choice x)) = n"
    by (simp add: is_active_transfer_def is_current_revision_def)
  with q have "loads_of (rr_revision (tc_revision (cr_choice x))) (ListTargets n r)" by simp
  note w = current_load_waits [OF inv q this]
  from inv q n have r: "tc_resource (cr_choice x) = r" "r \<in> set (cr_unused x)"
    by (auto simp: choice_inv_def Let_def list_all_iff)
  note m = choice_sent [OF inv, of "[]"] choice_fits [OF inv, of "[]" "ListTargets n r"]
  show ?thesis
    using q True w n r m(1) [of "said_listed (TargetsAnswered n r a)"] m(2)
    by (cases a) (auto simp: choice_inv_def Let_def choice_run_step_def choice_step_def settle_targets_def
        settle_availability_def to_targets_def may_go_def)
next
  case False
  then have "choice_run_step x (TargetsAnswered n r a) = x\<lparr>cr_pending := remove1 (ListTargets n r) (cr_pending x),
      cr_unused := cr_unused x @ [], cr_listed := cr_listed x @ said_listed (TargetsAnswered n r a)\<rparr>"
    using q by (cases a) (simp_all add: choice_run_step_def choice_step_def settle_targets_def
        settle_availability_def Let_def)
  then show ?thesis using choice_answer_frame [OF inv] by (simp only:)
qed


lemma choice_step_inv: "choice_inv x \<Longrightarrow> choice_inv (choice_run_step x e)"
proof (cases "request_of e")
  case (Some q)
  assume inv: "choice_inv x"
  show ?thesis
  proof (cases "q \<in> set (cr_pending x)")
    case True
    with Some inv show ?thesis
      by (cases e) (auto intro: choice_use_answered choice_targets_answered choice_transfer_answered)
  next
    case False
    with Some inv show ?thesis by (simp add: choice_run_step_def)
  qed
qed (rule choice_control)

interpretation choosing: invariant_machine choice_run_step choice_inv
  by unfold_locales (rule choice_step_inv)

lemma opened_choice_inv: "choice_inv (opened_choice_run resource)"
  by (simp add: choice_inv_def opened_choice_run_def start_data_load_def load_choice_def opened_transfer_def
      Let_def split_beta new_revision_def offered_def)

text \<open>C34: Whatever is selected, retried, reopened for another resource or answered, and in whatever order, every
  transfer that is sent is of a resource the server said nothing uses, to another workspace than its own that the
  server listed for it.\<close>

theorem unused_resources_go_to_listed_workspaces:
  "(let x = foldl choice_run_step (opened_choice_run resource) es
    in list_all (may_go (cr_unused x) (cr_listed x)) (cr_sent x))"
  using choosing.run_inv [OF opened_choice_inv, of resource es] by (simp add: choice_inv_def Let_def)

lemma one_transfer_at_a_time:
  "(let x = foldl choice_run_step (opened_choice_run resource) es
    in length (filter (transfers_of (rr_revision (tc_revision (cr_choice x)))) (cr_pending x)) \<le> 1)"
  using choosing.run_inv [OF opened_choice_inv, of resource es]
  by (auto simp: choice_inv_def Let_def of_bool_def split: if_splits)

end
