(* ===== verification/Verification_Config.thy ===== *)
theory Verification_Config
  imports Schedules Api_Errors
begin

text \<open>
  How the restore of a database's backups is verified automatically: the configuration's request, its changes and
  its completeness (\<open>pages/databases/model/verification\<close>), and the form that edits it
  (\<open>pages/databases/ui/verification/EditVerificationConfigComponent.tsx\<close>), with the load and the save cut at
  their awaits. An effect has a number; the next one makes it inactive.
\<close>

section \<open>The configuration\<close>

datatype verification_schedule_type = INTERVAL | AFTER_BACKUP
datatype verification_notification_type = VERIFICATION_SUCCESS | VERIFICATION_FAILED

record verification_config =
  vc_databaseId :: string
  vc_isAutomaticVerificationEnabled :: bool
  vc_scheduleType :: verification_schedule_type
  vc_schedule :: schedule
  vc_notificationTriggers :: "verification_notification_type list"

record verification_config_input =
  vi_isAutomaticVerificationEnabled :: bool
  vi_scheduleType :: verification_schedule_type
  vi_schedule :: schedule
  vi_notificationTriggers :: "verification_notification_type list"

definition build_verification_config_for_save ::
    "verification_config \<Rightarrow> verification_config \<Rightarrow> verification_config_input" where
  "build_verification_config_for_save acknowledged draft =
     (if \<not> vc_isAutomaticVerificationEnabled draft then
        \<lparr>vi_isAutomaticVerificationEnabled = False, vi_scheduleType = vc_scheduleType acknowledged,
         vi_schedule = vc_schedule acknowledged, vi_notificationTriggers = vc_notificationTriggers acknowledged\<rparr>
      else \<lparr>vi_isAutomaticVerificationEnabled = True, vi_scheduleType = vc_scheduleType draft,
         vi_schedule = (if vc_scheduleType draft = AFTER_BACKUP then vc_schedule acknowledged else vc_schedule draft),
         vi_notificationTriggers = vc_notificationTriggers draft\<rparr>)"

definition are_notifications_changed :: "verification_config \<Rightarrow> verification_config \<Rightarrow> bool" where
  "are_notifications_changed acknowledged shown \<longleftrightarrow>
     length (vc_notificationTriggers acknowledged) \<noteq> length (vc_notificationTriggers shown)
     \<or> list_ex (\<lambda>trigger. trigger \<notin> set (vc_notificationTriggers acknowledged)) (vc_notificationTriggers shown)"

definition is_verification_config_changed :: "verification_config \<Rightarrow> verification_config \<Rightarrow> bool" where
  "is_verification_config_changed acknowledged shown =
     (if vc_isAutomaticVerificationEnabled acknowledged \<noteq> vc_isAutomaticVerificationEnabled shown then True
      else if \<not> vc_isAutomaticVerificationEnabled shown then False
      else if vc_scheduleType acknowledged \<noteq> vc_scheduleType shown \<or> are_notifications_changed acknowledged shown then True
      else vc_scheduleType shown = INTERVAL \<and> is_schedule_changed (vc_schedule acknowledged) (vc_schedule shown))"

definition is_verification_config_complete :: "(schedule \<Rightarrow> bool) \<Rightarrow> verification_config \<Rightarrow> bool" where
  "is_verification_config_complete isScheduleComplete config =
     (if \<not> vc_isAutomaticVerificationEnabled config then True
      else if vc_scheduleType config = AFTER_BACKUP then True
      else isScheduleComplete (vc_schedule config))"

section \<open>The form\<close>

record verification_form =
  vf_databaseId :: string
  vf_acknowledgedConfig :: "verification_config option"
  vf_draft :: "verification_config option"
  vf_loadError :: "thrown option"
  vf_isSaving :: bool
  vf_saveError :: "thrown option"
  vf_effect :: nat
  vf_isActive :: bool
  vf_closed :: nat

definition opened_verification_form :: "string \<Rightarrow> verification_form" where
  "opened_verification_form databaseId = \<lparr>vf_databaseId = databaseId, vf_acknowledgedConfig = None, vf_draft = None,
     vf_loadError = None, vf_isSaving = False, vf_saveError = None, vf_effect = 0, vf_isActive = True, vf_closed = 0\<rparr>"

definition update_verification_draft ::
    "(verification_config \<Rightarrow> verification_config) \<Rightarrow> verification_form \<Rightarrow> verification_form" where
  "update_verification_draft patch f = f\<lparr>vf_draft := map_option patch (vf_draft f)\<rparr>"

text \<open>\<open>None\<close> chooses to verify after each backup.\<close>

definition select_verification_schedule :: "schedule_type option \<Rightarrow> verification_form \<Rightarrow> verification_form" where
  "select_verification_schedule choice = update_verification_draft (\<lambda>d. case choice of
       None \<Rightarrow> d\<lparr>vc_scheduleType := AFTER_BACKUP\<rparr>
     | Some t \<Rightarrow> d\<lparr>vc_scheduleType := INTERVAL, vc_schedule := (vc_schedule d)\<lparr>sc_type := t\<rparr>\<rparr>)"

definition toggle_notification :: "verification_notification_type \<Rightarrow> bool \<Rightarrow> verification_form \<Rightarrow> verification_form" where
  "toggle_notification t isChecked = update_verification_draft (\<lambda>d. d\<lparr>vc_notificationTriggers :=
     (if isChecked then vc_notificationTriggers d @ [t] else filter (\<lambda>x. x \<noteq> t) (vc_notificationTriggers d))\<rparr>)"

text \<open>The effect of the database and of every retry; it answers the number of its load.\<close>

definition run_verification_effect :: "string \<Rightarrow> verification_form \<Rightarrow> verification_form" where
  "run_verification_effect databaseId f = f\<lparr>vf_databaseId := databaseId, vf_effect := Suc (vf_effect f),
     vf_loadError := None, vf_acknowledgedConfig := None, vf_draft := None, vf_saveError := None, vf_isSaving := False\<rparr>"

definition settle_verification_load ::
    "nat \<Rightarrow> thrown + verification_config \<Rightarrow> verification_form \<Rightarrow> verification_form" where
  "settle_verification_load effect answer f =
     (if effect \<noteq> vf_effect f \<or> \<not> vf_isActive f then f
      else case answer of
        Inr loaded \<Rightarrow> f\<lparr>vf_acknowledgedConfig := Some loaded, vf_draft := Some loaded\<rparr>
      | Inl e \<Rightarrow> f\<lparr>vf_loadError := Some e\<rparr>)"

definition save_verification_draft ::
    "verification_form \<Rightarrow> verification_form \<times> (string \<times> verification_config_input) option" where
  "save_verification_draft f = (case (vf_acknowledgedConfig f, vf_draft f) of
       (Some a, Some d) \<Rightarrow> (f\<lparr>vf_isSaving := True, vf_saveError := None\<rparr>,
          Some (vf_databaseId f, build_verification_config_for_save a d))
     | _ \<Rightarrow> (f, None))"

definition settle_verification_save :: "string \<Rightarrow> thrown + unit \<Rightarrow> verification_form \<Rightarrow> verification_form" where
  "settle_verification_save databaseId answer f =
     (if \<not> (vf_isActive f \<and> vf_databaseId f = databaseId) then f
      else case answer of
        Inr _ \<Rightarrow> f\<lparr>vf_closed := Suc (vf_closed f)\<rparr>
      | Inl e \<Rightarrow> f\<lparr>vf_saveError := Some e, vf_isSaving := False\<rparr>)"

definition can_save_verification :: "(schedule \<Rightarrow> bool) \<Rightarrow> verification_form \<Rightarrow> bool" where
  "can_save_verification isScheduleComplete f = (case (vf_acknowledgedConfig f, vf_draft f) of
       (Some a, Some d) \<Rightarrow> is_verification_config_changed a d \<and> is_verification_config_complete isScheduleComplete d
     | _ \<Rightarrow> False)"

datatype verification_event =
    VSessionEnds | VShowDatabase string | VRetryLoad
  | VLoaded string nat "thrown + verification_config"
  | VEnable bool | VSelectSchedule "schedule_type option" | VEditSchedule schedule
  | VToggle verification_notification_type bool
  | VClickSave | VSaved string "thrown + unit"

text \<open>The notifications and the schedule are shown while the verification is on, the schedule's details when it
  runs on one; a checkbox is clicked from the state it shows.\<close>

definition shows_details :: "verification_form \<Rightarrow> bool" where
  "shows_details f \<longleftrightarrow> vf_loadError f = None \<and> vf_acknowledgedConfig f \<noteq> None
     \<and> (case vf_draft f of None \<Rightarrow> False | Some d \<Rightarrow> vc_isAutomaticVerificationEnabled d)"

definition is_trigger_checked :: "verification_notification_type \<Rightarrow> verification_form \<Rightarrow> bool" where
  "is_trigger_checked t f = (case vf_draft f of None \<Rightarrow> False | Some d \<Rightarrow> t \<in> set (vc_notificationTriggers d))"

definition verification_control ::
    "(schedule \<Rightarrow> bool) \<Rightarrow> verification_event \<Rightarrow> verification_form
      \<Rightarrow> verification_form \<times> (string \<times> verification_config_input) option" where
  "verification_control isScheduleComplete e f = (let quiet = (\<lambda>f. (f, None)) in case e of
       VSessionEnds \<Rightarrow> quiet (f\<lparr>vf_isActive := False\<rparr>)
     | VShowDatabase databaseId \<Rightarrow> if databaseId = vf_databaseId f then quiet f
         else quiet (run_verification_effect databaseId f)
     | VRetryLoad \<Rightarrow> if vf_loadError f = None then quiet f else quiet (run_verification_effect (vf_databaseId f) f)
     | VLoaded databaseId n a \<Rightarrow> quiet (settle_verification_load n a f)
     | VEnable b \<Rightarrow> quiet (update_verification_draft (\<lambda>d. d\<lparr>vc_isAutomaticVerificationEnabled := b\<rparr>) f)
     | VSelectSchedule choice \<Rightarrow> if shows_details f then quiet (select_verification_schedule choice f) else quiet f
     | VEditSchedule s \<Rightarrow> if shows_details f then quiet (update_verification_draft (\<lambda>d. d\<lparr>vc_schedule := s\<rparr>) f)
         else quiet f
     | VToggle t b \<Rightarrow> if shows_details f \<and> is_trigger_checked t f \<noteq> b then quiet (toggle_notification t b f) else quiet f
     | VClickSave \<Rightarrow> if can_save_verification isScheduleComplete f \<and> \<not> vf_isSaving f \<and> vf_loadError f = None
         then save_verification_draft f else quiet f
     | VSaved databaseId a \<Rightarrow> quiet (settle_verification_save databaseId a f))"

section \<open>The form offers to save exactly what changes the request\<close>

text \<open>Two requests ask for the same: what is read of them is equal, the notifications as a set.\<close>

definition same_request :: "verification_config_input \<Rightarrow> verification_config_input \<Rightarrow> bool" where
  "same_request x y \<longleftrightarrow> vi_isAutomaticVerificationEnabled x = vi_isAutomaticVerificationEnabled y
     \<and> vi_scheduleType x = vi_scheduleType y
     \<and> set (vi_notificationTriggers x) = set (vi_notificationTriggers y)
     \<and> \<not> is_schedule_changed (vi_schedule x) (vi_schedule y)"

lemma notifications_changed_iff:
  assumes "distinct (vc_notificationTriggers a)" "distinct (vc_notificationTriggers d)"
  shows "are_notifications_changed a d \<longleftrightarrow> set (vc_notificationTriggers a) \<noteq> set (vc_notificationTriggers d)"
proof
  assume c: "are_notifications_changed a d"
  then show "set (vc_notificationTriggers a) \<noteq> set (vc_notificationTriggers d)"
    using assms by (auto simp: are_notifications_changed_def list_ex_iff distinct_card [symmetric])
next
  assume n: "set (vc_notificationTriggers a) \<noteq> set (vc_notificationTriggers d)"
  show "are_notifications_changed a d"
  proof (rule ccontr)
    assume "\<not> are_notifications_changed a d"
    then have sub: "set (vc_notificationTriggers d) \<subseteq> set (vc_notificationTriggers a)"
      and len: "length (vc_notificationTriggers a) = length (vc_notificationTriggers d)"
      by (auto simp: are_notifications_changed_def list_ex_iff)
    from len assms have "card (set (vc_notificationTriggers a)) = card (set (vc_notificationTriggers d))"
      by (simp add: distinct_card)
    with sub n show False by (metis List.finite_set card_subset_eq)
  qed
qed



section \<open>What is hidden is saved as it was loaded\<close>

text \<open>The form, the loads on their way (database and effect), what the server answered, and the saves sent.\<close>

record verification_run =
  vr_form :: verification_form
  vr_loads :: "(string \<times> nat) list"
  vr_loaded :: "(string \<times> verification_config) list"
  vr_sent :: "(string \<times> verification_config_input) list"

definition verification_step ::
    "(schedule \<Rightarrow> bool) \<Rightarrow> verification_run \<Rightarrow> verification_event \<Rightarrow> verification_run" where
  "verification_step ok x e = (let r = verification_control ok e (vr_form x);
       answered = (case e of VLoaded db n (Inr c) \<Rightarrow> [(db, c)] | _ \<Rightarrow> []);
       left = (case e of VLoaded db n a \<Rightarrow> remove1 (db, n) (vr_loads x) | _ \<Rightarrow> vr_loads x);
       started = (if vf_effect (fst r) = vf_effect (vr_form x) then [] else [(vf_databaseId (fst r), vf_effect (fst r))])
     in if (case e of VLoaded db n a \<Rightarrow> (db, n) \<notin> set (vr_loads x) | _ \<Rightarrow> False) then x
        else \<lparr>vr_form = fst r, vr_loads = left @ started, vr_loaded = vr_loaded x @ answered,
              vr_sent = vr_sent x @ (case snd r of None \<Rightarrow> [] | Some q \<Rightarrow> [q])\<rparr>)"

definition opened_verification_run :: "string \<Rightarrow> verification_run" where
  "opened_verification_run databaseId =
     \<lparr>vr_form = run_verification_effect databaseId (opened_verification_form databaseId), vr_loads = [(databaseId, 1)],
      vr_loaded = [], vr_sent = []\<rparr>"

text \<open>A save keeps of a loaded configuration what it hides, and a schedule it does not hide is complete.\<close>

definition keeps_hidden ::
    "(schedule \<Rightarrow> bool) \<Rightarrow> verification_config \<Rightarrow> verification_config_input \<Rightarrow> bool" where
  "keeps_hidden ok c i =
     (if \<not> vi_isAutomaticVerificationEnabled i
      then vi_scheduleType i = vc_scheduleType c \<and> vi_schedule i = vc_schedule c
        \<and> vi_notificationTriggers i = vc_notificationTriggers c
      else if vi_scheduleType i = AFTER_BACKUP then vi_schedule i = vc_schedule c
      else ok (vi_schedule i))"

definition saved_as_loaded ::
    "(schedule \<Rightarrow> bool) \<Rightarrow> (string \<times> verification_config) list \<Rightarrow> string \<times> verification_config_input \<Rightarrow> bool" where
  "saved_as_loaded ok loaded s \<longleftrightarrow> list_ex (\<lambda>l. fst l = fst s \<and> keeps_hidden ok (snd l) (snd s)) loaded"

definition verification_inv :: "(schedule \<Rightarrow> bool) \<Rightarrow> verification_run \<Rightarrow> bool" where
  "verification_inv ok x \<longleftrightarrow> (let f = vr_form x in
     list_all (saved_as_loaded ok (vr_loaded x)) (vr_sent x)
     \<and> (\<forall>l\<in>set (vr_loads x). snd l \<le> vf_effect f \<and> (snd l = vf_effect f \<longrightarrow> fst l = vf_databaseId f))
     \<and> (\<forall>c. vf_acknowledgedConfig f = Some c \<longrightarrow> (vf_databaseId f, c) \<in> set (vr_loaded x)))"

lemma saved_as_loaded_more: "saved_as_loaded ok l s \<Longrightarrow> saved_as_loaded ok (l @ l') s"
  by (simp add: saved_as_loaded_def)

lemma saved_more: "list_all (saved_as_loaded ok l) ss \<Longrightarrow> list_all (saved_as_loaded ok (l @ l')) ss"
  by (auto simp: list_all_iff intro: saved_as_loaded_more)

lemma built_keeps_hidden:
  "is_verification_config_complete ok d \<Longrightarrow> keeps_hidden ok a (build_verification_config_for_save a d)"
  by (auto simp: keeps_hidden_def build_verification_config_for_save_def is_verification_config_complete_def)

lemma built_saved:
  "(db, a) \<in> set loaded \<Longrightarrow> is_verification_config_complete ok d \<Longrightarrow>
    saved_as_loaded ok loaded (db, build_verification_config_for_save a d)"
  using built_keeps_hidden [of ok d a] by (force simp: saved_as_loaded_def list_ex_iff)

lemmas verification_edits = update_verification_draft_def select_verification_schedule_def toggle_notification_def

lemma verification_step_inv:
  assumes inv: "verification_inv ok x"
  shows "verification_inv ok (verification_step ok x e)"
proof (cases e)
  case (VLoaded db n a)
  with inv show ?thesis
    by (cases a) (auto simp: verification_inv_def verification_step_def verification_control_def Let_def
        settle_verification_load_def intro: saved_more dest: set_mp [OF set_remove1_subset])
next
  case VClickSave
  with inv show ?thesis
    by (auto simp: verification_inv_def verification_step_def verification_control_def Let_def
        can_save_verification_def save_verification_draft_def 
        intro: built_saved split: option.splits)
next
  case (VSaved db a)
  with inv show ?thesis
    by (cases a) (auto simp: verification_inv_def verification_step_def verification_control_def Let_def
        settle_verification_save_def)
qed (use inv in \<open>force simp: verification_inv_def verification_step_def verification_control_def Let_def
    run_verification_effect_def verification_edits\<close>)+

interpretation verification_form: invariant_machine "verification_step ok" "verification_inv ok" for ok
  by unfold_locales (rule verification_step_inv)

lemma opened_verification_inv: "verification_inv ok (opened_verification_run databaseId)"
  by (simp add: verification_inv_def opened_verification_run_def run_verification_effect_def opened_verification_form_def)

lemma hidden_values_are_saved_as_loaded:
  "(let x = foldl (verification_step ok) (opened_verification_run databaseId) es
    in list_all (saved_as_loaded ok (vr_loaded x)) (vr_sent x))"
  using verification_form.run_inv [OF opened_verification_inv, of ok databaseId es]
  by (simp add: verification_inv_def Let_def)

text \<open>The checkboxes keep each notification at most once.\<close>

lemma toggling_keeps_distinct:
  assumes "vf_draft f = Some d" "distinct (vc_notificationTriggers d)" "is_trigger_checked t f \<noteq> b"
  shows "distinct (vc_notificationTriggers (the (vf_draft (toggle_notification t b f))))"
  using assms by (auto simp: toggle_notification_def update_verification_draft_def is_trigger_checked_def)

text \<open>Choosing a schedule and going back leaves the request as it was.\<close>

lemma after_backup_hides_the_schedule:
  assumes "vf_acknowledgedConfig f = Some a" "vf_draft f = Some d" "vc_isAutomaticVerificationEnabled d"
    and "vc_scheduleType d = AFTER_BACKUP"
  shows "build_verification_config_for_save a
      (the (vf_draft (select_verification_schedule None (select_verification_schedule (Some t) f))))
    = build_verification_config_for_save a d"
  using assms by (simp add: verification_edits build_verification_config_for_save_def)

end
