(* ===== verification/Workspace_Settings.thy ===== *)
theory Workspace_Settings
  imports Storage_Screen App_State Js_Text
begin

text \<open>
  The settings of a workspace (\<open>pages/workspace-settings/ui/WorkspaceSettingsComponent.tsx\<close>): its load, its name,
  and its deletion behind a dialog, which first asks for the workspace's databases. Requests are cut at their awaits.
  The dialog is antd's: its confirming button acts once and waits for the promise.
\<close>

section \<open>The state\<close>

text \<open>A workspace is its id and its name; the form's name may be missing while nothing is loaded.\<close>

record workspace_settings =
  ws_selectedId :: string
  ws_workspace :: "(string \<times> string) option"
  ws_isLoading :: bool
  ws_loadError :: "thrown option"
  ws_mutationError :: "thrown option"
  ws_isSaving :: bool
  ws_isDeleting :: bool
  ws_formName :: "string option"
  ws_isNameError :: bool
  ws_revision :: request_revision
  ws_isCurrent :: bool
  ws_dialog :: "(nat \<times> string) option"
  ws_renamed :: "(string \<times> string) list"
  ws_deleted :: "string list"
  ws_unavailable :: nat

definition opened_settings :: "string \<Rightarrow> workspace_settings" where
  "opened_settings selectedId = \<lparr>ws_selectedId = selectedId, ws_workspace = None, ws_isLoading = True,
     ws_loadError = None, ws_mutationError = None, ws_isSaving = False, ws_isDeleting = False, ws_formName = None,
     ws_isNameError = False, ws_revision = new_revision, ws_isCurrent = True, ws_dialog = None, ws_renamed = [],
     ws_deleted = [], ws_unavailable = 0\<rparr>"

datatype settings_request =
    LoadWorkspace nat
  | RenameWorkspace nat string string string
  | ListDatabases nat string
  | DeleteWorkspace nat string

definition is_active_workspace :: "nat \<Rightarrow> workspace_settings \<Rightarrow> bool" where
  "is_active_workspace revision s \<longleftrightarrow> ws_isCurrent s \<and> is_current_revision (ws_revision s) revision"

definition has_status :: "int set \<Rightarrow> thrown \<Rightarrow> bool" where
  "has_status ns e = (case e of ApiFailure a \<Rightarrow> nullish (ae_status a) 0 \<in> ns | OtherError \<Rightarrow> False)"

section \<open>What makes the workspace unavailable\<close>

definition handle_unavailable :: "thrown \<Rightarrow> workspace_settings \<Rightarrow> workspace_settings" where
  "handle_unavailable e s =
     (if \<not> ws_isCurrent s then s
      else s\<lparr>ws_revision := snd (invalidate (ws_revision s)), ws_dialog := None, ws_workspace := None,
             ws_formName := None, ws_loadError := Some e, ws_isLoading := False, ws_isSaving := False,
             ws_isDeleting := False, ws_unavailable := Suc (ws_unavailable s)\<rparr>)"

definition handle_mutation_failure :: "thrown \<Rightarrow> workspace_settings \<Rightarrow> workspace_settings" where
  "handle_mutation_failure e s =
     (if has_status {404} e then handle_unavailable e s else s\<lparr>ws_mutationError := Some e\<rparr>)"

section \<open>Loading\<close>

definition load_workspace :: "workspace_settings \<Rightarrow> workspace_settings \<times> settings_request option" where
  "load_workspace s = (let (revision, r) = invalidate (ws_revision s)
     in (s\<lparr>ws_revision := r, ws_isLoading := True, ws_loadError := None, ws_workspace := None, ws_formName := None\<rparr>,
         Some (LoadWorkspace revision)))"

definition settle_workspace_load :: "nat \<Rightarrow> thrown + string \<times> string \<Rightarrow> workspace_settings \<Rightarrow> workspace_settings" where
  "settle_workspace_load revision answer s =
     (if \<not> is_active_workspace revision s then s
      else (case answer of
          Inr w \<Rightarrow> s\<lparr>ws_workspace := Some w, ws_formName := Some (snd w), ws_isNameError := False\<rparr>
        | Inl e \<Rightarrow> s\<lparr>ws_loadError := Some e,
            ws_unavailable := (if has_status {403, 404} e then Suc (ws_unavailable s) else ws_unavailable s)\<rparr>)
        \<lparr>ws_isLoading := False\<rparr>)"

section \<open>The name\<close>

definition change_form_name :: "string \<Rightarrow> workspace_settings \<Rightarrow> workspace_settings" where
  "change_form_name name s = s\<lparr>ws_isNameError := False, ws_formName := Some name\<rparr>"

definition reset_form_name :: "workspace_settings \<Rightarrow> workspace_settings" where
  "reset_form_name s = (case ws_workspace s of
       None \<Rightarrow> s | Some w \<Rightarrow> s\<lparr>ws_formName := Some (snd w), ws_isNameError := False\<rparr>)"

definition save_basic_info :: "bool \<Rightarrow> workspace_settings \<Rightarrow> workspace_settings \<times> settings_request option" where
  "save_basic_info canEdit s = (case ws_workspace s of
       None \<Rightarrow> (s, None)
     | Some w \<Rightarrow>
         if ws_isSaving s \<or> \<not> canEdit \<or> ws_formName s = Some (snd w) then (s, None)
         else (let submittedName = nullish (ws_formName s) []
           in if trim submittedName = [] then (s\<lparr>ws_isNameError := True\<rparr>, None)
              else (s\<lparr>ws_isNameError := False, ws_mutationError := None, ws_isSaving := True\<rparr>,
                    Some (RenameWorkspace (get_current (ws_revision s)) (fst w) (trim submittedName) submittedName))))"

definition settle_rename ::
    "nat \<Rightarrow> string \<Rightarrow> thrown + string \<times> string \<Rightarrow> workspace_settings \<Rightarrow> workspace_settings" where
  "settle_rename revision submittedName answer s =
     (if \<not> is_active_workspace revision s then s
      else let s1 = (case answer of
          Inr updated \<Rightarrow> s\<lparr>ws_workspace := Some updated,
            ws_formName := (if ws_formName s = Some submittedName then Some (snd updated) else ws_formName s),
            ws_renamed := ws_renamed s @ [updated]\<rparr>
        | Inl e \<Rightarrow> handle_mutation_failure e s)
      in if is_active_workspace revision s1 then s1\<lparr>ws_isSaving := False\<rparr> else s1)"

section \<open>The deletion\<close>

text \<open>The dialog remembers the revision it was opened under and the workspace.\<close>

definition handle_delete_workspace :: "bool \<Rightarrow> workspace_settings \<Rightarrow> workspace_settings" where
  "handle_delete_workspace canDelete s = (case ws_workspace s of
       None \<Rightarrow> s
     | Some w \<Rightarrow> if \<not> canDelete then s else s\<lparr>ws_dialog := Some (get_current (ws_revision s), fst w)\<rparr>)"

text \<open>The dialog closes when its promise ends; while it waits it cannot be confirmed again.\<close>

definition confirm_deletion :: "workspace_settings \<Rightarrow> workspace_settings \<times> settings_request option" where
  "confirm_deletion s = (case ws_dialog s of
       None \<Rightarrow> (s, None)
     | Some (revision, workspaceId) \<Rightarrow>
         if \<not> is_active_workspace revision s then (s\<lparr>ws_dialog := None\<rparr>, None)
         else (s\<lparr>ws_dialog := None, ws_isDeleting := True\<rparr>, Some (ListDatabases revision workspaceId)))"

definition decline_deletion :: "workspace_settings \<Rightarrow> workspace_settings" where
  "decline_deletion s = s\<lparr>ws_dialog := None\<rparr>"

definition end_deletion :: "nat \<Rightarrow> workspace_settings \<Rightarrow> workspace_settings" where
  "end_deletion revision s = (if is_active_workspace revision s then s\<lparr>ws_isDeleting := False\<rparr> else s)"

definition settle_databases ::
    "nat \<Rightarrow> string \<Rightarrow> thrown + nat \<Rightarrow> workspace_settings \<Rightarrow> workspace_settings \<times> settings_request option" where
  "settle_databases revision workspaceId answer s =
     (if \<not> is_active_workspace revision s then (s, None)
      else case answer of
        Inl e \<Rightarrow> (end_deletion revision (handle_mutation_failure e s), None)
      | Inr databases \<Rightarrow> if 0 < databases then (end_deletion revision s, None)
          else (s, Some (DeleteWorkspace revision workspaceId)))"

definition settle_deletion :: "nat \<Rightarrow> string \<Rightarrow> thrown + unit \<Rightarrow> workspace_settings \<Rightarrow> workspace_settings" where
  "settle_deletion revision workspaceId answer s =
     (if \<not> is_active_workspace revision s then s
      else case answer of
        Inl e \<Rightarrow> end_deletion revision (handle_mutation_failure e s)
      | Inr _ \<Rightarrow> end_deletion revision (s\<lparr>ws_deleted := ws_deleted s @ [workspaceId]\<rparr>))"

section \<open>Rights and controls\<close>

definition can_edit_settings :: "user_role \<Rightarrow> workspace_role option \<Rightarrow> bool" where
  "can_edit_settings role currentRole \<longleftrightarrow>
     role = INSTANCE_ADMIN \<or> currentRole = Some WORKSPACE_OWNER \<or> currentRole = Some WORKSPACE_ADMIN"

definition can_delete_settings :: "user_role \<Rightarrow> workspace_role option \<Rightarrow> bool" where
  "can_delete_settings role currentRole \<longleftrightarrow> role = INSTANCE_ADMIN \<or> currentRole = Some WORKSPACE_OWNER"

datatype settings_event =
    WSessionEnds | WRetryLoad | WChangeName string | WResetName | WClickSave
  | WClickDelete | WConfirmDelete | WDeclineDelete | WReportUnavailable thrown

text \<open>A control acts where it is shown and enabled; the dialog is above everything. The list of members and the audit
  log report that the workspace is unavailable.\<close>

definition settings_control ::
    "user_role \<Rightarrow> workspace_role option \<Rightarrow> settings_event \<Rightarrow> workspace_settings
      \<Rightarrow> workspace_settings \<times> settings_request option" where
  "settings_control role currentRole e s = (let shown = \<not> ws_isLoading s \<and> ws_loadError s = None \<and> ws_workspace s \<noteq> None;
       canEdit = can_edit_settings role currentRole; canDelete = can_delete_settings role currentRole;
       isChanged = ws_workspace s \<noteq> None \<and> ws_formName s \<noteq> map_option snd (ws_workspace s);
       quiet = (\<lambda>s. (s, None)) in case e of
       WSessionEnds \<Rightarrow> quiet (s\<lparr>ws_isCurrent := False\<rparr>)
     | WRetryLoad \<Rightarrow> if \<not> ws_isLoading s \<and> ws_loadError s \<noteq> None then load_workspace s else quiet s
     | WChangeName name \<Rightarrow> if shown \<and> canEdit then quiet (change_form_name name s) else quiet s
     | WResetName \<Rightarrow> if shown \<and> canEdit \<and> isChanged \<and> \<not> ws_isSaving s then quiet (reset_form_name s) else quiet s
     | WClickSave \<Rightarrow> if shown \<and> canEdit \<and> isChanged then save_basic_info canEdit s else quiet s
     | WClickDelete \<Rightarrow> if shown \<and> canDelete \<and> \<not> ws_isDeleting s \<and> \<not> ws_isSaving s
         then quiet (handle_delete_workspace canDelete s) else quiet s
     | WConfirmDelete \<Rightarrow> confirm_deletion s
     | WDeclineDelete \<Rightarrow> quiet (decline_deletion s)
     | WReportUnavailable e \<Rightarrow> if shown then quiet (handle_unavailable e s) else quiet s)"

datatype settings_answer =
    LoadedWorkspace "thrown + string \<times> string"
  | RenamedWorkspace "thrown + string \<times> string"
  | ListedDatabases "thrown + nat"
  | DeletedWorkspace "thrown + unit"

definition settle_settings_request ::
    "settings_request \<Rightarrow> settings_answer \<Rightarrow> workspace_settings \<Rightarrow> workspace_settings \<times> settings_request option" where
  "settle_settings_request q answer s = (case (q, answer) of
       (LoadWorkspace n, LoadedWorkspace a) \<Rightarrow> (settle_workspace_load n a s, None)
     | (RenameWorkspace n i name submitted, RenamedWorkspace a) \<Rightarrow> (settle_rename n submitted a s, None)
     | (ListDatabases n i, ListedDatabases a) \<Rightarrow> settle_databases n i a s
     | (DeleteWorkspace n i, DeletedWorkspace a) \<Rightarrow> (settle_deletion n i a s, None)
     | _ \<Rightarrow> (s, None))"

fun answers_settings :: "settings_request \<Rightarrow> settings_answer \<Rightarrow> bool" where
  "answers_settings (LoadWorkspace n) (LoadedWorkspace a) = True"
| "answers_settings (RenameWorkspace n i name submitted) (RenamedWorkspace a) = True"
| "answers_settings (ListDatabases n i) (ListedDatabases a) = True"
| "answers_settings (DeleteWorkspace n i) (DeletedWorkspace a) = True"
| "answers_settings _ _ = False"

section \<open>One deletion and one renaming at a time\<close>

text \<open>A load has a flag of its own, kept in the place of a test's.\<close>

primrec settings_token :: "settings_request \<Rightarrow> request_kind \<times> nat \<times> nat" where
  "settings_token (LoadWorkspace n) = (Testing, n, 0)"
| "settings_token (RenameWorkspace n i name submitted) = (Saving, n, 0)"
| "settings_token (ListDatabases n i) = (Removing, n, 0)"
| "settings_token (DeleteWorkspace n i) = (Removing, n, 0)"

text \<open>The screen, the requests on their way, the requests sent, and the workspaces the server said have no
  databases, with the revision they were asked under.\<close>

record settings_run =
  wr_screen :: workspace_settings
  wr_pending :: "settings_request list"
  wr_sent :: "settings_request list"
  wr_empty :: "(nat \<times> string) list"

datatype settings_run_event = SControl settings_event | SAnswer settings_request settings_answer

definition settings_sent ::
    "workspace_settings \<times> settings_request option \<Rightarrow> settings_request list \<Rightarrow> (nat \<times> string) list
      \<Rightarrow> settings_run \<Rightarrow> settings_run" where
  "settings_sent r ps empties x = \<lparr>wr_screen = fst r,
     wr_pending = ps @ (case snd r of None \<Rightarrow> [] | Some q \<Rightarrow> [q]),
     wr_sent = wr_sent x @ (case snd r of None \<Rightarrow> [] | Some q \<Rightarrow> [q]), wr_empty = wr_empty x @ empties\<rparr>"

fun said_empty :: "settings_request \<Rightarrow> settings_answer \<Rightarrow> (nat \<times> string) list" where
  "said_empty (ListDatabases n i) (ListedDatabases (Inr 0)) = [(n, i)]"
| "said_empty _ _ = []"

primrec settings_step ::
    "user_role \<Rightarrow> workspace_role option \<Rightarrow> settings_run \<Rightarrow> settings_run_event \<Rightarrow> settings_run" where
  "settings_step role currentRole x (SControl e) =
     settings_sent (settings_control role currentRole e (wr_screen x)) (wr_pending x) [] x"
| "settings_step role currentRole x (SAnswer q a) =
     (if q \<notin> set (wr_pending x) \<or> \<not> answers_settings q a then x
      else settings_sent (settle_settings_request q a (wr_screen x)) (remove1 q (wr_pending x)) (said_empty q a) x)"

definition opened_settings_run :: "string \<Rightarrow> settings_run" where
  "opened_settings_run selectedId = settings_sent (load_workspace (opened_settings selectedId)) [] []
     \<lparr>wr_screen = opened_settings selectedId, wr_pending = [], wr_sent = [], wr_empty = []\<rparr>"

definition settings_flags :: "workspace_settings \<Rightarrow> settings_request list \<Rightarrow> bool" where
  "settings_flags s ps \<longleftrightarrow> flags_shown settings_token (rr_revision (ws_revision s)) 0 (ws_isCurrent s) (ws_isLoading s)
       (ws_isDeleting s) (ws_isSaving s) False ps
     \<and> (ws_dialog s \<noteq> None \<longrightarrow> \<not> ws_isDeleting s)
     \<and> (ws_isLoading s \<or> ws_loadError s \<noteq> None \<longrightarrow> \<not> ws_isDeleting s \<and> \<not> ws_isSaving s \<and> ws_dialog s = None)"

lemma flags_shown_superseded:
  assumes "flags_shown tk c t cur te re sa ed ps" "c < c'" "t \<le> t'"
  shows "flags_shown tk c' t' cur2 False False False ed2 ps"
  using assms no_later_context [of ps tk c c'] by (fastforce simp: flags_shown_def)

lemma flags_shown_reload:
  assumes "flags_shown tk c t cur te re sa ed ps" "c < c'" "tk q = (Testing, c', t)"
  shows "flags_shown tk c' t cur True False False False (ps @ [q])"
  using assms no_later_context [of ps tk c c'] by (fastforce simp: flags_shown_def)

lemma unavailable_flags: "settings_flags s ps \<Longrightarrow> settings_flags (handle_unavailable e s) ps"
  by (auto simp: settings_flags_def handle_unavailable_def intro!: flags_shown_superseded)

lemma settings_flags_control:
  assumes "settings_flags s ps"
  shows "settings_flags (fst (settings_control role currentRole e s))
     (ps @ (case snd (settings_control role currentRole e s) of None \<Rightarrow> [] | Some q \<Rightarrow> [q]))"
proof (cases e)
  case WRetryLoad
  with assms show ?thesis
    by (auto simp: settings_control_def Let_def load_workspace_def settings_flags_def split_beta
        intro!: flags_shown_reload)
next
  case WClickSave
  with assms show ?thesis
    by (auto simp: settings_control_def Let_def save_basic_info_def settings_flags_def get_current_def
        intro!: flags_shown_save split: option.split)
next
  case WConfirmDelete
  with assms show ?thesis
    by (auto simp: settings_control_def Let_def confirm_deletion_def settings_flags_def is_active_workspace_def
        is_current_revision_def intro!: flags_shown_removal split: option.split)
next
  case WSessionEnds
  with assms show ?thesis
    by (auto simp: settings_control_def Let_def settings_flags_def intro: flags_shown_end)
next
  case (WReportUnavailable f)
  with assms unavailable_flags show ?thesis by (simp add: settings_control_def Let_def)
next
  case WClickDelete
  with assms show ?thesis
    by (auto simp: settings_control_def Let_def handle_delete_workspace_def settings_flags_def split: option.split)
qed (use assms in \<open>auto simp: settings_control_def Let_def change_form_name_def reset_form_name_def
  decline_deletion_def settings_flags_def split: option.split\<close>)


definition settled_flags :: "settings_request \<Rightarrow> workspace_settings \<Rightarrow> workspace_settings" where
  "settled_flags q s = (let counts = (\<lambda>k. ws_isCurrent s \<and> settings_token q = (k, rr_revision (ws_revision s), 0))
     in s\<lparr>ws_isLoading := ws_isLoading s \<and> \<not> counts Testing, ws_isDeleting := ws_isDeleting s \<and> \<not> counts Removing,
          ws_isSaving := ws_isSaving s \<and> \<not> counts Saving\<rparr>)"

lemma settled_flags_shown:
  assumes "settings_flags s ps" "q \<in> set ps"
  shows "settings_flags (settled_flags q s) (remove1 q ps)"
  using assms flags_shown_answer [of settings_token "rr_revision (ws_revision s)" 0 "ws_isCurrent s" "ws_isLoading s"
      "ws_isDeleting s" "ws_isSaving s" False ps q]
  by (auto simp: settings_flags_def settled_flags_def Let_def)

lemma settings_request_counts:
  assumes "settings_flags s ps" "q \<in> set ps" "settings_token q = (k, rr_revision (ws_revision s), 0)"
  shows "k = Testing \<Longrightarrow> ws_isLoading s" "k = Removing \<Longrightarrow> ws_isDeleting s" "k = Saving \<Longrightarrow> ws_isSaving s"
  using assms counted_pos [where tk = settings_token, OF assms(2,3)]
  by (auto simp: settings_flags_def flags_shown_def shown_by_def of_bool_def split: if_splits)

lemma deletion_goes_on:
  assumes "settings_flags (settled_flags (ListDatabases n i) s) ps" "is_active_workspace n s" "ws_isDeleting s"
    "\<not> ws_isLoading s" "ws_loadError s = None" "ws_dialog s = None"
  shows "settings_flags s (ps @ [DeleteWorkspace n i])"
proof -
  have n: "rr_revision (ws_revision s) = n" "ws_isCurrent s"
    using assms(2) by (simp_all add: is_active_workspace_def is_current_revision_def)
  have "flags_shown settings_token n 0 True False False (ws_isSaving s) False ps"
    using assms(1) n assms(3-6) by (simp add: settings_flags_def settled_flags_def Let_def)
  from flags_shown_removal [OF this, of "DeleteWorkspace n i"] n assms(3-6) show ?thesis
    by (simp add: settings_flags_def)
qed

lemma settings_flags_answer:
  assumes inv: "settings_flags s ps" and q: "q \<in> set ps" and a: "answers_settings q a"
  shows "settings_flags (fst (settle_settings_request q a s))
     (remove1 q ps @ (case snd (settle_settings_request q a s) of None \<Rightarrow> [] | Some r \<Rightarrow> [r]))"
proof (cases "ws_isCurrent s \<and> fst (snd (settings_token q)) = rr_revision (ws_revision s)")
  case False
  have "settled_flags q s = s" using False by (cases q) (auto simp: settled_flags_def Let_def)
  moreover have "settle_settings_request q a s = (s, None)"
    using False a by (cases q; cases a) (auto simp: settle_settings_request_def settle_workspace_load_def
        settle_rename_def settle_databases_def settle_deletion_def is_active_workspace_def is_current_revision_def)
  ultimately show ?thesis using settled_flags_shown [OF inv q] by simp
next
  case True
  note left = settled_flags_shown [OF inv q]
  have un: "handle_unavailable e (settled_flags q s) = handle_unavailable e s" for e
    using True by (simp add: handle_unavailable_def settled_flags_def Let_def)
  note gone = unavailable_flags [OF left, unfolded un]
  show ?thesis
  proof (cases q)
    case (LoadWorkspace n)
    with True have "ws_isLoading s" using settings_request_counts(1) [OF inv q] by auto
    with inv left LoadWorkspace True a show ?thesis
      by (cases a) (auto simp: settle_settings_request_def settle_workspace_load_def is_active_workspace_def
          is_current_revision_def settings_flags_def settled_flags_def Let_def split: sum.split)
  next
    case (RenameWorkspace n i name submitted)
    with True have "ws_isSaving s" using settings_request_counts(3) [OF inv q] by auto
    with inv left gone RenameWorkspace True a show ?thesis
      by (cases a) (auto simp: settle_settings_request_def settle_rename_def is_active_workspace_def
          is_current_revision_def settings_flags_def settled_flags_def Let_def handle_mutation_failure_def
          handle_unavailable_def split: sum.split)
  next
    case (DeleteWorkspace n i)
    with True have "ws_isDeleting s" using settings_request_counts(2) [OF inv q] by auto
    with inv left gone DeleteWorkspace True a show ?thesis
      by (cases a) (auto simp: settle_settings_request_def settle_deletion_def is_active_workspace_def
          is_current_revision_def settings_flags_def settled_flags_def Let_def handle_mutation_failure_def
          handle_unavailable_def end_deletion_def split: sum.split)
  next
    case (ListDatabases n i)
    with True have d: "ws_isDeleting s" using settings_request_counts(2) [OF inv q] by auto
    with inv have idle: "\<not> ws_isLoading s" "ws_loadError s = None" "ws_dialog s = None"
      by (auto simp: settings_flags_def simp del: not_None_eq)
    from True ListDatabases have act: "is_active_workspace n s"
      by (simp add: is_active_workspace_def is_current_revision_def)
    from a ListDatabases obtain b where b: "a = ListedDatabases b" by (cases a) simp_all
    show ?thesis
    proof (cases "b = Inr 0")
      case True
      with deletion_goes_on [OF left [unfolded ListDatabases] act d idle] act b ListDatabases show ?thesis
        by (simp add: settle_settings_request_def settle_databases_def)
    next
      case False
      with inv left gone ListDatabases act d b show ?thesis
        by (cases b) (auto simp: settle_settings_request_def settle_databases_def is_active_workspace_def
            is_current_revision_def settings_flags_def settled_flags_def Let_def handle_mutation_failure_def
            handle_unavailable_def end_deletion_def)
    qed
  qed
qed

interpretation settings_flags: invariant_machine "settings_step role currentRole"
  "\<lambda>x. settings_flags (wr_screen x) (wr_pending x)" for role currentRole
proof unfold_locales
  show "settings_flags (wr_screen (settings_step role currentRole x e)) (wr_pending (settings_step role currentRole x e))"
    if "settings_flags (wr_screen x) (wr_pending x)" for x e
    using that by (cases e) (simp_all add: settings_sent_def settings_flags_control settings_flags_answer)
qed

lemma opened_settings_flags:
  "settings_flags (wr_screen (opened_settings_run i)) (wr_pending (opened_settings_run i))"
  by (simp add: opened_settings_run_def settings_sent_def load_workspace_def opened_settings_def settings_flags_def
      flags_shown_def shown_by_def invalidate_def new_revision_def Let_def split_beta)

lemma one_deletion_at_a_time:
  assumes "settings_flags s ps"
  shows "counted settings_token Removing (rr_revision (ws_revision s)) 0 ps \<le> 1"
  using assms by (cases "ws_isDeleting s") (simp_all add: settings_flags_def flags_shown_def shown_by_def)

section \<open>Only an empty workspace is deleted\<close>

text \<open>A deletion was asked for in a dialog, by someone who may, and its workspace was said to hold no database
  after that, with nothing loaded in between.\<close>

definition deletes_empty :: "settings_run \<Rightarrow> bool" where
  "deletes_empty x \<longleftrightarrow> list_all (\<lambda>q. case q of DeleteWorkspace n i \<Rightarrow> (n, i) \<in> set (wr_empty x) | _ \<Rightarrow> True) (wr_sent x)
     \<and> (\<forall>(n, i) \<in> set (wr_empty x). ListDatabases n i \<in> set (wr_sent x))
     \<and> set (wr_pending x) \<subseteq> set (wr_sent x)"

lemma control_deletes_nothing:
  "snd (settings_control role currentRole e s) \<noteq> Some (DeleteWorkspace n i)"
  by (cases e) (auto simp: settings_control_def Let_def load_workspace_def save_basic_info_def confirm_deletion_def
      split_beta split: option.splits)

lemma answer_deletes_the_empty:
  assumes "snd (settle_settings_request q a s) = Some r" "answers_settings q a"
  obtains n i where "q = ListDatabases n i" "a = ListedDatabases (Inr 0)" "r = DeleteWorkspace n i"
  using assms by (cases q; cases a) (auto simp: settle_settings_request_def settle_databases_def
      split: if_splits sum.splits)

lemma said_empty_by:
  assumes "(n, i) \<in> set (said_empty q a)"
  shows "q = ListDatabases n i"
  using assms by (cases "(q, a)" rule: said_empty.cases) auto

lemma deletes_empty_sent:
  assumes "deletes_empty x" "set ps \<subseteq> set (wr_pending x)"
    and "\<And>n i. (n, i) \<in> set empties \<Longrightarrow> ListDatabases n i \<in> set (wr_sent x)"
    and "\<And>n i. snd r = Some (DeleteWorkspace n i) \<Longrightarrow> (n, i) \<in> set empties"
  shows "deletes_empty (settings_sent r ps empties x)"
proof (cases "snd r")
  case None
  with assms(1-3) show ?thesis
    by (fastforce simp: deletes_empty_def settings_sent_def list_all_iff split: settings_request.splits)
next
  case (Some q)
  have "case q of DeleteWorkspace n i \<Rightarrow> (n, i) \<in> set empties | _ \<Rightarrow> True"
    using assms(4) Some by (cases q) simp_all
  with assms(1-3) Some show ?thesis
    by (fastforce simp: deletes_empty_def settings_sent_def list_all_iff split: settings_request.splits)
qed

lemma deletes_empty_step:
  assumes "deletes_empty x"
  shows "deletes_empty (settings_step role currentRole x e)"
proof (cases e)
  case (SControl c)
  have "deletes_empty (settings_sent (settings_control role currentRole c (wr_screen x)) (wr_pending x) [] x)"
    by (rule deletes_empty_sent [OF assms]) (simp_all add: control_deletes_nothing)
  with SControl show ?thesis by simp
next
  case (SAnswer q a)
  show ?thesis
  proof (cases "q \<notin> set (wr_pending x) \<or> \<not> answers_settings q a")
    case True
    with assms SAnswer show ?thesis by simp
  next
    case False
    then have q: "q \<in> set (wr_sent x)" and a: "answers_settings q a" using assms by (auto simp: deletes_empty_def)
    have "deletes_empty (settings_sent (settle_settings_request q a (wr_screen x)) (remove1 q (wr_pending x))
        (said_empty q a) x)"
    proof (rule deletes_empty_sent [OF assms set_remove1_subset])
      show "ListDatabases n i \<in> set (wr_sent x)" if "(n, i) \<in> set (said_empty q a)" for n i
        using said_empty_by [OF that] q by simp
      show "(n, i) \<in> set (said_empty q a)"
        if "snd (settle_settings_request q a (wr_screen x)) = Some (DeleteWorkspace n i)" for n i
        by (rule answer_deletes_the_empty [OF that a]) simp
    qed
    with SAnswer False show ?thesis by simp
  qed
qed

interpretation empty_deletions: invariant_machine "settings_step role currentRole" deletes_empty
  for role currentRole
  by unfold_locales (rule deletes_empty_step)

lemma opened_deletes_empty: "deletes_empty (opened_settings_run i)"
  by (simp add: deletes_empty_def opened_settings_run_def settings_sent_def load_workspace_def Let_def split_beta)

text \<open>C36: In every run of a workspace's settings a request to delete the workspace follows the server's answer that
  this workspace holds no database, asked for under the same load of the screen.\<close>

theorem workspaces_deleted_only_when_empty:
  "list_all (\<lambda>q. case q of DeleteWorkspace n i \<Rightarrow>
        (n, i) \<in> set (wr_empty (foldl (settings_step role currentRole) (opened_settings_run w) es)) | _ \<Rightarrow> True)
     (wr_sent (foldl (settings_step role currentRole) (opened_settings_run w) es))"
  using empty_deletions.run_inv [OF opened_deletes_empty, of role currentRole w es] by (simp add: deletes_empty_def)

text \<open>In every run of a workspace's settings, whatever is pressed and answered, the flags say what is under way:
  the spinner is shown exactly while a load counts, and at most one renaming and one deletion are under way.\<close>

theorem settings_show_what_is_under_way:
  "settings_flags (wr_screen (foldl (settings_step role currentRole) (opened_settings_run w) es))
     (wr_pending (foldl (settings_step role currentRole) (opened_settings_run w) es))"
  by (rule settings_flags.run_inv [OF opened_settings_flags])

end
