(* ===== verification/App_Utilities.thy ===== *)
theory App_Utilities
  imports Resources Json_Text Shared_Lib Js_Dates Restore_Commands
begin

text \<open>
  What the application shell keeps in the browser's \<open>localStorage\<close> and reads from its surroundings: the check for
  a new version of the page (\<open>app/model/useVersionCheck.ts\<close>), the newest release on GitHub
  (\<open>useIsNewGitHubVersionAvailable.ts\<close>), values that survive a reload (\<open>shared/hooks/usePersistentState.ts\<close>), the
  user's date format (\<open>shared/time/getUserTimeFormat.ts\<close>), the server's address (\<open>shared/config\<close>), the status of
  an agent and the commands that start one (\<open>pages/instance-settings\<close>). The clock is an argument; all tabs share
  the storage. The text of a number that is no integer is a parameter.
\<close>

section \<open>A new version of the page (useVersionCheck.ts)\<close>

definition dev_version :: string where "dev_version = ''dev''"
definition reload_cooldown_ms :: int where "reload_cooldown_ms = 10 * 1000"
definition last_reload_key :: string where "last_reload_key = ''lastVersionReload''"

text \<open>\<open>Number(text)\<close> for the texts stored here: blank text is 0, what is no number is NaN (\<open>None\<close>).\<close>

definition js_number :: "string \<Rightarrow> number option" where
  "js_number s = (if trim s = [] then Some 0
     else case read_number (trim s) of Some (n, []) \<Rightarrow> Some n | _ \<Rightarrow> None)"

record version_check =
  vk_isActive :: bool
  vk_isChecking :: bool

definition opened_check :: version_check where
  "opened_check = \<lparr>vk_isActive = True, vk_isChecking = False\<rparr>"

text \<open>Whether a request is sent.\<close>

definition check_version :: "version_check \<Rightarrow> version_check \<times> bool" where
  "check_version s = (if vk_isChecking s then (s, False) else (s\<lparr>vk_isChecking := True\<rparr>, True))"

text \<open>Whether the page was reloaded too recently, by any tab.\<close>

definition in_cooldown :: "int \<Rightarrow> storage \<Rightarrow> bool" where
  "in_cooldown now st = (case js_number (the (or_text (st last_reload_key) (Some ''0''))) of
       None \<Rightarrow> False | Some lastReload \<Rightarrow> of_int now - lastReload < of_int reload_cooldown_ms)"

text \<open>The answer is the version the server names, if any; \<open>canStore\<close> is whether the storage takes a value. The last
  component is whether the page is reloaded.\<close>

definition settle_version ::
    "string \<Rightarrow> bool \<Rightarrow> int \<Rightarrow> 'e + string option \<Rightarrow> version_check \<times> storage \<Rightarrow> (version_check \<times> storage) \<times> bool" where
  "settle_version appVersion canStore now answer x = (let s = fst x; st = snd x; s1 = s\<lparr>vk_isChecking := False\<rparr>
     in case answer of
       Inl _ \<Rightarrow> ((s1, st), False)
     | Inr version \<Rightarrow>
         if \<not> vk_isActive s \<or> \<not> truthy version \<or> version = Some appVersion \<or> in_cooldown now st \<or> \<not> canStore
           then ((s1, st), False)
         else ((s1, st(last_reload_key \<mapsto> int_text now)), True))"

section \<open>The newest release (useIsNewGitHubVersionAvailable.ts)\<close>

definition cache_key :: string where "cache_key = ''githubLatestVersion''"
definition cache_ttl_ms :: int where "cache_ttl_ms = 15 * 60 * 1000"

text \<open>A field of a value that is no object is undefined, and a comparison with it is false. What is cached was written
  by this code, or is no such object: a version that is no text, or a time that is no number, counts as none.\<close>

definition read_cached_version :: "int \<Rightarrow> storage \<Rightarrow> string option" where
  "read_cached_version now st = (if \<not> truthy (st cache_key) then None
     else case json_parse (the (st cache_key)) of
       None \<Rightarrow> None
     | Some cached \<Rightarrow> (case (fld (object_fields cached) ''version'', fld (object_fields cached) ''fetchedAt'') of
         (JStr version, JNum fetchedAt) \<Rightarrow>
           if of_int now - fetchedAt < of_int cache_ttl_ms then Some version else None
       | _ \<Rightarrow> None))"

text \<open>The answer is the release's tag when the request succeeded; \<open>canStore\<close> is whether the storage takes a value.\<close>

definition fetch_latest_version ::
    "(number \<Rightarrow> string) \<Rightarrow> bool \<Rightarrow> int \<Rightarrow> string option \<Rightarrow> storage \<Rightarrow> string option \<times> storage" where
  "fetch_latest_version sn canStore now tagName st = (case tagName of
       None \<Rightarrow> (None, st)
     | Some tag \<Rightarrow>
         if tag = [] then (None, st)
         else (let version = parse_git_hub_tag tag
           in if \<not> canStore then (None, st)
              else (Some version, st(cache_key \<mapsto> json_write sn
                (JObj [(''version'', JStr version), (''fetchedAt'', JNum (of_int now))])))))"

text \<open>What the effect finds at once, and whether it asks GitHub.\<close>

definition run_github_effect :: "string \<Rightarrow> int \<Rightarrow> storage \<Rightarrow> string option \<times> bool" where
  "run_github_effect appVersion now st = (if appVersion = dev_version then (None, False)
     else case read_cached_version now st of
       Some (c # v) \<Rightarrow> (Some (c # v), False)
     | _ \<Rightarrow> (None, True))"

definition settle_latest_version :: "bool \<Rightarrow> string option \<Rightarrow> string option \<Rightarrow> string option" where
  "settle_latest_version isActive version latestVersion = (if isActive \<and> truthy version then version else latestVersion)"

definition is_new_version_available :: "string \<Rightarrow> string option \<Rightarrow> bool" where
  "is_new_version_available appVersion latestVersion = (case latestVersion of
       None \<Rightarrow> False | Some v \<Rightarrow> compare_versions v appVersion > 0)"

section \<open>Values that survive a reload (usePersistentState.ts)\<close>

definition read_persisted_value :: "string \<Rightarrow> jsval \<Rightarrow> storage \<Rightarrow> jsval" where
  "read_persisted_value storageKey fallbackValue st = (if \<not> truthy (st storageKey) then fallbackValue
     else case json_parse (the (st storageKey)) of None \<Rightarrow> fallbackValue | Some v \<Rightarrow> v)"

text \<open>Without a text, \<open>setItem\<close> stores the word \<open>undefined\<close>; \<open>canStore\<close> is whether the storage takes a value.\<close>

definition persist_value :: "(number \<Rightarrow> string) \<Rightarrow> bool \<Rightarrow> string \<Rightarrow> jsval \<Rightarrow> storage \<Rightarrow> storage" where
  "persist_value sn canStore storageKey v st = (if \<not> canStore then st
     else st(storageKey \<mapsto> nullish (json_stringify sn v) ''undefined''))"

section \<open>The user's date and clock format (getUserTimeFormat.ts)\<close>

text \<open>The locale's text of March 15, 2023 and of one o'clock in the afternoon are arguments.\<close>

definition date_separator :: "string \<Rightarrow> char" where
  "date_separator formatted = (if CHR ''.'' \<in> set formatted then CHR ''.''
     else if CHR ''-'' \<in> set formatted then CHR ''-'' else CHR ''/'')"

definition get_locale_date_format :: "string \<Rightarrow> string \<times> string" where
  "get_locale_date_format formatted = (let s = [date_separator formatted];
       parts = split_on (\<lambda>c. c \<in> {CHR ''.'', CHR ''/'', CHR ''-''}) formatted;
       dayIndex = find_index (\<lambda>p. p = ''15'') parts;
       monthIndex = find_index (\<lambda>p. p = ''3'' \<or> p = ''03'') parts;
       yearIndex = find_index (\<lambda>p. p = ''2023'' \<or> p = ''23'') parts
     in if yearIndex = Some 0 then (''YYYY'' @ s @ ''MM'' @ s @ ''DD'', ''YYYY MMM DD'')
        else if monthIndex = Some 0 \<and> dayIndex = Some 1 then (''MM'' @ s @ ''DD'' @ s @ ''YYYY'', ''MMM DD, YYYY'')
        else (''DD'' @ s @ ''MM'' @ s @ ''YYYY'', ''DD MMM YYYY''))"

definition get_is_12_hour_format :: "string \<Rightarrow> bool" where
  "get_is_12_hour_format timeString \<longleftrightarrow> contains_text ''PM'' timeString \<or> contains_text ''AM'' timeString"

definition get_user_clock_format :: "string \<Rightarrow> bool \<times> string" where
  "get_user_clock_format timeString = (let is12Hour = get_is_12_hour_format timeString
     in (is12Hour, if is12Hour then ''h:mm A'' else ''HH:mm''))"

definition get_user_time_format :: "string \<Rightarrow> string \<Rightarrow> bool \<times> string" where
  "get_user_time_format formatted timeString = (let is12Hour = get_is_12_hour_format timeString;
       dateFormat = fst (get_locale_date_format formatted)
     in (is12Hour, if is12Hour then dateFormat @ '' h:mm A'' else dateFormat @ '' HH:mm''))"

definition get_user_short_time_format :: "string \<Rightarrow> string \<Rightarrow> bool \<times> string" where
  "get_user_short_time_format formatted timeString = (let is12Hour = get_is_12_hour_format timeString;
       shortDateFormat = snd (get_locale_date_format formatted)
     in (is12Hour, if is12Hour then shortDateFormat @ '' h:mm A'' else shortDateFormat @ '' HH:mm''))"

section \<open>The server's address and settings (deploymentConfig.ts)\<close>

text \<open>The parts of the page's origin, as the browser's \<open>URL\<close> names them; the protocol ends in a colon.\<close>

definition get_application_server :: "bool \<Rightarrow> string \<Rightarrow> string \<Rightarrow> string \<Rightarrow> string" where
  "get_application_server isDevelopment protocol hostname port =
     (if isDevelopment then protocol @ ''//'' @ hostname @ '':4005''
      else protocol @ ''//'' @ hostname @ '':'' @
        (if port \<noteq> [] then port else if protocol = ''https:'' then ''443'' else ''80''))"

definition configured_value :: "string option \<Rightarrow> string option \<Rightarrow> string" where
  "configured_value runtime built = the (or_text runtime (or_text built (Some [])))"

definition is_email_configured :: "string option \<Rightarrow> string option \<Rightarrow> bool" where
  "is_email_configured runtime built \<longleftrightarrow> runtime = Some ''true'' \<or> built = Some ''true''"

definition container_arch :: "string option \<Rightarrow> string" where
  "container_arch rawArch = (let raw = nullish rawArch []
     in if raw = ''amd64'' then ''x64'' else if raw = ''arm64'' then ''arm64'' else raw)"

section \<open>Agents (agentStatus.ts, verificationAgentCommands.ts)\<close>

definition online_window_ms :: int where "online_window_ms = 90 * 1000"
definition stale_window_ms :: int where "stale_window_ms = 5 * 60 * 1000"

datatype agent_status = NeverSeen | Online | Stale | Offline

text \<open>A moment that is no date compares with nothing.\<close>

definition get_agent_status :: "string option \<Rightarrow> int \<Rightarrow> agent_status" where
  "get_agent_status lastSeenAt now = (if \<not> truthy lastSeenAt then NeverSeen
     else case date_ms (the lastSeenAt) of
       None \<Rightarrow> Offline
     | Some seen \<Rightarrow> let diff = now - seen
         in if diff \<le> online_window_ms then Online else if diff \<le> stale_window_ms then Stale else Offline)"

definition token_placeholder :: string where "token_placeholder = ''<YOUR_AGENT_TOKEN>''"

definition build_install_command :: "string \<Rightarrow> string \<Rightarrow> string" where
  "build_install_command host arch = ''curl -L -o verification-agent '' @ [CHR 0x22] @ host
     @ ''/api/v1/system/verification-agent?arch='' @ arch @ [CHR 0x22] @ '' && chmod +x verification-agent''"

text \<open>The lines end in a backslash and a line feed, the last one in neither.\<close>

definition continued :: "string \<Rightarrow> string" where
  "continued line = line @ '' '' @ [CHR 0x5C, CHR 0x0A]"

definition build_launch_command :: "string \<Rightarrow> string \<Rightarrow> string \<Rightarrow> string" where
  "build_launch_command host agentId token =
     continued ''./verification-agent start'' @ continued (''  --databasus-host='' @ host)
     @ continued (''  --agent-id='' @ agentId) @ continued (''  --token='' @ token) @ continued ''  --max-cpu=2''
     @ continued ''  --max-ram-mb=2048'' @ continued ''  --max-disk-gb=20'' @ ''  --max-concurrent-jobs=1''"

section \<open>Reloads keep their distance, whatever the tabs\<close>

text \<open>Every tab checks on its own; the storage is one. \<open>AnswerCheck\<close> is an answer to a request the tab waits for,
  with the moment it comes and whether the storage takes a value then.\<close>

datatype 'e tab_event =
    OpenTab nat | LeaveTab nat | StartCheck nat | AnswerCheck nat bool int "'e + string option"

record tabs =
  tb_checks :: "nat \<Rightarrow> version_check"
  tb_storage :: storage
  tb_reloads :: "int list"

primrec tab_step :: "string \<Rightarrow> tabs \<Rightarrow> 'e tab_event \<Rightarrow> tabs" where
  "tab_step appVersion x (OpenTab i) = x\<lparr>tb_checks := (tb_checks x)(i := opened_check)\<rparr>"
| "tab_step appVersion x (LeaveTab i) = x\<lparr>tb_checks := (tb_checks x)(i := (tb_checks x i)\<lparr>vk_isActive := False\<rparr>)\<rparr>"
| "tab_step appVersion x (StartCheck i) = x\<lparr>tb_checks := (tb_checks x)(i := fst (check_version (tb_checks x i)))\<rparr>"
| "tab_step appVersion x (AnswerCheck i canStore now a) =
     (if \<not> vk_isChecking (tb_checks x i) then x
      else let r = settle_version appVersion canStore now a (tb_checks x i, tb_storage x)
        in x\<lparr>tb_checks := (tb_checks x)(i := if snd r then opened_check else fst (fst r)),
             tb_storage := snd (fst r), tb_reloads := tb_reloads x @ (if snd r then [now] else [])\<rparr>)"

definition opened_tabs :: "storage \<Rightarrow> tabs" where
  "opened_tabs st = \<lparr>tb_checks = (\<lambda>_. opened_check), tb_storage = st, tb_reloads = []\<rparr>"

definition reloads_apart :: "int list \<Rightarrow> bool" where
  "reloads_apart ts \<longleftrightarrow> successively (\<lambda>a b. a + reload_cooldown_ms \<le> b) ts"

definition tabs_inv :: "tabs \<Rightarrow> bool" where
  "tabs_inv x \<longleftrightarrow> reloads_apart (tb_reloads x)
     \<and> (tb_reloads x \<noteq> [] \<longrightarrow> tb_storage x last_reload_key = Some (int_text (last (tb_reloads x))))"

lemma nat_digits_no_space: "c \<in> set (nat_digits n) \<Longrightarrow> c \<notin> space_bytes"
  using nat_digits_digits [of n] printable_not_space [of c] by (auto simp: list_all_iff is_digit_def Let_def)

lemma int_text_no_space: "c \<in> set (int_text i) \<Longrightarrow> c \<notin> space_bytes"
  using printable_not_space [of "CHR ''-''"] by (auto simp: int_text_def nat_digits_no_space split: if_splits)

lemma int_text_nonempty [simp]: "int_text i \<noteq> []"
  using int_text_form [of i] by auto

lemma trim_int_text: "trim (int_text i) = int_text i"
proof -
  obtain s c where s: "int_text i = s @ [c]" by (metis append_butlast_last_id int_text_nonempty)
  obtain d t where d: "int_text i = d # t" using int_text_form [of i] by blast
  have "space_length (int_text i) = 0"
    using space_length_not_space [of d t] int_text_no_space [of d i] d by simp
  moreover have "c \<notin> space_bytes" using int_text_no_space [of c i] s by simp
  ultimately show ?thesis using trim_framed [of s c] s by simp
qed

lemma js_number_int: "js_number (int_text i) = Some (of_int i)"
  using read_int_text [of "[]" i] by (simp add: js_number_def trim_int_text value_end_def skip_space_def)

lemma or_text_int_text: "or_text (Some (int_text i)) d = Some (int_text i)"
  using int_text_form [of i] by (auto simp: or_text_def)

lemma in_cooldown_after:
  "st last_reload_key = Some (int_text t) \<Longrightarrow> in_cooldown now st \<longleftrightarrow> now - t < reload_cooldown_ms"
  by (simp add: in_cooldown_def or_text_int_text js_number_int flip: of_int_diff)

lemma reload_happens:
  "snd (settle_version appVersion canStore now a x) \<Longrightarrow> \<not> in_cooldown now (snd x)
    \<and> snd (fst (settle_version appVersion canStore now a x)) = (snd x)(last_reload_key \<mapsto> int_text now)"
  "\<not> snd (settle_version appVersion canStore now a x) \<Longrightarrow> snd (fst (settle_version appVersion canStore now a x)) = snd x"
  by (auto simp: settle_version_def Let_def split: sum.splits if_splits)

interpretation tabs: invariant_machine "tab_step appVersion" tabs_inv for appVersion
proof unfold_locales
  show "tabs_inv (tab_step appVersion x e)" if "tabs_inv x" for x e
  proof (cases e)
    case (AnswerCheck i canStore now a)
    let ?r = "settle_version appVersion canStore now a (tb_checks x i, tb_storage x)"
    show ?thesis
    proof (cases "vk_isChecking (tb_checks x i) \<and> snd ?r")
      case True
      from reload_happens(1) [of appVersion canStore now a "(tb_checks x i, tb_storage x)"] True that AnswerCheck
      show ?thesis
        by (cases "tb_reloads x = []")
          (auto simp: tabs_inv_def reloads_apart_def Let_def successively_append_iff in_cooldown_after)
    next
      case False
      with reload_happens(2) [of appVersion canStore now a "(tb_checks x i, tb_storage x)"] that AnswerCheck
      show ?thesis by (auto simp: tabs_inv_def Let_def)
    qed
  qed (use that in \<open>auto simp: tabs_inv_def\<close>)
qed

theorem reloads_are_ten_seconds_apart:
  "reloads_apart (tb_reloads (foldl (tab_step appVersion) (opened_tabs st) es))"
  using tabs.run_inv [of "opened_tabs st" appVersion es] by (simp add: tabs_inv_def opened_tabs_def reloads_apart_def)

section \<open>What is stored is read back\<close>

lemma json_value_plain: "json_value v \<Longrightarrow> plain v = v"
proof (induction v rule: plain.induct)
  case (1 xs)
  then have "JUndefined \<notin> set xs" by (auto simp: list_all_iff dest: bspec [where x = JUndefined])
  with 1 show ?case by (auto simp: list_all_iff intro!: map_idI)
next
  case (2 fs)
  have "filter (\<lambda>(k, v). v \<noteq> JUndefined) fs = fs" using 2(2) by (auto simp: filter_id_conv list_all_iff)
  moreover have "plain v = v" if "(k, v) \<in> set fs" for k v
    using 2 that by (fastforce simp: list_all_iff)
  ultimately show ?case by (auto intro!: map_idI)
qed simp_all

theorem persisted_value_survives:
  assumes "json_value v"
  shows "read_persisted_value k f (persist_value sn True k v st) = v"
proof -
  have "json_write sn v \<noteq> []" using write_starts [OF assms(1), of sn] by (simp add: starts_value_def)
  moreover have "v \<noteq> JUndefined" using assms(1) by auto
  ultimately show ?thesis using assms json_value_plain [OF assms]
    by (simp add: read_persisted_value_def persist_value_def json_stringify_def truthy_def json_round_trip)
qed

lemma other_values_stay: "j \<noteq> k \<Longrightarrow> read_persisted_value j f (persist_value sn c k v st) = read_persisted_value j f st"
  by (simp add: read_persisted_value_def persist_value_def)

lemma undefined_text: "json_parse ''undefined'' = None"
  by code_simp

lemma undefined_is_no_value: "read_persisted_value k f (persist_value sn True k JUndefined st) = f"
  by (simp add: read_persisted_value_def persist_value_def json_stringify_def truthy_def undefined_text)

text \<open>The newest release is asked for at most once in a quarter of an hour.\<close>

lemma cached_version_read:
  assumes "tag \<noteq> []" "\<bar>now\<bar> < 10 ^ 21"
  shows "read_cached_version later (snd (fetch_latest_version sn True now (Some tag) st))
     = (if later - now < cache_ttl_ms then Some (parse_git_hub_tag tag) else None)"
proof -
  have "\<bar>of_int now :: number\<bar> < of_int (10 ^ 21)" using assms(2)
    by (metis of_int_abs of_int_less_iff)
  then have "json_value (JObj [(''version'', JStr v), (''fetchedAt'', JNum (of_int now))])" for v
    by (simp add: plain_number_def)
  from json_round_trip [OF this] show ?thesis using assms(1)
    by (simp add: fetch_latest_version_def Let_def read_cached_version_def truthy_def fld_def object_fields_def
        flip: of_int_diff)
qed

section \<open>Agents\<close>

primrec status_rank :: "agent_status \<Rightarrow> nat" where
  "status_rank NeverSeen = 0" | "status_rank Online = 1" | "status_rank Stale = 2" | "status_rank Offline = 3"

lemma status_only_worsens:
  "now \<le> later \<Longrightarrow> status_rank (get_agent_status seen now) \<le> status_rank (get_agent_status seen later)"
  by (auto simp: get_agent_status_def Let_def online_window_ms_def stale_window_ms_def split: option.split)

lemma silent_agent_is_offline:
  assumes "seen = Some s" "s \<noteq> []" "date_ms s = Some t" "t + stale_window_ms < now"
  shows "get_agent_status seen now = Offline"
  using assms by (simp add: get_agent_status_def truthy_def Let_def online_window_ms_def stale_window_ms_def)

text \<open>A shell joins the lines that end in a backslash.\<close>

fun join_lines :: "string \<Rightarrow> string" where
  "join_lines (c # d # s) =
     (if c = CHR 0x5C \<and> d = CHR 0x0A then join_lines s else c # join_lines (d # s))"
| "join_lines s = s"

lemma join_plain:
  "CHR 0x5C \<notin> set p \<Longrightarrow> join_lines (p @ s) = p @ join_lines s"
proof (induction p)
  case (Cons c p)
  then show ?case by (cases "p @ s") auto
qed simp

lemma join_continued: "CHR 0x5C \<notin> set p \<Longrightarrow> join_lines (continued p @ s) = p @ CHR '' '' # join_lines s"
  using join_plain [of p "CHR '' '' # CHR 0x5C # CHR 0x0A # s"] by (simp add: continued_def)

lemma plain_no_backslash: "list_all plain_char p \<Longrightarrow> CHR 0x5C \<notin> set p"
  by (auto simp: list_all_iff plain_char_def is_word_def)

theorem launch_command_reads_back:
  assumes "list_all plain_char host" "list_all plain_char agentId" "list_all plain_char token"
  shows "shell_words (join_lines (build_launch_command host agentId token))
    = Some [''./verification-agent'', ''start'', ''--databasus-host='' @ host, ''--agent-id='' @ agentId,
        ''--token='' @ token, ''--max-cpu=2'', ''--max-ram-mb=2048'', ''--max-disk-gb=20'', ''--max-concurrent-jobs=1'']"
proof -
  note no = plain_no_backslash [OF assms(1)] plain_no_backslash [OF assms(2)] plain_no_backslash [OF assms(3)]
  have joined: "join_lines (build_launch_command host agentId token) =
      ''./verification-agent'' @ CHR '' '' # ''start'' @ CHR '' '' # CHR '' '' # CHR '' ''
      # (''--databasus-host='' @ host) @ CHR '' '' # CHR '' '' # CHR '' '' # (''--agent-id='' @ agentId)
      @ CHR '' '' # CHR '' '' # CHR '' '' # (''--token='' @ token) @ CHR '' '' # CHR '' '' # CHR '' ''
      # ''--max-cpu=2'' @ CHR '' '' # CHR '' '' # CHR '' '' # ''--max-ram-mb=2048'' @ CHR '' '' # CHR '' '' # CHR '' ''
      # ''--max-disk-gb=20'' @ CHR '' '' # CHR '' '' # CHR '' '' # ''--max-concurrent-jobs=1''"
    using no by (simp add: build_launch_command_def join_continued join_plain)
  note word = shell_words_plain(1)
  have given: "list_all plain_char (''--databasus-host='' @ host)" "list_all plain_char (''--agent-id='' @ agentId)"
    "list_all plain_char (''--token='' @ token)"
    using assms by (simp_all add: plain_char_def is_word_def)
  have fixed: "list_all plain_char ''./verification-agent''" "list_all plain_char ''start''"
    "list_all plain_char ''--max-cpu=2''" "list_all plain_char ''--max-ram-mb=2048''"
    "list_all plain_char ''--max-disk-gb=20''" "list_all plain_char ''--max-concurrent-jobs=1''"
    by (simp_all add: plain_char_def is_word_def)
  show ?thesis
    by (simp only: joined word [OF _ fixed(1)] word [OF _ fixed(2)] word [OF _ given(1)] word [OF _ given(2)]
        word [OF _ given(3)] word [OF _ fixed(3)] word [OF _ fixed(4)] word [OF _ fixed(5)]
        shell_words_plain(2) [OF _ fixed(6)] shell_words_space option.map list.distinct append_is_Nil_conv
        simp_thms not_Cons_self2 neq_Nil_conv)
qed

section \<open>Formats\<close>

text \<open>Only texts with \<open>AM\<close> or \<open>PM\<close> count as twelve-hour times; the texts of other languages do not.\<close>

lemma lower_case_day_periods_are_missed: "\<not> get_is_12_hour_format ''1 pm''"
  by code_simp

end
