(* ===== verification/Healthcheck.thy ===== *)
theory Healthcheck
  imports App_State App_Utilities Api_Errors
begin

text \<open>
  Availability checks of a database (\<open>pages/databases/ui/healthcheck\<close>): the form of their configuration, and the
  list of attempts with its period, its pages and its polling. An \<open>async\<close> function is cut at its awaits. Numbers
  come from number fields, whose texts are decimal or empty.
\<close>

section \<open>The configuration's form (EditHealthcheckConfigComponent.tsx)\<close>

record healthcheck_config =
  hc_databaseId :: string
  hc_isHealthcheckEnabled :: bool
  hc_isNotificationEnabled :: bool
  hc_intervalMinutes :: number
  hc_failedAttemptsBeforeUnavailable :: number
  hc_attemptRetentionDays :: number

record healthcheck_form =
  hf_databaseId :: string
  hf_config :: "healthcheck_config option"
  hf_isSaving :: bool
  hf_isUnsaved :: bool
  hf_saveError :: "thrown option"
  hf_loadError :: "thrown option"
  hf_effect :: nat
  hf_isActive :: bool
  hf_closed :: nat

definition opened_healthcheck_form :: "string \<Rightarrow> healthcheck_form" where
  "opened_healthcheck_form databaseId = \<lparr>hf_databaseId = databaseId, hf_config = None, hf_isSaving = False,
     hf_isUnsaved = False, hf_saveError = None, hf_loadError = None, hf_effect = 0, hf_isActive = True, hf_closed = 0\<rparr>"

text \<open>The effect of the database and of every retry asks for the configuration; its number tells its load apart.\<close>

definition run_healthcheck_effect :: "string \<Rightarrow> healthcheck_form \<Rightarrow> healthcheck_form" where
  "run_healthcheck_effect databaseId f = f\<lparr>hf_databaseId := databaseId, hf_effect := Suc (hf_effect f),
     hf_config := None, hf_loadError := None, hf_saveError := None, hf_isUnsaved := False, hf_isSaving := False\<rparr>"

definition settle_healthcheck_load :: "nat \<Rightarrow> thrown + healthcheck_config \<Rightarrow> healthcheck_form \<Rightarrow> healthcheck_form" where
  "settle_healthcheck_load effect answer f =
     (if effect \<noteq> hf_effect f \<or> \<not> hf_isActive f then f
      else case answer of
        Inr config \<Rightarrow> f\<lparr>hf_config := Some config\<rparr>
      | Inl e \<Rightarrow> f\<lparr>hf_loadError := Some e\<rparr>)"

definition edit_healthcheck :: "(healthcheck_config \<Rightarrow> healthcheck_config) \<Rightarrow> healthcheck_form \<Rightarrow> healthcheck_form" where
  "edit_healthcheck patch f = f\<lparr>hf_config := map_option patch (hf_config f), hf_isUnsaved := True\<rparr>"

definition change_enabled :: "bool \<Rightarrow> healthcheck_form \<Rightarrow> healthcheck_form" where
  "change_enabled checked = edit_healthcheck (\<lambda>c. c\<lparr>hc_isHealthcheckEnabled := checked\<rparr>)"

definition change_notification :: "bool \<Rightarrow> healthcheck_form \<Rightarrow> healthcheck_form" where
  "change_notification checked = edit_healthcheck (\<lambda>c. c\<lparr>hc_isNotificationEnabled := checked\<rparr>)"

text \<open>A number field takes positive numbers and ignores everything else.\<close>

definition positive_value :: "string \<Rightarrow> number option" where
  "positive_value text = (case js_number text of Some n \<Rightarrow> if 0 < n then Some n else None | None \<Rightarrow> None)"

definition change_interval :: "string \<Rightarrow> healthcheck_form \<Rightarrow> healthcheck_form" where
  "change_interval text f = (case positive_value text of None \<Rightarrow> f
     | Some n \<Rightarrow> edit_healthcheck (\<lambda>c. c\<lparr>hc_intervalMinutes := n\<rparr>) f)"

definition change_attempts :: "string \<Rightarrow> healthcheck_form \<Rightarrow> healthcheck_form" where
  "change_attempts text f = (case positive_value text of None \<Rightarrow> f
     | Some n \<Rightarrow> edit_healthcheck (\<lambda>c. c\<lparr>hc_failedAttemptsBeforeUnavailable := n\<rparr>) f)"

definition change_retention :: "string \<Rightarrow> healthcheck_form \<Rightarrow> healthcheck_form" where
  "change_retention text f = (case positive_value text of None \<Rightarrow> f
     | Some n \<Rightarrow> edit_healthcheck (\<lambda>c. c\<lparr>hc_attemptRetentionDays := n\<rparr>) f)"

definition handle_save :: "healthcheck_form \<Rightarrow> healthcheck_form \<times> (string \<times> healthcheck_config) option" where
  "handle_save f = (case hf_config f of
       None \<Rightarrow> (f, None)
     | Some config \<Rightarrow> (f\<lparr>hf_isSaving := True, hf_saveError := None\<rparr>, Some (hf_databaseId f, config)))"

definition settle_healthcheck_save :: "string \<Rightarrow> thrown + unit \<Rightarrow> healthcheck_form \<Rightarrow> healthcheck_form" where
  "settle_healthcheck_save databaseId answer f =
     (if \<not> (hf_isActive f \<and> hf_databaseId f = databaseId) then f
      else case answer of
        Inr _ \<Rightarrow> f\<lparr>hf_isUnsaved := False, hf_closed := Suc (hf_closed f), hf_isSaving := False\<rparr>
      | Inl e \<Rightarrow> f\<lparr>hf_saveError := Some e, hf_isSaving := False\<rparr>)"

text \<open>A control acts where it is shown and enabled; the button of a running save ignores clicks, as antd's do.\<close>

datatype healthcheck_event =
    HSessionEnds | HShowDatabase string | HRetryLoad
  | HEnable bool | HNotify bool | HInterval string | HAttempts string | HRetention string | HClickSave | HCancel

definition shows_healthcheck :: "healthcheck_form \<Rightarrow> bool" where
  "shows_healthcheck f \<longleftrightarrow> hf_loadError f = None \<and> hf_config f \<noteq> None"

definition shows_healthcheck_details :: "healthcheck_form \<Rightarrow> bool" where
  "shows_healthcheck_details f \<longleftrightarrow> hf_loadError f = None
     \<and> (case hf_config f of None \<Rightarrow> False | Some c \<Rightarrow> hc_isHealthcheckEnabled c)"

definition healthcheck_control ::
    "healthcheck_event \<Rightarrow> healthcheck_form \<Rightarrow> healthcheck_form \<times> (string \<times> healthcheck_config) option" where
  "healthcheck_control e f = (case e of
       HSessionEnds \<Rightarrow> (f\<lparr>hf_isActive := False\<rparr>, None)
     | HShowDatabase i \<Rightarrow> (if i = hf_databaseId f then f else run_healthcheck_effect i f, None)
     | HRetryLoad \<Rightarrow> (if hf_loadError f \<noteq> None then run_healthcheck_effect (hf_databaseId f) f else f, None)
     | HEnable b \<Rightarrow> (if shows_healthcheck f then change_enabled b f else f, None)
     | HNotify b \<Rightarrow> (if shows_healthcheck_details f then change_notification b f else f, None)
     | HInterval t \<Rightarrow> (if shows_healthcheck_details f then change_interval t f else f, None)
     | HAttempts t \<Rightarrow> (if shows_healthcheck_details f then change_attempts t f else f, None)
     | HRetention t \<Rightarrow> (if shows_healthcheck_details f then change_retention t f else f, None)
     | HClickSave \<Rightarrow> if shows_healthcheck f \<and> hf_isUnsaved f \<and> \<not> hf_isSaving f then handle_save f else (f, None)
     | HCancel \<Rightarrow> (if hf_loadError f \<noteq> None \<or> shows_healthcheck f \<and> \<not> hf_isSaving f
         then f\<lparr>hf_closed := Suc (hf_closed f)\<rparr> else f, None))"

section \<open>The list of attempts (HealthcheckAttemptsComponent.tsx)\<close>

datatype attempts_period = Today | Days7 | Days30 | AllTime

text \<open>\<open>days_before n now\<close> is the moment \<open>n\<close> days earlier in the browser's time zone.\<close>

definition get_since_by_period :: "(int \<Rightarrow> int \<Rightarrow> int) \<Rightarrow> attempts_period \<Rightarrow> int \<Rightarrow> int" where
  "get_since_by_period days_before period now = (case period of
       Today \<Rightarrow> days_before 1 now | Days7 \<Rightarrow> days_before 7 now | Days30 \<Rightarrow> days_before 30 now | AllTime \<Rightarrow> 0)"

record 'a attempts_view =
  av_databaseId :: string
  av_period :: attempts_period
  av_isSessionActive :: bool
  av_effect :: nat
  av_loadSequence :: nat
  av_isConfigLoading :: bool
  av_isShown :: bool
  av_configLoadError :: "thrown option"
  av_isLoading :: bool
  av_attempts :: "'a list"
  av_attemptsLoadError :: "thrown option"
  av_isPolling :: bool

text \<open>A page is asked for by an effect's load or refresh, with what the pages before it held.\<close>

record 'a page_request =
  pq_effect :: nat
  pq_sequence :: nat
  pq_isLoad :: bool
  pq_databaseId :: string
  pq_since :: int
  pq_after :: "string option"
  pq_attempts :: "'a list"

datatype 'a attempts_request = AskConfig nat string | AskAttempts "'a page_request"

definition run_attempts_effect ::
    "string \<Rightarrow> attempts_period \<Rightarrow> 'a attempts_view \<Rightarrow> 'a attempts_view \<times> 'a attempts_request option" where
  "run_attempts_effect databaseId period v = (let effect = Suc (av_effect v)
     in (v\<lparr>av_databaseId := databaseId, av_period := period, av_effect := effect, av_loadSequence := 0,
           av_isConfigLoading := True, av_isShown := False, av_configLoadError := None,
           av_attemptsLoadError := None, av_attempts := [], av_isPolling := False\<rparr>,
         Some (AskConfig effect databaseId)))"

definition is_current_attempts_load :: "nat \<Rightarrow> nat \<Rightarrow> 'a attempts_view \<Rightarrow> bool" where
  "is_current_attempts_load effect sequence v \<longleftrightarrow>
     effect = av_effect v \<and> sequence = av_loadSequence v \<and> av_isSessionActive v"

definition fetch_all_attempts ::
    "bool \<Rightarrow> int \<Rightarrow> 'a attempts_view \<Rightarrow> 'a attempts_view \<times> 'a attempts_request option" where
  "fetch_all_attempts isLoad since v = (let sequence = Suc (av_loadSequence v)
     in (v\<lparr>av_loadSequence := sequence\<rparr>,
         Some (AskAttempts \<lparr>pq_effect = av_effect v, pq_sequence = sequence, pq_isLoad = isLoad,
           pq_databaseId = av_databaseId v, pq_since = since, pq_after = None, pq_attempts = []\<rparr>)))"

definition load_healthcheck_attempts ::
    "int \<Rightarrow> 'a attempts_view \<Rightarrow> 'a attempts_view \<times> 'a attempts_request option" where
  "load_healthcheck_attempts since v = fetch_all_attempts True since (v\<lparr>av_isLoading := True\<rparr>)"

definition refresh_healthcheck_attempts ::
    "int \<Rightarrow> 'a attempts_view \<Rightarrow> 'a attempts_view \<times> 'a attempts_request option" where
  "refresh_healthcheck_attempts since v = fetch_all_attempts False since v"

text \<open>The answer is whether the checks are enabled.\<close>

definition settle_attempts_config ::
    "int \<Rightarrow> nat \<Rightarrow> thrown + bool \<Rightarrow> 'a attempts_view \<Rightarrow> 'a attempts_view \<times> 'a attempts_request option" where
  "settle_attempts_config since effect answer v =
     (if effect \<noteq> av_effect v \<or> \<not> av_isSessionActive v then (v, None)
      else case answer of
        Inl e \<Rightarrow> (v\<lparr>av_configLoadError := Some e, av_isConfigLoading := False\<rparr>, None)
      | Inr isEnabled \<Rightarrow> (let v1 = v\<lparr>av_isShown := isEnabled, av_isConfigLoading := False\<rparr>
          in if isEnabled then load_healthcheck_attempts since v1 else (v1, None)))"

text \<open>The answer is a page's items and the cursor of the next page, if any.\<close>

definition settle_attempts_page ::
    "'a page_request \<Rightarrow> thrown + 'a list \<times> string option \<Rightarrow> 'a attempts_view
      \<Rightarrow> 'a attempts_view \<times> 'a attempts_request option" where
  "settle_attempts_page q answer v =
     (if \<not> is_current_attempts_load (pq_effect q) (pq_sequence q) v then (v, None)
      else case answer of
        Inl e \<Rightarrow> (if pq_isLoad q then v\<lparr>av_attemptsLoadError := Some e, av_isLoading := False\<rparr> else v, None)
      | Inr (items, nextCursor) \<Rightarrow> (let attempts = pq_attempts q @ items
          in if truthy nextCursor then (v, Some (AskAttempts (q\<lparr>pq_after := nextCursor, pq_attempts := attempts\<rparr>)))
             else if pq_isLoad q
             then (v\<lparr>av_attempts := attempts, av_isPolling := (av_period v = Today), av_isLoading := False\<rparr>, None)
             else (v\<lparr>av_attempts := attempts\<rparr>, None)))"

text \<open>The period is chosen, and a failure retried, where they are shown; a tick comes while the interval runs.\<close>

datatype attempts_event = TSessionEnds | TShowDatabase string | TChoosePeriod attempts_period | TRetryLoad | TTick int

definition attempts_control ::
    "(int \<Rightarrow> int \<Rightarrow> int) \<Rightarrow> attempts_event \<Rightarrow> 'a attempts_view \<Rightarrow> 'a attempts_view \<times> 'a attempts_request option" where
  "attempts_control days_before e v = (case e of
       TSessionEnds \<Rightarrow> (v\<lparr>av_isSessionActive := False\<rparr>, None)
     | TShowDatabase i \<Rightarrow> if i = av_databaseId v then (v, None) else run_attempts_effect i (av_period v) v
     | TChoosePeriod p \<Rightarrow>
         if \<not> av_isConfigLoading v \<and> av_configLoadError v = None \<and> av_isShown v \<and> p \<noteq> av_period v
         then run_attempts_effect (av_databaseId v) p v else (v, None)
     | TRetryLoad \<Rightarrow>
         if \<not> av_isConfigLoading v
             \<and> (av_configLoadError v \<noteq> None \<or> av_isShown v \<and> av_attemptsLoadError v \<noteq> None)
         then run_attempts_effect (av_databaseId v) (av_period v) v else (v, None)
     | TTick now \<Rightarrow>
         if av_isPolling v then refresh_healthcheck_attempts (get_since_by_period days_before (av_period v) now) v
         else (v, None))"

section \<open>The numbers of the configuration stay positive\<close>

text \<open>The form, the loads and saves on their way, and the saves sent, each with the database shown then.\<close>

record healthcheck_run =
  hr_form :: healthcheck_form
  hr_loads :: "(nat \<times> string) list"
  hr_saves :: "string list"
  hr_sent :: "(string \<times> healthcheck_config) list"

datatype healthcheck_run_event =
    HControl healthcheck_event
  | HLoaded nat string "thrown + healthcheck_config"
  | HSaved string "thrown + unit"

definition healthcheck_sent ::
    "healthcheck_form \<times> (string \<times> healthcheck_config) option \<Rightarrow> healthcheck_run \<Rightarrow> healthcheck_run" where
  "healthcheck_sent r x = x\<lparr>hr_form := fst r,
     hr_loads := hr_loads x @ (if hf_effect (fst r) = hf_effect (hr_form x) then []
       else [(hf_effect (fst r), hf_databaseId (fst r))]),
     hr_saves := hr_saves x @ (case snd r of None \<Rightarrow> [] | Some (i, c) \<Rightarrow> [i]),
     hr_sent := hr_sent x @ (case snd r of None \<Rightarrow> [] | Some q \<Rightarrow> [q])\<rparr>"

primrec healthcheck_run_step :: "healthcheck_run \<Rightarrow> healthcheck_run_event \<Rightarrow> healthcheck_run" where
  "healthcheck_run_step x (HControl e) = healthcheck_sent (healthcheck_control e (hr_form x)) x"
| "healthcheck_run_step x (HLoaded n i a) = (if (n, i) \<notin> set (hr_loads x) then x
     else x\<lparr>hr_form := settle_healthcheck_load n a (hr_form x), hr_loads := remove1 (n, i) (hr_loads x)\<rparr>)"
| "healthcheck_run_step x (HSaved i a) = (if i \<notin> set (hr_saves x) then x
     else x\<lparr>hr_form := settle_healthcheck_save i a (hr_form x), hr_saves := remove1 i (hr_saves x)\<rparr>)"

definition opened_healthcheck_run :: "string \<Rightarrow> healthcheck_run" where
  "opened_healthcheck_run i = (let f = run_healthcheck_effect i (opened_healthcheck_form i)
     in \<lparr>hr_form = f, hr_loads = [(hf_effect f, i)], hr_saves = [], hr_sent = []\<rparr>)"

definition positive_config :: "healthcheck_config \<Rightarrow> bool" where
  "positive_config c \<longleftrightarrow> 0 < hc_intervalMinutes c \<and> 0 < hc_failedAttemptsBeforeUnavailable c
     \<and> 0 < hc_attemptRetentionDays c"

text \<open>The server answers with the configuration of the database it was asked for, whose numbers are positive.\<close>

primrec answers_asked :: "healthcheck_run_event \<Rightarrow> bool" where
  "answers_asked (HControl e) = True"
| "answers_asked (HLoaded n i a) = (case a of Inl _ \<Rightarrow> True | Inr c \<Rightarrow> hc_databaseId c = i \<and> positive_config c)"
| "answers_asked (HSaved i a) = True"

definition owned_config :: "string \<Rightarrow> healthcheck_config \<Rightarrow> bool" where
  "owned_config i c \<longleftrightarrow> hc_databaseId c = i \<and> positive_config c"

definition healthcheck_inv :: "healthcheck_run \<Rightarrow> bool" where
  "healthcheck_inv x \<longleftrightarrow> (\<forall>(n, i) \<in> set (hr_loads x). n \<le> hf_effect (hr_form x)
         \<and> (n = hf_effect (hr_form x) \<longrightarrow> i = hf_databaseId (hr_form x)))
     \<and> (case hf_config (hr_form x) of None \<Rightarrow> True | Some c \<Rightarrow> owned_config (hf_databaseId (hr_form x)) c)
     \<and> list_all (\<lambda>(i, c). owned_config i c) (hr_sent x)"

definition form_owned :: "healthcheck_form \<Rightarrow> bool" where
  "form_owned f \<longleftrightarrow> (case hf_config f of None \<Rightarrow> True | Some c \<Rightarrow> owned_config (hf_databaseId f) c)"

lemma edits_owned:
  "form_owned f \<Longrightarrow> form_owned (change_enabled b f)" "form_owned f \<Longrightarrow> form_owned (change_notification b f)"
  "form_owned f \<Longrightarrow> form_owned (change_interval t f)" "form_owned f \<Longrightarrow> form_owned (change_attempts t f)"
  "form_owned f \<Longrightarrow> form_owned (change_retention t f)"
  by (auto simp: form_owned_def change_enabled_def change_notification_def change_interval_def change_attempts_def
      change_retention_def edit_healthcheck_def owned_config_def positive_config_def positive_value_def
      split: option.splits if_splits)

lemma edits_keep_effect [simp]:
  "hf_effect (change_enabled b f) = hf_effect f" "hf_effect (change_notification b f) = hf_effect f"
  "hf_effect (change_interval t f) = hf_effect f" "hf_effect (change_attempts t f) = hf_effect f"
  "hf_effect (change_retention t f) = hf_effect f"
  "hf_databaseId (change_enabled b f) = hf_databaseId f" "hf_databaseId (change_notification b f) = hf_databaseId f"
  "hf_databaseId (change_interval t f) = hf_databaseId f" "hf_databaseId (change_attempts t f) = hf_databaseId f"
  "hf_databaseId (change_retention t f) = hf_databaseId f"
  by (auto simp: change_enabled_def change_notification_def change_interval_def change_attempts_def
      change_retention_def edit_healthcheck_def split: option.splits)

lemma control_owned:
  assumes "form_owned f"
  shows "form_owned (fst (healthcheck_control e f))"
    and "snd (healthcheck_control e f) = Some (i, c) \<Longrightarrow> owned_config i c"
    and "hf_effect (fst (healthcheck_control e f)) = hf_effect f
      \<and> hf_databaseId (fst (healthcheck_control e f)) = hf_databaseId f
      \<or> hf_effect (fst (healthcheck_control e f)) = Suc (hf_effect f)"
  using assms edits_owned [OF assms]
  by (cases e; auto simp: healthcheck_control_def run_healthcheck_effect_def handle_save_def form_owned_def
      split: option.splits if_splits)+

interpretation healthcheck: guarded_machine healthcheck_run_step healthcheck_inv answers_asked
proof unfold_locales
  fix x e assume inv: "healthcheck_inv x" and ok: "answers_asked e"
  have owned: "form_owned (hr_form x)" using inv by (simp add: healthcheck_inv_def form_owned_def)
  show "healthcheck_inv (healthcheck_run_step x e)"
  proof (cases e)
    case (HControl c)
    note c = control_owned [OF owned, of c]
    from inv c(1) show ?thesis
      using c(2) c(3) HControl
      by (fastforce simp: healthcheck_inv_def healthcheck_sent_def form_owned_def split: option.splits)
  next
    case (HLoaded n i a)
    with inv ok show ?thesis
      by (fastforce simp: healthcheck_inv_def settle_healthcheck_load_def owned_config_def
          dest: notin_set_remove1 split: sum.splits option.splits)
  next
    case (HSaved i a)
    with inv show ?thesis
      by (auto simp: healthcheck_inv_def settle_healthcheck_save_def split: sum.splits option.splits)
  qed
qed

lemma opened_healthcheck_inv: "healthcheck_inv (opened_healthcheck_run i)"
  by (simp add: healthcheck_inv_def opened_healthcheck_run_def run_healthcheck_effect_def Let_def)

text \<open>In every run of the form, when the server answers with positive numbers for the database it was asked
  for, every configuration sent is of the database shown and its numbers are positive, whatever is typed.\<close>

theorem healthcheck_numbers_stay_positive:
  assumes "list_all answers_asked es"
  shows "list_all (\<lambda>(i, c). owned_config i c) (hr_sent (foldl healthcheck_run_step (opened_healthcheck_run i) es))"
  using healthcheck.guarded_run_inv [OF opened_healthcheck_inv assms] by (simp add: healthcheck_inv_def)

definition plain_config :: healthcheck_config where
  "plain_config = \<lparr>hc_databaseId = ''d'', hc_isHealthcheckEnabled = True, hc_isNotificationEnabled = True,
     hc_intervalMinutes = 5, hc_failedAttemptsBeforeUnavailable = 3, hc_attemptRetentionDays = 30\<rparr>"

lemma healthcheck_numbers_stay_positive_witness:
  "list_all (\<lambda>(i, c). owned_config i c) (hr_sent (foldl healthcheck_run_step (opened_healthcheck_run ''d'')
     [HLoaded 1 ''d'' (Inr plain_config), HControl (HEnable False), HControl HClickSave]))"
  by (rule healthcheck_numbers_stay_positive) (simp add: plain_config_def positive_config_def)

lemma a_changed_configuration_is_sent:
  "hr_sent (foldl healthcheck_run_step (opened_healthcheck_run ''d'')
     [HLoaded 1 ''d'' (Inr plain_config), HControl (HEnable False), HControl HClickSave])
   = [(''d'', plain_config\<lparr>hc_isHealthcheckEnabled := False\<rparr>)]"
  by (simp add: opened_healthcheck_run_def run_healthcheck_effect_def opened_healthcheck_form_def Let_def
      settle_healthcheck_load_def healthcheck_sent_def healthcheck_control_def shows_healthcheck_def
      change_enabled_def edit_healthcheck_def handle_save_def plain_config_def)

text \<open>What is edited while a save is on its way goes down with the form when the save succeeds.\<close>

lemma healthcheck_edit_during_save_is_lost:
  assumes "hf_isActive f"
  shows "hf_closed (settle_healthcheck_save (hf_databaseId f) (Inr ()) (change_enabled b f)) = Suc (hf_closed f)"
    and "\<not> hf_isUnsaved (settle_healthcheck_save (hf_databaseId f) (Inr ()) (change_enabled b f))"
  using assms by (simp_all add: settle_healthcheck_save_def change_enabled_def edit_healthcheck_def)

section \<open>The attempts shown are those of the database, and a tick repairs nothing but attempts\<close>

record 'a attempts_run =
  ar_view :: "'a attempts_view"
  ar_pending :: "'a attempts_request list"

datatype 'a attempts_run_event =
    AControl attempts_event
  | AConfigAnswer int nat string "thrown + bool"
  | APageAnswer "'a page_request" "thrown + 'a list \<times> string option"

definition attempts_sent ::
    "'a attempts_view \<times> 'a attempts_request option \<Rightarrow> 'a attempts_request list \<Rightarrow> 'a attempts_run" where
  "attempts_sent r ps = \<lparr>ar_view = fst r, ar_pending = ps @ (case snd r of None \<Rightarrow> [] | Some q \<Rightarrow> [q])\<rparr>"

primrec attempts_run_step ::
    "(int \<Rightarrow> int \<Rightarrow> int) \<Rightarrow> 'a attempts_run \<Rightarrow> 'a attempts_run_event \<Rightarrow> 'a attempts_run" where
  "attempts_run_step days_before x (AControl e) =
     attempts_sent (attempts_control days_before e (ar_view x)) (ar_pending x)"
| "attempts_run_step days_before x (AConfigAnswer now n i a) = (if AskConfig n i \<notin> set (ar_pending x) then x
     else attempts_sent (settle_attempts_config (get_since_by_period days_before (av_period (ar_view x)) now) n a
       (ar_view x)) (remove1 (AskConfig n i) (ar_pending x)))"
| "attempts_run_step days_before x (APageAnswer q a) = (if AskAttempts q \<notin> set (ar_pending x) then x
     else attempts_sent (settle_attempts_page q a (ar_view x)) (remove1 (AskAttempts q) (ar_pending x)))"

definition unopened_attempts :: "'a attempts_view" where
  "unopened_attempts = \<lparr>av_databaseId = [], av_period = Today, av_isSessionActive = True, av_effect = 0,
     av_loadSequence = 0, av_isConfigLoading = False, av_isShown = False, av_configLoadError = None,
     av_isLoading = False, av_attempts = [], av_attemptsLoadError = None, av_isPolling = False\<rparr>"

definition opened_attempts_run :: "string \<Rightarrow> 'a attempts_run" where
  "opened_attempts_run i = attempts_sent (run_attempts_effect i Today unopened_attempts) []"

text \<open>Where a run stands in an effect: its configuration is on the way, or its load is, or neither.\<close>

definition asked_config :: "'a attempts_run \<Rightarrow> bool" where
  "asked_config x \<longleftrightarrow> (\<exists>i. AskConfig (av_effect (ar_view x)) i \<in> set (ar_pending x))"

definition attempts_fresh :: "('a \<Rightarrow> string) \<Rightarrow> 'a attempts_view \<Rightarrow> 'a attempts_request \<Rightarrow> bool" where
  "attempts_fresh owner v q = (case q of
       AskConfig n i \<Rightarrow> n \<le> av_effect v
     | AskAttempts p \<Rightarrow> pq_effect p \<le> av_effect v \<and> (pq_effect p = av_effect v \<longrightarrow>
         pq_databaseId p = av_databaseId v \<and> pq_sequence p \<le> av_loadSequence v
         \<and> list_all (\<lambda>a. owner a = av_databaseId v) (pq_attempts p)))"

definition attempts_inv :: "('a \<Rightarrow> string) \<Rightarrow> 'a attempts_run \<Rightarrow> bool" where
  "attempts_inv owner x \<longleftrightarrow> list_all (attempts_fresh owner (ar_view x)) (ar_pending x)
     \<and> list_all (\<lambda>a. owner a = av_databaseId (ar_view x)) (av_attempts (ar_view x))"

text \<open>The server answers with attempts of the database it was asked for.\<close>

primrec answers_with_own :: "('a \<Rightarrow> string) \<Rightarrow> 'a attempts_run_event \<Rightarrow> bool" where
  "answers_with_own owner (AControl e) = True"
| "answers_with_own owner (AConfigAnswer now n i a) = True"
| "answers_with_own owner (APageAnswer q a) =
     (case a of Inl _ \<Rightarrow> True | Inr p \<Rightarrow> list_all (\<lambda>x. owner x = pq_databaseId q) (fst p))"

definition result_owned ::
    "('a \<Rightarrow> string) \<Rightarrow> 'a attempts_view \<times> 'a attempts_request option \<Rightarrow> bool" where
  "result_owned owner r \<longleftrightarrow> (case snd r of None \<Rightarrow> True | Some q \<Rightarrow> attempts_fresh owner (fst r) q)
     \<and> list_all (\<lambda>a. owner a = av_databaseId (fst r)) (av_attempts (fst r))"

text \<open>A step either stays in its effect and its database, or starts a later effect.\<close>

definition advances :: "'a attempts_view \<Rightarrow> 'a attempts_view \<Rightarrow> bool" where
  "advances v w \<longleftrightarrow> av_effect v < av_effect w
     \<or> av_effect v = av_effect w \<and> av_databaseId v = av_databaseId w \<and> av_loadSequence v \<le> av_loadSequence w"

lemma fresh_later: "attempts_fresh owner v q \<Longrightarrow> advances v w \<Longrightarrow> attempts_fresh owner w q"
  by (auto simp: attempts_fresh_def advances_def split: attempts_request.splits)

lemma attempts_inv_sent:
  assumes "attempts_inv owner x" "set ps \<subseteq> set (ar_pending x)" "advances (ar_view x) (fst r)" "result_owned owner r"
  shows "attempts_inv owner (attempts_sent r ps)"
  using assms fresh_later [of owner "ar_view x" _ "fst r"]
  by (auto simp: attempts_inv_def attempts_sent_def result_owned_def list_all_iff split: option.splits)

lemma effect_advances:
  "advances v (fst (run_attempts_effect i p v))" "result_owned owner (run_attempts_effect i p v)"
  by (simp_all add: advances_def result_owned_def run_attempts_effect_def attempts_fresh_def Let_def)

lemma fetch_advances:
  "advances v (fst (fetch_all_attempts b since v))"
  "list_all (\<lambda>a. owner a = av_databaseId v) (av_attempts v) \<Longrightarrow> result_owned owner (fetch_all_attempts b since v)"
  by (simp_all add: advances_def result_owned_def fetch_all_attempts_def attempts_fresh_def Let_def)

lemma attempts_control_advances:
  assumes "list_all (\<lambda>a. owner a = av_databaseId v) (av_attempts v)"
  shows "advances v (fst (attempts_control days_before e v))" "result_owned owner (attempts_control days_before e v)"
  using assms effect_advances(1) [where v = v] effect_advances(2) [where owner = owner and v = v] fetch_advances(1) [where v = v]
    fetch_advances(2) [OF assms]
  by (cases e; auto simp: attempts_control_def refresh_healthcheck_attempts_def; simp add: advances_def result_owned_def)+

lemma config_answer_advances:
  assumes "list_all (\<lambda>a. owner a = av_databaseId v) (av_attempts v)"
  shows "advances v (fst (settle_attempts_config since n a v))"
    "result_owned owner (settle_attempts_config since n a v)"
  using assms
  by (auto simp: settle_attempts_config_def load_healthcheck_attempts_def fetch_all_attempts_def Let_def advances_def
      result_owned_def attempts_fresh_def split: sum.splits)

lemma page_answer_advances:
  assumes "list_all (\<lambda>a. owner a = av_databaseId v) (av_attempts v)" "attempts_fresh owner v (AskAttempts q)"
    and "answers_with_own owner (APageAnswer q a)"
  shows "advances v (fst (settle_attempts_page q a v))" "result_owned owner (settle_attempts_page q a v)"
  using assms
  by (auto simp: settle_attempts_page_def is_current_attempts_load_def Let_def advances_def result_owned_def attempts_fresh_def
      split: sum.splits)

interpretation attempts: guarded_machine "attempts_run_step days_before" "attempts_inv owner" "answers_with_own owner"
  for days_before owner
proof unfold_locales
  fix x :: "'a attempts_run" and e
  assume inv: "attempts_inv owner x" and ok: "answers_with_own owner e"
  have owned: "list_all (\<lambda>a. owner a = av_databaseId (ar_view x)) (av_attempts (ar_view x))"
    using inv by (simp add: attempts_inv_def)
  show "attempts_inv owner (attempts_run_step days_before x e)"
  proof (cases e)
    case (AControl c)
    with attempts_inv_sent [OF inv order_refl attempts_control_advances [OF owned]] show ?thesis by simp
  next
    case (AConfigAnswer now n i a)
    with inv attempts_inv_sent [OF inv set_remove1_subset config_answer_advances [OF owned]] show ?thesis by simp
  next
    case (APageAnswer q a)
    show ?thesis
    proof (cases "AskAttempts q \<in> set (ar_pending x)")
      case True
      with inv have "attempts_fresh owner (ar_view x) (AskAttempts q)" by (simp add: attempts_inv_def list_all_iff)
      from attempts_inv_sent [OF inv set_remove1_subset page_answer_advances [OF owned this ok [unfolded APageAnswer]]]
      show ?thesis using APageAnswer True by simp
    next
      case False
      with inv APageAnswer show ?thesis by simp
    qed
  qed
qed

lemma opened_attempts_inv: "attempts_inv owner (opened_attempts_run i)"
  by (simp add: attempts_inv_def opened_attempts_run_def attempts_sent_def run_attempts_effect_def
      unopened_attempts_def attempts_fresh_def Let_def)

text \<open>In every run of the list of attempts, whatever is chosen, answered late or polled, the attempts shown are
  of the database shown, when the server answers with attempts of the database it was asked for.\<close>

theorem attempts_are_of_the_shown_database:
  assumes "list_all (answers_with_own owner) es"
  shows "list_all (\<lambda>a. owner a = av_databaseId (ar_view (foldl (attempts_run_step days_before) (opened_attempts_run i) es)))
    (av_attempts (ar_view (foldl (attempts_run_step days_before) (opened_attempts_run i) es)))"
  using attempts.guarded_run_inv [OF opened_attempts_inv assms, of days_before i] by (simp add: attempts_inv_def)

text \<open>Polling starts only after a successful load, so a tick cannot replace a shown failure: once an effect polls, or
  shows a failure, nothing of its opening is on the way any more.\<close>

definition request_effect :: "'a attempts_request \<Rightarrow> nat" where
  "request_effect q = (case q of AskConfig n i \<Rightarrow> n | AskAttempts p \<Rightarrow> pq_effect p)"

definition opens :: "nat \<Rightarrow> 'a attempts_request \<Rightarrow> bool" where
  "opens n q \<longleftrightarrow> request_effect q = n \<and> (case q of AskConfig m i \<Rightarrow> True | AskAttempts p \<Rightarrow> pq_isLoad p)"

definition polls_after_success :: "'a attempts_view \<Rightarrow> nat \<Rightarrow> bool" where
  "polls_after_success v k \<longleftrightarrow> k \<le> 1 \<and> (av_isPolling v \<or> av_attemptsLoadError v \<noteq> None \<longrightarrow> k = 0)
     \<and> (av_isPolling v \<longrightarrow> av_attemptsLoadError v = None \<and> av_period v = Today)"

definition poll_inv :: "'a attempts_run \<Rightarrow> bool" where
  "poll_inv x \<longleftrightarrow> list_all (\<lambda>q. request_effect q \<le> av_effect (ar_view x)) (ar_pending x)
     \<and> polls_after_success (ar_view x) (length (List.filter (opens (av_effect (ar_view x))) (ar_pending x)))"

lemma opens_later: "list_all (\<lambda>q. request_effect q \<le> n) ps \<Longrightarrow> n < m \<Longrightarrow> List.filter (opens m) ps = []"
  by (auto simp: filter_empty_conv opens_def list_all_iff)

lemma poll_inv_effect:
  assumes "poll_inv x" "set ps \<subseteq> set (ar_pending x)"
  shows "poll_inv (attempts_sent (run_attempts_effect i p (ar_view x)) ps)"
proof -
  have old: "list_all (\<lambda>q. request_effect q \<le> av_effect (ar_view x)) ps"
    using assms by (auto simp: poll_inv_def list_all_iff)
  with opens_later [OF old, of "Suc (av_effect (ar_view x))"] show ?thesis
    by (simp add: poll_inv_def attempts_sent_def run_attempts_effect_def Let_def opens_def request_effect_def
        polls_after_success_def list_all_iff le_SucI)
qed

lemma poll_inv_same_effect:
  assumes "poll_inv x" "av_effect (fst r) = av_effect (ar_view x)" "set ps \<subseteq> set (ar_pending x)"
    and "case snd r of None \<Rightarrow> True | Some q \<Rightarrow> request_effect q = av_effect (ar_view x)"
    and "polls_after_success (fst r) (length (List.filter (opens (av_effect (ar_view x))) ps)
       + (case snd r of None \<Rightarrow> 0 | Some q \<Rightarrow> of_bool (opens (av_effect (ar_view x)) q)))"
  shows "poll_inv (attempts_sent r ps)"
  using assms by (auto simp: poll_inv_def attempts_sent_def list_all_iff split: option.splits)

lemma poll_inv_control:
  assumes "poll_inv x"
  shows "poll_inv (attempts_sent (attempts_control days_before e (ar_view x)) (ar_pending x))"
proof (cases e)
  case (TTick now)
  show ?thesis
    by (rule poll_inv_same_effect [OF assms])
      (use assms TTick in \<open>auto simp: attempts_control_def refresh_healthcheck_attempts_def fetch_all_attempts_def
        Let_def poll_inv_def polls_after_success_def opens_def request_effect_def\<close>)
qed (use assms poll_inv_effect [OF assms order_refl] in
    \<open>auto simp: attempts_control_def attempts_sent_def poll_inv_def polls_after_success_def\<close>)

lemma opening_answered:
  assumes "poll_inv x" "q \<in> set (ar_pending x)" "opens (av_effect (ar_view x)) q"
  shows "List.filter (opens (av_effect (ar_view x))) (remove1 q (ar_pending x)) = []"
    and "\<not> av_isPolling (ar_view x)" and "av_attemptsLoadError (ar_view x) = None"
proof -
  let ?ps = "List.filter (opens (av_effect (ar_view x))) (ar_pending x)"
  have q: "q \<in> set ?ps" using assms(2,3) by simp
  have "length ?ps \<le> 1" using assms(1) by (simp add: poll_inv_def polls_after_success_def)
  with q have "?ps = [q]" by (cases ?ps) auto
  then show "List.filter (opens (av_effect (ar_view x))) (remove1 q (ar_pending x)) = []"
    by (simp add: filter_remove1)
  from \<open>?ps = [q]\<close> assms(1) show "\<not> av_isPolling (ar_view x)" "av_attemptsLoadError (ar_view x) = None"
    by (auto simp: poll_inv_def polls_after_success_def)
qed

lemma other_answered:
  assumes "\<not> opens n q"
  shows "List.filter (opens n) (remove1 q ps) = List.filter (opens n) ps"
  using assms by (simp add: filter_remove1 remove1_idem)

lemma poll_inv_config_answer:
  fixes x :: "'a attempts_run"
  assumes "poll_inv x" "AskConfig n i \<in> set (ar_pending x)"
  shows "poll_inv (attempts_sent (settle_attempts_config since n a (ar_view x))
    (remove1 (AskConfig n i) (ar_pending x)))"
proof (cases "n = av_effect (ar_view x)")
  case True
  then have "opens (av_effect (ar_view x)) (AskConfig n i)" by (simp add: opens_def request_effect_def)
  note answered = opening_answered [OF assms this]
  show ?thesis
    by (rule poll_inv_same_effect [OF assms(1) _ set_remove1_subset])
      (use answered True in \<open>auto simp: settle_attempts_config_def load_healthcheck_attempts_def fetch_all_attempts_def
        Let_def polls_after_success_def opens_def request_effect_def split: sum.splits dest: notin_set_remove1\<close>)
next
  case False
  then have "\<not> opens (av_effect (ar_view x)) (AskConfig n i :: 'a attempts_request)" by (simp add: opens_def request_effect_def)
  from other_answered [OF this] assms False show ?thesis
    by (intro poll_inv_same_effect [OF assms(1) _ set_remove1_subset])
      (auto simp: settle_attempts_config_def poll_inv_def dest: notin_set_remove1)
qed

lemma poll_inv_page_answer:
  assumes "poll_inv x" "AskAttempts q \<in> set (ar_pending x)"
  shows "poll_inv (attempts_sent (settle_attempts_page q a (ar_view x)) (remove1 (AskAttempts q) (ar_pending x)))"
proof (cases "opens (av_effect (ar_view x)) (AskAttempts q)")
  case True
  then have q: "pq_effect q = av_effect (ar_view x)" "pq_isLoad q" by (simp_all add: opens_def request_effect_def)
  note answered = opening_answered [OF assms True]
  show ?thesis
    by (rule poll_inv_same_effect [OF assms(1) _ set_remove1_subset])
      (use answered q in \<open>auto simp: settle_attempts_page_def Let_def polls_after_success_def opens_def
        request_effect_def split: sum.splits dest: notin_set_remove1\<close>)
next
  case False
  have kept: "polls_after_success (ar_view x)
      (length (List.filter (opens (av_effect (ar_view x))) (remove1 (AskAttempts q) (ar_pending x))))"
    using assms(1) by (simp add: other_answered [OF False] poll_inv_def)
  have "pq_effect q = av_effect (ar_view x) \<Longrightarrow> \<not> pq_isLoad q"
    using False by (simp add: opens_def request_effect_def)
  with kept show ?thesis
    by (intro poll_inv_same_effect [OF assms(1) _ set_remove1_subset])
      (auto simp: settle_attempts_page_def is_current_attempts_load_def Let_def polls_after_success_def opens_def
        request_effect_def split: sum.splits dest: notin_set_remove1)
qed

interpretation polling: invariant_machine "attempts_run_step days_before" poll_inv for days_before
proof unfold_locales
  show "poll_inv (attempts_run_step days_before x e)" if "poll_inv x" for x e
    using that by (cases e) (simp_all add: poll_inv_control poll_inv_config_answer poll_inv_page_answer)
qed

lemma opened_poll_inv: "poll_inv (opened_attempts_run i)"
  by (simp add: poll_inv_def opened_attempts_run_def attempts_sent_def run_attempts_effect_def unopened_attempts_def
      opens_def request_effect_def polls_after_success_def Let_def)

text \<open>C37: In every run of the list of attempts the interval does not run while a failed load is shown, so no tick
  replaces the failure.\<close>

theorem a_tick_never_replaces_a_failure:
  "\<not> (av_isPolling (ar_view (foldl (attempts_run_step days_before) (opened_attempts_run i) es))
    \<and> av_attemptsLoadError (ar_view (foldl (attempts_run_step days_before) (opened_attempts_run i) es)) \<noteq> None)"
  using polling.run_inv [OF opened_poll_inv, of days_before i es]
  by (auto simp: poll_inv_def polls_after_success_def)

end
