(* ===== verification/Databases_Page.thy ===== *)
theory Databases_Page
  imports Connections Workspace_Settings
begin

text \<open>
  The page of a workspace's databases (\<open>pages/databases/ui/DatabasesComponent.tsx\<close>): its loads of three lists at
  once, its silent refreshes, what the wizard and a database's screen report to it, and its selection. A load's
  three reads are answered one by one; \<open>Promise.all\<close> settles with the first failure or the last success. A storage
  is a parameter type with its id.
\<close>

section \<open>The state\<close>

record listed_database = database_item +
  ld_workspaceId :: string
  ld_name :: string

record 'st databases_page =
  dp_workspaceId :: string
  dp_items :: "listed_database list"
  dp_storagesByDatabaseId :: "string \<rightharpoonup> 'st"
  dp_isReady :: bool
  dp_loadError :: "thrown option"
  dp_isLoading :: bool
  dp_searchQuery :: string
  dp_isShowAddDatabase :: bool
  dp_hasConnectionError :: bool
  dp_databaseCreatedInWizard :: "listed_database option"
  dp_loadRevision :: request_revision
  dp_isCurrent :: bool
  dp_selection :: selection_hook
  dp_selectedDatabaseId :: "string option"
  dp_unavailable :: nat

text \<open>A load with the answers it has so far.\<close>

record 'st databases_load =
  dl_revision :: nat
  dl_isSilent :: bool
  dl_isWorkspaceUnavailable :: bool
  dl_isSettled :: bool
  dl_databases :: "listed_database list option"
  dl_backupConfigs :: "(string \<times> string option) list option"
  dl_storages :: "'st list option"

definition database_ids :: "listed_database list \<Rightarrow> string list" where
  "database_ids ds = map db_id ds"

definition create_empty_collection :: "'st databases_page \<Rightarrow> 'st databases_page" where
  "create_empty_collection s = s\<lparr>dp_items := [], dp_storagesByDatabaseId := Map.empty, dp_isReady := False\<rparr>"

text \<open>Of two storages with one id the later one counts, and of two configurations of a database too.\<close>

definition map_storages_by_database_id ::
    "('st \<Rightarrow> string) \<Rightarrow> (string \<times> string option) list \<Rightarrow> 'st list \<Rightarrow> string \<rightharpoonup> 'st" where
  "map_storages_by_database_id storageId backupConfigs storages =
     (let storagesById = map_of (rev (map (\<lambda>x. (storageId x, x)) storages))
      in foldl (\<lambda>m (databaseId, i). case (if truthy i then storagesById (the i) else None) of
           None \<Rightarrow> m | Some x \<Rightarrow> m(databaseId \<mapsto> x)) Map.empty backupConfigs)"

section \<open>Loading\<close>

definition load_databases ::
    "bool \<Rightarrow> 'st databases_page \<Rightarrow> 'st databases_page \<times> 'st databases_load option" where
  "load_databases isSilent s =
     (if \<not> dp_isCurrent s then (s, None)
      else let (revision, r) = invalidate (dp_loadRevision s);
               s1 = s\<lparr>dp_loadRevision := r\<rparr>
        in (if isSilent then s1 else s1\<lparr>dp_isLoading := True, dp_loadError := None\<rparr>,
            Some \<lparr>dl_revision = revision, dl_isSilent = isSilent, dl_isWorkspaceUnavailable = False,
              dl_isSettled = False, dl_databases = None, dl_backupConfigs = None, dl_storages = None\<rparr>))"

definition load_counts :: "'st databases_load \<Rightarrow> 'st databases_page \<Rightarrow> bool" where
  "load_counts l s \<longleftrightarrow> dp_isCurrent s \<and> is_current_revision (dp_loadRevision s) (dl_revision l)"

definition handle_workspace_read_error ::
    "thrown \<Rightarrow> 'st databases_load \<times> 'st databases_page \<Rightarrow> 'st databases_load \<times> 'st databases_page" where
  "handle_workspace_read_error e x = (let l = fst x; s = snd x
     in if load_counts l s \<and> \<not> dl_isWorkspaceUnavailable l \<and> has_status {403, 404} e
        then (l\<lparr>dl_isWorkspaceUnavailable := True\<rparr>,
          (create_empty_collection s)\<lparr>dp_loadError := None, dp_unavailable := Suc (dp_unavailable s)\<rparr>)
        else x)"

text \<open>What follows \<open>Promise.all\<close>: the three lists, or the first failure.\<close>

definition settle_databases_load ::
    "('st \<Rightarrow> string) \<Rightarrow> thrown + listed_database list \<times> (string \<times> string option) list \<times> 'st list
      \<Rightarrow> 'st databases_load \<Rightarrow> 'st databases_page \<Rightarrow> 'st databases_page" where
  "settle_databases_load storageId outcome l s =
     (let s1 = (if \<not> load_counts l s \<or> dl_isWorkspaceUnavailable l then s
        else case outcome of
          Inr (listedDatabases, listedBackupConfigs, listedStorages) \<Rightarrow>
            s\<lparr>dp_items := sort_unavailable_databases_first listedDatabases,
              dp_storagesByDatabaseId := map_storages_by_database_id storageId listedBackupConfigs listedStorages,
              dp_isReady := True, dp_loadError := None\<rparr>
        | Inl e \<Rightarrow> if dl_isSilent l then s else s\<lparr>dp_loadError := Some e\<rparr>)
      in if load_counts l s then s1\<lparr>dp_isLoading := False\<rparr> else s1)"

datatype 'st read_answer =
    DatabasesRead "thrown + listed_database list"
  | ConfigsRead "thrown + (string \<times> string option) list"
  | StoragesRead "thrown + 'st list"

definition settle_failed_read ::
    "('st \<Rightarrow> string) \<Rightarrow> thrown \<Rightarrow> 'st databases_load \<Rightarrow> 'st databases_page
      \<Rightarrow> 'st databases_load \<times> 'st databases_page" where
  "settle_failed_read storageId e l s = (let x = handle_workspace_read_error e (l, s)
     in if dl_isSettled l then x
        else ((fst x)\<lparr>dl_isSettled := True\<rparr>, settle_databases_load storageId (Inl e) (fst x) (snd x)))"

definition settle_read_lists ::
    "('st \<Rightarrow> string) \<Rightarrow> 'st databases_load \<Rightarrow> 'st databases_page \<Rightarrow> 'st databases_load \<times> 'st databases_page" where
  "settle_read_lists storageId l s =
     (if dl_isSettled l then (l, s)
      else case (dl_databases l, dl_backupConfigs l, dl_storages l) of
        (Some ds, Some cs, Some xs) \<Rightarrow>
          (l\<lparr>dl_isSettled := True\<rparr>, settle_databases_load storageId (Inr (ds, cs, xs)) l s)
      | _ \<Rightarrow> (l, s))"

definition settle_workspace_read ::
    "('st \<Rightarrow> string) \<Rightarrow> 'st read_answer \<Rightarrow> 'st databases_load \<Rightarrow> 'st databases_page
      \<Rightarrow> 'st databases_load \<times> 'st databases_page" where
  "settle_workspace_read storageId answer l s = (case answer of
       DatabasesRead (Inl e) \<Rightarrow> settle_failed_read storageId e l s
     | ConfigsRead (Inl e) \<Rightarrow> settle_failed_read storageId e l s
     | StoragesRead (Inl e) \<Rightarrow> settle_failed_read storageId e l s
     | DatabasesRead (Inr ds) \<Rightarrow> settle_read_lists storageId (l\<lparr>dl_databases := Some ds\<rparr>) s
     | ConfigsRead (Inr cs) \<Rightarrow> settle_read_lists storageId (l\<lparr>dl_backupConfigs := Some cs\<rparr>) s
     | StoragesRead (Inr xs) \<Rightarrow> settle_read_lists storageId (l\<lparr>dl_storages := Some xs\<rparr>) s)"

section \<open>What the screens report\<close>

definition selection_key :: "'st databases_page \<Rightarrow> string" where
  "selection_key s = ''selectedDatabaseId_'' @ dp_workspaceId s"

definition select_database :: "string option \<Rightarrow> 'st databases_page \<Rightarrow> 'st databases_page" where
  "select_database i s =
     s\<lparr>dp_selection := (dp_selection s)\<lparr>sh_selection := select_item (selection_key s) i\<rparr>\<rparr>"

definition accept_database ::
    "listed_database \<Rightarrow> 'st databases_page \<Rightarrow> 'st databases_page \<times> 'st databases_load option" where
  "accept_database d s =
     (if \<not> dp_isCurrent s \<or> ld_workspaceId d \<noteq> dp_workspaceId s then (s, None)
      else load_databases True
        (s\<lparr>dp_items := map (\<lambda>item. if db_id item = db_id d then d else item) (dp_items s)\<rparr>))"

definition add_database_to_list :: "listed_database \<Rightarrow> 'st databases_page \<Rightarrow> 'st databases_page" where
  "add_database_to_list d s = s\<lparr>dp_items := filter (\<lambda>item. db_id item \<noteq> db_id d) (dp_items s) @ [d]\<rparr>"

definition accept_added_database ::
    "listed_database \<Rightarrow> 'st databases_page \<Rightarrow> 'st databases_page \<times> 'st databases_load option" where
  "accept_added_database d s =
     (if \<not> dp_isCurrent s \<or> ld_workspaceId d \<noteq> dp_workspaceId s then (s, None)
      else load_databases True (select_database (Some (db_id d)) (add_database_to_list d s)))"

definition accept_copied_database ::
    "listed_database \<Rightarrow> string \<Rightarrow> 'st databases_page \<Rightarrow> 'st databases_page \<times> 'st databases_load option" where
  "accept_copied_database d sourceDatabaseId s =
     (if \<not> dp_isCurrent s \<or> ld_workspaceId d \<noteq> dp_workspaceId s then (s, None)
      else let s1 = add_database_to_list d s
        in load_databases True (if dp_selectedDatabaseId s = Some sourceDatabaseId
             then select_database (Some (db_id d)) s1 else s1))"

definition remember_database_created_in_wizard :: "listed_database \<Rightarrow> 'st databases_page \<Rightarrow> 'st databases_page" where
  "remember_database_created_in_wizard d s = s\<lparr>dp_databaseCreatedInWizard := Some d\<rparr>"

definition close_wizard_and_accept_created_database ::
    "'st databases_page \<Rightarrow> 'st databases_page \<times> 'st databases_load option" where
  "close_wizard_and_accept_created_database s =
     (let s1 = s\<lparr>dp_databaseCreatedInWizard := None, dp_isShowAddDatabase := False\<rparr>
      in case dp_databaseCreatedInWizard s of None \<Rightarrow> (s1, None) | Some d \<Rightarrow> accept_added_database d s1)"

text \<open>\<open>itemIds\<close> are the databases of the render that started the deletion, which may be old ones.\<close>

definition remove_database ::
    "string list \<Rightarrow> string \<Rightarrow> 'st databases_page \<Rightarrow> 'st databases_page \<times> 'st databases_load option" where
  "remove_database itemIds databaseId s =
     (if \<not> dp_isCurrent s then (s, None)
      else let s1 = (if dp_selectedDatabaseId s = Some databaseId
             then s\<lparr>dp_selection := (dp_selection s)\<lparr>sh_selection := remove_selected (selection_key s) itemIds databaseId\<rparr>\<rparr>
             else s)
        in load_databases True (s1\<lparr>dp_items := filter (\<lambda>item. db_id item \<noteq> databaseId) (dp_items s1)\<rparr>))"

definition refresh_if_visible ::
    "bool \<Rightarrow> 'st databases_page \<Rightarrow> 'st databases_page \<times> 'st databases_load option" where
  "refresh_if_visible isVisible s = (if isVisible \<and> dp_isReady s then load_databases True s else (s, None))"

definition filtered_databases :: "'st databases_page \<Rightarrow> listed_database list" where
  "filtered_databases s =
     filter (\<lambda>d. contains_text (to_lower (dp_searchQuery s)) (to_lower (ld_name d))) (dp_items s)"

definition open_add_database :: "'st databases_page \<Rightarrow> 'st databases_page" where
  "open_add_database s = s\<lparr>dp_hasConnectionError := False, dp_isShowAddDatabase := True\<rparr>"

section \<open>The page\<close>

text \<open>What is shown after a change; the selection is rendered with the databases.\<close>

definition render_databases :: "bool \<Rightarrow> 'st databases_page \<Rightarrow> 'st databases_page" where
  "render_databases isMobile s =
     (let (i, h) = render_selection (selection_key s) (database_ids (dp_items s)) (dp_isReady s) isMobile (dp_selection s)
      in s\<lparr>dp_selection := h, dp_selectedDatabaseId := i\<rparr>)"

definition opened_databases_page :: "storage \<Rightarrow> string \<Rightarrow> 'st databases_page" where
  "opened_databases_page st workspaceId = \<lparr>dp_workspaceId = workspaceId, dp_items = [],
     dp_storagesByDatabaseId = Map.empty, dp_isReady = False, dp_loadError = None, dp_isLoading = True,
     dp_searchQuery = [], dp_isShowAddDatabase = False, dp_hasConnectionError = False,
     dp_databaseCreatedInWizard = None, dp_loadRevision = new_revision, dp_isCurrent = True,
     dp_selection = new_selection_hook st (''selectedDatabaseId_'' @ workspaceId), dp_selectedDatabaseId = None,
     dp_unavailable = 0\<rparr>"

datatype databases_event =
    DSessionEnds | DTick bool | DRetry | DSearch string | DAddDatabase | DSelect string | DBackToList
  | DConnectionError bool | DCreated listed_database | DCloseWizard
  | DChanged listed_database | DCopied listed_database string | DDeleted "string list" string

text \<open>A database's screen and the wizard are reached from a ready list; a late answer of theirs may come after the
  workspace became unavailable. A transferred database is reported as a deleted one is.\<close>

definition reached_from_list :: "'st databases_page \<Rightarrow> bool" where
  "reached_from_list s \<longleftrightarrow> dp_isReady s \<or> 0 < dp_unavailable s"

definition databases_control ::
    "bool \<Rightarrow> databases_event \<Rightarrow> 'st databases_page \<Rightarrow> 'st databases_page \<times> 'st databases_load option" where
  "databases_control isCanManageDBs e s = (case e of
       DSessionEnds \<Rightarrow> (s\<lparr>dp_isCurrent := False\<rparr>, None)
     | DTick isVisible \<Rightarrow> refresh_if_visible isVisible s
     | DRetry \<Rightarrow> if dp_loadError s \<noteq> None then load_databases False s else (s, None)
     | DSearch query \<Rightarrow> (if dp_isReady s \<and> 5 \<le> length (dp_items s) then s\<lparr>dp_searchQuery := query\<rparr> else s, None)
     | DAddDatabase \<Rightarrow> (if dp_isReady s \<and> isCanManageDBs then open_add_database s else s, None)
     | DSelect i \<Rightarrow> (if dp_isReady s \<and> i \<in> set (database_ids (filtered_databases s))
         then select_database (Some i) s else s, None)
     | DBackToList \<Rightarrow> (if dp_isReady s then select_database None s else s, None)
     | DConnectionError b \<Rightarrow> (if dp_isShowAddDatabase s then s\<lparr>dp_hasConnectionError := b\<rparr> else s, None)
     | DCreated d \<Rightarrow> (if dp_isShowAddDatabase s then remember_database_created_in_wizard d s else s, None)
     | DCloseWizard \<Rightarrow> if dp_isShowAddDatabase s then close_wizard_and_accept_created_database s else (s, None)
     | DChanged d \<Rightarrow> if reached_from_list s then accept_database d s else (s, None)
     | DCopied d source \<Rightarrow> if reached_from_list s then accept_copied_database d source s else (s, None)
     | DDeleted itemIds i \<Rightarrow> if reached_from_list s then remove_database itemIds i s else (s, None))"

section \<open>Deleted databases stay gone, and the page never stays blank\<close>

text \<open>The page, its loads by revision with the databases reported as deleted before each, and all of these.\<close>

record 'st databases_run =
  br_page :: "'st databases_page"
  br_loads :: "nat \<rightharpoonup> 'st databases_load \<times> string list"
  br_gone :: "string list"

datatype 'st databases_run_event = BControl databases_event | BRead nat "'st read_answer"

definition databases_sent ::
    "bool \<Rightarrow> 'st databases_page \<times> 'st databases_load option \<Rightarrow> string list \<Rightarrow> 'st databases_run \<Rightarrow> 'st databases_run" where
  "databases_sent isMobile r gone x = \<lparr>br_page = render_databases isMobile (fst r),
     br_loads = (case snd r of None \<Rightarrow> br_loads x | Some l \<Rightarrow> (br_loads x)(dl_revision l \<mapsto> (l, gone))),
     br_gone = gone\<rparr>"

text \<open>The server's part: no list holds a database that was reported as deleted before it was asked for, and a
  created or copied database is a new one, which nobody deletes before the page shows it.\<close>

definition possible :: "'st databases_run \<Rightarrow> 'st databases_run_event \<Rightarrow> bool" where
  "possible x e = (case e of
       BControl (DCreated d) \<Rightarrow> db_id d \<notin> set (br_gone x)
     | BControl (DCopied d source) \<Rightarrow> db_id d \<notin> set (br_gone x)
     | BControl (DDeleted ids i) \<Rightarrow> map_option db_id (dp_databaseCreatedInWizard (br_page x)) \<noteq> Some i
     | BRead n (DatabasesRead (Inr ds)) \<Rightarrow> (case br_loads x n of None \<Rightarrow> False
         | Some (l, gone) \<Rightarrow> set (database_ids ds) \<inter> set gone = {})
     | _ \<Rightarrow> True)"

definition reported_gone :: "databases_event \<Rightarrow> 'st databases_page \<Rightarrow> string list" where
  "reported_gone e s = (case e of
       DDeleted ids i \<Rightarrow> if reached_from_list s \<and> dp_isCurrent s then [i] else [] | _ \<Rightarrow> [])"

definition databases_run_step ::
    "('st \<Rightarrow> string) \<Rightarrow> bool \<Rightarrow> bool \<Rightarrow> 'st databases_run \<Rightarrow> 'st databases_run_event \<Rightarrow> 'st databases_run" where
  "databases_run_step storageId isMobile isCanManageDBs x e =
     (if \<not> possible x e then x
      else case e of
        BControl c \<Rightarrow> databases_sent isMobile (databases_control isCanManageDBs c (br_page x))
          (br_gone x @ reported_gone c (br_page x)) x
      | BRead n a \<Rightarrow> (case br_loads x n of
            None \<Rightarrow> x
          | Some (l, gone) \<Rightarrow> (let r = settle_workspace_read storageId a l (br_page x)
              in x\<lparr>br_page := render_databases isMobile (snd r), br_loads := (br_loads x)(n \<mapsto> (fst r, gone))\<rparr>)))"

definition opened_databases_run :: "bool \<Rightarrow> storage \<Rightarrow> string \<Rightarrow> 'st databases_run" where
  "opened_databases_run isMobile st w =
     databases_sent isMobile (load_databases False (opened_databases_page st w)) []
       \<lparr>br_page = opened_databases_page st w, br_loads = Map.empty, br_gone = []\<rparr>"

text \<open>What a load and its page owe each other.\<close>

definition load_ok :: "nat \<Rightarrow> 'st databases_load \<times> string list \<Rightarrow> bool" where
  "load_ok n p \<longleftrightarrow> dl_revision (fst p) = n
     \<and> (case dl_databases (fst p) of None \<Rightarrow> True | Some ds \<Rightarrow> set (database_ids ds) \<inter> set (snd p) = {})"

definition page_ok :: "'st databases_page \<Rightarrow> string list \<Rightarrow> bool" where
  "page_ok s gone \<longleftrightarrow> set (database_ids (dp_items s)) \<inter> set gone = {}
     \<and> (case dp_databaseCreatedInWizard s of None \<Rightarrow> True | Some d \<Rightarrow> db_id d \<notin> set gone)"

definition shows_something :: "'st databases_page \<Rightarrow> bool" where
  "shows_something s \<longleftrightarrow> dp_isReady s \<or> 0 < dp_unavailable s \<or> \<not> dp_isCurrent s \<or> dp_loadError s \<noteq> None \<or> dp_isLoading s"

definition page_waits :: "'st databases_page \<Rightarrow> 'st databases_load \<Rightarrow> bool" where
  "page_waits s l \<longleftrightarrow> (dp_isCurrent s \<and> dp_isLoading s \<longrightarrow> \<not> dl_isSettled l)
     \<and> (\<not> reached_from_list s \<longrightarrow> \<not> dl_isSilent l)
     \<and> (dl_isWorkspaceUnavailable l \<longrightarrow> 0 < dp_unavailable s)"

definition databases_inv :: "'st databases_run \<Rightarrow> bool" where
  "databases_inv x \<longleftrightarrow> page_ok (br_page x) (br_gone x) \<and> shows_something (br_page x)
     \<and> (dp_isShowAddDatabase (br_page x) \<longrightarrow> reached_from_list (br_page x))
     \<and> (\<forall>n p. br_loads x n = Some p \<longrightarrow> load_ok n p \<and> n \<le> rr_revision (dp_loadRevision (br_page x)))
     \<and> (\<exists>l gone. br_loads x (rr_revision (dp_loadRevision (br_page x))) = Some (l, gone)
         \<and> set (br_gone x) \<subseteq> set gone \<and> page_waits (br_page x) l)"

lemma render_keeps [simp]:
  "dp_items (render_databases m s) = dp_items s" "dp_isReady (render_databases m s) = dp_isReady s"
  "dp_loadError (render_databases m s) = dp_loadError s" "dp_isLoading (render_databases m s) = dp_isLoading s"
  "dp_isCurrent (render_databases m s) = dp_isCurrent s" "dp_unavailable (render_databases m s) = dp_unavailable s"
  "dp_loadRevision (render_databases m s) = dp_loadRevision s"
  "dp_isShowAddDatabase (render_databases m s) = dp_isShowAddDatabase s"
  "dp_databaseCreatedInWizard (render_databases m s) = dp_databaseCreatedInWizard s"
  by (simp_all add: render_databases_def split_beta Let_def)

lemma render_same [simp]:
  "page_ok (render_databases m s) g = page_ok s g" "shows_something (render_databases m s) = shows_something s"
  "reached_from_list (render_databases m s) = reached_from_list s" "page_waits (render_databases m s) l = page_waits s l"
  by (simp_all add: page_ok_def shows_something_def reached_from_list_def page_waits_def)

lemma select_keeps [simp]:
  "dp_items (select_database i s) = dp_items s" "dp_isReady (select_database i s) = dp_isReady s"
  "dp_loadError (select_database i s) = dp_loadError s" "dp_isLoading (select_database i s) = dp_isLoading s"
  "dp_isCurrent (select_database i s) = dp_isCurrent s" "dp_unavailable (select_database i s) = dp_unavailable s"
  "dp_loadRevision (select_database i s) = dp_loadRevision s"
  "dp_isShowAddDatabase (select_database i s) = dp_isShowAddDatabase s"
  "dp_databaseCreatedInWizard (select_database i s) = dp_databaseCreatedInWizard s"
  by (simp_all add: select_database_def)

text \<open>A change that sends no load.\<close>

lemma inv_quiet:
  assumes "databases_inv x" "page_ok s (br_gone x)" "dp_isReady s = dp_isReady (br_page x)"
    "dp_unavailable s = dp_unavailable (br_page x)" "dp_loadError s = dp_loadError (br_page x)"
    "dp_isLoading s = dp_isLoading (br_page x)" "dp_isCurrent s \<longrightarrow> dp_isCurrent (br_page x)"
    "dp_loadRevision s = dp_loadRevision (br_page x)" "dp_isShowAddDatabase s \<longrightarrow> reached_from_list (br_page x)"
  shows "databases_inv (databases_sent m (s, None) (br_gone x) x)"
  using assms unfolding databases_inv_def databases_sent_def
  by (simp add: shows_something_def reached_from_list_def page_waits_def) blast

lemma load_databases_current:
  assumes "dp_isCurrent s"
  shows "load_databases silent s =
    (if silent then s\<lparr>dp_loadRevision := snd (invalidate (dp_loadRevision s))\<rparr>
     else s\<lparr>dp_loadRevision := snd (invalidate (dp_loadRevision s)), dp_isLoading := True, dp_loadError := None\<rparr>,
     Some \<lparr>dl_revision = Suc (rr_revision (dp_loadRevision s)), dl_isSilent = silent, dl_isWorkspaceUnavailable = False,
       dl_isSettled = False, dl_databases = None, dl_backupConfigs = None, dl_storages = None\<rparr>)"
  using assms by (simp add: load_databases_def Let_def split_beta)

text \<open>A change that sends one, after which every older load is superseded.\<close>

lemma inv_loads:
  assumes "databases_inv x" "page_ok s gone" "dp_isReady s = dp_isReady (br_page x)"
    "dp_unavailable s = dp_unavailable (br_page x)" "dp_loadError s = dp_loadError (br_page x)"
    "dp_isLoading s = dp_isLoading (br_page x)" "dp_isCurrent s" "dp_isCurrent (br_page x)"
    "dp_loadRevision s = dp_loadRevision (br_page x)" "dp_isShowAddDatabase s \<longrightarrow> reached_from_list (br_page x)"
    "silent \<longrightarrow> reached_from_list (br_page x)"
  shows "databases_inv (databases_sent m (load_databases silent s) gone x)"
proof -
  let ?n = "Suc (rr_revision (dp_loadRevision (br_page x)))"
  have old: "n \<le> rr_revision (dp_loadRevision (br_page x)) \<and> load_ok n p" if "br_loads x n = Some p" for n p
    using assms(1) that by (cases p) (simp add: databases_inv_def)
  have page: "page_ok (fst (load_databases silent s)) gone" "shows_something (fst (load_databases silent s))"
    "rr_revision (dp_loadRevision (fst (load_databases silent s))) = ?n"
    "dp_isShowAddDatabase (fst (load_databases silent s)) = dp_isShowAddDatabase s"
    "reached_from_list (fst (load_databases silent s)) = reached_from_list (br_page x)"
    using assms(2-10) assms(1) [unfolded databases_inv_def]
    by (simp_all add: load_databases_current page_ok_def shows_something_def reached_from_list_def)
  obtain l where l: "snd (load_databases silent s) = Some l" "dl_revision l = ?n" "dl_databases l = None"
    "\<not> dl_isSettled l" "dl_isSilent l = silent" "\<not> dl_isWorkspaceUnavailable l"
    using assms(7,9) by (simp add: load_databases_current)
  have waits: "page_waits (fst (load_databases silent s)) l"
    using l(4-6) assms(11) page(5) by (auto simp: page_waits_def)
  have loads: "load_ok n p \<and> n \<le> ?n" if "((br_loads x)(?n \<mapsto> (l, gone))) n = Some p" for n p
    using that old [of n p] l(2,3) by (auto simp: load_ok_def split: if_splits)
  show ?thesis
    unfolding databases_inv_def databases_sent_def
    using page loads waits assms(10) by (simp add: l(1,2))
qed

lemma database_filter_ids:
  "set (database_ids (filter (\<lambda>d. db_id d \<noteq> i) ds)) = set (database_ids ds) - {i}"
  by (auto simp: database_ids_def)

lemma database_replace_ids:
  "database_ids (map (\<lambda>item. if db_id item = db_id d then d else item) ds) = database_ids ds"
  by (simp add: database_ids_def)

lemma database_append_ids: "database_ids (ds @ es) = database_ids ds @ database_ids es" "database_ids [d] = [db_id d]"
  by (simp_all add: database_ids_def)

lemmas page_ids = database_filter_ids database_replace_ids database_append_ids

lemma control_keeps_inv:
  assumes inv: "databases_inv x" and ok: "possible x (BControl e)"
  shows "databases_inv (databases_sent m (databases_control can e (br_page x))
    (br_gone x @ reported_gone e (br_page x)) x)"
proof -
  let ?s = "br_page x"
  have page: "page_ok ?s (br_gone x)" and wizard: "dp_isShowAddDatabase ?s \<Longrightarrow> reached_from_list ?s"
    using inv by (simp_all add: databases_inv_def)
  have same: "databases_inv (databases_sent m (?s, None) (br_gone x) x)"
    by (rule inv_quiet [OF inv page]) (simp_all add: wizard)
  show ?thesis
  proof (cases e)
    case DSessionEnds
    then show ?thesis using page wizard
      by (auto simp: databases_control_def reported_gone_def page_ok_def intro!: inv_quiet [OF inv])
  next
    case (DTick v)
    then show ?thesis using same inv_loads [OF inv page, of True m] wizard
      by (cases "dp_isCurrent ?s")
        (auto simp: databases_control_def refresh_if_visible_def reported_gone_def reached_from_list_def
          load_databases_def)
  next
    case DRetry
    then show ?thesis using same inv_loads [OF inv page, of False m] wizard
      by (cases "dp_isCurrent ?s") (auto simp: databases_control_def reported_gone_def load_databases_def)
  next
    case (DSearch q)
    then show ?thesis using page wizard same
      by (auto simp: databases_control_def reported_gone_def page_ok_def intro!: inv_quiet [OF inv])
  next
    case DAddDatabase
    then show ?thesis using page wizard same
      by (auto simp: databases_control_def reported_gone_def page_ok_def open_add_database_def reached_from_list_def
          intro!: inv_quiet [OF inv])
  next
    case (DSelect i)
    then show ?thesis using page wizard same
      by (auto simp: databases_control_def reported_gone_def page_ok_def intro!: inv_quiet [OF inv])
  next
    case DBackToList
    then show ?thesis using page wizard same
      by (auto simp: databases_control_def reported_gone_def page_ok_def intro!: inv_quiet [OF inv])
  next
    case (DConnectionError b)
    then show ?thesis using page wizard same
      by (auto simp: databases_control_def reported_gone_def page_ok_def intro!: inv_quiet [OF inv])
  next
    case (DCreated d)
    then show ?thesis using page wizard same ok
      by (auto simp: databases_control_def reported_gone_def page_ok_def possible_def
          remember_database_created_in_wizard_def intro!: inv_quiet [OF inv])
  next
    case DCloseWizard
    then show ?thesis using page wizard same
      by (auto simp: databases_control_def reported_gone_def page_ok_def close_wizard_and_accept_created_database_def
          accept_added_database_def add_database_to_list_def page_ids Let_def split: option.split
          intro!: inv_quiet [OF inv] inv_loads [OF inv])
  next
    case (DChanged d)
    then show ?thesis using page wizard same
      by (auto simp: databases_control_def reported_gone_def page_ok_def accept_database_def page_ids
          intro!: inv_loads [OF inv])
  next
    case (DCopied d source)
    then show ?thesis using page wizard same ok
      by (auto simp: databases_control_def reported_gone_def page_ok_def accept_copied_database_def possible_def
          add_database_to_list_def page_ids Let_def intro!: inv_loads [OF inv])
  next
    case (DDeleted ids i)
    then show ?thesis using page wizard same ok
      by (auto simp: databases_control_def reported_gone_def page_ok_def remove_database_def possible_def
          page_ids Let_def split: option.splits intro!: inv_loads [OF inv])
  qed
qed

text \<open>An answer keeps what the page and the load owe each other.\<close>

definition answered_ok ::
    "nat \<Rightarrow> string list \<Rightarrow> string list \<Rightarrow> 'st databases_page \<Rightarrow> 'st databases_load \<times> 'st databases_page \<Rightarrow> bool" where
  "answered_ok n g gone s r \<longleftrightarrow> load_ok n (fst r, g) \<and> page_ok (snd r) gone \<and> shows_something (snd r)
     \<and> dp_isShowAddDatabase (snd r) = dp_isShowAddDatabase s \<and> (reached_from_list s \<longrightarrow> reached_from_list (snd r))
     \<and> dp_loadRevision (snd r) = dp_loadRevision s
     \<and> (n = rr_revision (dp_loadRevision s) \<longrightarrow> page_waits (snd r) (fst r))"

lemma sorted_ids: "set (database_ids (sort_unavailable_databases_first ds)) = set (database_ids ds)"
  by (simp add: database_ids_def sort_unavailable_databases_first_def)

lemma settle_not_counted:
  assumes "\<not> load_counts l s"
  shows "settle_databases_load storageId r l s = s" "handle_workspace_read_error e (l, s) = (l, s)"
  using assms by (simp_all add: settle_databases_load_def handle_workspace_read_error_def)

lemma not_counted_waits:
  assumes "load_ok n (l, g)" "\<not> load_counts l s" "n = rr_revision (dp_loadRevision s)"
  shows "\<not> dp_isCurrent s"
  using assms by (simp add: load_counts_def load_ok_def is_current_revision_def)

lemma counted_waits:
  assumes "load_ok n (l, g)" "load_counts l s"
  shows "n = rr_revision (dp_loadRevision s)"
  using assms by (simp add: load_counts_def load_ok_def is_current_revision_def)

lemma unchanged_page_ok:
  assumes "load_ok n (l, g)" "page_ok s gone" "shows_something s" "\<not> load_counts l s"
    and "n = rr_revision (dp_loadRevision s) \<Longrightarrow> page_waits s l"
  shows "answered_ok n g gone s (l\<lparr>dl_isSettled := b\<rparr>, s)"
  using assms not_counted_waits [OF assms(1,4)] by (simp add: answered_ok_def load_ok_def page_waits_def split: option.splits)

lemma settle_counted:
  assumes "load_counts l s"
  shows "dl_isWorkspaceUnavailable l \<Longrightarrow> settle_databases_load storageId r l s = s\<lparr>dp_isLoading := False\<rparr>"
    and "\<not> dl_isWorkspaceUnavailable l \<Longrightarrow> dl_isSilent l \<Longrightarrow>
      settle_databases_load storageId (Inl e) l s = s\<lparr>dp_isLoading := False\<rparr>"
    and "\<not> dl_isWorkspaceUnavailable l \<Longrightarrow> \<not> dl_isSilent l \<Longrightarrow>
      settle_databases_load storageId (Inl e) l s = s\<lparr>dp_loadError := Some e, dp_isLoading := False\<rparr>"
    and "\<not> dl_isWorkspaceUnavailable l \<Longrightarrow> settle_databases_load storageId (Inr (ds, cs, xs)) l s =
      s\<lparr>dp_items := sort_unavailable_databases_first ds,
        dp_storagesByDatabaseId := map_storages_by_database_id storageId cs xs, dp_isReady := True,
        dp_loadError := None, dp_isLoading := False\<rparr>"
  using assms by (simp_all add: settle_databases_load_def)

definition made_unavailable :: "'st databases_page \<Rightarrow> 'st databases_page" where
  "made_unavailable s = (create_empty_collection s)\<lparr>dp_loadError := None, dp_unavailable := Suc (dp_unavailable s)\<rparr>"

lemma made_unavailable_ok:
  "page_ok s gone \<Longrightarrow> page_ok (made_unavailable s) gone" "shows_something (made_unavailable s)"
  "reached_from_list (made_unavailable s)" "0 < dp_unavailable (made_unavailable s)" "dp_isLoading (made_unavailable s) = dp_isLoading s"
  "dp_isCurrent (made_unavailable s) = dp_isCurrent s" "dp_loadRevision (made_unavailable s) = dp_loadRevision s"
  "dp_isShowAddDatabase (made_unavailable s) = dp_isShowAddDatabase s"
  by (simp_all add: made_unavailable_def create_empty_collection_def page_ok_def database_ids_def shows_something_def
      reached_from_list_def)

lemma loading_ends_ok:
  "page_ok (s\<lparr>dp_isLoading := False\<rparr>) gone = page_ok s gone"
  "reached_from_list (s\<lparr>dp_isLoading := False\<rparr>) = reached_from_list s"
  "reached_from_list s \<Longrightarrow> shows_something (s\<lparr>dp_isLoading := False\<rparr>)"
  by (auto simp: page_ok_def reached_from_list_def shows_something_def)

lemma failed_read_ok:
  assumes "load_ok n (l, g)" "page_ok s gone" "shows_something s"
    and "n = rr_revision (dp_loadRevision s) \<Longrightarrow> page_waits s l"
  shows "answered_ok n g gone s (settle_failed_read storageId e l s)"
proof (cases "load_counts l s")
  case False
  from unchanged_page_ok [OF assms(1-3) False assms(4)] show ?thesis
    by (simp add: settle_failed_read_def settle_not_counted [OF False] Let_def)
      (metis databases_load.surjective databases_load.update_convs(4))
next
  case True
  note waits = assms(4) [OF counted_waits [OF assms(1) True]]
  show ?thesis
  proof (cases "\<not> dl_isWorkspaceUnavailable l \<and> has_status {403, 404} e")
    case gone: True
    let ?l = "l\<lparr>dl_isWorkspaceUnavailable := True\<rparr>"
    have handled: "handle_workspace_read_error e (l, s) = (?l, made_unavailable s)"
      using True gone by (simp add: handle_workspace_read_error_def made_unavailable_def)
    have counts: "load_counts ?l (made_unavailable s)"
      using True by (simp add: load_counts_def made_unavailable_ok)
    show ?thesis
      using made_unavailable_ok [of s] assms(1,2) waits settle_counted(1) [OF counts, of storageId "Inl e"]
      by (cases "dl_isSettled l")
        (simp_all add: settle_failed_read_def handled Let_def answered_ok_def load_ok_def page_waits_def
          loading_ends_ok split: option.splits)
  next
    case False
    have handled: "handle_workspace_read_error e (l, s) = (l, s)"
      using False by (auto simp: handle_workspace_read_error_def)
    show ?thesis
    proof (cases "dl_isSettled l")
      case settled: True
      with assms waits show ?thesis by (simp add: settle_failed_read_def handled answered_ok_def)
    next
      case open_load: False
      have "page_ok (settle_databases_load storageId (Inl e) l s) gone
          \<and> shows_something (settle_databases_load storageId (Inl e) l s)
          \<and> \<not> dp_isLoading (settle_databases_load storageId (Inl e) l s)
          \<and> reached_from_list (settle_databases_load storageId (Inl e) l s) = reached_from_list s
          \<and> dp_unavailable (settle_databases_load storageId (Inl e) l s) = dp_unavailable s
          \<and> dp_loadRevision (settle_databases_load storageId (Inl e) l s) = dp_loadRevision s
          \<and> dp_isShowAddDatabase (settle_databases_load storageId (Inl e) l s) = dp_isShowAddDatabase s"
        using settle_counted(1-3) [OF True, of storageId] assms(2)
        by (cases "dl_isWorkspaceUnavailable l"; cases "dl_isSilent l")
          (use waits in \<open>auto simp: loading_ends_ok page_waits_def page_ok_def reached_from_list_def shows_something_def\<close>)
      with assms(1) waits open_load show ?thesis
        by (simp add: settle_failed_read_def handled answered_ok_def load_ok_def page_waits_def split: option.splits)
    qed
  qed
qed

lemma read_lists_ok:
  assumes "load_ok n (l, g)" "page_ok s gone" "shows_something s"
    and "n = rr_revision (dp_loadRevision s) \<Longrightarrow> page_waits s l \<and> set gone \<subseteq> set g"
  shows "answered_ok n g gone s (settle_read_lists storageId l s)"
proof (cases "dl_isSettled l \<or> dl_databases l = None \<or> dl_backupConfigs l = None \<or> dl_storages l = None")
  case True
  then have "settle_read_lists storageId l s = (l, s)" by (auto simp: settle_read_lists_def split: option.split)
  with assms show ?thesis by (simp add: answered_ok_def)
next
  case False
  then obtain ds cs xs where lists: "dl_databases l = Some ds" "dl_backupConfigs l = Some cs" "dl_storages l = Some xs"
    and "\<not> dl_isSettled l" by auto
  then have read: "settle_read_lists storageId l s =
      (l\<lparr>dl_isSettled := True\<rparr>, settle_databases_load storageId (Inr (ds, cs, xs)) l s)"
    by (simp add: settle_read_lists_def)
  show ?thesis
  proof (cases "load_counts l s")
    case False
    from unchanged_page_ok [OF assms(1-3) False] assms(4) show ?thesis
      by (simp add: read settle_not_counted [OF False])
  next
    case True
    from assms(4) [OF counted_waits [OF assms(1) True]]
    have waits: "page_waits s l" and gone: "set gone \<subseteq> set g" by simp_all
    have "set (database_ids ds) \<inter> set g = {}" using assms(1) lists(1) by (simp add: load_ok_def)
    with gone have fresh: "set (database_ids ds) \<inter> set gone = {}" by blast
    show ?thesis
    proof (cases "dl_isWorkspaceUnavailable l")
      case unavailable: True
      from settle_counted(1) [OF True unavailable, of storageId "Inr (ds, cs, xs)"] waits unavailable assms(1,2)
      show ?thesis
        by (simp add: read answered_ok_def load_ok_def page_ok_def shows_something_def reached_from_list_def
            page_waits_def split: option.splits)
    next
      case available: False
      from settle_counted(4) [OF True available, of storageId ds cs xs] fresh waits assms(1,2) show ?thesis
        by (simp add: read answered_ok_def load_ok_def page_ok_def sorted_ids shows_something_def reached_from_list_def
            page_waits_def split: option.splits)
    qed
  qed
qed

lemma read_ok:
  assumes "load_ok n (l, g)" "page_ok s gone" "shows_something s"
    and "n = rr_revision (dp_loadRevision s) \<Longrightarrow> page_waits s l \<and> set gone \<subseteq> set g"
    and "\<And>ds. a = DatabasesRead (Inr ds) \<Longrightarrow> set (database_ids ds) \<inter> set g = {}"
  shows "answered_ok n g gone s (settle_workspace_read storageId a l s)"
proof -
  have waits: "n = rr_revision (dp_loadRevision s) \<Longrightarrow> page_waits s l" using assms(4) by blast
  note failed = failed_read_ok [OF assms(1-3) waits]
  have lists: "answered_ok n g gone s (settle_read_lists storageId (l\<lparr>dl_databases := Some ds\<rparr>) s)"
    if "set (database_ids ds) \<inter> set g = {}" for ds
    by (rule read_lists_ok) (use assms(1-4) that in \<open>simp_all add: load_ok_def page_waits_def\<close>)
  have others: "answered_ok n g gone s (settle_read_lists storageId (l\<lparr>dl_backupConfigs := Some cs\<rparr>) s)"
    "answered_ok n g gone s (settle_read_lists storageId (l\<lparr>dl_storages := Some xs\<rparr>) s)" for cs xs
    by (rule read_lists_ok; use assms(1-4) in \<open>simp add: load_ok_def page_waits_def split: option.splits\<close>)+
  show ?thesis
    using failed lists others assms(5)
    by (cases a) (auto simp: settle_workspace_read_def split: sum.split)
qed

lemma superseded_read_changes_nothing:
  assumes "dl_revision l \<noteq> rr_revision (dp_loadRevision s)"
  shows "snd (settle_workspace_read storageId a l s) = s"
  using assms
  by (cases a) (auto simp: settle_workspace_read_def settle_failed_read_def settle_read_lists_def settle_databases_load_def
      handle_workspace_read_error_def load_counts_def is_current_revision_def Let_def split: sum.split option.split)

interpretation databases: invariant_machine "databases_run_step storageId isMobile can" databases_inv
  for storageId :: "'st \<Rightarrow> string" and isMobile can
proof unfold_locales
  fix x :: "'st databases_run" and e
  assume inv: "databases_inv x"
  show "databases_inv (databases_run_step storageId isMobile can x e)"
  proof (cases "possible x e")
    case False
    with inv show ?thesis by (simp add: databases_run_step_def)
  next
    case True
    show ?thesis
    proof (cases e)
      case (BControl c)
      with control_keeps_inv [OF inv, of c isMobile can] True show ?thesis by (simp add: databases_run_step_def)
    next
      case (BRead n a)
      show ?thesis
      proof (cases "br_loads x n")
        case None
        with BRead inv True show ?thesis by (simp add: databases_run_step_def)
      next
        case (Some p)
        obtain l g where p: "p = (l, g)" by (cases p)
        have "answered_ok n g (br_gone x) (br_page x) (settle_workspace_read storageId a l (br_page x))"
          by (rule read_ok) (use inv Some p True BRead in
              \<open>auto simp: databases_inv_def possible_def\<close>)
        moreover have "snd (settle_workspace_read storageId a l (br_page x)) = br_page x"
          if "n \<noteq> rr_revision (dp_loadRevision (br_page x))"
          by (rule superseded_read_changes_nothing) (use inv Some p that in \<open>auto simp: databases_inv_def load_ok_def\<close>)
        ultimately show ?thesis
          using inv Some p True BRead
          by (cases "n = rr_revision (dp_loadRevision (br_page x))")
            (auto simp: databases_run_step_def databases_inv_def answered_ok_def Let_def)
      qed
    qed
  qed
qed

lemma opened_databases_inv: "databases_inv (opened_databases_run m st w)"
  by (auto simp: databases_inv_def opened_databases_run_def databases_sent_def load_databases_def Let_def
      opened_databases_page_def new_revision_def invalidate_def page_ok_def shows_something_def database_ids_def
      reached_from_list_def page_waits_def load_ok_def split: if_splits)


text \<open>C39: In every run of the page it shows a list, a failure or that it loads, until the session ended or its
  workspace was reported as unavailable; a silent refresh never leaves it blank.\<close>

theorem databases_page_never_blank:
  "shows_something (br_page (foldl (databases_run_step storageId m can) (opened_databases_run m st w) es))"
  using databases.run_inv [OF opened_databases_inv, of storageId m can m st w es] by (simp add: databases_inv_def)

text \<open>The spinner ends: while the page loads, the load it waits for is the newest one and still on its way.\<close>

lemma loading_waits_for_the_newest:
  assumes "x = foldl (databases_run_step storageId m can) (opened_databases_run m st w) es"
    and "dp_isCurrent (br_page x)" "dp_isLoading (br_page x)"
  obtains l gone where "br_loads x (rr_revision (dp_loadRevision (br_page x))) = Some (l, gone)" "\<not> dl_isSettled l"
  using databases.run_inv [OF opened_databases_inv, of storageId m can m st w es] assms
  by (auto simp: databases_inv_def page_waits_def)

lemma selected_database_is_listed:
  assumes "dp_selectedDatabaseId (render_databases m s) = Some i"
  shows "i \<in> set (database_ids (dp_items (render_databases m s)))"
  using assms shown_selection_SomeD by (fastforce simp: render_databases_def render_selection_def Let_def split: if_splits)

text \<open>With fewer than five databases the search field is gone but what was typed still filters the list.\<close>

lemma hidden_search_still_filters:
  assumes "length (dp_items s) < 5"
  shows "databases_control can (DSearch query) s = (s, None)"
    and "dp_searchQuery s = ''b'' \<Longrightarrow> dp_items s = [d] \<Longrightarrow> ld_name d = ''a'' \<Longrightarrow> filtered_databases s = []"
  using assms by (simp add: databases_control_def) (simp add: filtered_databases_def; code_simp)

end
