(* ===== verification/Account_Screens.thy ===== *)
theory Account_Screens
  imports Workspace_Settings Auth_Forms "HOL-Library.AList"
begin

text \<open>
  The screens of accounts: a user's own profile (\<open>pages/profile/ui/ProfilePage.tsx\<close>), the instance's users
  (\<open>pages/users/ui/UsersPage.tsx\<close>), its settings and its mail server (\<open>pages/instance-settings/ui\<close>). Handlers are
  cut at their awaits. The paged list of users is the hook \<open>usePagedList\<close>; what the page gives it is logged.
\<close>

section \<open>The profile (ProfilePage.tsx)\<close>

record profile_user =
  pu_id :: string
  pu_name :: string
  pu_email :: string

record profile_page =
  pp_failure :: "thrown option"
  pp_isLoading :: bool
  pp_user :: "profile_user option"
  pp_isChangingPassword :: bool
  pp_editName :: string
  pp_editEmail :: string
  pp_isUpdatingProfile :: bool
  pp_isEditNameError :: bool
  pp_isEditEmailError :: bool
  pp_newPassword :: string
  pp_confirmPassword :: string
  pp_isNewPasswordError :: bool
  pp_isConfirmPasswordError :: bool
  pp_loadRevision :: request_revision
  pp_isCurrent :: bool
  pp_changed :: "profile_user list"
  pp_invalidatedSessions :: nat

definition opened_profile :: profile_page where
  "opened_profile = \<lparr>pp_failure = None, pp_isLoading = True, pp_user = None, pp_isChangingPassword = False,
     pp_editName = [], pp_editEmail = [], pp_isUpdatingProfile = False, pp_isEditNameError = False,
     pp_isEditEmailError = False, pp_newPassword = [], pp_confirmPassword = [], pp_isNewPasswordError = False,
     pp_isConfirmPasswordError = False, pp_loadRevision = new_revision, pp_isCurrent = True, pp_changed = [],
     pp_invalidatedSessions = 0\<rparr>"

datatype profile_request = LoadProfile nat | ChangePassword string | UpdateUserInfo string string

definition min_password_length :: nat where "min_password_length = 8"

definition load_user_profile :: "profile_page \<Rightarrow> profile_page \<times> profile_request option" where
  "load_user_profile s = (let (revision, r) = invalidate (pp_loadRevision s)
     in (s\<lparr>pp_loadRevision := r, pp_isLoading := True, pp_failure := None\<rparr>, Some (LoadProfile revision)))"

definition settle_profile_load :: "nat \<Rightarrow> thrown + profile_user \<Rightarrow> profile_page \<Rightarrow> profile_page" where
  "settle_profile_load revision answer s =
     (if \<not> pp_isCurrent s \<or> \<not> is_current_revision (pp_loadRevision s) revision then s
      else (case answer of
          Inr u \<Rightarrow> s\<lparr>pp_user := Some u, pp_editName := pu_name u, pp_editEmail := pu_email u\<rparr>
        | Inl e \<Rightarrow> s\<lparr>pp_failure := Some e\<rparr>)\<lparr>pp_isLoading := False\<rparr>)"

text \<open>Whether the passwords may be sent; both fields are marked.\<close>

definition validate_password_fields :: "profile_page \<Rightarrow> bool \<times> profile_page" where
  "validate_password_fields s = (let newError = pp_newPassword s = [] \<or> utf16_length (pp_newPassword s) < min_password_length;
       confirmError = pp_confirmPassword s = [] \<or> pp_newPassword s \<noteq> pp_confirmPassword s
     in (\<not> newError \<and> \<not> confirmError,
         s\<lparr>pp_isNewPasswordError := newError, pp_isConfirmPasswordError := confirmError\<rparr>))"

definition handle_password_change :: "profile_page \<Rightarrow> profile_page \<times> profile_request option" where
  "handle_password_change s =
     (if pp_isChangingPassword s then (s, None)
      else let (isValid, s1) = validate_password_fields s
        in if \<not> isValid then (s1, None)
           else (s1\<lparr>pp_isChangingPassword := True\<rparr>, Some (ChangePassword (pp_newPassword s))))"

text \<open>The session the change belongs to is invalidated, so the screen is current no more.\<close>

definition settle_password_change :: "thrown + unit \<Rightarrow> profile_page \<Rightarrow> profile_page" where
  "settle_password_change answer s =
     (if \<not> pp_isCurrent s then s
      else case answer of
        Inr _ \<Rightarrow> s\<lparr>pp_newPassword := [], pp_confirmPassword := [],
          pp_invalidatedSessions := Suc (pp_invalidatedSessions s), pp_isCurrent := False\<rparr>
      | Inl e \<Rightarrow> s\<lparr>pp_failure := Some e, pp_isChangingPassword := False\<rparr>)"

definition handle_profile_update :: "profile_page \<Rightarrow> profile_page \<times> profile_request option" where
  "handle_profile_update s =
     (if pp_isUpdatingProfile s then (s, None)
      else let s1 = s\<lparr>pp_failure := None\<rparr>
        in if trim (pp_editName s) = [] then (s1\<lparr>pp_isEditNameError := True\<rparr>, None)
           else let s2 = s1\<lparr>pp_isEditNameError := False\<rparr>
             in if trim (pp_editEmail s) = [] then (s2\<lparr>pp_isEditEmailError := True\<rparr>, None)
                else let s3 = s2\<lparr>pp_isEditEmailError := False\<rparr>
                  in if map_option pu_name (pp_user s) = Some (pp_editName s)
                       \<and> map_option pu_email (pp_user s) = Some (pp_editEmail s)
                     then (if pp_isCurrent s then s3 else s3\<lparr>pp_isUpdatingProfile := True\<rparr>, None)
                     else (s3\<lparr>pp_isUpdatingProfile := True\<rparr>, Some (UpdateUserInfo (pp_editName s) (pp_editEmail s))))"

definition settle_profile_update ::
    "string \<Rightarrow> string \<Rightarrow> thrown + profile_user \<Rightarrow> profile_page \<Rightarrow> profile_page" where
  "settle_profile_update name email answer s =
     (if \<not> pp_isCurrent s then s
      else (case answer of
          Inr u \<Rightarrow> s\<lparr>pp_user := Some u, pp_editName := (if pp_editName s = name then pu_name u else pp_editName s),
            pp_editEmail := (if pp_editEmail s = email then pu_email u else pp_editEmail s),
            pp_changed := pp_changed s @ [u]\<rparr>
        | Inl e \<Rightarrow> s\<lparr>pp_failure := Some e\<rparr>)\<lparr>pp_isUpdatingProfile := False\<rparr>)"

datatype profile_event =
    PSessionEnds | PRetry | PEditName string | PEditEmail string | PNewPassword string | PConfirmPassword string
  | PClickUpdate | PClickChangePassword | PLogout

definition profile_control :: "profile_event \<Rightarrow> profile_page \<Rightarrow> profile_page \<times> profile_request option" where
  "profile_control e s = (let shown = pp_user s \<noteq> None in case e of
       PSessionEnds \<Rightarrow> (s\<lparr>pp_isCurrent := False\<rparr>, None)
     | PRetry \<Rightarrow> if \<not> shown \<and> pp_failure s \<noteq> None then load_user_profile s else (s, None)
     | PEditName t \<Rightarrow> (if shown then s\<lparr>pp_isEditNameError := False, pp_editName := t\<rparr> else s, None)
     | PEditEmail t \<Rightarrow> (if shown then s\<lparr>pp_isEditEmailError := False, pp_editEmail := to_lower (trim t)\<rparr> else s, None)
     | PNewPassword t \<Rightarrow> (if shown then s\<lparr>pp_isNewPasswordError := False, pp_newPassword := t\<rparr> else s, None)
     | PConfirmPassword t \<Rightarrow>
         (if shown then s\<lparr>pp_isConfirmPasswordError := False, pp_confirmPassword := t\<rparr> else s, None)
     | PClickUpdate \<Rightarrow> if shown then handle_profile_update s else (s, None)
     | PClickChangePassword \<Rightarrow> if shown then handle_password_change s else (s, None)
     | PLogout \<Rightarrow> (if shown then s\<lparr>pp_invalidatedSessions := Suc (pp_invalidatedSessions s), pp_isCurrent := False\<rparr>
         else s, None))"

section \<open>The users of the instance (UsersPage.tsx)\<close>

record managed_user =
  mu_id :: string
  mu_role :: user_role
  mu_isActive :: bool

record users_page =
  us_searchQuery :: string
  us_inputValue :: string
  us_processingUsers :: "string set"
  us_changingRoleUsers :: "string set"
  us_selectedUser :: "managed_user option"
  us_isDrawerOpen :: bool
  us_failure :: "thrown option"
  us_listFailure :: "thrown option"
  us_actionUsers :: "string set"
  us_queryRevision :: request_revision
  us_acknowledgedUsers :: "string \<rightharpoonup> managed_user"
  us_isCurrent :: bool
  us_replaced :: "managed_user list"
  us_reloads :: nat

text \<open>The layout effect of the query.\<close>

definition forget_query :: "users_page \<Rightarrow> users_page" where
  "forget_query s = s\<lparr>us_queryRevision := snd (invalidate (us_queryRevision s)), us_acknowledgedUsers := Map.empty\<rparr>"

definition opened_users :: users_page where
  "opened_users = forget_query \<lparr>us_searchQuery = [], us_inputValue = [], us_processingUsers = {},
     us_changingRoleUsers = {}, us_selectedUser = None, us_isDrawerOpen = False, us_failure = None,
     us_listFailure = None, us_actionUsers = {}, us_queryRevision = new_revision,
     us_acknowledgedUsers = Map.empty, us_isCurrent = True, us_replaced = [], us_reloads = 0\<rparr>"

datatype users_request = ToggleUser nat string bool | ChangeUserRole nat string user_role

definition retry_users :: "bool \<Rightarrow> users_page \<Rightarrow> users_page" where
  "retry_users isLoading s =
     (if isLoading then s else (forget_query s)\<lparr>us_failure := None, us_reloads := Suc (us_reloads s)\<rparr>)"

definition handle_activation_toggle :: "managed_user \<Rightarrow> users_page \<Rightarrow> users_page \<times> users_request option" where
  "handle_activation_toggle u s =
     (if mu_id u \<in> us_actionUsers s then (s, None)
      else (s\<lparr>us_actionUsers := insert (mu_id u) (us_actionUsers s),
              us_processingUsers := insert (mu_id u) (us_processingUsers s), us_failure := None\<rparr>,
            Some (ToggleUser (get_current (us_queryRevision s)) (mu_id u) (\<not> mu_isActive u))))"

definition handle_user_role_change :: "string \<Rightarrow> user_role \<Rightarrow> users_page \<Rightarrow> users_page \<times> users_request option" where
  "handle_user_role_change userId newRole s =
     (if userId \<in> us_actionUsers s then (s, None)
      else (s\<lparr>us_actionUsers := insert userId (us_actionUsers s),
              us_changingRoleUsers := insert userId (us_changingRoleUsers s), us_failure := None\<rparr>,
            Some (ChangeUserRole (get_current (us_queryRevision s)) userId newRole)))"

definition accept_changed_user :: "nat \<Rightarrow> thrown + managed_user \<Rightarrow> users_page \<Rightarrow> users_page" where
  "accept_changed_user revision answer s =
     (if \<not> us_isCurrent s \<or> \<not> is_current_revision (us_queryRevision s) revision then s
      else case answer of
        Inr u \<Rightarrow> s\<lparr>us_acknowledgedUsers := (us_acknowledgedUsers s)(mu_id u \<mapsto> u), us_replaced := us_replaced s @ [u]\<rparr>
      | Inl e \<Rightarrow> s\<lparr>us_failure := Some e\<rparr>)"

definition settle_activation_toggle :: "nat \<Rightarrow> string \<Rightarrow> thrown + managed_user \<Rightarrow> users_page \<Rightarrow> users_page" where
  "settle_activation_toggle revision userId answer s = (let s1 = accept_changed_user revision answer s
     in s1\<lparr>us_actionUsers := us_actionUsers s1 - {userId},
           us_processingUsers := (if us_isCurrent s1 then us_processingUsers s1 - {userId} else us_processingUsers s1)\<rparr>)"

definition settle_user_role_change :: "nat \<Rightarrow> string \<Rightarrow> thrown + managed_user \<Rightarrow> users_page \<Rightarrow> users_page" where
  "settle_user_role_change revision userId answer s = (let s1 = accept_changed_user revision answer s
     in s1\<lparr>us_actionUsers := us_actionUsers s1 - {userId}, us_changingRoleUsers :=
           (if us_isCurrent s1 then us_changingRoleUsers s1 - {userId} else us_changingRoleUsers s1)\<rparr>)"

text \<open>A page that arrives shows the acknowledged users; one user once.\<close>

definition fetched_page :: "users_page \<Rightarrow> managed_user list \<Rightarrow> managed_user list" where
  "fetched_page s items = map snd (foldl (\<lambda>m u.
     AList.update (mu_id u) (nullish (us_acknowledgedUsers s (mu_id u)) u) m) [] items)"

definition list_failed :: "thrown \<Rightarrow> users_page \<Rightarrow> users_page" where
  "list_failed e s = (if us_isCurrent s then s\<lparr>us_listFailure := Some e\<rparr> else s)"

definition start_fetch :: "users_page \<Rightarrow> users_page" where
  "start_fetch s = (if us_isCurrent s then s\<lparr>us_listFailure := None\<rparr> else s)"

text \<open>Half a second after the last edit of the search field.\<close>

definition apply_search :: "users_page \<Rightarrow> users_page" where
  "apply_search s = (if us_inputValue s = us_searchQuery s then s
     else (forget_query s)\<lparr>us_searchQuery := us_inputValue s, us_failure := None\<rparr>)"

definition handle_row_click :: "managed_user \<Rightarrow> users_page \<Rightarrow> users_page" where
  "handle_row_click u s = s\<lparr>us_selectedUser := Some u, us_isDrawerOpen := True\<rparr>"

definition handle_drawer_close :: "users_page \<Rightarrow> users_page" where
  "handle_drawer_close s = s\<lparr>us_isDrawerOpen := False, us_selectedUser := None\<rparr>"

datatype users_event =
    USessionEnds | USearch string | UTimer | URetry bool | UFetch | UListFailed thrown
  | UToggle managed_user | UChangeRole string user_role | URowClick managed_user | UDrawerClose

definition users_control :: "users_event \<Rightarrow> users_page \<Rightarrow> users_page \<times> users_request option" where
  "users_control e s = (case e of
       USessionEnds \<Rightarrow> (s\<lparr>us_isCurrent := False\<rparr>, None)
     | USearch t \<Rightarrow> (s\<lparr>us_inputValue := t\<rparr>, None)
     | UTimer \<Rightarrow> (apply_search s, None)
     | URetry isLoading \<Rightarrow> (if us_listFailure s \<noteq> None then retry_users isLoading s else s, None)
     | UFetch \<Rightarrow> (start_fetch s, None)
     | UListFailed e \<Rightarrow> (list_failed e s, None)
     | UToggle u \<Rightarrow> if mu_id u \<in> us_processingUsers s \<union> us_changingRoleUsers s then (s, None)
         else handle_activation_toggle u s
     | UChangeRole i r \<Rightarrow> if i \<in> us_processingUsers s \<union> us_changingRoleUsers s then (s, None)
         else handle_user_role_change i r s
     | URowClick u \<Rightarrow> (handle_row_click u s, None)
     | UDrawerClose \<Rightarrow> (handle_drawer_close s, None))"

section \<open>The settings of the instance (InstanceSettingsPage.tsx, MailServer.tsx)\<close>

record instance_settings_update =
  iu_isAllowExternalRegistrations :: bool
  iu_isAllowMemberInvitations :: bool
  iu_isMemberAllowedToCreateWorkspaces :: bool
  iu_isTwoFactorAuthRequired :: bool

record saved_instance_settings = instance_settings_update +
  is_isEmailConfigured :: bool

datatype setting_key = ExternalRegistrations | MemberInvitations | MemberWorkspaces | TwoFactorAuth

primrec setting :: "setting_key \<Rightarrow> 'a instance_settings_update_scheme \<Rightarrow> bool" where
  "setting ExternalRegistrations u = iu_isAllowExternalRegistrations u"
| "setting MemberInvitations u = iu_isAllowMemberInvitations u"
| "setting MemberWorkspaces u = iu_isMemberAllowedToCreateWorkspaces u"
| "setting TwoFactorAuth u = iu_isTwoFactorAuthRequired u"

primrec set_setting :: "setting_key \<Rightarrow> bool \<Rightarrow> instance_settings_update \<Rightarrow> instance_settings_update" where
  "set_setting ExternalRegistrations b u = u\<lparr>iu_isAllowExternalRegistrations := b\<rparr>"
| "set_setting MemberInvitations b u = u\<lparr>iu_isAllowMemberInvitations := b\<rparr>"
| "set_setting MemberWorkspaces b u = u\<lparr>iu_isMemberAllowedToCreateWorkspaces := b\<rparr>"
| "set_setting TwoFactorAuth b u = u\<lparr>iu_isTwoFactorAuthRequired := b\<rparr>"

definition setting_keys :: "setting_key list" where
  "setting_keys = [ExternalRegistrations, MemberInvitations, MemberWorkspaces, TwoFactorAuth]"

definition to_form_settings :: "saved_instance_settings \<Rightarrow> instance_settings_update" where
  "to_form_settings x = \<lparr>iu_isAllowExternalRegistrations = iu_isAllowExternalRegistrations x,
     iu_isAllowMemberInvitations = iu_isAllowMemberInvitations x,
     iu_isMemberAllowedToCreateWorkspaces = iu_isMemberAllowedToCreateWorkspaces x,
     iu_isTwoFactorAuthRequired = iu_isTwoFactorAuthRequired x\<rparr>"

record instance_page =
  ip_settings :: "saved_instance_settings option"
  ip_isLoading :: bool
  ip_isSaving :: bool
  ip_failure :: "thrown option"
  ip_formSettings :: instance_settings_update
  ip_loadRevision :: request_revision
  ip_isCurrent :: bool
  ip_changed :: "saved_instance_settings list"

definition opened_instance_page :: instance_page where
  "opened_instance_page = \<lparr>ip_settings = None, ip_isLoading = True, ip_isSaving = False, ip_failure = None,
     ip_formSettings = \<lparr>iu_isAllowExternalRegistrations = False, iu_isAllowMemberInvitations = False,
       iu_isMemberAllowedToCreateWorkspaces = False, iu_isTwoFactorAuthRequired = False\<rparr>,
     ip_loadRevision = new_revision, ip_isCurrent = True, ip_changed = []\<rparr>"

datatype instance_request = LoadSettings nat | UpdateSettings instance_settings_update

definition load_settings :: "instance_page \<Rightarrow> instance_page \<times> instance_request option" where
  "load_settings s = (let (revision, r) = invalidate (ip_loadRevision s)
     in (s\<lparr>ip_loadRevision := r, ip_isLoading := True, ip_failure := None\<rparr>, Some (LoadSettings revision)))"

definition settle_settings_load :: "nat \<Rightarrow> thrown + saved_instance_settings \<Rightarrow> instance_page \<Rightarrow> instance_page" where
  "settle_settings_load revision answer s =
     (if \<not> ip_isCurrent s \<or> \<not> is_current_revision (ip_loadRevision s) revision then s
      else (case answer of
          Inr x \<Rightarrow> s\<lparr>ip_settings := Some x, ip_formSettings := to_form_settings x\<rparr>
        | Inl e \<Rightarrow> s\<lparr>ip_failure := Some e\<rparr>)\<lparr>ip_isLoading := False\<rparr>)"

definition handle_setting_change :: "setting_key \<Rightarrow> bool \<Rightarrow> instance_page \<Rightarrow> instance_page" where
  "handle_setting_change k b s = s\<lparr>ip_formSettings := set_setting k b (ip_formSettings s)\<rparr>"

definition has_changes :: "instance_page \<Rightarrow> bool" where
  "has_changes s \<longleftrightarrow> (case ip_settings s of None \<Rightarrow> False
     | Some x \<Rightarrow> list_ex (\<lambda>k. setting k (ip_formSettings s) \<noteq> setting k x) setting_keys)"

definition handle_settings_save :: "instance_page \<Rightarrow> instance_page \<times> instance_request option" where
  "handle_settings_save s = (if \<not> has_changes s \<or> ip_isSaving s then (s, None)
     else (s\<lparr>ip_failure := None, ip_isSaving := True\<rparr>, Some (UpdateSettings (ip_formSettings s))))"

definition retained_settings ::
    "instance_settings_update \<Rightarrow> saved_instance_settings \<Rightarrow> instance_settings_update \<Rightarrow> instance_settings_update" where
  "retained_settings submitted updated current =
     foldl (\<lambda>u k. if setting k current = setting k submitted then set_setting k (setting k updated) u else u)
       current setting_keys"

definition settle_settings_save ::
    "instance_settings_update \<Rightarrow> thrown + saved_instance_settings \<Rightarrow> instance_page \<Rightarrow> instance_page" where
  "settle_settings_save submitted answer s =
     (if \<not> ip_isCurrent s then s
      else (case answer of
          Inr x \<Rightarrow> s\<lparr>ip_settings := Some x, ip_formSettings := retained_settings submitted x (ip_formSettings s),
            ip_changed := ip_changed s @ [x]\<rparr>
        | Inl e \<Rightarrow> s\<lparr>ip_failure := Some e\<rparr>)\<lparr>ip_isSaving := False\<rparr>)"

definition handle_reset :: "instance_page \<Rightarrow> instance_page" where
  "handle_reset s = (case ip_settings s of None \<Rightarrow> s | Some x \<Rightarrow> s\<lparr>ip_formSettings := to_form_settings x\<rparr>)"

definition is_two_factor_disabled :: "instance_page \<Rightarrow> bool" where
  "is_two_factor_disabled s \<longleftrightarrow> (case ip_settings s of None \<Rightarrow> True
     | Some x \<Rightarrow> \<not> is_isEmailConfigured x \<and> \<not> iu_isTwoFactorAuthRequired x)"

datatype instance_event = ISessionEnds | IRetry | ISwitch setting_key bool | IClickSave | IClickReset

definition instance_control :: "instance_event \<Rightarrow> instance_page \<Rightarrow> instance_page \<times> instance_request option" where
  "instance_control e s = (let shown = \<not> ip_isLoading s \<and> ip_settings s \<noteq> None in case e of
       ISessionEnds \<Rightarrow> (s\<lparr>ip_isCurrent := False\<rparr>, None)
     | IRetry \<Rightarrow> if ip_settings s = None \<and> ip_failure s \<noteq> None then load_settings s else (s, None)
     | ISwitch k b \<Rightarrow>
         (if shown \<and> (k = MemberInvitations \<longrightarrow> \<not> iu_isAllowExternalRegistrations (ip_formSettings s))
             \<and> (k = TwoFactorAuth \<longrightarrow> \<not> is_two_factor_disabled s)
          then handle_setting_change k b s else s, None)
     | IClickSave \<Rightarrow> if shown then handle_settings_save s else (s, None)
     | IClickReset \<Rightarrow> (if shown \<and> has_changes s \<and> \<not> ip_isSaving s then handle_reset s else s, None))"

text \<open>The mail server's test; of an undelivered letter the recipient and the reason are shown.\<close>

record mail_server =
  ml_isSendingTestEmail :: bool
  ml_testEmailError :: "thrown option"
  ml_undeliveredTestEmail :: "(string \<times> string) option"
  ml_isCurrent :: bool

definition send_test_email :: "bool \<Rightarrow> mail_server \<Rightarrow> mail_server \<times> bool" where
  "send_test_email isEmailConfigured s = (if \<not> isEmailConfigured \<or> ml_isSendingTestEmail s then (s, False)
     else (s\<lparr>ml_isSendingTestEmail := True, ml_testEmailError := None, ml_undeliveredTestEmail := None\<rparr>, True))"

text \<open>The answer says whether the letter was delivered.\<close>

definition settle_test_email :: "thrown + bool \<times> string \<times> string \<Rightarrow> mail_server \<Rightarrow> mail_server" where
  "settle_test_email answer s =
     (if \<not> ml_isCurrent s then s
      else (case answer of
          Inr (isDelivered, letter) \<Rightarrow> if isDelivered then s else s\<lparr>ml_undeliveredTestEmail := Some letter\<rparr>
        | Inl e \<Rightarrow> s\<lparr>ml_testEmailError := Some e\<rparr>)\<lparr>ml_isSendingTestEmail := False\<rparr>)"

section \<open>Only confirmed passwords are sent\<close>

record profile_run =
  pr_page :: profile_page
  pr_pending :: "profile_request list"
  pr_sent :: "profile_request list"

datatype profile_answer =
    LoadedProfile "thrown + profile_user" | ChangedPassword "thrown + unit" | UpdatedUser "thrown + profile_user"

fun settle_profile_request :: "profile_request \<Rightarrow> profile_answer \<Rightarrow> profile_page \<Rightarrow> profile_page" where
  "settle_profile_request (LoadProfile n) (LoadedProfile a) s = settle_profile_load n a s"
| "settle_profile_request (ChangePassword p) (ChangedPassword a) s = settle_password_change a s"
| "settle_profile_request (UpdateUserInfo n e) (UpdatedUser a) s = settle_profile_update n e a s"
| "settle_profile_request _ _ s = s"

fun answers_profile :: "profile_request \<Rightarrow> profile_answer \<Rightarrow> bool" where
  "answers_profile (LoadProfile n) (LoadedProfile a) = True"
| "answers_profile (ChangePassword p) (ChangedPassword a) = True"
| "answers_profile (UpdateUserInfo n e) (UpdatedUser a) = True"
| "answers_profile _ _ = False"

datatype profile_run_event = PControl profile_event | PAnswer profile_request profile_answer

definition profile_sent ::
    "profile_page \<times> profile_request option \<Rightarrow> profile_run \<Rightarrow> profile_run" where
  "profile_sent r x = \<lparr>pr_page = fst r, pr_pending = pr_pending x @ (case snd r of None \<Rightarrow> [] | Some q \<Rightarrow> [q]),
     pr_sent = pr_sent x @ (case snd r of None \<Rightarrow> [] | Some q \<Rightarrow> [q])\<rparr>"

primrec profile_run_step :: "profile_run \<Rightarrow> profile_run_event \<Rightarrow> profile_run" where
  "profile_run_step x (PControl e) = profile_sent (profile_control e (pr_page x)) x"
| "profile_run_step x (PAnswer q a) = (if q \<notin> set (pr_pending x) \<or> \<not> answers_profile q a then x
     else x\<lparr>pr_page := settle_profile_request q a (pr_page x), pr_pending := remove1 q (pr_pending x)\<rparr>)"

definition opened_profile_run :: profile_run where
  "opened_profile_run = profile_sent (load_user_profile opened_profile)
     \<lparr>pr_page = opened_profile, pr_pending = [], pr_sent = []\<rparr>"

definition profile_kind :: "profile_request \<Rightarrow> nat" where
  "profile_kind q = (case q of LoadProfile n \<Rightarrow> 0 | ChangePassword p \<Rightarrow> 1 | UpdateUserInfo n e \<Rightarrow> 2)"

definition sends_good_profile :: "profile_request \<Rightarrow> bool" where
  "sends_good_profile q = (case q of LoadProfile n \<Rightarrow> True
     | ChangePassword p \<Rightarrow> min_password_length \<le> utf16_length p
     | UpdateUserInfo n e \<Rightarrow> trim n \<noteq> [] \<and> trim e \<noteq> [])"

definition profile_inv :: "profile_run \<Rightarrow> bool" where
  "profile_inv x \<longleftrightarrow> list_all sends_good_profile (pr_sent x)
     \<and> count_list (map profile_kind (pr_pending x)) 1 \<le> of_bool (pp_isChangingPassword (pr_page x))
     \<and> count_list (map profile_kind (pr_pending x)) 2 \<le> of_bool (pp_isUpdatingProfile (pr_page x))"

lemma sent_password_is_confirmed:
  assumes "snd (profile_control e s) = Some (ChangePassword p)"
  shows "p = pp_newPassword s \<and> p = pp_confirmPassword s \<and> min_password_length \<le> utf16_length p
    \<and> \<not> pp_isChangingPassword s"
  using assms
  by (cases e) (auto simp: profile_control_def handle_password_change_def handle_profile_update_def
      validate_password_fields_def load_user_profile_def Let_def split_beta split: if_splits)

lemma sent_profile_is_filled:
  assumes "snd (profile_control e s) = Some (UpdateUserInfo n m)"
  shows "n = pp_editName s \<and> m = pp_editEmail s \<and> trim n \<noteq> [] \<and> trim m \<noteq> []"
  using assms
  by (cases e) (auto simp: profile_control_def handle_password_change_def handle_profile_update_def
      validate_password_fields_def load_user_profile_def Let_def split_beta split: if_splits)

lemma profile_control_flags:
  "count_list (map profile_kind ps) 1 \<le> of_bool (pp_isChangingPassword s) \<Longrightarrow>
   count_list (map profile_kind ps) 2 \<le> of_bool (pp_isUpdatingProfile s) \<Longrightarrow>
   count_list (map profile_kind (ps @ (case snd (profile_control e s) of None \<Rightarrow> [] | Some q \<Rightarrow> [q]))) 1
     \<le> of_bool (pp_isChangingPassword (fst (profile_control e s)))
   \<and> count_list (map profile_kind (ps @ (case snd (profile_control e s) of None \<Rightarrow> [] | Some q \<Rightarrow> [q]))) 2
     \<le> of_bool (pp_isUpdatingProfile (fst (profile_control e s)))"
  by (cases e) (auto simp: profile_control_def handle_password_change_def handle_profile_update_def
      validate_password_fields_def load_user_profile_def profile_kind_def Let_def split_beta of_bool_def
      split: if_splits)

lemma count_remove_kind:
  assumes "q \<in> set ps"
  shows "count_list (map f ps) k = count_list (map f (remove1 q ps)) k + of_bool (f q = k)"
  using assms by (induction ps) auto

lemma profile_answer_flags:
  assumes q: "q \<in> set ps" and a: "answers_profile q a"
    and "count_list (map profile_kind ps) 1 \<le> of_bool (pp_isChangingPassword s)"
    and "count_list (map profile_kind ps) 2 \<le> of_bool (pp_isUpdatingProfile s)"
  shows "count_list (map profile_kind (remove1 q ps)) 1 \<le> of_bool (pp_isChangingPassword (settle_profile_request q a s))
    \<and> count_list (map profile_kind (remove1 q ps)) 2 \<le> of_bool (pp_isUpdatingProfile (settle_profile_request q a s))"
  using a assms(3,4) count_remove_kind [OF q, of profile_kind 1] count_remove_kind [OF q, of profile_kind 2]
  by (cases q; cases a)
    (auto simp: profile_kind_def settle_profile_load_def settle_password_change_def settle_profile_update_def
      of_bool_def split: sum.split if_splits)

interpretation profile: invariant_machine profile_run_step profile_inv
proof unfold_locales
  fix x e assume inv: "profile_inv x"
  show "profile_inv (profile_run_step x e)"
  proof (cases e)
    case (PControl c)
    have "sends_good_profile q" if "snd (profile_control c (pr_page x)) = Some q" for q
      using that sent_password_is_confirmed [of c "pr_page x"] sent_profile_is_filled [of c "pr_page x"]
      by (cases q) (auto simp: sends_good_profile_def)
    with inv profile_control_flags [of "pr_pending x" "pr_page x" c] PControl show ?thesis
      by (auto simp: profile_inv_def profile_sent_def split: option.split)
  next
    case (PAnswer q a)
    with inv profile_answer_flags [of q "pr_pending x" a "pr_page x"] show ?thesis
      by (auto simp: profile_inv_def)
  qed
qed

lemma opened_profile_inv: "profile_inv opened_profile_run"
  by (simp add: profile_inv_def opened_profile_run_def profile_sent_def load_user_profile_def Let_def split_beta
      sends_good_profile_def profile_kind_def opened_profile_def)

theorem profile_sends_checked_fields:
  "list_all sends_good_profile (pr_sent (foldl profile_run_step opened_profile_run es))"
  using profile.run_inv [OF opened_profile_inv, of es] by (simp add: profile_inv_def)

lemma one_password_change_at_a_time:
  "count_list (map profile_kind (pr_pending (foldl profile_run_step opened_profile_run es))) 1 \<le> 1"
  using profile.run_inv [OF opened_profile_inv, of es] by (auto simp: profile_inv_def of_bool_def split: if_splits)

text \<open>What is typed while a profile is saved is kept.\<close>

lemma newer_profile_stays:
  assumes "pp_isCurrent s" "pp_editName s \<noteq> name"
  shows "pp_editName (settle_profile_update name email (Inr u) s) = pp_editName s"
  using assms by (simp add: settle_profile_update_def)

section \<open>One action per user\<close>

record users_run =
  ur_page :: users_page
  ur_pending :: "users_request list"

datatype users_run_event = UControl users_event | UAnswer users_request "thrown + managed_user"

primrec users_request_id :: "users_request \<Rightarrow> string" where
  "users_request_id (ToggleUser n i b) = i"
| "users_request_id (ChangeUserRole n i r) = i"

primrec settle_users_request :: "users_request \<Rightarrow> thrown + managed_user \<Rightarrow> users_page \<Rightarrow> users_page" where
  "settle_users_request (ToggleUser n i b) a s = settle_activation_toggle n i a s"
| "settle_users_request (ChangeUserRole n i r) a s = settle_user_role_change n i a s"

primrec users_run_step :: "users_run \<Rightarrow> users_run_event \<Rightarrow> users_run" where
  "users_run_step x (UControl e) = (let r = users_control e (ur_page x)
     in \<lparr>ur_page = fst r, ur_pending = ur_pending x @ (case snd r of None \<Rightarrow> [] | Some q \<Rightarrow> [q])\<rparr>)"
| "users_run_step x (UAnswer q a) = (if q \<notin> set (ur_pending x) then x
     else \<lparr>ur_page = settle_users_request q a (ur_page x), ur_pending = remove1 q (ur_pending x)\<rparr>)"

definition opened_users_run :: users_run where
  "opened_users_run = \<lparr>ur_page = opened_users, ur_pending = []\<rparr>"

definition users_inv :: "users_run \<Rightarrow> bool" where
  "users_inv x \<longleftrightarrow> distinct (map users_request_id (ur_pending x))
     \<and> set (map users_request_id (ur_pending x)) = us_actionUsers (ur_page x)"

lemma forget_keeps [simp]: "us_actionUsers (forget_query s) = us_actionUsers s"
  by (simp add: forget_query_def)

lemma users_control_request:
  "case snd (users_control e s) of
     None \<Rightarrow> us_actionUsers (fst (users_control e s)) = us_actionUsers s
   | Some q \<Rightarrow> users_request_id q \<notin> us_actionUsers s
       \<and> us_actionUsers (fst (users_control e s)) = insert (users_request_id q) (us_actionUsers s)"
  by (cases e) (auto simp: users_control_def apply_search_def retry_users_def start_fetch_def list_failed_def
      handle_activation_toggle_def handle_user_role_change_def handle_row_click_def handle_drawer_close_def)

lemma accepted_keeps_actions [simp]: "us_actionUsers (accept_changed_user n a s) = us_actionUsers s"
  by (auto simp: accept_changed_user_def split: sum.split)

lemma users_answer_actions:
  "us_actionUsers (settle_users_request q a s) = us_actionUsers s - {users_request_id q}"
  by (cases q) (simp_all add: settle_activation_toggle_def settle_user_role_change_def Let_def)

lemma remove1_distinct_image:
  assumes "distinct (map f ps)" "q \<in> set ps"
  shows "distinct (map f (remove1 q ps)) \<and> set (map f (remove1 q ps)) = set (map f ps) - {f q}"
proof -
  have "map f (remove1 q ps) = remove1 (f q) (map f ps)"
    using assms by (induction ps) (auto simp: image_iff)
  with assms(1) show ?thesis by (simp add: distinct_remove1)
qed

interpretation users: invariant_machine users_run_step users_inv
proof unfold_locales
  fix x e assume inv: "users_inv x"
  show "users_inv (users_run_step x e)"
  proof (cases e)
    case (UControl c)
    with inv users_control_request [of c "ur_page x"] show ?thesis
      by (auto simp: users_inv_def Let_def split: option.splits)
  next
    case (UAnswer q a)
    with inv remove1_distinct_image [of users_request_id "ur_pending x" q] show ?thesis
      by (auto simp: users_inv_def users_answer_actions simp del: set_map)
  qed
qed

lemma opened_users_inv: "users_inv opened_users_run"
  by (simp add: users_inv_def opened_users_run_def opened_users_def)

text \<open>However often a user's switch and role are pressed and in whatever order the answers come, at most one
  action of each user is under way.\<close>

theorem one_action_per_user:
  "distinct (map users_request_id (ur_pending (foldl users_run_step opened_users_run es)))"
  using users.run_inv [OF opened_users_inv, of es] by (simp add: users_inv_def)

text \<open>An answer to an action of an earlier query changes nothing that is shown.\<close>

lemma answer_of_an_earlier_query:
  assumes "us_queryRevision s = \<lparr>rr_revision = m\<rparr>" "n \<noteq> m"
  shows "us_replaced (settle_users_request (ToggleUser n i b) a s) = us_replaced s
    \<and> us_failure (settle_users_request (ToggleUser n i b) a s) = us_failure s
    \<and> us_acknowledgedUsers (settle_users_request (ToggleUser n i b) a s) = us_acknowledgedUsers s"
  using assms by (simp add: settle_activation_toggle_def accept_changed_user_def is_current_revision_def Let_def)

text \<open>A page asked for before a change and answered after it shows the change, and each user once.\<close>

lemma update_all:
  assumes "\<And>u. u \<in> set (map snd m) \<Longrightarrow> P u" "\<And>u. u \<in> set items \<Longrightarrow> P (g u)"
  shows "u \<in> set (map snd (foldl (\<lambda>m u. AList.update (k u) (g u) m) m items)) \<Longrightarrow> P u"
  using assms
proof (induction items arbitrary: m)
  case (Cons a items)
  have "P v" if "v \<in> set (map snd (AList.update (k a) (g a) m))" for v
  proof -
    have "set (map snd (AList.update (k a) (g a) m)) \<subseteq> insert (g a) (set (map snd m))"
      by (induction m) auto
    with that have "v = g a \<or> v \<in> set (map snd m)" by blast
    with Cons.prems(2) [of v] Cons.prems(3) [of a] show ?thesis by auto
  qed
  with Cons show ?case by auto
qed simp

lemma fetched_page_shows_changes:
  assumes "u \<in> set (fetched_page s items)"
  shows "\<exists>v \<in> set items. u = nullish (us_acknowledgedUsers s (mu_id v)) v"
  using update_all [of "[]" "\<lambda>u. \<exists>v \<in> set items. u = nullish (us_acknowledgedUsers s (mu_id v)) v" items
      "\<lambda>u. nullish (us_acknowledgedUsers s (mu_id u)) u" u mu_id] assms
  by (auto simp: fetched_page_def)

section \<open>The settings keep what is changed meanwhile\<close>

lemma setting_of_set: "setting j (set_setting k b u) = (if j = k then b else setting j u)"
  by (cases j; cases k) simp_all

text \<open>A switch moved while a save is on its way stays where it is; every other one takes the acknowledged value.\<close>

lemma retained_setting:
  "setting k (retained_settings submitted updated current) =
     (if setting k current = setting k submitted then setting k updated else setting k current)"
  by (cases k) (simp_all add: retained_settings_def setting_keys_def setting_of_set)

lemma form_settings_setting: "setting k (to_form_settings x) = setting k x"
  by (cases k) (simp_all add: to_form_settings_def)

lemma unmoved_switches_are_saved:
  assumes "ip_isCurrent s" "ip_formSettings s = submitted"
  shows "\<not> has_changes (settle_settings_save submitted (Inr x) s)"
  using assms by (simp add: settle_settings_save_def has_changes_def setting_keys_def retained_setting)

lemma reset_returns_to_the_saved:
  "ip_settings s = Some x \<Longrightarrow> \<not> has_changes (handle_reset s)"
  by (simp add: handle_reset_def has_changes_def setting_keys_def form_settings_setting)

lemma every_key: "k \<in> set setting_keys"
  by (cases k) (simp_all add: setting_keys_def)

lemma has_changes_iff: "has_changes s \<longleftrightarrow> (\<exists>x k. ip_settings s = Some x \<and> setting k (ip_formSettings s) \<noteq> setting k x)"
  using every_key by (auto simp: has_changes_def list_ex_iff split: option.split)

lemma only_changes_are_sent:
  assumes "snd (instance_control e s) = Some (UpdateSettings u)"
  shows "u = ip_formSettings s \<and> \<not> ip_isSaving s \<and> (\<exists>x k. ip_settings s = Some x \<and> setting k u \<noteq> setting k x)"
  using assms
  by (cases e) (auto simp: instance_control_def handle_settings_save_def load_settings_def has_changes_iff
      Let_def split_beta split: if_splits)

text \<open>Two factors can be asked for without a mail server: where they were required and are switched off, switched on
  again during that save, and saved again, although their switch cannot be moved any more.\<close>

definition letterless :: "bool \<Rightarrow> saved_instance_settings" where
  "letterless b = \<lparr>iu_isAllowExternalRegistrations = True, iu_isAllowMemberInvitations = True,
     iu_isMemberAllowedToCreateWorkspaces = True, iu_isTwoFactorAuthRequired = b, is_isEmailConfigured = False\<rparr>"

definition press :: "instance_event \<Rightarrow> instance_page \<Rightarrow> instance_page" where
  "press e s = fst (instance_control e s)"

definition letterless_page :: instance_page where
  "letterless_page = (let s0 = settle_settings_load 1 (Inr (letterless True)) (fst (load_settings opened_instance_page));
       s1 = press IClickSave (press (ISwitch TwoFactorAuth False) s0);
       s2 = press (ISwitch TwoFactorAuth True) s1
     in settle_settings_save (to_form_settings (letterless False)) (Inr (letterless False)) s2)"

lemma two_factors_without_mail:
  "is_two_factor_disabled letterless_page
   \<and> snd (instance_control IClickSave letterless_page) = Some (UpdateSettings (to_form_settings (letterless True)))"
  by (simp add: letterless_page_def press_def letterless_def opened_instance_page_def load_settings_def Let_def
      invalidate_def new_revision_def settle_settings_load_def is_current_revision_def instance_control_def
      handle_setting_change_def handle_settings_save_def has_changes_def setting_keys_def to_form_settings_def
      settle_settings_save_def retained_settings_def is_two_factor_disabled_def)

lemma letter_is_sent_once: "ml_isSendingTestEmail s \<Longrightarrow> send_test_email b s = (s, False)"
  by (simp add: send_test_email_def)

end
