(* ===== verification/Database_Screen.thy ===== *)
theory Database_Screen
  imports Connections Account_Screens Backup_Configs
begin

text \<open>
  The screen of one database (\<open>pages/databases/ui\<close>): its load and tabs (\<open>DatabaseComponent.tsx\<close>), its settings with
  renaming, testing, copying and deleting (\<open>DatabaseConfigComponent.tsx\<close>), and the sections that edit its notifiers
  and its connection (\<open>EditDatabaseNotifiersSection.tsx\<close>, \<open>EditDatabaseConnectionSection.tsx\<close>). Handlers are cut at
  their awaits; a handler keeps the database of the render that started it. Messages are not modelled.
\<close>

section \<open>The database and its tabs (DatabaseComponent.tsx, monitoringTab.ts)\<close>

record shown_database =
  sd_id :: string
  sd_workspaceId :: string
  sd_name :: string
  sd_notifierIds :: "string list"
  sd_settings :: fields

datatype database_tab = ConfigTab | BackupsTab | VerificationsTab | MonitoringTab

record database_view =
  dv_databaseId :: string
  dv_currentTab :: database_tab
  dv_database :: "shown_database option"
  dv_loadError :: "thrown option"
  dv_effect :: nat
  dv_isActive :: bool
  dv_reported :: "shown_database list"

definition opened_database_view :: "string \<Rightarrow> database_view" where
  "opened_database_view i = \<lparr>dv_databaseId = i, dv_currentTab = BackupsTab, dv_database = None, dv_loadError = None,
     dv_effect = 0, dv_isActive = True, dv_reported = []\<rparr>"

definition is_monitoring_tab_shown :: "shown_database \<Rightarrow> bool" where
  "is_monitoring_tab_shown d \<longleftrightarrow> has_type (sd_settings d) type_postgres_physical
     \<and> fld (sd_settings d) ''backupType'' = JStr ''FULL_INCREMENTAL_WAL_STREAM''"

definition is_tab_offered :: "shown_database option \<Rightarrow> database_tab \<Rightarrow> bool" where
  "is_tab_offered d t = (case t of
       VerificationsTab \<Rightarrow> (case d of None \<Rightarrow> False | Some x \<Rightarrow> has_type (sd_settings x) type_postgres_logical)
     | MonitoringTab \<Rightarrow> (case d of None \<Rightarrow> False | Some x \<Rightarrow> is_monitoring_tab_shown x)
     | _ \<Rightarrow> True)"

definition shown_tab :: "database_view \<Rightarrow> database_tab" where
  "shown_tab v = (if is_tab_offered (dv_database v) (dv_currentTab v) then dv_currentTab v else BackupsTab)"

definition accept_changed_database :: "shown_database \<Rightarrow> database_view \<Rightarrow> database_view" where
  "accept_changed_database d v = (let v1 = (if dv_isActive v
       then v\<lparr>dv_database := (if map_option sd_id (dv_database v) = Some (sd_id d) then Some d else dv_database v)\<rparr>
       else v)
     in v1\<lparr>dv_reported := dv_reported v1 @ [d]\<rparr>)"

text \<open>The effect of the id and of every retry; its number tells its load apart.\<close>

definition run_database_effect :: "string \<Rightarrow> database_view \<Rightarrow> database_view" where
  "run_database_effect i v =
     v\<lparr>dv_databaseId := i, dv_effect := Suc (dv_effect v), dv_database := None, dv_loadError := None\<rparr>"

definition settle_database_load :: "nat \<Rightarrow> thrown + shown_database \<Rightarrow> database_view \<Rightarrow> database_view" where
  "settle_database_load effect answer v =
     (if effect \<noteq> dv_effect v then v
      else case answer of Inr d \<Rightarrow> v\<lparr>dv_database := Some d\<rparr> | Inl e \<Rightarrow> v\<lparr>dv_loadError := Some e\<rparr>)"

datatype database_view_event =
    VShow string | VRetry | VTab database_tab | VLoaded nat string "thrown + shown_database" | VChanged shown_database
  | VLeave

text \<open>The tabs and what changes the database are shown with it; a change may be reported late.\<close>

definition database_view_step :: "database_view \<Rightarrow> database_view_event \<Rightarrow> database_view" where
  "database_view_step v e = (case e of
       VShow i \<Rightarrow> if i = dv_databaseId v then v else run_database_effect i v
     | VRetry \<Rightarrow> if dv_loadError v \<noteq> None then run_database_effect (dv_databaseId v) v else v
     | VTab t \<Rightarrow> if dv_loadError v = None \<and> dv_database v \<noteq> None \<and> is_tab_offered (dv_database v) t
         then v\<lparr>dv_currentTab := t\<rparr> else v
     | VLoaded n i a \<Rightarrow> settle_database_load n a v
     | VChanged d \<Rightarrow> accept_changed_database d v
     | VLeave \<Rightarrow> v\<lparr>dv_isActive := False\<rparr>)"

section \<open>The settings of the database (DatabaseConfigComponent.tsx)\<close>

datatype settings_section =
    NameSection | ConnectionSection | BackupConfigSection | HealthcheckSection | VerificationSection | NotifiersSection

record database_config =
  dc_editingSection :: "settings_section option"
  dc_nameDraft :: string
  dc_isSavingName :: bool
  dc_isTestingConnection :: bool
  dc_isCopying :: bool
  dc_isShowRemoveConfirm :: bool
  dc_isRemoving :: bool
  dc_isShowCopyConfirm :: bool
  dc_isShowTransferDialog :: bool
  dc_actionError :: "thrown option"
  dc_connectionFailureReason :: "string option"
  dc_isActive :: bool
  dc_changed :: "shown_database list"
  dc_deleted :: "string list"
  dc_copied :: "(shown_database \<times> string) list"
  dc_transferred :: "string list"

definition opened_database_config :: database_config where
  "opened_database_config = \<lparr>dc_editingSection = None, dc_nameDraft = [], dc_isSavingName = False,
     dc_isTestingConnection = False, dc_isCopying = False, dc_isShowRemoveConfirm = False, dc_isRemoving = False,
     dc_isShowCopyConfirm = False, dc_isShowTransferDialog = False, dc_actionError = None,
     dc_connectionFailureReason = None, dc_isActive = True, dc_changed = [], dc_deleted = [], dc_copied = [],
     dc_transferred = []\<rparr>"

datatype config_request =
    CopyDatabase string | TestDatabase string | DeleteDatabase string | RenameDatabase string shown_database

definition clear_action_failure :: "database_config \<Rightarrow> database_config" where
  "clear_action_failure c = c\<lparr>dc_actionError := None, dc_connectionFailureReason := None\<rparr>"

definition copy_database :: "shown_database \<Rightarrow> database_config \<Rightarrow> database_config \<times> config_request option" where
  "copy_database d c =
     ((clear_action_failure c)\<lparr>dc_isCopying := True, dc_isShowCopyConfirm := False\<rparr>, Some (CopyDatabase (sd_id d)))"

definition settle_database_copy :: "string \<Rightarrow> thrown + shown_database \<Rightarrow> database_config \<Rightarrow> database_config" where
  "settle_database_copy i answer c = (let c1 = (case answer of
         Inr copy \<Rightarrow> c\<lparr>dc_copied := dc_copied c @ [(copy, i)]\<rparr>
       | Inl e \<Rightarrow> if dc_isActive c then c\<lparr>dc_actionError := Some e\<rparr> else c)
     in if dc_isActive c1 then c1\<lparr>dc_isCopying := False\<rparr> else c1)"

definition test_database_connection ::
    "shown_database \<Rightarrow> database_config \<Rightarrow> database_config \<times> config_request option" where
  "test_database_connection d c =
     ((clear_action_failure c)\<lparr>dc_isTestingConnection := True\<rparr>, Some (TestDatabase (sd_id d)))"

text \<open>The answer is whether it is connected, and the error if there is one.\<close>

definition settle_database_test :: "thrown + bool \<times> string option \<Rightarrow> database_config \<Rightarrow> database_config" where
  "settle_database_test answer c =
     (if \<not> dc_isActive c then c
      else (case answer of
          Inr (isConnected, reason) \<Rightarrow>
            if isConnected then c else c\<lparr>dc_connectionFailureReason := Some (nullish reason [])\<rparr>
        | Inl e \<Rightarrow> c\<lparr>dc_actionError := Some e\<rparr>)\<lparr>dc_isTestingConnection := False\<rparr>)"

definition remove_shown_database ::
    "shown_database \<Rightarrow> database_config \<Rightarrow> database_config \<times> config_request option" where
  "remove_shown_database d c = ((clear_action_failure c)\<lparr>dc_isShowRemoveConfirm := False, dc_isRemoving := True\<rparr>,
     Some (DeleteDatabase (sd_id d)))"

definition settle_database_removal :: "string \<Rightarrow> thrown + unit \<Rightarrow> database_config \<Rightarrow> database_config" where
  "settle_database_removal i answer c = (let c1 = (case answer of
         Inr _ \<Rightarrow> c\<lparr>dc_deleted := dc_deleted c @ [i]\<rparr>
       | Inl e \<Rightarrow> if dc_isActive c then c\<lparr>dc_actionError := Some e\<rparr> else c)
     in if dc_isActive c1 then c1\<lparr>dc_isRemoving := False\<rparr> else c1)"

definition start_edit_section :: "settings_section \<Rightarrow> shown_database \<Rightarrow> database_config \<Rightarrow> database_config" where
  "start_edit_section x d c =
     (clear_action_failure c)\<lparr>dc_nameDraft := sd_name d, dc_editingSection := Some x\<rparr>"

definition close_section :: "database_config \<Rightarrow> database_config" where
  "close_section c = c\<lparr>dc_editingSection := None\<rparr>"

definition accept_saved_connection :: "shown_database \<Rightarrow> database_config \<Rightarrow> database_config" where
  "accept_saved_connection d c = (let c1 = (if dc_isActive c then clear_action_failure c else c)
     in c1\<lparr>dc_changed := dc_changed c1 @ [d]\<rparr>)"

definition accept_saved_database :: "shown_database \<Rightarrow> database_config \<Rightarrow> database_config" where
  "accept_saved_database d c = (let c1 = (if dc_isActive c then close_section (clear_action_failure c) else c)
     in c1\<lparr>dc_changed := dc_changed c1 @ [d]\<rparr>)"

definition accept_saved_backup_config :: "shown_database \<Rightarrow> database_config \<Rightarrow> database_config" where
  "accept_saved_backup_config d c = (let c1 = close_section (clear_action_failure c)
     in c1\<lparr>dc_changed := dc_changed c1 @ [d]\<rparr>)"

definition save_name :: "shown_database \<Rightarrow> database_config \<Rightarrow> database_config \<times> config_request option" where
  "save_name d c = ((clear_action_failure c)\<lparr>dc_isSavingName := True\<rparr>,
     Some (RenameDatabase (sd_id d) (d\<lparr>sd_name := dc_nameDraft c\<rparr>)))"

definition settle_name_save :: "thrown + shown_database \<Rightarrow> database_config \<Rightarrow> database_config" where
  "settle_name_save answer c = (let c1 = (case answer of
         Inr d \<Rightarrow> accept_saved_database d c
       | Inl e \<Rightarrow> if dc_isActive c then c\<lparr>dc_actionError := Some e\<rparr> else c)
     in if dc_isActive c1 then c1\<lparr>dc_isSavingName := False\<rparr> else c1)"

definition is_section_editable :: "bool \<Rightarrow> database_config \<Rightarrow> bool" where
  "is_section_editable isCanManageDBs c \<longleftrightarrow> isCanManageDBs \<and> dc_editingSection c = None"

definition is_section_offered :: "shown_database \<Rightarrow> settings_section \<Rightarrow> bool" where
  "is_section_offered d x \<longleftrightarrow> (x = VerificationSection \<longrightarrow> has_type (sd_settings d) type_postgres_logical)"

datatype config_event =
    CLeave | CEdit settings_section | CTypeName string | CCloseName | CSaveName | CCloseFailure
  | CTest | CAskCopy | CConfirmCopy | CDeclineCopy | CAskRemove | CConfirmRemove | CDeclineRemove
  | CTransfer | CCloseTransfer | CTransferred
  | CSectionCloses | CConnectionSaved shown_database | CNotifiersSaved shown_database | CConfigSaved

text \<open>A control acts where it is shown and enabled, with the database of that render. A confirmation lies over the
  screen and stays until it is answered. A section reports only while it is open.\<close>

definition config_control ::
    "bool \<Rightarrow> shown_database \<Rightarrow> config_event \<Rightarrow> database_config \<Rightarrow> database_config \<times> config_request option" where
  "config_control can d e c = (let quiet = (\<lambda>b c1. (if b then c1 else c, None));
       actions = dc_editingSection c \<noteq> Some ConnectionSection; name = dc_editingSection c = Some NameSection in case e of
       CLeave \<Rightarrow> quiet True (c\<lparr>dc_isActive := False\<rparr>)
     | CEdit x \<Rightarrow> quiet (is_section_editable can c \<and> is_section_offered d x) (start_edit_section x d c)
     | CTypeName t \<Rightarrow> quiet name (c\<lparr>dc_nameDraft := t\<rparr>)
     | CCloseName \<Rightarrow> quiet (name \<and> \<not> dc_isSavingName c) (close_section c)
     | CSaveName \<Rightarrow> if name \<and> dc_nameDraft c \<noteq> sd_name d \<and> dc_nameDraft c \<noteq> [] \<and> \<not> dc_isSavingName c
         then save_name d c else (c, None)
     | CCloseFailure \<Rightarrow> quiet True (clear_action_failure c)
     | CTest \<Rightarrow> if actions \<and> \<not> dc_isTestingConnection c then test_database_connection d c else (c, None)
     | CAskCopy \<Rightarrow> quiet (actions \<and> can \<and> \<not> dc_isCopying c) (c\<lparr>dc_isShowCopyConfirm := True\<rparr>)
     | CConfirmCopy \<Rightarrow> if dc_isShowCopyConfirm c then copy_database d c else (c, None)
     | CDeclineCopy \<Rightarrow> quiet True (c\<lparr>dc_isShowCopyConfirm := False\<rparr>)
     | CAskRemove \<Rightarrow> quiet (actions \<and> can \<and> \<not> dc_isRemoving c) (c\<lparr>dc_isShowRemoveConfirm := True\<rparr>)
     | CConfirmRemove \<Rightarrow> if dc_isShowRemoveConfirm c then remove_shown_database d c else (c, None)
     | CDeclineRemove \<Rightarrow> quiet True (c\<lparr>dc_isShowRemoveConfirm := False\<rparr>)
     | CTransfer \<Rightarrow> quiet (actions \<and> can) (c\<lparr>dc_isShowTransferDialog := True\<rparr>)
     | CCloseTransfer \<Rightarrow> quiet True (c\<lparr>dc_isShowTransferDialog := False\<rparr>)
     | CTransferred \<Rightarrow> quiet (dc_isShowTransferDialog c)
         (c\<lparr>dc_isShowTransferDialog := False, dc_transferred := dc_transferred c @ [sd_id d]\<rparr>)
     | CSectionCloses \<Rightarrow> quiet (dc_editingSection c \<notin> {None, Some NameSection}) (close_section c)
     | CConnectionSaved x \<Rightarrow> quiet (dc_editingSection c = Some ConnectionSection) (accept_saved_connection x c)
     | CNotifiersSaved x \<Rightarrow> quiet (dc_editingSection c = Some NotifiersSection) (accept_saved_database x c)
     | CConfigSaved \<Rightarrow> quiet (dc_editingSection c = Some BackupConfigSection) (accept_saved_backup_config d c))"

section \<open>The notifiers of the database (EditDatabaseNotifiersSection.tsx)\<close>

record notifiers_section =
  en_notifierIds :: "string list"
  en_isSaving :: bool
  en_saveError :: "thrown option"
  en_isCurrent :: bool
  en_saved :: "shown_database list"

definition opened_notifiers_section :: "shown_database \<Rightarrow> notifiers_section" where
  "opened_notifiers_section d = \<lparr>en_notifierIds = sd_notifierIds d, en_isSaving = False, en_saveError = None,
     en_isCurrent = True, en_saved = []\<rparr>"

text \<open>The button is shown while other notifiers are chosen than the database has.\<close>

definition save_notifiers ::
    "shown_database \<Rightarrow> notifiers_section \<Rightarrow> notifiers_section \<times> shown_database option" where
  "save_notifiers d s =
     (if has_same_notifier_ids (sd_notifierIds d) (en_notifierIds s) \<or> en_isSaving s then (s, None)
      else (s\<lparr>en_isSaving := True, en_saveError := None\<rparr>, Some (d\<lparr>sd_notifierIds := en_notifierIds s\<rparr>)))"

definition settle_notifiers_save :: "thrown + shown_database \<Rightarrow> notifiers_section \<Rightarrow> notifiers_section" where
  "settle_notifiers_save answer s =
     (if \<not> en_isCurrent s then s
      else (case answer of
          Inr d \<Rightarrow> s\<lparr>en_saved := en_saved s @ [d]\<rparr>
        | Inl e \<Rightarrow> s\<lparr>en_saveError := Some e\<rparr>)\<lparr>en_isSaving := False\<rparr>)"

section \<open>The connection of the database (EditDatabaseConnectionSection.tsx)\<close>

record connection_edit =
  ce_databaseId :: string
  ce_name :: string
  ce_notifierIds :: "string list"
  ce_savedSettings :: fields
  ce_settings :: fields

definition create_edit_draft :: "shown_database \<Rightarrow> connection_edit" where
  "create_edit_draft d = \<lparr>ce_databaseId = sd_id d, ce_name = sd_name d, ce_notifierIds = sd_notifierIds d,
     ce_savedSettings = sd_settings d, ce_settings = sd_settings d\<rparr>"

text \<open>\<open>kc_isSubmitting\<close> is the form's, which is disabled while its submission runs.\<close>

record connection_section =
  kc_draft :: connection_edit
  kc_isShowLimitedUserDialog :: bool
  kc_isSubmitting :: bool
  kc_isActive :: bool
  kc_saved :: "shown_database list"
  kc_closed :: nat

datatype connection_request = UpdateConnection connection_edit | CheckLimitedUser connection_edit

definition save_draft :: "connection_section \<Rightarrow> connection_section \<times> connection_request option" where
  "save_draft s = (if kc_isSubmitting s \<or> kc_isShowLimitedUserDialog s then (s, None)
     else (s\<lparr>kc_isSubmitting := True\<rparr>, Some (UpdateConnection (kc_draft s))))"

definition settle_draft_save ::
    "thrown + shown_database \<Rightarrow> connection_section \<Rightarrow> connection_section \<times> connection_request option" where
  "settle_draft_save answer s = (if \<not> kc_isActive s then (s, None)
     else case answer of
       Inr d \<Rightarrow> (s\<lparr>kc_saved := kc_saved s @ [d]\<rparr>, Some (CheckLimitedUser (create_edit_draft d)))
     | Inl e \<Rightarrow> (s\<lparr>kc_isSubmitting := False\<rparr>, None))"

text \<open>The answer is whether a limited user is advisable; a failure closes the section.\<close>

definition settle_limited_user_check ::
    "connection_edit \<Rightarrow> thrown + bool \<Rightarrow> connection_section \<Rightarrow> connection_section" where
  "settle_limited_user_check savedDraft answer s = (if \<not> kc_isActive s then s
     else (case answer of
         Inr isAdvisable \<Rightarrow> if isAdvisable then s\<lparr>kc_draft := savedDraft, kc_isShowLimitedUserDialog := True\<rparr>
           else s\<lparr>kc_closed := Suc (kc_closed s)\<rparr>
       | Inl e \<Rightarrow> s\<lparr>kc_closed := Suc (kc_closed s)\<rparr>)\<lparr>kc_isSubmitting := False\<rparr>)"

definition use_created_user :: "string \<Rightarrow> string \<Rightarrow> connection_section \<Rightarrow> connection_section" where
  "use_created_user username password s = s\<lparr>kc_draft := (kc_draft s)\<lparr>ce_settings :=
       set_field ''password'' (JStr password) (set_field ''username'' (JStr username) (ce_settings (kc_draft s)))\<rparr>,
     kc_isShowLimitedUserDialog := False\<rparr>"

section \<open>The database shown is the selected one\<close>

record database_view_run =
  vr_view :: database_view
  vr_loads :: "(nat \<times> string) list"

definition database_view_run_step :: "database_view_run \<Rightarrow> database_view_event \<Rightarrow> database_view_run" where
  "database_view_run_step x e = (case e of
       VLoaded n i a \<Rightarrow> if (n, i) \<notin> set (vr_loads x) then x
         else \<lparr>vr_view = database_view_step (vr_view x) e, vr_loads = remove1 (n, i) (vr_loads x)\<rparr>
     | _ \<Rightarrow> (let v = database_view_step (vr_view x) e
         in \<lparr>vr_view = v, vr_loads = vr_loads x @ (if dv_effect v = dv_effect (vr_view x) then []
              else [(dv_effect v, dv_databaseId v)])\<rparr>))"

definition opened_database_view_run :: "string \<Rightarrow> database_view_run" where
  "opened_database_view_run i = \<lparr>vr_view = run_database_effect i (opened_database_view i), vr_loads = [(1, i)]\<rparr>"

text \<open>The server answers with the database it was asked for.\<close>

definition answers_its_database :: "database_view_event \<Rightarrow> bool" where
  "answers_its_database e = (case e of VLoaded n i (Inr d) \<Rightarrow> sd_id d = i | _ \<Rightarrow> True)"

definition database_view_inv :: "database_view_run \<Rightarrow> bool" where
  "database_view_inv x \<longleftrightarrow> (\<forall>(n, i) \<in> set (vr_loads x). n \<le> dv_effect (vr_view x)
       \<and> (n = dv_effect (vr_view x) \<longrightarrow> i = dv_databaseId (vr_view x)))
     \<and> (case dv_database (vr_view x) of None \<Rightarrow> True | Some d \<Rightarrow> sd_id d = dv_databaseId (vr_view x))"

lemma view_step_effect:
  assumes "\<And>n i a. e \<noteq> VLoaded n i a"
  shows "dv_effect (database_view_step v e) = dv_effect v \<and> dv_databaseId (database_view_step v e) = dv_databaseId v
      \<and> map_option sd_id (dv_database (database_view_step v e)) = map_option sd_id (dv_database v)
    \<or> dv_effect (database_view_step v e) = Suc (dv_effect v) \<and> dv_database (database_view_step v e) = None"
  using assms
  by (cases e) (auto simp: database_view_step_def run_database_effect_def accept_changed_database_def Let_def)

lemma database_id_shown:
  "(case d of None \<Rightarrow> True | Some x \<Rightarrow> sd_id x = i) \<longleftrightarrow> map_option sd_id d \<in> {None, Some i}"
  by (cases d) auto

lemma view_run_control:
  assumes "database_view_inv x" "\<And>n i a. e \<noteq> VLoaded n i a"
  shows "database_view_inv (database_view_run_step x e)"
proof -
  have other: "\<forall>n i a. e \<noteq> VLoaded n i a" using assms(2) by blast
  have "database_view_run_step x e = (let v = database_view_step (vr_view x) e
      in \<lparr>vr_view = v, vr_loads = vr_loads x @ (if dv_effect v = dv_effect (vr_view x) then []
           else [(dv_effect v, dv_databaseId v)])\<rparr>)"
    using other by (cases e) (simp_all add: database_view_run_step_def)
  with view_step_effect [OF assms(2), of "vr_view x"] assms(1) show ?thesis
    by (fastforce simp: database_view_inv_def database_id_shown Let_def)
qed

lemma view_run_loaded:
  assumes "database_view_inv x" "answers_its_database (VLoaded n i a)"
  shows "database_view_inv (database_view_run_step x (VLoaded n i a))"
proof (cases "(n, i) \<in> set (vr_loads x)")
  case True
  with assms show ?thesis
    by (auto simp: database_view_run_step_def database_view_step_def settle_database_load_def database_view_inv_def
        answers_its_database_def database_id_shown split: sum.splits dest: set_remove1_subset [THEN subsetD])
qed (use assms in \<open>simp add: database_view_run_step_def\<close>)

interpretation database_view: guarded_machine database_view_run_step database_view_inv answers_its_database
proof unfold_locales
  show "database_view_inv (database_view_run_step x e)" if "database_view_inv x" "answers_its_database e" for x e
  proof (cases e)
    case (VLoaded n i a)
    with view_run_loaded that show ?thesis by simp
  qed (use view_run_control [OF that(1)] in simp_all)
qed

lemma opened_database_view_inv: "database_view_inv (opened_database_view_run i)"
  by (simp add: database_view_inv_def opened_database_view_run_def run_database_effect_def opened_database_view_def)

lemma selected_database_is_shown:
  assumes "list_all answers_its_database es" "x = foldl database_view_run_step (opened_database_view_run i) es"
    and "dv_database (vr_view x) = Some d"
  shows "sd_id d = dv_databaseId (vr_view x)"
  using database_view.guarded_run_inv [OF opened_database_view_inv assms(1), of i] assms(2,3)
  by (simp add: database_view_inv_def)

lemma shown_tab_is_offered: "is_tab_offered (dv_database v) (shown_tab v)"
  by (simp add: shown_tab_def is_tab_offered_def)

section \<open>Flags, confirmations and rights\<close>

record config_run =
  cr_config :: database_config
  cr_pending :: "config_request list"
  cr_sent :: "config_request list"

datatype config_answer =
    Copied "thrown + shown_database" | Tested "thrown + bool \<times> string option" | Deleted "thrown + unit"
  | Renamed "thrown + shown_database"

datatype config_run_event = RControl shown_database config_event | RAnswer config_request config_answer

fun settle_config_request :: "config_request \<Rightarrow> config_answer \<Rightarrow> database_config \<Rightarrow> database_config" where
  "settle_config_request (CopyDatabase i) (Copied a) c = settle_database_copy i a c"
| "settle_config_request (TestDatabase i) (Tested a) c = settle_database_test a c"
| "settle_config_request (DeleteDatabase i) (Deleted a) c = settle_database_removal i a c"
| "settle_config_request (RenameDatabase i d) (Renamed a) c = settle_name_save a c"
| "settle_config_request _ _ c = c"

fun answers_config :: "config_request \<Rightarrow> config_answer \<Rightarrow> bool" where
  "answers_config (CopyDatabase i) (Copied a) = True"
| "answers_config (TestDatabase i) (Tested a) = True"
| "answers_config (DeleteDatabase i) (Deleted a) = True"
| "answers_config (RenameDatabase i d) (Renamed a) = True"
| "answers_config _ _ = False"

primrec config_run_step :: "bool \<Rightarrow> config_run \<Rightarrow> config_run_event \<Rightarrow> config_run" where
  "config_run_step can x (RControl d e) = (let r = config_control can d e (cr_config x);
       sent = (case snd r of None \<Rightarrow> [] | Some q \<Rightarrow> [q])
     in \<lparr>cr_config = fst r, cr_pending = cr_pending x @ sent, cr_sent = cr_sent x @ sent\<rparr>)"
| "config_run_step can x (RAnswer q a) = (if q \<notin> set (cr_pending x) \<or> \<not> answers_config q a then x
     else x\<lparr>cr_config := settle_config_request q a (cr_config x), cr_pending := remove1 q (cr_pending x)\<rparr>)"

definition opened_config_run :: config_run where
  "opened_config_run = \<lparr>cr_config = opened_database_config, cr_pending = [], cr_sent = []\<rparr>"

primrec config_kind :: "config_request \<Rightarrow> nat" where
  "config_kind (CopyDatabase i) = 0"
| "config_kind (TestDatabase i) = 1"
| "config_kind (DeleteDatabase i) = 2"
| "config_kind (RenameDatabase i d) = 3"

definition config_flag :: "nat \<Rightarrow> database_config \<Rightarrow> bool" where
  "config_flag k c = (if k = 0 then dc_isCopying c else if k = 1 then dc_isTestingConnection c
     else if k = 2 then dc_isRemoving c else dc_isSavingName c)"

definition config_flags :: "database_config \<Rightarrow> config_request list \<Rightarrow> bool" where
  "config_flags c ps \<longleftrightarrow> (\<forall>k<4. shown_by (dc_isActive c) (config_flag k c) (count_list (map config_kind ps) k))
     \<and> (dc_isShowCopyConfirm c \<longrightarrow> \<not> dc_isCopying c) \<and> (dc_isShowRemoveConfirm c \<longrightarrow> \<not> dc_isRemoving c)
     \<and> (dc_isActive c \<and> dc_isSavingName c \<longrightarrow> dc_editingSection c = Some NameSection)"

lemma copying_flag [simp]: "config_flag 0 c = dc_isCopying c" and testing_flag [simp]:
  "config_flag (Suc 0) c = dc_isTestingConnection c" and removing_flag [simp]: "config_flag 2 c = dc_isRemoving c"
  and saving_flag [simp]: "config_flag 3 c = dc_isSavingName c"
  by (simp_all add: config_flag_def)

lemma four_kinds: "(\<forall>k<4. P k) \<longleftrightarrow> P 0 \<and> P (Suc 0) \<and> P 2 \<and> P (3::nat)"
proof -
  have "{..<4::nat} = {0, Suc 0, 2, 3}" by auto
  moreover have "(\<forall>k<4. P k) = (\<forall>k\<in>{..<4}. P k)" by auto
  ultimately show ?thesis by simp
qed

lemma shown_by_more:
  "shown_by act True (Suc n) \<longleftrightarrow> n = 0" "shown_by act False n \<longleftrightarrow> n = 0"
  "shown_by act b n \<Longrightarrow> shown_by False b n"
  by (auto simp: shown_by_def)

lemma config_flags_cong:
  assumes "config_flags c ps" "dc_isCopying c' = dc_isCopying c" "dc_isTestingConnection c' = dc_isTestingConnection c"
    "dc_isRemoving c' = dc_isRemoving c" "dc_isSavingName c' = dc_isSavingName c"
    "dc_isActive c' \<longrightarrow> dc_isActive c" "dc_isShowCopyConfirm c' \<longrightarrow> \<not> dc_isCopying c"
    "dc_isShowRemoveConfirm c' \<longrightarrow> \<not> dc_isRemoving c"
    "dc_isActive c' \<and> dc_isSavingName c \<longrightarrow> dc_editingSection c' = Some NameSection"
  shows "config_flags c' ps"
  using assms by (auto simp: config_flags_def four_kinds shown_by_def)

lemma config_flags_parts:
  assumes "config_flags c ps"
  shows "dc_isShowCopyConfirm c \<longrightarrow> \<not> dc_isCopying c" "dc_isShowRemoveConfirm c \<longrightarrow> \<not> dc_isRemoving c"
    "dc_isActive c \<and> dc_isSavingName c \<longrightarrow> dc_editingSection c = Some NameSection"
  using assms by (simp_all add: config_flags_def)

lemma config_flags_started:
  assumes "config_flags c ps"
  shows "\<not> dc_isTestingConnection c \<Longrightarrow>
      config_flags (fst (test_database_connection d c)) (ps @ [TestDatabase (sd_id d)])"
    and "dc_isShowCopyConfirm c \<Longrightarrow> config_flags (fst (copy_database d c)) (ps @ [CopyDatabase (sd_id d)])"
    and "dc_isShowRemoveConfirm c \<Longrightarrow> config_flags (fst (remove_shown_database d c)) (ps @ [DeleteDatabase (sd_id d)])"
    and "dc_editingSection c = Some NameSection \<Longrightarrow> \<not> dc_isSavingName c \<Longrightarrow>
      config_flags (fst (save_name d c)) (ps @ [RenameDatabase (sd_id d) (d\<lparr>sd_name := dc_nameDraft c\<rparr>)])"
  using assms
  by (auto simp: config_flags_def four_kinds shown_by_more copy_database_def clear_action_failure_def
      test_database_connection_def remove_shown_database_def save_name_def)

lemmas config_edits = clear_action_failure_def start_edit_section_def close_section_def accept_saved_connection_def
  accept_saved_database_def accept_saved_backup_config_def is_section_editable_def Let_def

definition sends_request :: "config_event \<Rightarrow> bool" where
  "sends_request e \<longleftrightarrow> e \<in> {CSaveName, CTest, CConfirmCopy, CConfirmRemove}"

lemma quiet_control_frame:
  assumes "\<not> sends_request e"
  shows "snd (config_control can d e c) = None"
    and "dc_isCopying (fst (config_control can d e c)) = dc_isCopying c"
    and "dc_isTestingConnection (fst (config_control can d e c)) = dc_isTestingConnection c"
    and "dc_isRemoving (fst (config_control can d e c)) = dc_isRemoving c"
    and "dc_isSavingName (fst (config_control can d e c)) = dc_isSavingName c"
    and "dc_isActive (fst (config_control can d e c)) \<longrightarrow> dc_isActive c"
  using assms by (cases e; simp add: sends_request_def config_control_def config_edits)+

lemma quiet_control_dialogs:
  assumes "\<not> sends_request e"
  shows "dc_isShowCopyConfirm (fst (config_control can d e c)) \<longrightarrow> dc_isShowCopyConfirm c \<or> \<not> dc_isCopying c"
    and "dc_isShowRemoveConfirm (fst (config_control can d e c)) \<longrightarrow> dc_isShowRemoveConfirm c \<or> \<not> dc_isRemoving c"
    and "dc_isSavingName c \<and> dc_editingSection c = Some NameSection \<longrightarrow>
      dc_editingSection (fst (config_control can d e c)) = Some NameSection"
  using assms by (cases e; simp add: sends_request_def config_control_def config_edits)+

lemma config_control_flags:
  assumes inv: "config_flags c ps"
  shows "config_flags (fst (config_control can d e c))
    (ps @ (case snd (config_control can d e c) of None \<Rightarrow> [] | Some q \<Rightarrow> [q]))"
proof (cases "sends_request e")
  case False
  note frame = quiet_control_frame [OF False, where can = can and d = d and c = c] and dialogs = quiet_control_dialogs [OF False, where can = can and d = d and c = c]
  have "config_flags (fst (config_control can d e c)) ps"
    by (rule config_flags_cong [OF inv]) (use frame dialogs config_flags_parts [OF inv] in blast)+
  with frame(1) show ?thesis by simp
next
  case True
  note started = config_flags_started [OF inv]
  from True consider "e = CSaveName" | "e = CTest" | "e = CConfirmCopy" | "e = CConfirmRemove"
    by (auto simp: sends_request_def)
  then show ?thesis
  proof cases
    case 1
    with started(4) inv show ?thesis by (simp add: config_control_def save_name_def)
  next
    case 2
    with started(1) inv show ?thesis by (simp add: config_control_def test_database_connection_def)
  next
    case 3
    with started(2) inv show ?thesis by (simp add: config_control_def copy_database_def)
  next
    case 4
    with started(3) inv show ?thesis by (simp add: config_control_def remove_shown_database_def)
  qed
qed

lemma config_flags_answered:
  assumes inv: "config_flags c ps" and q: "q \<in> set ps"
    and flags: "\<And>k. k < 4 \<Longrightarrow> config_flag k c' = (config_flag k c \<and> \<not> (dc_isActive c \<and> k = config_kind q))"
    and rest: "dc_isActive c' = dc_isActive c" "dc_isShowCopyConfirm c' = dc_isShowCopyConfirm c"
    "dc_isShowRemoveConfirm c' = dc_isShowRemoveConfirm c"
    "dc_isActive c \<and> config_kind q \<noteq> 3 \<longrightarrow> dc_editingSection c' = dc_editingSection c"
  shows "config_flags c' (remove1 q ps)"
proof -
  have "shown_by (dc_isActive c') (config_flag k c') (count_list (map config_kind (remove1 q ps)) k)" if "k < 4" for k
  proof -
    have "shown_by (dc_isActive c) (config_flag k c) (count_list (map config_kind ps) k)"
      using inv that by (simp add: config_flags_def)
    with count_remove_kind [OF q, of config_kind k] flags [OF that] rest(1) show ?thesis
      by (auto simp: shown_by_def of_bool_def split: if_splits)
  qed
  moreover have "dc_isCopying c' \<longrightarrow> dc_isCopying c" "dc_isRemoving c' \<longrightarrow> dc_isRemoving c"
    "dc_isSavingName c' \<longrightarrow> dc_isSavingName c \<and> \<not> (dc_isActive c \<and> config_kind q = 3)"
    using flags [of 0] flags [of 2] flags [of 3] by auto
  ultimately show ?thesis using config_flags_parts [OF inv] rest by (auto simp: config_flags_def)
qed

lemma config_answer_flags:
  assumes inv: "config_flags c ps" and q: "q \<in> set ps" and a: "answers_config q a"
  shows "config_flags (settle_config_request q a c) (remove1 q ps)"
  by (rule config_flags_answered [OF inv q])
    (use a in \<open>cases q; cases a; auto simp: config_flag_def settle_database_copy_def settle_database_test_def
      settle_database_removal_def settle_name_save_def accept_saved_database_def clear_action_failure_def
      close_section_def Let_def split: sum.splits\<close>)+

interpretation config_flags: invariant_machine "config_run_step can" "\<lambda>x. config_flags (cr_config x) (cr_pending x)"
  for can
proof unfold_locales
  show "config_flags (cr_config (config_run_step can x e)) (cr_pending (config_run_step can x e))"
    if "config_flags (cr_config x) (cr_pending x)" for x e
    using that by (cases e) (simp_all add: Let_def config_control_flags config_answer_flags)
qed

lemma opened_config_flags: "config_flags (cr_config opened_config_run) (cr_pending opened_config_run)"
  by (simp add: config_flags_def opened_config_run_def opened_database_config_def four_kinds)

theorem config_shows_what_is_under_way:
  "config_flags (cr_config (foldl (config_run_step can) opened_config_run es))
     (cr_pending (foldl (config_run_step can) opened_config_run es))"
  by (rule config_flags.run_inv [OF opened_config_flags])

text \<open>Who may not manage databases changes nothing: the only requests are tests of the connection.\<close>

definition views_only :: "config_run \<Rightarrow> bool" where
  "views_only x \<longleftrightarrow> list_all (\<lambda>q. config_kind q = 1) (cr_sent x) \<and> dc_editingSection (cr_config x) = None
     \<and> \<not> dc_isShowCopyConfirm (cr_config x) \<and> \<not> dc_isShowRemoveConfirm (cr_config x)
     \<and> \<not> dc_isShowTransferDialog (cr_config x)"

lemma viewer_control:
  assumes "dc_editingSection c = None" "\<not> dc_isShowCopyConfirm c" "\<not> dc_isShowRemoveConfirm c" "\<not> dc_isShowTransferDialog c"
  shows "(case snd (config_control False d e c) of None \<Rightarrow> True | Some q \<Rightarrow> config_kind q = 1)
    \<and> dc_editingSection (fst (config_control False d e c)) = None
    \<and> \<not> dc_isShowCopyConfirm (fst (config_control False d e c))
    \<and> \<not> dc_isShowRemoveConfirm (fst (config_control False d e c))
    \<and> \<not> dc_isShowTransferDialog (fst (config_control False d e c))"
  using assms
  by (cases e) (auto simp: config_control_def Let_def is_section_editable_def clear_action_failure_def
      test_database_connection_def)

lemma answers_open_nothing:
  "dc_editingSection c = None \<Longrightarrow> dc_editingSection (settle_config_request q a c) = None"
  "dc_isShowCopyConfirm (settle_config_request q a c) = dc_isShowCopyConfirm c"
  "dc_isShowRemoveConfirm (settle_config_request q a c) = dc_isShowRemoveConfirm c"
  "dc_isShowTransferDialog (settle_config_request q a c) = dc_isShowTransferDialog c"
  by (cases q; cases a; auto simp: settle_database_copy_def settle_database_test_def settle_database_removal_def
      settle_name_save_def accept_saved_database_def clear_action_failure_def close_section_def Let_def
      split: sum.split)+

interpretation viewers: invariant_machine "config_run_step False" views_only
proof unfold_locales
  show "views_only (config_run_step False x e)" if "views_only x" for x e
  proof (cases e)
    case (RControl d c)
    with that viewer_control [of "cr_config x" d c] show ?thesis
      by (auto simp: views_only_def Let_def split: option.splits)
  next
    case (RAnswer q a)
    with that show ?thesis by (simp add: views_only_def answers_open_nothing)
  qed
qed

lemma opened_views_only: "views_only opened_config_run"
  by (simp add: views_only_def opened_config_run_def opened_database_config_def)

text \<open>In every run of a database's settings by someone who may not manage databases, the only requests sent are
  tests of the connection: nothing is renamed, copied or deleted.\<close>

theorem viewers_only_test_databases:
  "list_all (\<lambda>q. config_kind q = config_kind (TestDatabase i))
     (cr_sent (foldl (config_run_step False) opened_config_run es))"
  using viewers.run_inv [OF opened_views_only, of es] by (simp add: views_only_def)

text \<open>What is typed while a name is saved goes down with the field, unlike on the screens of storages and notifiers.\<close>

lemma name_typed_during_save_is_lost:
  assumes "dc_isActive c" "dc_editingSection c = Some NameSection"
  shows "dc_editingSection (settle_name_save (Inr d) (fst (config_control True d0 (CTypeName t) c))) = None"
  using assms by (simp add: settle_name_save_def config_control_def accept_saved_database_def close_section_def
      clear_action_failure_def Let_def)

lemma saved_notifiers_are_asked_for:
  "snd (save_notifiers d s) = Some x \<Longrightarrow> sd_notifierIds x = en_notifierIds s \<and> sd_id x = sd_id d
    \<and> \<not> has_same_notifier_ids (sd_notifierIds d) (sd_notifierIds x)"
  by (auto simp: save_notifiers_def split: if_splits)

text \<open>The dialog for a limited user opens over the saved connection only.\<close>

lemma limited_user_of_the_saved_connection:
  assumes "settle_draft_save (Inr d) s = (s1, Some (CheckLimitedUser draft))"
  shows "draft = create_edit_draft d \<and> kc_saved s1 = kc_saved s @ [d]"
  using assms by (auto simp: settle_draft_save_def split: if_splits)

end
