(* ===== verification/Notifier_Fields.thy ===== *)
theory Notifier_Fields
  imports Connections Json_Text Shared_Lib Notifier_Draft
begin

text \<open>
  The fields of the seven notifiers (\<open>features/edit-notifier/ui/edit/notifiers\<close>) and the form around
  them (\<open>EditNotifierComponent.tsx\<close>): one control for each input, with the value the browser reports,
  when it can be reached, and the settings the form is told. \<open>None\<close> is a control that tells it nothing.
  The fields kept by each editor (an open section, the fields left once) are arguments. A thread id
  is exact here, where \<open>parseInt\<close> rounds past 15 digits; markup and texts are not modelled.
\<close>

section \<open>What typing leaves in a field\<close>

abbreviation trimmed_text :: "string \<Rightarrow> jsval" where
  "trimmed_text t \<equiv> JStr (trim t)"

abbreviation optional_trimmed_text :: "string \<Rightarrow> jsval" where
  "optional_trimmed_text t \<equiv> optional_text (JStr (trim t))"

definition is_trimmed :: "jsval \<Rightarrow> bool" where
  "is_trimmed v = (case v of JStr t \<Rightarrow> trim t = t | _ \<Rightarrow> False)"

definition is_optional_trimmed :: "jsval \<Rightarrow> bool" where
  "is_optional_trimmed v = (case v of JUndefined \<Rightarrow> True | JStr t \<Rightarrow> t \<noteq> [] \<and> trim t = t | _ \<Rightarrow> False)"

lemma is_trimmed_trimmed [simp]: "is_trimmed (trimmed_text t)"
  by (simp add: is_trimmed_def trim_idem)

lemma is_optional_trimmed_typed [simp]: "is_optional_trimmed (optional_trimmed_text t)"
  by (simp add: is_optional_trimmed_def optional_text_def js_truthy_def trim_idem)

lemma is_optional_trimmed_undefined [simp]: "is_optional_trimmed JUndefined"
  by (simp add: is_optional_trimmed_def)

section \<open>Slack, Discord and Teams\<close>

datatype slack_control = SlackToken string | SlackChat string

fun change_slack :: "slack_control \<Rightarrow> fields \<Rightarrow> fields" where
  "change_slack (SlackToken t) s = set_field ''botToken'' (optional_trimmed_text t) s"
| "change_slack (SlackChat t) s = set_field ''targetChatId'' (trimmed_text t) s"

definition change_discord :: "string \<Rightarrow> fields \<Rightarrow> fields" where
  "change_discord t s = set_field ''channelWebhookUrl'' (optional_trimmed_text t) s"

definition change_teams :: "string \<Rightarrow> fields \<Rightarrow> fields" where
  "change_teams t s = set_field ''powerAutomateUrl'' (optional_trimmed_text t) s"

section \<open>Telegram (EditTelegramNotifierComponent.tsx)\<close>

definition topic_without_id :: number where "topic_without_id = 0"

datatype telegram_control =
    TelegramToken string
  | TelegramChat string
  | TelegramTopic bool
  | TelegramThread string
  | TelegramBotApi string
  | TelegramUseProxy bool
  | TelegramProxy string

definition telegram_advanced_at_first :: "fields \<Rightarrow> bool" where
  "telegram_advanced_at_first s \<longleftrightarrow> given s ''botApiUrl'' \<or> given s ''isProxyEnabled''"

definition is_send_to_thread_enabled :: "fields \<Rightarrow> bool" where
  "is_send_to_thread_enabled s \<longleftrightarrow> fld s ''threadId'' \<noteq> JUndefined"

definition is_bot_token_required_again :: "bool \<Rightarrow> fields \<Rightarrow> bool" where
  "is_bot_token_required_again isAddressChanged s \<longleftrightarrow> isAddressChanged \<and> \<not> given s ''botToken''"

fun telegram_control_shown :: "bool \<Rightarrow> fields \<Rightarrow> telegram_control \<Rightarrow> bool" where
  "telegram_control_shown isShowAdvanced s (TelegramThread _) = is_send_to_thread_enabled s"
| "telegram_control_shown isShowAdvanced s (TelegramBotApi _) = isShowAdvanced"
| "telegram_control_shown isShowAdvanced s (TelegramUseProxy _) = isShowAdvanced"
| "telegram_control_shown isShowAdvanced s (TelegramProxy _) = (isShowAdvanced \<and> given s ''isProxyEnabled'')"
| "telegram_control_shown isShowAdvanced s _ = True"

fun change_telegram :: "telegram_control \<Rightarrow> fields \<Rightarrow> fields" where
  "change_telegram (TelegramToken t) s = set_field ''botToken'' (optional_trimmed_text t) s"
| "change_telegram (TelegramChat t) s = set_field ''targetChatId'' (trimmed_text t) s"
| "change_telegram (TelegramTopic checked) s =
     set_field ''threadId'' (if checked then JNum topic_without_id else JUndefined) s"
| "change_telegram (TelegramThread t) s =
     set_field ''threadId'' (JNum (case parse_int (trim t) of Some n \<Rightarrow> of_int n | None \<Rightarrow> topic_without_id)) s"
| "change_telegram (TelegramBotApi t) s = set_field ''botApiUrl'' (optional_trimmed_text t) s"
| "change_telegram (TelegramUseProxy checked) s =
     set_field ''proxyUrl'' (if checked then fld s ''proxyUrl'' else JUndefined)
       (set_field ''isProxyEnabled'' (JBool checked) s)"
| "change_telegram (TelegramProxy t) s = set_field ''proxyUrl'' (optional_trimmed_text t) s"

section \<open>Mattermost (EditMattermostNotifierComponent.tsx)\<close>

datatype mattermost_control =
    MattermostMode string
  | MattermostWebhook string
  | MattermostServer string
  | MattermostToken string
  | MattermostChannel string
  | MattermostChannelName string
  | MattermostUsername string
  | MattermostIcon string
  | MattermostSkipTls bool

definition mattermost_optional_at_first :: "fields \<Rightarrow> bool" where
  "mattermost_optional_at_first s \<longleftrightarrow> given s ''targetChannelName'' \<or> given s ''overrideUsername''
     \<or> given s ''overrideIconUrl'' \<or> given s ''isInsecureSkipVerify''"

definition is_webhook_mode :: "fields \<Rightarrow> bool" where
  "is_webhook_mode s \<longleftrightarrow> fld s ''deliveryMode'' = JStr mattermost_webhook_mode"

fun mattermost_control_shown :: "bool \<Rightarrow> fields \<Rightarrow> mattermost_control \<Rightarrow> bool" where
  "mattermost_control_shown isShowOptional s (MattermostMode _) = True"
| "mattermost_control_shown isShowOptional s (MattermostWebhook _) = is_webhook_mode s"
| "mattermost_control_shown isShowOptional s (MattermostServer _) = (\<not> is_webhook_mode s)"
| "mattermost_control_shown isShowOptional s (MattermostToken _) = (\<not> is_webhook_mode s)"
| "mattermost_control_shown isShowOptional s (MattermostChannel _) = (\<not> is_webhook_mode s)"
| "mattermost_control_shown isShowOptional s (MattermostChannelName _) = (isShowOptional \<and> is_webhook_mode s)"
| "mattermost_control_shown isShowOptional s _ = isShowOptional"

fun change_mattermost :: "mattermost_control \<Rightarrow> fields \<Rightarrow> fields" where
  "change_mattermost (MattermostMode m) s = set_field ''deliveryMode'' (JStr m) s"
| "change_mattermost (MattermostWebhook t) s = set_field ''webhookUrl'' (optional_trimmed_text t) s"
| "change_mattermost (MattermostServer t) s = set_field ''serverUrl'' (optional_trimmed_text t) s"
| "change_mattermost (MattermostToken t) s = set_field ''botToken'' (optional_trimmed_text t) s"
| "change_mattermost (MattermostChannel t) s = set_field ''targetChannelId'' (optional_trimmed_text t) s"
| "change_mattermost (MattermostChannelName t) s = set_field ''targetChannelName'' (optional_trimmed_text t) s"
| "change_mattermost (MattermostUsername t) s = set_field ''overrideUsername'' (optional_trimmed_text t) s"
| "change_mattermost (MattermostIcon t) s = set_field ''overrideIconUrl'' (optional_trimmed_text t) s"
| "change_mattermost (MattermostSkipTls checked) s = set_field ''isInsecureSkipVerify'' (JBool checked) s"

section \<open>Email (EditEmailNotifierComponent.tsx)\<close>

datatype email_control =
    EmailTarget string
  | EmailHost string
  | EmailPort number
  | EmailUser string
  | EmailPassword string
  | EmailFrom string
  | EmailSecurity email_security
  | EmailHelo string
  | EmailSkipTls bool

text \<open>The port and the security of the settings; both are always there.\<close>

definition smtp_port :: "fields \<Rightarrow> number" where
  "smtp_port s = (case fld s ''smtpPort'' of JNum n \<Rightarrow> n | _ \<Rightarrow> unset_smtp_port)"

definition email_security_of :: "fields \<Rightarrow> email_security" where
  "email_security_of s =
     (if fld s ''security'' = JStr (email_security_name TLS) then TLS
      else if fld s ''security'' = JStr (email_security_name STARTTLS) then STARTTLS else NoEncryption)"

definition email_advanced_at_first :: "fields \<Rightarrow> bool" where
  "email_advanced_at_first s \<longleftrightarrow> given s ''isInsecureSkipVerify'' \<or> given s ''heloName''
     \<or> email_security_of s \<noteq> get_default_email_notifier_security (smtp_port s)"

definition is_smtp_password_required_again :: "bool \<Rightarrow> fields \<Rightarrow> bool" where
  "is_smtp_password_required_again isAddressChanged s \<longleftrightarrow>
     isAddressChanged \<and> given s ''smtpUser'' \<and> \<not> given s ''smtpPassword''"

definition is_target_email_invalid :: "fields \<Rightarrow> bool" where
  "is_target_email_invalid s \<longleftrightarrow> \<not> matches_email (text_field s ''targetEmail'')"

definition is_smtp_host_invalid :: "fields \<Rightarrow> bool" where
  "is_smtp_host_invalid s \<longleftrightarrow> trim (text_field s ''smtpHost'') = []"

definition is_smtp_port_invalid :: "fields \<Rightarrow> bool" where
  "is_smtp_port_invalid s = (case fld s ''smtpPort'' of
       JNum n \<Rightarrow> of_int \<lfloor>n\<rfloor> \<noteq> n \<or> n < 1 \<or> n > 65535 | _ \<Rightarrow> True)"

text \<open>A field shows its error once it was left.\<close>

definition email_field_errors :: "string set \<Rightarrow> fields \<Rightarrow> string list" where
  "email_field_errors touched s =
     (if ''targetEmail'' \<in> touched \<and> is_target_email_invalid s then [''targetEmail''] else [])
     @ (if ''smtpHost'' \<in> touched \<and> is_smtp_host_invalid s then [''smtpHost''] else [])
     @ (if ''smtpPort'' \<in> touched \<and> is_smtp_port_invalid s then [''smtpPort''] else [])"

fun email_control_shown :: "bool \<Rightarrow> email_control \<Rightarrow> bool" where
  "email_control_shown isShowAdvanced (EmailSecurity _) = isShowAdvanced"
| "email_control_shown isShowAdvanced (EmailHelo _) = isShowAdvanced"
| "email_control_shown isShowAdvanced (EmailSkipTls _) = isShowAdvanced"
| "email_control_shown isShowAdvanced _ = True"

fun change_email :: "email_control \<Rightarrow> fields \<Rightarrow> fields" where
  "change_email (EmailTarget t) s = set_field ''targetEmail'' (trimmed_text t) s"
| "change_email (EmailHost t) s = set_field ''smtpHost'' (trimmed_text t) s"
| "change_email (EmailPort nextPort) s =
     set_field ''security'' (JStr (email_security_name
         (get_security_after_port_change (email_security_of s) (smtp_port s) nextPort)))
       (set_field ''smtpPort'' (JNum nextPort) s)"
| "change_email (EmailUser t) s = set_field ''smtpUser'' (optional_trimmed_text t) s"
| "change_email (EmailPassword t) s = set_field ''smtpPassword'' (optional_text (JStr t)) s"
| "change_email (EmailFrom t) s = set_field ''from'' (optional_trimmed_text t) s"
| "change_email (EmailSecurity security) s = set_field ''security'' (JStr (email_security_name security)) s"
| "change_email (EmailHelo t) s = set_field ''heloName'' (optional_trimmed_text t) s"
| "change_email (EmailSkipTls checked) s = set_field ''isInsecureSkipVerify'' (JBool checked) s"

section \<open>Webhook (EditWebhookNotifierComponent.tsx)\<close>

text \<open>\<open>s.replace(/pattern/g, replacement)\<close> of a literal pattern.\<close>

fun replace_all :: "string \<Rightarrow> string \<Rightarrow> string \<Rightarrow> string" where
  "replace_all pat rep [] = []"
| "replace_all pat rep (c # s) =
     (if pat \<noteq> [] \<and> prefix pat (c # s) then rep @ replace_all pat rep (drop (length pat - 1) s)
      else c # replace_all pat rep s)"

text \<open>\<open>JSON.parse\<close> throws a \<open>SyntaxError\<close> and nothing else, so the second message is never used.\<close>

definition validate_json_template :: "string \<Rightarrow> string option" where
  "validate_json_template template =
     (if trim template = [] then None
      else let testJson = replace_all ''{{message}}'' ''test'' (replace_all ''{{heading}}'' ''test'' template)
           in case json_parse testJson of
                Some _ \<Rightarrow> None
              | None \<Rightarrow> Some ''notifiers.webhook.bodyTemplate.invalidJsonFormat'')"

definition accepted_categories :: "fields \<Rightarrow> jsval list" where
  "accepted_categories s =
     (if array_items (fld s ''acceptedCategories'') \<noteq> [] then array_items (fld s ''acceptedCategories'')
      else default_accepted_categories)"

definition change_accepted_categories :: "jsval list \<Rightarrow> fields \<Rightarrow> fields" where
  "change_accepted_categories selected s =
     (let isAllSelected = (selected = [] \<or> last selected = JStr notification_category_all)
      in set_field ''acceptedCategories''
        (JArr (if isAllSelected then [JStr notification_category_all]
               else filter (\<lambda>category. category \<noteq> JStr notification_category_all) selected)) s)"

definition header_items :: "fields \<Rightarrow> jsval list" where
  "header_items s = array_items (fld s ''headers'')"

definition add_header :: "fields \<Rightarrow> fields" where
  "add_header s = set_field ''headers'' (JArr (header_items s @ [JObj [(''name'', JStr [])]])) s"

definition update_header :: "nat \<Rightarrow> string \<Rightarrow> jsval \<Rightarrow> fields \<Rightarrow> fields" where
  "update_header index k v s = set_field ''headers''
     (JArr ((header_items s)[index := JObj (set_field k v (object_fields (header_items s ! index)))])) s"

definition trim_header_name :: "nat \<Rightarrow> fields \<Rightarrow> fields option" where
  "trim_header_name index s =
     (let name = header_name (object_fields (header_items s ! index));
          trimmedName = trim name
      in if trimmedName \<noteq> name then Some (update_header index ''name'' (JStr trimmedName) s) else None)"

definition remove_header :: "nat \<Rightarrow> fields \<Rightarrow> fields" where
  "remove_header index s = set_field ''headers''
     (JArr (take index (header_items s) @ drop (Suc index) (header_items s))) s"

definition is_header_value_required_again :: "bool \<Rightarrow> fields list \<Rightarrow> fields \<Rightarrow> bool" where
  "is_header_value_required_again isAddressChanged savedHeaders header \<longleftrightarrow>
     isAddressChanged \<and> is_webhook_header_value_missing header savedHeaders"

datatype webhook_control =
    WebhookUrl string
  | WebhookMethod string
  | WebhookCategories "jsval list"
  | WebhookHeaderName nat string
  | WebhookHeaderNameLeft nat
  | WebhookHeaderValue nat string
  | WebhookRemoveHeader nat
  | WebhookAddHeader
  | WebhookBody string

fun webhook_control_shown :: "fields \<Rightarrow> webhook_control \<Rightarrow> bool" where
  "webhook_control_shown s (WebhookHeaderName i _) = (i < length (header_items s))"
| "webhook_control_shown s (WebhookHeaderNameLeft i) = (i < length (header_items s))"
| "webhook_control_shown s (WebhookHeaderValue i _) = (i < length (header_items s))"
| "webhook_control_shown s (WebhookRemoveHeader i) = (i < length (header_items s))"
| "webhook_control_shown s (WebhookBody _) = (fld s ''webhookMethod'' = JStr webhook_method_post)"
| "webhook_control_shown s _ = True"

fun change_webhook :: "webhook_control \<Rightarrow> fields \<Rightarrow> fields option" where
  "change_webhook (WebhookUrl t) s = Some (set_field ''webhookUrl'' (trimmed_text t) s)"
| "change_webhook (WebhookMethod m) s = Some (set_field ''webhookMethod'' (JStr m) s)"
| "change_webhook (WebhookCategories selected) s = Some (change_accepted_categories selected s)"
| "change_webhook (WebhookHeaderName i t) s = Some (update_header i ''name'' (JStr t) s)"
| "change_webhook (WebhookHeaderNameLeft i) s = trim_header_name i s"
| "change_webhook (WebhookHeaderValue i t) s = Some (update_header i ''value'' (optional_text (JStr t)) s)"
| "change_webhook (WebhookRemoveHeader i) s = Some (remove_header i s)"
| "change_webhook WebhookAddHeader s = Some (add_header s)"
| "change_webhook (WebhookBody t) s = Some (set_field ''bodyTemplate'' (optional_text (JStr t)) s)"

section \<open>The form (EditNotifierComponent.tsx)\<close>

definition selectable_notifier_types :: "string list" where
  "selectable_notifier_types = [notifier_type_telegram, notifier_type_email, notifier_type_webhook,
     notifier_type_slack, notifier_type_discord, notifier_type_teams, notifier_type_mattermost]"

datatype notifier_field_control =
    NotifierType string
  | TelegramField bool telegram_control
  | EmailField bool email_control
  | WebhookField webhook_control
  | SlackField slack_control
  | DiscordField string
  | TeamsField string
  | MattermostField bool mattermost_control

text \<open>Each editor is on the screen for its type only; the type of a saved notifier is text, and while a
  save is on its way the list of types is disabled. The first argument of a field is whether its section
  with more settings is open.\<close>

fun notifier_control_shown :: "bool \<Rightarrow> bool \<Rightarrow> fields \<Rightarrow> notifier_field_control \<Rightarrow> bool" where
  "notifier_control_shown isSaved isSaving s (NotifierType t) = (\<not> isSaved \<and> \<not> isSaving \<and> t \<in> set selectable_notifier_types)"
| "notifier_control_shown isSaved isSaving s (TelegramField adv c) =
     (has_type s notifier_type_telegram \<and> telegram_control_shown adv s c)"
| "notifier_control_shown isSaved isSaving s (EmailField adv c) =
     (has_type s notifier_type_email \<and> email_control_shown adv c)"
| "notifier_control_shown isSaved isSaving s (WebhookField c) =
     (has_type s notifier_type_webhook \<and> webhook_control_shown s c)"
| "notifier_control_shown isSaved isSaving s (SlackField c) = has_type s notifier_type_slack"
| "notifier_control_shown isSaved isSaving s (DiscordField t) = has_type s notifier_type_discord"
| "notifier_control_shown isSaved isSaving s (TeamsField t) = has_type s notifier_type_teams"
| "notifier_control_shown isSaved isSaving s (MattermostField opt c) =
     (has_type s notifier_type_mattermost \<and> mattermost_control_shown opt s c)"

fun notifier_change :: "notifier_field_control \<Rightarrow> fields \<Rightarrow> fields option" where
  "notifier_change (NotifierType t) s = Some (create_default_notifier_settings t)"
| "notifier_change (TelegramField _ c) s = Some (change_telegram c s)"
| "notifier_change (EmailField _ c) s = Some (change_email c s)"
| "notifier_change (WebhookField c) s = change_webhook c s"
| "notifier_change (SlackField c) s = Some (change_slack c s)"
| "notifier_change (DiscordField t) s = Some (change_discord t s)"
| "notifier_change (TeamsField t) s = Some (change_teams t s)"
| "notifier_change (MattermostField _ c) s = Some (change_mattermost c s)"

definition is_all_notifier_data_filled ::
    "(string \<Rightarrow> notifier_url option) \<Rightarrow> string \<Rightarrow> fields \<Rightarrow> bool \<Rightarrow> fields option \<Rightarrow> bool" where
  "is_all_notifier_data_filled url name settings isSaved savedSettings \<longleftrightarrow>
     trim name \<noteq> [] \<and> is_notifier_settings_filled url settings isSaved savedSettings"

definition saved_webhook_headers :: "fields option \<Rightarrow> fields list" where
  "saved_webhook_headers savedSettings = (case savedSettings of
       Some saved \<Rightarrow> if has_type saved notifier_type_webhook then headers_of saved else []
     | None \<Rightarrow> [])"

definition can_send_test_notification ::
    "(string \<Rightarrow> notifier_url option) \<Rightarrow> 'e notifier_form \<Rightarrow> bool" where
  "can_send_test_notification url f \<longleftrightarrow> is_notifier_unsaved f \<and> \<not> is_notifier_tested f
     \<and> \<not> nf_isTesting f \<and> \<not> nf_isSaving f
     \<and> is_all_notifier_data_filled url (nd_name (nf_draft f)) (nd_settings (nf_draft f))
          (nf_savedId f \<noteq> None) (saved_settings f)"

definition can_save_notifier :: "(string \<Rightarrow> notifier_url option) \<Rightarrow> 'e notifier_form \<Rightarrow> bool" where
  "can_save_notifier url f \<longleftrightarrow> is_notifier_unsaved f \<and> is_notifier_tested f \<and> \<not> nf_isSaving f
     \<and> is_all_notifier_data_filled url (nd_name (nf_draft f)) (nd_settings (nf_draft f))
          (nf_savedId f \<noteq> None) (saved_settings f)"

text \<open>A control of the fields on the form, whose \<open>changeSettings\<close> it calls.\<close>

definition use_notifier_control :: "notifier_field_control \<Rightarrow> 'e notifier_form \<Rightarrow> 'e notifier_form" where
  "use_notifier_control c f =
     (if notifier_control_shown (nf_savedId f \<noteq> None) (nf_isSaving f) (nd_settings (nf_draft f)) c
      then (case notifier_change c (nd_settings (nf_draft f)) of
              Some changed \<Rightarrow> change_notifier_settings changed f | None \<Rightarrow> f)
      else f)"

section \<open>Every edit leaves the settings tidy\<close>

text \<open>The texts of a channel that are required, and those that are left out when empty.\<close>

definition required_texts :: "fields \<Rightarrow> string list" where
  "required_texts s =
     (if has_type s notifier_type_email then [''targetEmail'', ''smtpHost'']
      else if has_type s notifier_type_telegram \<or> has_type s notifier_type_slack then [''targetChatId'']
      else if has_type s notifier_type_webhook then [''webhookUrl''] else [])"

definition optional_texts :: "fields \<Rightarrow> string list" where
  "optional_texts s =
     (if has_type s notifier_type_email then [''smtpUser'', ''from'', ''heloName'']
      else if has_type s notifier_type_telegram then [''botToken'', ''botApiUrl'', ''proxyUrl'']
      else if has_type s notifier_type_slack then [''botToken'']
      else if has_type s notifier_type_discord then [''channelWebhookUrl'']
      else if has_type s notifier_type_teams then [''powerAutomateUrl'']
      else if has_type s notifier_type_mattermost
      then [''webhookUrl'', ''serverUrl'', ''botToken'', ''targetChannelId'', ''targetChannelName'',
            ''overrideUsername'', ''overrideIconUrl'']
      else [])"

definition tidy_texts :: "fields \<Rightarrow> bool" where
  "tidy_texts s \<longleftrightarrow> list_all (\<lambda>k. is_trimmed (fld s k)) (required_texts s)
     \<and> list_all (\<lambda>k. is_optional_trimmed (fld s k)) (optional_texts s)"

text \<open>A proxy is set only while it is in use, and ``everything'' stands alone among the categories.\<close>

definition proxy_in_use :: "fields \<Rightarrow> bool" where
  "proxy_in_use s \<longleftrightarrow>
     (has_type s notifier_type_telegram \<and> given s ''proxyUrl'' \<longrightarrow> given s ''isProxyEnabled'')"

definition categories_consistent :: "fields \<Rightarrow> bool" where
  "categories_consistent s \<longleftrightarrow> (has_type s notifier_type_webhook \<longrightarrow>
     array_items (fld s ''acceptedCategories'') = [JStr notification_category_all]
     \<or> JStr notification_category_all \<notin> set (array_items (fld s ''acceptedCategories'')))"

definition tidy_notifier :: "fields \<Rightarrow> bool" where
  "tidy_notifier s \<longleftrightarrow> tidy_texts s \<and> proxy_in_use s \<and> categories_consistent s"

lemma has_type_set_field: "k \<noteq> ''type'' \<Longrightarrow> has_type (set_field k v s) t = has_type s t"
  by (simp add: has_type_def fld_set_field)

lemma given_set_field: "given (set_field k v s) j = (if j = k then js_truthy v else given s j)"
  by (simp add: given_def fld_set_field)

lemma tidy_texts_set_field:
  assumes "tidy_texts s" "k \<noteq> ''type''"
    and "k \<in> set (required_texts s) \<Longrightarrow> is_trimmed v"
    and "k \<in> set (optional_texts s) \<Longrightarrow> is_optional_trimmed v"
  shows "tidy_texts (set_field k v s)"
proof -
  have "required_texts (set_field k v s) = required_texts s" "optional_texts (set_field k v s) = optional_texts s"
    using assms(2) by (simp_all add: required_texts_def optional_texts_def has_type_set_field)
  then show ?thesis
    using assms by (auto simp: tidy_texts_def list_all_iff fld_set_field)
qed

lemma proxy_in_use_set_field:
  assumes "proxy_in_use s" "k \<noteq> ''type''" "k \<noteq> ''proxyUrl''" "k \<noteq> ''isProxyEnabled''"
  shows "proxy_in_use (set_field k v s)"
  using assms by (simp add: proxy_in_use_def has_type_set_field given_set_field)

lemma categories_consistent_set_field:
  assumes "categories_consistent s" "k \<noteq> ''type''" "k \<noteq> ''acceptedCategories''"
  shows "categories_consistent (set_field k v s)"
  using assms by (simp add: categories_consistent_def has_type_set_field fld_set_field)

lemma tidy_set_field:
  assumes "tidy_notifier s" "k \<notin> {''type'', ''proxyUrl'', ''isProxyEnabled'', ''acceptedCategories''}"
    and "k \<in> set (required_texts s) \<Longrightarrow> is_trimmed v"
    and "k \<in> set (optional_texts s) \<Longrightarrow> is_optional_trimmed v"
  shows "tidy_notifier (set_field k v s)"
  using assms by (simp add: tidy_notifier_def tidy_texts_set_field proxy_in_use_set_field
      categories_consistent_set_field)

lemma changed_categories_consistent:
  "array_items (fld (change_accepted_categories selected s) ''acceptedCategories'') = [JStr notification_category_all]
   \<or> JStr notification_category_all \<notin>
       set (array_items (fld (change_accepted_categories selected s) ''acceptedCategories''))"
  by (auto simp: change_accepted_categories_def fld_set_field array_items_def Let_def)

text \<open>Nothing selected means everything, so a webhook never ends up without a category.\<close>

lemma changed_categories_not_empty:
  "array_items (fld (change_accepted_categories selected s) ''acceptedCategories'') \<noteq> []"
  by (cases selected rule: rev_cases)
    (auto simp: change_accepted_categories_def fld_set_field array_items_def Let_def)

lemma is_trimmed_empty [simp]: "is_trimmed (JStr [])"
  by (simp add: is_trimmed_def trim_def trim_start.simps space_length_def)

lemma type_texts: "distinct [notifier_type_email, notifier_type_telegram, notifier_type_webhook,
    notifier_type_slack, notifier_type_discord, notifier_type_teams, notifier_type_mattermost]"
  by (simp add: notifier_types)

lemma tidy_default_email: "tidy_notifier (create_default_notifier_settings notifier_type_email)"
  and tidy_default_telegram: "tidy_notifier (create_default_notifier_settings notifier_type_telegram)"
  and tidy_default_webhook: "tidy_notifier (create_default_notifier_settings notifier_type_webhook)"
  and tidy_default_slack: "tidy_notifier (create_default_notifier_settings notifier_type_slack)"
  and tidy_default_discord: "tidy_notifier (create_default_notifier_settings notifier_type_discord)"
  and tidy_default_teams: "tidy_notifier (create_default_notifier_settings notifier_type_teams)"
  and tidy_default_mattermost: "tidy_notifier (create_default_notifier_settings notifier_type_mattermost)"
  by (simp_all add: notifier_types create_default_notifier_settings_def tidy_notifier_def tidy_texts_def
      required_texts_def optional_texts_def proxy_in_use_def categories_consistent_def has_type_def fld_def
      given_def js_truthy_def array_items_def default_accepted_categories_def)

lemma tidy_default: "t \<in> set selectable_notifier_types \<Longrightarrow> tidy_notifier (create_default_notifier_settings t)"
  using tidy_default_email tidy_default_telegram tidy_default_webhook tidy_default_slack
    tidy_default_discord tidy_default_teams tidy_default_mattermost
  by (auto simp only: selectable_notifier_types_def set_simps insert_iff empty_iff)

lemma email_texts:
  assumes "has_type s notifier_type_email"
  shows "required_texts s = [''targetEmail'', ''smtpHost'']"
    and "optional_texts s = [''smtpUser'', ''from'', ''heloName'']"
  using assms by (simp_all add: required_texts_def optional_texts_def)

lemma telegram_texts:
  assumes "has_type s notifier_type_telegram"
  shows "required_texts s = [''targetChatId'']"
    and "optional_texts s = [''botToken'', ''botApiUrl'', ''proxyUrl'']"
  using assms by (simp_all add: required_texts_def optional_texts_def has_type_only [OF assms] notifier_types)

lemma slack_texts:
  assumes "has_type s notifier_type_slack"
  shows "required_texts s = [''targetChatId'']" and "optional_texts s = [''botToken'']"
  using assms by (simp_all add: required_texts_def optional_texts_def has_type_only [OF assms] notifier_types)

lemma discord_texts:
  assumes "has_type s notifier_type_discord"
  shows "required_texts s = []" and "optional_texts s = [''channelWebhookUrl'']"
  using assms by (simp_all add: required_texts_def optional_texts_def has_type_only [OF assms] notifier_types)

lemma teams_texts:
  assumes "has_type s notifier_type_teams"
  shows "required_texts s = []" and "optional_texts s = [''powerAutomateUrl'']"
  using assms by (simp_all add: required_texts_def optional_texts_def has_type_only [OF assms] notifier_types)

lemma mattermost_texts:
  assumes "has_type s notifier_type_mattermost"
  shows "required_texts s = []" and "optional_texts s = [''webhookUrl'', ''serverUrl'', ''botToken'',
    ''targetChannelId'', ''targetChannelName'', ''overrideUsername'', ''overrideIconUrl'']"
  using assms by (simp_all add: required_texts_def optional_texts_def has_type_only [OF assms] notifier_types)

lemma webhook_texts:
  assumes "has_type s notifier_type_webhook"
  shows "required_texts s = [''webhookUrl'']" and "optional_texts s = []"
  using assms by (simp_all add: required_texts_def optional_texts_def has_type_only [OF assms] notifier_types)

lemma tidy_change_telegram:
  assumes "tidy_notifier s" "has_type s notifier_type_telegram" "telegram_control_shown adv s c"
  shows "tidy_notifier (change_telegram c s)"
proof (cases c)
  case (TelegramUseProxy checked)
  let ?on = "set_field ''isProxyEnabled'' (JBool checked) s"
  have on: "has_type ?on notifier_type_telegram" using assms(2) by (simp add: has_type_set_field)
  have "tidy_texts s" using assms(1) by (simp add: tidy_notifier_def)
  then have "tidy_texts ?on"
    by (rule tidy_texts_set_field) (simp_all add: telegram_texts [OF assms(2)])
  moreover have proxy: "is_optional_trimmed (fld s ''proxyUrl'')"
    using assms(1) by (simp add: tidy_notifier_def tidy_texts_def telegram_texts [OF assms(2)])
  moreover have "is_optional_trimmed (if checked then fld s ''proxyUrl'' else JUndefined)"
    using proxy by simp
  ultimately have "tidy_texts (change_telegram c s)"
    unfolding TelegramUseProxy change_telegram.simps
    by - (rule tidy_texts_set_field, assumption, simp_all add: telegram_texts [OF on])
  moreover have "proxy_in_use (change_telegram c s)" using assms(1)
    by (simp add: TelegramUseProxy tidy_notifier_def proxy_in_use_def has_type_set_field given_set_field js_truthy_def)
  ultimately show ?thesis using assms(1)
    by (simp add: TelegramUseProxy tidy_notifier_def categories_consistent_set_field)
next
  case (TelegramProxy t)
  have "tidy_texts s" using assms(1) by (simp add: tidy_notifier_def)
  then have "tidy_texts (change_telegram c s)"
    unfolding TelegramProxy change_telegram.simps
    by (rule tidy_texts_set_field) (simp_all add: telegram_texts [OF assms(2)])
  then show ?thesis
    using assms(1,3) by (simp add: TelegramProxy tidy_notifier_def categories_consistent_set_field
        proxy_in_use_def has_type_set_field given_set_field)
qed (auto intro!: tidy_set_field [OF assms(1)] simp: telegram_texts [OF assms(2)])

lemma tidy_change_email:
  assumes "tidy_notifier s" "has_type s notifier_type_email"
  shows "tidy_notifier (change_email c s)"
proof (cases c)
  case (EmailPort p)
  let ?port = "set_field ''smtpPort'' (JNum p) s"
  have port: "has_type ?port notifier_type_email" using assms(2) by (simp add: has_type_set_field)
  have "tidy_notifier ?port" by (auto intro!: tidy_set_field [OF assms(1)] simp: email_texts [OF assms(2)])
  then show ?thesis unfolding EmailPort change_email.simps
    by (rule tidy_set_field) (simp_all add: email_texts [OF port])
qed (auto intro!: tidy_set_field [OF assms(1)] simp: email_texts [OF assms(2)])

lemma tidy_change_mattermost:
  assumes "tidy_notifier s" "has_type s notifier_type_mattermost"
  shows "tidy_notifier (change_mattermost c s)"
  by (cases c) (auto intro!: tidy_set_field [OF assms(1)] simp: mattermost_texts [OF assms(2)])

lemma tidy_change_slack:
  assumes "tidy_notifier s" "has_type s notifier_type_slack"
  shows "tidy_notifier (change_slack c s)"
  by (cases c) (auto intro!: tidy_set_field [OF assms(1)] simp: slack_texts [OF assms(2)])

lemma tidy_change_discord:
  assumes "tidy_notifier s" "has_type s notifier_type_discord"
  shows "tidy_notifier (change_discord t s)"
  by (auto intro!: tidy_set_field [OF assms(1)] simp: change_discord_def discord_texts [OF assms(2)])

lemma tidy_change_teams:
  assumes "tidy_notifier s" "has_type s notifier_type_teams"
  shows "tidy_notifier (change_teams t s)"
  by (auto intro!: tidy_set_field [OF assms(1)] simp: change_teams_def teams_texts [OF assms(2)])

lemma tidy_headers:
  assumes "tidy_notifier s" "has_type s notifier_type_webhook"
  shows "tidy_notifier (set_field ''headers'' v s)"
  by (auto intro!: tidy_set_field [OF assms(1)] simp: webhook_texts [OF assms(2)])

lemma tidy_change_webhook:
  assumes "tidy_notifier s" "has_type s notifier_type_webhook" "change_webhook c s = Some s'"
  shows "tidy_notifier s'"
proof (cases c)
  case (WebhookCategories selected)
  have s': "s' = change_accepted_categories selected s" using assms(3) by (simp add: WebhookCategories)
  have "categories_consistent s'"
    using changed_categories_consistent [of selected s] by (simp add: s' categories_consistent_def)
  moreover have "tidy_texts s" "proxy_in_use s" using assms(1) by (simp_all add: tidy_notifier_def)
  then have "tidy_texts s'" "proxy_in_use s'"
    unfolding s' change_accepted_categories_def Let_def
    by (auto intro!: tidy_texts_set_field proxy_in_use_set_field simp: webhook_texts [OF assms(2)])
  ultimately show ?thesis by (simp add: tidy_notifier_def)
qed (use assms(3) tidy_headers [OF assms(1,2)] in
    \<open>auto intro!: tidy_set_field [OF assms(1)] simp: webhook_texts [OF assms(2)] update_header_def trim_header_name_def
      remove_header_def add_header_def Let_def split: if_splits\<close>)

lemma tidy_notifier_change:
  assumes "tidy_notifier s" "notifier_control_shown isSaved isSaving s c" "notifier_change c s = Some s'"
  shows "tidy_notifier s'"
  using assms by (cases c) (auto intro: tidy_default tidy_change_telegram tidy_change_email
      tidy_change_webhook tidy_change_slack tidy_change_discord tidy_change_teams tidy_change_mattermost)

section \<open>The marks of a form and its completeness\<close>

text \<open>The fields of an email channel are marked by the conditions that keep it from being saved: with all
  of them left once, it is complete exactly when nothing is marked and no password is asked for again.\<close>

lemma smtp_port_mark: "is_smtp_port_invalid s \<longleftrightarrow> \<not> is_port_number (fld s ''smtpPort'')"
  by (cases "fld s ''smtpPort''") (auto simp: is_smtp_port_invalid_def is_port_number_def not_less)

lemma email_marks_iff_filled:
  assumes "has_type settings notifier_type_email"
  shows "is_notifier_settings_filled url settings isSaved savedSettings \<longleftrightarrow>
    email_field_errors {''targetEmail'', ''smtpHost'', ''smtpPort''} settings = []
    \<and> \<not> is_smtp_password_required_again (is_notifier_address_changed settings savedSettings) settings"
  using assms
  by (simp add: is_notifier_settings_filled_def validate_email_notifier_def email_field_errors_def
      is_target_email_invalid_def is_smtp_host_invalid_def smtp_port_mark
      is_smtp_password_required_again_def Let_def)

lemma webhook_filled:
  assumes "has_type settings notifier_type_webhook"
  shows "is_notifier_settings_filled url settings isSaved savedSettings =
    validate_webhook_notifier settings
      (if is_notifier_address_changed settings savedSettings then saved_webhook_headers savedSettings else [])"
proof -
  have "\<not> has_type settings t"
    if "t \<in> {notifier_type_email, notifier_type_telegram, notifier_type_slack, notifier_type_discord,
      notifier_type_teams, notifier_type_mattermost}" for t
    using that has_type_only [OF assms, of t] type_texts by auto
  then have "\<not> has_type settings notifier_type_email" "\<not> has_type settings notifier_type_telegram"
    "\<not> has_type settings notifier_type_slack" "\<not> has_type settings notifier_type_discord"
    "\<not> has_type settings notifier_type_teams" "\<not> has_type settings notifier_type_mattermost"
    by blast+
  then show ?thesis using assms
    by (cases savedSettings) (simp_all add: is_notifier_settings_filled_def saved_webhook_headers_def Let_def)
qed

text \<open>A webhook's rows are marked by the conditions that keep it from being saved.\<close>

lemma webhook_marks_iff_filled:
  assumes "has_type settings notifier_type_webhook"
  shows "is_notifier_settings_filled url settings isSaved savedSettings \<longleftrightarrow>
    given settings ''webhookUrl''
    \<and> list_all (\<lambda>h. is_webhook_header_name_valid (header_name h)
        \<and> \<not> is_header_value_required_again (is_notifier_address_changed settings savedSettings)
            (saved_webhook_headers savedSettings) h) (headers_of settings)"
  by (cases "is_notifier_address_changed settings savedSettings")
    (auto simp: webhook_filled [OF assms] validate_webhook_notifier_def is_header_value_required_again_def
      is_webhook_header_value_missing_def list_all_iff list_ex_iff)

section \<open>Ports and security\<close>

lemma email_security_name_inj: "email_security_name a = email_security_name b \<longleftrightarrow> a = b"
  by (cases a; cases b) simp_all

lemma email_security_of_set: "email_security_of (set_field ''security'' (JStr (email_security_name e)) s) = e"
  by (cases e) (simp_all add: email_security_of_def fld_set_field)

text \<open>Security that is the port's own goes with the port, however often the port changes.\<close>

lemma security_follows_the_port:
  assumes "email_security_of s = get_default_email_notifier_security (smtp_port s)"
  shows "email_security_of (foldl (\<lambda>s p. change_email (EmailPort p) s) s ports)
    = get_default_email_notifier_security (smtp_port (foldl (\<lambda>s p. change_email (EmailPort p) s) s ports))"
  using assms
proof (induction ports arbitrary: s)
  case (Cons p ports)
  have "email_security_of (change_email (EmailPort p) s)
      = get_default_email_notifier_security (smtp_port (change_email (EmailPort p) s))"
    using Cons.prems by (simp add: email_security_of_set get_security_after_port_change_def smtp_port_def
        fld_set_field)
  then show ?case using Cons.IH by simp
qed simp

text \<open>An unencrypted connection was chosen by hand, and no change of the port gives it up.\<close>

lemma chosen_security_stays:
  "email_security_of s = NoEncryption \<Longrightarrow> email_security_of (change_email (EmailPort p) s) = NoEncryption"
  by (simp add: email_security_of_set get_security_after_port_change_def
      get_default_email_notifier_security_def)

section \<open>Headers\<close>

text \<open>Leaving a header whose name has nothing to trim keeps the form as it is, its test included.\<close>

lemma leaving_a_trimmed_header:
  "trim (header_name (object_fields (header_items (nd_settings (nf_draft f)) ! i)))
     = header_name (object_fields (header_items (nd_settings (nf_draft f)) ! i))
   \<Longrightarrow> use_notifier_control (WebhookField (WebhookHeaderNameLeft i)) f = f"
  by (simp add: use_notifier_control_def trim_header_name_def)

text \<open>Leaving a header a second time never changes anything.\<close>

lemma trim_header_name_once:
  "i < length (header_items s) \<Longrightarrow> trim_header_name i s = Some s' \<Longrightarrow> trim_header_name i s' = None"
  by (auto simp: trim_header_name_def update_header_def header_items_def fld_set_field array_items_def
      object_fields_def text_field_def trim_idem Let_def split: if_splits)

lemma add_then_remove_header:
  "header_items (remove_header (length (header_items s)) (add_header s)) = header_items s"
  by (simp add: remove_header_def add_header_def header_items_def fld_set_field array_items_def)

section \<open>Templates\<close>

lemma replace_all_absent: "\<not> sublist pat s \<Longrightarrow> replace_all pat rep s = s"
  by (induction pat rep s rule: replace_all.induct) (auto simp: sublist_Cons_right)

lemma bare_word_is_no_json: "json_parse ''test'' = None"
  by (simp add: json_parse_def) code_simp

text \<open>A template whose variable is not within quotes is refused: the variable is replaced by a bare word.\<close>

lemma bare_variable_is_refused: "validate_json_template ''{{heading}}'' \<noteq> None"
proof -
  have "json_parse ''test'' = None" by (rule bare_word_is_no_json)
  moreover have "replace_all ''{{message}}'' ''test'' (replace_all ''{{heading}}'' ''test'' ''{{heading}}'') = ''test''"
    by simp
  moreover have "trim ''{{heading}}'' \<noteq> []" by code_simp
  ultimately show ?thesis by (simp add: validate_json_template_def)
qed

section \<open>The form\<close>

text \<open>Any use of the fields leaves the settings tidy.\<close>

theorem edited_notifier_stays_tidy:
  assumes "tidy_notifier (nd_settings (nf_draft f))"
  shows "tidy_notifier (nd_settings (nf_draft (foldl (\<lambda>f c. use_notifier_control c f) f controls)))"
  using assms
proof (induction controls arbitrary: f)
  case (Cons c controls)
  have "tidy_notifier (nd_settings (nf_draft (use_notifier_control c f)))"
    using Cons.prems tidy_notifier_change [OF Cons.prems]
    by (auto simp: use_notifier_control_def change_notifier_settings_def split: option.split)
  then show ?case using Cons.IH by simp
qed simp

text \<open>Only a tested form can be saved, and one that is can be saved or tested, never both.\<close>

lemma save_needs_a_test: "can_save_notifier url f \<Longrightarrow> is_notifier_tested f \<and> \<not> can_send_test_notification url f"
  by (simp add: can_save_notifier_def can_send_test_notification_def)

end
