(* ===== verification/Storage_Fields.thy ===== *)
theory Storage_Fields
  imports Notifier_Fields Storage_Draft
begin

text \<open>
  The fields of the storages (\<open>features/edit-storage/ui/edit/storages\<close>) and the form around them
  (\<open>EditStorageComponent.tsx\<close>): one control for each input, with the value the browser reports, when it
  can be reached, and the settings the form is told; \<open>None\<close> is a control that tells it nothing. Whether an editor's
  section with more settings is open is an argument. Markup and texts are not modelled.
\<close>

section \<open>S3 (EditS3StorageComponent.tsx)\<close>

datatype s3_control =
    S3Bucket string
  | S3Region string
  | S3AccessKey string
  | S3SecretKey string
  | S3Endpoint string
  | S3Prefix string
  | S3VirtualHost bool
  | S3SkipTls bool
  | S3Class string

definition has_s3_advanced_values :: "fields \<Rightarrow> bool" where
  "has_s3_advanced_values s \<longleftrightarrow> given s ''s3Prefix'' \<or> given s ''isVirtualHostedStyle''
     \<or> given s ''isSkipTlsVerify'' \<or> given s ''s3StorageClass''"

text \<open>A failed test that names a certificate opens the section with the setting for it.\<close>

definition s3_section_after_error :: "string option \<Rightarrow> bool \<Rightarrow> bool" where
  "s3_section_after_error connectionError isShowAdvanced = (case connectionError of
       Some e \<Rightarrow> if contains_text ''failed to verify certificate'' e then True else isShowAdvanced
     | None \<Rightarrow> isShowAdvanced)"

definition is_s3_access_key_required_again :: "bool \<Rightarrow> fields \<Rightarrow> bool" where
  "is_s3_access_key_required_again isAddressChanged s \<longleftrightarrow> isAddressChanged \<and> \<not> given s ''s3AccessKey''"

definition is_s3_secret_key_required_again :: "bool \<Rightarrow> fields \<Rightarrow> bool" where
  "is_s3_secret_key_required_again isAddressChanged s \<longleftrightarrow> isAddressChanged \<and> \<not> given s ''s3SecretKey''"

fun s3_control_enabled :: "bool \<Rightarrow> bool \<Rightarrow> s3_control \<Rightarrow> bool" where
  "s3_control_enabled isShowAdvanced isSaved (S3Prefix _) = (isShowAdvanced \<and> \<not> isSaved)"
| "s3_control_enabled isShowAdvanced isSaved (S3VirtualHost _) = isShowAdvanced"
| "s3_control_enabled isShowAdvanced isSaved (S3SkipTls _) = isShowAdvanced"
| "s3_control_enabled isShowAdvanced isSaved (S3Class _) = isShowAdvanced"
| "s3_control_enabled isShowAdvanced isSaved _ = True"

fun change_s3 :: "s3_control \<Rightarrow> fields \<Rightarrow> fields" where
  "change_s3 (S3Bucket t) s = set_field ''s3Bucket'' (trimmed_text t) s"
| "change_s3 (S3Region t) s = set_field ''s3Region'' (optional_trimmed_text t) s"
| "change_s3 (S3AccessKey t) s = set_field ''s3AccessKey'' (optional_trimmed_text t) s"
| "change_s3 (S3SecretKey t) s = set_field ''s3SecretKey'' (optional_trimmed_text t) s"
| "change_s3 (S3Endpoint t) s = set_field ''s3Endpoint'' (optional_trimmed_text t) s"
| "change_s3 (S3Prefix t) s = set_field ''s3Prefix'' (optional_trimmed_text t) s"
| "change_s3 (S3VirtualHost checked) s = set_field ''isVirtualHostedStyle'' (JBool checked) s"
| "change_s3 (S3SkipTls checked) s = set_field ''isSkipTlsVerify'' (JBool checked) s"
| "change_s3 (S3Class v) s = set_field ''s3StorageClass'' (if v = [] then JUndefined else JStr v) s"

section \<open>Azure Blob (EditAzureBlobStorageComponent.tsx)\<close>

datatype azure_control =
    AzureMethod string
  | AzureConnectionString string
  | AzureAccountName string
  | AzureAccountKey string
  | AzureContainer string
  | AzureEndpoint string
  | AzurePrefix string

definition has_azure_advanced_values :: "fields \<Rightarrow> bool" where
  "has_azure_advanced_values s \<longleftrightarrow> given s ''prefix'' \<or> given s ''endpoint''"

definition is_account_key_required_again :: "bool \<Rightarrow> fields \<Rightarrow> bool" where
  "is_account_key_required_again isAddressChanged s \<longleftrightarrow> isAddressChanged \<and> \<not> given s ''accountKey''"

fun azure_control_enabled :: "bool \<Rightarrow> bool \<Rightarrow> fields \<Rightarrow> azure_control \<Rightarrow> bool" where
  "azure_control_enabled isShowAdvanced isSaved s (AzureMethod m) = (m \<in> {''ACCOUNT_KEY'', ''CONNECTION_STRING''})"
| "azure_control_enabled isShowAdvanced isSaved s (AzureConnectionString _) =
     (fld s ''authMethod'' = JStr ''CONNECTION_STRING'')"
| "azure_control_enabled isShowAdvanced isSaved s (AzureAccountName _) = (fld s ''authMethod'' = JStr ''ACCOUNT_KEY'')"
| "azure_control_enabled isShowAdvanced isSaved s (AzureAccountKey _) = (fld s ''authMethod'' = JStr ''ACCOUNT_KEY'')"
| "azure_control_enabled isShowAdvanced isSaved s (AzureContainer _) = True"
| "azure_control_enabled isShowAdvanced isSaved s (AzureEndpoint _) =
     (isShowAdvanced \<and> fld s ''authMethod'' = JStr ''ACCOUNT_KEY'')"
| "azure_control_enabled isShowAdvanced isSaved s (AzurePrefix _) = (isShowAdvanced \<and> \<not> isSaved)"

fun change_azure :: "azure_control \<Rightarrow> fields \<Rightarrow> fields" where
  "change_azure (AzureMethod m) s = set_field ''authMethod'' (JStr m) s"
| "change_azure (AzureConnectionString t) s = set_field ''connectionString'' (optional_trimmed_text t) s"
| "change_azure (AzureAccountName t) s = set_field ''accountName'' (optional_trimmed_text t) s"
| "change_azure (AzureAccountKey t) s = set_field ''accountKey'' (optional_trimmed_text t) s"
| "change_azure (AzureContainer t) s = set_field ''containerName'' (trimmed_text t) s"
| "change_azure (AzureEndpoint t) s = set_field ''endpoint'' (optional_trimmed_text t) s"
| "change_azure (AzurePrefix t) s = set_field ''prefix'' (optional_trimmed_text t) s"

section \<open>SFTP (EditSFTPStorageComponent.tsx)\<close>

definition sftp_password :: string where "sftp_password = ''PASSWORD''"
definition sftp_private_key :: string where "sftp_private_key = ''PRIVATE_KEY''"

definition auth_methods :: "fields \<Rightarrow> jsval list" where
  "auth_methods s = array_items (fld s ''authMethods'')"

definition has_sftp_password :: "fields \<Rightarrow> bool" where
  "has_sftp_password s \<longleftrightarrow> JStr sftp_password \<in> set (auth_methods s)"

definition has_sftp_private_key :: "fields \<Rightarrow> bool" where
  "has_sftp_private_key s \<longleftrightarrow> JStr sftp_private_key \<in> set (auth_methods s)"

definition is_password_saved :: "bool \<Rightarrow> jsval list \<Rightarrow> bool" where
  "is_password_saved isAddressChanged savedAuthMethods \<longleftrightarrow>
     \<not> isAddressChanged \<and> JStr sftp_password \<in> set savedAuthMethods"

definition is_private_key_saved :: "bool \<Rightarrow> jsval list \<Rightarrow> bool" where
  "is_private_key_saved isAddressChanged savedAuthMethods \<longleftrightarrow>
     \<not> isAddressChanged \<and> JStr sftp_private_key \<in> set savedAuthMethods"

definition is_password_marked :: "bool \<Rightarrow> jsval list \<Rightarrow> fields \<Rightarrow> bool" where
  "is_password_marked isAddressChanged savedAuthMethods s \<longleftrightarrow> has_sftp_password s
     \<and> \<not> given s ''password'' \<and> \<not> is_password_saved isAddressChanged savedAuthMethods"

definition is_private_key_marked :: "bool \<Rightarrow> jsval list \<Rightarrow> fields \<Rightarrow> bool" where
  "is_private_key_marked isAddressChanged savedAuthMethods s \<longleftrightarrow> has_sftp_private_key s
     \<and> \<not> given s ''privateKey'' \<and> \<not> is_private_key_saved isAddressChanged savedAuthMethods"

text \<open>The line under a secret: a stored one, one that is asked for (again), or nothing to say.\<close>

definition missing_secret_text :: "bool \<Rightarrow> string \<Rightarrow> string" where
  "missing_secret_text isAddressChanged requiredKey =
     (if isAddressChanged then ''common.messages.addressChangedEnterSecretAgain''
      else ''storages.edit.sftp.'' @ requiredKey)"

definition password_help :: "bool \<Rightarrow> jsval list \<Rightarrow> fields \<Rightarrow> string option" where
  "password_help isAddressChanged savedAuthMethods s =
     (if is_password_saved isAddressChanged savedAuthMethods then Some ''storages.edit.sftp.savedPassword''
      else if \<not> given s ''password'' then Some (missing_secret_text isAddressChanged ''requiredPassword'')
      else None)"

definition private_key_help :: "bool \<Rightarrow> jsval list \<Rightarrow> fields \<Rightarrow> string" where
  "private_key_help isAddressChanged savedAuthMethods s =
     (if is_private_key_saved isAddressChanged savedAuthMethods then ''storages.edit.sftp.savedPrivateKey''
      else if \<not> given s ''privateKey'' then missing_secret_text isAddressChanged ''requiredPrivateKey''
      else ''storages.edit.sftp.privateKeyTooltip'')"

definition shown_auth_method :: "fields \<Rightarrow> jsval" where
  "shown_auth_method s =
     (if has_sftp_password s \<and> has_sftp_private_key s then JStr ''BOTH''
      else case auth_methods s of m # _ \<Rightarrow> m | [] \<Rightarrow> JUndefined)"

datatype sftp_control =
    SftpHost string
  | SftpPort "number option"
  | SftpUsername string
  | SftpMethod string
  | SftpPassword string
  | SftpPrivateKey string
  | SftpPath string
  | SftpSkipHostKey bool

definition change_sftp_method :: "string \<Rightarrow> fields \<Rightarrow> fields" where
  "change_sftp_method method s =
     (let authMethods = (if method = ''BOTH'' then [JStr sftp_password, JStr sftp_private_key] else [JStr method])
      in set_field ''privateKey'' (if JStr sftp_private_key \<in> set authMethods then fld s ''privateKey'' else JUndefined)
          (set_field ''password'' (if JStr sftp_password \<in> set authMethods then fld s ''password'' else JUndefined)
            (set_field ''authMethods'' (JArr authMethods) s)))"

text \<open>A number field that was emptied reports \<open>null\<close>, \<open>None\<close> here, and like 0 it changes nothing.\<close>

definition change_port :: "number option \<Rightarrow> fields \<Rightarrow> fields option" where
  "change_port port s = (case port of
       Some p \<Rightarrow> if p = 0 then None else Some (set_field ''port'' (JNum p) s) | None \<Rightarrow> None)"

text \<open>The section of the skipped host key is hidden while it is closed.\<close>

fun sftp_control_shown :: "bool \<Rightarrow> fields \<Rightarrow> sftp_control \<Rightarrow> bool" where
  "sftp_control_shown isShowAdvanced s (SftpMethod m) = (m \<in> {sftp_password, sftp_private_key, ''BOTH''})"
| "sftp_control_shown isShowAdvanced s (SftpPassword _) = has_sftp_password s"
| "sftp_control_shown isShowAdvanced s (SftpPrivateKey _) = has_sftp_private_key s"
| "sftp_control_shown isShowAdvanced s (SftpSkipHostKey _) = isShowAdvanced"
| "sftp_control_shown isShowAdvanced s _ = True"

fun change_sftp :: "sftp_control \<Rightarrow> fields \<Rightarrow> fields option" where
  "change_sftp (SftpHost t) s = Some (set_field ''host'' (trimmed_text t) s)"
| "change_sftp (SftpPort p) s = change_port p s"
| "change_sftp (SftpUsername t) s = Some (set_field ''username'' (trimmed_text t) s)"
| "change_sftp (SftpMethod m) s = Some (change_sftp_method m s)"
| "change_sftp (SftpPassword t) s = Some (set_field ''password'' (optional_text (JStr t)) s)"
| "change_sftp (SftpPrivateKey t) s = Some (set_field ''privateKey'' (optional_text (JStr t)) s)"
| "change_sftp (SftpPath t) s = Some (set_field ''path'' (optional_text (JStr t)) s)"
| "change_sftp (SftpSkipHostKey checked) s = Some (set_field ''isSkipHostKeyVerify'' (JBool checked) s)"

section \<open>NAS and FTP (EditNASStorageComponent.tsx, EditFTPStorageComponent.tsx)\<close>

text \<open>The path within the share goes without its first slash.\<close>

definition path_value :: "string \<Rightarrow> jsval" where
  "path_value text = (let pathValue = trim text
     in optional_text (JStr (if prefix ''/'' pathValue then drop 1 pathValue else pathValue)))"

definition is_storage_password_required_again :: "bool \<Rightarrow> fields \<Rightarrow> bool" where
  "is_storage_password_required_again isAddressChanged s \<longleftrightarrow> isAddressChanged \<and> \<not> given s ''password''"

definition share_has_slash :: "fields \<Rightarrow> bool" where
  "share_has_slash s \<longleftrightarrow> CHR ''/'' \<in> set (text_field s ''share'') \<or> CHR 0x5C \<in> set (text_field s ''share'')"

datatype nas_control =
    NasHost string
  | NasPort "number option"
  | NasShare string
  | NasUsername string
  | NasPassword string
  | NasSsl bool
  | NasDomain string
  | NasPath string

fun change_nas :: "nas_control \<Rightarrow> fields \<Rightarrow> fields option" where
  "change_nas (NasHost t) s = Some (set_field ''host'' (trimmed_text t) s)"
| "change_nas (NasPort p) s = change_port p s"
| "change_nas (NasShare t) s = Some (set_field ''share'' (trimmed_text t) s)"
| "change_nas (NasUsername t) s = Some (set_field ''username'' (trimmed_text t) s)"
| "change_nas (NasPassword t) s = Some (set_field ''password'' (optional_text (JStr t)) s)"
| "change_nas (NasSsl checked) s = Some (set_field ''isSsl'' (JBool checked) s)"
| "change_nas (NasDomain t) s = Some (set_field ''domain'' (optional_trimmed_text t) s)"
| "change_nas (NasPath t) s = Some (set_field ''path'' (path_value t) s)"

datatype ftp_control =
    FtpHost string
  | FtpPort "number option"
  | FtpUsername string
  | FtpPassword string
  | FtpPath string
  | FtpSsl bool
  | FtpSkipTls bool

fun ftp_control_shown :: "bool \<Rightarrow> fields \<Rightarrow> ftp_control \<Rightarrow> bool" where
  "ftp_control_shown isShowAdvanced s (FtpSkipTls _) = (isShowAdvanced \<and> given s ''isSsl'')"
| "ftp_control_shown isShowAdvanced s _ = True"

fun change_ftp :: "ftp_control \<Rightarrow> fields \<Rightarrow> fields option" where
  "change_ftp (FtpHost t) s = Some (set_field ''host'' (trimmed_text t) s)"
| "change_ftp (FtpPort p) s = change_port p s"
| "change_ftp (FtpUsername t) s = Some (set_field ''username'' (trimmed_text t) s)"
| "change_ftp (FtpPassword t) s = Some (set_field ''password'' (optional_text (JStr t)) s)"
| "change_ftp (FtpPath t) s = Some (set_field ''path'' (path_value t) s)"
| "change_ftp (FtpSsl checked) s = Some (set_field ''isSsl'' (JBool checked) s)"
| "change_ftp (FtpSkipTls checked) s = Some (set_field ''isSkipTlsVerify'' (JBool checked) s)"

section \<open>Rclone and Google Drive\<close>

datatype rclone_control = RcloneConfig string | RclonePath string

fun change_rclone :: "rclone_control \<Rightarrow> fields \<Rightarrow> fields" where
  "change_rclone (RcloneConfig t) s = set_field ''configContent'' (optional_text (JStr t)) s"
| "change_rclone (RclonePath t) s = set_field ''remotePath'' (optional_trimmed_text t) s"

datatype drive_control = DriveClientId string | DriveClientSecret string

fun change_drive :: "drive_control \<Rightarrow> fields \<Rightarrow> fields" where
  "change_drive (DriveClientId t) s = set_field ''clientId'' (trimmed_text t) s"
| "change_drive (DriveClientSecret t) s = set_field ''clientSecret'' (optional_trimmed_text t) s"

definition has_drive_authorization :: "fields \<Rightarrow> string option \<Rightarrow> bool" where
  "has_drive_authorization s storageId \<longleftrightarrow> given s ''tokenJson'' \<or> truthy storageId"

definition can_start_authorization :: "fields \<Rightarrow> bool" where
  "can_start_authorization s \<longleftrightarrow> given s ''clientId'' \<and> given s ''clientSecret''"

definition authorization_button :: "bool \<Rightarrow> bool \<Rightarrow> fields \<Rightarrow> string option \<Rightarrow> string" where
  "authorization_button isPending hasError s storageId =
     (if isPending \<or> hasError then ''storages.edit.googleDrive.restart''
      else if has_drive_authorization s storageId then ''storages.edit.googleDrive.reconnect''
      else ''storages.edit.googleDrive.authorize'')"

section \<open>The form (EditStorageComponent.tsx)\<close>

definition storage_type_options :: "string list" where
  "storage_type_options = [storage_type_local, storage_type_s3, storage_type_google_drive, storage_type_nas,
     storage_type_azure_blob, storage_type_ftp, storage_type_sftp, storage_type_rclone]"

datatype storage_field_control =
    StorageType string
  | S3Field bool s3_control
  | AzureField bool azure_control
  | SftpField bool sftp_control
  | NasField nas_control
  | FtpField bool ftp_control
  | RcloneField rclone_control
  | DriveField drive_control

text \<open>Each editor is on the screen for its type only; a saved storage keeps its type, and the list of
  types is disabled while a save is on its way.\<close>

fun storage_control_enabled :: "bool \<Rightarrow> bool \<Rightarrow> fields \<Rightarrow> storage_field_control \<Rightarrow> bool" where
  "storage_control_enabled isSaved isSaving s (StorageType t) =
     (\<not> isSaved \<and> \<not> isSaving \<and> t \<in> set storage_type_options)"
| "storage_control_enabled isSaved isSaving s (S3Field adv c) =
     (has_type s storage_type_s3 \<and> s3_control_enabled adv isSaved c)"
| "storage_control_enabled isSaved isSaving s (AzureField adv c) =
     (has_type s storage_type_azure_blob \<and> azure_control_enabled adv isSaved s c)"
| "storage_control_enabled isSaved isSaving s (SftpField adv c) =
     (has_type s storage_type_sftp \<and> sftp_control_shown adv s c)"
| "storage_control_enabled isSaved isSaving s (NasField c) = has_type s storage_type_nas"
| "storage_control_enabled isSaved isSaving s (FtpField adv c) =
     (has_type s storage_type_ftp \<and> ftp_control_shown adv s c)"
| "storage_control_enabled isSaved isSaving s (RcloneField c) = has_type s storage_type_rclone"
| "storage_control_enabled isSaved isSaving s (DriveField c) = has_type s storage_type_google_drive"

fun storage_change :: "storage_field_control \<Rightarrow> fields \<Rightarrow> fields option" where
  "storage_change (StorageType t) s = Some (create_default_storage_settings t)"
| "storage_change (S3Field _ c) s = Some (change_s3 c s)"
| "storage_change (AzureField _ c) s = Some (change_azure c s)"
| "storage_change (SftpField _ c) s = change_sftp c s"
| "storage_change (NasField c) s = change_nas c s"
| "storage_change (FtpField _ c) s = change_ftp c s"
| "storage_change (RcloneField c) s = Some (change_rclone c s)"
| "storage_change (DriveField c) s = Some (change_drive c s)"

definition saved_auth_methods :: "fields option \<Rightarrow> jsval list" where
  "saved_auth_methods savedSettings = (case savedSettings of
       Some saved \<Rightarrow> if has_type saved storage_type_sftp then auth_methods saved else []
     | None \<Rightarrow> [])"

definition is_all_storage_data_filled :: "string \<Rightarrow> fields \<Rightarrow> bool \<Rightarrow> fields option \<Rightarrow> bool" where
  "is_all_storage_data_filled name settings isSaved savedSettings \<longleftrightarrow>
     name \<noteq> [] \<and> is_storage_settings_filled settings isSaved savedSettings"

definition can_test_storage :: "'e storage_form \<Rightarrow> bool" where
  "can_test_storage f \<longleftrightarrow> \<not> is_tested f \<and> \<not> sd_isTesting f
     \<and> is_all_storage_data_filled (dr_name (sd_draft f)) (dr_settings (sd_draft f))
          (sd_storageId f \<noteq> None) (sd_savedSettings f)"

definition can_save_storage :: "'e storage_form \<Rightarrow> bool" where
  "can_save_storage f \<longleftrightarrow> is_unsaved f \<and> is_tested f \<and> \<not> sd_isSaving f
     \<and> is_all_storage_data_filled (dr_name (sd_draft f)) (dr_settings (sd_draft f))
          (sd_storageId f \<noteq> None) (sd_savedSettings f)"

definition use_storage_control :: "storage_field_control \<Rightarrow> 'e storage_form \<Rightarrow> 'e storage_form" where
  "use_storage_control c f =
     (if storage_control_enabled (sd_storageId f \<noteq> None) (sd_isSaving f) (dr_settings (sd_draft f)) c
      then (case storage_change c (dr_settings (sd_draft f)) of
              Some changed \<Rightarrow> change_settings changed f | None \<Rightarrow> f)
      else f)"

section \<open>Every edit leaves the settings tidy\<close>

lemma storage_type_distinct: "distinct [storage_type_local, storage_type_s3, storage_type_google_drive,
    storage_type_nas, storage_type_azure_blob, storage_type_ftp, storage_type_sftp, storage_type_rclone]"
  by (simp add: storage_types)

definition required_storage_texts :: "fields \<Rightarrow> string list" where
  "required_storage_texts s =
     (if has_type s storage_type_s3 then [''s3Bucket'']
      else if has_type s storage_type_google_drive then [''clientId'']
      else if has_type s storage_type_nas then [''host'', ''share'', ''username'']
      else if has_type s storage_type_azure_blob then [''containerName'']
      else if has_type s storage_type_ftp \<or> has_type s storage_type_sftp then [''host'', ''username'']
      else [])"

definition optional_storage_texts :: "fields \<Rightarrow> string list" where
  "optional_storage_texts s =
     (if has_type s storage_type_s3
      then [''s3Region'', ''s3AccessKey'', ''s3SecretKey'', ''s3Endpoint'', ''s3Prefix'']
      else if has_type s storage_type_google_drive then [''clientSecret'']
      else if has_type s storage_type_nas then [''domain'']
      else if has_type s storage_type_azure_blob
      then [''connectionString'', ''accountName'', ''accountKey'', ''endpoint'', ''prefix'']
      else if has_type s storage_type_rclone then [''remotePath''] else [])"

definition tidy_storage_texts :: "fields \<Rightarrow> bool" where
  "tidy_storage_texts s \<longleftrightarrow> list_all (\<lambda>k. is_trimmed (fld s k)) (required_storage_texts s)
     \<and> list_all (\<lambda>k. is_optional_trimmed (fld s k)) (optional_storage_texts s)"

text \<open>An SFTP storage has one of its two secrets or both, and no secret of a method it does not use.\<close>

definition used_methods_only :: "fields \<Rightarrow> bool" where
  "used_methods_only s \<longleftrightarrow> (has_type s storage_type_sftp \<longrightarrow>
     (has_sftp_password s \<or> has_sftp_private_key s)
     \<and> (given s ''password'' \<longrightarrow> has_sftp_password s)
     \<and> (given s ''privateKey'' \<longrightarrow> has_sftp_private_key s))"

text \<open>The storages with a port always have one.\<close>

definition port_entered :: "fields \<Rightarrow> bool" where
  "port_entered s \<longleftrightarrow>
     (has_type s storage_type_nas \<or> has_type s storage_type_ftp \<or> has_type s storage_type_sftp
      \<longrightarrow> given s ''port'')"

definition tidy_storage :: "fields \<Rightarrow> bool" where
  "tidy_storage s \<longleftrightarrow> tidy_storage_texts s \<and> used_methods_only s \<and> port_entered s"

lemma tidy_storage_texts_set_field:
  assumes "tidy_storage_texts s" "k \<noteq> ''type''"
    and "k \<in> set (required_storage_texts s) \<Longrightarrow> is_trimmed v"
    and "k \<in> set (optional_storage_texts s) \<Longrightarrow> is_optional_trimmed v"
  shows "tidy_storage_texts (set_field k v s)"
proof -
  have "required_storage_texts (set_field k v s) = required_storage_texts s"
    "optional_storage_texts (set_field k v s) = optional_storage_texts s"
    using assms(2) by (simp_all add: required_storage_texts_def optional_storage_texts_def has_type_set_field)
  then show ?thesis
    using assms by (auto simp: tidy_storage_texts_def list_all_iff fld_set_field)
qed

lemma used_methods_only_set_field:
  assumes "used_methods_only s" "k \<noteq> ''type''" "k \<noteq> ''authMethods''" "k \<noteq> ''password''" "k \<noteq> ''privateKey''"
  shows "used_methods_only (set_field k v s)"
  using assms by (simp add: used_methods_only_def has_type_set_field given_set_field
      has_sftp_password_def has_sftp_private_key_def auth_methods_def fld_set_field)

lemma port_entered_set_field:
  assumes "port_entered s" "k \<noteq> ''type''" "k = ''port'' \<Longrightarrow> js_truthy v"
  shows "port_entered (set_field k v s)"
  using assms by (auto simp: port_entered_def has_type_set_field given_set_field)

lemma tidy_storage_set_field:
  assumes "tidy_storage s" "k \<notin> {''type'', ''authMethods'', ''password'', ''privateKey'', ''port''}"
    and "k \<in> set (required_storage_texts s) \<Longrightarrow> is_trimmed v"
    and "k \<in> set (optional_storage_texts s) \<Longrightarrow> is_optional_trimmed v"
  shows "tidy_storage (set_field k v s)"
  using assms by (auto simp: tidy_storage_def
      intro!: tidy_storage_texts_set_field used_methods_only_set_field port_entered_set_field)

text \<open>The secrets and methods of other storages are free.\<close>

lemma tidy_storage_secret:
  assumes "tidy_storage s" "\<not> has_type s storage_type_sftp" "k \<noteq> ''type''" "k \<noteq> ''port''"
    and "k \<notin> set (required_storage_texts s)" "k \<notin> set (optional_storage_texts s)"
  shows "tidy_storage (set_field k v s)"
  using assms by (auto simp: tidy_storage_def used_methods_only_def has_type_set_field
      intro!: tidy_storage_texts_set_field port_entered_set_field)

lemma no_other_storage_type:
  assumes "has_type s t" "u \<noteq> t" shows "\<not> has_type s u"
  using assms has_type_only by blast

lemma s3_texts:
  assumes "has_type s storage_type_s3"
  shows "required_storage_texts s = [''s3Bucket'']"
    and "optional_storage_texts s = [''s3Region'', ''s3AccessKey'', ''s3SecretKey'', ''s3Endpoint'', ''s3Prefix'']"
  using assms by (simp_all add: required_storage_texts_def optional_storage_texts_def)

lemma drive_texts:
  assumes "has_type s storage_type_google_drive"
  shows "required_storage_texts s = [''clientId'']" and "optional_storage_texts s = [''clientSecret'']"
  using assms by (simp_all add: required_storage_texts_def optional_storage_texts_def has_type_only [OF assms] storage_types)

lemma nas_texts:
  assumes "has_type s storage_type_nas"
  shows "required_storage_texts s = [''host'', ''share'', ''username'']"
    and "optional_storage_texts s = [''domain'']"
  using assms by (simp_all add: required_storage_texts_def optional_storage_texts_def has_type_only [OF assms] storage_types)

lemma azure_texts:
  assumes "has_type s storage_type_azure_blob"
  shows "required_storage_texts s = [''containerName'']"
    and "optional_storage_texts s = [''connectionString'', ''accountName'', ''accountKey'', ''endpoint'', ''prefix'']"
  using assms by (simp_all add: required_storage_texts_def optional_storage_texts_def has_type_only [OF assms] storage_types)

lemma ftp_texts:
  assumes "has_type s storage_type_ftp"
  shows "required_storage_texts s = [''host'', ''username'']" and "optional_storage_texts s = []"
  using assms by (simp_all add: required_storage_texts_def optional_storage_texts_def has_type_only [OF assms] storage_types)

lemma sftp_texts:
  assumes "has_type s storage_type_sftp"
  shows "required_storage_texts s = [''host'', ''username'']" and "optional_storage_texts s = []"
  using assms by (simp_all add: required_storage_texts_def optional_storage_texts_def has_type_only [OF assms] storage_types)

lemma rclone_texts:
  assumes "has_type s storage_type_rclone"
  shows "required_storage_texts s = []" and "optional_storage_texts s = [''remotePath'']"
  using assms by (simp_all add: required_storage_texts_def optional_storage_texts_def has_type_only [OF assms] storage_types)

lemma tidy_port:
  assumes "tidy_storage s" "''port'' \<notin> set (required_storage_texts s)" "''port'' \<notin> set (optional_storage_texts s)"
    and "change_port p s = Some s'"
  shows "tidy_storage s'"
  using assms by (auto simp: change_port_def tidy_storage_def js_truthy_def split: option.splits if_splits
      intro!: tidy_storage_texts_set_field used_methods_only_set_field port_entered_set_field)

lemma tidy_change_s3:
  assumes "tidy_storage s" "has_type s storage_type_s3"
  shows "tidy_storage (change_s3 c s)"
  by (cases c) (auto intro!: tidy_storage_set_field [OF assms(1)] simp: s3_texts [OF assms(2)])

lemma tidy_change_azure:
  assumes "tidy_storage s" "has_type s storage_type_azure_blob"
  shows "tidy_storage (change_azure c s)"
  by (cases c) (auto intro!: tidy_storage_set_field [OF assms(1)] simp: azure_texts [OF assms(2)])

lemma tidy_change_rclone:
  assumes "tidy_storage s" "has_type s storage_type_rclone"
  shows "tidy_storage (change_rclone c s)"
  by (cases c) (auto intro!: tidy_storage_set_field [OF assms(1)] simp: rclone_texts [OF assms(2)])

lemma tidy_change_drive:
  assumes "tidy_storage s" "has_type s storage_type_google_drive"
  shows "tidy_storage (change_drive c s)"
  by (cases c) (auto intro!: tidy_storage_set_field [OF assms(1)] simp: drive_texts [OF assms(2)])

lemma tidy_change_nas:
  assumes "tidy_storage s" "has_type s storage_type_nas" "change_nas c s = Some s'"
  shows "tidy_storage s'"
proof -
  have other: "\<not> has_type s storage_type_sftp"
    using no_other_storage_type [OF assms(2)] storage_type_distinct by auto
  show ?thesis
  proof (cases c)
    case (NasPassword t)
    then show ?thesis using assms(3)
      by (auto intro!: tidy_storage_secret [OF assms(1) other] simp: nas_texts [OF assms(2)])
  qed (use assms(3) tidy_port [OF assms(1)] in
      \<open>auto intro!: tidy_storage_set_field [OF assms(1)] simp: nas_texts [OF assms(2)]\<close>)
qed

lemma tidy_change_ftp:
  assumes "tidy_storage s" "has_type s storage_type_ftp" "change_ftp c s = Some s'"
  shows "tidy_storage s'"
proof -
  have other: "\<not> has_type s storage_type_sftp"
    using no_other_storage_type [OF assms(2)] storage_type_distinct by auto
  show ?thesis
  proof (cases c)
    case (FtpPassword t)
    then show ?thesis using assms(3)
      by (auto intro!: tidy_storage_secret [OF assms(1) other] simp: ftp_texts [OF assms(2)])
  qed (use assms(3) tidy_port [OF assms(1)] in
      \<open>auto intro!: tidy_storage_set_field [OF assms(1)] simp: ftp_texts [OF assms(2)]\<close>)
qed

lemma tidy_sftp_secret:
  assumes "tidy_storage s" "has_type s storage_type_sftp"
    and "k = ''password'' \<and> has_sftp_password s \<or> k = ''privateKey'' \<and> has_sftp_private_key s"
  shows "tidy_storage (set_field k v s)"
proof -
  have "tidy_storage_texts (set_field k v s)" "port_entered (set_field k v s)"
    using assms by (auto simp: tidy_storage_def sftp_texts [OF assms(2)]
        intro!: tidy_storage_texts_set_field port_entered_set_field)
  moreover have "used_methods_only (set_field k v s)"
    using assms by (auto simp: tidy_storage_def used_methods_only_def given_set_field has_sftp_password_def
        has_sftp_private_key_def auth_methods_def fld_set_field)
  ultimately show ?thesis by (simp add: tidy_storage_def)
qed

lemma tidy_sftp_method:
  assumes "tidy_storage s" "has_type s storage_type_sftp"
    and "m \<in> {sftp_password, sftp_private_key, ''BOTH''}"
  shows "tidy_storage (change_sftp_method m s)"
proof -
  have "tidy_storage_texts s" "port_entered s" using assms(1) by (simp_all add: tidy_storage_def)
  then have "tidy_storage_texts (change_sftp_method m s)" "port_entered (change_sftp_method m s)"
    unfolding change_sftp_method_def Let_def
    by (auto intro!: tidy_storage_texts_set_field port_entered_set_field
        simp: required_storage_texts_def optional_storage_texts_def has_type_set_field
          has_type_only [OF assms(2)] storage_types)
  moreover have "used_methods_only (change_sftp_method m s)"
    using assms(3) by (auto simp: used_methods_only_def change_sftp_method_def given_set_field js_truthy_def
        has_sftp_password_def has_sftp_private_key_def auth_methods_def fld_set_field array_items_def
        sftp_password_def sftp_private_key_def Let_def)
  ultimately show ?thesis by (simp add: tidy_storage_def)
qed

lemma tidy_change_sftp:
  assumes "tidy_storage s" "has_type s storage_type_sftp" "sftp_control_shown adv s c" "change_sftp c s = Some s'"
  shows "tidy_storage s'"
proof (cases c)
  case (SftpPassword t)
  then show ?thesis using assms(3,4) by (auto intro: tidy_sftp_secret [OF assms(1,2)])
next
  case (SftpPrivateKey t)
  then show ?thesis using assms(3,4) by (auto intro: tidy_sftp_secret [OF assms(1,2)])
next
  case (SftpMethod m)
  then show ?thesis using assms(3,4) tidy_sftp_method [OF assms(1,2)] by auto
qed (use assms(4) tidy_port [OF assms(1)] in
    \<open>auto intro!: tidy_storage_set_field [OF assms(1)] simp: sftp_texts [OF assms(2)]\<close>)

lemma tidy_default_local: "tidy_storage (create_default_storage_settings storage_type_local)"
  and tidy_default_s3: "tidy_storage (create_default_storage_settings storage_type_s3)"
  and tidy_default_drive: "tidy_storage (create_default_storage_settings storage_type_google_drive)"
  and tidy_default_nas: "tidy_storage (create_default_storage_settings storage_type_nas)"
  and tidy_default_azure: "tidy_storage (create_default_storage_settings storage_type_azure_blob)"
  and tidy_default_ftp: "tidy_storage (create_default_storage_settings storage_type_ftp)"
  and tidy_default_sftp: "tidy_storage (create_default_storage_settings storage_type_sftp)"
  and tidy_default_rclone: "tidy_storage (create_default_storage_settings storage_type_rclone)"
  by (simp_all add: storage_types create_default_storage_settings_def tidy_storage_def tidy_storage_texts_def
      required_storage_texts_def optional_storage_texts_def used_methods_only_def port_entered_def has_type_def
      fld_def given_def js_truthy_def has_sftp_password_def has_sftp_private_key_def auth_methods_def
      array_items_def sftp_password_def sftp_private_key_def)

lemma tidy_storage_default:
  "t \<in> set storage_type_options \<Longrightarrow> tidy_storage (create_default_storage_settings t)"
  using tidy_default_local tidy_default_s3 tidy_default_drive tidy_default_nas tidy_default_azure
    tidy_default_ftp tidy_default_sftp tidy_default_rclone
  by (auto simp only: storage_type_options_def set_simps insert_iff empty_iff)

lemma tidy_storage_change:
  assumes "tidy_storage s" "storage_control_enabled isSaved isSaving s c" "storage_change c s = Some s'"
  shows "tidy_storage s'"
  using assms by (cases c) (auto intro: tidy_storage_default tidy_change_s3 tidy_change_azure tidy_change_sftp
      tidy_change_nas tidy_change_ftp tidy_change_rclone tidy_change_drive)

text \<open>Any use of the fields leaves the settings tidy.\<close>

theorem edited_storage_stays_tidy:
  assumes "tidy_storage (dr_settings (sd_draft f))"
  shows "tidy_storage (dr_settings (sd_draft (foldl (\<lambda>f c. use_storage_control c f) f controls)))"
  using assms
proof (induction controls arbitrary: f)
  case (Cons c controls)
  have "tidy_storage (dr_settings (sd_draft (use_storage_control c f)))"
    using Cons.prems tidy_storage_change [OF Cons.prems]
    by (auto simp: use_storage_control_def change_settings_def invalidate_test_def Let_def split: option.split)
  then show ?case using Cons.IH by simp
qed simp

section \<open>The folder of a saved storage\<close>

definition storage_prefixes :: "string list" where
  "storage_prefixes = [''s3Prefix'', ''prefix'']"

lemma saved_prefix_kept:
  assumes "storage_control_enabled True isSaving s c" "storage_change c s = Some s'" "k \<in> set storage_prefixes"
  shows "fld s' k = fld s k"
proof (cases c)
  case (S3Field adv d)
  then show ?thesis using assms by (cases d) (auto simp: storage_prefixes_def fld_set_field)
next
  case (AzureField adv d)
  then show ?thesis using assms by (cases d) (auto simp: storage_prefixes_def fld_set_field)
next
  case (SftpField adv d)
  then show ?thesis using assms by (cases d)
    (auto simp: storage_prefixes_def fld_set_field change_port_def change_sftp_method_def Let_def
      split: option.splits if_splits)
next
  case (NasField d)
  then show ?thesis using assms by (cases d)
    (auto simp: storage_prefixes_def fld_set_field change_port_def split: option.splits if_splits)
next
  case (FtpField adv d)
  then show ?thesis using assms by (cases d)
    (auto simp: storage_prefixes_def fld_set_field change_port_def split: option.splits if_splits)
next
  case (RcloneField d)
  then show ?thesis using assms by (cases d) (auto simp: storage_prefixes_def fld_set_field)
next
  case (DriveField d)
  then show ?thesis using assms by (cases d) (auto simp: storage_prefixes_def fld_set_field)
qed (use assms in simp)

lemma controls_keep_storage_id: "sd_storageId (use_storage_control c f) = sd_storageId f"
  by (simp add: use_storage_control_def change_settings_def invalidate_test_def Let_def split: option.split)

text \<open>C40: The folder that the files of a saved storage are named under is fixed: no use of the fields, in
  any order and any number, changes it.\<close>

theorem saved_storage_keeps_its_folder:
  assumes "sd_storageId f \<noteq> None" and "k \<in> set storage_prefixes"
  shows "fld (dr_settings (sd_draft (foldl (\<lambda>f c. use_storage_control c f) f controls))) k
    = fld (dr_settings (sd_draft f)) k"
  using assms(1)
proof (induction controls arbitrary: f)
  case (Cons c controls)
  have "fld (dr_settings (sd_draft (use_storage_control c f))) k = fld (dr_settings (sd_draft f)) k"
    using Cons.prems saved_prefix_kept [OF _ _ assms(2)]
    by (auto simp: use_storage_control_def change_settings_def invalidate_test_def Let_def split: option.split)
  then show ?case using Cons.IH [of "use_storage_control c f"] Cons.prems
    by (simp add: controls_keep_storage_id)
qed simp

definition saved_s3_form :: "nat storage_form" where
  "saved_s3_form = new_storage_form \<lparr>op_workspaceId = ''w'', op_editingStorage = Some
     \<lparr>so_id = ''s'', so_name = ''backups'',
      so_settings = [(''type'', JStr ''S3''), (''s3Bucket'', JStr ''b''), (''s3Prefix'', JStr ''daily/'')]\<rparr>,
     op_draft = None\<rparr>"

theorem saved_storage_keeps_its_folder_witness:
  "fld (dr_settings (sd_draft (foldl (\<lambda>f c. use_storage_control c f) saved_s3_form
      [S3Field True (S3Prefix ''weekly/''), S3Field True (S3Bucket '' c '')]))) ''s3Prefix'' = JStr ''daily/''"
  by (subst saved_storage_keeps_its_folder)
    (simp_all add: saved_s3_form_def new_storage_form_def create_draft_def storage_prefixes_def fld_def Let_def)

section \<open>The marks of an SFTP storage and its completeness\<close>

lemma sftp_filled:
  assumes "has_type settings storage_type_sftp"
  shows "is_storage_settings_filled settings isSaved savedSettings \<longleftrightarrow>
    given settings ''host'' \<and> given settings ''port'' \<and> given settings ''username''
    \<and> auth_methods settings \<noteq> []
    \<and> list_all (\<lambda>m. given settings (if m = JStr ''PASSWORD'' then ''password'' else ''privateKey'')
         \<or> isSaved \<and> \<not> is_storage_address_changed settings savedSettings
           \<and> m \<in> set (saved_auth_methods savedSettings)) (auth_methods settings)"
proof -
  have "\<not> has_type settings t"
    if "t \<in> {storage_type_local, storage_type_s3, storage_type_google_drive, storage_type_nas,
      storage_type_azure_blob, storage_type_ftp}" for t
    using that has_type_only [OF assms, of t] storage_type_distinct by auto
  then have other: "\<not> has_type settings storage_type_local" "\<not> has_type settings storage_type_s3"
    "\<not> has_type settings storage_type_google_drive" "\<not> has_type settings storage_type_nas"
    "\<not> has_type settings storage_type_azure_blob" "\<not> has_type settings storage_type_ftp"
    by blast+
  have saved: "m \<in> set (saved_auth_methods savedSettings) \<longleftrightarrow> (case savedSettings of None \<Rightarrow> False
      | Some saved \<Rightarrow> has_type saved storage_type_sftp \<and> m \<in> set (array_items (fld saved ''authMethods'')))" for m
    by (auto simp: saved_auth_methods_def auth_methods_def split: option.split)
  show ?thesis unfolding is_storage_settings_filled_def Let_def
    using assms other by (simp add: saved given_def auth_methods_def)
qed

text \<open>A secret of an SFTP storage is marked by the condition that keeps the storage from being tested and
  saved: with its address filled in, it is complete exactly when no secret is marked.\<close>

lemma sftp_marks_iff_filled:
  assumes "has_type settings storage_type_sftp"
    and "auth_methods settings \<noteq> []" "set (auth_methods settings) \<subseteq> {JStr sftp_password, JStr sftp_private_key}"
    and "given settings ''host''" "given settings ''port''" "given settings ''username''"
    and "isSaved \<longleftrightarrow> savedSettings \<noteq> None"
  shows "is_storage_settings_filled settings isSaved savedSettings \<longleftrightarrow>
    \<not> is_password_marked (is_storage_address_changed settings savedSettings)
        (saved_auth_methods savedSettings) settings
    \<and> \<not> is_private_key_marked (is_storage_address_changed settings savedSettings)
        (saved_auth_methods savedSettings) settings"
proof -
  have kept: "isSaved \<and> m \<in> set (saved_auth_methods savedSettings) \<longleftrightarrow>
      m \<in> set (saved_auth_methods savedSettings)" for m
    using assms(7) by (auto simp: saved_auth_methods_def)
  show ?thesis
    using assms(2-6) kept [of "JStr sftp_password"] kept [of "JStr sftp_private_key"]
    by (auto simp: sftp_filled [OF assms(1)] is_password_marked_def is_private_key_marked_def list_all_iff
        is_password_saved_def is_private_key_saved_def has_sftp_password_def has_sftp_private_key_def
        sftp_password_def sftp_private_key_def)
qed

text \<open>Save waits for a successful test of the settings on the screen.\<close>

lemma save_needs_a_tested_storage: "can_save_storage f \<Longrightarrow> is_tested f \<and> \<not> can_test_storage f"
  by (simp add: can_save_storage_def can_test_storage_def)

end
