(* ===== verification/Spec2Isabelle.thy ===== *)
theory Spec2Isabelle
  imports Prelude Paged_Properties Wal_Controllers Wal_Timeline Other_Strings Restore_Commands
    Backup_Configs Sessions App_State Api_Errors Shared_Lib Storage_Draft Notifier_Runs
    Connection_Forms Connection_Test Json_Text Sign_In_Attempts Drive_Authorization
    Backup_Actions Create_Wizard Transfer_Dialog Workspace_Members Auth_Forms Config_Screens
    Storage_Screen Notifier_Screen Resource_Transfer Verification_Config Workspace_Settings
    App_Utilities Healthcheck Databases_Page Account_Screens Database_Screen Notifier_Fields
    Storage_Fields
begin

text \<open>
  A verification development of the Databasus web frontend (\<open>src/frontend/src\<close>, TypeScript).

  \<^bold>\<open>The program.\<close> Databasus schedules backups of databases, sends them to storages, tells channels of
  people about them, watches the WAL streams of physical backups and guides a restore. The frontend is
  its user interface: pure functions that turn settings and answers of the API into what a screen shows
  or sends, and stateful hooks and controllers that keep a screen's data while requests come and go.
  The hard parts are the same everywhere: an answer may come late, twice, out of order or after the
  user moved on, in this browser tab or another; a form may be edited while it is being saved; a value
  typed by hand is turned into a connection, a shell command or a schedule in another time zone.

  \<^bold>\<open>Theories and sources.\<close> Each theory names its files; definitions keep the names of the code in
  snake case. In the order of their imports:

  \<^item> \<open>Prelude\<close>: JavaScript notions used everywhere, list lemmas, and the contracts (locales)
    \<open>request_guard\<close> (a later request supersedes the earlier ones), \<open>guarded_answers\<close> (a superseded answer
    changes nothing), \<open>invariant_machine\<close> and \<open>guarded_machine\<close> (an invariant over every run, and over the runs
    whose steps meet a condition) and \<open>tested_form\<close> (a form that has to be tested after every change).
  \<^item> \<open>Page_Values\<close>, \<open>Paged_Lists\<close>, \<open>Paged_Controller\<close>, \<open>Paged_Properties\<close>: paged lists
    (\<open>shared/lib/pagedList.ts\<close>, \<open>collectCursorPages.ts\<close>, \<open>PagedListController.ts\<close>,
    \<open>shared/hooks/usePagedList.ts\<close>). The lemmas show that rows are shown once, that late answers and
    polls without news change nothing, that busy flags end, and that collecting pages terminates.
  \<^item> \<open>Resources\<close>: \<open>RequestRevision.ts\<close>, \<open>useResourceCollection.ts\<close> and \<open>useScopedSelection.ts\<close>. The
    collection refines a map from ids; the selection is a listed resource and is remembered.
  \<^item> \<open>Sessions\<close>: \<open>shared/auth\<close> and the authorization and 401 handling of \<open>shared/api/apiClient.ts\<close>
    over a \<open>localStorage\<close> that other tabs write too. An answer counts only for the session it was
    asked under.
  \<^item> \<open>App_State\<close>: \<open>app/model/useApplicationStartup.ts\<close>, a step relation with reachable states: the
    selected workspace is a listed one, and a reconciliation never undoes a change made meanwhile.
  \<^item> \<open>Api_Errors\<close>: \<open>ApiError.ts\<close>, \<open>requireData.ts\<close>, \<open>translateApiError.ts\<close>; failures are values.
  \<^item> \<open>Shared_Lib\<close>: names, versions, sizes, durations, the first language, links to the website.
  \<^item> \<open>Js_Text\<close>, \<open>Js_Dates\<close>: strings, regular expressions, \<open>decodeURIComponent\<close>, \<open>Date\<close>.
  \<^item> \<open>Connection_Uri\<close>, \<open>Postgres_Strings\<close>, \<open>Other_Strings\<close>: the connection string parsers of
    \<open>entities/databases/model\<close>, each format and error, with round trips and what an accepted string
    guarantees; the locale \<open>connection_parser\<close> is their common contract.
  \<^item> \<open>Restore_Commands\<close>: \<open>restoreCommands.ts\<close> with a reader of POSIX shell words that says what the
    shell makes of a command.
  \<^item> \<open>Schedules\<close>, \<open>Backup_Configs\<close>: \<open>entities/schedules\<close>, \<open>entities/backup-configs\<close> and the models of
    \<open>pages/databases/model\<close>: shown and stored days, drafts, requests, completeness and changes.
  \<^item> \<open>Form_Fields\<close>, \<open>Json_Text\<close>: settings as JavaScript objects with the operations the forms share, and
    \<open>JSON.stringify\<close> and \<open>JSON.parse\<close> with their round trip.
  \<^item> \<open>Storages\<close>, \<open>Storage_Draft\<close>: the storage form (\<open>features/edit-storage\<close>) and its controller
    \<open>useStorageDraft.ts\<close>: a change needs a new test, a changed address its secrets, an ended session drops answers.
  \<^item> \<open>Drive_Authorization\<close>: the authorization of a Google Drive storage with the form, the window Google
    returns to and the channel between them (\<open>useGoogleDriveAuthorization.ts\<close>, \<open>pages/storage-oauth\<close>).
  \<^item> \<open>Notifiers\<close>, \<open>Notifier_Draft\<close>, \<open>Notifier_Runs\<close>: the seven channels (\<open>entities/notifiers\<close>,
    \<open>features/edit-notifier\<close>), their form, and the form with its requests on their way: what is saved is known
    to work.
  \<^item> \<open>Connections\<close>, \<open>Connection_Forms\<close>, \<open>Connection_Test\<close>: connections of \<open>entities/databases/model\<close> and
    \<open>features/database-connection\<close>: completeness, requests, secrets, SSL, pasted strings, and the test with its
    runs.
  \<^item> \<open>Sign_In_Attempts\<close>, \<open>Auth_Forms\<close>: the attempt kept while a provider signs the user in
    (\<open>features/oauth-sign-in\<close>, \<open>pages/auth-callback\<close>), and the forms of \<open>pages/auth\<close>, whose contract about the
    answers of the challenge is the locale \<open>challenged_form\<close>.
  \<^item> \<open>Backup_Actions\<close>: the lists of backups with their filter, buttons, dialogs and requests
    (\<open>pages/databases/ui/logical-backups\<close>, \<open>physical-backups\<close>).
  \<^item> \<open>Create_Wizard\<close>: the wizard that creates a database, with a server it talks to: the requests keep a
    protocol, and the last step closes the wizard.
  \<^item> \<open>Transfer_Dialog\<close>, \<open>Workspace_Members\<close>: the transfer of a database to another workspace, and the members
    of a workspace with the ranks their changes respect.
  \<^item> \<open>Config_Screens\<close>: the screens around a backup configuration (\<open>useBackupConfigLoad.ts\<close>,
    \<open>EditBackupConfigSection.tsx\<close>, \<open>BackupStorageSelection.tsx\<close>, \<open>useBackupCleanup.ts\<close>) and the space a storage
    uses (\<open>useStorageUsage.ts\<close>).
  \<^item> \<open>Notifier_Fields\<close>, \<open>Storage_Fields\<close>: every input of the seven notifiers and the eight storages
    (\<open>features/edit-notifier/ui/edit\<close>, \<open>features/edit-storage/ui/edit\<close>): when it can be reached and what it leaves
    in the settings. Any use of them leaves the settings tidy and a saved storage's folder alone, and what is
    marked is what keeps the form from being saved.
  \<^item> \<open>Storage_Screen\<close>, \<open>Notifier_Screen\<close>, \<open>Resource_Transfer\<close>: the screen of a storage and of a notifier
    (\<open>pages/storages/ui/StorageComponent.tsx\<close>, \<open>pages/notifiers/ui/NotifierComponent.tsx\<close>) and the dialog that moves
    one to another workspace (\<open>shared/ui/ResourceTransferDialog.tsx\<close>). In every run the flags shown agree with the
    requests under way (\<open>flags_shown\<close>), files are given up only after the warning, and a resource in use stays.
  \<^item> \<open>Verification_Config\<close>: the configuration of restore verifications (\<open>pages/databases/model/verification\<close>): it
    counts as changed exactly when the request would change it.
  \<^item> \<open>Workspace_Settings\<close>: name and deletion of a workspace (\<open>WorkspaceSettingsComponent.tsx\<close>), with the same flags.
  \<^item> \<open>Databases_Page\<close>: the page of a workspace's databases (\<open>DatabasesComponent.tsx\<close>): its loads of three lists, silent
    refreshes, reports and selection. A deleted database stays gone and the page never stays blank.
  \<^item> \<open>Database_Screen\<close>: the screen of one database (\<open>DatabaseComponent.tsx\<close>, \<open>DatabaseConfigComponent.tsx\<close> and two of its
    sections): the database shown is the selected one, flags agree with the requests under way, viewers change nothing.
  \<^item> \<open>Healthcheck\<close>: the availability checks' form and list (\<open>pages/databases/ui/healthcheck\<close>): numbers stay positive,
    attempts are those of the shown database, and polling starts only after a successful load.
  \<^item> \<open>Account_Screens\<close>: a user's profile, the instance's users, its settings and its mail server (\<open>pages/profile\<close>,
    \<open>pages/users\<close>, \<open>pages/instance-settings\<close>): checked fields are sent, each user has one action at a time, and what
    is changed during a save is kept.
  \<^item> \<open>App_Utilities\<close>: the check for a new version, the cached release, persisted values, date formats, the server's
    address and an agent's status and commands (\<open>app/model\<close>, \<open>shared/hooks\<close>, \<open>shared/time\<close>, \<open>shared/config\<close>,
    \<open>pages/instance-settings\<close>).
  \<^item> \<open>Wal_Model\<close>, \<open>Wal_Texts\<close>, \<open>Wal_Verdicts\<close>, \<open>Wal_Charts\<close>, \<open>Wal_Timeline\<close>, \<open>Wal_Controllers\<close>: WAL
    stream monitoring (\<open>pages/databases/lib/wal-stream-monitoring\<close>): texts, verdict, chart, restore
    timeline, and the controllers of refreshes, live values and the requested full backup.

  \<^bold>\<open>How the code is translated.\<close> A hook or class is a record of its state; \<open>useState\<close> and \<open>useRef\<close>
  pairs that mirror each other are one field. An \<open>async\<close> function is cut at its \<open>await\<close>: the first
  part answers a token with what the rest captured, the second part takes that token and the answer,
  \<open>Inr\<close> a value or \<open>Inl\<close> an error. A run is a sequence of such steps in any order, so that every
  interleaving, lost answer and repeated answer is covered. Callbacks are logs. Settings whose fields
  depend on a type are JavaScript objects (\<open>jsval\<close>), fields in order; fixed shapes are records. Code
  outside the repository is a parameter: \<open>dayjs\<close>, \<open>cron-parser\<close>, the browser's \<open>URL\<close>,
  \<open>URLSearchParams\<close> and number formatter, and the translation of a key.

  \<^bold>\<open>Idealisations.\<close> Numbers are exact (rationals, integers); floating point rounding and NaN arithmetic
  are not modelled, a NaN that the code tests for is \<open>None\<close>. Strings are lists of UTF-8 bytes; case
  mapping is on ASCII. Records keep the fields the code reads. \<open>Symbol()\<close> is a number not used before.

  \<^bold>\<open>Bounds.\<close> Loops are structural, have a measure, or are a \<open>partial_function\<close> whose result is proved to
  exist (\<open>collect_cursor_pages\<close>). Only \<open>json_parse\<close> has fuel, twice the length of its text and two more; by
  \<open>json_fuel_enough\<close> more fuel changes no answer. The timeline stays on its bar for up to 33 ranges; from 34 lost
  stretches on it does not, which \<open>many_short_stretches_overflow\<close> shows.

  \<^bold>\<open>Not modelled.\<close> The Go backend and the agents (other languages); the website; the markup, styles,
  focus and texts of React components, and the screens that only show one record or call one route (restores,
  verifications, audit logs, verification agents); the generated API schema and client beyond the records the code
  reads; the dictionaries; thin API calls that only name a route; tests, fixtures and tooling.
\<close>

end
